(* ===== verification/Prelude.thy ===== *)
theory Prelude
  imports Main "HOL-Library.Sublist"
begin

text \<open>
  What every component of the model shares: identifiers, the shape of a fallible operation on a
  state, and the list facts the tables of the stores rest on.

  A Go function \<open>func (s *T) op(...) (A, error)\<close> that reads and writes a state is a HOL function
  from the state to a pair of its result and the state after it, where the result is \<open>Inl\<close> of an
  error or \<open>Inr\<close> of a value. \<open>try_op\<close> is the source's \<open>if err != nil { return err }\<close>.
\<close>

named_theorems op_simps
named_theorems table_simps

type_synonym uuid = nat

abbreviation (input) uuid_nil :: uuid where
  "uuid_nil \<equiv> 0"

type_synonym ('s, 'e, 'a) op = "'s \<Rightarrow> ('e + 'a) \<times> 's"

definition ret_op :: "'a \<Rightarrow> ('s, 'e, 'a) op" where
  "ret_op x s = (Inr x, s)"

definition fail_op :: "'e \<Rightarrow> ('s, 'e, 'a) op" where
  "fail_op e s = (Inl e, s)"

definition try_op :: "('s, 'e, 'a) op \<Rightarrow> ('a \<Rightarrow> ('s, 'e, 'b) op) \<Rightarrow> ('s, 'e, 'b) op" where
  "try_op m k s = (case m s of (Inl e, s') \<Rightarrow> (Inl e, s') | (Inr x, s') \<Rightarrow> k x s')"

lemma ret_op_simp [simp, op_simps]: "ret_op x s = (Inr x, s)"
  by (simp add: ret_op_def)

lemma fail_op_simp [simp, op_simps]: "fail_op e s = (Inl e, s)"
  by (simp add: fail_op_def)

lemma try_op_Inl [simp]: "m s = (Inl e, s') \<Longrightarrow> try_op m k s = (Inl e, s')"
  by (simp add: try_op_def)

lemma try_op_Inr [simp]: "m s = (Inr x, s') \<Longrightarrow> try_op m k s = k x s'"
  by (simp add: try_op_def)

lemma try_op_cases [consumes 1, case_names Failed Done]:
  assumes "try_op m k s = (r, t)"
  obtains e where "m s = (Inl e, t)" and "r = Inl e"
  | x s' where "m s = (Inr x, s')" and "k x s' = (r, t)"
  using assms by (cases "m s"; cases "fst (m s)") (auto simp: try_op_def)

text \<open>A property of the state that both halves of a sequence keep, the sequence keeps.\<close>

lemma try_op_invariant:
  assumes "try_op m k s = (r, t)" and "P s"
    and "\<And>r' s'. m s = (r', s') \<Longrightarrow> P s \<Longrightarrow> P s'"
    and "\<And>x s'. m s = (Inr x, s') \<Longrightarrow> P s' \<Longrightarrow> k x s' = (r, t) \<Longrightarrow> P t"
  shows "P t"
  using assms by (cases rule: try_op_cases) blast+

text \<open>\<open>case_op\<close> goes on after a failure too; \<open>each_op\<close> is a loop that logs the errors of its body.\<close>

definition case_op ::
  "('s, 'e, 'a) op \<Rightarrow> ('e \<Rightarrow> ('s, 'f, 'b) op) \<Rightarrow> ('a \<Rightarrow> ('s, 'f, 'b) op) \<Rightarrow> ('s, 'f, 'b) op" where
  "case_op m h k s = (case m s of (Inl e, s') \<Rightarrow> h e s' | (Inr x, s') \<Rightarrow> k x s')"

lemma case_op_Inl [simp]: "m s = (Inl e, s') \<Longrightarrow> case_op m h k s = h e s'"
  by (simp add: case_op_def)

lemma case_op_Inr [simp]: "m s = (Inr x, s') \<Longrightarrow> case_op m h k s = k x s'"
  by (simp add: case_op_def)

fun each_op :: "('a \<Rightarrow> ('s, 'e, unit) op) \<Rightarrow> 'a list \<Rightarrow> ('s, 'e, unit) op" where
  "each_op f [] s = (Inr (), s)"
| "each_op f (x # xs) s = each_op f xs (snd (f x s))"

text \<open>\<open>loop_op\<close> is a loop whose body returns the function on an error.\<close>

fun loop_op :: "('a \<Rightarrow> ('s, 'e, unit) op) \<Rightarrow> 'a list \<Rightarrow> ('s, 'e, unit) op" where
  "loop_op f [] = ret_op ()"
| "loop_op f (x # xs) = try_op (f x) (\<lambda>_. loop_op f xs)"

text \<open>An operation keeps a property of the state.\<close>

definition keeps :: "('s \<Rightarrow> bool) \<Rightarrow> ('s, 'e, 'a) op \<Rightarrow> bool" where
  "keeps P m \<longleftrightarrow> (\<forall>s. P s \<longrightarrow> P (snd (m s)))"

lemma keepsI: "(\<And>s. P s \<Longrightarrow> P (snd (m s))) \<Longrightarrow> keeps P m"
  by (simp add: keeps_def)

lemma keepsD: "keeps P m \<Longrightarrow> P s \<Longrightarrow> P (snd (m s))"
  by (simp add: keeps_def)

lemma keeps_ret [simp, intro]: "keeps P (ret_op x)"
  by (simp add: keeps_def)

lemma keeps_fail [simp, intro]: "keeps P (fail_op e)"
  by (simp add: keeps_def)

lemma keeps_case [intro]:
  "keeps P m \<Longrightarrow> (\<And>e. keeps P (h e)) \<Longrightarrow> (\<And>x. keeps P (k x)) \<Longrightarrow> keeps P (case_op m h k)"
  unfolding keeps_def case_op_def by (auto split: prod.splits sum.splits)

lemma keeps_each [intro]: "(\<And>x. x \<in> set xs \<Longrightarrow> keeps P (f x)) \<Longrightarrow> keeps P (each_op f xs)"
proof (induction xs)
  case (Cons x xs)
  then have "keeps P (f x)" "keeps P (each_op f xs)" by auto
  then show ?case by (simp add: keeps_def)
qed (simp add: keeps_def)

lemma keeps_try [intro]: "keeps P m \<Longrightarrow> (\<And>x. keeps P (k x)) \<Longrightarrow> keeps P (try_op m k)"
  unfolding keeps_def try_op_def by (auto split: prod.splits sum.splits)

lemma keeps_loop [intro]: "(\<And>x. x \<in> set xs \<Longrightarrow> keeps P (f x)) \<Longrightarrow> keeps P (loop_op f xs)"
  by (induction xs) (simp_all add: keeps_ret keeps_try)

subsection \<open>Tables: lists of rows with an identifier\<close>

text \<open>
  A database table is the list of its rows. \<open>update_where p f\<close> is SQL's
  \<open>UPDATE ... SET f WHERE p\<close>; \<open>filter\<close> is \<open>SELECT ... WHERE\<close> and, negated, \<open>DELETE ... WHERE\<close>.
\<close>

definition update_where :: "('r \<Rightarrow> bool) \<Rightarrow> ('r \<Rightarrow> 'r) \<Rightarrow> 'r list \<Rightarrow> 'r list" where
  "update_where p f rows = map (\<lambda>r. if p r then f r else r) rows"

lemma update_where_Nil [simp, table_simps]: "update_where p f [] = []"
  by (simp add: update_where_def)

lemma update_where_Cons [simp, table_simps]:
  "update_where p f (r # rows) = (if p r then f r else r) # update_where p f rows"
  by (simp add: update_where_def)

lemma set_update_where: "set (update_where p f rows) = (\<lambda>r. if p r then f r else r) ` set rows"
  by (simp add: update_where_def)

lemma in_update_where:
  "x \<in> set (update_where p f rows) \<longleftrightarrow> (\<exists>r \<in> set rows. p r \<and> x = f r) \<or> x \<in> set rows \<and> \<not> p x"
  by (auto simp: set_update_where)

lemma length_update_where [simp]: "length (update_where p f rows) = length rows"
  by (simp add: update_where_def)

lemma map_update_where_same:
  assumes "\<And>r. p r \<Longrightarrow> g (f r) = g r"
  shows "map g (update_where p f rows) = map g rows"
  using assms by (auto simp: update_where_def)

lemma update_where_id:
  assumes "\<And>r. r \<in> set rows \<Longrightarrow> \<not> p r"
  shows "update_where p f rows = rows"
  using assms by (induction rows) auto

lemma filter_update_where_disjoint:
  assumes "\<And>r. p r \<Longrightarrow> \<not> q r" and "\<And>r. p r \<Longrightarrow> \<not> q (f r)"
  shows "filter q (update_where p f rows) = filter q rows"
  using assms by (induction rows) auto

text \<open>A column stays free of duplicates when the one row that changes gets a value of its own.\<close>

lemma distinct_map_update_where:
  assumes "distinct (map g rows)" and "distinct (map h rows)" and "\<And>r. q r \<longleftrightarrow> h r = i"
    and "\<And>r x. r \<in> set rows \<Longrightarrow> q r \<Longrightarrow> x \<in> set rows \<Longrightarrow> \<not> q x \<Longrightarrow> g (f r) \<noteq> g x"
  shows "distinct (map g (update_where q f rows))"
  using assms
proof (induction rows)
  case (Cons r rows)
  show ?case
  proof (cases "q r")
    case True
    then have other: "\<not> q x" if "x \<in> set rows" for x
    proof -
      have "h r \<noteq> h x" using Cons.prems(2) imageI [OF that, of h] by auto
      then show ?thesis using Cons.prems(3) True by metis
    qed
    then have "update_where q f rows = rows" by (intro update_where_id) auto
    moreover have "g (f r) \<notin> g ` set rows" using Cons.prems(4) True other by auto
    ultimately show ?thesis using Cons.prems(1) True by simp
  next
    case False
    have "g r \<noteq> g x" if "x \<in> set (update_where q f rows)" for x
      using that Cons.prems(1,4) False by (auto simp: in_update_where) (metis imageI)
    moreover have "distinct (map g (update_where q f rows))"
      by (rule Cons.IH) (use Cons.prems in auto)
    ultimately show ?thesis using False by auto
  qed
qed simp

text \<open>The first row satisfying a predicate, if there is one.\<close>

lemma find_SomeD: "List.find p xs = Some x \<Longrightarrow> x \<in> set xs \<and> p x"
  by (induction xs) (auto split: if_splits)

lemma find_None_iff_all: "List.find p xs = None \<longleftrightarrow> (\<forall>x \<in> set xs. \<not> p x)"
  by (auto simp: find_None_iff)

lemma find_append:
  "List.find p (xs @ ys) = (case List.find p xs of None \<Rightarrow> List.find p ys | Some x \<Rightarrow> Some x)"
  by (induction xs) auto

text \<open>At most one row of a table satisfies a predicate.\<close>

definition at_most_one :: "('r \<Rightarrow> bool) \<Rightarrow> 'r list \<Rightarrow> bool" where
  "at_most_one p rows \<longleftrightarrow> length (filter p rows) \<le> 1"

lemma at_most_one_Nil [simp]: "at_most_one p []"
  by (simp add: at_most_one_def)

lemma at_most_one_appendI:
  "at_most_one p rows \<Longrightarrow> (p r \<Longrightarrow> \<forall>x \<in> set rows. \<not> p x) \<Longrightarrow> at_most_one p (rows @ [r])"
  by (auto simp: at_most_one_def filter_empty_conv)

lemma at_most_one_filter: "at_most_one p rows \<Longrightarrow> at_most_one p (filter q rows)"
proof -
  assume h: "at_most_one p rows"
  have "length (filter p (filter q rows)) \<le> length (filter p rows)"
    by (induction rows) auto
  with h show ?thesis by (simp add: at_most_one_def)
qed

lemma at_most_one_update_where:
  assumes "at_most_one p rows" and "\<And>r. q r \<Longrightarrow> p (f r) \<Longrightarrow> p r"
  shows "at_most_one p (update_where q f rows)"
proof -
  have "length (filter p (update_where q f rows)) \<le> length (filter p rows)"
    using assms(2) by (induction rows) (auto intro: le_SucI)
  with assms(1) show ?thesis by (simp add: at_most_one_def)
qed

lemma at_most_one_unique:
  assumes "at_most_one p rows" and "List.find p rows = Some r" and "x \<in> set rows" and "p x"
  shows "x = r"
proof -
  from find_SomeD [OF assms(2)] have r: "r \<in> set (filter p rows)" by simp
  from assms(3,4) have x: "x \<in> set (filter p rows)" by simp
  from assms(1) have "length (filter p rows) \<le> 1" by (simp add: at_most_one_def)
  with r x show ?thesis
    by (cases "filter p rows"; cases "tl (filter p rows)") auto
qed

lemma length_filter_le_1:
  assumes "distinct (map f xs)"
    and "\<And>x y. x \<in> set xs \<Longrightarrow> y \<in> set xs \<Longrightarrow> p x \<Longrightarrow> p y \<Longrightarrow> f x = f y"
  shows "length (filter p xs) \<le> 1"
  using assms
proof (induction xs)
  case (Cons x xs)
  have "filter p xs = []" if "p x"
  proof -
    have "f y \<noteq> f x" if "y \<in> set xs" for y
      using Cons.prems(1) imageI [OF that, of f] by auto
    with Cons.prems(2) [of _ x] \<open>p x\<close> show ?thesis by (fastforce simp: filter_empty_conv)
  qed
  moreover have "length (filter p xs) \<le> 1"
  proof (rule Cons.IH)
    show "distinct (map f xs)" using Cons.prems(1) by simp
  qed (rule Cons.prems(2); simp)
  ultimately show ?case by simp
qed simp

subsection \<open>Sums over a table\<close>

lemma sum_list_filter_split:
  fixes f :: "'a \<Rightarrow> 'b :: comm_monoid_add"
  shows "sum_list (map f xs) =
    sum_list (map f (filter p xs)) + sum_list (map f (filter (\<lambda>x. \<not> p x) xs))"
  by (induction xs) (auto simp: ac_simps)

end
