(* ===== verification/GoLib.thy ===== *)
theory GoLib
  imports Complex_Main Prelude "HOL-Library.Word"
begin

text \<open>
  What the model uses of the Go language and its standard library: 64-bit integers, \<open>time.Time\<close>
  and \<open>time.Duration\<close>, \<open>strings\<close>, \<open>unicode/utf8\<close>.

  A Go string is the list of its bytes, an Isabelle \<open>string\<close>. \<open>strings.ToUpper\<close>,
  \<open>strings.ToLower\<close> and \<open>strings.EqualFold\<close> are modelled on ASCII letters: every byte from 128 up
  is left alone, so the case of letters outside ASCII is not folded.
\<close>

subsection \<open>Integers and time\<close>

text \<open>Two's complement wrap-around of a 64-bit signed result.\<close>

definition wrap64 :: "int \<Rightarrow> int" where
  "wrap64 x = sint (word_of_int x :: 64 word)"

lemma wrap64_id: "- (2 ^ 63) \<le> x \<Longrightarrow> x < 2 ^ 63 \<Longrightarrow> wrap64 x = x"
  by (simp add: wrap64_def sint_sbintrunc' signed_take_bit_int_eq_self)

lemma wrap64_eq: "wrap64 x = (x + 2 ^ 63) mod 2 ^ 64 - 2 ^ 63"
  by (simp add: wrap64_def int_word_sint)

lemma wrap64_range: "- (2 ^ 63) \<le> wrap64 x \<and> wrap64 x < 2 ^ 63"
  using sint_ge [of "word_of_int x :: 64 word"] sint_lt [of "word_of_int x :: 64 word"]
  by (simp add: wrap64_def)

text \<open>
  An instant counts nanoseconds since Go's zero time (1 January of year 1, UTC), so
  \<open>t.IsZero()\<close> is \<open>t = 0\<close>. A duration is a number of nanoseconds that fits 64 bits.
\<close>

type_synonym instant = int
type_synonym duration = int

abbreviation go_second :: duration where "go_second \<equiv> 1000000000"
abbreviation go_minute :: duration where "go_minute \<equiv> 60000000000"
abbreviation go_hour :: duration where "go_hour \<equiv> 3600000000000"

text \<open>\<open>t.Sub(u)\<close> saturates at the ends of the 64-bit range.\<close>

definition time_sub :: "instant \<Rightarrow> instant \<Rightarrow> duration" where
  "time_sub t u = max (- (2 ^ 63)) (min (2 ^ 63 - 1) (t - u))"

lemma time_sub_pos_iff: "0 < time_sub t u \<longleftrightarrow> u < t"
  by (auto simp: time_sub_def)

lemma time_sub_le: "u \<le> t \<Longrightarrow> time_sub t u \<le> t - u"
  by (simp add: time_sub_def)

lemma time_sub_lipschitz: "t \<le> t' \<Longrightarrow> time_sub t' u \<le> time_sub t u + (t' - t)"
  by (auto simp: time_sub_def)

lemma time_sub_mono: "t \<le> t' \<Longrightarrow> time_sub t u \<le> time_sub t' u"
  by (auto simp: time_sub_def)

lemma time_sub_self [simp]: "time_sub t t = 0"
  by (simp add: time_sub_def)

lemma time_sub_less_iff: "0 < d \<Longrightarrow> d < 2 ^ 63 - 1 \<Longrightarrow> time_sub t u < d \<longleftrightarrow> t - u < d"
  by (auto simp: time_sub_def)

text \<open>\<open>t.Truncate(d)\<close> rounds down to a multiple of \<open>d\<close> since the zero time.\<close>

definition time_truncate :: "instant \<Rightarrow> duration \<Rightarrow> instant" where
  "time_truncate t d = (if d \<le> 0 then t else t - t mod d)"

lemma time_truncate_bounds: "0 < d \<Longrightarrow> time_truncate t d \<le> t \<and> t < time_truncate t d + d"
  using pos_mod_bound [of d t] pos_mod_sign [of d t] by (simp add: time_truncate_def)

lemma time_truncate_dvd: "0 < d \<Longrightarrow> d dvd time_truncate t d"
  by (simp add: time_truncate_def minus_mod_eq_mult_div)

lemma time_truncate_eqI:
  assumes "0 < d" and "time_truncate t d \<le> u" and "u < time_truncate t d + d"
  shows "time_truncate u d = time_truncate t d"
proof -
  let ?b = "time_truncate t d"
  obtain k where k: "?b = d * k" using time_truncate_dvd [OF assms(1), of t] by (elim dvdE)
  have "u mod d = (u - d * k) mod d" by (simp add: mod_diff_eq [symmetric])
  also have "\<dots> = u - d * k" using assms k by (intro mod_pos_pos_trivial) auto
  finally show ?thesis using assms(1) k by (simp add: time_truncate_def)
qed

text \<open>The conversion \<open>time.Duration(f)\<close> of a float truncates towards zero.\<close>

definition float_trunc :: "rat \<Rightarrow> int" where
  "float_trunc f = (if 0 \<le> f then \<lfloor>f\<rfloor> else \<lceil>f\<rceil>)"

lemma float_trunc_bounds: "0 \<le> f \<Longrightarrow> of_int (float_trunc f) \<le> f \<and> f < of_int (float_trunc f + 1)"
  by (simp add: float_trunc_def) linarith

text \<open>\<open>d.Seconds()\<close>.\<close>

definition seconds :: "duration \<Rightarrow> rat" where
  "seconds d = of_int d / 1000000000"

lemma seconds_simps [simp]:
  "seconds 0 = 0" "0 < seconds d \<longleftrightarrow> 0 < d" "0 \<le> seconds d \<longleftrightarrow> 0 \<le> d"
  by (auto simp: seconds_def)

lemma seconds_add: "seconds (a + b) = seconds a + seconds b"
  by (simp add: seconds_def add_divide_distrib)

lemma seconds_mono: "a \<le> b \<Longrightarrow> seconds a \<le> seconds b"
  by (simp add: seconds_def divide_right_mono)

subsection \<open>Strings\<close>

definition byte_of :: "char \<Rightarrow> nat" where
  "byte_of c = of_char c"

definition has_prefix :: "string \<Rightarrow> string \<Rightarrow> bool" where
  "has_prefix s p = (take (length p) s = p)"

definition has_suffix :: "string \<Rightarrow> string \<Rightarrow> bool" where
  "has_suffix s p = has_prefix (rev s) (rev p)"

definition trim_prefix :: "string \<Rightarrow> string \<Rightarrow> string" where
  "trim_prefix s p = (if has_prefix s p then drop (length p) s else s)"

definition trim_suffix :: "string \<Rightarrow> string \<Rightarrow> string" where
  "trim_suffix s p = (if has_suffix s p then take (length s - length p) s else s)"

fun contains :: "string \<Rightarrow> string \<Rightarrow> bool" where
  "contains [] p = (p = [])"
| "contains (c # s) p = (has_prefix (c # s) p \<or> contains s p)"

definition lower_char :: "char \<Rightarrow> char" where
  "lower_char c = (if 65 \<le> byte_of c \<and> byte_of c \<le> 90 then char_of (byte_of c + 32) else c)"

definition upper_char :: "char \<Rightarrow> char" where
  "upper_char c = (if 97 \<le> byte_of c \<and> byte_of c \<le> 122 then char_of (byte_of c - 32) else c)"

definition to_lower :: "string \<Rightarrow> string" where
  "to_lower s = map lower_char s"

definition to_upper :: "string \<Rightarrow> string" where
  "to_upper s = map upper_char s"

definition equal_fold :: "string \<Rightarrow> string \<Rightarrow> bool" where
  "equal_fold s t = (to_lower s = to_lower t)"

lemma equal_fold_refl [simp]: "equal_fold s s"
  by (simp add: equal_fold_def)

lemma equal_fold_sym: "equal_fold s t \<Longrightarrow> equal_fold t s"
  by (simp add: equal_fold_def)

lemma equal_fold_trans: "equal_fold s t \<Longrightarrow> equal_fold t u \<Longrightarrow> equal_fold s u"
  by (simp add: equal_fold_def)

text \<open>
  \<open>strings.TrimSpace\<close>: the white space of Unicode, as the UTF-8 encodings of its characters.
  The one-byte ones are tab, line feed, vertical tab, form feed, carriage return and space; the
  others are U+0085, U+00A0, U+1680, U+2000 to U+200A, U+2028, U+2029, U+202F, U+205F, U+3000.
\<close>

definition spaces :: "nat list list" where
  "spaces = [[9], [10], [11], [12], [13], [32], [194, 133], [194, 160], [225, 154, 128],
     [226, 128, 128], [226, 128, 129], [226, 128, 130], [226, 128, 131], [226, 128, 132],
     [226, 128, 133], [226, 128, 134], [226, 128, 135], [226, 128, 136], [226, 128, 137],
     [226, 128, 138], [226, 128, 168], [226, 128, 169], [226, 128, 175], [226, 129, 159],
     [227, 128, 128]]"

definition space_at :: "nat list list \<Rightarrow> string \<Rightarrow> nat" where
  "space_at encs s =
     (case List.find (\<lambda>e. take (length e) (map byte_of s) = e) encs of
        None \<Rightarrow> 0 | Some e \<Rightarrow> length e)"

function trim_left :: "nat list list \<Rightarrow> string \<Rightarrow> string" where
  "trim_left encs s =
     (if space_at encs s = 0 \<or> s = [] then s else trim_left encs (drop (space_at encs s) s))"
  by pat_completeness auto
termination
  by (relation "measure (\<lambda>(encs, s). length s)") auto

declare trim_left.simps [simp del]

definition trim_space :: "string \<Rightarrow> string" where
  "trim_space s = rev (trim_left (map rev spaces) (rev (trim_left spaces s)))"

lemma trim_left_suffix: "suffix (trim_left encs s) s"
proof (induction encs s rule: trim_left.induct)
  case (1 encs s)
  show ?case
  proof (cases "space_at encs s = 0 \<or> s = []")
    case True
    then show ?thesis by (subst trim_left.simps) simp
  next
    case False
    with "1.IH" have "suffix (trim_left encs (drop (space_at encs s) s)) (drop (space_at encs s) s)"
      by simp
    then have "suffix (trim_left encs (drop (space_at encs s) s)) s"
      by (meson suffix_drop suffix_order.order_trans)
    with False show ?thesis by (subst trim_left.simps) simp
  qed
qed

lemma length_trim_left: "length (trim_left encs s) \<le> length s"
  using trim_left_suffix by (rule suffix_length_le)

lemma length_trim_space: "length (trim_space s) \<le> length s"
proof -
  have "length (trim_space s) \<le> length (trim_left spaces s)"
    using length_trim_left [of "map rev spaces" "rev (trim_left spaces s)"]
    by (simp add: trim_space_def)
  also have "\<dots> \<le> length s" by (rule length_trim_left)
  finally show ?thesis .
qed

lemma trim_space_Nil [simp]: "trim_space [] = []"
  by (simp add: trim_space_def trim_left.simps)


text \<open>Trimming and folding keep what they are given when there is nothing to do.\<close>

lemma contains_Nil [simp]: "contains s []"
  by (cases s) (simp_all add: has_prefix_def)

subsection \<open>Formatting\<close>

text \<open>\<open>%d\<close> and \<open>strconv.Itoa\<close>.\<close>

definition digit_char :: "nat \<Rightarrow> char" where
  "digit_char d = char_of (48 + d mod 10)"

fun show_nat :: "nat \<Rightarrow> string" where
  "show_nat n = (if n < 10 then [digit_char n] else show_nat (n div 10) @ [digit_char n])"

declare show_nat.simps [simp del]

definition show_int :: "int \<Rightarrow> string" where
  "show_int i = (if i < 0 then ''-'' @ show_nat (nat (- i)) else show_nat (nat i))"

text \<open>The value of a string of decimal digits, to read back what was written.\<close>

definition digits_val :: "string \<Rightarrow> nat" where
  "digits_val s = foldl (\<lambda>v c. 10 * v + (byte_of c - 48)) 0 s"

lemma byte_of_digit_char [simp]: "byte_of (digit_char d) = 48 + d mod 10"
proof -
  have "48 + d mod 10 < 256" using mod_less_divisor [of 10 d] by linarith
  then show ?thesis by (simp add: digit_char_def byte_of_def)
qed

lemma digits_val_show_nat [simp]: "digits_val (show_nat n) = n"
proof (induction n rule: show_nat.induct)
  case (1 n)
  show ?case
  proof (cases "n < 10")
    case True
    then show ?thesis by (subst show_nat.simps) (simp add: digits_val_def)
  next
    case False
    then have "digits_val (show_nat n) = 10 * (n div 10) + n mod 10"
      using 1 by (subst show_nat.simps) (simp add: digits_val_def)
    then show ?thesis by simp
  qed
qed

lemma show_nat_inj: "show_nat m = show_nat n \<Longrightarrow> m = n"
  by (metis digits_val_show_nat)

text \<open>
  \<open>time.Duration.String\<close>: hours, minutes and seconds with a fraction, or below a second the unit
  that leaves a whole part. A fraction drops its trailing zeros.
\<close>

fun pad_digits :: "nat \<Rightarrow> int \<Rightarrow> string" where
  "pad_digits k v = (if k = 0 then [] else pad_digits (k - 1) (v div 10) @ [digit_char (nat (v mod 10))])"

declare pad_digits.simps [simp del]

definition fraction :: "nat \<Rightarrow> int \<Rightarrow> string" where
  "fraction prec v =
     (let ds = rev (dropWhile (\<lambda>c. c = CHR ''0'') (rev (pad_digits prec v)))
      in if ds = [] then [] else CHR ''.'' # ds)"

definition duration_string :: "duration \<Rightarrow> string" where
  "duration_string d =
     (let u = \<bar>d\<bar>; sign = (if d < 0 then ''-'' else []) in
      if u = 0 then ''0s''
      else if u < 1000 then sign @ show_int u @ ''ns''
      else if u < 1000000
        then sign @ show_int (u div 1000) @ fraction 3 (u mod 1000) @ [char_of (194 :: nat), char_of (181 :: nat), CHR ''s'']
      else if u < 1000000000
        then sign @ show_int (u div 1000000) @ fraction 6 (u mod 1000000) @ ''ms''
      else
        let s = u div 1000000000; m = s div 60; h = m div 60;
          secs = show_int (s mod 60) @ fraction 9 (u mod 1000000000) @ ''s''
        in sign @ (if 0 < h then show_int h @ ''h'' else []) @
           (if 0 < m then show_int (m mod 60) @ ''m'' else []) @ secs)"

lemmas show_eval = show_int_def show_nat.simps digit_char_def duration_string_def fraction_def
  pad_digits.simps Let_def char_of_def

end
