(* ===== verification/TokenBucket.thy ===== *)
theory TokenBucket
  imports GoLib
begin

text \<open>
  The two token buckets of the service: the per-source limiter of the ingestion path
  (\<open>business/sdk/ingest/limiter.go\<close>) and the keyed limiter of the query API
  (\<open>business/sdk/ratelimit/ratelimit.go\<close>) with the middleware that picks its policy
  (\<open>app/sdk/mid/ratelimitapikey.go\<close>). Token counts are exact rationals where the code has
  float64; the clock is the \<open>now\<close> the caller passes, as in the code. The mutex makes every call
  atomic, so a run of a limiter is a sequence of calls.

  The locale \<open>token_bucket\<close> states what a bucket promises and proves, once, that what it admits in
  any window of time is at most the burst plus the rate times the length of the window.
\<close>

subsection \<open>Runs of requests\<close>

text \<open>\<open>step s q\<close> decides request \<open>q\<close>: whether it is admitted, and the state after it.\<close>

fun run_steps :: "('s \<Rightarrow> 'q \<Rightarrow> bool \<times> 's) \<Rightarrow> 's \<Rightarrow> 'q list \<Rightarrow> 's" where
  "run_steps step s [] = s"
| "run_steps step s (q # qs) = run_steps step (snd (step s q)) qs"

fun admitted :: "('s \<Rightarrow> 'q \<Rightarrow> bool \<times> 's) \<Rightarrow> ('q \<Rightarrow> rat) \<Rightarrow> 's \<Rightarrow> 'q list \<Rightarrow> rat" where
  "admitted step weight s [] = 0"
| "admitted step weight s (q # qs) =
     (if fst (step s q) then weight q else 0) + admitted step weight (snd (step s q)) qs"

text \<open>The requests come in the order of their times, none before \<open>t\<close> and none after \<open>t'\<close>.\<close>

fun in_order :: "('q \<Rightarrow> instant) \<Rightarrow> instant \<Rightarrow> instant \<Rightarrow> 'q list \<Rightarrow> bool" where
  "in_order clk t t' [] = (t \<le> t')"
| "in_order clk t t' (q # qs) = (t \<le> clk q \<and> in_order clk (clk q) t' qs)"

lemma in_order_le: "in_order clk t t' qs \<Longrightarrow> t \<le> t'"
  by (induction qs arbitrary: t) force+

subsection \<open>The contract of a bucket\<close>

text \<open>
  \<open>c\<close> is the configuration of one key. \<open>avail c s t\<close> is what its bucket would hold at time \<open>t\<close>,
  \<open>charge c q\<close> what an admitted request takes from it (nothing, for another key).
\<close>

locale token_bucket =
  fixes step :: "'s \<Rightarrow> 'q \<Rightarrow> bool \<times> 's"
    and clk :: "'q \<Rightarrow> instant"
    and ok :: "'c \<Rightarrow> 'q \<Rightarrow> bool"
    and charge :: "'c \<Rightarrow> 'q \<Rightarrow> rat"
    and avail :: "'c \<Rightarrow> 's \<Rightarrow> instant \<Rightarrow> rat"
    and rate :: "'c \<Rightarrow> rat"
    and burst :: "'c \<Rightarrow> rat"
    and good :: "'c \<Rightarrow> 's \<Rightarrow> instant \<Rightarrow> bool"
  assumes avail_le: "good c s t \<Longrightarrow> avail c s t \<le> burst c"
    and avail_nonneg: "good c s t \<Longrightarrow> 0 \<le> avail c s t"
    and avail_grow: "good c s t \<Longrightarrow> t \<le> t' \<Longrightarrow>
      avail c s t' \<le> avail c s t + rate c * seconds (t' - t)"
    and good_later: "good c s t \<Longrightarrow> t \<le> t' \<Longrightarrow> good c s t'"
    and good_step: "good c s (clk q) \<Longrightarrow> ok c q \<Longrightarrow> good c (snd (step s q)) (clk q)"
    and spend: "good c s (clk q) \<Longrightarrow> ok c q \<Longrightarrow>
      avail c (snd (step s q)) (clk q) =
        avail c s (clk q) - (if fst (step s q) then charge c q else 0)"
begin

lemma good_run:
  assumes "good c s t" and "in_order clk t t' qs" and "\<forall>q \<in> set qs. ok c q"
  shows "good c (run_steps step s qs) t'"
  using assms
proof (induction qs arbitrary: s t)
  case Nil
  then show ?case by (auto intro: good_later)
next
  case (Cons q qs)
  then have "good c (snd (step s q)) (clk q)" by (auto intro: good_step good_later)
  with Cons show ?case by simp
qed

text \<open>What is admitted between \<open>t\<close> and \<open>t'\<close>, and what is left, was there or was refilled.\<close>

lemma admitted_avail:
  assumes "good c s t" and "in_order clk t t' qs" and "\<forall>q \<in> set qs. ok c q"
  shows "admitted step (charge c) s qs + avail c (run_steps step s qs) t'
    \<le> avail c s t + rate c * seconds (t' - t)"
  using assms
proof (induction qs arbitrary: s t)
  case Nil
  then show ?case by (simp add: avail_grow)
next
  case (Cons q qs)
  let ?s = "snd (step s q)"
  from Cons.prems have gq: "good c s (clk q)" and le: "t \<le> clk q" and okq: "ok c q"
    by (auto intro: good_later)
  have "good c ?s (clk q)" using gq okq by (rule good_step)
  with Cons have ih: "admitted step (charge c) ?s qs + avail c (run_steps step ?s qs) t'
      \<le> avail c ?s (clk q) + rate c * seconds (t' - clk q)"
    by simp
  have "avail c s (clk q) \<le> avail c s t + rate c * seconds (clk q - t)"
    using Cons.prems(1) le by (rule avail_grow)
  moreover have "rate c * seconds (t' - t) =
      rate c * seconds (t' - clk q) + rate c * seconds (clk q - t)"
    using seconds_add [of "t' - clk q" "clk q - t"] by (simp add: distrib_left)
  ultimately show ?case
    using ih spend [OF gq okq] by simp
qed

theorem admitted_le:
  assumes "good c s t" and "in_order clk t t' qs" and "\<forall>q \<in> set qs. ok c q"
  shows "admitted step (charge c) s qs \<le> burst c + rate c * seconds (t' - t)"
proof -
  have "0 \<le> avail c (run_steps step s qs) t'"
    using good_run [OF assms] by (rule avail_nonneg)
  with admitted_avail [OF assms] avail_le [OF assms(1)] show ?thesis by linarith
qed

text \<open>The bound holds of any window of a run, not only of its beginning.\<close>

theorem window_le:
  assumes "good c s t0" and "in_order clk t0 t ps" and "in_order clk t t' qs"
    and "\<forall>q \<in> set ps. ok c q" and "\<forall>q \<in> set qs. ok c q"
  shows "admitted step (charge c) (run_steps step s ps) qs
    \<le> burst c + rate c * seconds (t' - t)"
  using admitted_le [OF good_run [OF assms(1,2,4)] assms(3,5)] .

end

subsection \<open>The bucket both limiters keep\<close>

record bucket =
  bkt_tokens :: rat
  bkt_last :: instant

text \<open>The refill both limiters do: from the elapsed time, clamped to the capacity.\<close>

definition refill :: "rat \<Rightarrow> rat \<Rightarrow> instant \<Rightarrow> bucket \<Rightarrow> bucket" where
  "refill cap rate now b =
     (let elapsed = seconds (time_sub now (bkt_last b)) in
      if 0 < elapsed then \<lparr> bkt_tokens = min cap (bkt_tokens b + elapsed * rate), bkt_last = now \<rparr>
      else b)"

text \<open>What a bucket holds at a time, the refill included; an absent bucket starts full.\<close>

definition level :: "rat \<Rightarrow> rat \<Rightarrow> bucket option \<Rightarrow> instant \<Rightarrow> rat" where
  "level cap rate ob now =
     (case ob of None \<Rightarrow> cap | Some b \<Rightarrow> bkt_tokens (refill cap rate now b))"

definition sound_bucket :: "rat \<Rightarrow> bucket option \<Rightarrow> instant \<Rightarrow> bool" where
  "sound_bucket cap ob now =
     (case ob of None \<Rightarrow> True
      | Some b \<Rightarrow> 0 \<le> bkt_tokens b \<and> bkt_tokens b \<le> cap \<and> bkt_last b \<le> now)"

lemma refill_self [simp]: "bkt_last b = now \<Longrightarrow> refill cap rate now b = b"
  by (simp add: refill_def)

lemma refill_last: "bkt_last b \<le> now \<Longrightarrow> bkt_last (refill cap rate now b) = now"
  by (auto simp: refill_def Let_def time_sub_pos_iff)

lemma refill_tokens:
  assumes "bkt_last b \<le> now" and "bkt_tokens b \<le> cap" and "0 < rate"
  shows "bkt_tokens (refill cap rate now b) =
    min cap (bkt_tokens b + seconds (time_sub now (bkt_last b)) * rate)"
  using assms by (auto simp: refill_def Let_def time_sub_pos_iff)

lemma refill_bounds:
  assumes "0 \<le> bkt_tokens b" and "bkt_tokens b \<le> cap" and "0 < rate"
  shows "0 \<le> bkt_tokens (refill cap rate now b)" and "bkt_tokens (refill cap rate now b) \<le> cap"
  using assms by (auto simp: refill_def Let_def)

lemma level_bounds:
  assumes "sound_bucket cap ob now" and "0 < rate" and "0 < cap"
  shows "0 \<le> level cap rate ob now" and "level cap rate ob now \<le> cap"
  using assms by (auto simp: level_def sound_bucket_def refill_bounds split: option.splits)

lemma sound_bucket_later: "sound_bucket cap ob t \<Longrightarrow> t \<le> t' \<Longrightarrow> sound_bucket cap ob t'"
  by (auto simp: sound_bucket_def split: option.splits)

lemma min_grow:
  fixes x y d k cap :: rat
  shows "0 \<le> d \<Longrightarrow> x \<le> y + d \<Longrightarrow> min cap (k + x) \<le> min cap (k + y) + d"
  by (auto simp: min_def)

lemma level_grow:
  assumes "sound_bucket cap ob t" and "t \<le> t'" and "0 < rate"
  shows "level cap rate ob t' \<le> level cap rate ob t + rate * seconds (t' - t)"
proof (cases ob)
  case None
  then show ?thesis using assms by (simp add: level_def)
next
  case (Some b)
  with assms have b: "bkt_last b \<le> t" "bkt_tokens b \<le> cap" by (auto simp: sound_bucket_def)
  let ?e = "\<lambda>u. seconds (time_sub u (bkt_last b))"
  have "?e t' \<le> ?e t + seconds (t' - t)"
    using seconds_mono [OF time_sub_lipschitz [OF assms(2), of "bkt_last b"]]
    by (simp add: seconds_add)
  then have "?e t' * rate \<le> (?e t + seconds (t' - t)) * rate"
    using assms(3) by (simp add: mult_right_mono)
  then have "?e t' * rate \<le> ?e t * rate + rate * seconds (t' - t)"
    by (simp add: algebra_simps)
  moreover have "0 \<le> rate * seconds (t' - t)" using assms by simp
  ultimately show ?thesis
    using b assms(2,3) Some min_grow by (simp add: level_def refill_tokens)
qed

subsection \<open>The ingestion limiter\<close>

type_synonym ingest_limiter = "uuid \<rightharpoonup> bucket"

definition new_ingest_limiter :: ingest_limiter where
  "new_ingest_limiter = Map.empty"

text \<open>
  \<open>AllowN\<close>: whether \<open>n\<close> events are admitted, and the wait to report when they are not.
  \<open>time.Duration\<close> of the float is taken to fit 64 bits.
\<close>

definition allow_n ::
  "uuid \<Rightarrow> int \<Rightarrow> int \<Rightarrow> nat \<Rightarrow> instant \<Rightarrow> ingest_limiter \<Rightarrow> (bool \<times> duration) \<times> ingest_limiter" where
  "allow_n sid rate_per_sec burst n now l =
     (if rate_per_sec \<le> 0 \<or> burst \<le> 0 then ((True, 0), l)
      else
        let rate = of_int rate_per_sec; cap = of_int burst; need = of_nat n;
          b = (case l sid of None \<Rightarrow> \<lparr> bkt_tokens = cap, bkt_last = now \<rparr> | Some b \<Rightarrow> b);
          b = refill cap rate now b
        in if need \<le> bkt_tokens b
           then ((True, 0), l(sid \<mapsto> b\<lparr> bkt_tokens := bkt_tokens b - need \<rparr>))
           else
             let deficit = need - bkt_tokens b;
               wait = max (float_trunc (deficit / rate * of_int go_second)) go_second
             in ((False, wait), l(sid \<mapsto> b)))"

text \<open>One call of \<open>AllowN\<close>, as \<open>ingestapp.throttled\<close> makes it with the limits of the source.\<close>

record allow_req =
  aq_id :: uuid
  aq_rate :: int
  aq_burst :: int
  aq_n :: nat
  aq_now :: instant

definition ingest_step :: "ingest_limiter \<Rightarrow> allow_req \<Rightarrow> bool \<times> ingest_limiter" where
  "ingest_step l q =
     (let (d, l') = allow_n (aq_id q) (aq_rate q) (aq_burst q) (aq_n q) (aq_now q) l
      in (fst d, l'))"

text \<open>The source whose bucket is watched, with its limits.\<close>

record source_limit =
  sl_id :: uuid
  sl_rate :: int
  sl_burst :: int

definition same_limit :: "source_limit \<Rightarrow> allow_req \<Rightarrow> bool" where
  "same_limit c q = (aq_id q = sl_id c \<longrightarrow> aq_rate q = sl_rate c \<and> aq_burst q = sl_burst c)"

definition events_of :: "source_limit \<Rightarrow> allow_req \<Rightarrow> rat" where
  "events_of c q = (if aq_id q = sl_id c then of_nat (aq_n q) else 0)"

abbreviation ingest_level :: "source_limit \<Rightarrow> ingest_limiter \<Rightarrow> instant \<Rightarrow> rat" where
  "ingest_level c l t \<equiv> level (of_int (sl_burst c)) (of_int (sl_rate c)) (l (sl_id c)) t"

definition ingest_good :: "source_limit \<Rightarrow> ingest_limiter \<Rightarrow> instant \<Rightarrow> bool" where
  "ingest_good c l t =
     (0 < sl_rate c \<and> 0 < sl_burst c \<and> sound_bucket (of_int (sl_burst c)) (l (sl_id c)) t)"

lemma allow_n_unlimited: "rate \<le> 0 \<or> burst \<le> 0 \<Longrightarrow> allow_n sid rate burst n now l = ((True, 0), l)"
  by (simp add: allow_n_def)

lemma allow_n_other: "sid \<noteq> k \<Longrightarrow> snd (allow_n sid rate burst n now l) k = l k"
  by (simp add: allow_n_def Let_def)

text \<open>The bucket of the source after a call, and the decision, in terms of its level.\<close>

lemma allow_n_admits_iff:
  assumes "0 < rate" and "0 < burst"
  shows "fst (fst (allow_n sid rate burst n now l)) \<longleftrightarrow>
    of_nat n \<le> level (of_int burst) (of_int rate) (l sid) now"
  using assms by (auto simp: allow_n_def Let_def level_def split: option.splits)

lemma allow_n_bucket:
  fixes n :: nat
  assumes "0 < rate" and "0 < burst" and "sound_bucket (of_int burst) (l sid) now"
  defines "r \<equiv> allow_n sid rate burst n now l"
  shows "snd r sid = Some \<lparr> bkt_tokens = level (of_int burst) (of_int rate) (l sid) now
      - (if fst (fst r) then of_nat n else 0), bkt_last = now \<rparr>"
  using assms(1-3) refill_last
  by (auto simp: r_def allow_n_def Let_def level_def sound_bucket_def split: option.splits)

interpretation ing: token_bucket ingest_step aq_now same_limit events_of ingest_level
  "\<lambda>c. of_int (sl_rate c)" "\<lambda>c. of_int (sl_burst c)" ingest_good
proof
  fix c l t t'
  assume g: "ingest_good c l t"
  then show "ingest_level c l t \<le> of_int (sl_burst c)" and "0 \<le> ingest_level c l t"
    by (auto simp: ingest_good_def level_bounds)
  assume le: "t \<le> t'"
  show "ingest_level c l t' \<le> ingest_level c l t + of_int (sl_rate c) * seconds (t' - t)"
    using g le by (simp add: ingest_good_def level_grow)
  show "ingest_good c l t'"
    using g le by (auto simp: ingest_good_def intro: sound_bucket_later)
next
  fix c l q
  assume g: "ingest_good c l (aq_now q)" and ok: "same_limit c q"
  have "ingest_good c (snd (ingest_step l q)) (aq_now q) \<and>
    ingest_level c (snd (ingest_step l q)) (aq_now q) =
      ingest_level c l (aq_now q) - (if fst (ingest_step l q) then events_of c q else 0)"
  proof (cases "aq_id q = sl_id c")
    case False
    then show ?thesis
      using g by (simp add: ingest_good_def ingest_step_def events_of_def allow_n_other split_beta)
  next
    case True
    let ?r = "allow_n (sl_id c) (sl_rate c) (sl_burst c) (aq_n q) (aq_now q) l"
    have st: "ingest_step l q = (fst (fst ?r), snd ?r)"
      using True ok by (simp add: ingest_step_def same_limit_def split_beta)
    have pos: "0 < sl_rate c" "0 < sl_burst c"
      and sound: "sound_bucket (of_int (sl_burst c)) (l (sl_id c)) (aq_now q)"
      using g by (auto simp: ingest_good_def)
    note b = allow_n_bucket [where l = l and sid = "sl_id c" and n = "aq_n q", OF pos sound]
    have "0 \<le> ingest_level c l (aq_now q)" "ingest_level c l (aq_now q) \<le> of_int (sl_burst c)"
      using level_bounds [OF sound] pos by auto
    moreover have "fst (fst ?r) \<longleftrightarrow> of_nat (aq_n q) \<le> ingest_level c l (aq_now q)"
      using pos by (rule allow_n_admits_iff)
    ultimately show ?thesis
      using b True pos
      by (auto simp: st ingest_good_def events_of_def sound_bucket_def level_def)
  qed
  then show "ingest_good c (snd (ingest_step l q)) (aq_now q)"
    and "ingest_level c (snd (ingest_step l q)) (aq_now q) =
      ingest_level c l (aq_now q) - (if fst (ingest_step l q) then events_of c q else 0)"
    by blast+
qed


subsection \<open>The limiter of the query API\<close>

record rl_policy =
  pol_per_minute :: rat
  pol_burst :: rat

definition with_defaults :: "rl_policy \<Rightarrow> rl_policy" where
  "with_defaults p = (if pol_burst p \<le> 0 then p\<lparr> pol_burst := pol_per_minute p \<rparr> else p)"

record decision =
  dec_allowed :: bool
  dec_remaining :: int
  dec_retry_after :: duration
  dec_reset_after :: duration

record rl_limiter =
  rl_buckets :: "string \<rightharpoonup> bucket"
  rl_idle :: duration
  rl_swept :: instant

definition default_idle :: duration where
  "default_idle = 30 * go_minute"

definition new_limiter :: rl_limiter where
  "new_limiter = \<lparr> rl_buckets = Map.empty, rl_idle = default_idle, rl_swept = 0 \<rparr>"

definition sweep :: "instant \<Rightarrow> rl_limiter \<Rightarrow> rl_limiter" where
  "sweep now l =
     (if time_sub now (rl_swept l) < rl_idle l then l
      else l\<lparr> rl_buckets := (\<lambda>k. case rl_buckets l k of None \<Rightarrow> None
               | Some b \<Rightarrow> if rl_idle l < time_sub now (bkt_last b) then None else Some b),
             rl_swept := now \<rparr>)"

definition duration_of_seconds :: "rat \<Rightarrow> duration" where
  "duration_of_seconds x = float_trunc (x * of_int go_second)"

text \<open>What \<open>Allow\<close> does once the stale buckets are gone.\<close>

definition charge_bucket ::
  "string \<Rightarrow> rl_policy \<Rightarrow> rat \<Rightarrow> instant \<Rightarrow> rl_limiter \<Rightarrow> decision \<times> rl_limiter" where
  "charge_bucket key policy cost now l =
     (let per_second = pol_per_minute policy / 60;
        b = (case rl_buckets l key of
               None \<Rightarrow> \<lparr> bkt_tokens = pol_burst policy, bkt_last = now \<rparr> | Some b \<Rightarrow> b);
        b = refill (pol_burst policy) per_second now b;
        cost = (if pol_burst policy < cost then pol_burst policy else cost);
        full = duration_of_seconds ((pol_burst policy - bkt_tokens b) / per_second)
      in if bkt_tokens b < cost
         then
           (\<lparr> dec_allowed = False, dec_remaining = 0,
              dec_retry_after = max (duration_of_seconds ((cost - bkt_tokens b) / per_second)) go_second,
              dec_reset_after = full \<rparr>,
            l\<lparr> rl_buckets := (rl_buckets l)(key \<mapsto> b) \<rparr>)
         else
           let b = b\<lparr> bkt_tokens := bkt_tokens b - cost \<rparr> in
           (\<lparr> dec_allowed = True, dec_remaining = float_trunc (bkt_tokens b), dec_retry_after = 0,
              dec_reset_after = duration_of_seconds ((pol_burst policy - bkt_tokens b) / per_second) \<rparr>,
            l\<lparr> rl_buckets := (rl_buckets l)(key \<mapsto> b) \<rparr>))"

definition rl_allow ::
  "string \<Rightarrow> rl_policy \<Rightarrow> rat \<Rightarrow> instant \<Rightarrow> rl_limiter \<Rightarrow> decision \<times> rl_limiter" where
  "rl_allow key policy cost now l =
     (let policy = with_defaults policy in
      if pol_per_minute policy \<le> 0
      then (\<lparr> dec_allowed = True, dec_remaining = -1, dec_retry_after = 0, dec_reset_after = 0 \<rparr>, l)
      else
        let cost = (if cost \<le> 0 then 1 else cost)
        in charge_bucket key policy cost now (sweep now l))"

text \<open>The same without the sweep: the limiter the sweep must be indistinguishable from.\<close>

definition rl_allow_unswept ::
  "string \<Rightarrow> rl_policy \<Rightarrow> rat \<Rightarrow> instant \<Rightarrow> rl_limiter \<Rightarrow> decision \<times> rl_limiter" where
  "rl_allow_unswept key policy cost now l =
     (let policy = with_defaults policy in
      if pol_per_minute policy \<le> 0
      then (\<lparr> dec_allowed = True, dec_remaining = -1, dec_retry_after = 0, dec_reset_after = 0 \<rparr>, l)
      else charge_bucket key policy (if cost \<le> 0 then 1 else cost) now l)"

record rl_req =
  rq_key :: string
  rq_policy :: rl_policy
  rq_cost :: rat
  rq_now :: instant

definition rl_step :: "rl_limiter \<Rightarrow> rl_req \<Rightarrow> bool \<times> rl_limiter" where
  "rl_step l q =
     (let (d, l') = rl_allow (rq_key q) (rq_policy q) (rq_cost q) (rq_now q) l in (dec_allowed d, l'))"

text \<open>The sustained rate, the burst and the charge a policy comes to.\<close>

definition rate_of :: "rl_policy \<Rightarrow> rat" where
  "rate_of p = pol_per_minute p / 60"

definition burst_of :: "rl_policy \<Rightarrow> rat" where
  "burst_of p = pol_burst (with_defaults p)"

definition cost_of :: "rl_policy \<Rightarrow> rat \<Rightarrow> rat" where
  "cost_of p cost = min (burst_of p) (if cost \<le> 0 then 1 else cost)"

text \<open>
  A policy whose empty bucket refills within the idle time: what it takes for an idle bucket to be
  full, so that dropping it loses nothing.
\<close>

definition refills_within :: "duration \<Rightarrow> rl_policy \<Rightarrow> bool" where
  "refills_within idle p = (0 < pol_per_minute p \<and> burst_of p \<le> rate_of p * seconds idle)"


abbreviation rl_level :: "string \<times> rl_policy \<Rightarrow> rl_limiter \<Rightarrow> instant \<Rightarrow> rat" where
  "rl_level c l t \<equiv> level (burst_of (snd c)) (rate_of (snd c)) (rl_buckets l (fst c)) t"

definition rl_good :: "string \<times> rl_policy \<Rightarrow> rl_limiter \<Rightarrow> instant \<Rightarrow> bool" where
  "rl_good c l t =
     (refills_within (rl_idle l) (snd c) \<and> sound_bucket (burst_of (snd c)) (rl_buckets l (fst c)) t)"

definition same_policy :: "string \<times> rl_policy \<Rightarrow> rl_req \<Rightarrow> bool" where
  "same_policy c q = (rq_key q = fst c \<longrightarrow> rq_policy q = snd c)"

definition cost_for :: "string \<times> rl_policy \<Rightarrow> rl_req \<Rightarrow> rat" where
  "cost_for c q = (if rq_key q = fst c then cost_of (snd c) (rq_cost q) else 0)"

lemma with_defaults_simps [simp]:
  "pol_per_minute (with_defaults p) = pol_per_minute p"
  "pol_burst (with_defaults p) = burst_of p"
  "burst_of (with_defaults p) = burst_of p"
  by (auto simp: with_defaults_def burst_of_def)

lemma burst_of_pos: "0 < pol_per_minute p \<Longrightarrow> 0 < burst_of p"
  by (auto simp: with_defaults_def burst_of_def)

lemma refills_withinD:
  assumes "refills_within idle p"
  shows "0 < pol_per_minute p" "0 < rate_of p" "0 < burst_of p" "burst_of p \<le> rate_of p * seconds idle"
  using assms burst_of_pos by (auto simp: refills_within_def rate_of_def)

lemma cost_of_bounds: "0 < pol_per_minute p \<Longrightarrow> 0 < cost_of p cost \<and> cost_of p cost \<le> burst_of p"
  using burst_of_pos [of p] by (auto simp: cost_of_def)

lemma sweep_idle [simp]: "rl_idle (sweep now l) = rl_idle l"
  by (simp add: sweep_def)

lemma sweep_buckets:
  "rl_buckets (sweep now l) k = rl_buckets l k \<or>
   rl_buckets (sweep now l) k = None \<and>
     (\<exists>b. rl_buckets l k = Some b \<and> rl_idle l < time_sub now (bkt_last b))"
  by (auto simp: sweep_def split: option.splits)

text \<open>A bucket the sweep drops would have been full.\<close>

lemma stale_bucket_full:
  assumes "refills_within idle p" and "idle < time_sub now (bkt_last b)"
    and "0 \<le> bkt_tokens b" and "bkt_last b \<le> now"
  shows "refill (burst_of p) (rate_of p) now b = \<lparr> bkt_tokens = burst_of p, bkt_last = now \<rparr>"
proof -
  note p = refills_withinD [OF assms(1)]
  let ?e = "seconds (time_sub now (bkt_last b))"
  have idle: "seconds idle \<le> ?e" using assms(2) by (intro seconds_mono) simp
  have "burst_of p \<le> rate_of p * seconds idle" by (fact p)
  also have "\<dots> \<le> rate_of p * ?e" using p idle by (intro mult_left_mono) auto
  finally have le: "burst_of p \<le> bkt_tokens b + ?e * rate_of p" using assms(3) by (simp add: mult.commute)
  have "0 < rate_of p * seconds idle" using p by linarith
  then have "0 < seconds idle" using p by (simp add: zero_less_mult_iff)
  with idle have "0 < ?e" by linarith
  with le show ?thesis by (simp add: refill_def)
qed

lemma sweep_level:
  assumes "rl_good c l now"
  shows "rl_level c (sweep now l) now = rl_level c l now" and "rl_good c (sweep now l) now"
  using sweep_buckets [of now l "fst c"] assms
  by (auto simp: rl_good_def level_def sound_bucket_def stale_bucket_full)

text \<open>The decision and the bucket after a charge, in terms of the level of the bucket.\<close>

lemma charge_other: "key \<noteq> k \<Longrightarrow> rl_buckets (snd (charge_bucket key p cost now l)) k = rl_buckets l k"
  by (simp add: charge_bucket_def Let_def)

lemma charge_idle [simp]:
  "rl_idle (snd (charge_bucket key p cost now l)) = rl_idle l"
  "rl_swept (snd (charge_bucket key p cost now l)) = rl_swept l"
  by (simp_all add: charge_bucket_def Let_def)

lemma charge_allowed_iff:
  "dec_allowed (fst (charge_bucket key p cost now l)) \<longleftrightarrow>
    min (pol_burst p) cost \<le> level (pol_burst p) (rate_of p) (rl_buckets l key) now"
  by (auto simp: charge_bucket_def Let_def level_def rate_of_def min_def not_less split: option.splits)

lemma charge_result:
  fixes cost :: rat
  assumes "sound_bucket (pol_burst p) (rl_buckets l key) now"
  defines "r \<equiv> charge_bucket key p cost now l"
  shows "rl_buckets (snd r) key = Some \<lparr>
      bkt_tokens = level (pol_burst p) (rate_of p) (rl_buckets l key) now
        - (if dec_allowed (fst r) then min (pol_burst p) cost else 0), bkt_last = now \<rparr>"
  using assms(1) refill_last
  by (auto simp: r_def charge_bucket_def Let_def level_def sound_bucket_def rate_of_def min_def
      split: option.splits)

lemma rl_allow_eq:
  assumes "0 < pol_per_minute p"
  shows "rl_allow key p cost now l =
      charge_bucket key (with_defaults p) (if cost \<le> 0 then 1 else cost) now (sweep now l)"
    and "rl_allow_unswept key p cost now l =
      charge_bucket key (with_defaults p) (if cost \<le> 0 then 1 else cost) now l"
  using assms by (simp_all add: rl_allow_def rl_allow_unswept_def Let_def)

lemma rl_step_unfold:
  "0 < pol_per_minute p \<Longrightarrow> rq_policy q = p \<Longrightarrow>
    rl_step l q = (let r = charge_bucket (rq_key q) (with_defaults p)
        (if rq_cost q \<le> 0 then 1 else rq_cost q) (rq_now q) (sweep (rq_now q) l)
      in (dec_allowed (fst r), snd r))"
  by (simp add: rl_step_def rl_allow_def Let_def split_beta)

lemma rl_step_other:
  assumes "rq_key q \<noteq> k"
  shows "rl_buckets (snd (rl_step l q)) k = rl_buckets l k \<or>
    rl_buckets (snd (rl_step l q)) k = rl_buckets (sweep (rq_now q) l) k"
    and "rl_idle (snd (rl_step l q)) = rl_idle l"
  using assms by (auto simp: rl_step_def rl_allow_def Let_def split_beta charge_other)


interpretation rl: token_bucket rl_step rq_now same_policy cost_for rl_level
  "\<lambda>c. rate_of (snd c)" "\<lambda>c. burst_of (snd c)" rl_good
proof
  fix c l t t'
  assume g: "rl_good c l t"
  then show "rl_level c l t \<le> burst_of (snd c)" and "0 \<le> rl_level c l t"
    by (auto simp: rl_good_def level_bounds refills_withinD)
  assume le: "t \<le> t'"
  show "rl_level c l t' \<le> rl_level c l t + rate_of (snd c) * seconds (t' - t)"
    using g le by (auto simp: rl_good_def intro: level_grow dest: refills_withinD)
  show "rl_good c l t'"
    using g le by (auto simp: rl_good_def intro: sound_bucket_later)
next
  fix c l q
  assume g: "rl_good c l (rq_now q)" and ok: "same_policy c q"
  obtain k p where c: "c = (k, p)" by (cases c)
  let ?now = "rq_now q" and ?l = "sweep (rq_now q) l" and ?s = "snd (rl_step l q)"
  have rf: "refills_within (rl_idle l) p" using g by (simp add: c rl_good_def)
  note p = refills_withinD [OF rf]
  have sw: "rl_level c ?l ?now = rl_level c l ?now" "rl_good c ?l ?now"
    using sweep_level [OF g] by auto
  have "rl_good c ?s ?now \<and>
    rl_level c ?s ?now = rl_level c l ?now - (if fst (rl_step l q) then cost_for c q else 0)"
  proof (cases "rq_key q = k")
    case False
    from rl_step_other [OF this, of l] show ?thesis
      using g sw False by (auto simp: c rl_good_def cost_for_def)
  next
    case True
    let ?cost = "if rq_cost q \<le> 0 then 1 else rq_cost q"
    let ?r = "charge_bucket k (with_defaults p) ?cost ?now ?l"
    have st: "rl_step l q = (dec_allowed (fst ?r), snd ?r)"
      using rl_step_unfold [of p q l] p True ok by (simp add: c same_policy_def Let_def)
    have snd: "sound_bucket (pol_burst (with_defaults p)) (rl_buckets ?l k) ?now"
      using sw(2) by (simp add: c rl_good_def)
    have rate: "rate_of (with_defaults p) = rate_of p" by (simp add: rate_of_def)
    have b: "rl_buckets (snd ?r) k = Some \<lparr> bkt_tokens = rl_level c l ?now
        - (if dec_allowed (fst ?r) then cost_of p (rq_cost q) else 0), bkt_last = ?now \<rparr>"
      using charge_result [OF snd, of ?cost] sw(1) by (simp add: c rate cost_of_def)
    have adm: "dec_allowed (fst ?r) \<longleftrightarrow> cost_of p (rq_cost q) \<le> rl_level c l ?now"
      using charge_allowed_iff [of k "with_defaults p" ?cost ?now ?l] sw(1)
      by (simp add: c rate cost_of_def)
    have "0 \<le> rl_level c l ?now" "rl_level c l ?now \<le> burst_of p"
      using g p by (auto simp: c rl_good_def level_bounds)
    then show ?thesis
      using b adm rf cost_of_bounds [OF p(1), of "rq_cost q"] True
      by (auto simp: st c rl_good_def cost_for_def sound_bucket_def level_def)
  qed
  then show "rl_good c ?s ?now"
    and "rl_level c ?s ?now = rl_level c l ?now - (if fst (rl_step l q) then cost_for c q else 0)"
    by blast+
qed

subsection \<open>The sweep is invisible\<close>

text \<open>
  The state with sweeps against the state without: the same buckets, but for some that the sweep
  dropped and that are full again.
\<close>

definition swept_of :: "(string \<Rightarrow> rl_policy) \<Rightarrow> rl_limiter \<Rightarrow> rl_limiter \<Rightarrow> instant \<Rightarrow> bool" where
  "swept_of pol l u t =
     (rl_idle l = default_idle \<and>
      (\<forall>k. sound_bucket (burst_of (pol k)) (rl_buckets u k) t \<and>
       (rl_buckets l k = rl_buckets u k \<or>
        rl_buckets l k = None \<and>
        (\<exists>b. rl_buckets u k = Some b \<and> default_idle < time_sub t (bkt_last b)))))"

fun decisions ::
  "(string \<Rightarrow> rl_policy \<Rightarrow> rat \<Rightarrow> instant \<Rightarrow> rl_limiter \<Rightarrow> decision \<times> rl_limiter) \<Rightarrow>
   rl_limiter \<Rightarrow> rl_req list \<Rightarrow> decision list" where
  "decisions allow l [] = []"
| "decisions allow l (q # qs) =
     (let (d, l') = allow (rq_key q) (rq_policy q) (rq_cost q) (rq_now q) l
      in d # decisions allow l' qs)"

lemma swept_of_later: "swept_of pol l u t \<Longrightarrow> t \<le> t' \<Longrightarrow> swept_of pol l u t'"
  using time_sub_mono [of t t'] unfolding swept_of_def
  by (meson order_less_le_trans sound_bucket_later)

lemma swept_of_sweep:
  assumes "swept_of pol l u t"
  shows "swept_of pol (sweep t l) u t"
  unfolding swept_of_def
proof (intro conjI allI)
  show "rl_idle (sweep t l) = default_idle" using assms by (simp add: swept_of_def)
  fix k
  show "sound_bucket (burst_of (pol k)) (rl_buckets u k) t" using assms by (simp add: swept_of_def)
  show "rl_buckets (sweep t l) k = rl_buckets u k \<or> rl_buckets (sweep t l) k = None \<and>
      (\<exists>b. rl_buckets u k = Some b \<and> default_idle < time_sub t (bkt_last b))"
    using sweep_buckets [of t l k] assms unfolding swept_of_def by metis
qed

lemma charge_cong:
  assumes "refills_within default_idle p" and "swept_of pol l u now" and "pol key = p"
  shows "fst (charge_bucket key (with_defaults p) cost now l) =
      fst (charge_bucket key (with_defaults p) cost now u)"
    and "rl_buckets (snd (charge_bucket key (with_defaults p) cost now l)) key =
      rl_buckets (snd (charge_bucket key (with_defaults p) cost now u)) key"
proof -
  have "refill (burst_of p) (rate_of p) now (case rl_buckets l key of
        None \<Rightarrow> \<lparr> bkt_tokens = burst_of p, bkt_last = now \<rparr> | Some b \<Rightarrow> b) =
      refill (burst_of p) (rate_of p) now (case rl_buckets u key of
        None \<Rightarrow> \<lparr> bkt_tokens = burst_of p, bkt_last = now \<rparr> | Some b \<Rightarrow> b)"
  proof (cases "rl_buckets l key = rl_buckets u key")
    case False
    with assms obtain b where "rl_buckets l key = None" "rl_buckets u key = Some b"
      "default_idle < time_sub now (bkt_last b)" "0 \<le> bkt_tokens b" "bkt_last b \<le> now"
      by (auto simp: swept_of_def sound_bucket_def split: option.splits dest!: spec [of _ key])
    with stale_bucket_full [OF assms(1)] show ?thesis by simp
  qed simp
  then have eq: "refill (pol_burst (with_defaults p)) (pol_per_minute (with_defaults p) / 60) now
      (case rl_buckets l key of
        None \<Rightarrow> \<lparr> bkt_tokens = pol_burst (with_defaults p), bkt_last = now \<rparr> | Some b \<Rightarrow> b) =
      refill (pol_burst (with_defaults p)) (pol_per_minute (with_defaults p) / 60) now
      (case rl_buckets u key of
        None \<Rightarrow> \<lparr> bkt_tokens = pol_burst (with_defaults p), bkt_last = now \<rparr> | Some b \<Rightarrow> b)"
    by (simp add: rate_of_def cong: option.case_cong)
  then show "fst (charge_bucket key (with_defaults p) cost now l) =
      fst (charge_bucket key (with_defaults p) cost now u)"
    and "rl_buckets (snd (charge_bucket key (with_defaults p) cost now l)) key =
      rl_buckets (snd (charge_bucket key (with_defaults p) cost now u)) key"
    by (simp_all add: charge_bucket_def Let_def eq del: with_defaults_simps)
qed

lemma swept_of_charge:
  assumes "refills_within default_idle (pol key)" and "swept_of pol l u now" and "0 < cost"
  defines "cl \<equiv> charge_bucket key (with_defaults (pol key)) cost now"
  shows "swept_of pol (snd (cl l)) (snd (cl u)) now"
  unfolding swept_of_def
proof (intro conjI allI)
  show "rl_idle (snd (cl l)) = default_idle" using assms(2) by (simp add: cl_def swept_of_def)
  fix k
  let ?p = "pol key"
  note p = refills_withinD [OF assms(1)]
  have sb: "sound_bucket (burst_of (pol k)) (rl_buckets u k) now" for k
    using assms(2) by (simp add: swept_of_def)
  have lv: "0 \<le> level (burst_of ?p) (rate_of ?p) (rl_buckets u key) now"
    "level (burst_of ?p) (rate_of ?p) (rl_buckets u key) now \<le> burst_of ?p"
    using level_bounds [OF sb] p by auto
  have rate: "rate_of (with_defaults ?p) = rate_of ?p" by (simp add: rate_of_def)
  show "sound_bucket (burst_of (pol k)) (rl_buckets (snd (cl u)) k) now"
  proof (cases "k = key")
    case True
    then show ?thesis
      using charge_result [of "with_defaults ?p" u key now cost] sb [of key] lv assms(3) p
        charge_allowed_iff [of key "with_defaults ?p" cost now u]
      by (auto simp: cl_def sound_bucket_def rate)
  qed (use sb charge_other in \<open>simp add: cl_def\<close>)
  show "rl_buckets (snd (cl l)) k = rl_buckets (snd (cl u)) k \<or>
      rl_buckets (snd (cl l)) k = None \<and>
      (\<exists>b. rl_buckets (snd (cl u)) k = Some b \<and> default_idle < time_sub now (bkt_last b))"
  proof (cases "k = key")
    case True
    then show ?thesis using charge_cong(2) [OF assms(1,2) refl] by (simp add: cl_def)
  next
    case False
    then show ?thesis using assms(2) charge_other [of key k] by (simp add: cl_def swept_of_def)
  qed
qed

lemma decisions_swept_of:
  assumes "\<And>k. refills_within default_idle (pol k)"
    and "swept_of pol l u t" and "in_order rq_now t t' qs"
    and "\<forall>q \<in> set qs. rq_policy q = pol (rq_key q)"
  shows "decisions rl_allow l qs = decisions rl_allow_unswept u qs"
  using assms(2-)
proof (induction qs arbitrary: l u t)
  case (Cons q qs)
  let ?p = "pol (rq_key q)" and ?cost = "if rq_cost q \<le> 0 then 1 else rq_cost q"
  let ?c = "charge_bucket (rq_key q) (with_defaults ?p) ?cost (rq_now q)"
  have st: "swept_of pol (sweep (rq_now q) l) u (rq_now q)"
    using Cons.prems by (intro swept_of_sweep) (auto intro: swept_of_later)
  have d: "fst (?c (sweep (rq_now q) l)) = fst (?c u)"
    using charge_cong(1) [OF assms(1) st refl] .
  have "swept_of pol (snd (?c (sweep (rq_now q) l))) (snd (?c u)) (rq_now q)"
    by (rule swept_of_charge [OF assms(1) st]) simp
  then have "decisions rl_allow (snd (?c (sweep (rq_now q) l))) qs =
      decisions rl_allow_unswept (snd (?c u)) qs"
    using Cons by auto
  then show ?case
    using d Cons.prems refills_withinD(1) [OF assms(1)]
    by (simp add: rl_allow_eq Let_def split_beta)
qed simp


subsection \<open>The middleware of the query API\<close>

definition cost_read :: rat where
  "cost_read = 1"

definition cost_export :: rat where
  "cost_export = 20"

definition query_cost :: "string \<Rightarrow> rat" where
  "query_cost path = (if has_suffix path ''/export'' then cost_export else cost_read)"

text \<open>What the middleware reads of the authenticated key: its identifier and its own limits.\<close>

record api_key_limit =
  akl_id :: string
  akl_per_min :: int
  akl_burst :: int

definition key_policy :: "int \<Rightarrow> int \<Rightarrow> api_key_limit \<Rightarrow> rl_policy" where
  "key_policy default_per_min default_burst key =
     (let policy = \<lparr> pol_per_minute = of_int default_per_min, pol_burst = of_int default_burst \<rparr>;
        policy = (if 0 < akl_per_min key
                  then \<lparr> pol_per_minute = of_int (akl_per_min key), pol_burst = 0 \<rparr> else policy)
      in if 0 < akl_burst key then policy\<lparr> pol_burst := of_int (akl_burst key) \<rparr> else policy)"

record budget_headers =
  hdr_limit :: int
  hdr_remaining :: int
  hdr_reset :: int

definition write_budget :: "rl_policy \<Rightarrow> decision \<Rightarrow> budget_headers option" where
  "write_budget policy d =
     (if dec_remaining d < 0 then None
      else Some \<lparr> hdr_limit = float_trunc (pol_per_minute policy), hdr_remaining = dec_remaining d,
                  hdr_reset = max (float_trunc (seconds (dec_reset_after d))) 0 \<rparr>)"

text \<open>The answer of the middleware: an error, with its Retry-After, or the call of the handler.\<close>

datatype rl_answer =
    Unauthenticated
  | Too_many_requests "budget_headers option" (retry_after_header: int)
  | Call_next "budget_headers option"

definition rate_limit_api_key ::
  "int \<Rightarrow> int \<Rightarrow> api_key_limit option \<Rightarrow> string \<Rightarrow> instant \<Rightarrow> rl_limiter \<Rightarrow> rl_answer \<times> rl_limiter" where
  "rate_limit_api_key default_per_min default_burst key path now l =
     (case key of
        None \<Rightarrow> (Unauthenticated, l)
      | Some key \<Rightarrow>
          let policy = key_policy default_per_min default_burst key;
            (d, l') = rl_allow (akl_id key) policy (query_cost path) now l;
            budget = write_budget policy d
          in if dec_allowed d then (Call_next budget, l')
             else (Too_many_requests budget (max (float_trunc (seconds (dec_retry_after d))) 1), l'))"

text \<open>A run of the middleware is a run of the limiter.\<close>

definition api_step ::
  "int \<Rightarrow> int \<Rightarrow> rl_limiter \<Rightarrow> api_key_limit \<times> string \<times> instant \<Rightarrow> bool \<times> rl_limiter" where
  "api_step per_min burst l q =
     (case q of (key, path, now) \<Rightarrow>
        let (a, l') = rate_limit_api_key per_min burst (Some key) path now l
        in ((case a of Call_next _ \<Rightarrow> True | _ \<Rightarrow> False), l'))"

definition api_req :: "int \<Rightarrow> int \<Rightarrow> api_key_limit \<times> string \<times> instant \<Rightarrow> rl_req" where
  "api_req per_min burst q =
     (case q of (key, path, now) \<Rightarrow>
        \<lparr> rq_key = akl_id key, rq_policy = key_policy per_min burst key,
          rq_cost = query_cost path, rq_now = now \<rparr>)"

lemma api_step_rl_step: "api_step per_min burst l q = rl_step l (api_req per_min burst q)"
proof -
  obtain key path now where q: "q = (key, path, now)" by (cases q)
  obtain d l' where d: "rl_allow (akl_id key) (key_policy per_min burst key) (query_cost path) now l
      = (d, l')" by (rule prod.exhaust)
  show ?thesis
    by (cases "dec_allowed d")
      (simp_all add: q api_step_def api_req_def rl_step_def rate_limit_api_key_def d)
qed

lemma run_steps_map:
  "(\<And>s q. f s q = step s (g q)) \<Longrightarrow> run_steps f s qs = run_steps step s (map g qs)"
  by (induction qs arbitrary: s) simp_all

lemma admitted_map:
  "(\<And>s q. f s q = step s (g q)) \<Longrightarrow> (\<And>q. v q = w (g q)) \<Longrightarrow>
    admitted f v s qs = admitted step w s (map g qs)"
  by (induction qs arbitrary: s) simp_all

lemmas api_run =
  run_steps_map [where g = "api_req pm pb" and f = "api_step pm pb", OF api_step_rl_step]
  admitted_map [where g = "api_req pm pb" and f = "api_step pm pb", OF api_step_rl_step]
  for pm pb

lemma in_order_map:
  "(\<And>q. clk q = clk' (g q)) \<Longrightarrow> in_order clk t t' qs = in_order clk' t t' (map g qs)"
  by (induction qs arbitrary: t) simp_all

lemma api_req_simps [simp]:
  "rq_key (api_req pm b q) = akl_id (fst q)"
  "rq_policy (api_req pm b q) = key_policy pm b (fst q)"
  "rq_cost (api_req pm b q) = query_cost (fst (snd q))"
  "rq_now (api_req pm b q) = snd (snd q)"
  by (simp_all add: api_req_def split_beta)

lemma rl_good_new: "refills_within default_idle (snd c) \<Longrightarrow> rl_good c new_limiter t"
  by (simp add: rl_good_def new_limiter_def sound_bucket_def)

lemma ingest_good_new: "0 < sl_rate c \<Longrightarrow> 0 < sl_burst c \<Longrightarrow> ingest_good c new_ingest_limiter t"
  by (simp add: ingest_good_def new_ingest_limiter_def sound_bucket_def)

subsection \<open>The wait a refusal reports is enough\<close>

lemma duration_of_seconds_enough:
  assumes "0 < rate" and "0 \<le> deficit" and "t < t'" and "t' - t < 2 ^ 63"
    and "duration_of_seconds (deficit / rate) < t' - t"
  shows "deficit \<le> seconds (time_sub t' t) * rate"
proof -
  have sub: "time_sub t' t = t' - t" using assms(3,4) by (simp add: time_sub_def)
  have "deficit / rate * 1000000000 < of_int (duration_of_seconds (deficit / rate) + 1)"
    using float_trunc_bounds [of "deficit / rate * 1000000000"] assms(1,2)
    by (simp add: duration_of_seconds_def)
  also have "\<dots> \<le> of_int (t' - t)" using assms(5) by linarith
  finally have "deficit < seconds (t' - t) * rate"
    using assms(1) by (simp add: seconds_def field_simps)
  with sub show ?thesis by simp
qed

lemma level_after_wait:
  assumes "0 < rate" and "need \<le> cap" and "bkt_last b = now" and "bkt_tokens b \<le> need"
    and "duration_of_seconds ((need - bkt_tokens b) / rate) < t - now"
    and "now < t" and "t - now < 2 ^ 63"
  shows "need \<le> level cap rate (Some b) t"
proof -
  have "need - bkt_tokens b \<le> seconds (time_sub t now) * rate"
    by (rule duration_of_seconds_enough) (use assms in auto)
  moreover have "bkt_tokens (refill cap rate t b) =
      min cap (bkt_tokens b + seconds (time_sub t now) * rate)"
    using refill_tokens [of b t cap rate] assms by simp
  ultimately show ?thesis using assms(2) by (simp add: level_def)
qed

subsection \<open>Properties\<close>

text \<open>
  C33: in any run of the ingestion limiter from its start, whatever the other sources do, the
  events a source gets admitted in any window of time are at most its burst plus its rate times
  the length of the window.
\<close>

theorem ingest_window_bound:
  assumes "0 < sl_rate c" and "0 < sl_burst c"
    and "in_order aq_now t0 t ps" and "in_order aq_now t t' qs"
    and "\<forall>q \<in> set (ps @ qs). same_limit c q"
  shows "admitted ingest_step (events_of c) (run_steps ingest_step new_ingest_limiter ps) qs
    \<le> of_int (sl_burst c) + of_int (sl_rate c) * seconds (t' - t)"
  using assms ingest_good_new by (intro ing.window_le) auto

theorem ingest_window_bound_witness:
  "admitted ingest_step (events_of \<lparr> sl_id = 7, sl_rate = 1, sl_burst = 5 \<rparr>)
     (run_steps ingest_step new_ingest_limiter [\<lparr> aq_id = 7, aq_rate = 1, aq_burst = 5, aq_n = 3, aq_now = 10 \<rparr>])
     [\<lparr> aq_id = 7, aq_rate = 1, aq_burst = 5, aq_n = 4, aq_now = 3 * go_second \<rparr>]
    \<le> of_int 5 + of_int 1 * seconds (4 * go_second - 10)"
  using ingest_window_bound [of "\<lparr> sl_id = 7, sl_rate = 1, sl_burst = 5 \<rparr>" 0 10
      "[\<lparr> aq_id = 7, aq_rate = 1, aq_burst = 5, aq_n = 3, aq_now = 10 \<rparr>]" "4 * go_second"
      "[\<lparr> aq_id = 7, aq_rate = 1, aq_burst = 5, aq_n = 4, aq_now = 3 * go_second \<rparr>]"]
  by (simp add: same_limit_def)


text \<open>
  A refused batch that is not larger than the burst is admitted once the reported wait has
  passed, if nothing else was charged to the source in between (the first instant after the wait:
  the conversion to a duration drops a fraction of a nanosecond).
\<close>

theorem ingest_retry_honoured:
  assumes "0 < rate" and "0 < burst" and "int n \<le> burst"
    and "sound_bucket (of_int burst) (l sid) now"
    and "allow_n sid rate burst n now l = ((False, wait), l')"
    and "now + wait < t" and "t - now < 2 ^ 63"
  shows "fst (fst (allow_n sid rate burst n t l'))"
proof -
  let ?cap = "of_int burst :: rat" and ?rate = "of_int rate :: rat" and ?need = "of_nat n :: rat"
  let ?b = "\<lparr> bkt_tokens = level ?cap ?rate (l sid) now, bkt_last = now \<rparr>"
  have ref: "\<not> ?need \<le> level ?cap ?rate (l sid) now"
    using allow_n_admits_iff [of rate burst sid n now l] assms(1,2,5) by simp
  have l': "l' sid = Some ?b"
    using allow_n_bucket [where l = l and sid = sid and n = n, OF assms(1,2,4)] assms(5) by simp
  have w: "wait = max (duration_of_seconds ((?need - bkt_tokens ?b) / ?rate)) go_second"
    using assms(1,2,5) ref
    by (auto simp: allow_n_def Let_def level_def duration_of_seconds_def split: option.splits if_splits)
  have cap: "?need \<le> ?cap" using assms(3) by (metis of_int_le_iff of_int_of_nat_eq)
  have "?need \<le> level ?cap ?rate (Some ?b) t"
    by (rule level_after_wait [where now = now]) (use assms w ref cap in auto)
  then show ?thesis
    using allow_n_admits_iff [of rate burst sid n t l'] assms(1,2) l' by simp
qed

theorem ingest_retry_honoured_witness:
  "fst (fst (allow_n 7 2 10 8 (2 * go_second + 1)
     (snd (allow_n 7 2 10 8 0 [7 \<mapsto> \<lparr> bkt_tokens = 4, bkt_last = 0 \<rparr>]))))"
  by (rule ingest_retry_honoured [where l = "[7 \<mapsto> \<lparr> bkt_tokens = 4, bkt_last = 0 \<rparr>]" and now = 0
        and wait = "2 * go_second"])
    (simp_all add: sound_bucket_def allow_n_def Let_def refill_def float_trunc_def)

text \<open>
  A batch larger than the burst of its source is refused whatever the state of the bucket and
  however long the caller waits: no wait the limiter reports makes it admissible.
\<close>

theorem ingest_oversized_refused:
  assumes "0 < sl_rate c" and "0 < sl_burst c" and "sl_burst c < int n"
    and "in_order aq_now t0 t qs" and "\<forall>q \<in> set qs. same_limit c q"
  shows "\<not> fst (fst (allow_n (sl_id c) (sl_rate c) (sl_burst c) n t
    (run_steps ingest_step new_ingest_limiter qs)))"
proof -
  let ?l = "run_steps ingest_step new_ingest_limiter qs"
  have "ingest_good c ?l t"
    by (rule ing.good_run [OF ingest_good_new [OF assms(1,2)] assms(4,5)])
  then have "ingest_level c ?l t \<le> of_int (sl_burst c)" by (rule ing.avail_le)
  also have "\<dots> < of_nat n" using assms(3) by (metis of_int_less_iff of_int_of_nat_eq)
  finally show ?thesis using allow_n_admits_iff [OF assms(1,2)] by (simp add: not_le)
qed

theorem ingest_oversized_refused_witness:
  "\<not> fst (fst (allow_n 7 500 1000 1001 (3600 * go_second) (run_steps ingest_step new_ingest_limiter [])))"
  using ingest_oversized_refused [of "\<lparr> sl_id = 7, sl_rate = 500, sl_burst = 1000 \<rparr>" 1001 0
      "3600 * go_second" "[]"] by simp

text \<open>
  C35: what one key of the query API gets through the middleware in any window of time, an export
  priced at its full cost up to the burst, is at most the burst of its policy plus the per-minute
  rate times the length of the window, provided an empty bucket refills within the idle time.
\<close>

theorem query_api_window_bound:
  assumes "refills_within default_idle (key_policy pm b key)"
    and "in_order (\<lambda>q. snd (snd q)) t0 t ps" and "in_order (\<lambda>q. snd (snd q)) t t' qs"
    and "\<forall>q \<in> set (ps @ qs). akl_id (fst q) = akl_id key \<longrightarrow> fst q = key"
  shows "admitted (api_step pm b)
      (\<lambda>q. if akl_id (fst q) = akl_id key then min (burst_of (key_policy pm b key)) (query_cost (fst (snd q))) else 0)
      (run_steps (api_step pm b) new_limiter ps) qs
    \<le> burst_of (key_policy pm b key) + pol_per_minute (key_policy pm b key) / 60 * seconds (t' - t)"
proof -
  let ?c = "(akl_id key, key_policy pm b key)"
  let ?g = "map (api_req pm b)"
  have eq: "admitted (api_step pm b)
        (\<lambda>q. if akl_id (fst q) = akl_id key
          then min (burst_of (key_policy pm b key)) (query_cost (fst (snd q))) else 0) l qs
      = admitted rl_step (cost_for ?c) l (?g qs)" for l
    by (rule admitted_map)
      (auto simp: api_step_rl_step cost_for_def cost_of_def query_cost_def cost_read_def cost_export_def)
  have "same_policy ?c (api_req pm b q)" if "q \<in> set (ps @ qs)" for q
    using bspec [OF assms(4) that] by (simp add: same_policy_def) metis
  then have ok: "\<forall>q \<in> set (?g (ps @ qs)). same_policy ?c q" by (simp add: ball_Un)
  have io: "in_order rq_now t0 t (?g ps)" "in_order rq_now t t' (?g qs)"
    using assms(2,3) in_order_map [of "\<lambda>q. snd (snd q)" rq_now "api_req pm b"] by auto
  have "admitted rl_step (cost_for ?c) (run_steps rl_step new_limiter (?g ps)) (?g qs)
    \<le> burst_of (snd ?c) + rate_of (snd ?c) * seconds (t' - t)"
    by (rule rl.window_le [OF rl_good_new io]) (use assms(1) ok in auto)
  then show ?thesis by (simp add: eq api_run rate_of_def)
qed

theorem query_api_window_bound_witness:
  "admitted (api_step 60 30)
      (\<lambda>q. if akl_id (fst q) = ''k'' then min (burst_of (key_policy 60 30 \<lparr> akl_id = ''k'', akl_per_min = 0, akl_burst = 0 \<rparr>)) (query_cost (fst (snd q))) else 0)
      (run_steps (api_step 60 30) new_limiter [])
      [(\<lparr> akl_id = ''k'', akl_per_min = 0, akl_burst = 0 \<rparr>, ''/v1/logs/export'', 5)]
    \<le> burst_of (key_policy 60 30 \<lparr> akl_id = ''k'', akl_per_min = 0, akl_burst = 0 \<rparr>) + pol_per_minute (key_policy 60 30 \<lparr> akl_id = ''k'', akl_per_min = 0, akl_burst = 0 \<rparr>) / 60 * seconds (go_second - 0)"
  using query_api_window_bound [of 60 30 "\<lparr> akl_id = ''k'', akl_per_min = 0, akl_burst = 0 \<rparr>" 0 0 "[]"
      go_second "[(\<lparr> akl_id = ''k'', akl_per_min = 0, akl_burst = 0 \<rparr>, ''/v1/logs/export'', 5)]"]
  by (simp add: refills_within_def key_policy_def burst_of_def with_defaults_def rate_of_def
      seconds_def default_idle_def)

text \<open>
  C34: dropping idle buckets changes no decision. For policies whose empty bucket refills within the
  idle time, every sequence of requests gets from the sweeping limiter the decisions, with their
  reported budgets and waits, that a limiter that keeps every bucket for ever gives.
\<close>

theorem sweep_invisible:
  assumes "\<And>k. refills_within default_idle (pol k)"
    and "in_order rq_now t t' qs" and "\<forall>q \<in> set qs. rq_policy q = pol (rq_key q)"
  shows "decisions rl_allow new_limiter qs = decisions rl_allow_unswept new_limiter qs"
proof (rule decisions_swept_of [OF assms(1) _ assms(2,3)])
  show "swept_of pol new_limiter new_limiter t"
    by (simp add: swept_of_def new_limiter_def sound_bucket_def)
qed

theorem sweep_invisible_witness:
  "decisions rl_allow new_limiter
      [\<lparr> rq_key = ''a'', rq_policy = \<lparr> pol_per_minute = 60, pol_burst = 30 \<rparr>, rq_cost = 20, rq_now = 1 \<rparr>,
       \<lparr> rq_key = ''a'', rq_policy = \<lparr> pol_per_minute = 60, pol_burst = 30 \<rparr>, rq_cost = 20, rq_now = 2 * go_hour \<rparr>]
    = decisions rl_allow_unswept new_limiter
      [\<lparr> rq_key = ''a'', rq_policy = \<lparr> pol_per_minute = 60, pol_burst = 30 \<rparr>, rq_cost = 20, rq_now = 1 \<rparr>,
       \<lparr> rq_key = ''a'', rq_policy = \<lparr> pol_per_minute = 60, pol_burst = 30 \<rparr>, rq_cost = 20, rq_now = 2 * go_hour \<rparr>]"
  by (rule sweep_invisible [where pol = "\<lambda>_. \<lparr> pol_per_minute = 60, pol_burst = 30 \<rparr>" and t = 0 and t' = "3 * go_hour"])
    (simp_all add: refills_within_def burst_of_def with_defaults_def rate_of_def seconds_def default_idle_def)

text \<open>
  A request the query API refuses is allowed once the reported wait has passed, whatever its
  cost, if nothing else was charged to its key in between.
\<close>

theorem query_api_retry_honoured:
  assumes "refills_within default_idle policy" and "rl_good (key, policy) l now"
    and "rl_allow key policy cost now l = (d, l')" and "\<not> dec_allowed d"
    and "now + dec_retry_after d < t" and "t - now < 2 ^ 63"
  shows "dec_allowed (fst (rl_allow key policy cost t l'))"
proof -
  let ?cost = "if cost \<le> 0 then 1 else cost" and ?p = "with_defaults policy"
  let ?l = "sweep now l"
  note p = refills_withinD [OF assms(1)]
  have rate: "rate_of ?p = rate_of policy" by (simp add: rate_of_def)
  have g: "rl_good (key, policy) ?l now" using sweep_level [OF assms(2)] by simp
  have ch: "charge_bucket key ?p ?cost now ?l = (d, l')"
    using assms(3) rl_allow_eq(1) [OF p(1), of key cost now l] by simp
  let ?b = "\<lparr> bkt_tokens = level (burst_of policy) (rate_of policy) (rl_buckets ?l key) now, bkt_last = now \<rparr>"
  have b: "rl_buckets l' key = Some ?b"
    using charge_result [of ?p ?l key now ?cost] g assms(4) ch by (simp add: rl_good_def rate)
  have "\<not> cost_of policy cost \<le> bkt_tokens ?b"
    using charge_allowed_iff [of key ?p ?cost now ?l] assms(4) ch
    by (simp add: rate cost_of_def del: min_le_iff_disj)
  then have less: "bkt_tokens ?b < cost_of policy cost" by simp
  have w: "dec_retry_after d =
      max (duration_of_seconds ((cost_of policy cost - bkt_tokens ?b) / rate_of policy)) go_second"
    using ch assms(4)
    by (auto simp: charge_bucket_def Let_def level_def rate_of_def cost_of_def min_def
        split: option.splits if_splits)
  have good': "rl_good (key, policy) l' t"
  proof -
    have "rl_good (key, policy) (snd (rl_step l \<lparr> rq_key = key, rq_policy = policy, rq_cost = cost, rq_now = now \<rparr>)) now"
      using rl.good_step [of "(key, policy)" l "\<lparr> rq_key = key, rq_policy = policy, rq_cost = cost, rq_now = now \<rparr>"]
        assms(2) by (simp add: same_policy_def)
    then have "rl_good (key, policy) l' now" by (simp add: rl_step_def assms(3))
    then show ?thesis using assms(5) w by (auto intro: rl.good_later)
  qed
  have "cost_of policy cost \<le> level (burst_of policy) (rate_of policy) (Some ?b) t"
    by (rule level_after_wait [where now = now])
      (use assms p w less cost_of_bounds [OF p(1), of cost] in auto)
  also have "\<dots> = rl_level (key, policy) (sweep t l') t"
    using sweep_level(1) [OF good'] b by simp
  finally show ?thesis
    using charge_allowed_iff [of key ?p ?cost t "sweep t l'"]
    by (simp add: rl_allow_eq(1) [OF p(1)] rate cost_of_def)
qed

theorem query_api_retry_honoured_witness:
  "dec_allowed (fst (rl_allow ''k'' \<lparr> pol_per_minute = 60, pol_burst = 10 \<rparr> 20 (11 * go_second)
     (snd (rl_allow ''k'' \<lparr> pol_per_minute = 60, pol_burst = 10 \<rparr> 20 0
        (new_limiter\<lparr> rl_buckets := [''k'' \<mapsto> \<lparr> bkt_tokens = 0, bkt_last = 0 \<rparr>] \<rparr>)))))"
  by (rule query_api_retry_honoured [where now = 0 and l = "new_limiter\<lparr> rl_buckets := [''k'' \<mapsto> \<lparr> bkt_tokens = 0, bkt_last = 0 \<rparr>] \<rparr>"
        and d = "\<lparr> dec_allowed = False, dec_remaining = 0, dec_retry_after = 10 * go_second, dec_reset_after = 10 * go_second \<rparr>"])
    (simp_all add: refills_within_def burst_of_def with_defaults_def rate_of_def seconds_def default_idle_def
      rl_good_def new_limiter_def sound_bucket_def rl_allow_def charge_bucket_def sweep_def refill_def Let_def
      duration_of_seconds_def float_trunc_def time_sub_def)

text \<open>
  A policy that does not refill within the idle time loses its debt to the sweep: at one request a
  minute with a burst of 100, a key that spent its burst spends it again 31 minutes later, though
  only 31 tokens can have been refilled.
\<close>

lemma slow_policy_forgets_debt:
  "let p = \<lparr> pol_per_minute = 1, pol_burst = 100 \<rparr>;
     (d, l) = rl_allow ''k'' p 100 (go_hour) new_limiter;
     (d', l') = rl_allow ''k'' p 100 (go_hour + 31 * go_minute) l
   in dec_allowed d \<and> dec_allowed d'"
  by (simp add: rl_allow_def charge_bucket_def sweep_def refill_def Let_def new_limiter_def
      with_defaults_def default_idle_def time_sub_def)

end
