(* ===== verification/Tickets.thy ===== *)
theory Tickets
  imports GoLib
begin

text \<open>
  The in-memory stores of secrets that can be redeemed once: the WebSocket tickets
  (\<open>app/domain/logapp/streamticket.go\<close>), and the login states and session codes of single sign-on
  (\<open>app/domain/ssoapp/state.go\<close>). A store is the map the code keeps, without the mutex around it:
  every operation is one atomic step. The bytes of \<open>crypto/rand\<close> are an argument, \<open>None\<close> when the
  read fails; the base64url text of a token is computed as \<open>encoding/base64\<close> does.

  The locale \<open>one_shot\<close> states the contract the three stores share and proves that a token is
  redeemed at most as often as it was issued, only for what it was issued for, and not after its
  life, and that it can be redeemed until then.
\<close>

subsection \<open>Tokens\<close>

definition base64url_alphabet :: string where
  "base64url_alphabet = ''ABCDEFGHIJKLMNOPQRSTUVWXYZabcdefghijklmnopqrstuvwxyz0123456789-_''"

definition sextet :: "nat \<Rightarrow> char" where
  "sextet n = base64url_alphabet ! (n mod 64)"

text \<open>\<open>base64.RawURLEncoding.EncodeToString\<close>: six bits a character, no padding.\<close>

fun base64url :: "nat list \<Rightarrow> string" where
  "base64url [] = []"
| "base64url [a] = [sextet (a div 4), sextet (a mod 4 * 16)]"
| "base64url [a, b] = [sextet (a div 4), sextet (a mod 4 * 16 + b div 16), sextet (b mod 16 * 4)]"
| "base64url (a # b # c # bs) =
     sextet (a div 4) # sextet (a mod 4 * 16 + b div 16) # sextet (b mod 16 * 4 + c div 64)
     # sextet (c mod 64) # base64url bs"

text \<open>\<open>randomToken\<close>, and the first lines of \<open>issue\<close>, which are the same.\<close>

definition random_token :: "nat list option \<Rightarrow> string option" where
  "random_token rnd = map_option base64url rnd"

lemma base64url_ne: "bs \<noteq> [] \<Longrightarrow> base64url bs \<noteq> []"
  by (cases bs rule: base64url.cases) simp_all

lemma sextet_eq_iff:
  assumes "m < 64" and "n < 64"
  shows "sextet m = sextet n \<longleftrightarrow> m = n"
proof -
  have d: "distinct base64url_alphabet" and l: "length base64url_alphabet = 64"
    by (simp_all add: base64url_alphabet_def)
  show ?thesis
    using nth_eq_iff_index_eq [OF d, of m n] assms unfolding l sextet_def by simp
qed

lemma radix_eq_iff:
  fixes m n m' n' d :: nat
  assumes "n < d" and "n' < d"
  shows "m * d + n = m' * d + n' \<longleftrightarrow> m = m' \<and> n = n'"
proof
  assume eq: "m * d + n = m' * d + n'"
  have "(m * d + n) div d = m" "(m' * d + n') div d = m'"
    "(m * d + n) mod d = n" "(m' * d + n') mod d = n'"
    using assms by simp_all
  then show "m = m' \<and> n = n'" using eq by metis
qed simp

lemma sextet_pair_eq_iff:
  assumes "m < k" and "m' < k" and "n < d" and "n' < d" and "k * d = 64"
  shows "sextet (m * d + n) = sextet (m' * d + n') \<longleftrightarrow> m = m' \<and> n = n'"
proof -
  have "m * d + n < 64" if "m < k" "n < d" for m n
  proof -
    from that have "m * d + n < Suc m * d" by simp
    also have "\<dots> \<le> k * d" using that by (intro mult_le_mono1) simp
    finally show ?thesis using assms(5) by simp
  qed
  then show ?thesis using assms by (simp add: sextet_eq_iff radix_eq_iff)
qed

lemma byte_eq_iff: "(a :: nat) = a' \<longleftrightarrow> a div d = a' div d \<and> a mod d = a' mod d"
  using div_mult_mod_eq [of a d] div_mult_mod_eq [of a' d] by metis

text \<open>The four characters of a group of three bytes determine the bytes.\<close>

lemma group_eq_iff:
  assumes "a < 256" "a' < 256" "b < 256" "b' < 256" "c < 256" "c' < 256"
  shows "sextet (a div 4) = sextet (a' div 4) \<longleftrightarrow> a div 4 = a' div 4"
    and "sextet (a mod 4 * 16 + b div 16) = sextet (a' mod 4 * 16 + b' div 16) \<longleftrightarrow>
      a mod 4 = a' mod 4 \<and> b div 16 = b' div 16"
    and "sextet (b mod 16 * 4 + c div 64) = sextet (b' mod 16 * 4 + c' div 64) \<longleftrightarrow>
      b mod 16 = b' mod 16 \<and> c div 64 = c' div 64"
    and "sextet (c mod 64) = sextet (c' mod 64) \<longleftrightarrow> c mod 64 = c' mod 64"
  using assms
  by (simp_all add: sextet_eq_iff sextet_pair_eq_iff [where k = 4 and d = 16]
      sextet_pair_eq_iff [where k = 16 and d = 4] radix_eq_iff [where d = 16] radix_eq_iff [where d = 4]
      less_mult_imp_div_less)

text \<open>Different random bytes give different tokens.\<close>

lemma base64url_inj:
  "length as = length bs \<Longrightarrow> \<forall>x \<in> set as. x < 256 \<Longrightarrow> \<forall>x \<in> set bs. x < 256 \<Longrightarrow>
    base64url as = base64url bs \<Longrightarrow> as = bs"
proof (induction as arbitrary: bs rule: base64url.induct)
  case 1
  then show ?case by simp
next
  case (2 a)
  then obtain a' where bs: "bs = [a']" by (cases bs) auto
  from 2 have "a < 256" "a' < 256" by (simp_all add: bs)
  with 2 group_eq_iff(1) [of a a' 0 0 0 0] group_eq_iff(2) [of a a' 0 0 0 0]
  show ?case by (simp add: bs byte_eq_iff [of a a' 4])
next
  case (3 a b)
  then obtain a' b' where bs: "bs = [a', b']" by (cases bs; cases "tl bs") auto
  from 3 have lt: "a < 256" "a' < 256" "b < 256" "b' < 256" by (simp_all add: bs)
  note g = group_eq_iff [of a a' b b' 0 0, OF lt, simplified]
  from 3 g show ?case by (simp add: bs byte_eq_iff [of a a' 4] byte_eq_iff [of b b' 16])
next
  case (4 a b c as)
  then obtain a' b' c' bs' where bs: "bs = a' # b' # c' # bs'" and len: "length as = length bs'"
    by (cases bs; cases "tl bs"; cases "tl (tl bs)") auto
  from 4 have lt: "a < 256" "a' < 256" "b < 256" "b' < 256" "c < 256" "c' < 256"
    by (simp_all add: bs)
  have "as = bs'" by (rule "4.IH") (use 4 bs len in auto)
  with 4 group_eq_iff [OF lt] show ?case
    by (simp add: bs byte_eq_iff [of a a' 4] byte_eq_iff [of b b' 16] byte_eq_iff [of c c' 64])
qed

subsection \<open>What a run of a store redeems\<close>

datatype ('i, 'q) shot = Issue 'i | Redeem 'q

fun shot_run ::
  "('i \<Rightarrow> 's \<Rightarrow> 's) \<Rightarrow> ('q \<Rightarrow> 's \<Rightarrow> ('e + 'a) \<times> 's) \<Rightarrow> 's \<Rightarrow> ('i, 'q) shot list \<Rightarrow> 's" where
  "shot_run iss red s [] = s"
| "shot_run iss red s (Issue i # es) = shot_run iss red (iss i s) es"
| "shot_run iss red s (Redeem q # es) = shot_run iss red (snd (red q s)) es"

text \<open>The successful redemptions of a run, each with what it got.\<close>

fun redeemed ::
  "('i \<Rightarrow> 's \<Rightarrow> 's) \<Rightarrow> ('q \<Rightarrow> 's \<Rightarrow> ('e + 'a) \<times> 's) \<Rightarrow> 's \<Rightarrow> ('i, 'q) shot list \<Rightarrow> ('q \<times> 'a) list" where
  "redeemed iss red s [] = []"
| "redeemed iss red s (Issue i # es) = redeemed iss red (iss i s) es"
| "redeemed iss red s (Redeem q # es) =
     (case red q s of (Inl _, s') \<Rightarrow> redeemed iss red s' es
      | (Inr a, s') \<Rightarrow> (q, a) # redeemed iss red s' es)"

definition issues :: "('i, 'q) shot list \<Rightarrow> 'i list" where
  "issues es = concat (map (\<lambda>e. case e of Issue i \<Rightarrow> [i] | Redeem _ \<Rightarrow> []) es)"

definition times_issued :: "('i \<Rightarrow> string option) \<Rightarrow> string \<Rightarrow> ('i, 'q) shot list \<Rightarrow> nat" where
  "times_issued token k es = length (filter (\<lambda>i. token i = Some k) (issues es))"

definition times_redeemed :: "('q \<Rightarrow> string) \<Rightarrow> string \<Rightarrow> ('q \<times> 'a) list \<Rightarrow> nat" where
  "times_redeemed key k rs = length (filter (\<lambda>(q, a). key q = k) rs)"

lemma issues_simps [simp]:
  "issues [] = []" "issues (Issue i # es) = i # issues es" "issues (Redeem q # es) = issues es"
  by (simp_all add: issues_def)

text \<open>The time of a step of a run, given the times of its two kinds.\<close>

fun shot_time :: "('i \<Rightarrow> instant) \<Rightarrow> ('q \<Rightarrow> instant) \<Rightarrow> ('i, 'q) shot \<Rightarrow> instant" where
  "shot_time ti tq (Issue i) = ti i"
| "shot_time ti tq (Redeem q) = tq q"

subsection \<open>The contract of a one-shot store\<close>

text \<open>
  \<open>look s k\<close> is the entry of token \<open>k\<close>, \<open>expiry\<close> the end of its life, \<open>entry i\<close> what an issue
  stores, \<open>answer v q\<close> what the redemption \<open>q\<close> of a live entry \<open>v\<close> gives.
\<close>

locale one_shot =
  fixes iss :: "'i \<Rightarrow> 's \<Rightarrow> 's"
    and token :: "'i \<Rightarrow> string option"
    and itime :: "'i \<Rightarrow> instant"
    and entry :: "'i \<Rightarrow> 'v"
    and red :: "'q \<Rightarrow> 's \<Rightarrow> ('e + 'a) \<times> 's"
    and key :: "'q \<Rightarrow> string"
    and qtime :: "'q \<Rightarrow> instant"
    and look :: "'s \<Rightarrow> string \<Rightarrow> 'v option"
    and expiry :: "'v \<Rightarrow> instant"
    and answer :: "'v \<Rightarrow> 'q \<Rightarrow> 'e + 'a"
    and bad :: 'e
  assumes issue_fails: "token i = None \<Longrightarrow> iss i s = s"
    and issue_new: "token i = Some k \<Longrightarrow> look (iss i s) k = Some (entry i)"
    and issue_other: "token i = Some k \<Longrightarrow> k' \<noteq> k \<Longrightarrow> look (iss i s) k' =
      (case look s k' of None \<Rightarrow> None | Some v \<Rightarrow> if expiry v < itime i then None else Some v)"
    and red_empty: "key q = [] \<Longrightarrow> red q s = (Inl bad, s)"
    and red_answer: "key q \<noteq> [] \<Longrightarrow> fst (red q s) =
      (case look s (key q) of None \<Rightarrow> Inl bad
       | Some v \<Rightarrow> if expiry v < qtime q then Inl bad else answer v q)"
    and red_look: "key q \<noteq> [] \<Longrightarrow>
      look (snd (red q s)) k = (if k = key q then None else look s k)"
begin

lemma red_success:
  assumes "red q s = (Inr a, s')"
  shows "\<exists>v. look s (key q) = Some v \<and> qtime q \<le> expiry v \<and> answer v q = Inr a"
    and "key q \<noteq> []" and "look s' (key q) = None"
proof -
  show ne: "key q \<noteq> []" using red_empty [of q s] assms by auto
  show "\<exists>v. look s (key q) = Some v \<and> qtime q \<le> expiry v \<and> answer v q = Inr a"
    using red_answer [OF ne, of s] assms by (auto split: option.splits if_splits)
  show "look s' (key q) = None" using red_look [OF ne, of s] assms by simp
qed

lemma look_red: "look (snd (red q s)) k = None \<or> look (snd (red q s)) k = look s k"
  using red_empty [of q s] red_look [of q s] by (cases "key q = []") auto

lemma look_iss:
  "look (iss i s) k = Some v \<Longrightarrow> look s k = Some v \<or> token i = Some k \<and> v = entry i"
  using issue_fails [of i s] issue_new [of i _ s] issue_other [of i _ k s]
  by (cases "token i"; cases "token i = Some k") (auto split: option.splits if_splits)

text \<open>A token is redeemed at most as often as it was issued.\<close>

theorem redeemed_le_issued:
  "times_redeemed key k (redeemed iss red s es)
    \<le> times_issued token k es + (if look s k = None then 0 else 1)"
proof (induction es arbitrary: s)
  case Nil
  then show ?case by (simp add: times_redeemed_def times_issued_def)
next
  case (Cons e es)
  show ?case
  proof (cases e)
    case (Issue i)
    have "look (iss i s) k = None \<or> look s k \<noteq> None \<or> token i = Some k"
      using look_iss [of i s k] by (cases "look (iss i s) k") auto
    with Cons.IH [of "iss i s"] show ?thesis
      by (auto simp: Issue times_issued_def split: if_splits)
  next
    case (Redeem q)
    obtain r s' where r: "red q s = (r, s')" by (cases "red q s")
    have "look s' k = None \<or> look s' k = look s k" using look_red [of q s k] r by simp
    with Cons.IH [of s'] red_success [of q s _ s'] r show ?thesis
      by (cases r) (auto simp: Redeem times_redeemed_def times_issued_def split: if_splits)
  qed
qed

text \<open>Every redemption gives the answer of an entry that was issued, within its life.\<close>

theorem redeemed_issued:
  assumes "(q, a) \<in> set (redeemed iss red s es)" and "\<And>k. look s k = None"
  shows "\<exists>i \<in> set (issues es). token i = Some (key q) \<and> qtime q \<le> expiry (entry i)
    \<and> answer (entry i) q = Inr a"
proof -
  have gen: "\<exists>i \<in> I. token i = Some (key q) \<and> qtime q \<le> expiry (entry i) \<and> answer (entry i) q = Inr a"
    if "(q, a) \<in> set (redeemed iss red s es)"
      and "\<And>k v. look s k = Some v \<Longrightarrow> \<exists>i \<in> I. token i = Some k \<and> v = entry i"
      and "set (issues es) \<subseteq> I" for s I
    using that
  proof (induction es arbitrary: s)
    case (Cons e es)
    show ?case
    proof (cases e)
      case (Issue i)
      show ?thesis
      proof (rule Cons.IH)
        fix k v assume "look (iss i s) k = Some v"
        then show "\<exists>i \<in> I. token i = Some k \<and> v = entry i"
          using look_iss Cons.prems(2,3) Issue by fastforce
      qed (use Cons.prems Issue in auto)
    next
      case (Redeem q')
      obtain r s' where r: "red q' s = (r, s')" by (cases "red q' s")
      show ?thesis
      proof (cases "\<exists>b. r = Inr b \<and> (q, a) = (q', b)")
        case True
        then show ?thesis using red_success(1) [of q' s a s'] r Cons.prems(2) by fastforce
      next
        case False
        show ?thesis
        proof (rule Cons.IH)
          show "(q, a) \<in> set (redeemed iss red s' es)"
            using Cons.prems(1) False r by (auto simp: Redeem split: sum.splits)
          fix k v assume "look s' k = Some v"
          then show "\<exists>i \<in> I. token i = Some k \<and> v = entry i"
            using look_red [of q' s k] r Cons.prems(2) by auto
        qed (use Cons.prems Redeem in auto)
      qed
    qed
  qed simp
  show ?thesis by (rule gen [OF assms(1)]) (use assms(2) in auto)
qed

text \<open>Until then the token can be redeemed: nothing else takes it away.\<close>

theorem redeemable:
  assumes "token i = Some (key q)" and "key q \<noteq> []" and "qtime q \<le> expiry (entry i)"
    and "\<forall>e \<in> set es. shot_time itime qtime e \<le> qtime q"
    and "\<forall>j \<in> set (issues es). token j \<noteq> Some (key q)"
    and "\<forall>p. Redeem p \<in> set es \<longrightarrow> key p \<noteq> key q"
  shows "fst (red q (shot_run iss red (iss i s) es)) = answer (entry i) q"
proof -
  have "look (shot_run iss red u es) (key q) = Some (entry i)"
    if "look u (key q) = Some (entry i)" for u
    using that assms(4-6)
  proof (induction es arbitrary: u)
    case (Cons e es)
    show ?case
    proof (cases e)
      case (Issue j)
      have "look (iss j u) (key q) = Some (entry i)"
        using Cons.prems Issue issue_fails [of j u] issue_other [of j _ "key q" u] assms(3)
        by (cases "token j") auto
      then show ?thesis using Cons Issue by simp
    next
      case (Redeem p)
      have "look (snd (red p u)) (key q) = Some (entry i)"
        using Cons.prems Redeem red_empty [of p u] red_look [of p u]
        by (cases "key p = []") auto
      then show ?thesis using Cons Redeem by simp
    qed
  qed simp
  from this [OF issue_new [OF assms(1)]] show ?thesis
    using red_answer [OF assms(2)] assms(3) by simp
qed

end


subsection \<open>The WebSocket tickets\<close>

definition stream_ticket_ttl :: duration where
  "stream_ticket_ttl = 30 * go_second"

datatype ticket_error = Ticket_random | Ticket_invalid | Ticket_project

record ticket_entry =
  tk_user :: uuid
  tk_project :: uuid
  tk_expires :: instant

type_synonym ticket_store = "string \<rightharpoonup> ticket_entry"

definition new_ticket_store :: ticket_store where
  "new_ticket_store = Map.empty"

text \<open>The sweep of the expired entries, which the three stores do alike before they add one.\<close>

definition drop_expired :: "('v \<Rightarrow> instant) \<Rightarrow> instant \<Rightarrow> (string \<rightharpoonup> 'v) \<Rightarrow> string \<rightharpoonup> 'v" where
  "drop_expired expires now m =
     (\<lambda>k. case m k of None \<Rightarrow> None | Some v \<Rightarrow> if expires v < now then None else Some v)"

definition issue_ticket ::
  "nat list option \<Rightarrow> uuid \<Rightarrow> uuid \<Rightarrow> instant \<Rightarrow> (ticket_store, ticket_error, string \<times> duration) op" where
  "issue_ticket rnd user project now m =
     (case random_token rnd of
        None \<Rightarrow> (Inl Ticket_random, m)
      | Some raw \<Rightarrow>
          let m = drop_expired tk_expires now m in
          (Inr (raw, stream_ticket_ttl),
           m(raw \<mapsto> \<lparr> tk_user = user, tk_project = project, tk_expires = now + stream_ticket_ttl \<rparr>)))"

definition consume_ticket ::
  "string \<Rightarrow> uuid \<Rightarrow> instant \<Rightarrow> (ticket_store, ticket_error, uuid) op" where
  "consume_ticket raw project now m =
     (if raw = [] then (Inl Ticket_invalid, m)
      else
        let entry = m raw; m = m(raw := None) in
        case entry of
          None \<Rightarrow> (Inl Ticket_invalid, m)
        | Some entry \<Rightarrow>
            if tk_expires entry < now then (Inl Ticket_invalid, m)
            else if tk_project entry \<noteq> project then (Inl Ticket_project, m)
            else (Inr (tk_user entry), m))"

text \<open>The requests of the two operations, and what the contract needs of them.\<close>

record ticket_issue =
  ti_random :: "nat list option"
  ti_user :: uuid
  ti_project :: uuid
  ti_now :: instant

record ticket_redeem =
  tr_raw :: string
  tr_project :: uuid
  tr_now :: instant

definition do_issue_ticket :: "ticket_issue \<Rightarrow> ticket_store \<Rightarrow> ticket_store" where
  "do_issue_ticket i m = snd (issue_ticket (ti_random i) (ti_user i) (ti_project i) (ti_now i) m)"

definition do_consume_ticket ::
  "ticket_redeem \<Rightarrow> (ticket_store, ticket_error, uuid) op" where
  "do_consume_ticket q = consume_ticket (tr_raw q) (tr_project q) (tr_now q)"

abbreviation ticket_token :: "ticket_issue \<Rightarrow> string option" where
  "ticket_token i \<equiv> random_token (ti_random i)"

lemma drop_expired_simps [simp]:
  "drop_expired expires now m k =
     (case m k of None \<Rightarrow> None | Some v \<Rightarrow> if expires v < now then None else Some v)"
  by (simp add: drop_expired_def)

interpretation ticket: one_shot do_issue_ticket ticket_token ti_now
  "\<lambda>i. \<lparr> tk_user = ti_user i, tk_project = ti_project i, tk_expires = ti_now i + stream_ticket_ttl \<rparr>"
  do_consume_ticket tr_raw tr_now "\<lambda>m. m" tk_expires
  "\<lambda>v q. if tk_project v \<noteq> tr_project q then Inl Ticket_project else Inr (tk_user v)" Ticket_invalid
  by unfold_locales
    (auto simp: do_issue_ticket_def issue_ticket_def do_consume_ticket_def consume_ticket_def Let_def
      split: option.splits)

subsection \<open>Single sign-on: login states and session codes\<close>

definition login_state_ttl :: duration where
  "login_state_ttl = 10 * go_minute"

definition session_code_ttl :: duration where
  "session_code_ttl = 60 * go_second"

datatype sso_error = Sso_random | State_invalid | Session_invalid

record login_state =
  ls_org :: uuid
  ls_nonce :: string
  ls_verifier :: string
  ls_expires :: instant

type_synonym state_store = "string \<rightharpoonup> login_state"

text \<open>
  \<open>begin\<close>: three random tokens, read in the order of the code; \<open>sha256\<close> is the digest, as bytes.
  It returns the state, the nonce and the PKCE challenge.
\<close>

definition begin_login ::
  "(string \<Rightarrow> nat list) \<Rightarrow> nat list option \<times> nat list option \<times> nat list option \<Rightarrow> uuid \<Rightarrow> instant \<Rightarrow>
   (state_store, sso_error, string \<times> string \<times> string) op" where
  "begin_login sha256 rnd org now m =
     (case rnd of (r1, r2, r3) \<Rightarrow>
      case random_token r1 of None \<Rightarrow> (Inl Sso_random, m) | Some state \<Rightarrow>
      case random_token r2 of None \<Rightarrow> (Inl Sso_random, m) | Some nonce \<Rightarrow>
      case random_token r3 of None \<Rightarrow> (Inl Sso_random, m) | Some verifier \<Rightarrow>
        let challenge = base64url (sha256 verifier);
          m = drop_expired ls_expires now m
        in (Inr (state, nonce, challenge),
            m(state \<mapsto> \<lparr> ls_org = org, ls_nonce = nonce, ls_verifier = verifier,
                           ls_expires = now + login_state_ttl \<rparr>)))"

definition consume_state :: "string \<Rightarrow> instant \<Rightarrow> (state_store, sso_error, login_state) op" where
  "consume_state state now m =
     (if state = [] then (Inl State_invalid, m)
      else
        let ls = m state; m = m(state := None) in
        case ls of
          None \<Rightarrow> (Inl State_invalid, m)
        | Some ls \<Rightarrow> if ls_expires ls < now then (Inl State_invalid, m) else (Inr ls, m))"

record session_entry =
  se_token :: string
  se_expires :: instant

type_synonym session_store = "string \<rightharpoonup> session_entry"

definition put_session ::
  "nat list option \<Rightarrow> string \<Rightarrow> instant \<Rightarrow> (session_store, sso_error, string) op" where
  "put_session rnd token now m =
     (case random_token rnd of
        None \<Rightarrow> (Inl Sso_random, m)
      | Some code \<Rightarrow>
          (Inr code, (drop_expired se_expires now m)
             (code \<mapsto> \<lparr> se_token = token, se_expires = now + session_code_ttl \<rparr>)))"

definition take_session :: "string \<Rightarrow> instant \<Rightarrow> (session_store, sso_error, string) op" where
  "take_session code now m =
     (if code = [] then (Inl Session_invalid, m)
      else
        let e = m code; m = m(code := None) in
        case e of
          None \<Rightarrow> (Inl Session_invalid, m)
        | Some e \<Rightarrow> if se_expires e < now then (Inl Session_invalid, m) else (Inr (se_token e), m))"

record login_begin =
  lb_random :: "nat list option \<times> nat list option \<times> nat list option"
  lb_org :: uuid
  lb_now :: instant

definition login_token :: "login_begin \<Rightarrow> string option" where
  "login_token i = (case lb_random i of (r1, r2, r3) \<Rightarrow>
     if r2 = None \<or> r3 = None then None else random_token r1)"

definition login_entry :: "login_begin \<Rightarrow> login_state" where
  "login_entry i = (case lb_random i of (r1, r2, r3) \<Rightarrow>
     \<lparr> ls_org = lb_org i, ls_nonce = the (random_token r2), ls_verifier = the (random_token r3),
       ls_expires = lb_now i + login_state_ttl \<rparr>)"

definition do_begin :: "(string \<Rightarrow> nat list) \<Rightarrow> login_begin \<Rightarrow> state_store \<Rightarrow> state_store" where
  "do_begin sha256 i m = snd (begin_login sha256 (lb_random i) (lb_org i) (lb_now i) m)"

definition do_consume :: "string \<times> instant \<Rightarrow> (state_store, sso_error, login_state) op" where
  "do_consume q = consume_state (fst q) (snd q)"

record session_put =
  sp_random :: "nat list option"
  sp_token :: string
  sp_now :: instant

definition do_put :: "session_put \<Rightarrow> session_store \<Rightarrow> session_store" where
  "do_put i m = snd (put_session (sp_random i) (sp_token i) (sp_now i) m)"

definition do_take :: "string \<times> instant \<Rightarrow> (session_store, sso_error, string) op" where
  "do_take q = take_session (fst q) (snd q)"

lemma do_begin_eq:
  "do_begin sha256 i m = (case login_token i of None \<Rightarrow> m
     | Some k \<Rightarrow> (drop_expired ls_expires (lb_now i) m)(k \<mapsto> login_entry i))"
proof -
  obtain r1 r2 r3 where r: "lb_random i = (r1, r2, r3)" by (cases "lb_random i")
  show ?thesis
    by (cases r1; cases r2; cases r3)
      (simp_all add: do_begin_def begin_login_def login_token_def login_entry_def random_token_def r)
qed

interpretation login: one_shot "do_begin sha256" login_token lb_now login_entry
  do_consume fst snd "\<lambda>m. m" ls_expires "\<lambda>v q. Inr v" State_invalid
  for sha256
  by unfold_locales
    (auto simp: do_begin_eq do_consume_def consume_state_def Let_def login_entry_def
      split: option.splits prod.splits)

interpretation session: one_shot do_put "\<lambda>i. random_token (sp_random i)" sp_now
  "\<lambda>i. \<lparr> se_token = sp_token i, se_expires = sp_now i + session_code_ttl \<rparr>"
  do_take fst snd "\<lambda>m. m" se_expires "\<lambda>v q. Inr (se_token v)" Session_invalid
  by unfold_locales
    (auto simp: do_put_def put_session_def do_take_def take_session_def Let_def split: option.splits)


subsection \<open>Properties\<close>

lemma times_issued_le_1:
  assumes "distinct (map f (issues es))"
    and "\<And>i j. i \<in> set (issues es) \<Longrightarrow> j \<in> set (issues es) \<Longrightarrow>
      token i = Some k \<Longrightarrow> token j = Some k \<Longrightarrow> f i = f j"
  shows "times_issued token k es \<le> 1"
  unfolding times_issued_def by (rule length_filter_le_1 [OF assms])

definition random_32 :: "nat list option \<Rightarrow> bool" where
  "random_32 rnd = (case rnd of None \<Rightarrow> True | Some bs \<Rightarrow> length bs = 32 \<and> (\<forall>b \<in> set bs. b < 256))"

lemma random_token_inj:
  "random_32 r \<Longrightarrow> random_32 r' \<Longrightarrow> random_token r = Some k \<Longrightarrow> random_token r' = Some k \<Longrightarrow> r = r'"
  by (auto simp: random_32_def random_token_def intro: base64url_inj)

text \<open>
  C36: a WebSocket ticket is redeemed at most once. In any run of the store, with the random reads
  of its issues pairwise different, at most one redemption of a given ticket succeeds.
\<close>

theorem ticket_single_use:
  fixes es :: "(ticket_issue, ticket_redeem) shot list"
  assumes "distinct (map ti_random (issues es))" and "\<forall>i \<in> set (issues es). random_32 (ti_random i)"
  shows "times_redeemed tr_raw k (redeemed do_issue_ticket do_consume_ticket new_ticket_store es) \<le> 1"
proof -
  have "times_issued ticket_token k es \<le> 1"
    by (rule times_issued_le_1 [OF assms(1)]) (use assms(2) in \<open>auto intro: random_token_inj\<close>)
  with ticket.redeemed_le_issued [of k new_ticket_store es] show ?thesis
    by (simp add: new_ticket_store_def)
qed

theorem ticket_single_use_witness:
  "times_redeemed tr_raw (base64url (replicate 32 1))
    (redeemed do_issue_ticket do_consume_ticket new_ticket_store
      [Issue \<lparr> ti_random = Some (replicate 32 1), ti_user = 4, ti_project = 9, ti_now = 0 \<rparr>,
       Redeem \<lparr> tr_raw = base64url (replicate 32 1), tr_project = 9, tr_now = 5 \<rparr>,
       Redeem \<lparr> tr_raw = base64url (replicate 32 1), tr_project = 9, tr_now = 6 \<rparr>]) \<le> 1"
  by (rule ticket_single_use) (simp_all add: random_32_def)

text \<open>
  C37: a redemption that succeeds names the user and the project the ticket was issued for, and
  comes within the thirty seconds of its life.
\<close>

theorem ticket_bound_to_issue:
  assumes "(q, user) \<in> set (redeemed do_issue_ticket do_consume_ticket new_ticket_store es)"
  shows "\<exists>i \<in> set (issues es). ticket_token i = Some (tr_raw q) \<and> ti_user i = user
    \<and> ti_project i = tr_project q \<and> tr_now q \<le> ti_now i + stream_ticket_ttl"
  using ticket.redeemed_issued [OF assms] by (auto simp: new_ticket_store_def split: if_splits)

theorem ticket_bound_to_issue_witness:
  "\<exists>i \<in> set (issues [Issue \<lparr> ti_random = Some [1, 2, 3], ti_user = 4, ti_project = 9, ti_now = 0 \<rparr>,
       Redeem \<lparr> tr_raw = base64url [1, 2, 3], tr_project = 9, tr_now = 5 \<rparr>]).
    ticket_token i = Some (tr_raw \<lparr> tr_raw = base64url [1, 2, 3], tr_project = 9, tr_now = 5 \<rparr>) \<and> ti_user i = 4
    \<and> ti_project i = tr_project \<lparr> tr_raw = base64url [1, 2, 3], tr_project = 9, tr_now = 5 \<rparr>
    \<and> tr_now \<lparr> tr_raw = base64url [1, 2, 3], tr_project = 9, tr_now = 5 \<rparr> \<le> ti_now i + stream_ticket_ttl"
  by (rule ticket_bound_to_issue)
    (simp add: do_issue_ticket_def issue_ticket_def do_consume_ticket_def consume_ticket_def
      new_ticket_store_def random_token_def stream_ticket_ttl_def Let_def)

text \<open>
  A ticket can be redeemed for the whole of its life. Whatever other tickets are issued, swept
  or redeemed between its issue and its redemption within thirty seconds for the same project, the
  redemption returns the user.
\<close>

theorem ticket_redeemable:
  assumes "random_token rnd = Some raw" and "raw \<noteq> []" and "now' \<le> now + stream_ticket_ttl"
    and "\<forall>e \<in> set es. shot_time ti_now tr_now e \<le> now'"
    and "\<forall>j \<in> set (issues es). ticket_token j \<noteq> Some raw"
    and "\<forall>p. Redeem p \<in> set es \<longrightarrow> tr_raw p \<noteq> raw"
  shows "fst (consume_ticket raw project now'
    (shot_run do_issue_ticket do_consume_ticket
      (snd (issue_ticket rnd user project now m)) es)) = Inr user"
proof -
  let ?i = "\<lparr> ti_random = rnd, ti_user = user, ti_project = project, ti_now = now \<rparr>"
  let ?q = "\<lparr> tr_raw = raw, tr_project = project, tr_now = now' \<rparr>"
  from ticket.redeemable [of ?i ?q es m] assms show ?thesis
    by (simp add: do_issue_ticket_def do_consume_ticket_def)
qed

theorem ticket_redeemable_witness:
  "fst (consume_ticket (base64url [1, 2, 3]) 9 (20 * go_second)
    (shot_run do_issue_ticket do_consume_ticket
      (snd (issue_ticket (Some [1, 2, 3]) 4 9 0 Map.empty))
      [Issue \<lparr> ti_random = Some [7, 7, 7], ti_user = 5, ti_project = 9, ti_now = 19 * go_second \<rparr>])) = Inr 4"
  by (rule ticket_redeemable)
    (simp_all add: random_token_def stream_ticket_ttl_def sextet_def base64url_alphabet_def)

text \<open>
  C40: a login state of single sign-on is consumed at most as often as it was minted, within ten
  minutes of its begin, and gives back the organization, the nonce and the PKCE verifier of that
  begin.
\<close>

theorem login_state_sound:
  assumes "(q, ls) \<in> set (redeemed (do_begin sha256) do_consume Map.empty es)"
  shows "times_redeemed fst (fst q) (redeemed (do_begin sha256) do_consume Map.empty es)
      \<le> times_issued login_token (fst q) es
    \<and> (\<exists>i \<in> set (issues es). login_token i = Some (fst q) \<and> ls = login_entry i
        \<and> snd q \<le> lb_now i + login_state_ttl)"
  using login.redeemed_issued [OF assms] login.redeemed_le_issued [of "fst q" sha256 Map.empty es]
  by (auto simp: login_entry_def split: prod.splits)

theorem login_state_sound_witness:
  "let es = [Issue \<lparr> lb_random = (Some [1], Some [2], Some [3]), lb_org = 6, lb_now = 0 \<rparr>,
       Redeem (base64url [1], go_minute)];
     ls = \<lparr> ls_org = 6, ls_nonce = base64url [2], ls_verifier = base64url [3], ls_expires = 10 * go_minute \<rparr>
   in times_redeemed fst (base64url [1]) (redeemed (do_begin (\<lambda>_. [])) do_consume Map.empty es)
      \<le> times_issued login_token (base64url [1]) es
    \<and> (\<exists>i \<in> set (issues es). login_token i = Some (base64url [1]) \<and> ls = login_entry i
        \<and> go_minute \<le> lb_now i + login_state_ttl)"
  using login_state_sound [of "(base64url [1], go_minute)"
      "\<lparr> ls_org = 6, ls_nonce = base64url [2], ls_verifier = base64url [3], ls_expires = 10 * go_minute \<rparr>"
      "\<lambda>_. []" "[Issue \<lparr> lb_random = (Some [1], Some [2], Some [3]), lb_org = 6, lb_now = 0 \<rparr>,
       Redeem (base64url [1], go_minute)]"]
  by (simp add: do_begin_eq login_token_def login_entry_def do_consume_def consume_state_def
      random_token_def login_state_ttl_def Let_def)

text \<open>
  A session code of single sign-on hands over the session token it was put for, within a
  minute, and at most as often as the code was minted.
\<close>

theorem session_code_sound:
  assumes "(q, token) \<in> set (redeemed do_put do_take Map.empty es)"
  shows "times_redeemed fst (fst q) (redeemed do_put do_take Map.empty es)
      \<le> times_issued (\<lambda>i. random_token (sp_random i)) (fst q) es
    \<and> (\<exists>i \<in> set (issues es). random_token (sp_random i) = Some (fst q) \<and> token = sp_token i
        \<and> snd q \<le> sp_now i + session_code_ttl)"
  using session.redeemed_issued [OF assms] session.redeemed_le_issued [of "fst q" Map.empty es]
  by auto

theorem session_code_sound_witness:
  "let es = [Issue \<lparr> sp_random = Some [1], sp_token = ''jwt'', sp_now = 0 \<rparr>, Redeem (base64url [1], go_second)]
   in times_redeemed fst (base64url [1]) (redeemed do_put do_take Map.empty es)
      \<le> times_issued (\<lambda>i. random_token (sp_random i)) (base64url [1]) es
    \<and> (\<exists>i \<in> set (issues es). random_token (sp_random i) = Some (base64url [1]) \<and> ''jwt'' = sp_token i
        \<and> go_second \<le> sp_now i + session_code_ttl)"
  using session_code_sound [of "(base64url [1], go_second)" "''jwt''"
      "[Issue \<lparr> sp_random = Some [1], sp_token = ''jwt'', sp_now = 0 \<rparr>, Redeem (base64url [1], go_second)]"]
  by (simp add: do_put_def put_session_def do_take_def take_session_def random_token_def
      session_code_ttl_def Let_def)

end
