(* ===== verification/AlertCondition.thy ===== *)
theory AlertCondition
  imports GoLib
begin

text \<open>
  When an alert rule fires: the condition of a rule, its validation and the test of one log
  (\<open>business/domain/integrationbus/condition.go\<close>), the choice of the log that represents a batch
  (\<open>matchPayloads\<close> in \<open>integrationbus.go\<close>), the severity of a threshold notification
  (\<open>thresholdLevel\<close> in \<open>threshold.go\<close>), and the data model of the alert rules (\<open>model.go\<close>).

  Go's \<open>int\<close> is \<open>int\<close>; the one product that can leave the 64-bit range, the window of a
  condition, wraps around as the code's does.
\<close>

subsection \<open>Levels\<close>

abbreviation "lv_debug \<equiv> ''DEBUG''"
abbreviation "lv_info \<equiv> ''INFO''"
abbreviation "lv_warn \<equiv> ''WARN''"
abbreviation "lv_error \<equiv> ''ERROR''"

definition valid_levels :: "string list" where
  "valid_levels = [lv_debug, lv_info, lv_warn, lv_error]"

definition severity_rank :: "string \<Rightarrow> int" where
  "severity_rank level =
     (if level = lv_debug then 0 else if level = lv_info then 1
      else if level = lv_warn then 2 else if level = lv_error then 3 else -1)"

text \<open>\<open>levelThreshold\<close>: the levels of the rules a log of the given level fires.\<close>

fun prefix_through :: "string \<Rightarrow> string list \<Rightarrow> string list option" where
  "prefix_through x [] = None"
| "prefix_through x (l # ls) =
     (if l = x then Some [l] else map_option (\<lambda>r. l # r) (prefix_through x ls))"

definition level_threshold :: "string \<Rightarrow> string list" where
  "level_threshold log_level =
     (case prefix_through log_level [lv_debug, lv_info, lv_warn, lv_error] of
        None \<Rightarrow> [] | Some ls \<Rightarrow> ls)"

lemma severity_rank_valid: "0 \<le> severity_rank l \<longleftrightarrow> l \<in> set valid_levels"
  by (auto simp: severity_rank_def valid_levels_def)

lemma severity_rank_bounds: "-1 \<le> severity_rank l" "severity_rank l \<le> 3"
  by (auto simp: severity_rank_def)

lemma severity_rank_inj:
  "0 \<le> severity_rank l \<Longrightarrow> severity_rank l = severity_rank l' \<Longrightarrow> l = l'"
  by (auto simp: severity_rank_def split: if_splits)

subsection \<open>Queries\<close>

record query =
  q_levels :: "string list"
  q_contains :: string
  q_source :: string

definition query_is_zero :: "query \<Rightarrow> bool" where
  "query_is_zero q \<longleftrightarrow>
     q_levels q = [] \<and> trim_space (q_contains q) = [] \<and> trim_space (q_source q) = []"

definition query_matches :: "query \<Rightarrow> string \<Rightarrow> string \<Rightarrow> string \<Rightarrow> bool" where
  "query_matches q level message source =
     (if query_is_zero q then False
      else if q_levels q \<noteq> [] \<and> \<not> (\<exists>l \<in> set (q_levels q). equal_fold l level) then False
      else
        let c = trim_space (q_contains q) in
        if c \<noteq> [] \<and> \<not> contains (to_lower message) (to_lower c) then False
        else
          let s = trim_space (q_source q) in
          if s \<noteq> [] \<and> \<not> equal_fold s source then False else True)"

subsection \<open>Conditions\<close>

definition condition_level :: string where "condition_level = ''level''"
definition condition_match :: string where "condition_match = ''match''"
definition condition_threshold :: string where "condition_threshold = ''threshold''"
definition comparator_gte :: string where "comparator_gte = ''gte''"
definition comparator_gt :: string where "comparator_gt = ''gt''"

definition min_threshold_window :: duration where "min_threshold_window = 30 * go_second"
definition max_threshold_window :: duration where "max_threshold_window = go_hour"
definition max_threshold_count :: int where "max_threshold_count = 1000000"

lemmas condition_consts =
  condition_level_def condition_match_def condition_threshold_def comparator_gte_def
  comparator_gt_def min_threshold_window_def max_threshold_window_def max_threshold_count_def

datatype condition_error =
    Err_condition_type
  | Err_condition_level
  | Err_condition_query
  | Err_condition_window
  | Err_condition_count
  | Err_condition_comparator

record alert_condition =
  c_type :: string
  c_level :: string
  c_query :: "query option"
  c_window_seconds :: int
  c_count :: int
  c_comparator :: string

definition level_condition :: "string \<Rightarrow> alert_condition" where
  "level_condition level = \<lparr> c_type = condition_level, c_level = level, c_query = None,
     c_window_seconds = 0, c_count = 0, c_comparator = [] \<rparr>"

definition condition_window :: "alert_condition \<Rightarrow> duration" where
  "condition_window c = wrap64 (c_window_seconds c * go_second)"

definition needs_evaluator :: "alert_condition \<Rightarrow> bool" where
  "needs_evaluator c = (c_type c = condition_threshold)"

definition validate_query_levels :: "query \<Rightarrow> condition_error option" where
  "validate_query_levels q =
     (if \<exists>l \<in> set (q_levels q). severity_rank l < 0 then Some Err_condition_level else None)"

definition condition_validate :: "alert_condition \<Rightarrow> condition_error option" where
  "condition_validate c =
     (if c_type c = condition_level then
        (if severity_rank (c_level c) < 0 then Some Err_condition_level else None)
      else if c_type c = condition_match then
        (case c_query c of
           None \<Rightarrow> Some Err_condition_query
         | Some q \<Rightarrow> if query_is_zero q then Some Err_condition_query else validate_query_levels q)
      else if c_type c = condition_threshold then
        (case c_query c of
           None \<Rightarrow> Some Err_condition_query
         | Some q \<Rightarrow>
             if query_is_zero q then Some Err_condition_query
             else case validate_query_levels q of Some e \<Rightarrow> Some e
             | None \<Rightarrow>
                 if condition_window c < min_threshold_window \<or> max_threshold_window < condition_window c
                 then Some Err_condition_window
                 else if c_count c \<le> 0 \<or> max_threshold_count < c_count c then Some Err_condition_count
                 else if c_comparator c = comparator_gte \<or> c_comparator c = comparator_gt then None
                 else Some Err_condition_comparator)
      else Some Err_condition_type)"

definition matches_log :: "alert_condition \<Rightarrow> string \<Rightarrow> string \<Rightarrow> string \<Rightarrow> bool" where
  "matches_log c level message source =
     (if c_type c = condition_level then
        let r = severity_rank level; want = severity_rank (c_level c) in
        0 \<le> r \<and> 0 \<le> want \<and> want \<le> r
      else if c_type c = condition_match \<or> c_type c = condition_threshold then
        (case c_query c of None \<Rightarrow> False | Some q \<Rightarrow> query_matches q level message source)
      else False)"

definition satisfied :: "alert_condition \<Rightarrow> int \<Rightarrow> bool" where
  "satisfied c matched =
     (if c_type c \<noteq> condition_threshold then 0 < matched
      else if c_comparator c = comparator_gt then c_count c < matched
      else c_count c \<le> matched)"

definition dedup_key :: "alert_condition \<Rightarrow> string \<Rightarrow> string" where
  "dedup_key c level =
     (if c_type c = condition_threshold then ''threshold'' else to_upper (trim_space level))"

text \<open>\<open>thresholdLevel\<close>: the most severe level of the query, the first of them when they tie.\<close>

definition threshold_level :: "query \<Rightarrow> string" where
  "threshold_level q =
     (let best = foldl (\<lambda>best l. if severity_rank best < severity_rank l then l else best) [] (q_levels q)
      in if best = [] then lv_error else best)"

subsection \<open>Payloads and the choice of a representative\<close>

record alert_payload =
  ap_project_name :: string
  ap_level :: string
  ap_message :: string
  ap_source :: string
  ap_log_id :: string
  ap_timestamp :: instant

definition match_payloads :: "alert_condition \<Rightarrow> alert_payload list \<Rightarrow> int \<times> alert_payload option" where
  "match_payloads c ps =
     foldl (\<lambda>(matched, rep) p.
       if \<not> matches_log c (ap_level p) (ap_message p) (ap_source p) then (matched, rep)
       else (matched + 1,
         case rep of
           None \<Rightarrow> Some p
         | Some r \<Rightarrow> if severity_rank (ap_level r) < severity_rank (ap_level p) then Some p else rep))
       (0, None) ps"

subsection \<open>Rules\<close>

definition default_dedup_window :: duration where
  "default_dedup_window = 5 * go_minute"

record alert_rule =
  ar_id :: uuid
  ar_org :: uuid
  ar_project :: uuid
  ar_connection :: uuid
  ar_user :: "uuid option"
  ar_name :: string
  ar_level :: string
  ar_condition :: alert_condition
  ar_dedup_window_seconds :: int
  ar_snooze_until :: "instant option"
  ar_is_active :: bool
  ar_created_at :: instant
  ar_updated_at :: instant

definition dedup_window :: "alert_rule \<Rightarrow> duration" where
  "dedup_window r =
     (if ar_dedup_window_seconds r \<le> 0 then default_dedup_window
      else wrap64 (ar_dedup_window_seconds r * go_second))"

subsection \<open>Facts about queries and batches\<close>

lemma query_matches_iff:
  "query_matches q level message source \<longleftrightarrow>
     \<not> query_is_zero q \<and>
     (q_levels q = [] \<or> (\<exists>l \<in> set (q_levels q). equal_fold l level)) \<and>
     (trim_space (q_contains q) = [] \<or>
       contains (to_lower message) (to_lower (trim_space (q_contains q)))) \<and>
     (trim_space (q_source q) = [] \<or> equal_fold (trim_space (q_source q)) source)"
  by (auto simp: query_matches_def Let_def)

text \<open>A query with more predicates: each one of the wider query is there, or was empty.\<close>

definition narrows :: "query \<Rightarrow> query \<Rightarrow> bool" where
  "narrows q w \<longleftrightarrow>
     (q_levels w = [] \<or> q_levels q \<noteq> [] \<and> set (q_levels q) \<subseteq> set (q_levels w)) \<and>
     (trim_space (q_contains w) = [] \<or> trim_space (q_contains q) = trim_space (q_contains w)) \<and>
     (trim_space (q_source w) = [] \<or> trim_space (q_source q) = trim_space (q_source w))"

text \<open>The fold of \<open>matchPayloads\<close>, with the part of the batch it has seen.\<close>

definition first_worst :: "alert_payload list \<Rightarrow> alert_payload option \<Rightarrow> bool" where
  "first_worst ps rep =
     (case rep of
        None \<Rightarrow> ps = []
      | Some r \<Rightarrow> \<exists>as bs. ps = as @ r # bs \<and>
          (\<forall>a \<in> set as. severity_rank (ap_level a) < severity_rank (ap_level r)) \<and>
          (\<forall>b \<in> set bs. severity_rank (ap_level b) \<le> severity_rank (ap_level r)))"

abbreviation payload_matches :: "alert_condition \<Rightarrow> alert_payload \<Rightarrow> bool" where
  "payload_matches c p \<equiv> matches_log c (ap_level p) (ap_message p) (ap_source p)"

lemma first_worst_snoc:
  assumes "first_worst ps rep"
  shows "first_worst (ps @ [p]) (case rep of None \<Rightarrow> Some p
    | Some r \<Rightarrow> if severity_rank (ap_level r) < severity_rank (ap_level p) then Some p else rep)"
proof (cases rep)
  case None
  then show ?thesis using assms by (auto simp: first_worst_def intro: exI [of _ "[]"])
next
  case (Some r)
  with assms obtain as bs where ps: "ps = as @ r # bs"
    and a: "\<forall>a \<in> set as. severity_rank (ap_level a) < severity_rank (ap_level r)"
    and b: "\<forall>b \<in> set bs. severity_rank (ap_level b) \<le> severity_rank (ap_level r)"
    by (auto simp: first_worst_def)
  show ?thesis
  proof (cases "severity_rank (ap_level r) < severity_rank (ap_level p)")
    case True
    then have "\<forall>x \<in> set ps. severity_rank (ap_level x) < severity_rank (ap_level p)"
      using ps a b by fastforce
    with True Some show ?thesis by (auto simp: first_worst_def intro: exI [of _ ps])
  next
    case False
    then have "\<forall>x \<in> set (bs @ [p]). severity_rank (ap_level x) \<le> severity_rank (ap_level r)"
      using b by auto
    with False Some ps a show ?thesis
      by (auto simp: first_worst_def intro: exI [of _ as] exI [of _ "bs @ [p]"])
  qed
qed

lemma match_payloads_spec:
  "fst (match_payloads c ps) = int (length (filter (payload_matches c) ps))
   \<and> first_worst (filter (payload_matches c) ps) (snd (match_payloads c ps))"
proof (induction ps rule: rev_induct)
  case Nil
  then show ?case by (simp add: match_payloads_def first_worst_def)
next
  case (snoc p ps)
  obtain n rep where mp: "match_payloads c ps = (n, rep)" by (cases "match_payloads c ps")
  have step: "match_payloads c (ps @ [p]) =
      (if \<not> payload_matches c p then (n, rep)
       else (n + 1, case rep of None \<Rightarrow> Some p
         | Some r \<Rightarrow> if severity_rank (ap_level r) < severity_rank (ap_level p) then Some p else rep))"
    using mp by (simp add: match_payloads_def)
  show ?case
    using snoc mp first_worst_snoc [of "filter (payload_matches c) ps" rep p]
    by (cases "payload_matches c p") (simp_all add: step)
qed

lemma match_payloads_some:
  assumes "match_payloads c ps = (n, rep)"
  shows "n = 0 \<longleftrightarrow> rep = None" and "rep = Some r \<Longrightarrow> r \<in> set ps \<and> payload_matches c r"
    and "0 \<le> n"
proof -
  have n: "n = int (length (filter (payload_matches c) ps))"
    and fw: "first_worst (filter (payload_matches c) ps) rep"
    using match_payloads_spec [of c ps] assms by auto
  show "n = 0 \<longleftrightarrow> rep = None"
    using n fw by (cases rep) (auto simp: first_worst_def)
  show "0 \<le> n" using n by simp
  assume "rep = Some r"
  with fw obtain as bs where "filter (payload_matches c) ps = as @ r # bs"
    by (auto simp: first_worst_def)
  then have "r \<in> set (filter (payload_matches c) ps)" by simp
  then show "r \<in> set ps \<and> payload_matches c r" by simp
qed

lemma threshold_level_fold:
  fixes ls :: "string list"
  defines "best \<equiv> \<lambda>b. foldl (\<lambda>best l. if severity_rank best < severity_rank l then l else best) b ls"
  shows "best b \<in> insert b (set ls)"
    and "\<forall>l \<in> insert b (set ls). severity_rank l \<le> severity_rank (best b)"
  unfolding best_def by (induction ls arbitrary: b) (force split: if_splits)+


lemma prefix_through_spec:
  "distinct ls \<Longrightarrow> prefix_through x ls =
    (if x \<in> set ls then Some (takeWhile (\<lambda>l. l \<noteq> x) ls @ [x]) else None)"
  by (induction ls) auto

lemma contains_self: "contains s s"
  by (cases s) (simp_all add: has_prefix_def)

lemma trim_space_idem_ne: "trim_space s \<noteq> [] \<Longrightarrow> s \<noteq> []"
  by auto

subsection \<open>Properties\<close>

text \<open>
  C32: \<open>matchPayloads\<close> counts the logs of a batch that satisfy a condition, and represents them by
  the first of the most severe ones: every matching log before it is less severe, no matching log
  after it is more severe; there is no representative exactly when nothing matched.
\<close>

theorem match_payloads_representative:
  "fst (match_payloads c ps) = int (length (filter (\<lambda>p. matches_log c (ap_level p) (ap_message p) (ap_source p)) ps))
   \<and> (case snd (match_payloads c ps) of
        None \<Rightarrow> filter (\<lambda>p. matches_log c (ap_level p) (ap_message p) (ap_source p)) ps = []
      | Some r \<Rightarrow> \<exists>as bs. filter (\<lambda>p. matches_log c (ap_level p) (ap_message p) (ap_source p)) ps = as @ r # bs
          \<and> (\<forall>a \<in> set as. severity_rank (ap_level a) < severity_rank (ap_level r))
          \<and> (\<forall>b \<in> set bs. severity_rank (ap_level b) \<le> severity_rank (ap_level r)))"
  using match_payloads_spec [of c ps] by (simp add: first_worst_def)

theorem match_payloads_representative_witness:
  "let p = \<lambda>l m. \<lparr> ap_project_name = [], ap_level = l, ap_message = m, ap_source = [], ap_log_id = [], ap_timestamp = 0 \<rparr>;
     c = level_condition lv_info; ps = [p lv_debug ''a'', p lv_info ''b'', p lv_error ''c'', p lv_error ''d'']
   in match_payloads c ps = (3, Some (p lv_error ''c''))
    \<and> fst (match_payloads c ps) = int (length (filter (\<lambda>p. matches_log c (ap_level p) (ap_message p) (ap_source p)) ps))"
  unfolding Let_def
  by (rule conjI [OF _ conjunct1 [OF match_payloads_representative]])
    (simp add: match_payloads_def matches_log_def level_condition_def condition_consts severity_rank_def Let_def)

text \<open>
  A condition that passes validation is never dead. Some log satisfies it, and a threshold
  condition is satisfied by some number of matches no larger than a million and one.
\<close>

theorem valid_condition_can_fire:
  assumes "condition_validate c = None"
  shows "(\<exists>level message source. matches_log c level message source)
    \<and> (\<exists>n. 0 < n \<and> n \<le> max_threshold_count + 1 \<and> satisfied c n)"
proof
  show "\<exists>level message source. matches_log c level message source"
  proof (cases "c_type c = condition_level")
    case True
    then have "matches_log c (c_level c) [] []"
      using assms by (auto simp: condition_validate_def matches_log_def Let_def split: if_splits)
    then show ?thesis by blast
  next
    case False
    with assms obtain q where q: "c_query c = Some q" "\<not> query_is_zero q"
      and t: "c_type c = condition_match \<or> c_type c = condition_threshold"
      by (auto simp: condition_validate_def split: if_splits option.splits)
    let ?l = "case q_levels q of [] \<Rightarrow> [] | l # _ \<Rightarrow> l"
    have "query_matches q ?l (trim_space (q_contains q)) (trim_space (q_source q))"
      using q(2) by (cases "q_levels q") (auto simp: query_matches_iff contains_self)
    with False t q(1) have "matches_log c ?l (trim_space (q_contains q)) (trim_space (q_source q))"
      by (auto simp: matches_log_def)
    then show ?thesis by blast
  qed
  show "\<exists>n. 0 < n \<and> n \<le> max_threshold_count + 1 \<and> satisfied c n"
  proof (cases "c_type c = condition_threshold")
    case True
    then have "0 < c_count c" "c_count c \<le> max_threshold_count"
      using assms by (auto simp: condition_validate_def condition_consts split: if_splits option.splits)
    then have "0 < c_count c + 1 \<and> c_count c + 1 \<le> max_threshold_count + 1 \<and> satisfied c (c_count c + 1)"
      by (simp add: satisfied_def)
    then show ?thesis by blast
  next
    case False
    then have "satisfied c 1" by (simp add: satisfied_def)
    then show ?thesis by (intro exI [of _ 1]) (simp add: max_threshold_count_def)
  qed
qed

theorem valid_condition_can_fire_witness:
  "\<exists>n. 0 < n \<and> n \<le> max_threshold_count + 1 \<and> satisfied \<lparr> c_type = condition_threshold, c_level = [],
     c_query = Some \<lparr> q_levels = [lv_error], q_contains = [], q_source = [] \<rparr>,
     c_window_seconds = 60, c_count = 20, c_comparator = comparator_gt \<rparr> n"
  by (rule conjunct2 [OF valid_condition_can_fire])
    (simp add: condition_validate_def condition_consts query_is_zero_def validate_query_levels_def
      severity_rank_def condition_window_def wrap64_id)

text \<open>
  Adding a predicate narrows. A log that satisfies a query satisfies every non-empty query with
  fewer predicates: with no levels or more of them, and with the text and the source dropped or kept.
\<close>

theorem query_narrowing:
  assumes "query_matches q level message source" and "narrows q w" and "\<not> query_is_zero w"
  shows "query_matches w level message source"
  using assms by (auto simp: query_matches_iff narrows_def)

theorem query_narrowing_witness:
  "query_matches \<lparr> q_levels = [lv_error], q_contains = [], q_source = [] \<rparr> ''error'' ''Disk FULL'' ''api''"
  by (rule query_narrowing [of "\<lparr> q_levels = [lv_error], q_contains = ''full'', q_source = [] \<rparr>"])
    (simp_all add: query_matches_iff query_is_zero_def narrows_def equal_fold_def to_lower_def lower_char_def
      byte_of_def trim_space_def trim_left.simps space_at_def spaces_def has_prefix_def char_of_def bit_0)

text \<open>
  A level rule fires exactly for the logs the list of levels it used to be looked up with names:
  \<open>levelThreshold\<close> and the severity order of the conditions agree.
\<close>

theorem level_rules_agree:
  assumes "want \<in> set valid_levels"
  shows "matches_log (level_condition want) level message source \<longleftrightarrow> want \<in> set (level_threshold level)"
  using assms
  by (auto simp: matches_log_def level_condition_def level_threshold_def valid_levels_def
      severity_rank_def prefix_through_spec Let_def split: if_splits)

theorem level_rules_agree_witness:
  "matches_log (level_condition lv_warn) lv_error [] [] \<longleftrightarrow> lv_warn \<in> set (level_threshold lv_error)"
  by (rule level_rules_agree) (simp add: valid_levels_def)

text \<open>
  The window of a validated threshold condition, computed as the code computes it in 64 bits,
  is between thirty seconds and one hour, so an evaluation scans at most an hour of logs and at
  least half a minute.
\<close>

theorem threshold_window_bounded:
  assumes "condition_validate c = None" and "needs_evaluator c"
  shows "30 * go_second \<le> condition_window c \<and> condition_window c \<le> go_hour
    \<and> now - go_hour \<le> now - condition_window c \<and> now - condition_window c < now"
  using assms
  by (auto simp: condition_validate_def needs_evaluator_def condition_consts split: if_splits option.splits)

theorem threshold_window_bounded_witness:
  "let c = \<lparr> c_type = condition_threshold, c_level = [],
     c_query = Some \<lparr> q_levels = [lv_error], q_contains = [], q_source = [] \<rparr>,
     c_window_seconds = 60, c_count = 20, c_comparator = comparator_gt \<rparr>
   in 30 * go_second \<le> condition_window c \<and> condition_window c \<le> go_hour
    \<and> 7 - go_hour \<le> 7 - condition_window c \<and> 7 - condition_window c < 7"
  unfolding Let_def
  by (rule threshold_window_bounded)
    (simp_all add: condition_validate_def condition_consts query_is_zero_def validate_query_levels_def
      severity_rank_def condition_window_def wrap64_id needs_evaluator_def)

text \<open>
  The bound is on the wrapped window: a request for more than a billion years of logs is accepted,
  because its product with a second comes to thirty seconds in 64 bits.
\<close>

lemma validate_accepts_wrapped_window:
  "let c = \<lparr> c_type = condition_threshold, c_level = [],
     c_query = Some \<lparr> q_levels = [lv_error], q_contains = [], q_source = [] \<rparr>,
     c_window_seconds = 2 ^ 55 + 30, c_count = 20, c_comparator = comparator_gt \<rparr>
   in condition_validate c = None \<and> condition_window c = 30 * go_second"
  by (simp add: condition_validate_def condition_consts query_is_zero_def validate_query_levels_def
      severity_rank_def condition_window_def wrap64_eq Let_def)

end
