(* ===== verification/Suppress.thy ===== *)
theory Suppress
  imports AlertCondition
begin

text \<open>
  Whether a firing is delivered (\<open>business/domain/integrationbus/suppress.go\<close>): the states of an
  alert event, maintenance windows, and the pure decision \<open>ShouldNotify\<close>, with its reasons in
  their order of precedence.
\<close>

definition alert_state_firing :: string where "alert_state_firing = ''firing''"
definition alert_state_acknowledged :: string where "alert_state_acknowledged = ''acknowledged''"
definition alert_state_resolved :: string where "alert_state_resolved = ''resolved''"

lemmas alert_states = alert_state_firing_def alert_state_acknowledged_def alert_state_resolved_def

datatype suppress_reason =
    Suppress_none
  | Suppress_dedup
  | Suppress_snoozed
  | Suppress_maintenance
  | Suppress_acknowledged
  | Suppress_inactive

record maintenance_window =
  mw_id :: uuid
  mw_org :: uuid
  mw_project :: "uuid option"
  mw_reason :: string
  mw_starts_at :: instant
  mw_ends_at :: instant
  mw_created_by :: "uuid option"
  mw_date_created :: instant

definition covers :: "maintenance_window \<Rightarrow> uuid \<Rightarrow> instant \<Rightarrow> bool" where
  "covers w project t =
     (if mw_project w \<noteq> None \<and> mw_project w \<noteq> Some project then False
      else \<not> t < mw_starts_at w \<and> t < mw_ends_at w)"

record alert_event =
  ae_id :: uuid
  ae_rule :: uuid
  ae_org :: uuid
  ae_project :: uuid
  ae_dedup_key :: string
  ae_state :: string
  ae_summary :: string
  ae_level :: string
  ae_match_count :: int
  ae_sample_log :: "uuid option"
  ae_first_seen_at :: instant
  ae_last_seen_at :: instant
  ae_last_notified_at :: "instant option"
  ae_resolved_at :: "instant option"
  ae_acknowledged_at :: "instant option"
  ae_acknowledged_by :: "uuid option"

record suppress_input =
  si_now :: instant
  si_rule_active :: bool
  si_snooze_until :: "instant option"
  si_dedup_window :: duration
  si_project :: uuid
  si_existing :: "alert_event option"
  si_maintenances :: "maintenance_window list"

definition should_notify :: "suppress_input \<Rightarrow> bool \<times> suppress_reason" where
  "should_notify i =
     (if \<not> si_rule_active i then (False, Suppress_inactive)
      else if (case si_snooze_until i of None \<Rightarrow> False | Some u \<Rightarrow> si_now i < u)
        then (False, Suppress_snoozed)
      else if \<exists>w \<in> set (si_maintenances i). covers w (si_project i) (si_now i)
        then (False, Suppress_maintenance)
      else case si_existing i of None \<Rightarrow> (True, Suppress_none)
      | Some e \<Rightarrow>
          if ae_state e = alert_state_resolved then (True, Suppress_none)
          else if ae_state e = alert_state_acknowledged then (False, Suppress_acknowledged)
          else
            let window = (if si_dedup_window i \<le> 0 then default_dedup_window else si_dedup_window i)
            in case ae_last_notified_at e of None \<Rightarrow> (True, Suppress_none)
               | Some t \<Rightarrow>
                   if window \<le> time_sub (si_now i) t then (True, Suppress_none)
                   else (False, Suppress_dedup))"

text \<open>
  The specification: the reasons that apply, without an order, and the one that is reported, the
  first that applies in the order of precedence.
\<close>

definition quiet_window :: "suppress_input \<Rightarrow> duration" where
  "quiet_window i = (if si_dedup_window i \<le> 0 then default_dedup_window else si_dedup_window i)"

fun reason_applies :: "suppress_input \<Rightarrow> suppress_reason \<Rightarrow> bool" where
  "reason_applies i Suppress_inactive = (\<not> si_rule_active i)"
| "reason_applies i Suppress_snoozed = (\<exists>u. si_snooze_until i = Some u \<and> si_now i < u)"
| "reason_applies i Suppress_maintenance =
     (\<exists>w \<in> set (si_maintenances i). covers w (si_project i) (si_now i))"
| "reason_applies i Suppress_acknowledged =
     (\<exists>e. si_existing i = Some e \<and> ae_state e = alert_state_acknowledged)"
| "reason_applies i Suppress_dedup =
     (\<exists>e t. si_existing i = Some e \<and> ae_state e \<noteq> alert_state_resolved \<and>
        ae_last_notified_at e = Some t \<and> time_sub (si_now i) t < quiet_window i)"
| "reason_applies i Suppress_none = True"

definition precedence :: "suppress_reason list" where
  "precedence = [Suppress_inactive, Suppress_snoozed, Suppress_maintenance, Suppress_acknowledged,
     Suppress_dedup, Suppress_none]"

definition reported_reason :: "suppress_input \<Rightarrow> suppress_reason" where
  "reported_reason i = the (List.find (reason_applies i) precedence)"

lemma should_notify_fst: "fst (should_notify i) \<longleftrightarrow> snd (should_notify i) = Suppress_none"
  by (auto simp: should_notify_def Let_def split: option.splits)

text \<open>
  C17: \<open>ShouldNotify\<close> reports the first reason that applies in the order of precedence (inactive,
  snoozed, maintenance, acknowledged, dedup), and notifies exactly when none applies.
\<close>

theorem should_notify_meets_spec:
  "should_notify i = (reported_reason i = Suppress_none, reported_reason i)"
  by (auto simp: should_notify_def reported_reason_def precedence_def quiet_window_def Let_def
      not_less alert_states split: option.splits)

theorem should_notify_meets_spec_witness:
  "should_notify \<lparr> si_now = 100, si_rule_active = True, si_snooze_until = Some 101, si_dedup_window = 0,
     si_project = 3, si_existing = None, si_maintenances = [] \<rparr> = (False, Suppress_snoozed)"
  unfolding should_notify_meets_spec by (simp add: reported_reason_def precedence_def)

text \<open>
  Maintenance windows are half-open, so windows that follow each other neither overlap nor
  leave a gap: an instant is covered by two adjacent windows together exactly when it lies between
  the first start and the last end, and never by both.
\<close>

theorem adjacent_windows:
  assumes "mw_starts_at w' = mw_ends_at w" and "mw_starts_at w \<le> mw_ends_at w"
    and "mw_starts_at w' \<le> mw_ends_at w'" and "mw_project w' = mw_project w"
  shows "(covers w p t \<or> covers w' p t \<longleftrightarrow>
      (mw_project w = None \<or> mw_project w = Some p) \<and> mw_starts_at w \<le> t \<and> t < mw_ends_at w')
    \<and> \<not> (covers w p t \<and> covers w' p t)"
  using assms by (auto simp: covers_def)

theorem adjacent_windows_witness:
  "let w = \<lparr> mw_id = 1, mw_org = 2, mw_project = None, mw_reason = [], mw_starts_at = 10, mw_ends_at = 20,
        mw_created_by = None, mw_date_created = 0 \<rparr>;
     w' = w\<lparr> mw_id := 2, mw_starts_at := 20, mw_ends_at := 30 \<rparr>
   in (covers w 3 20 \<or> covers w' 3 20 \<longleftrightarrow>
      (mw_project w = None \<or> mw_project w = Some 3) \<and> mw_starts_at w \<le> 20 \<and> 20 < mw_ends_at w')
    \<and> \<not> (covers w 3 20 \<and> covers w' 3 20)"
  unfolding Let_def by (rule adjacent_windows) simp_all

end
