(* ===== verification/AlertStore.thy ===== *)
theory AlertStore
  imports Suppress
begin

text \<open>
  The store of the alerting domain
  (\<open>business/domain/integrationbus/stores/integrationdb/\<close>: \<open>integrationdb.go\<close>, \<open>alertevents.go\<close>,
  \<open>model.go\<close>): integrations, alert rules, alert events and maintenance windows as tables, one
  definition per SQL statement, with the constraints the schema declares for them
  (\<open>business/sdk/migrate/sql/migrate.sql\<close>): primary keys, the unique name of an integration in its
  project, the cascade of deletes, the foreign key of an event to its rule and of a rule to its
  connection, and the partial unique index on the open events.

  Every call may also fail for a reason of the database: \<open>w_faults\<close> says, call by call, whether it
  does, and a call that fails changes nothing. Credentials are kept in the clear: the encryption
  of the column is not modelled, and a failing decryption is one of the faults. Rows are read in
  the order of the table where the SQL has no ORDER BY.
\<close>

record integration =
  in_id :: uuid
  in_org :: uuid
  in_project :: uuid
  in_provider :: string
  in_name :: string
  in_credentials :: "string \<rightharpoonup> string"
  in_enabled :: bool
  in_date_created :: instant
  in_date_updated :: instant

datatype alert_error =
    Err_not_found
  | Err_rule_not_found
  | Err_event_not_found
  | Err_duplicate_name
  | Err_unknown_provider
  | Err_provider_rejected
  | Err_invalid_level
  | Err_connection_bad_project
  | Err_connection_bad_org
  | Err_condition condition_error
  | Err_window_order
  | Err_db
  | Err_send

text \<open>
  The world of the alerting domain: the tables, the supply of identifiers the database draws from,
  the faults of its calls, and the deliveries: what was handed to a provider, with the integration
  it went through, and for each call to a provider, in order, whether it accepts.
\<close>

record alert_world =
  w_integrations :: "integration list"
  w_rules :: "alert_rule list"
  w_events :: "alert_event list"
  w_windows :: "maintenance_window list"
  w_fresh :: uuid
  w_faults :: "bool list"
  w_accepts :: "bool list"
  w_outbox :: "(integration \<times> alert_payload) list"

type_synonym 'a alert_op = "(alert_world, alert_error, 'a) op"

definition store_call :: "'a alert_op \<Rightarrow> 'a alert_op" where
  "store_call f w =
     (case w_faults w of
        [] \<Rightarrow> f w
      | b # bs \<Rightarrow>
          if b then (Inl Err_db, w\<lparr> w_faults := bs \<rparr>) else f (w\<lparr> w_faults := bs \<rparr>))"

subsection \<open>The open events\<close>

definition open_for :: "uuid \<Rightarrow> string \<Rightarrow> alert_event \<Rightarrow> bool" where
  "open_for rule key e \<longleftrightarrow>
     ae_rule e = rule \<and> ae_dedup_key e = key \<and> ae_state e \<noteq> alert_state_resolved"

definition find_open :: "uuid \<Rightarrow> string \<Rightarrow> alert_event list \<Rightarrow> alert_event option" where
  "find_open rule key es = List.find (open_for rule key) es"

text \<open>
  The upsert of \<open>RecordFiring\<close> on the table: \<open>new_id\<close> is the identifier the database gives to a new
  row. The count of a repeat is added to the count of the row in 64 bits, where an overflow is a
  database error; the model lets it grow.
\<close>

definition new_event :: "uuid \<Rightarrow> alert_event \<Rightarrow> alert_event" where
  "new_event new_id e = e\<lparr> ae_id := new_id, ae_state := alert_state_firing,
     ae_first_seen_at := ae_last_seen_at e, ae_last_notified_at := None, ae_resolved_at := None,
     ae_acknowledged_at := None, ae_acknowledged_by := None \<rparr>"

definition merge_event :: "alert_event \<Rightarrow> alert_event \<Rightarrow> alert_event" where
  "merge_event e old = old\<lparr> ae_last_seen_at := ae_last_seen_at e,
     ae_match_count := ae_match_count old + ae_match_count e,
     ae_summary := ae_summary e, ae_level := ae_level e \<rparr>"

definition upsert_event :: "uuid \<Rightarrow> alert_event \<Rightarrow> alert_event list \<Rightarrow> alert_event \<times> alert_event list" where
  "upsert_event new_id e es =
     (case find_open (ae_rule e) (ae_dedup_key e) es of
        None \<Rightarrow> (new_event new_id e, es @ [new_event new_id e])
      | Some old \<Rightarrow>
          (merge_event e old,
           update_where (open_for (ae_rule e) (ae_dedup_key e)) (merge_event e) es))"

definition mark_row :: "uuid \<Rightarrow> instant \<Rightarrow> alert_event list \<Rightarrow> alert_event list" where
  "mark_row i t = update_where (\<lambda>e. ae_id e = i) (\<lambda>e. e\<lparr> ae_last_notified_at := Some t \<rparr>)"

definition acknowledge_row :: "uuid \<Rightarrow> uuid \<Rightarrow> instant \<Rightarrow> alert_event list \<Rightarrow> alert_event list" where
  "acknowledge_row i user t =
     update_where (\<lambda>e. ae_id e = i \<and> ae_state e = alert_state_firing)
       (\<lambda>e. e\<lparr> ae_state := alert_state_acknowledged, ae_acknowledged_at := Some t,
              ae_acknowledged_by := Some user \<rparr>)"

definition resolve_row :: "uuid \<Rightarrow> instant \<Rightarrow> alert_event list \<Rightarrow> alert_event list" where
  "resolve_row i t =
     update_where (\<lambda>e. ae_id e = i \<and> ae_state e \<noteq> alert_state_resolved)
       (\<lambda>e. e\<lparr> ae_state := alert_state_resolved, ae_resolved_at := Some t \<rparr>)"

subsection \<open>The statements on alert events\<close>

definition s_query_open_event :: "uuid \<Rightarrow> string \<Rightarrow> alert_event alert_op" where
  "s_query_open_event rule key = store_call (\<lambda>w.
     case find_open rule key (w_events w) of
       None \<Rightarrow> (Inl Err_event_not_found, w) | Some e \<Rightarrow> (Inr e, w))"

definition s_record_firing :: "alert_event \<Rightarrow> alert_event alert_op" where
  "s_record_firing e = store_call (\<lambda>w.
     if \<not> (\<exists>r \<in> set (w_rules w). ar_id r = ae_rule e) then (Inl Err_db, w)
     else
       let (row, es) = upsert_event (w_fresh w) e (w_events w)
       in (Inr row, w\<lparr> w_events := es, w_fresh := w_fresh w + 1 \<rparr>))"

definition s_mark_notified :: "uuid \<Rightarrow> instant \<Rightarrow> unit alert_op" where
  "s_mark_notified i t = store_call (\<lambda>w. (Inr (), w\<lparr> w_events := mark_row i t (w_events w) \<rparr>))"

definition s_acknowledge_event :: "uuid \<Rightarrow> uuid \<Rightarrow> instant \<Rightarrow> unit alert_op" where
  "s_acknowledge_event i user t =
     store_call (\<lambda>w. (Inr (), w\<lparr> w_events := acknowledge_row i user t (w_events w) \<rparr>))"

definition s_resolve_event :: "uuid \<Rightarrow> instant \<Rightarrow> unit alert_op" where
  "s_resolve_event i t = store_call (\<lambda>w. (Inr (), w\<lparr> w_events := resolve_row i t (w_events w) \<rparr>))"

definition s_query_event_by_id :: "uuid \<Rightarrow> alert_event alert_op" where
  "s_query_event_by_id i = store_call (\<lambda>w.
     case List.find (\<lambda>e. ae_id e = i) (w_events w) of
       None \<Rightarrow> (Inl Err_event_not_found, w) | Some e \<Rightarrow> (Inr e, w))"

record event_filter =
  ef_org :: uuid
  ef_project :: "uuid option"
  ef_rule :: "uuid option"
  ef_state :: "string option"
  ef_since :: "instant option"
  ef_limit :: int

definition selected :: "event_filter \<Rightarrow> alert_event \<Rightarrow> bool" where
  "selected f e \<longleftrightarrow> ae_org e = ef_org f
     \<and> (case ef_project f of None \<Rightarrow> True | Some p \<Rightarrow> ae_project e = p)
     \<and> (case ef_state f of None \<Rightarrow> True | Some s \<Rightarrow> ae_state e = s)
     \<and> (case ef_rule f of None \<Rightarrow> True | Some r \<Rightarrow> ae_rule e = r)
     \<and> (case ef_since f of None \<Rightarrow> True | Some t \<Rightarrow> t \<le> ae_last_seen_at e)"

text \<open>\<open>ORDER BY last_seen_at DESC, id DESC\<close>, as two stable sorts.\<close>

definition newest_first :: "alert_event list \<Rightarrow> alert_event list" where
  "newest_first es = sort_key (\<lambda>e. - ae_last_seen_at e) (sort_key (\<lambda>e. - int (ae_id e)) es)"

definition s_query_events :: "event_filter \<Rightarrow> alert_event list alert_op" where
  "s_query_events f = store_call (\<lambda>w.
     (Inr (take (nat (ef_limit f)) (newest_first (filter (selected f) (w_events w)))), w))"

subsection \<open>The statements on maintenance windows\<close>

definition s_create_maintenance :: "maintenance_window \<Rightarrow> unit alert_op" where
  "s_create_maintenance m = store_call (\<lambda>w.
     if (\<exists>x \<in> set (w_windows w). mw_id x = mw_id m) \<or> mw_ends_at m \<le> mw_starts_at m then (Inl Err_db, w)
     else (Inr (), w\<lparr> w_windows := w_windows w @ [m] \<rparr>))"

definition s_delete_maintenance :: "uuid \<Rightarrow> unit alert_op" where
  "s_delete_maintenance i = store_call (\<lambda>w.
     (Inr (), w\<lparr> w_windows := filter (\<lambda>m. mw_id m \<noteq> i) (w_windows w) \<rparr>))"

definition s_query_maintenance_by_org :: "uuid \<Rightarrow> maintenance_window list alert_op" where
  "s_query_maintenance_by_org org = store_call (\<lambda>w.
     (Inr (sort_key (\<lambda>m. - mw_starts_at m) (filter (\<lambda>m. mw_org m = org) (w_windows w))), w))"

definition s_query_active_maintenance :: "uuid \<Rightarrow> instant \<Rightarrow> maintenance_window list alert_op" where
  "s_query_active_maintenance org t = store_call (\<lambda>w.
     (Inr (filter (\<lambda>m. mw_org m = org \<and> mw_starts_at m \<le> t \<and> t < mw_ends_at m) (w_windows w)), w))"


subsection \<open>The statements on integrations\<close>

definition same_name :: "integration \<Rightarrow> integration \<Rightarrow> bool" where
  "same_name i j \<longleftrightarrow> in_project i = in_project j \<and> in_provider i = in_provider j \<and> in_name i = in_name j"

definition s_create_integration :: "integration \<Rightarrow> unit alert_op" where
  "s_create_integration i = store_call (\<lambda>w.
     if \<exists>j \<in> set (w_integrations w). in_id j = in_id i \<or> same_name i j then (Inl Err_duplicate_name, w)
     else (Inr (), w\<lparr> w_integrations := w_integrations w @ [i] \<rparr>))"

definition set_integration :: "integration \<Rightarrow> integration \<Rightarrow> integration" where
  "set_integration i row = row\<lparr> in_name := in_name i, in_credentials := in_credentials i,
     in_enabled := in_enabled i, in_date_updated := in_date_updated i \<rparr>"

definition s_update_integration :: "integration \<Rightarrow> unit alert_op" where
  "s_update_integration i = store_call (\<lambda>w.
     if \<exists>r \<in> set (w_integrations w). in_id r = in_id i \<and>
          (\<exists>j \<in> set (w_integrations w). in_id j \<noteq> in_id i \<and> same_name (set_integration i r) j)
     then (Inl Err_db, w)
     else (Inr (), w\<lparr> w_integrations :=
       update_where (\<lambda>r. in_id r = in_id i) (set_integration i) (w_integrations w) \<rparr>))"

text \<open>Deleting a rule deletes its events; deleting an integration deletes its rules and their events.\<close>

definition delete_rules :: "(alert_rule \<Rightarrow> bool) \<Rightarrow> alert_world \<Rightarrow> alert_world" where
  "delete_rules p w =
     w\<lparr> w_rules := filter (\<lambda>r. \<not> p r) (w_rules w),
        w_events := filter (\<lambda>e. \<not> (\<exists>r \<in> set (w_rules w). p r \<and> ar_id r = ae_rule e)) (w_events w) \<rparr>"

definition s_delete_integration :: "uuid \<Rightarrow> unit alert_op" where
  "s_delete_integration i = store_call (\<lambda>w.
     (Inr (), (delete_rules (\<lambda>r. ar_connection r = i) w)
        \<lparr> w_integrations := filter (\<lambda>j. in_id j \<noteq> i) (w_integrations w) \<rparr>))"

definition s_query_integration :: "uuid \<Rightarrow> integration alert_op" where
  "s_query_integration i = store_call (\<lambda>w.
     case List.find (\<lambda>j. in_id j = i) (w_integrations w) of
       None \<Rightarrow> (Inl Err_not_found, w) | Some j \<Rightarrow> (Inr j, w))"

definition s_query_integrations_by_org :: "uuid \<Rightarrow> integration list alert_op" where
  "s_query_integrations_by_org org = store_call (\<lambda>w.
     (Inr (sort_key in_date_created (filter (\<lambda>j. in_org j = org) (w_integrations w))), w))"

definition s_query_integrations_by_project :: "uuid \<Rightarrow> integration list alert_op" where
  "s_query_integrations_by_project project = store_call (\<lambda>w.
     (Inr (sort_key in_date_created (filter (\<lambda>j. in_project j = project) (w_integrations w))), w))"

subsection \<open>The statements on rules\<close>

text \<open>
  What \<open>toDBAlertRule\<close> writes and \<open>toBusAlertRule\<close> reads: a rule without a condition is a rule on
  its level. The JSON of a condition is taken to be read back as it was written.
\<close>

definition with_condition :: "alert_rule \<Rightarrow> alert_rule" where
  "with_condition r =
     (if c_type (ar_condition r) = [] then r\<lparr> ar_condition := level_condition (ar_level r) \<rparr> else r)"

text \<open>The column of the dedup window is a 32-bit integer: a value beyond it is a database error.\<close>

definition fits_int4 :: "int \<Rightarrow> bool" where
  "fits_int4 n \<longleftrightarrow> - (2 ^ 31) \<le> n \<and> n < 2 ^ 31"

definition s_create_rule :: "alert_rule \<Rightarrow> unit alert_op" where
  "s_create_rule r = store_call (\<lambda>w.
     if (\<exists>x \<in> set (w_rules w). ar_id x = ar_id r)
        \<or> \<not> (\<exists>j \<in> set (w_integrations w). in_id j = ar_connection r)
        \<or> \<not> fits_int4 (ar_dedup_window_seconds r)
     then (Inl Err_db, w)
     else (Inr (), w\<lparr> w_rules := w_rules w @ [with_condition r] \<rparr>))"

definition set_rule :: "alert_rule \<Rightarrow> alert_rule \<Rightarrow> alert_rule" where
  "set_rule r row = row\<lparr> ar_name := ar_name r, ar_level := ar_level r, ar_connection := ar_connection r,
     ar_is_active := ar_is_active r, ar_updated_at := ar_updated_at r,
     ar_condition := ar_condition (with_condition r),
     ar_dedup_window_seconds := ar_dedup_window_seconds r, ar_snooze_until := ar_snooze_until r \<rparr>"

definition s_update_rule :: "alert_rule \<Rightarrow> unit alert_op" where
  "s_update_rule r = store_call (\<lambda>w.
     if (\<exists>x \<in> set (w_rules w). ar_id x = ar_id r)
        \<and> (\<not> (\<exists>j \<in> set (w_integrations w). in_id j = ar_connection r)
            \<or> \<not> fits_int4 (ar_dedup_window_seconds r))
     then (Inl Err_db, w)
     else (Inr (), w\<lparr> w_rules := update_where (\<lambda>x. ar_id x = ar_id r) (set_rule r) (w_rules w) \<rparr>))"

definition s_delete_rule :: "uuid \<Rightarrow> unit alert_op" where
  "s_delete_rule i = store_call (\<lambda>w. (Inr (), delete_rules (\<lambda>r. ar_id r = i) w))"

definition s_query_rule_by_id :: "uuid \<Rightarrow> alert_rule alert_op" where
  "s_query_rule_by_id i = store_call (\<lambda>w.
     case List.find (\<lambda>r. ar_id r = i) (w_rules w) of
       None \<Rightarrow> (Inl Err_rule_not_found, w) | Some r \<Rightarrow> (Inr (with_condition r), w))"

definition s_query_rules_by_project :: "uuid \<Rightarrow> alert_rule list alert_op" where
  "s_query_rules_by_project project = store_call (\<lambda>w.
     (Inr (map with_condition (sort_key ar_created_at (filter (\<lambda>r. ar_project r = project) (w_rules w)))), w))"

definition s_query_rules_by_org :: "uuid \<Rightarrow> alert_rule list alert_op" where
  "s_query_rules_by_org org = store_call (\<lambda>w.
     (Inr (map with_condition (sort_key ar_created_at (filter (\<lambda>r. ar_org r = org) (w_rules w)))), w))"

definition s_query_matching_rules :: "uuid \<Rightarrow> string list \<Rightarrow> alert_rule list alert_op" where
  "s_query_matching_rules project levels =
     (if levels = [] then ret_op []
      else store_call (\<lambda>w.
        (Inr (map with_condition (filter (\<lambda>r. ar_project r = project \<and> ar_is_active r
            \<and> ar_level r \<in> set levels) (w_rules w))), w)))"

definition s_query_active_rules :: "uuid \<Rightarrow> alert_rule list alert_op" where
  "s_query_active_rules project = store_call (\<lambda>w.
     (Inr (map with_condition (filter (\<lambda>r. ar_project r = project \<and> ar_is_active r) (w_rules w))), w))"

definition s_query_threshold_rules :: "alert_rule list alert_op" where
  "s_query_threshold_rules = store_call (\<lambda>w.
     (Inr (map with_condition (filter (\<lambda>r. ar_is_active r
         \<and> c_type (ar_condition r) = condition_threshold) (w_rules w))), w))"

definition s_disable_rules_by_connection :: "uuid \<Rightarrow> unit alert_op" where
  "s_disable_rules_by_connection i = store_call (\<lambda>w.
     (Inr (), w\<lparr> w_rules := update_where (\<lambda>r. ar_connection r = i) (\<lambda>r. r\<lparr> ar_is_active := False \<rparr>)
        (w_rules w) \<rparr>))"

subsection \<open>The invariant of the tables\<close>

text \<open>
  The events: distinct identifiers the supply has passed, one open event per rule and key, and the
  state of a row in step with its timestamps.
\<close>

definition event_ok :: "alert_event \<Rightarrow> bool" where
  "event_ok e \<longleftrightarrow>
     ae_state e \<in> {alert_state_firing, alert_state_acknowledged, alert_state_resolved}
     \<and> (ae_state e = alert_state_resolved \<longleftrightarrow> ae_resolved_at e \<noteq> None)
     \<and> (ae_state e = alert_state_acknowledged \<longrightarrow> ae_acknowledged_at e \<noteq> None \<and> ae_acknowledged_by e \<noteq> None)
     \<and> (ae_state e = alert_state_firing \<longrightarrow> ae_acknowledged_at e = None)"

definition events_ok :: "uuid \<Rightarrow> alert_event list \<Rightarrow> bool" where
  "events_ok fresh es \<longleftrightarrow>
     distinct (map ae_id es) \<and> (\<forall>e \<in> set es. ae_id e < fresh \<and> event_ok e)
     \<and> (\<forall>rule key. at_most_one (open_for rule key) es)"

text \<open>The references between the tables: an event has its rule, a rule its connection.\<close>

definition references_ok :: "alert_world \<Rightarrow> bool" where
  "references_ok w \<longleftrightarrow>
     (\<forall>e \<in> set (w_events w). \<exists>r \<in> set (w_rules w). ar_id r = ae_rule e)
     \<and> (\<forall>r \<in> set (w_rules w). \<exists>j \<in> set (w_integrations w). in_id j = ar_connection r)"

definition names_ok :: "integration list \<Rightarrow> bool" where
  "names_ok js \<longleftrightarrow> distinct (map in_id js)
     \<and> distinct (map (\<lambda>j. (in_project j, in_provider j, in_name j)) js)"

definition world_ok :: "alert_world \<Rightarrow> bool" where
  "world_ok w \<longleftrightarrow> events_ok (w_fresh w) (w_events w) \<and> references_ok w \<and> names_ok (w_integrations w)
     \<and> distinct (map ar_id (w_rules w)) \<and> (\<forall>r \<in> set (w_rules w). c_type (ar_condition r) \<noteq> [])"

definition empty_world :: "bool list \<Rightarrow> bool list \<Rightarrow> alert_world" where
  "empty_world faults accepts = \<lparr> w_integrations = [], w_rules = [], w_events = [], w_windows = [],
     w_fresh = 0, w_faults = faults, w_accepts = accepts, w_outbox = [] \<rparr>"


subsection \<open>The contract of the open events\<close>

text \<open>
  \<open>view t (rule, key)\<close> is the open event of a rule and key. A firing opens one or folds into it, a
  notification and an acknowledgement change it in place, a resolution closes it.
\<close>

datatype board_step =
    Fire alert_event
  | Mark uuid instant
  | Acknowledge uuid uuid instant
  | Resolve uuid instant

fun board_run ::
  "(uuid \<Rightarrow> alert_event \<Rightarrow> 't \<Rightarrow> 't) \<Rightarrow> (uuid \<Rightarrow> instant \<Rightarrow> 't \<Rightarrow> 't) \<Rightarrow> (uuid \<Rightarrow> uuid \<Rightarrow> instant \<Rightarrow> 't \<Rightarrow> 't) \<Rightarrow>
   (uuid \<Rightarrow> instant \<Rightarrow> 't \<Rightarrow> 't) \<Rightarrow> uuid \<Rightarrow> 't \<Rightarrow> board_step list \<Rightarrow> 't" where
  "board_run fire mark ack res fresh t [] = t"
| "board_run fire mark ack res fresh t (Fire e # ss) = board_run fire mark ack res (fresh + 1) (fire fresh e t) ss"
| "board_run fire mark ack res fresh t (Mark i tm # ss) = board_run fire mark ack res fresh (mark i tm t) ss"
| "board_run fire mark ack res fresh t (Acknowledge i u tm # ss) = board_run fire mark ack res fresh (ack i u tm t) ss"
| "board_run fire mark ack res fresh t (Resolve i tm # ss) = board_run fire mark ack res fresh (res i tm t) ss"

text \<open>What the open event of a key must come to: its identifier, and the matches since it opened.\<close>

fun tally :: "uuid \<times> string \<Rightarrow> uuid \<Rightarrow> (uuid \<times> int) option \<Rightarrow> board_step list \<Rightarrow> (uuid \<times> int) option" where
  "tally k fresh acc [] = acc"
| "tally k fresh acc (Fire e # ss) =
     tally k (fresh + 1)
       (if (ae_rule e, ae_dedup_key e) = k
        then (case acc of None \<Rightarrow> Some (fresh, ae_match_count e)
              | Some (i, n) \<Rightarrow> Some (i, n + ae_match_count e))
        else acc) ss"
| "tally k fresh acc (Resolve i tm # ss) =
     tally k fresh (if map_option fst acc = Some i then None else acc) ss"
| "tally k fresh acc (s # ss) = tally k fresh acc ss"

locale alert_board =
  fixes view :: "'t \<Rightarrow> uuid \<times> string \<Rightarrow> alert_event option"
    and fire :: "uuid \<Rightarrow> alert_event \<Rightarrow> 't \<Rightarrow> 't"
    and mark :: "uuid \<Rightarrow> instant \<Rightarrow> 't \<Rightarrow> 't"
    and ack :: "uuid \<Rightarrow> uuid \<Rightarrow> instant \<Rightarrow> 't \<Rightarrow> 't"
    and res :: "uuid \<Rightarrow> instant \<Rightarrow> 't \<Rightarrow> 't"
    and good :: "uuid \<Rightarrow> 't \<Rightarrow> bool"
  assumes view_fire: "good fresh t \<Longrightarrow> view (fire fresh e t) k =
      (if (ae_rule e, ae_dedup_key e) = k
       then Some (case view t k of None \<Rightarrow> new_event fresh e | Some old \<Rightarrow> merge_event e old)
       else view t k)"
    and view_mark: "good fresh t \<Longrightarrow> view (mark i tm t) k =
      map_option (\<lambda>e. if ae_id e = i then e\<lparr> ae_last_notified_at := Some tm \<rparr> else e) (view t k)"
    and view_ack: "good fresh t \<Longrightarrow> view (ack i u tm t) k =
      map_option (\<lambda>e. if ae_id e = i \<and> ae_state e = alert_state_firing
        then e\<lparr> ae_state := alert_state_acknowledged, ae_acknowledged_at := Some tm, ae_acknowledged_by := Some u \<rparr>
        else e) (view t k)"
    and view_res: "good fresh t \<Longrightarrow> view (res i tm t) k =
      (case view t k of None \<Rightarrow> None | Some e \<Rightarrow> if ae_id e = i then None else Some e)"
    and good_fire: "good fresh t \<Longrightarrow> good (fresh + 1) (fire fresh e t)"
    and good_mark: "good fresh t \<Longrightarrow> good fresh (mark i tm t)"
    and good_ack: "good fresh t \<Longrightarrow> good fresh (ack i u tm t)"
    and good_res: "good fresh t \<Longrightarrow> good fresh (res i tm t)"
begin

lemma run_tally:
  "good fresh t \<Longrightarrow>
    map_option (\<lambda>e. (ae_id e, ae_match_count e)) (view (board_run fire mark ack res fresh t ss) k) =
    tally k fresh (map_option (\<lambda>e. (ae_id e, ae_match_count e)) (view t k)) ss"
proof (induction ss arbitrary: fresh t)
  case (Cons s ss)
  show ?case
  proof (cases s)
    case (Fire e)
    have "map_option (\<lambda>e. (ae_id e, ae_match_count e)) (view (fire fresh e t) k) =
      (if (ae_rule e, ae_dedup_key e) = k
        then (case map_option (\<lambda>e. (ae_id e, ae_match_count e)) (view t k) of
                None \<Rightarrow> Some (fresh, ae_match_count e)
              | Some (i, n) \<Rightarrow> Some (i, n + ae_match_count e))
        else map_option (\<lambda>e. (ae_id e, ae_match_count e)) (view t k))"
      by (simp add: view_fire [OF Cons.prems] new_event_def merge_event_def split: option.split)
    with Cons.IH [OF good_fire [OF Cons.prems]] show ?thesis
      by (simp only: Fire board_run.simps tally.simps)
  next
    case (Mark i tm)
    have "map_option (\<lambda>e. (ae_id e, ae_match_count e)) (view (mark i tm t) k) =
      map_option (\<lambda>e. (ae_id e, ae_match_count e)) (view t k)"
      by (cases "view t k") (simp_all add: view_mark [OF Cons.prems])
    with Cons.IH [OF good_mark [OF Cons.prems]] show ?thesis by (simp add: Mark)
  next
    case (Acknowledge i u tm)
    have "map_option (\<lambda>e. (ae_id e, ae_match_count e)) (view (ack i u tm t) k) =
      map_option (\<lambda>e. (ae_id e, ae_match_count e)) (view t k)"
      by (cases "view t k") (simp_all add: view_ack [OF Cons.prems])
    with Cons.IH [OF good_ack [OF Cons.prems]] show ?thesis by (simp add: Acknowledge)
  next
    case (Resolve i tm)
    have "map_option (\<lambda>e. (ae_id e, ae_match_count e)) (view (res i tm t) k) =
      (if map_option fst (map_option (\<lambda>e. (ae_id e, ae_match_count e)) (view t k)) = Some i then None
       else map_option (\<lambda>e. (ae_id e, ae_match_count e)) (view t k))"
      by (cases "view t k") (simp_all add: view_res [OF Cons.prems])
    with Cons.IH [OF good_res [OF Cons.prems]] show ?thesis
      by (simp only: Resolve board_run.simps tally.simps)
  qed
qed simp

end

subsection \<open>The table of events meets it\<close>

lemma find_update_where:
  assumes "\<And>r. p (f r) = p r"
  shows "List.find p (update_where q f rows) = map_option (\<lambda>r. if q r then f r else r) (List.find p rows)"
  by (induction rows) (auto simp: assms)

lemma find_open_unique:
  assumes "events_ok fresh es" and "e \<in> set es" and "open_for rule key e"
  shows "find_open rule key es = Some e"
proof -
  have am: "at_most_one (open_for rule key) es" using assms(1) by (simp add: events_ok_def)
  obtain r where r: "List.find (open_for rule key) es = Some r"
    using assms(2,3) by (cases "List.find (open_for rule key) es") (auto simp: find_None_iff)
  with at_most_one_unique [OF am r assms(2,3)] show ?thesis by (simp add: find_open_def)
qed

lemma find_open_Some:
  "find_open rule key es = Some e \<Longrightarrow> e \<in> set es \<and> open_for rule key e"
  unfolding find_open_def by (rule find_SomeD)

lemma find_open_None:
  "find_open rule key es = None \<longleftrightarrow> (\<forall>e \<in> set es. \<not> open_for rule key e)"
  by (simp add: find_open_def find_None_iff_all)

lemma open_for_simps [simp]:
  "open_for rule key (merge_event e old) = open_for rule key old"
  "open_for rule key (new_event i e) \<longleftrightarrow> ae_rule e = rule \<and> ae_dedup_key e = key"
  by (auto simp: open_for_def merge_event_def new_event_def alert_states)

lemma event_id_simps [simp]:
  "ae_id (merge_event e old) = ae_id old" "ae_id (new_event i e) = i"
  "ae_rule (merge_event e old) = ae_rule old" "ae_rule (new_event i e) = ae_rule e"
  by (simp_all add: merge_event_def new_event_def)

lemma event_ok_merge [simp]: "event_ok (merge_event e old) = event_ok old"
  by (simp add: event_ok_def merge_event_def)

lemma event_ok_new [simp]: "event_ok (new_event i e)"
  by (simp add: event_ok_def new_event_def alert_states)

lemma same_open: "open_for r k e \<Longrightarrow> open_for r' k' e \<longleftrightarrow> r = r' \<and> k = k'"
  by (auto simp: open_for_def)

lemma events_ok_update_where:
  assumes "events_ok fresh es" and "\<And>e. q e \<Longrightarrow> ae_id (f e) = ae_id e"
    and "\<And>e. q e \<Longrightarrow> event_ok e \<Longrightarrow> event_ok (f e)"
    and "\<And>e rule key. q e \<Longrightarrow> open_for rule key (f e) \<Longrightarrow> open_for rule key e"
  shows "events_ok fresh (update_where q f es)"
  unfolding events_ok_def
proof (intro conjI allI)
  show "distinct (map ae_id (update_where q f es))"
    using assms(1,2) by (simp add: map_update_where_same events_ok_def)
  show "\<forall>e \<in> set (update_where q f es). ae_id e < fresh \<and> event_ok e"
    using assms(1-3) by (auto simp: set_update_where events_ok_def)
  fix rule key
  show "at_most_one (open_for rule key) (update_where q f es)"
    using assms(1,4) by (intro at_most_one_update_where) (auto simp: events_ok_def)
qed

lemma events_ok_filter: "events_ok fresh es \<Longrightarrow> events_ok fresh (filter p es)"
  by (auto simp: events_ok_def distinct_map_filter intro: at_most_one_filter)

lemma events_ok_upsert:
  assumes "events_ok fresh es"
  shows "events_ok (fresh + 1) (snd (upsert_event fresh e es))"
proof -
  have weak: "events_ok (fresh + 1) es" using assms by (auto simp: events_ok_def less_Suc_eq)
  show ?thesis
  proof (cases "find_open (ae_rule e) (ae_dedup_key e) es")
    case None
    have "at_most_one (open_for rule key) (es @ [new_event fresh e])" for rule key
      using assms None
      by (intro at_most_one_appendI) (auto simp: events_ok_def find_open_None)
    moreover have "fresh \<notin> ae_id ` set es" using assms by (auto simp: events_ok_def)
    ultimately show ?thesis
      using weak None by (auto simp: upsert_event_def events_ok_def)
  next
    case (Some old)
    have "events_ok (fresh + 1)
        (update_where (open_for (ae_rule e) (ae_dedup_key e)) (merge_event e) es)"
      by (rule events_ok_update_where [OF weak]) simp_all
    then show ?thesis using Some by (simp add: upsert_event_def)
  qed
qed

lemma find_open_upsert:
  assumes "events_ok fresh es"
  shows "find_open rule key (snd (upsert_event fresh e es)) =
    (if (ae_rule e, ae_dedup_key e) = (rule, key)
     then Some (case find_open rule key es of None \<Rightarrow> new_event fresh e | Some old \<Rightarrow> merge_event e old)
     else find_open rule key es)"
proof (cases "find_open (ae_rule e) (ae_dedup_key e) es")
  case None
  then show ?thesis
    by (auto simp: upsert_event_def find_open_def find_append split: option.split)
next
  case (Some old)
  have "find_open rule key (snd (upsert_event fresh e es)) =
      map_option (\<lambda>r. if open_for (ae_rule e) (ae_dedup_key e) r then merge_event e r else r)
        (find_open rule key es)"
    using Some by (simp add: upsert_event_def find_open_def find_update_where)
  moreover have "open_for (ae_rule e) (ae_dedup_key e) x \<longleftrightarrow> (ae_rule e, ae_dedup_key e) = (rule, key)"
    if "find_open rule key es = Some x" for x
    using same_open find_open_Some [OF that] by auto
  ultimately show ?thesis
    using Some by (cases "find_open rule key es") auto
qed

lemma find_open_resolve:
  assumes "events_ok fresh es"
  shows "find_open rule key (resolve_row i t es) =
    (case find_open rule key es of None \<Rightarrow> None | Some e \<Rightarrow> if ae_id e = i then None else Some e)"
proof -
  have gone: "\<not> open_for rule key e" if "e \<in> set (resolve_row i t es)" "ae_id e = i" for e
  proof -
    have "\<not> open_for rule key (r\<lparr> ae_state := alert_state_resolved, ae_resolved_at := Some t \<rparr>)" for r
      by (simp add: open_for_def)
    moreover have "\<not> open_for rule key e" if "ae_state e = alert_state_resolved"
      using that by (simp add: open_for_def)
    ultimately show ?thesis using that unfolding resolve_row_def in_update_where by blast
  qed
  have same: "e \<in> set (resolve_row i t es) \<longleftrightarrow> e \<in> set es" if "ae_id e \<noteq> i" for e
  proof -
    have "ae_id x = i" if "ae_id r = i" "x = r\<lparr> ae_state := alert_state_resolved, ae_resolved_at := Some t \<rparr>"
      for r x :: alert_event
      using that by simp
    then show ?thesis unfolding resolve_row_def in_update_where using that by blast
  qed
  have ok: "events_ok fresh (resolve_row i t es)"
    unfolding resolve_row_def
    by (rule events_ok_update_where [OF assms]) (auto simp: event_ok_def open_for_def alert_states)
  show ?thesis
  proof (cases "find_open rule key es")
    case None
    then have "\<forall>e \<in> set es. \<not> open_for rule key e" by (simp add: find_open_None)
    then have "\<forall>e \<in> set (resolve_row i t es). \<not> open_for rule key e" using gone same by blast
    then have "find_open rule key (resolve_row i t es) = None" by (simp only: find_open_None)
    then show ?thesis using None by simp
  next
    case (Some e)
    then have e: "e \<in> set es" "open_for rule key e" by (auto dest: find_open_Some)
    show ?thesis
    proof (cases "ae_id e = i")
      case False
      then have "find_open rule key (resolve_row i t es) = Some e"
        using find_open_unique [OF ok _ e(2)] same e by blast
      then show ?thesis using Some False by simp
    next
      case True
      have "\<not> open_for rule key x" if x: "x \<in> set (resolve_row i t es)" for x
      proof (cases "ae_id x = i")
        case False
        then have "x \<in> set es" using same x by blast
        then show ?thesis using find_open_unique [OF assms, of x rule key] Some False True by fastforce
      next
        case True
        then show ?thesis using gone x by blast
      qed
      then have "find_open rule key (resolve_row i t es) = None" unfolding find_open_None by blast
      then show ?thesis using Some True by simp
    qed
  qed
qed

interpretation board: alert_board "\<lambda>es k. find_open (fst k) (snd k) es"
  "\<lambda>fresh e es. snd (upsert_event fresh e es)" mark_row acknowledge_row resolve_row events_ok
proof
  fix fresh es e k i u tm
  assume ok: "events_ok fresh es"
  show "find_open (fst k) (snd k) (snd (upsert_event fresh e es)) =
      (if (ae_rule e, ae_dedup_key e) = k
       then Some (case find_open (fst k) (snd k) es of None \<Rightarrow> new_event fresh e | Some old \<Rightarrow> merge_event e old)
       else find_open (fst k) (snd k) es)"
    using find_open_upsert [OF ok] by (cases k) simp
  show "find_open (fst k) (snd k) (mark_row i tm es) =
      map_option (\<lambda>e. if ae_id e = i then e\<lparr> ae_last_notified_at := Some tm \<rparr> else e)
        (find_open (fst k) (snd k) es)"
    unfolding find_open_def mark_row_def by (rule find_update_where) (simp add: open_for_def)
  have "find_open (fst k) (snd k) (acknowledge_row i u tm es) =
      map_option (\<lambda>e. if ae_id e = i \<and> ae_state e = alert_state_firing
        then e\<lparr> ae_state := alert_state_acknowledged, ae_acknowledged_at := Some tm, ae_acknowledged_by := Some u \<rparr>
        else e) (find_open (fst k) (snd k) es)"
    unfolding find_open_def acknowledge_row_def
    by (induction es) (auto simp: open_for_def alert_states)
  then show "find_open (fst k) (snd k) (acknowledge_row i u tm es) =
      map_option (\<lambda>e. if ae_id e = i \<and> ae_state e = alert_state_firing
        then e\<lparr> ae_state := alert_state_acknowledged, ae_acknowledged_at := Some tm, ae_acknowledged_by := Some u \<rparr>
        else e) (find_open (fst k) (snd k) es)" .
  show "find_open (fst k) (snd k) (resolve_row i tm es) =
      (case find_open (fst k) (snd k) es of None \<Rightarrow> None | Some e \<Rightarrow> if ae_id e = i then None else Some e)"
    using ok by (rule find_open_resolve)
  show "events_ok (fresh + 1) (snd (upsert_event fresh e es))" using ok by (rule events_ok_upsert)
  show "events_ok fresh (mark_row i tm es)"
    unfolding mark_row_def
    by (rule events_ok_update_where [OF ok]) (auto simp: event_ok_def open_for_def)
  show "events_ok fresh (acknowledge_row i u tm es)"
    unfolding acknowledge_row_def
    by (rule events_ok_update_where [OF ok]) (auto simp: event_ok_def open_for_def alert_states)
  show "events_ok fresh (resolve_row i tm es)"
    unfolding resolve_row_def
    by (rule events_ok_update_where [OF ok]) (auto simp: event_ok_def open_for_def alert_states)
qed


subsection \<open>Every statement keeps the invariant\<close>

abbreviation keeps_ok :: "'a alert_op \<Rightarrow> bool" where
  "keeps_ok \<equiv> keeps world_ok"

lemma world_ok_faults [simp]: "world_ok (w\<lparr> w_faults := bs \<rparr>) = world_ok w"
  by (simp add: world_ok_def references_ok_def)

lemma world_ok_outbox [simp]:
  "world_ok (w\<lparr> w_outbox := x \<rparr>) = world_ok w" "world_ok (w\<lparr> w_accepts := y \<rparr>) = world_ok w"
  "world_ok (w\<lparr> w_windows := z \<rparr>) = world_ok w"
  by (simp_all add: world_ok_def references_ok_def)

lemma keeps_store_call: "(\<And>w. world_ok w \<Longrightarrow> world_ok (snd (f w))) \<Longrightarrow> keeps_ok (store_call f)"
  by (auto simp: keeps_def store_call_def split: list.split)

text \<open>A statement that changes only the table of events, by a step of the contract.\<close>

lemma world_ok_events:
  assumes "world_ok w" and "events_ok (w_fresh w) es"
    and "\<And>e. e \<in> set es \<Longrightarrow> \<exists>o' \<in> set (w_events w). ae_rule e = ae_rule o'"
  shows "world_ok (w\<lparr> w_events := es \<rparr>)"
  using assms by (fastforce simp: world_ok_def references_ok_def)

lemma update_where_rule:
  assumes "e \<in> set (update_where q f es)" and "\<And>e. ae_rule (f e) = ae_rule e"
  shows "\<exists>o' \<in> set es. ae_rule e = ae_rule o'"
  using assms unfolding in_update_where by blast

lemma keeps_event_statements:
  "keeps_ok (s_mark_notified i t)" "keeps_ok (s_acknowledge_event i u t)"
  "keeps_ok (s_resolve_event i t)"
proof -
  have "world_ok (w\<lparr> w_events := f (w_events w) \<rparr>)"
    if "world_ok w" and "\<And>fresh es. events_ok fresh es \<Longrightarrow> events_ok fresh (f es)"
      and "\<And>e es. e \<in> set (f es) \<Longrightarrow> \<exists>o' \<in> set es. ae_rule e = ae_rule o'"
    for w f
    using that by (intro world_ok_events) (auto simp: world_ok_def)
  note upd = this
  show "keeps_ok (s_mark_notified i t)" unfolding s_mark_notified_def snd_conv
    by (rule keeps_store_call, unfold snd_conv, erule upd)
      (auto simp: mark_row_def intro: board.good_mark [unfolded mark_row_def] elim!: update_where_rule)
  show "keeps_ok (s_acknowledge_event i u t)" unfolding s_acknowledge_event_def snd_conv
    by (rule keeps_store_call, unfold snd_conv, erule upd)
      (auto simp: acknowledge_row_def intro: board.good_ack [unfolded acknowledge_row_def] elim!: update_where_rule)
  show "keeps_ok (s_resolve_event i t)" unfolding s_resolve_event_def snd_conv
    by (rule keeps_store_call, unfold snd_conv, erule upd)
      (auto simp: resolve_row_def intro: board.good_res [unfolded resolve_row_def] elim!: update_where_rule)
qed

lemma keeps_record_firing: "keeps_ok (s_record_firing e)"
  unfolding s_record_firing_def
proof (rule keeps_store_call)
  fix w assume w: "world_ok w"
  show "world_ok (snd (if \<not> (\<exists>r \<in> set (w_rules w). ar_id r = ae_rule e) then (Inl Err_db, w)
      else let (row, es) = upsert_event (w_fresh w) e (w_events w)
        in (Inr row, w\<lparr> w_events := es, w_fresh := w_fresh w + 1 \<rparr>)))"
  proof (cases "\<exists>r \<in> set (w_rules w). ar_id r = ae_rule e")
    case True
    let ?es = "snd (upsert_event (w_fresh w) e (w_events w))"
    have ok: "events_ok (w_fresh w + 1) ?es"
      by (rule board.good_fire) (use w in \<open>simp add: world_ok_def\<close>)
    have "ae_rule x = ae_rule e \<or> (\<exists>o' \<in> set (w_events w). ae_rule x = ae_rule o')" if "x \<in> set ?es" for x
      using that by (auto simp: upsert_event_def in_update_where split: option.splits)
    then have "\<exists>r \<in> set (w_rules w). ar_id r = ae_rule x" if "x \<in> set ?es" for x
      using w True that unfolding world_ok_def references_ok_def by metis
    with w ok True show ?thesis
      by (simp add: world_ok_def references_ok_def split_beta)
  qed (use w in simp)
qed

lemma keeps_queries:
  "keeps_ok (s_query_open_event rule key)" "keeps_ok (s_query_event_by_id i)"
  "keeps_ok (s_query_events f)" "keeps_ok (s_query_maintenance_by_org org)"
  "keeps_ok (s_query_active_maintenance org t)" "keeps_ok (s_query_integration i)"
  "keeps_ok (s_query_integrations_by_org org)" "keeps_ok (s_query_integrations_by_project project)"
  "keeps_ok (s_query_rule_by_id i)" "keeps_ok (s_query_rules_by_project project)"
  "keeps_ok (s_query_rules_by_org org)" "keeps_ok (s_query_matching_rules project levels)"
  "keeps_ok (s_query_active_rules project)" "keeps_ok s_query_threshold_rules"
  "keeps_ok (s_create_maintenance m)" "keeps_ok (s_delete_maintenance i)"
  unfolding s_query_open_event_def s_query_event_by_id_def s_query_events_def
    s_query_maintenance_by_org_def s_query_active_maintenance_def s_query_integration_def
    s_query_integrations_by_org_def s_query_integrations_by_project_def s_query_rule_by_id_def
    s_query_rules_by_project_def s_query_rules_by_org_def s_query_matching_rules_def
    s_query_active_rules_def s_query_threshold_rules_def s_create_maintenance_def s_delete_maintenance_def
  by (auto intro!: keeps_store_call split: option.split)

lemma delete_rules_ok:
  assumes "world_ok w"
  shows "world_ok (delete_rules p w)"
proof -
  have "\<exists>r \<in> set (w_rules w). ar_id r = ae_rule e \<and> \<not> p r"
    if "e \<in> set (w_events w)" "\<not> (\<exists>r \<in> set (w_rules w). p r \<and> ar_id r = ae_rule e)" for e
    using that assms unfolding world_ok_def references_ok_def by blast
  then have "references_ok (delete_rules p w)"
    using assms by (simp add: world_ok_def references_ok_def delete_rules_def) blast
  then show ?thesis
    using assms by (simp add: world_ok_def delete_rules_def events_ok_filter distinct_map_filter)
qed

lemma keeps_delete:
  "keeps_ok (s_delete_rule i)" "keeps_ok (s_delete_integration i)"
proof -
  show "keeps_ok (s_delete_rule i)"
    unfolding s_delete_rule_def by (rule keeps_store_call) (simp add: delete_rules_ok)
  show "keeps_ok (s_delete_integration i)" unfolding s_delete_integration_def
  proof (rule keeps_store_call)
    fix w assume w: "world_ok w"
    have "\<exists>j \<in> set (w_integrations w). in_id j \<noteq> i \<and> in_id j = ar_connection r"
      if "r \<in> set (w_rules w)" "ar_connection r \<noteq> i" for r
      using w that unfolding world_ok_def references_ok_def by metis
    moreover have d: "world_ok (delete_rules (\<lambda>r. ar_connection r = i) w)"
      using w by (rule delete_rules_ok)
    ultimately have "references_ok ((delete_rules (\<lambda>r. ar_connection r = i) w)
        \<lparr> w_integrations := filter (\<lambda>j. in_id j \<noteq> i) (w_integrations w) \<rparr>)"
      by (simp add: world_ok_def references_ok_def delete_rules_def) blast
    with w d show "world_ok (snd (Inr (), (delete_rules (\<lambda>r. ar_connection r = i) w)
        \<lparr> w_integrations := filter (\<lambda>j. in_id j \<noteq> i) (w_integrations w) \<rparr>))"
      by (simp add: world_ok_def names_ok_def delete_rules_def distinct_map_filter)
  qed
qed

lemma world_ok_rules:
  assumes "world_ok w" and "map ar_id rs = map ar_id (w_rules w)"
    and "\<And>x. x \<in> set rs \<Longrightarrow> c_type (ar_condition x) \<noteq> []"
    and "\<And>x. x \<in> set rs \<Longrightarrow> \<exists>j \<in> set (w_integrations w). in_id j = ar_connection x"
  shows "world_ok (w\<lparr> w_rules := rs \<rparr>)"
proof -
  have ids: "ar_id ` set rs = ar_id ` set (w_rules w)" using assms(2) by (metis set_map)
  have "\<exists>x \<in> set rs. ar_id x = ae_rule e" if "e \<in> set (w_events w)" for e
  proof -
    have "ae_rule e \<in> ar_id ` set (w_rules w)"
      using assms(1) that unfolding world_ok_def references_ok_def by (metis image_eqI)
    then show ?thesis unfolding ids [symmetric] by auto
  qed
  then show ?thesis using assms by (simp add: world_ok_def references_ok_def)
qed

lemma keeps_rule_statements:
  "keeps_ok (s_create_rule r)" "keeps_ok (s_update_rule r)" "keeps_ok (s_disable_rules_by_connection i)"
proof -
  have cond: "c_type (ar_condition (with_condition x)) \<noteq> []" for x
    by (simp add: with_condition_def level_condition_def condition_level_def)
  have ids: "ar_id (with_condition x) = ar_id x" "ar_connection (with_condition x) = ar_connection x" for x
    by (simp_all add: with_condition_def)
  have old: "c_type (ar_condition x) \<noteq> []" "\<exists>j \<in> set (w_integrations w). in_id j = ar_connection x"
    if "world_ok w" "x \<in> set (w_rules w)" for w x
    using that by (simp_all add: world_ok_def references_ok_def)
  show "keeps_ok (s_create_rule r)" unfolding s_create_rule_def
  proof (rule keeps_store_call)
    fix w assume w: "world_ok w"
    have "world_ok (w\<lparr> w_rules := w_rules w @ [with_condition r] \<rparr>)"
      if "\<not> (\<exists>x \<in> set (w_rules w). ar_id x = ar_id r)"
        and "\<exists>j \<in> set (w_integrations w). in_id j = ar_connection r"
      using w that by (auto simp: world_ok_def references_ok_def cond ids)
    then show "world_ok (snd (if (\<exists>x \<in> set (w_rules w). ar_id x = ar_id r)
        \<or> \<not> (\<exists>j \<in> set (w_integrations w). in_id j = ar_connection r)
        \<or> \<not> fits_int4 (ar_dedup_window_seconds r)
      then (Inl Err_db, w) else (Inr (), w\<lparr> w_rules := w_rules w @ [with_condition r] \<rparr>)))"
      using w by simp
  qed
  show "keeps_ok (s_update_rule r)" unfolding s_update_rule_def
  proof (rule keeps_store_call)
    fix w assume w: "world_ok w"
    let ?rs = "update_where (\<lambda>x. ar_id x = ar_id r) (set_rule r) (w_rules w)"
    let ?bad = "(\<exists>x \<in> set (w_rules w). ar_id x = ar_id r)
        \<and> (\<not> (\<exists>j \<in> set (w_integrations w). in_id j = ar_connection r)
            \<or> \<not> fits_int4 (ar_dedup_window_seconds r))"
    have "world_ok (w\<lparr> w_rules := ?rs \<rparr>)" if "\<not> ?bad"
    proof (rule world_ok_rules [OF w])
      show "map ar_id ?rs = map ar_id (w_rules w)"
        by (rule map_update_where_same) (simp add: set_rule_def)
      fix x assume "x \<in> set ?rs"
      then consider y where "y \<in> set (w_rules w)" "ar_id y = ar_id r" "x = set_rule r y" | "x \<in> set (w_rules w)"
        unfolding in_update_where by blast
      then have "c_type (ar_condition x) \<noteq> [] \<and> (\<exists>j \<in> set (w_integrations w). in_id j = ar_connection x)"
      proof cases
        case 1
        then show ?thesis using that cond by (simp add: set_rule_def) blast
      qed (use old w in blast)
      then show "c_type (ar_condition x) \<noteq> []" "\<exists>j \<in> set (w_integrations w). in_id j = ar_connection x"
        by auto
    qed
    then show "world_ok (snd (if ?bad then (Inl Err_db, w) else (Inr (), w\<lparr> w_rules := ?rs \<rparr>)))"
      using w by simp
  qed
  show "keeps_ok (s_disable_rules_by_connection i)" unfolding s_disable_rules_by_connection_def
  proof (rule keeps_store_call, unfold snd_conv, rule world_ok_rules)
    fix w x
    assume w: "world_ok w"
    show "map ar_id (update_where (\<lambda>r. ar_connection r = i) (\<lambda>r. r\<lparr> ar_is_active := False \<rparr>) (w_rules w))
        = map ar_id (w_rules w)"
      by (rule map_update_where_same) simp
    assume "x \<in> set (update_where (\<lambda>r. ar_connection r = i) (\<lambda>r. r\<lparr> ar_is_active := False \<rparr>) (w_rules w))"
    then show "c_type (ar_condition x) \<noteq> []" "\<exists>j \<in> set (w_integrations w). in_id j = ar_connection x"
      using old [OF w] unfolding in_update_where by auto
  qed
qed

lemma keeps_integration_statements:
  "keeps_ok (s_create_integration i)" "keeps_ok (s_update_integration i)"
proof -
  show "keeps_ok (s_create_integration i)" unfolding s_create_integration_def
  proof (rule keeps_store_call)
    fix w assume w: "world_ok w"
    have "world_ok (w\<lparr> w_integrations := w_integrations w @ [i] \<rparr>)"
      if "\<not> (\<exists>j \<in> set (w_integrations w). in_id j = in_id i \<or> same_name i j)"
      using w that unfolding world_ok_def references_ok_def names_ok_def same_name_def by fastforce
    then show "world_ok (snd (if \<exists>j \<in> set (w_integrations w). in_id j = in_id i \<or> same_name i j
        then (Inl Err_duplicate_name, w) else (Inr (), w\<lparr> w_integrations := w_integrations w @ [i] \<rparr>)))"
      using w by simp
  qed
  show "keeps_ok (s_update_integration i)" unfolding s_update_integration_def
  proof (rule keeps_store_call)
    fix w assume w: "world_ok w"
    let ?js = "update_where (\<lambda>r. in_id r = in_id i) (set_integration i) (w_integrations w)"
    let ?nm = "\<lambda>j. (in_project j, in_provider j, in_name j)"
    let ?bad = "\<exists>r \<in> set (w_integrations w). in_id r = in_id i \<and>
          (\<exists>j \<in> set (w_integrations w). in_id j \<noteq> in_id i \<and> same_name (set_integration i r) j)"
    have ids: "map in_id ?js = map in_id (w_integrations w)"
      by (rule map_update_where_same) (simp add: set_integration_def)
    have idset: "in_id ` set ?js = in_id ` set (w_integrations w)" using ids by (metis set_map)
    have "world_ok (w\<lparr> w_integrations := ?js \<rparr>)" if nb: "\<not> ?bad"
    proof -
      have "distinct (map ?nm ?js)"
        by (rule distinct_map_update_where [where h = in_id and i = "in_id i"])
          (use w nb in \<open>auto simp: world_ok_def names_ok_def same_name_def\<close>)
      moreover have "\<exists>j \<in> set ?js. in_id j = ar_connection r" if "r \<in> set (w_rules w)" for r
      proof -
        have "ar_connection r \<in> in_id ` set (w_integrations w)"
          using w that unfolding world_ok_def references_ok_def by (metis image_eqI)
        then show ?thesis unfolding idset [symmetric] by auto
      qed
      ultimately show ?thesis using w ids by (simp add: world_ok_def references_ok_def names_ok_def)
    qed
    then show "world_ok (snd (if ?bad then (Inl Err_db, w) else (Inr (), w\<lparr> w_integrations := ?js \<rparr>)))"
      using w by simp
  qed
qed

lemma world_ok_empty: "world_ok (empty_world faults accepts)"
  by (simp add: world_ok_def empty_world_def events_ok_def references_ok_def names_ok_def)

lemmas keeps_statements =
  keeps_event_statements keeps_record_firing keeps_queries keeps_delete keeps_rule_statements
  keeps_integration_statements


text \<open>
  C15: repeats fold into the open alert. In any sequence of firings, notifications, acknowledgements
  and resolutions on the table of events, the open event of a rule and key is the one opened by the
  first firing after its last resolution, and its match count is the sum of the matches since then.
\<close>

theorem open_event_tally:
  "map_option (\<lambda>e. (ae_id e, ae_match_count e))
      (find_open rule key (board_run (\<lambda>fresh e es. snd (upsert_event fresh e es)) mark_row acknowledge_row
        resolve_row 0 [] steps))
    = tally (rule, key) 0 None steps"
  using board.run_tally [where fresh = 0 and t = "[]" and ss = steps and k = "(rule, key)"] by (simp add: events_ok_def find_open_def)

end
