(* ===== verification/Alerting.thy ===== *)
theory Alerting
  imports AlertStore
begin

text \<open>
  The business layer of alerting (\<open>business/domain/integrationbus/integrationbus.go\<close> and
  \<open>threshold.go\<close>): integrations and rules, the firing of rules on a batch of logs, the periodic
  evaluation of threshold rules, acknowledgement, resolution and maintenance windows, over the store
  of \<open>AlertStore\<close>.

  \<open>callers\<close> says which providers are registered; \<open>parse_uuid\<close> stands for \<open>uuid.Parse\<close>. The time
  and the identifiers of \<open>time.Now()\<close> and \<open>uuid.New()\<close> are arguments. Lines written to the log are
  left out.
\<close>

subsection \<open>Delivery\<close>

text \<open>The call of a provider: it accepts or refuses as the world says.\<close>

definition provider_send :: "integration \<Rightarrow> alert_payload \<Rightarrow> unit alert_op" where
  "provider_send j p w =
     (case w_accepts w of
        [] \<Rightarrow> (Inr (), w\<lparr> w_outbox := w_outbox w @ [(j, p)] \<rparr>)
      | b # bs \<Rightarrow>
          if b then (Inr (), w\<lparr> w_accepts := bs, w_outbox := w_outbox w @ [(j, p)] \<rparr>)
          else (Inl Err_send, w\<lparr> w_accepts := bs \<rparr>))"

definition send_alert :: "(string \<Rightarrow> bool) \<Rightarrow> uuid \<Rightarrow> alert_payload \<Rightarrow> unit alert_op" where
  "send_alert callers connection payload =
     try_op (s_query_integration connection) (\<lambda>j.
       if \<not> in_enabled j then ret_op ()
       else if \<not> callers (in_provider j) then fail_op Err_send
       else provider_send j payload)"

definition test_payload :: "instant \<Rightarrow> alert_payload" where
  "test_payload now = \<lparr> ap_project_name = ''Test Project'', ap_level = lv_info,
     ap_message = ''This is a test alert from streamlogia. Your integration is working correctly.'',
     ap_source = ''logingestor/test'', ap_log_id = ''12345678-1234-1234-1234-12345678'',
     ap_timestamp = now \<rparr>"

definition test_integration :: "(string \<Rightarrow> bool) \<Rightarrow> integration \<Rightarrow> instant \<Rightarrow> unit alert_op" where
  "test_integration callers j now =
     (if \<not> callers (in_provider j) then fail_op Err_unknown_provider
      else case_op (provider_send j (test_payload now)) (\<lambda>_. fail_op Err_provider_rejected) ret_op)"

subsection \<open>Integrations\<close>

record new_integration =
  ni_org :: uuid
  ni_project :: uuid
  ni_provider :: string
  ni_name :: string
  ni_credentials :: "string \<rightharpoonup> string"

record update_integration =
  ui_name :: "string option"
  ui_credentials :: "(string \<rightharpoonup> string) option"
  ui_enabled :: "bool option"

definition create_integration ::
  "(string \<Rightarrow> bool) \<Rightarrow> uuid \<Rightarrow> instant \<Rightarrow> new_integration \<Rightarrow> integration alert_op" where
  "create_integration callers new_id now ni =
     (if \<not> callers (ni_provider ni) then fail_op Err_unknown_provider
      else
        let i = \<lparr> in_id = new_id, in_org = ni_org ni, in_project = ni_project ni,
              in_provider = ni_provider ni, in_name = ni_name ni, in_credentials = ni_credentials ni,
              in_enabled = True, in_date_created = now, in_date_updated = now \<rparr>
        in try_op (s_create_integration i) (\<lambda>_. ret_op i))"

definition given :: "'a option \<Rightarrow> 'a \<Rightarrow> 'a" where
  "given u old = (case u of None \<Rightarrow> old | Some x \<Rightarrow> x)"

definition update_integration_op ::
  "instant \<Rightarrow> integration \<Rightarrow> update_integration \<Rightarrow> integration alert_op" where
  "update_integration_op now i ui =
     (let i = i\<lparr> in_name := given (ui_name ui) (in_name i),
                in_credentials := given (ui_credentials ui) (in_credentials i),
                in_enabled := given (ui_enabled ui) (in_enabled i), in_date_updated := now \<rparr>
      in try_op (s_update_integration i) (\<lambda>_. ret_op i))"

definition delete_integration_op :: "integration \<Rightarrow> unit alert_op" where
  "delete_integration_op i = s_delete_integration (in_id i)"

definition disable_integration :: "instant \<Rightarrow> integration \<Rightarrow> unit alert_op" where
  "disable_integration now i =
     (let i = i\<lparr> in_enabled := False, in_date_updated := now \<rparr>
      in try_op (s_update_integration i) (\<lambda>_. s_disable_rules_by_connection (in_id i)))"

subsection \<open>Rules\<close>

record new_alert_rule =
  nr_org :: uuid
  nr_project :: uuid
  nr_connection :: uuid
  nr_user :: uuid
  nr_name :: string
  nr_level :: string
  nr_condition :: alert_condition
  nr_dedup_window_seconds :: int
  nr_is_active :: bool

record update_alert_rule =
  ur_name :: "string option"
  ur_level :: "string option"
  ur_condition :: "alert_condition option"
  ur_dedup_window_seconds :: "int option"
  ur_connection :: "uuid option"
  ur_is_active :: "bool option"
  ur_snooze_until :: "instant option option"

definition create_rule :: "uuid \<Rightarrow> instant \<Rightarrow> new_alert_rule \<Rightarrow> alert_rule alert_op" where
  "create_rule new_id now nr =
     (if nr_level nr \<notin> set valid_levels then fail_op Err_invalid_level
      else try_op (s_query_integration (nr_connection nr)) (\<lambda>conn.
        if in_project conn \<noteq> nr_project nr then fail_op Err_connection_bad_project
        else if in_org conn \<noteq> nr_org nr then fail_op Err_connection_bad_org
        else
          let cond = (if c_type (nr_condition nr) = [] then level_condition (nr_level nr) else nr_condition nr)
          in case condition_validate cond of Some e \<Rightarrow> fail_op (Err_condition e)
          | None \<Rightarrow>
              let r = \<lparr> ar_id = new_id, ar_org = nr_org nr, ar_project = nr_project nr,
                    ar_connection = nr_connection nr, ar_user = Some (nr_user nr), ar_name = nr_name nr,
                    ar_level = nr_level nr, ar_condition = cond,
                    ar_dedup_window_seconds = nr_dedup_window_seconds nr, ar_snooze_until = None,
                    ar_is_active = nr_is_active nr, ar_created_at = now, ar_updated_at = now \<rparr>
              in try_op (s_create_rule r) (\<lambda>_. ret_op r)))"

text \<open>The last lines of \<open>UpdateRule\<close>, once the name, level and connection are set.\<close>

definition finish_update :: "instant \<Rightarrow> update_alert_rule \<Rightarrow> alert_rule \<Rightarrow> alert_rule alert_op" where
  "finish_update now ur r =
     (let r = r\<lparr> ar_is_active := given (ur_is_active ur) (ar_is_active r) \<rparr> in
      case (case ur_condition ur of None \<Rightarrow> None | Some c \<Rightarrow> condition_validate c) of
        Some e \<Rightarrow> fail_op (Err_condition e)
      | None \<Rightarrow>
          let r = r\<lparr> ar_condition := given (ur_condition ur) (ar_condition r),
                     ar_dedup_window_seconds := given (ur_dedup_window_seconds ur) (ar_dedup_window_seconds r),
                     ar_snooze_until := given (ur_snooze_until ur) (ar_snooze_until r) \<rparr>;
            r = (if ur_level ur \<noteq> None \<and> ur_condition ur = None \<and> c_type (ar_condition r) = condition_level
                 then r\<lparr> ar_condition := level_condition (ar_level r) \<rparr> else r);
            r = r\<lparr> ar_updated_at := now \<rparr>
          in try_op (s_update_rule r) (\<lambda>_. ret_op r))"

definition update_rule :: "instant \<Rightarrow> alert_rule \<Rightarrow> update_alert_rule \<Rightarrow> alert_rule alert_op" where
  "update_rule now r ur =
     (let r = r\<lparr> ar_name := given (ur_name ur) (ar_name r) \<rparr> in
      if (case ur_level ur of None \<Rightarrow> False | Some l \<Rightarrow> l \<notin> set valid_levels) then fail_op Err_invalid_level
      else
        let r = r\<lparr> ar_level := given (ur_level ur) (ar_level r) \<rparr> in
        case ur_connection ur of
          None \<Rightarrow> finish_update now ur r
        | Some c \<Rightarrow>
            try_op (s_query_integration c) (\<lambda>conn.
              if in_project conn \<noteq> ar_project r then fail_op Err_connection_bad_project
              else finish_update now ur (r\<lparr> ar_connection := c \<rparr>)))"

definition delete_rule :: "uuid \<Rightarrow> unit alert_op" where
  "delete_rule i = s_delete_rule i"

subsection \<open>Firing\<close>

definition firing_summary :: "string \<Rightarrow> int \<Rightarrow> string" where
  "firing_summary message matched =
     (if 1 < matched then message @ '' (+'' @ show_int (matched - 1) @ '' more matching logs)'' else message)"

definition firing_event ::
  "(string \<Rightarrow> uuid option) \<Rightarrow> alert_rule \<Rightarrow> alert_payload \<Rightarrow> int \<Rightarrow> instant \<Rightarrow> alert_event" where
  "firing_event parse_uuid rule rep matched now =
     \<lparr> ae_id = uuid_nil, ae_rule = ar_id rule, ae_org = ar_org rule, ae_project = ar_project rule,
       ae_dedup_key = dedup_key (ar_condition rule) (ap_level rep), ae_state = [],
       ae_summary = firing_summary (ap_message rep) matched, ae_level = ap_level rep,
       ae_match_count = matched, ae_sample_log = parse_uuid (ap_log_id rep), ae_first_seen_at = 0,
       ae_last_seen_at = now, ae_last_notified_at = None, ae_resolved_at = None,
       ae_acknowledged_at = None, ae_acknowledged_by = None \<rparr>"

definition firing_input ::
  "alert_rule \<Rightarrow> alert_event option \<Rightarrow> maintenance_window list \<Rightarrow> instant \<Rightarrow> suppress_input" where
  "firing_input rule prior windows now =
     \<lparr> si_now = now, si_rule_active = ar_is_active rule, si_snooze_until = ar_snooze_until rule,
       si_dedup_window = dedup_window rule, si_project = ar_project rule, si_existing = prior,
       si_maintenances = windows \<rparr>"

text \<open>\<open>raise\<close>, after the lookup of the open event: record, decide, deliver, mark.\<close>

definition record_and_notify ::
  "(string \<Rightarrow> bool) \<Rightarrow> (string \<Rightarrow> uuid option) \<Rightarrow> alert_rule \<Rightarrow> alert_payload \<Rightarrow> int \<Rightarrow>
   maintenance_window list \<Rightarrow> instant \<Rightarrow> alert_event option \<Rightarrow> unit alert_op" where
  "record_and_notify callers parse_uuid rule rep matched windows now prior =
     try_op (s_record_firing (firing_event parse_uuid rule rep matched now)) (\<lambda>event.
       if \<not> fst (should_notify (firing_input rule prior windows now)) then ret_op ()
       else
         try_op (send_alert callers (ar_connection rule)
                  (rep\<lparr> ap_message := firing_summary (ap_message rep) matched \<rparr>)) (\<lambda>_.
           s_mark_notified (ae_id event) now))"

definition raise ::
  "(string \<Rightarrow> bool) \<Rightarrow> (string \<Rightarrow> uuid option) \<Rightarrow> alert_rule \<Rightarrow> alert_payload \<Rightarrow> int \<Rightarrow>
   maintenance_window list \<Rightarrow> instant \<Rightarrow> unit alert_op" where
  "raise callers parse_uuid rule rep matched windows now =
     case_op (s_query_open_event (ar_id rule) (dedup_key (ar_condition rule) (ap_level rep)))
       (\<lambda>err. if err = Err_event_not_found
              then record_and_notify callers parse_uuid rule rep matched windows now None
              else fail_op err)
       (\<lambda>existing. record_and_notify callers parse_uuid rule rep matched windows now (Some existing))"

definition fire_rule ::
  "(string \<Rightarrow> bool) \<Rightarrow> (string \<Rightarrow> uuid option) \<Rightarrow> alert_payload list \<Rightarrow> maintenance_window list \<Rightarrow> instant \<Rightarrow>
   alert_rule \<Rightarrow> unit alert_op" where
  "fire_rule callers parse_uuid payloads windows now rule =
     (if needs_evaluator (ar_condition rule) then ret_op ()
      else case match_payloads (ar_condition rule) payloads of
        (matched, rep) \<Rightarrow>
          if matched = 0 then ret_op ()
          else raise callers parse_uuid rule (the rep) matched windows now)"

definition fire_alerts ::
  "(string \<Rightarrow> bool) \<Rightarrow> (string \<Rightarrow> uuid option) \<Rightarrow> uuid \<Rightarrow> alert_payload list \<Rightarrow> instant \<Rightarrow> unit alert_op" where
  "fire_alerts callers parse_uuid project payloads now =
     (if payloads = [] then ret_op ()
      else try_op (s_query_active_rules project) (\<lambda>rules.
        case rules of [] \<Rightarrow> ret_op ()
        | rule # _ \<Rightarrow>
            case_op (s_query_active_maintenance (ar_org rule) now)
              (\<lambda>_. each_op (fire_rule callers parse_uuid payloads [] now) rules)
              (\<lambda>windows. each_op (fire_rule callers parse_uuid payloads windows now) rules)))"

subsection \<open>Thresholds\<close>

text \<open>
  \<open>counter\<close> is the \<open>ThresholdCounter\<close>: the logs of a project that match a query in a window, or an
  error.
\<close>

type_synonym threshold_counter = "uuid \<Rightarrow> query \<Rightarrow> instant \<Rightarrow> instant \<Rightarrow> int option"

definition resolve_open :: "alert_rule \<Rightarrow> instant \<Rightarrow> unit alert_op" where
  "resolve_open rule now =
     case_op (s_query_open_event (ar_id rule) (dedup_key (ar_condition rule) []))
       (\<lambda>_. ret_op ()) (\<lambda>event. s_resolve_event (ae_id event) now)"

definition threshold_payload :: "alert_rule \<Rightarrow> query \<Rightarrow> int \<Rightarrow> instant \<Rightarrow> alert_payload" where
  "threshold_payload rule q matched now =
     \<lparr> ap_project_name = ar_name rule, ap_level = threshold_level q,
       ap_message = ar_name rule @ '': '' @ show_int matched @ '' matching logs in the last '' @
         duration_string (condition_window (ar_condition rule)) @ '' (threshold '' @
         c_comparator (ar_condition rule) @ '' '' @ show_int (c_count (ar_condition rule)) @ '')'',
       ap_source = ''alerting'', ap_log_id = [], ap_timestamp = now \<rparr>"

text \<open>The maintenance windows of an organization, read once per pass.\<close>

definition cached_windows ::
  "(uuid \<rightharpoonup> maintenance_window list) \<Rightarrow> uuid \<Rightarrow> instant \<Rightarrow> alert_world \<Rightarrow>
   maintenance_window list \<times> (uuid \<rightharpoonup> maintenance_window list) \<times> alert_world" where
  "cached_windows cache org now w =
     (case cache org of
        Some ws \<Rightarrow> (ws, cache, w)
      | None \<Rightarrow>
          case s_query_active_maintenance org now w of
            (Inl _, w) \<Rightarrow> ([], cache(org \<mapsto> []), w)
          | (Inr ws, w) \<Rightarrow> (ws, cache(org \<mapsto> ws), w))"

fun evaluate_rules ::
  "(string \<Rightarrow> bool) \<Rightarrow> (string \<Rightarrow> uuid option) \<Rightarrow> threshold_counter \<Rightarrow> instant \<Rightarrow>
   (uuid \<rightharpoonup> maintenance_window list) \<Rightarrow> int \<Rightarrow> alert_rule list \<Rightarrow> alert_world \<Rightarrow> int \<times> alert_world" where
  "evaluate_rules callers parse_uuid counter now cache fired [] w = (fired, w)"
| "evaluate_rules callers parse_uuid counter now cache fired (rule # rules) w =
     (let cond = ar_condition rule in
      if c_type cond \<noteq> condition_threshold \<or> c_query cond = None
      then evaluate_rules callers parse_uuid counter now cache fired rules w
      else
        let q = the (c_query cond) in
        case counter (ar_project rule) q (now - condition_window cond) now of
          None \<Rightarrow> evaluate_rules callers parse_uuid counter now cache fired rules w
        | Some matched \<Rightarrow>
            if \<not> satisfied cond matched
            then evaluate_rules callers parse_uuid counter now cache fired rules (snd (resolve_open rule now w))
            else
              case cached_windows cache (ar_org rule) now w of (windows, cache, w) \<Rightarrow>
              case raise callers parse_uuid rule (threshold_payload rule q matched now) matched windows now w of
                (Inl _, w) \<Rightarrow> evaluate_rules callers parse_uuid counter now cache fired rules w
              | (Inr _, w) \<Rightarrow> evaluate_rules callers parse_uuid counter now cache (fired + 1) rules w)"

definition evaluate_thresholds ::
  "(string \<Rightarrow> bool) \<Rightarrow> (string \<Rightarrow> uuid option) \<Rightarrow> threshold_counter \<Rightarrow> instant \<Rightarrow> int alert_op" where
  "evaluate_thresholds callers parse_uuid counter now =
     try_op s_query_threshold_rules (\<lambda>rules w.
       case evaluate_rules callers parse_uuid counter now Map.empty 0 rules w of
         (fired, w) \<Rightarrow> (Inr fired, w))"

subsection \<open>Alerts and maintenance windows\<close>

definition acknowledge_alert :: "uuid \<Rightarrow> uuid \<Rightarrow> instant \<Rightarrow> alert_event alert_op" where
  "acknowledge_alert event user now =
     try_op (s_acknowledge_event event user now) (\<lambda>_. s_query_event_by_id event)"

definition resolve_alert :: "uuid \<Rightarrow> instant \<Rightarrow> alert_event alert_op" where
  "resolve_alert event now = try_op (s_resolve_event event now) (\<lambda>_. s_query_event_by_id event)"

definition query_alert_history :: "event_filter \<Rightarrow> alert_event list alert_op" where
  "query_alert_history f =
     s_query_events (if ef_limit f \<le> 0 \<or> 500 < ef_limit f then f\<lparr> ef_limit := 100 \<rparr> else f)"

definition create_maintenance_window ::
  "uuid \<Rightarrow> instant \<Rightarrow> uuid \<Rightarrow> uuid \<Rightarrow> uuid option \<Rightarrow> string \<Rightarrow> instant \<Rightarrow> instant \<Rightarrow> maintenance_window alert_op" where
  "create_maintenance_window new_id now org actor project reason starts_at ends_at =
     (if \<not> starts_at < ends_at then fail_op Err_window_order
      else
        let m = \<lparr> mw_id = new_id, mw_org = org, mw_project = project, mw_reason = reason,
              mw_starts_at = starts_at, mw_ends_at = ends_at, mw_created_by = Some actor,
              mw_date_created = now \<rparr>
        in try_op (s_create_maintenance m) (\<lambda>_. ret_op m))"

definition delete_maintenance_window :: "uuid \<Rightarrow> unit alert_op" where
  "delete_maintenance_window i = s_delete_maintenance i"


subsection \<open>What the calls do, faults included\<close>

text \<open>A call fails on a fault of the database, or runs; either way it uses up a fault.\<close>

lemma store_call_cases:
  assumes "store_call f w = (r, w')"
  obtains bs where "r = Inl Err_db" and "w' = w\<lparr> w_faults := bs \<rparr>"
  | bs where "f (w\<lparr> w_faults := bs \<rparr>) = (r, w')"
proof (cases "w_faults w")
  case Nil
  then have eq: "w\<lparr> w_faults := [] \<rparr> = w" by (cases w) simp
  have "f w = (r, w')" using assms Nil by (simp add: store_call_def)
  then have "f (w\<lparr> w_faults := [] \<rparr>) = (r, w')" by (simp only: eq)
  then show ?thesis by (rule that(2))
next
  case (Cons b bs)
  show ?thesis
  proof (cases b)
    case True
    then show ?thesis using assms Cons that(1) [of bs] by (simp add: store_call_def)
  next
    case False
    then show ?thesis using assms Cons that(2) [of bs] by (simp add: store_call_def)
  qed
qed

lemma store_call_no_faults [simp]: "w_faults w = [] \<Longrightarrow> store_call f w = f w"
  by (simp add: store_call_def)

lemma record_firing_cases:
  assumes "s_record_firing e w = (r, w')"
  obtains err bs where "r = Inl err" and "w' = w\<lparr> w_faults := bs \<rparr>"
  | bs where "r = Inr (fst (upsert_event (w_fresh w) e (w_events w)))"
      and "w' = w\<lparr> w_faults := bs, w_events := snd (upsert_event (w_fresh w) e (w_events w)),
                  w_fresh := w_fresh w + 1 \<rparr>"
  using assms unfolding s_record_firing_def
  by (cases rule: store_call_cases) (auto simp: split_beta split: if_splits)

lemma mark_notified_cases:
  assumes "s_mark_notified i t w = (r, w')"
  obtains bs where "r = Inl Err_db" and "w' = w\<lparr> w_faults := bs \<rparr>"
  | bs where "r = Inr ()" and "w' = w\<lparr> w_faults := bs, w_events := mark_row i t (w_events w) \<rparr>"
  using assms unfolding s_mark_notified_def by (cases rule: store_call_cases) auto

lemma query_open_event_cases:
  assumes "s_query_open_event rule key w = (r, w')"
  obtains bs where "r = Inl Err_db" and "w' = w\<lparr> w_faults := bs \<rparr>"
  | bs where "r = Inl Err_event_not_found" and "find_open rule key (w_events w) = None"
      and "w' = w\<lparr> w_faults := bs \<rparr>"
  | e bs where "r = Inr e" and "find_open rule key (w_events w) = Some e" and "w' = w\<lparr> w_faults := bs \<rparr>"
  using assms unfolding s_query_open_event_def
  by (cases rule: store_call_cases) (auto split: option.splits)

text \<open>Delivery leaves the tables alone; it hands over at most the one payload, through the connection.\<close>

lemma send_alert_cases:
  assumes "send_alert callers c p w = (r, w')"
  obtains bs as where "w' = w\<lparr> w_faults := bs, w_accepts := as \<rparr>"
  | j bs as where "r = Inr ()" and "List.find (\<lambda>j. in_id j = c) (w_integrations w) = Some j"
      and "in_enabled j" and "callers (in_provider j)"
      and "w' = w\<lparr> w_faults := bs, w_accepts := as, w_outbox := w_outbox w @ [(j, p)] \<rparr>"
proof -
  have same: "w\<lparr> w_faults := bs \<rparr> = w\<lparr> w_faults := bs, w_accepts := w_accepts w \<rparr>" for bs by simp
  obtain q w1 where q: "s_query_integration c w = (q, w1)" by (cases "s_query_integration c w")
  then obtain bs where w1: "w1 = w\<lparr> w_faults := bs \<rparr>"
    and qj: "\<And>j. q = Inr j \<Longrightarrow> List.find (\<lambda>j. in_id j = c) (w_integrations w) = Some j"
    unfolding s_query_integration_def by (cases rule: store_call_cases) (auto split: option.splits)
  show ?thesis
  proof (cases q)
    case (Inl e)
    then have "w' = w\<lparr> w_faults := bs \<rparr>" using assms q w1 by (simp add: send_alert_def)
    then show ?thesis using that(1) [where bs = bs and as = "w_accepts w"] by simp
  next
    case (Inr j)
    then have rest: "(if \<not> in_enabled j then ret_op ()
       else if \<not> callers (in_provider j) then fail_op Err_send else provider_send j p) w1 = (r, w')"
      using assms q by (simp add: send_alert_def)
    show ?thesis
    proof (cases "in_enabled j \<and> callers (in_provider j)")
      case False
      then have "w' = w\<lparr> w_faults := bs \<rparr>" using rest w1 by (auto split: if_splits)
      then show ?thesis using that(1) [where bs = bs and as = "w_accepts w"] by simp
    next
      case True
      then have ps: "provider_send j p w1 = (r, w')" using rest by simp
      show ?thesis
      proof (cases "w_accepts w = [] \<or> hd (w_accepts w)")
        case True
        then have "r = Inr ()" "w' = w\<lparr> w_faults := bs, w_accepts := tl (w_accepts w), w_outbox := w_outbox w @ [(j, p)] \<rparr>"
          using ps w1 by (auto simp: provider_send_def split: list.splits if_splits)
        with \<open>in_enabled j \<and> callers (in_provider j)\<close> qj [OF Inr] show ?thesis by (intro that(2)) auto
      next
        case False
        then have "w' = w\<lparr> w_faults := bs, w_accepts := tl (w_accepts w) \<rparr>"
          using ps w1 by (cases "w_accepts w") (auto simp: provider_send_def)
        then show ?thesis by (rule that(1))
      qed
    qed
  qed
qed

text \<open>The parts of the world a firing leaves alone.\<close>

definition same_tables :: "alert_world \<Rightarrow> alert_world \<Rightarrow> bool" where
  "same_tables w w' \<longleftrightarrow> w_integrations w' = w_integrations w \<and> w_rules w' = w_rules w
     \<and> w_windows w' = w_windows w"

text \<open>
  What a firing does, as one step: nothing, or the upsert; and then, only if the decision on the
  open event allows it, possibly a delivery through the rule's connection and the mark.
\<close>

definition raise_key :: "alert_rule \<Rightarrow> alert_payload \<Rightarrow> string" where
  "raise_key rule rep = dedup_key (ar_condition rule) (ap_level rep)"

definition raise_decides :: "alert_rule \<Rightarrow> alert_payload \<Rightarrow> maintenance_window list \<Rightarrow> instant \<Rightarrow> alert_world \<Rightarrow> bool" where
  "raise_decides rule rep windows now w =
     fst (should_notify (firing_input rule (find_open (ar_id rule) (raise_key rule rep) (w_events w)) windows now))"

definition delivered_through :: "(string \<Rightarrow> bool) \<Rightarrow> alert_rule \<Rightarrow> alert_world \<Rightarrow> alert_world \<Rightarrow> bool" where
  "delivered_through callers rule w w' \<longleftrightarrow>
     (\<exists>j p. List.find (\<lambda>j. in_id j = ar_connection rule) (w_integrations w) = Some j \<and> in_enabled j
        \<and> callers (in_provider j) \<and> w_outbox w' = w_outbox w @ [(j, p)])"

lemma raise_cases [consumes 1, case_names Failed Quiet Undelivered Delivered]:
  assumes "raise callers parse_uuid rule rep matched windows now w = (r, w')"
  defines "u \<equiv> upsert_event (w_fresh w) (firing_event parse_uuid rule rep matched now) (w_events w)"
  obtains err where "r = Inl err" and "same_tables w w'" and "w_events w' = w_events w"
      and "w_fresh w' = w_fresh w" and "w_outbox w' = w_outbox w"
  | "r = Inr ()" and "same_tables w w'" and "w_events w' = snd u" and "w_fresh w' = w_fresh w + 1"
      and "w_outbox w' = w_outbox w" and "\<not> raise_decides rule rep windows now w"
  | "same_tables w w'" and "w_events w' = snd u \<or> w_events w' = mark_row (ae_id (fst u)) now (snd u)"
      and "w_fresh w' = w_fresh w + 1" and "w_outbox w' = w_outbox w"
      and "raise_decides rule rep windows now w"
      and "r = Inr () \<Longrightarrow> w_events w' = mark_row (ae_id (fst u)) now (snd u)"
  | "same_tables w w'" and "w_events w' = snd u \<or> w_events w' = mark_row (ae_id (fst u)) now (snd u)"
      and "w_fresh w' = w_fresh w + 1" and "delivered_through callers rule w w'"
      and "raise_decides rule rep windows now w"
      and "r = Inr () \<Longrightarrow> w_events w' = mark_row (ae_id (fst u)) now (snd u)"
proof -
  let ?key = "dedup_key (ar_condition rule) (ap_level rep)"
  let ?prior = "find_open (ar_id rule) ?key (w_events w)"
  let ?rn = "record_and_notify callers parse_uuid rule rep matched windows now"
  obtain q w1 where q: "s_query_open_event (ar_id rule) ?key w = (q, w1)"
    by (cases "s_query_open_event (ar_id rule) ?key w")
  have "r = Inl Err_db \<and> (\<exists>bs. w' = w\<lparr> w_faults := bs \<rparr>) \<or> (\<exists>bs. ?rn ?prior (w\<lparr> w_faults := bs \<rparr>) = (r, w'))"
    using assms(1) q unfolding raise_def case_op_def
    by (cases rule: query_open_event_cases [OF q]) auto
  then show ?thesis
  proof
    assume "r = Inl Err_db \<and> (\<exists>bs. w' = w\<lparr> w_faults := bs \<rparr>)"
    then show ?thesis by (intro that(1)) (auto simp: same_tables_def)
  next
    assume "\<exists>bs. ?rn ?prior (w\<lparr> w_faults := bs \<rparr>) = (r, w')"
    then obtain bs where rn: "?rn ?prior (w\<lparr> w_faults := bs \<rparr>) = (r, w')" by blast
    let ?dec = "fst (should_notify (firing_input rule ?prior windows now))"
    have dec: "raise_decides rule rep windows now w = ?dec" by (simp add: raise_decides_def raise_key_def)
    from rn show ?thesis unfolding record_and_notify_def
    proof (cases rule: try_op_cases)
      case (Failed e)
      then show ?thesis
        by (cases rule: record_firing_cases) (auto simp: same_tables_def intro!: that(1))
    next
      case (Done ev w2)
      then obtain cs where ev: "ev = fst u"
        and w2: "w2 = w\<lparr> w_faults := cs, w_events := snd u, w_fresh := w_fresh w + 1 \<rparr>"
        by (cases rule: record_firing_cases) (auto simp: u_def)
      show ?thesis
      proof (cases ?dec)
        case False
        then have "r = Inr ()" "w' = w2" using Done by auto
        then show ?thesis using False dec w2 by (intro that(2)) (auto simp: same_tables_def)
      next
        case True
        then have "try_op (send_alert callers (ar_connection rule)
              (rep\<lparr> ap_message := firing_summary (ap_message rep) matched \<rparr>))
            (\<lambda>_. s_mark_notified (ae_id ev) now) w2 = (r, w')"
          using Done by simp
        then show ?thesis
        proof (cases rule: try_op_cases)
          case (Failed e)
          then show ?thesis
            by (cases rule: send_alert_cases)
              (use True dec w2 in \<open>auto simp: same_tables_def intro!: that(3)\<close>)
        next
          case (Done x w3)
          from Done(1) have "(\<exists>fs as. w3 = w2\<lparr> w_faults := fs, w_accepts := as \<rparr>) \<or>
              (\<exists>j p fs as. List.find (\<lambda>j. in_id j = ar_connection rule) (w_integrations w2) = Some j
                \<and> in_enabled j \<and> callers (in_provider j)
                \<and> w3 = w2\<lparr> w_faults := fs, w_accepts := as, w_outbox := w_outbox w2 @ [(j, p)] \<rparr>)"
            by (cases rule: send_alert_cases) blast+
          moreover from Done(2) have "(\<exists>fs. r = Inl Err_db \<and> w' = w3\<lparr> w_faults := fs \<rparr>) \<or>
              (\<exists>fs. r = Inr () \<and> w' = w3\<lparr> w_faults := fs, w_events := mark_row (ae_id ev) now (w_events w3) \<rparr>)"
            by (cases rule: mark_notified_cases) blast+
          ultimately show ?thesis
            using True dec w2 ev
            by (elim disjE exE conjE)
              (auto simp: same_tables_def delivered_through_def intro: that(3) that(4))
        qed
      qed
    qed
  qed
qed


lemma raise_same_tables:
  "raise callers parse_uuid rule rep matched windows now w = (r, w') \<Longrightarrow> same_tables w w'"
  by (erule raise_cases) auto

lemma same_tables_refl [simp]: "same_tables w w"
  by (simp add: same_tables_def)

lemma same_tables_trans [trans]: "same_tables w w' \<Longrightarrow> same_tables w' w'' \<Longrightarrow> same_tables w w''"
  by (simp add: same_tables_def)

subsection \<open>One page per burst\<close>

text \<open>The dedup window the decision uses.\<close>

definition rule_quiet :: "alert_rule \<Rightarrow> duration" where
  "rule_quiet rule = (if dedup_window rule \<le> 0 then default_dedup_window else dedup_window rule)"

text \<open>The key has an open event that was notified at \<open>t0\<close> or later.\<close>

definition paged_since :: "uuid \<Rightarrow> string \<Rightarrow> instant \<Rightarrow> alert_world \<Rightarrow> bool" where
  "paged_since i key t0 w \<longleftrightarrow>
     (\<exists>e t. find_open i key (w_events w) = Some e \<and> ae_last_notified_at e = Some t \<and> t0 \<le> t)"

lemma rule_quiet_pos: "0 < rule_quiet rule"
  by (simp add: rule_quiet_def default_dedup_window_def)

lemma time_sub_small: "0 < d \<Longrightarrow> t - u < d \<Longrightarrow> time_sub t u < d"
  by (auto simp: time_sub_def)

lemma paged_suppresses:
  assumes "paged_since (ar_id rule) (raise_key rule rep) t0 w" and "now < t0 + rule_quiet rule"
  shows "\<not> raise_decides rule rep windows now w"
proof -
  from assms(1) obtain e t where e: "find_open (ar_id rule) (raise_key rule rep) (w_events w) = Some e"
    and t: "ae_last_notified_at e = Some t" "t0 \<le> t" by (auto simp: paged_since_def)
  from find_open_Some [OF e] have "ae_state e \<noteq> alert_state_resolved" by (simp add: open_for_def)
  moreover have "time_sub now t < rule_quiet rule"
    using assms(2) t(2) rule_quiet_pos by (intro time_sub_small) auto
  ultimately show ?thesis
    using e t by (auto simp: raise_decides_def should_notify_def firing_input_def rule_quiet_def Let_def)
qed

lemma paged_upsert:
  assumes "events_ok (w_fresh w) (w_events w)" and "paged_since i key t0 w"
    and "w_events w' = snd (upsert_event (w_fresh w) e (w_events w))"
  shows "paged_since i key t0 w'"
  using assms by (auto simp: paged_since_def find_open_upsert merge_event_def split: if_splits)

text \<open>A firing keeps what was paged, and pages no key that was paged less than its window ago.\<close>

lemma paged_raise:
  assumes "world_ok w" and "paged_since i key t0 w" and "t0 \<le> now"
    and "raise callers parse_uuid rule rep matched windows now w = (r, w')"
  shows "paged_since i key t0 w'"
proof -
  let ?e = "firing_event parse_uuid rule rep matched now"
  let ?u = "upsert_event (w_fresh w) ?e (w_events w)"
  have ok: "events_ok (w_fresh w) (w_events w)" using assms(1) by (simp add: world_ok_def)
  have marked: "paged_since i key t0 v"
    if "w_events v = mark_row j now (snd ?u)" for v j
  proof -
    have up: "paged_since i key t0 (w\<lparr> w_events := snd ?u \<rparr>)"
      using paged_upsert [OF ok assms(2)] by simp
    then obtain x t where x: "find_open i key (snd ?u) = Some x" "ae_last_notified_at x = Some t" "t0 \<le> t"
      by (auto simp: paged_since_def)
    have "find_open i key (mark_row j now (snd ?u)) =
        Some (if ae_id x = j then x\<lparr> ae_last_notified_at := Some now \<rparr> else x)"
      using board.view_mark [OF board.good_fire [OF ok, where e = ?e], where i = j and tm = now and k = "(i, key)"] x
      by simp
    then show ?thesis
      using x assms(3) by (cases "ae_id x = j") (simp_all add: paged_since_def that)
  qed
  have plain: "paged_since i key t0 v" if "w_events v = snd ?u" for v
    using paged_upsert [OF ok assms(2) that] .
  from assms(4) show ?thesis
    by (cases rule: raise_cases) (use assms(2) marked plain in \<open>auto simp: paged_since_def\<close>)
qed

lemma raise_outbox_only_if:
  assumes "raise callers parse_uuid rule rep matched windows now w = (r, w')"
    and "\<not> raise_decides rule rep windows now w"
  shows "w_outbox w' = w_outbox w"
  using assms by (cases rule: raise_cases) auto

lemma delivered_paged:
  assumes "world_ok w" and "raise callers parse_uuid rule rep matched windows now w = (Inr (), w')"
    and "w_outbox w' \<noteq> w_outbox w"
  shows "paged_since (ar_id rule) (raise_key rule rep) now w'"
proof -
  let ?e = "firing_event parse_uuid rule rep matched now"
  let ?u = "upsert_event (w_fresh w) ?e (w_events w)"
  have ok: "events_ok (w_fresh w) (w_events w)" using assms(1) by (simp add: world_ok_def)
  have ev: "w_events w' = mark_row (ae_id (fst ?u)) now (snd ?u)"
    using assms(2,3) by (cases rule: raise_cases) auto
  have key: "(ae_rule ?e, ae_dedup_key ?e) = (ar_id rule, raise_key rule rep)"
    by (simp add: firing_event_def raise_key_def)
  have "find_open (ar_id rule) (raise_key rule rep) (snd ?u) = Some (fst ?u)"
    using find_open_upsert [OF ok, of "ar_id rule" "raise_key rule rep" ?e] key
    by (auto simp: upsert_event_def split: option.splits)
  then show ?thesis
    using board.view_mark [OF board.good_fire [OF ok, where e = ?e], where i = "ae_id (fst ?u)" and tm = now
        and k = "(ar_id rule, raise_key rule rep)"]
    by (simp add: paged_since_def ev)
qed

text \<open>A sequence of firings.\<close>

record firing =
  f_rule :: alert_rule
  f_rep :: alert_payload
  f_matched :: int
  f_windows :: "maintenance_window list"
  f_now :: instant

definition raise_one :: "(string \<Rightarrow> bool) \<Rightarrow> (string \<Rightarrow> uuid option) \<Rightarrow> firing \<Rightarrow> unit alert_op" where
  "raise_one callers parse_uuid f =
     raise callers parse_uuid (f_rule f) (f_rep f) (f_matched f) (f_windows f) (f_now f)"

lemma keeps_raise: "keeps_ok (raise callers parse_uuid rule rep matched windows now)"
  unfolding raise_def record_and_notify_def
  by (intro keeps_case keeps_try keeps_statements)
    (auto simp: send_alert_def intro!: keeps_try keeps_statements,
     auto simp: keeps_def provider_send_def split: list.split)


fun raise_run :: "(string \<Rightarrow> bool) \<Rightarrow> (string \<Rightarrow> uuid option) \<Rightarrow> firing list \<Rightarrow> alert_world \<Rightarrow> alert_world" where
  "raise_run callers parse_uuid [] w = w"
| "raise_run callers parse_uuid (f # fs) w = raise_run callers parse_uuid fs (snd (raise_one callers parse_uuid f w))"

lemma paged_run:
  assumes "world_ok w" and "paged_since i key t0 w" and "\<forall>f \<in> set fs. t0 \<le> f_now f"
  shows "world_ok (raise_run callers parse_uuid fs w) \<and> paged_since i key t0 (raise_run callers parse_uuid fs w)"
  using assms
proof (induction fs arbitrary: w)
  case (Cons f fs)
  have "world_ok (snd (raise_one callers parse_uuid f w))"
    using keepsD [OF keeps_raise Cons.prems(1)] by (simp add: raise_one_def)
  moreover have "paged_since i key t0 (snd (raise_one callers parse_uuid f w))"
    using paged_raise [OF Cons.prems(1,2)] Cons.prems(3)
    by (cases "raise_one callers parse_uuid f w") (auto simp: raise_one_def)
  ultimately show ?case using Cons.IH Cons.prems(3) by simp
qed simp

text \<open>
  C3: a burst is one page. Once a firing has returned without an error and was delivered, no firing of
  the same rule and dedup key before the end of the dedup window is delivered, when only other firings
  come in between, none of them earlier, with any faults of the database and any refusals of providers;
  an alert that is resolved in between starts anew.
\<close>

theorem burst_is_one_page:
  assumes "world_ok w"
    and "raise callers parse_uuid rule rep matched windows now w = (Inr (), w')" and "w_outbox w' \<noteq> w_outbox w"
    and "\<forall>f \<in> set fs. now \<le> f_now f"
    and "raise_key rule rep' = raise_key rule rep" and "now \<le> now'" and "now' < now + rule_quiet rule"
  defines "v \<equiv> raise_run callers parse_uuid fs w'"
  shows "w_outbox (snd (raise callers parse_uuid rule rep' matched' windows' now' v)) = w_outbox v"
proof -
  have "world_ok w'" using keepsD [OF keeps_raise assms(1)] assms(2) by (metis snd_conv)
  then have "paged_since (ar_id rule) (raise_key rule rep) now v"
    using paged_run [OF _ delivered_paged [OF assms(1-3)] assms(4)] by (simp add: v_def)
  then have "\<not> raise_decides rule rep' windows' now' v"
    using assms(5,7) by (metis paged_suppresses)
  then show ?thesis
    by (cases "raise callers parse_uuid rule rep' matched' windows' now' v")
      (auto dest: raise_outbox_only_if)
qed


text \<open>A small world to evaluate on: one project with one connection and one rule on its errors.\<close>

definition sample_integration :: integration where
  "sample_integration = \<lparr> in_id = 1, in_org = 10, in_project = 20, in_provider = ''slack'', in_name = ''ops'',
     in_credentials = Map.empty, in_enabled = True, in_date_created = 0, in_date_updated = 0 \<rparr>"

definition sample_rule :: alert_rule where
  "sample_rule = \<lparr> ar_id = 2, ar_org = 10, ar_project = 20, ar_connection = 1, ar_user = Some 5, ar_name = ''errors'',
     ar_level = lv_error, ar_condition = level_condition lv_error, ar_dedup_window_seconds = 300,
     ar_snooze_until = None, ar_is_active = True, ar_created_at = 0, ar_updated_at = 0 \<rparr>"

definition sample_payload :: alert_payload where
  "sample_payload = \<lparr> ap_project_name = ''api'', ap_level = lv_error, ap_message = ''boom'', ap_source = ''api'',
     ap_log_id = [], ap_timestamp = 0 \<rparr>"

definition sample_world :: alert_world where
  "sample_world = (empty_world [] [])\<lparr> w_integrations := [sample_integration], w_rules := [sample_rule] \<rparr>"

lemma sample_world_ok: "world_ok sample_world"
  by (simp add: world_ok_def sample_world_def empty_world_def events_ok_def references_ok_def names_ok_def
      sample_rule_def sample_integration_def level_condition_def condition_level_def)

lemma sample_windows: "dedup_window sample_rule = 300 * go_second" "rule_quiet sample_rule = 300 * go_second"
  by (simp_all add: rule_quiet_def dedup_window_def sample_rule_def wrap64_id)

lemma sample_key: "raise_key sample_rule sample_payload = lv_error"
  by (simp add: raise_key_def dedup_key_def sample_rule_def sample_payload_def level_condition_def
      condition_level_def condition_threshold_def to_upper_def upper_char_def trim_space_def trim_left.simps
      space_at_def spaces_def byte_of_def)

lemma sample_fields [simp]:
  "w_integrations sample_world = [sample_integration]" "w_rules sample_world = [sample_rule]"
  "w_events sample_world = []" "w_windows sample_world = []" "w_fresh sample_world = 0"
  "w_faults sample_world = []" "w_accepts sample_world = []" "w_outbox sample_world = []"
  by (simp_all add: sample_world_def empty_world_def)

lemma sample_raise:
  "raise (\<lambda>_. True) (\<lambda>_. None) sample_rule sample_payload 1 [] 1000 sample_world =
    (Inr (), sample_world\<lparr> w_fresh := 1, w_outbox := [(sample_integration, sample_payload)],
       w_events := [(new_event 0 (firing_event (\<lambda>_. None) sample_rule sample_payload 1 1000))
         \<lparr> ae_last_notified_at := Some 1000 \<rparr>] \<rparr>)"
proof -
  have d: "fst (should_notify (firing_input sample_rule None [] 1000))"
    by (simp add: should_notify_def firing_input_def sample_rule_def)
  have o: "s_query_open_event i k sample_world = (Inl Err_event_not_found, sample_world)" for i k
    by (simp add: s_query_open_event_def find_open_def)
  let ?e = "firing_event (\<lambda>_. None) sample_rule sample_payload 1 1000"
  have rule: "ae_rule ?e = ar_id sample_rule" by (simp add: firing_event_def)
  have r: "s_record_firing ?e sample_world =
      (Inr (new_event 0 ?e), sample_world\<lparr> w_events := [new_event 0 ?e], w_fresh := 1 \<rparr>)"
    by (simp add: s_record_firing_def rule upsert_event_def find_open_def)
  have s: "send_alert (\<lambda>_. True) (ar_connection sample_rule)
      (sample_payload\<lparr> ap_message := firing_summary (ap_message sample_payload) 1 \<rparr>)
      (sample_world\<lparr> w_events := es, w_fresh := n \<rparr>) =
      (Inr (), sample_world\<lparr> w_events := es, w_fresh := n, w_outbox := [(sample_integration, sample_payload)] \<rparr>)"
    for es n
    by (simp add: send_alert_def try_op_def s_query_integration_def
        sample_integration_def sample_rule_def provider_send_def firing_summary_def)
  show ?thesis
    by (simp add: raise_def record_and_notify_def case_op_def o r s d try_op_def s_mark_notified_def mark_row_def)
qed

theorem burst_is_one_page_witness:
  "w_outbox (snd (raise (\<lambda>_. True) (\<lambda>_. None) sample_rule sample_payload 4 [] (5 * go_second)
      (raise_run (\<lambda>_. True) (\<lambda>_. None)
        [\<lparr> f_rule = sample_rule, f_rep = sample_payload, f_matched = 2, f_windows = [], f_now = go_second \<rparr>]
        (snd (raise (\<lambda>_. True) (\<lambda>_. None) sample_rule sample_payload 1 [] 1000 sample_world)))))
    = w_outbox (raise_run (\<lambda>_. True) (\<lambda>_. None)
        [\<lparr> f_rule = sample_rule, f_rep = sample_payload, f_matched = 2, f_windows = [], f_now = go_second \<rparr>]
        (snd (raise (\<lambda>_. True) (\<lambda>_. None) sample_rule sample_payload 1 [] 1000 sample_world)))"
  by (rule burst_is_one_page [where w = sample_world and now = 1000 and matched = 1 and windows = "[]"
        and rep = sample_payload])
    (simp_all add: sample_world_ok sample_raise sample_windows)

subsection \<open>The record of a firing, and the retry of a failed delivery\<close>

lemma raise_no_faults:
  fixes parse_uuid rep matched now
  assumes "w_faults w = []" and "\<exists>x \<in> set (w_rules w). ar_id x = ar_id rule"
  defines "u \<equiv> upsert_event (w_fresh w) (firing_event parse_uuid rule rep matched now) (w_events w)"
  shows "raise callers parse_uuid rule rep matched windows now w =
    (let w2 = w\<lparr> w_events := snd u, w_fresh := w_fresh w + 1 \<rparr> in
     if \<not> raise_decides rule rep windows now w then (Inr (), w2)
     else try_op (send_alert callers (ar_connection rule)
              (rep\<lparr> ap_message := firing_summary (ap_message rep) matched \<rparr>))
            (\<lambda>_. s_mark_notified (ae_id (fst u)) now) w2)"
proof -
  let ?k = "dedup_key (ar_condition rule) (ap_level rep)"
  let ?e = "firing_event parse_uuid rule rep matched now"
  have r: "s_record_firing ?e w =
      (Inr (fst u), w\<lparr> w_events := snd u, w_fresh := w_fresh w + 1 \<rparr>)"
    using assms(1,2) by (simp add: s_record_firing_def u_def firing_event_def split_beta)
  have o: "s_query_open_event (ar_id rule) ?k w =
      (case find_open (ar_id rule) ?k (w_events w) of
         None \<Rightarrow> (Inl Err_event_not_found, w) | Some e \<Rightarrow> (Inr e, w))"
    using assms(1) by (simp add: s_query_open_event_def)
  show ?thesis
    by (cases "find_open (ar_id rule) ?k (w_events w)")
      (simp_all add: raise_def case_op_def o record_and_notify_def try_op_Inr [where m = "s_record_firing ?e" and s = w, OF r] raise_decides_def
        raise_key_def Let_def)
qed

lemma send_alert_no_faults:
  assumes "w_faults w = []" and "send_alert callers c p w = (r, w')"
  shows "w_faults w' = []" and "w_events w' = w_events w" and "r = Inr () \<or> r = Inl Err_send \<or> r = Inl Err_not_found"
  using assms by (auto simp: send_alert_def try_op_def s_query_integration_def provider_send_def
      split: option.splits if_splits list.splits)

lemma find_open_mark:
  assumes "events_ok n es"
  shows "find_open i key (mark_row j t es) =
    map_option (\<lambda>e. if ae_id e = j then e\<lparr> ae_last_notified_at := Some t \<rparr> else e) (find_open i key es)"
  using board.view_mark [OF assms, where i = j and tm = t and k = "(i, key)"] by simp

lemma raise_records:
  assumes "world_ok w" and "w_faults w = []" and "\<exists>x \<in> set (w_rules w). ar_id x = ar_id rule"
    and "raise callers parse_uuid rule rep matched windows now w = (r, w')"
  defines "prior \<equiv> find_open (ar_id rule) (raise_key rule rep) (w_events w)"
  shows "\<exists>e. find_open (ar_id rule) (raise_key rule rep) (w_events w') = Some e
    \<and> ae_match_count e = matched + (case prior of None \<Rightarrow> 0 | Some p \<Rightarrow> ae_match_count p)
    \<and> ae_last_seen_at e = now \<and> ae_level e = ap_level rep
    \<and> ae_state e = (case prior of None \<Rightarrow> alert_state_firing | Some p \<Rightarrow> ae_state p)
    \<and> ae_last_notified_at e =
        (if raise_decides rule rep windows now w \<and> r = Inr () then Some now
         else case prior of None \<Rightarrow> None | Some p \<Rightarrow> ae_last_notified_at p)"
proof -
  let ?e = "firing_event parse_uuid rule rep matched now"
  let ?u = "upsert_event (w_fresh w) ?e (w_events w)"
  let ?w2 = "w\<lparr> w_events := snd ?u, w_fresh := w_fresh w + 1 \<rparr>"
  have ok: "events_ok (w_fresh w) (w_events w)" using assms(1) by (simp add: world_ok_def)
  have key: "ae_rule ?e = ar_id rule" "ae_dedup_key ?e = raise_key rule rep"
    by (simp_all add: firing_event_def raise_key_def)
  have row: "fst ?u = (case prior of None \<Rightarrow> new_event (w_fresh w) ?e | Some p \<Rightarrow> merge_event ?e p)"
    by (simp add: upsert_event_def prior_def key split: option.split)
  have rowf: "ae_match_count (fst ?u) = matched + (case prior of None \<Rightarrow> 0 | Some p \<Rightarrow> ae_match_count p)"
    "ae_last_seen_at (fst ?u) = now" "ae_level (fst ?u) = ap_level rep"
    "ae_last_notified_at (fst ?u) = (case prior of None \<Rightarrow> None | Some p \<Rightarrow> ae_last_notified_at p)"
    "ae_state (fst ?u) = (case prior of None \<Rightarrow> alert_state_firing | Some p \<Rightarrow> ae_state p)"
    unfolding row by (simp_all add: new_event_def merge_event_def firing_event_def split: option.split)
  have found: "find_open (ar_id rule) (raise_key rule rep) (snd ?u) = Some (fst ?u)"
    using find_open_upsert [OF ok, of "ar_id rule" "raise_key rule rep" ?e] key
    by (simp add: row prior_def)
  note marked = find_open_mark [OF events_ok_upsert [OF ok, of ?e], of "ar_id rule" "raise_key rule rep"]
  note rn = raise_no_faults [OF assms(2,3), of callers parse_uuid rep matched windows now]
  show ?thesis
  proof (cases "raise_decides rule rep windows now w")
    case False
    then have "w_events w' = snd ?u" using rn assms(4) by (auto simp: Let_def)
    then show ?thesis using False found rowf by simp
  next
    case True
    then have "try_op (send_alert callers (ar_connection rule)
          (rep\<lparr> ap_message := firing_summary (ap_message rep) matched \<rparr>))
        (\<lambda>_. s_mark_notified (ae_id (fst ?u)) now) ?w2 = (r, w')"
      using rn assms(4) by (simp add: Let_def)
    then show ?thesis
    proof (cases rule: try_op_cases)
      case (Failed err)
      have "w_events w' = snd ?u" using send_alert_no_faults(2) [OF _ Failed(1)] assms(2) by simp
      then show ?thesis using Failed found rowf by simp
    next
      case (Done x w3)
      have "w_faults w3 = []" "w_events w3 = snd ?u"
        using send_alert_no_faults(1,2) [OF _ Done(1)] assms(2) by simp_all
      then have "r = Inr ()" "w_events w' = mark_row (ae_id (fst ?u)) now (snd ?u)"
        using Done(2) by (auto simp: s_mark_notified_def)
      then show ?thesis using True found marked [of "ae_id (fst ?u)" now] rowf by simp
    qed
  qed
qed

text \<open>
  C12: every firing is recorded, whether or not it is delivered. With a database that answers, a
  firing of a stored rule leaves its key with an open event that was seen now, at the level of the
  representative, in the state it was in, with the matches of the firing added to the matches before;
  its time of notification becomes now exactly when the decision allowed it and the call returned
  without an error, which includes that its connection was disabled, and stays as it was otherwise.
\<close>

theorem firing_is_recorded:
  assumes "world_ok w" and "w_faults w = []" and "rule \<in> set (w_rules w)"
    and "raise callers parse_uuid rule rep matched windows now w = (r, w')"
  shows "\<exists>e. find_open (ar_id rule) (raise_key rule rep) (w_events w') = Some e
    \<and> ae_match_count e = matched +
        (case find_open (ar_id rule) (raise_key rule rep) (w_events w) of None \<Rightarrow> 0 | Some p \<Rightarrow> ae_match_count p)
    \<and> ae_last_seen_at e = now \<and> ae_level e = ap_level rep
    \<and> ae_state e = (case find_open (ar_id rule) (raise_key rule rep) (w_events w) of None \<Rightarrow> alert_state_firing | Some p \<Rightarrow> ae_state p)
    \<and> ae_last_notified_at e =
        (if raise_decides rule rep windows now w \<and> r = Inr () then Some now
         else case find_open (ar_id rule) (raise_key rule rep) (w_events w) of
           None \<Rightarrow> None | Some p \<Rightarrow> ae_last_notified_at p)"
  using raise_records [OF assms(1,2) _ assms(4)] assms(3) by blast

theorem firing_is_recorded_witness:
  "\<exists>e. find_open (ar_id sample_rule) (raise_key sample_rule sample_payload)
      (w_events (snd (raise (\<lambda>_. True) (\<lambda>_. None) sample_rule sample_payload 1 [] 1000 sample_world))) = Some e
    \<and> ae_match_count e = 1"
  using firing_is_recorded [OF sample_world_ok _ _ surjective_pairing, where rule = sample_rule and callers = "\<lambda>_. True"
      and parse_uuid = "\<lambda>_. None" and rep = sample_payload and matched = 1 and windows = "[]" and now = 1000]
  by (simp add: find_open_def) blast

text \<open>
  C31: a delivery that fails does not silence the next one. When a firing that opened its alert was
  not delivered because the provider refused, the next firing of the same key is decided for delivery at any later
  time at which the rule is active, not snoozed and not under maintenance.
\<close>

theorem failed_delivery_is_retried:
  assumes "world_ok w" and "w_faults w = []" and "rule \<in> set (w_rules w)"
    and "find_open (ar_id rule) (raise_key rule rep) (w_events w) = None"
    and "raise callers parse_uuid rule rep matched windows now w = (Inl err, w')"
    and "raise_key rule rep' = raise_key rule rep"
    and "ar_is_active rule" and "\<forall>u. ar_snooze_until rule = Some u \<longrightarrow> u \<le> now'"
    and "\<forall>m \<in> set windows'. \<not> covers m (ar_project rule) now'"
  shows "raise_decides rule rep' windows' now' w'"
proof -
  from firing_is_recorded [OF assms(1-3,5)] assms(4)
  obtain e where e: "find_open (ar_id rule) (raise_key rule rep) (w_events w') = Some e"
    "ae_last_notified_at e = None" "ae_state e = alert_state_firing" by auto
  then have "ae_state e \<noteq> alert_state_acknowledged" by (simp add: alert_states)
  then show ?thesis
    using e assms(6-9)
    by (auto simp: raise_decides_def should_notify_def firing_input_def Let_def split: option.splits)
qed


theorem failed_delivery_is_retried_witness:
  "let w = sample_world\<lparr> w_accepts := [False] \<rparr>;
     w' = snd (raise (\<lambda>_. True) (\<lambda>_. None) sample_rule sample_payload 1 [] 1000 w)
   in raise_decides sample_rule sample_payload [] 2000 w'"
proof -
  let ?w = "sample_world\<lparr> w_accepts := [False] \<rparr>"
  let ?r = "raise (\<lambda>_. True) (\<lambda>_. None) sample_rule sample_payload 1 [] 1000 ?w"
  have "raise_decides sample_rule sample_payload [] 1000 ?w"
    by (simp add: raise_decides_def find_open_def should_notify_def firing_input_def sample_rule_def)
  then have "fst ?r = Inl Err_send"
    by (subst raise_no_faults)
      (simp_all add: Let_def send_alert_def s_query_integration_def try_op_def sample_integration_def
        sample_rule_def provider_send_def)
  then have "?r = (Inl Err_send, snd ?r)" by (metis prod.collapse)
  then show ?thesis unfolding Let_def
    by (rule failed_delivery_is_retried [where windows = "[]" and w = ?w and rep = sample_payload and err = Err_send and now = 1000
          and matched = 1 and callers = "\<lambda>_. True" and parse_uuid = "\<lambda>_. None", rotated 4])
      (simp_all add: sample_world_ok find_open_def, simp_all add: sample_rule_def)
qed


subsection \<open>Requests, and the invariant of every reachable world\<close>

text \<open>A rule routes to a connection of its own project.\<close>

definition tenant_ok :: "alert_world \<Rightarrow> bool" where
  "tenant_ok w \<longleftrightarrow>
     (\<forall>r \<in> set (w_rules w). \<exists>j \<in> set (w_integrations w).
        in_id j = ar_connection r \<and> in_project j = ar_project r)"

definition alert_inv :: "alert_world \<Rightarrow> bool" where
  "alert_inv w \<longleftrightarrow> world_ok w \<and> tenant_ok w"

text \<open>
  The requests of the API and the periodic jobs. An update and a deletion start by loading the row
  they name, as the handlers do.
\<close>

datatype alert_request =
    Create_integration uuid instant new_integration
  | Update_integration instant uuid update_integration
  | Disable_integration instant uuid
  | Delete_integration uuid
  | Test_integration instant uuid
  | Create_rule uuid instant new_alert_rule
  | Update_rule instant uuid update_alert_rule
  | Delete_rule uuid
  | Fire_alerts uuid "alert_payload list" instant
  | Evaluate_thresholds threshold_counter instant
  | Acknowledge_alert uuid uuid instant
  | Resolve_alert uuid instant
  | Create_maintenance uuid instant uuid uuid "uuid option" string instant instant
  | Delete_maintenance uuid

definition ignore :: "'a alert_op \<Rightarrow> unit alert_op" where
  "ignore m = try_op m (\<lambda>_. ret_op ())"

fun handle :: "(string \<Rightarrow> bool) \<Rightarrow> (string \<Rightarrow> uuid option) \<Rightarrow> alert_request \<Rightarrow> unit alert_op" where
  "handle callers pu (Create_integration i now ni) = ignore (create_integration callers i now ni)"
| "handle callers pu (Update_integration now i ui) =
     try_op (s_query_integration i) (\<lambda>j. ignore (update_integration_op now j ui))"
| "handle callers pu (Disable_integration now i) =
     try_op (s_query_integration i) (\<lambda>j. disable_integration now j)"
| "handle callers pu (Delete_integration i) = try_op (s_query_integration i) (\<lambda>j. delete_integration_op j)"
| "handle callers pu (Test_integration now i) =
     try_op (s_query_integration i) (\<lambda>j. test_integration callers j now)"
| "handle callers pu (Create_rule i now nr) = ignore (create_rule i now nr)"
| "handle callers pu (Update_rule now i ur) = try_op (s_query_rule_by_id i) (\<lambda>r. ignore (update_rule now r ur))"
| "handle callers pu (Delete_rule i) = try_op (s_query_rule_by_id i) (\<lambda>r. delete_rule i)"
| "handle callers pu (Fire_alerts project ps now) = fire_alerts callers pu project ps now"
| "handle callers pu (Evaluate_thresholds counter now) = ignore (evaluate_thresholds callers pu counter now)"
| "handle callers pu (Acknowledge_alert e user now) = ignore (acknowledge_alert e user now)"
| "handle callers pu (Resolve_alert e now) = ignore (resolve_alert e now)"
| "handle callers pu (Create_maintenance i now org actor project reason starts_at ends_at) =
     ignore (create_maintenance_window i now org actor project reason starts_at ends_at)"
| "handle callers pu (Delete_maintenance i) = delete_maintenance_window i"

fun alert_run :: "(string \<Rightarrow> bool) \<Rightarrow> (string \<Rightarrow> uuid option) \<Rightarrow> alert_request list \<Rightarrow> alert_world \<Rightarrow> alert_world" where
  "alert_run callers pu [] w = w"
| "alert_run callers pu (q # qs) w = alert_run callers pu qs (snd (handle callers pu q w))"

text \<open>An operation that leaves rules and integrations as they are keeps the invariant if it keeps the first half.\<close>

definition leaves_rules :: "'a alert_op \<Rightarrow> bool" where
  "leaves_rules m \<longleftrightarrow> (\<forall>w. w_rules (snd (m w)) = w_rules w \<and> w_integrations (snd (m w)) = w_integrations w)"

lemma leaves_rulesI:
  "(\<And>w. w_rules (snd (m w)) = w_rules w \<and> w_integrations (snd (m w)) = w_integrations w) \<Longrightarrow> leaves_rules m"
  by (simp add: leaves_rules_def)

lemma keeps_inv_leaves: "keeps_ok m \<Longrightarrow> leaves_rules m \<Longrightarrow> keeps alert_inv m"
  by (simp add: keeps_def alert_inv_def tenant_ok_def leaves_rules_def)

lemma leaves_store_call:
  "(\<And>w. w_rules (snd (f w)) = w_rules w \<and> w_integrations (snd (f w)) = w_integrations w) \<Longrightarrow>
    leaves_rules (store_call f)"
  by (auto simp: leaves_rules_def store_call_def split: list.split)

lemma leaves_iff_keeps:
  "leaves_rules m \<longleftrightarrow> (\<forall>R J. keeps (\<lambda>w. w_rules w = R \<and> w_integrations w = J) m)"
  by (auto simp: leaves_rules_def keeps_def)

lemma leaves_ops [intro]:
  "leaves_rules (ret_op x)" "leaves_rules (fail_op e)"
  "leaves_rules m \<Longrightarrow> (\<And>x. leaves_rules (k x)) \<Longrightarrow> leaves_rules (try_op m k)"
  "leaves_rules m \<Longrightarrow> (\<And>e. leaves_rules (h e)) \<Longrightarrow> (\<And>x. leaves_rules (k x)) \<Longrightarrow> leaves_rules (case_op m h k)"
  unfolding leaves_iff_keeps by (auto intro: keeps_try keeps_case)

lemma leaves_each [intro]: "(\<And>x. x \<in> set xs \<Longrightarrow> leaves_rules (f x)) \<Longrightarrow> leaves_rules (each_op f xs)"
proof (induction xs)
  case (Cons x xs)
  then have "leaves_rules (f x)" "leaves_rules (each_op f xs)" by auto
  then show ?case by (simp add: leaves_rules_def)
qed (simp add: leaves_rules_def)

lemma leaves_statements:
  "leaves_rules (s_query_open_event rule key)" "leaves_rules (s_query_event_by_id i)"
  "leaves_rules (s_query_integration i)" "leaves_rules (s_query_rule_by_id i)"
  "leaves_rules (s_query_active_maintenance org t)" "leaves_rules (s_query_active_rules project)"
  "leaves_rules s_query_threshold_rules" "leaves_rules (s_create_maintenance m)"
  "leaves_rules (s_delete_maintenance i)" "leaves_rules (s_mark_notified i t)"
  "leaves_rules (s_acknowledge_event i u t)" "leaves_rules (s_resolve_event i t)"
  "leaves_rules (s_record_firing e)"
  unfolding s_query_open_event_def s_query_event_by_id_def s_query_integration_def s_query_rule_by_id_def
    s_query_active_maintenance_def s_query_active_rules_def s_query_threshold_rules_def
    s_create_maintenance_def s_delete_maintenance_def s_mark_notified_def s_acknowledge_event_def
    s_resolve_event_def s_record_firing_def
  by (auto intro!: leaves_store_call split: option.split simp: split_beta)

lemma leaves_provider_send [simp]: "leaves_rules (provider_send j p)" "keeps_ok (provider_send j p)"
  by (auto simp: leaves_rules_def keeps_def provider_send_def split: list.split)

lemma leaves_raise: "leaves_rules (raise callers pu rule rep matched windows now)"
  unfolding raise_def record_and_notify_def send_alert_def
  by (intro leaves_ops leaves_statements) (auto intro!: leaves_ops leaves_statements)

lemma keeps_inv_raise: "keeps alert_inv (raise callers pu rule rep matched windows now)"
  by (intro keeps_inv_leaves keeps_raise leaves_raise)

lemma keeps_inv_statements:
  "keeps alert_inv (s_query_open_event rule key)" "keeps alert_inv (s_query_event_by_id i)"
  "keeps alert_inv (s_query_integration i)" "keeps alert_inv (s_query_rule_by_id i)"
  "keeps alert_inv (s_query_active_maintenance org t)" "keeps alert_inv (s_query_active_rules project)"
  "keeps alert_inv s_query_threshold_rules" "keeps alert_inv (s_create_maintenance m)"
  "keeps alert_inv (s_delete_maintenance i)" "keeps alert_inv (s_acknowledge_event i u t)"
  "keeps alert_inv (s_resolve_event i t)"
  by (intro keeps_inv_leaves keeps_statements leaves_statements)+

lemma keeps_inv_fire: "keeps alert_inv (fire_alerts callers pu project ps now)"
proof -
  have "keeps alert_inv (fire_rule callers pu ps ws now rule)" for ws rule
    unfolding fire_rule_def by (auto intro: keeps_inv_raise split: prod.split)
  then show ?thesis
    unfolding fire_alerts_def
    by (auto intro!: keeps_try keeps_case keeps_each keeps_inv_statements split: list.split)
qed

lemma keeps_inv_resolve_open: "keeps alert_inv (resolve_open rule now)"
  unfolding resolve_open_def by (intro keeps_case keeps_inv_statements keeps_ret)

lemma cached_windows_inv:
  "alert_inv w \<Longrightarrow> cached_windows cache org now w = (ws, cache', w') \<Longrightarrow> alert_inv w'"
  using keepsD [OF keeps_inv_statements(5), of w org now]
  by (auto simp: cached_windows_def split: option.splits prod.splits sum.splits)

lemma evaluate_rules_inv:
  "alert_inv w \<Longrightarrow> alert_inv (snd (evaluate_rules callers pu counter now cache fired rules w))"
proof (induction rules arbitrary: cache fired w)
  case (Cons rule rules)
  have r: "alert_inv (snd (raise callers pu rule rep matched ws now v))" if "alert_inv v" for rep matched ws v
    using keepsD [OF keeps_inv_raise that] .
  have o: "alert_inv (snd (resolve_open rule now w))" using keepsD [OF keeps_inv_resolve_open Cons.prems] .
  show ?case
    using Cons.IH Cons.prems o r cached_windows_inv
    by (auto simp: Let_def split: option.split prod.split sum.split) (metis snd_conv)+
qed simp


lemma tenant_faults [simp]: "tenant_ok (w\<lparr> w_faults := bs \<rparr>) = tenant_ok w"
  by (simp add: tenant_ok_def)

lemma keeps_tenant_store_call: "(\<And>w. tenant_ok w \<Longrightarrow> tenant_ok (snd (f w))) \<Longrightarrow> keeps tenant_ok (store_call f)"
  by (auto simp: keeps_def store_call_def split: list.split)

lemma keeps_inv: "keeps_ok m \<Longrightarrow> keeps tenant_ok m \<Longrightarrow> keeps alert_inv m"
  by (simp add: keeps_def alert_inv_def)

lemma keeps_tenant_statements:
  "keeps tenant_ok (s_create_integration i)" "keeps tenant_ok (s_update_integration i)"
  "keeps tenant_ok (s_delete_integration k)" "keeps tenant_ok (s_delete_rule k)"
  "keeps tenant_ok (s_disable_rules_by_connection k)"
proof -
  show "keeps tenant_ok (s_create_integration i)" unfolding s_create_integration_def
    by (rule keeps_tenant_store_call) (auto simp: tenant_ok_def)
  show "keeps tenant_ok (s_update_integration i)" unfolding s_update_integration_def
  proof (rule keeps_tenant_store_call)
    fix w assume t: "tenant_ok w"
    let ?js = "update_where (\<lambda>r. in_id r = in_id i) (set_integration i) (w_integrations w)"
    have "\<exists>j \<in> set ?js. in_id j = c \<and> in_project j = p"
      if "\<exists>j \<in> set (w_integrations w). in_id j = c \<and> in_project j = p" for c p
    proof -
      from that obtain j where "j \<in> set (w_integrations w)" "in_id j = c" "in_project j = p" by blast
      then have "(if in_id j = in_id i then set_integration i j else j) \<in> set ?js"
        and "in_id (if in_id j = in_id i then set_integration i j else j) = c"
        and "in_project (if in_id j = in_id i then set_integration i j else j) = p"
        by (auto simp: set_update_where set_integration_def)
      then show ?thesis by blast
    qed
    then have "tenant_ok (w\<lparr> w_integrations := ?js \<rparr>)" using t unfolding tenant_ok_def by simp
    then show "tenant_ok (snd (if \<exists>r \<in> set (w_integrations w). in_id r = in_id i \<and>
          (\<exists>j \<in> set (w_integrations w). in_id j \<noteq> in_id i \<and> same_name (set_integration i r) j)
        then (Inl Err_db, w) else (Inr (), w\<lparr> w_integrations := ?js \<rparr>)))"
      using t by simp
  qed
  show "keeps tenant_ok (s_delete_integration k)" unfolding s_delete_integration_def
  proof (rule keeps_tenant_store_call)
    fix w assume t: "tenant_ok w"
    have "\<exists>j \<in> set (w_integrations w). in_id j \<noteq> k \<and> in_id j = ar_connection r \<and> in_project j = ar_project r"
      if "r \<in> set (w_rules w)" "ar_connection r \<noteq> k" for r
      using t that unfolding tenant_ok_def by metis
    then show "tenant_ok (snd (Inr (), (delete_rules (\<lambda>r. ar_connection r = k) w)
        \<lparr> w_integrations := filter (\<lambda>j. in_id j \<noteq> k) (w_integrations w) \<rparr>))"
      by (simp add: tenant_ok_def delete_rules_def) blast
  qed
  show "keeps tenant_ok (s_delete_rule k)" unfolding s_delete_rule_def
    by (rule keeps_tenant_store_call) (simp add: tenant_ok_def delete_rules_def)
  show "keeps tenant_ok (s_disable_rules_by_connection k)" unfolding s_disable_rules_by_connection_def
    by (rule keeps_tenant_store_call) (auto simp: tenant_ok_def in_update_where)
qed

lemma query_integration_cases:
  assumes "s_query_integration i w = (r, w')"
  obtains bs err where "r = Inl err" and "w' = w\<lparr> w_faults := bs \<rparr>"
  | j bs where "r = Inr j" and "List.find (\<lambda>j. in_id j = i) (w_integrations w) = Some j"
      and "w' = w\<lparr> w_faults := bs \<rparr>"
  using assms unfolding s_query_integration_def
  by (cases rule: store_call_cases) (auto split: option.splits)

lemma alert_inv_faults [simp]: "alert_inv (w\<lparr> w_faults := bs \<rparr>) = alert_inv w"
  by (simp add: alert_inv_def)

lemma s_create_rule_inv:
  assumes "alert_inv w" and "\<exists>j \<in> set (w_integrations w). in_id j = ar_connection r \<and> in_project j = ar_project r"
  shows "alert_inv (snd (s_create_rule r w))"
proof -
  obtain x w' where x: "s_create_rule r w = (x, w')" by (cases "s_create_rule r w")
  have "world_ok w'" using keepsD [OF keeps_rule_statements(1), of w r] assms(1) x by (simp add: alert_inv_def)
  moreover have "tenant_ok w'"
  proof -
    have t: "tenant_ok w" using assms(1) by (simp add: alert_inv_def)
    have "ar_connection (with_condition r) = ar_connection r" "ar_project (with_condition r) = ar_project r"
      by (simp_all add: with_condition_def)
    then have new: "tenant_ok (w\<lparr> w_faults := bs, w_rules := w_rules w @ [with_condition r] \<rparr>)" for bs
      using assms(2) t by (simp add: tenant_ok_def)
    from x show ?thesis unfolding s_create_rule_def
      by (cases rule: store_call_cases) (use new t in \<open>auto split: if_splits\<close>)
  qed
  ultimately show ?thesis using x by (simp add: alert_inv_def)
qed

lemma keeps_inv_create_rule: "keeps alert_inv (create_rule i now nr)"
proof (rule keepsI)
  fix w assume inv: "alert_inv w"
  show "alert_inv (snd (create_rule i now nr w))"
  proof (cases "nr_level nr \<in> set valid_levels")
    case False
    then show ?thesis using inv by (simp add: create_rule_def)
  next
    case True
    obtain q w1 where q: "s_query_integration (nr_connection nr) w = (q, w1)"
      by (cases "s_query_integration (nr_connection nr) w")
    then show ?thesis
    proof (cases rule: query_integration_cases)
      case (1 bs err)
      then show ?thesis using True q inv by (simp add: create_rule_def)
    next
      case (2 j bs)
      have j: "j \<in> set (w_integrations w)" "in_id j = nr_connection nr" using find_SomeD [OF 2(2)] by auto
      have "alert_inv (snd (try_op (s_create_rule r) (\<lambda>_. ret_op r) w1))"
        if "ar_connection r = nr_connection nr" "ar_project r = nr_project nr" "in_project j = nr_project nr" for r
        using s_create_rule_inv [of w1 r] 2 j inv that
        by (cases "s_create_rule r w1") (auto simp: try_op_def split: sum.split)
      then show ?thesis
        using True q 2 inv by (auto simp: create_rule_def Let_def split: option.split)
    qed
  qed
qed

lemma s_update_rule_inv:
  assumes "alert_inv w" and "\<exists>y \<in> set (w_rules w). ar_id y = ar_id r \<and> ar_project y = ar_project r"
    and "\<exists>j \<in> set (w_integrations w). in_id j = ar_connection r \<and> in_project j = ar_project r"
  shows "alert_inv (snd (s_update_rule r w))"
proof -
  obtain x w' where x: "s_update_rule r w = (x, w')" by (cases "s_update_rule r w")
  have "world_ok w'" using keepsD [OF keeps_rule_statements(2), of w r] assms(1) x by (simp add: alert_inv_def)
  moreover have "tenant_ok w'"
  proof -
    have same: "ar_project z = ar_project r" if "z \<in> set (w_rules w)" "ar_id z = ar_id r" for z
      using assms(1,2) that unfolding alert_inv_def world_ok_def by (metis distinct_map inj_onD)
    have t: "tenant_ok w" using assms(1) by (simp add: alert_inv_def)
    have "tenant_ok (w\<lparr> w_rules := update_where (\<lambda>x. ar_id x = ar_id r) (set_rule r) (w_rules w) \<rparr>)"
      unfolding tenant_ok_def
    proof
      fix z assume "z \<in> set (w_rules (w\<lparr> w_rules := update_where (\<lambda>x. ar_id x = ar_id r) (set_rule r) (w_rules w) \<rparr>))"
      then consider y where "y \<in> set (w_rules w)" "ar_id y = ar_id r" "z = set_rule r y" | "z \<in> set (w_rules w)"
        by (auto simp: in_update_where)
      then show "\<exists>j \<in> set (w_integrations (w\<lparr> w_rules := update_where (\<lambda>x. ar_id x = ar_id r) (set_rule r) (w_rules w) \<rparr>)).
          in_id j = ar_connection z \<and> in_project j = ar_project z"
      proof cases
        case 1
        then show ?thesis using assms(3) same by (simp add: set_rule_def)
      qed (use t in \<open>simp add: tenant_ok_def\<close>)
    qed
    then have upd: "tenant_ok (w\<lparr> w_faults := bs, w_rules := update_where (\<lambda>x. ar_id x = ar_id r) (set_rule r) (w_rules w) \<rparr>)"
      for bs by (simp add: tenant_ok_def)
    from x show ?thesis unfolding s_update_rule_def
      by (cases rule: store_call_cases) (use upd t in \<open>auto split: if_splits\<close>)
  qed
  ultimately show ?thesis using x by (simp add: alert_inv_def)
qed

lemma finish_update_inv:
  assumes "alert_inv w" and "\<exists>y \<in> set (w_rules w). ar_id y = ar_id r \<and> ar_project y = ar_project r"
    and "\<exists>j \<in> set (w_integrations w). in_id j = ar_connection r \<and> in_project j = ar_project r"
  shows "alert_inv (snd (finish_update now ur r w))"
proof -
  have "alert_inv (snd (try_op (s_update_rule x) (\<lambda>_. ret_op x) w))"
    if "ar_id x = ar_id r" "ar_project x = ar_project r" "ar_connection x = ar_connection r" for x
    using s_update_rule_inv [of w x] assms that
    by (cases "s_update_rule x w") (auto simp: try_op_def split: sum.split)
  then show ?thesis
    using assms(1) by (auto simp: finish_update_def Let_def split: option.split)
qed

lemma update_rule_inv:
  assumes "alert_inv w" and "\<exists>y \<in> set (w_rules w). ar_id y = ar_id r \<and> ar_project y = ar_project r"
    and "\<exists>j \<in> set (w_integrations w). in_id j = ar_connection r \<and> in_project j = ar_project r"
  shows "alert_inv (snd (update_rule now r ur w))"
proof -
  let ?r = "r\<lparr> ar_name := given (ur_name ur) (ar_name r), ar_level := given (ur_level ur) (ar_level r) \<rparr>"
  have plain: "alert_inv (snd (finish_update now ur ?r w))"
    by (rule finish_update_inv) (use assms in auto)
  have moved: "alert_inv (snd (try_op (s_query_integration c) (\<lambda>conn.
      if in_project conn \<noteq> ar_project r then fail_op Err_connection_bad_project
      else finish_update now ur (?r\<lparr> ar_connection := c \<rparr>)) w))" for c
  proof -
    obtain q w1 where q: "s_query_integration c w = (q, w1)" by (cases "s_query_integration c w")
    then show ?thesis
    proof (cases rule: query_integration_cases)
      case (1 bs err)
      then show ?thesis using q assms(1) by simp
    next
      case (2 j bs)
      have j: "j \<in> set (w_integrations w)" "in_id j = c" using find_SomeD [OF 2(2)] by auto
      have "alert_inv (snd (finish_update now ur (?r\<lparr> ar_connection := c \<rparr>) w1))" if "in_project j = ar_project r"
        by (rule finish_update_inv) (use assms 2(3) j that in auto)
      then show ?thesis using q 2 assms(1) by simp
    qed
  qed
  show ?thesis
    using plain moved assms(1) by (auto simp: update_rule_def Let_def split: option.split)
qed


lemma keeps_inv_handle: "keeps alert_inv (handle callers pu q)"
proof -
  have i: "keeps alert_inv (ignore m)" if "keeps alert_inv m" for m :: "'a alert_op"
    using that unfolding ignore_def by (intro keeps_try keeps_ret)
  note st = keeps_inv [OF keeps_integration_statements(1) keeps_tenant_statements(1)]
    keeps_inv [OF keeps_integration_statements(2) keeps_tenant_statements(2)]
    keeps_inv [OF keeps_delete(2) keeps_tenant_statements(3)]
    keeps_inv [OF keeps_delete(1) keeps_tenant_statements(4)]
    keeps_inv [OF keeps_rule_statements(3) keeps_tenant_statements(5)]
    keeps_inv_statements
  show ?thesis
  proof (cases q)
    case (Update_rule now k ur)
    have "alert_inv (snd (ignore (update_rule now r ur) w1))"
      if "alert_inv w1" "List.find (\<lambda>r. ar_id r = k) (w_rules w1) = Some row" "r = with_condition row" for w1 r row
    proof -
      from find_SomeD [OF that(2)] have row: "row \<in> set (w_rules w1)" "ar_id row = k" by auto
      have r: "ar_id r = ar_id row" "ar_project r = ar_project row" "ar_connection r = ar_connection row"
        using that(3) by (simp_all add: with_condition_def)
      have "\<exists>j \<in> set (w_integrations w1). in_id j = ar_connection r \<and> in_project j = ar_project r"
        using that(1) row r by (simp add: alert_inv_def tenant_ok_def)
      with that(1) row r have "alert_inv (snd (update_rule now r ur w1))" by (intro update_rule_inv) auto
      then show ?thesis by (cases "update_rule now r ur w1") (auto simp: ignore_def try_op_def split: sum.split)
    qed
    then have "alert_inv (snd (handle callers pu q w))" if "alert_inv w" for w
      using that unfolding Update_rule
      by (cases "s_query_rule_by_id k w")
        (auto simp: try_op_def s_query_rule_by_id_def store_call_def split: list.splits option.splits if_splits)
    then show ?thesis by (simp add: keeps_def)
  next
    case (Evaluate_thresholds counter now)
    have "keeps alert_inv (\<lambda>w. case evaluate_rules callers pu counter now Map.empty 0 rules w of
         (fired, w) \<Rightarrow> (Inr fired, w))" for rules
      using evaluate_rules_inv by (simp add: keeps_def split_beta)
    then show ?thesis
      using Evaluate_thresholds by (auto simp: evaluate_thresholds_def intro!: i keeps_try st)
  next
    case (Create_rule k now nr)
    then show ?thesis by (simp add: i keeps_inv_create_rule)
  next
    case (Fire_alerts project ps now)
    then show ?thesis by (simp add: keeps_inv_fire)
  qed (auto simp: create_integration_def update_integration_op_def disable_integration_def
      delete_integration_op_def test_integration_def delete_rule_def acknowledge_alert_def resolve_alert_def
      create_maintenance_window_def delete_maintenance_window_def Let_def
      intro!: i keeps_try keeps_case st keeps_inv_leaves [OF leaves_provider_send(2,1)])
qed

lemma alert_inv_run: "alert_inv (alert_run callers parse_uuid qs (empty_world faults accepts))"
proof -
  have "alert_inv (alert_run callers parse_uuid qs w)" if "alert_inv w" for w
    using that
  proof (induction qs arbitrary: w)
    case (Cons q qs)
    then show ?case using keepsD [OF keeps_inv_handle Cons.prems] by simp
  qed simp
  moreover have "alert_inv (empty_world faults accepts)"
    using world_ok_empty by (simp add: alert_inv_def tenant_ok_def empty_world_def)
  ultimately show ?thesis by blast
qed

text \<open>
  C1: the invariant of the alerting tables holds in every reachable world. Whatever requests are
  handled, in whatever order, with whatever faults of the database and refusals of providers: there
  is at most one open event per rule and dedup key, identifiers are distinct, the state of an event
  agrees with its timestamps, no event or rule is an orphan, names are unique in a project, and
  every rule routes to a connection of its own project.
\<close>

theorem alert_world_invariant:
  "alert_inv (alert_run callers parse_uuid qs (empty_world faults accepts))"
  by (rule alert_inv_run)

theorem alert_world_invariant_witness:
  "alert_inv (alert_run (\<lambda>_. True) (\<lambda>_. None)
     [Create_integration 1 5 \<lparr> ni_org = 10, ni_project = 20, ni_provider = ''slack'', ni_name = ''ops'', ni_credentials = Map.empty \<rparr>,
      Fire_alerts 20 [sample_payload] 7] (empty_world [False, True] []))"
  by (rule alert_world_invariant)


subsection \<open>Deliveries stay in the project\<close>

definition delivered_within :: "uuid \<Rightarrow> alert_world \<Rightarrow> alert_world \<Rightarrow> bool" where
  "delivered_within project w w' \<longleftrightarrow>
     (\<exists>new. w_outbox w' = w_outbox w @ new \<and>
        (\<forall>(j, p) \<in> set new. j \<in> set (w_integrations w) \<and> in_project j = project \<and> in_enabled j))"

lemma delivered_within_refl [simp]: "delivered_within project w w"
  by (simp add: delivered_within_def)

lemma delivered_within_trans:
  "delivered_within project w w' \<Longrightarrow> same_tables w w' \<Longrightarrow> delivered_within project w' w'' \<Longrightarrow>
    delivered_within project w w''"
  unfolding delivered_within_def same_tables_def by (auto simp: ball_Un)

lemma same_outbox_within: "w_outbox w' = w_outbox w \<Longrightarrow> delivered_within project w w'"
  by (auto simp: delivered_within_def)

definition routed :: "uuid \<Rightarrow> alert_rule \<Rightarrow> alert_world \<Rightarrow> bool" where
  "routed project rule w \<longleftrightarrow> distinct (map in_id (w_integrations w)) \<and>
     (\<exists>j \<in> set (w_integrations w). in_id j = ar_connection rule \<and> in_project j = project)"

lemma raise_within:
  assumes "routed project rule w" and "raise callers pu rule rep matched windows now w = (r, w')"
  shows "delivered_within project w w'"
  using assms(2)
proof (cases rule: raise_cases)
  case Delivered
  then obtain j p where j: "List.find (\<lambda>j. in_id j = ar_connection rule) (w_integrations w) = Some j"
    "in_enabled j" "w_outbox w' = w_outbox w @ [(j, p)]" by (auto simp: delivered_through_def)
  from assms(1) obtain k where k: "k \<in> set (w_integrations w)" "in_id k = ar_connection rule"
    "in_project k = project" "distinct (map in_id (w_integrations w))" by (auto simp: routed_def)
  from find_SomeD [OF j(1)] k have "j = k" by (metis distinct_map inj_onD)
  then show ?thesis using j k by (simp add: delivered_within_def)
qed (simp_all add: same_outbox_within)

lemma fire_rule_within:
  assumes "routed project rule w"
  shows "delivered_within project w (snd (fire_rule callers pu ps windows now rule w))"
    and "same_tables w (snd (fire_rule callers pu ps windows now rule w))"
proof -
  have "delivered_within project w (snd (raise callers pu rule rep n windows now w)) \<and>
      same_tables w (snd (raise callers pu rule rep n windows now w))" for rep n
    using raise_within [OF assms] raise_same_tables by (metis prod.collapse)
  then show "delivered_within project w (snd (fire_rule callers pu ps windows now rule w))"
    and "same_tables w (snd (fire_rule callers pu ps windows now rule w))"
    by (auto simp: fire_rule_def split: prod.split)
qed

lemma fire_rules_within:
  assumes "\<forall>rule \<in> set rules. routed project rule w"
  shows "delivered_within project w (snd (each_op (fire_rule callers pu ps windows now) rules w))"
  using assms
proof (induction rules arbitrary: w)
  case (Cons rule rules)
  let ?w = "snd (fire_rule callers pu ps windows now rule w)"
  have one: "delivered_within project w ?w" "same_tables w ?w"
    using fire_rule_within Cons.prems by auto
  then have "\<forall>rule \<in> set rules. routed project rule ?w"
    using Cons.prems by (simp add: routed_def same_tables_def)
  with Cons.IH one show ?case by (auto intro: delivered_within_trans)
qed simp

lemma fire_alerts_within:
  assumes "alert_inv w"
  shows "delivered_within project w (snd (fire_alerts callers pu project ps now w))"
proof (cases "ps = []")
  case True
  then show ?thesis by (simp add: fire_alerts_def)
next
  case False
  let ?all = "map with_condition (filter (\<lambda>r. ar_project r = project \<and> ar_is_active r) (w_rules w))"
  have routed: "\<forall>rule \<in> set ?all. routed project rule (w\<lparr> w_faults := bs \<rparr>)" for bs
    using assms by (auto simp: routed_def alert_inv_def tenant_ok_def world_ok_def names_ok_def with_condition_def)
  have base: "delivered_within project w w'" if "delivered_within project (w\<lparr> w_faults := bs \<rparr>) w'" for bs w'
    using that by (simp add: delivered_within_def)
  obtain q w1 where q: "s_query_active_rules project w = (q, w1)" by (cases "s_query_active_rules project w")
  then have "\<exists>bs. w1 = w\<lparr> w_faults := bs \<rparr> \<and> (q = Inl Err_db \<or> q = Inr ?all)"
    unfolding s_query_active_rules_def by (cases rule: store_call_cases) auto
  then obtain bs where w1: "w1 = w\<lparr> w_faults := bs \<rparr>" "q = Inl Err_db \<or> q = Inr ?all" by blast
  show ?thesis
  proof (cases "q = Inl Err_db \<or> ?all = []")
    case True
    then have "snd (fire_alerts callers pu project ps now w) = w1"
      using False q w1(2) by (auto simp: fire_alerts_def try_op_def split: list.split)
    then show ?thesis using w1(1) by (simp add: same_outbox_within)
  next
    case all: False
    then obtain rule rest where rules: "?all = rule # rest" by (cases ?all) auto
    obtain m w2 where m: "s_query_active_maintenance (ar_org rule) now w1 = (m, w2)"
      by (cases "s_query_active_maintenance (ar_org rule) now w1")
    then obtain cs where w2: "w2 = w1\<lparr> w_faults := cs \<rparr>"
      unfolding s_query_active_maintenance_def by (cases rule: store_call_cases) auto
    have "snd (fire_alerts callers pu project ps now w) =
        snd (each_op (fire_rule callers pu ps (case m of Inl _ \<Rightarrow> [] | Inr ws \<Rightarrow> ws) now) ?all w2)"
      using False q w1(2) all m rules
      by (auto simp: fire_alerts_def try_op_def case_op_def split: sum.split)
    also have "delivered_within project (w\<lparr> w_faults := cs \<rparr>) \<dots>"
      using fire_rules_within [OF routed] w1(1) w2 by simp
    finally show ?thesis by (rule base)
  qed
qed

text \<open>
  C6: logs of a project page only that project's connections. In every reachable world, whatever
  ingesting a batch delivers goes through enabled integrations of the project the logs belong to,
  after what was delivered before.
\<close>

theorem deliveries_stay_in_project:
  "let w = alert_run callers parse_uuid qs (empty_world faults accepts)
   in \<exists>new. w_outbox (snd (fire_alerts callers parse_uuid project payloads now w)) = w_outbox w @ new
    \<and> (\<forall>(j, p) \<in> set new. j \<in> set (w_integrations w) \<and> in_project j = project \<and> in_enabled j)"
  using fire_alerts_within [unfolded delivered_within_def] alert_inv_run
  by (simp add: Let_def)


text \<open>Two projects with a connection and a rule each: logs of the first page only the first.\<close>

definition paging_requests :: "alert_request list" where
  "paging_requests =
     [Create_integration 1 5 \<lparr> ni_org = 10, ni_project = 20, ni_provider = ''slack'', ni_name = ''ops'', ni_credentials = Map.empty \<rparr>,
      Create_integration 2 5 \<lparr> ni_org = 10, ni_project = 21, ni_provider = ''slack'', ni_name = ''dev'', ni_credentials = Map.empty \<rparr>,
      Create_rule 3 6 \<lparr> nr_org = 10, nr_project = 20, nr_connection = 1, nr_user = 5, nr_name = ''errors'', nr_level = lv_error,
        nr_condition = level_condition lv_error, nr_dedup_window_seconds = 300, nr_is_active = True \<rparr>,
      Create_rule 4 6 \<lparr> nr_org = 10, nr_project = 21, nr_connection = 2, nr_user = 5, nr_name = ''errors'', nr_level = lv_error,
        nr_condition = level_condition lv_error, nr_dedup_window_seconds = 300, nr_is_active = True \<rparr>]"


lemma paging_pages:
  "map (in_id \<circ> fst) (w_outbox (snd (fire_alerts (\<lambda>_. True) (\<lambda>_. None) 20 [sample_payload] 7
     (alert_run (\<lambda>_. True) (\<lambda>_. None) paging_requests (empty_world [] []))))) = [1]"
  by code_simp

theorem deliveries_stay_in_project_witness:
  "let w = alert_run (\<lambda>_. True) (\<lambda>_. None) paging_requests (empty_world [] []);
       w' = snd (fire_alerts (\<lambda>_. True) (\<lambda>_. None) 20 [sample_payload] 7 w)
   in map (in_id \<circ> fst) (w_outbox w') = [1] \<and>
     (\<exists>new. w_outbox w' = w_outbox w @ new
      \<and> (\<forall>(j, p) \<in> set new. j \<in> set (w_integrations w) \<and> in_project j = 20 \<and> in_enabled j))"
  using paging_pages deliveries_stay_in_project [of "\<lambda>_. True" "\<lambda>_. None" paging_requests "[]" "[]" 20 "[sample_payload]" 7]
  unfolding Let_def by blast


subsection \<open>Thresholds recover\<close>

text \<open>A firing of one rule opens nothing for another.\<close>

lemma raise_opens_only_own:
  assumes "world_ok w" and "find_open i key (w_events w) = None" and "i \<noteq> ar_id rule"
    and "raise callers pu rule rep matched windows now w = (r, w')"
  shows "find_open i key (w_events w') = None"
proof -
  let ?e = "firing_event pu rule rep matched now"
  let ?u = "upsert_event (w_fresh w) ?e (w_events w)"
  have ok: "events_ok (w_fresh w) (w_events w)" using assms(1) by (simp add: world_ok_def)
  have "ae_rule ?e = ar_id rule" by (simp add: firing_event_def)
  then have u: "find_open i key (snd ?u) = None"
    using find_open_upsert [OF ok, of i key ?e] assms(2,3) by simp
  have m: "find_open i key (mark_row j t (snd ?u)) = None" for j t
    using find_open_mark [OF events_ok_upsert [OF ok, of ?e], of i key j t] u by simp
  from assms(4) show ?thesis by (cases rule: raise_cases) (use u m assms(2) in auto)
qed

lemma raise_keeps_no_faults:
  assumes "w_faults w = []" and "raise callers pu rule rep matched windows now w = (r, w')"
  shows "w_faults w' = []"
proof -
  have k: "w_faults (snd (store_call f v)) = []" if "w_faults v = []" "\<And>v. w_faults (snd (f v)) = w_faults v"
    for f :: "'b alert_op" and v
    using that by simp
  have "keeps (\<lambda>w. w_faults w = []) (raise callers pu rule rep matched windows now)"
    unfolding raise_def record_and_notify_def send_alert_def
    by (intro keeps_case keeps_try)
      (auto simp: keeps_def s_query_open_event_def s_record_firing_def s_query_integration_def
        s_mark_notified_def provider_send_def ret_op_def fail_op_def try_op_def split_beta split: option.split list.split sum.split)
  then show ?thesis using keepsD [of _ _ w] assms by fastforce
qed

lemma resolve_open_closes:
  fixes rule now
  assumes "world_ok w" and "w_faults w = []"
  defines "w' \<equiv> snd (resolve_open rule now w)" and "key \<equiv> dedup_key (ar_condition rule) []"
  shows "find_open (ar_id rule) key (w_events w') = None" and "w_faults w' = []"
    and "find_open i k (w_events w) = None \<Longrightarrow> find_open i k (w_events w') = None"
proof -
  have ok: "events_ok (w_fresh w) (w_events w)" using assms(1) by (simp add: world_ok_def)
  have ev: "w_events w' = (case find_open (ar_id rule) key (w_events w) of None \<Rightarrow> w_events w
      | Some e \<Rightarrow> resolve_row (ae_id e) now (w_events w)) \<and> w_faults w' = []"
    using assms(2)
    by (simp add: w'_def key_def resolve_open_def case_op_def s_query_open_event_def s_resolve_event_def
        split: option.split)
  then show "w_faults w' = []" by simp
  show "find_open (ar_id rule) key (w_events w') = None"
    using ev find_open_resolve [OF ok, of "ar_id rule" key]
    by (cases "find_open (ar_id rule) key (w_events w)") auto
  show "find_open i k (w_events w') = None" if "find_open i k (w_events w) = None"
    using ev find_open_resolve [OF ok, of i k] that
    by (cases "find_open (ar_id rule) key (w_events w)") auto
qed

lemma cached_windows_events:
  assumes "w_faults w = []" and "cached_windows cache org now w = (ws, cache', w')"
  shows "w' = w"
  using assms by (auto simp: cached_windows_def s_query_active_maintenance_def split: option.splits)

abbreviation threshold_open :: "uuid \<Rightarrow> alert_world \<Rightarrow> bool" where
  "threshold_open i w \<equiv> find_open i ''threshold'' (w_events w) \<noteq> None"

text \<open>One rule of the loop, as a step on the world.\<close>

lemma evaluate_rules_step:
  assumes "world_ok w" and "w_faults w = []"
  obtains cache' fired' w' where "evaluate_rules callers pu counter now cache fired (rule # rules) w =
      evaluate_rules callers pu counter now cache' fired' rules w'"
    and "world_ok w'" and "w_faults w' = []"
    and "\<And>i. i \<noteq> ar_id rule \<Longrightarrow> \<not> threshold_open i w \<Longrightarrow> \<not> threshold_open i w'"
    and "\<And>q m. c_type (ar_condition rule) = condition_threshold \<Longrightarrow> c_query (ar_condition rule) = Some q \<Longrightarrow>
      counter (ar_project rule) q (now - condition_window (ar_condition rule)) now = Some m \<Longrightarrow>
      \<not> satisfied (ar_condition rule) m \<Longrightarrow> \<not> threshold_open (ar_id rule) w'"
proof -
  let ?c = "ar_condition rule"
  let ?n = "counter (ar_project rule) (the (c_query ?c)) (now - condition_window ?c) now"
  show ?thesis
  proof (cases "c_type ?c = condition_threshold \<and> c_query ?c \<noteq> None \<and> ?n \<noteq> None")
    case False
    show ?thesis
      by (rule that [of cache fired w]) (use False assms in \<open>auto simp: Let_def split: option.split\<close>)
  next
    case True
    then obtain q m where q: "c_query ?c = Some q" "c_type ?c = condition_threshold" "?n = Some m" by auto
    have key: "dedup_key ?c l = ''threshold''" for l using q(2) by (simp add: dedup_key_def)
    show ?thesis
    proof (cases "satisfied ?c m")
      case False
      note cl = resolve_open_closes [OF assms, where rule = rule and now = now]
      have "world_ok (snd (resolve_open rule now w))"
        by (rule keepsD [where P = world_ok, OF _ assms(1)])
          (auto simp: resolve_open_def intro!: keeps_case keeps_statements)
      then show ?thesis
        by (intro that [of cache fired "snd (resolve_open rule now w)"]) (use False q cl key in auto)
    next
      case sat: True
      obtain ws cache' w1 where cw: "cached_windows cache (ar_org rule) now w = (ws, cache', w1)"
        by (rule prod_cases3)
      have w1: "w1 = w" using cached_windows_events [OF assms(2) cw] .
      obtain r w2 where r: "raise callers pu rule (threshold_payload rule q m now) m ws now w = (r, w2)"
        by (cases "raise callers pu rule (threshold_payload rule q m now) m ws now w")
      have "world_ok w2" using keepsD [OF keeps_raise assms(1)] r by (metis snd_conv)
      moreover have "w_faults w2 = []" using raise_keeps_no_faults [OF assms(2) r] .
      moreover have "\<not> threshold_open i w2" if "i \<noteq> ar_id rule" "\<not> threshold_open i w" for i
        using raise_opens_only_own [OF assms(1) _ that(1) r] that(2) by simp
      ultimately show ?thesis
        by (intro that [of cache' "case r of Inl _ \<Rightarrow> fired | Inr _ \<Rightarrow> fired + 1" w2])
          (use sat q cw w1 r in \<open>auto simp: Let_def split: sum.split\<close>)
    qed
  qed
qed

lemma evaluate_rules_recovers:
  assumes "world_ok w" and "w_faults w = []" and "distinct (map ar_id rules)"
    and "rule \<in> set rules" and "c_type (ar_condition rule) = condition_threshold"
    and "c_query (ar_condition rule) = Some q"
    and "counter (ar_project rule) q (now - condition_window (ar_condition rule)) now = Some m"
    and "\<not> satisfied (ar_condition rule) m"
  shows "\<not> threshold_open (ar_id rule) (snd (evaluate_rules callers pu counter now cache fired rules w))"
proof -
  have stays: "\<not> threshold_open i (snd (evaluate_rules callers pu counter now cache fired rules w))"
    if "world_ok w" "w_faults w = []" "\<not> threshold_open i w" "i \<notin> ar_id ` set rules" for i rules cache fired w
    using that
  proof (induction rules arbitrary: cache fired w)
    case (Cons x xs)
    then show ?case by (rule_tac evaluate_rules_step [of w callers pu counter now cache fired x xs]) auto
  qed simp
  show ?thesis using assms(1-4)
  proof (induction rules arbitrary: cache fired w)
    case (Cons x xs)
    obtain cache' fired' w' where s: "evaluate_rules callers pu counter now cache fired (x # xs) w =
        evaluate_rules callers pu counter now cache' fired' xs w'" "world_ok w'" "w_faults w' = []"
      and closes: "\<And>q m. c_type (ar_condition x) = condition_threshold \<Longrightarrow> c_query (ar_condition x) = Some q \<Longrightarrow>
        counter (ar_project x) q (now - condition_window (ar_condition x)) now = Some m \<Longrightarrow>
        \<not> satisfied (ar_condition x) m \<Longrightarrow> \<not> threshold_open (ar_id x) w'"
      using evaluate_rules_step [OF Cons.prems(1,2), of callers pu counter now cache fired x xs] by metis
    show ?case
    proof (cases "rule = x")
      case True
      then have "\<not> threshold_open (ar_id rule) w'" using closes assms(5-8) by blast
      with True s Cons.prems(3) stays [of w' "ar_id rule" xs] show ?thesis by simp
    next
      case False
      with Cons.IH [OF s(2,3)] Cons.prems s(1) show ?thesis by simp
    qed
  qed simp
qed

text \<open>
  C9: thresholds recover. With a database that answers, after a pass of the evaluator an active
  threshold rule whose count over its window is under its threshold has no open alert under the key of
  thresholds, so that its next breach is a new alert. An alert that is open under another key, from
  before the rule was made a threshold, is not looked at.
\<close>

theorem threshold_recovers:
  assumes "world_ok w" and "w_faults w = []"
    and "rule \<in> set (w_rules w)" and "ar_is_active rule"
    and "c_type (ar_condition rule) = condition_threshold" and "c_query (ar_condition rule) = Some q"
    and "counter (ar_project rule) q (now - condition_window (ar_condition rule)) now = Some m"
    and "\<not> satisfied (ar_condition rule) m"
  shows "find_open (ar_id rule) ''threshold''
    (w_events (snd (evaluate_thresholds callers parse_uuid counter now w))) = None"
proof -
  let ?rs = "map with_condition (filter (\<lambda>r. ar_is_active r \<and> c_type (ar_condition r) = condition_threshold) (w_rules w))"
  have id: "with_condition r = r" if "r \<in> set (w_rules w)" for r
    using assms(1) that by (simp add: world_ok_def with_condition_def)
  have ids: "map ar_id ?rs = map ar_id (filter (\<lambda>r. ar_is_active r \<and> c_type (ar_condition r) = condition_threshold) (w_rules w))"
    by (auto simp: id)
  have "distinct (map ar_id ?rs)" unfolding ids
    using assms(1) by (simp add: world_ok_def distinct_map_filter)
  moreover have "rule \<in> set ?rs" using assms(3-5) id by force
  ultimately have "\<not> threshold_open (ar_id rule)
      (snd (evaluate_rules callers parse_uuid counter now Map.empty 0 ?rs w))"
    using evaluate_rules_recovers [where q = q and m = m and rule = rule] assms by blast
  moreover have "snd (evaluate_thresholds callers parse_uuid counter now w) =
      snd (evaluate_rules callers parse_uuid counter now Map.empty 0 ?rs w)"
    using assms(2) by (simp add: evaluate_thresholds_def try_op_def s_query_threshold_rules_def split_beta)
  ultimately show ?thesis by simp
qed


definition sample_threshold :: alert_rule where
  "sample_threshold = sample_rule\<lparr> ar_condition := \<lparr> c_type = condition_threshold, c_level = [],
     c_query = Some \<lparr> q_levels = [lv_error], q_contains = [], q_source = [] \<rparr>, c_window_seconds = 60,
     c_count = 20, c_comparator = comparator_gte \<rparr> \<rparr>"

definition sample_breach :: alert_world where
  "sample_breach = sample_world\<lparr> w_rules := [sample_threshold], w_fresh := 1,
     w_events := [new_event 0 (firing_event (\<lambda>_. None) sample_threshold sample_payload 25 1000)] \<rparr>"

theorem threshold_recovers_witness:
  "find_open (ar_id sample_threshold) ''threshold'' (w_events sample_breach) \<noteq> None
   \<and> find_open (ar_id sample_threshold) ''threshold''
      (w_events (snd (evaluate_thresholds (\<lambda>_. True) (\<lambda>_. None) (\<lambda>_ _ _ _. Some 3) go_hour sample_breach))) = None"
proof
  show "find_open (ar_id sample_threshold) ''threshold'' (w_events sample_breach) \<noteq> None"
    by (simp add: sample_breach_def find_open_def firing_event_def dedup_key_def sample_threshold_def
        condition_threshold_def)
  have "at_most_one p [x]" for p :: "alert_event \<Rightarrow> bool" and x by (simp add: at_most_one_def)
  then have "world_ok sample_breach"
    by (simp add: world_ok_def sample_breach_def events_ok_def references_ok_def names_ok_def firing_event_def
        sample_threshold_def sample_rule_def sample_integration_def condition_threshold_def)
  then show "find_open (ar_id sample_threshold) ''threshold''
      (w_events (snd (evaluate_thresholds (\<lambda>_. True) (\<lambda>_. None) (\<lambda>_ _ _ _. Some 3) go_hour sample_breach))) = None"
    by (rule threshold_recovers [where m = 3])
      (auto simp: sample_breach_def sample_threshold_def satisfied_def condition_consts sample_rule_def)
qed

subsection \<open>A delivery through a disabled connection\<close>

text \<open>
  \<open>SendAlert\<close> returns without an error when the connection is disabled, and \<open>raise\<close> then marks the
  event as notified, though nothing was handed to a provider. Disabling a connection through an
  update leaves its rules active, so the alert stays silent for its dedup window even once the
  connection is enabled again.
\<close>

lemma disabled_connection_counts_as_notified:
  "let w = sample_world\<lparr> w_integrations := [sample_integration\<lparr> in_enabled := False \<rparr>] \<rparr>;
     (r, w') = raise (\<lambda>_. True) (\<lambda>_. None) sample_rule sample_payload 1 [] 1000 w
   in r = Inr () \<and> w_outbox w' = []
    \<and> map ae_last_notified_at (w_events w') = [Some 1000]"
proof -
  let ?w = "sample_world\<lparr> w_integrations := [sample_integration\<lparr> in_enabled := False \<rparr>] \<rparr>"
  have "raise_decides sample_rule sample_payload [] 1000 ?w"
    by (simp add: raise_decides_def find_open_def should_notify_def firing_input_def sample_rule_def)
  then have "raise (\<lambda>_. True) (\<lambda>_. None) sample_rule sample_payload 1 [] 1000 ?w =
      (Inr (), ?w\<lparr> w_fresh := 1, w_events := mark_row 0 1000
        [new_event 0 (firing_event (\<lambda>_. None) sample_rule sample_payload 1 1000)] \<rparr>)"
    by (subst raise_no_faults)
      (simp_all add: Let_def send_alert_def s_query_integration_def try_op_def sample_integration_def
        sample_rule_def s_mark_notified_def upsert_event_def find_open_def)
  then show ?thesis by (simp add: Let_def mark_row_def)
qed

end
