(* ===== verification/Utf8.thy ===== *)
theory Utf8
  imports GoLib
begin

text \<open>
  What the source uses of \<open>unicode/utf8\<close>, and the cut of a string that keeps it valid:
  \<open>clienterrorbus.truncate\<close> (\<open>business/domain/clienterrorbus/scrub.go\<close>). A Go string is a list of
  bytes that need not be valid UTF-8; PostgreSQL refuses one that is not.
\<close>

subsection \<open>Runes\<close>

definition cont_byte :: "char \<Rightarrow> bool" where
  "cont_byte c \<longleftrightarrow> 128 \<le> byte_of c \<and> byte_of c \<le> 191"

definition second_byte :: "nat \<Rightarrow> char \<Rightarrow> bool" where
  "second_byte x b \<longleftrightarrow> cont_byte b \<and>
     (x = 224 \<longrightarrow> 160 \<le> byte_of b) \<and> (x = 237 \<longrightarrow> byte_of b \<le> 159) \<and>
     (x = 240 \<longrightarrow> 144 \<le> byte_of b) \<and> (x = 244 \<longrightarrow> byte_of b \<le> 143)"

text \<open>The width of the rune a string starts with; \<open>None\<close> is \<open>DecodeRune\<close>'s \<open>RuneError\<close> of size at most 1.\<close>

fun rune_width :: "string \<Rightarrow> nat option" where
  "rune_width [] = None"
| "rune_width (a # s) =
     (if byte_of a < 128 then Some 1
      else if byte_of a < 194 then None
      else if byte_of a < 224 then
        (case s of b # _ \<Rightarrow> if cont_byte b then Some 2 else None | _ \<Rightarrow> None)
      else if byte_of a < 240 then
        (case s of b # c # _ \<Rightarrow> if second_byte (byte_of a) b \<and> cont_byte c then Some 3 else None | _ \<Rightarrow> None)
      else if byte_of a < 245 then
        (case s of b # c # d # _ \<Rightarrow>
            if second_byte (byte_of a) b \<and> cont_byte c \<and> cont_byte d then Some 4 else None | _ \<Rightarrow> None)
      else None)"

text \<open>\<open>RuneStart\<close> of a byte, and whether \<open>DecodeLastRune\<close> finds a complete rune at the end.\<close>

definition rune_start :: "char \<Rightarrow> bool" where
  "rune_start c \<longleftrightarrow> \<not> cont_byte c"

definition last_rune_ok :: "string \<Rightarrow> bool" where
  "last_rune_ok s \<longleftrightarrow> s \<noteq> [] \<and>
     (byte_of (last s) < 128 \<or>
      (case List.find (\<lambda>k. k \<le> length s \<and> rune_start (s ! (length s - k))) [2, 3, 4] of
         None \<Rightarrow> False
       | Some k \<Rightarrow> rune_width (drop (length s - k) s) = Some k))"

function trim_partial :: "string \<Rightarrow> string" where
  "trim_partial s = (if s = [] \<or> last_rune_ok s then s else trim_partial (butlast s))"
  by auto
termination by (relation "measure length") auto

declare trim_partial.simps [simp del]

definition ellipsis :: string where
  "ellipsis = map char_of [226, 128, 166 :: nat]"

definition truncate_text :: "string \<Rightarrow> nat \<Rightarrow> string" where
  "truncate_text s n =
     (if length s \<le> n then s else trim_partial (take n s) @ ellipsis @ ''[truncated]'')"

subsection \<open>Valid strings\<close>

function valid_utf8 :: "string \<Rightarrow> bool" where
  "valid_utf8 s = (s = [] \<or> (case rune_width s of None \<Rightarrow> False | Some n \<Rightarrow> valid_utf8 (drop n s)))"
  by auto
termination
proof (relation "measure length", goal_cases)
  case (2 s n)
  then show ?case by (cases s) (auto split: if_splits list.splits)
qed simp

declare valid_utf8.simps [simp del]

definition is_rune :: "string \<Rightarrow> bool" where
  "is_rune r \<longleftrightarrow> rune_width r = Some (length r)"

lemma rune_width_bounds: "rune_width s = Some n \<Longrightarrow> 0 < n \<and> n \<le> 4 \<and> n \<le> length s"
  by (cases s) (auto split: if_splits list.splits)

lemma rune_width_append: "rune_width r = Some n \<Longrightarrow> rune_width (r @ s) = Some n"
  by (cases r) (auto split: if_splits list.splits)

lemma rune_width_take: "rune_width s = Some n \<Longrightarrow> is_rune (take n s)"
  by (cases s) (auto simp: is_rune_def split: if_splits list.splits)

lemma is_rune_length: "is_rune r \<Longrightarrow> 0 < length r \<and> length r \<le> 4"
  using rune_width_bounds by (auto simp: is_rune_def)

lemma valid_utf8_Nil [simp]: "valid_utf8 []"
  by (simp add: valid_utf8.simps)

lemma valid_utf8_rune: "is_rune r \<Longrightarrow> valid_utf8 (r @ s) \<longleftrightarrow> valid_utf8 s"
  using rune_width_append [of r "length r" s] is_rune_length [of r]
  by (subst valid_utf8.simps) (auto simp: is_rune_def)

lemma valid_utf8_induct [consumes 1, case_names Nil Rune]:
  assumes "valid_utf8 s" and "P []"
    and "\<And>r s. is_rune r \<Longrightarrow> valid_utf8 s \<Longrightarrow> P s \<Longrightarrow> P (r @ s)"
  shows "P s"
  using assms(1)
proof (induction s rule: valid_utf8.induct)
  case (1 s)
  show ?case
  proof (cases "s = []")
    case False
    with 1(2) obtain n where n: "rune_width s = Some n" "valid_utf8 (drop n s)"
      by (auto simp: valid_utf8.simps [of s] split: option.splits)
    then have "P (take n s @ drop n s)" using 1(1) False by (intro assms(3) rune_width_take) auto
    then show ?thesis by simp
  qed (use assms(2) in simp)
qed

lemma valid_utf8_append: "valid_utf8 s \<Longrightarrow> valid_utf8 (s @ t) \<longleftrightarrow> valid_utf8 t"
  by (induction s rule: valid_utf8_induct) (simp_all add: valid_utf8_rune)

lemma valid_utf8_ascii: "(\<And>c. c \<in> set s \<Longrightarrow> byte_of c < 128) \<Longrightarrow> valid_utf8 s"
proof (induction s)
  case (Cons c s)
  then have "is_rune [c]" "valid_utf8 s" by (simp_all add: is_rune_def)
  then show ?case using valid_utf8_rune [of "[c]" s] by simp
qed simp

text \<open>A valid string ends with a rune, and its other bytes are a valid string.\<close>

lemma valid_utf8_last:
  assumes "valid_utf8 s" and "s \<noteq> []"
  obtains t r where "s = t @ r" and "valid_utf8 t" and "is_rune r"
proof -
  have "\<exists>t r. s = t @ r \<and> valid_utf8 t \<and> is_rune r"
    using assms
  proof (induction s rule: valid_utf8_induct)
    case (Rune r s)
    show ?case
    proof (cases "s = []")
      case True
      with Rune(1) show ?thesis by (intro exI [of _ "[]"] exI [of _ r]) simp
    next
      case False
      with Rune obtain t q where "s = t @ q" "valid_utf8 t" "is_rune q" by blast
      with Rune(1) show ?thesis by (intro exI [of _ "r @ t"] exI [of _ q]) (simp add: valid_utf8_rune)
    qed
  qed simp
  with that show thesis by blast
qed

subsection \<open>The cut\<close>

text \<open>The bytes of a rune: the first starts it, the others continue it.\<close>

lemma rune_shape:
  assumes "is_rune r"
  shows "rune_start (r ! 0)" and "\<And>i. 0 < i \<Longrightarrow> i < length r \<Longrightarrow> cont_byte (r ! i)"
    and "1 < length r \<Longrightarrow> 128 \<le> byte_of (r ! 0)"
  using assms
  by (cases r; force simp: is_rune_def rune_start_def cont_byte_def second_byte_def nth_Cons
      split: if_splits list.splits nat.splits)+

text \<open>The start that \<open>DecodeLastRune\<close> looks for.\<close>

lemma find_start:
  assumes "List.find (\<lambda>k. k \<le> n \<and> Q k) [2, 3, 4 :: nat] = Some k"
  shows "k \<in> {2, 3, 4} \<and> k \<le> n \<and> Q k" and "\<And>j. 2 \<le> j \<Longrightarrow> j < k \<Longrightarrow> \<not> Q j"
proof -
  show k: "k \<in> {2, 3, 4} \<and> k \<le> n \<and> Q k" using find_SomeD [OF assms] by auto
  fix j assume j: "2 \<le> j" "j < k"
  with k consider "j = 2" | "j = 3" "k = 4" by fastforce
  then show "\<not> Q j"
  proof cases
    case 1
    then show ?thesis using assms k j by (auto split: if_splits)
  next
    case 2
    then show ?thesis using assms k by (auto split: if_splits)
  qed
qed

lemma find_startI:
  assumes "2 \<le> k" and "k \<le> 4" and "k \<le> n" and "Q k" and "\<And>j. 2 \<le> j \<Longrightarrow> j < k \<Longrightarrow> \<not> Q j"
  shows "List.find (\<lambda>k. k \<le> n \<and> Q k) [2, 3, 4 :: nat] = Some k"
proof -
  from assms(1,2) consider "k = 2" | "k = 3" | "k = 4" by linarith
  then show ?thesis using assms(3-5) by cases auto
qed

lemma last_rune_ok_rune:
  assumes "is_rune r"
  shows "last_rune_ok (t @ r)"
proof (cases "length r = 1")
  case True
  with assms obtain c where "r = [c]" "byte_of c < 128"
    by (cases r) (auto simp: is_rune_def split: if_splits list.splits)
  then show ?thesis by (simp add: last_rune_ok_def)
next
  case False
  let ?s = "t @ r" and ?k = "length r"
  have k: "2 \<le> ?k" "?k \<le> 4" using False is_rune_length [OF assms] by linarith+
  have at: "?s ! (length ?s - j) = r ! (?k - j)" if "j \<le> ?k" "0 < j" for j
    using that nth_append_length_plus [of t r "?k - j"] by (simp add: add_diff_eq)
  have "List.find (\<lambda>k. k \<le> length ?s \<and> rune_start (?s ! (length ?s - k))) [2, 3, 4] = Some ?k"
  proof (rule find_startI)
    show "rune_start (?s ! (length ?s - ?k))" using at [of ?k] k rune_shape(1) [OF assms] by (cases "r = []") auto
    show "\<not> rune_start (?s ! (length ?s - j))" if "2 \<le> j" "j < ?k" for j
      using that at [of j] rune_shape(2) [OF assms, of "?k - j"] by (simp add: rune_start_def)
  qed (use k in auto)
  then show ?thesis using assms k by (auto simp: last_rune_ok_def is_rune_def)
qed

text \<open>A proper part of a rune at the end is not one.\<close>

lemma last_rune_partial:
  assumes "valid_utf8 t" and "is_rune r" and "0 < j" and "j < length r"
  shows "\<not> last_rune_ok (t @ take j r)"
proof
  let ?p = "take j r" and ?s = "t @ take j r"
  assume ok: "last_rune_ok ?s"
  have p: "?p \<noteq> []" "last ?p = r ! (j - 1)" "length ?p = j"
    using assms(3,4) by (cases "r = []"; simp add: last_conv_nth)+
  have "128 \<le> byte_of (last ?s)"
    using p rune_shape(2) [OF assms(2), of "j - 1"] rune_shape(3) [OF assms(2)] assms(3,4)
    by (cases "j = 1") (auto simp: cont_byte_def)
  with ok obtain k where f: "List.find (\<lambda>k. k \<le> length ?s \<and> rune_start (?s ! (length ?s - k))) [2, 3, 4] = Some k"
    and w: "rune_width (drop (length ?s - k) ?s) = Some k"
    by (auto simp: last_rune_ok_def split: option.splits)
  from find_start(1) [OF f] have k: "k \<in> {2, 3, 4}" "k \<le> length ?s" by auto
  have part: "rune_width ?p \<noteq> Some j"
    using assms(2-4) rune_width_append [of ?p j "drop j r"] by (auto simp: is_rune_def)
  show False
  proof (cases "k \<le> j")
    case True
    have "rune_start (?s ! (length ?s - k))" using find_start(1) [OF f] by simp
    moreover have "?s ! (length ?s - k) = r ! (j - k)" using True k p(3) assms(4) by (auto simp: nth_append)
    ultimately have "k = j"
      using rune_shape(2) [OF assms(2), of "j - k"] True k assms(4) by (cases "k = j") (auto simp: rune_start_def)
    then show False using w part p(3) by simp
  next
    case False
    then have "t \<noteq> []" using k(2) p(3) by auto
    with assms(1) obtain u q where q: "t = u @ q" "is_rune q" by (rule valid_utf8_last)
    have n: "length ?s - k = length t - (k - j)" using False assms(4) by auto
    have dr: "drop (length ?s - k) ?s = drop (length t - (k - j)) t @ ?p"
      unfolding n drop_append by (metis diff_is_0_eq diff_le_self drop0)
    show False
    proof (cases "k - j \<le> length q")
      case True
      then have "drop (length t - (k - j)) t = drop (length q - (k - j)) q" using q(1) by simp
      with dr have d: "drop (length ?s - k) ?s = drop (length q - (k - j)) q @ ?p" by simp
      have "?s ! (length ?s - k) = drop (length ?s - k) ?s ! 0" using k by (subst nth_drop) auto
      also have "\<dots> = q ! (length q - (k - j))"
        unfolding d using True False by (simp add: nth_append)
      finally have "rune_start (q ! (length q - (k - j)))" using find_start(1) [OF f] by simp
      then have "\<not> (0 < length q - (k - j) \<and> length q - (k - j) < length q)"
        using rune_shape(2) [OF q(2), of "length q - (k - j)"] by (auto simp: rune_start_def)
      then have "k - j = length q" using True False by linarith
      with d have "rune_width (q @ ?p) = Some k" using w by simp
      moreover have "rune_width (q @ ?p) = Some (length q)"
        using q(2) by (intro rune_width_append) (simp add: is_rune_def)
      ultimately show False using \<open>k - j = length q\<close> assms(3) False by simp
    next
      case 2: False
      let ?k = "length q + j"
      have lq: "0 < length q" using is_rune_length [OF q(2)] by simp
      have "rune_start (?s ! (length ?s - ?k))"
        using rune_shape(1) [OF q(2)] q(1) p(3) lq by (simp add: nth_append)
      moreover have "2 \<le> ?k" "?k < k" using 2 lq assms(3) by linarith+
      ultimately show False using find_start(2) [OF f] by blast
    qed
  qed
qed

lemma trim_partial_ok: "last_rune_ok s \<Longrightarrow> trim_partial s = s"
  by (subst trim_partial.simps) simp

lemma trim_partial_rune:
  assumes "valid_utf8 t" and "is_rune r" and "j < length r"
  shows "trim_partial (t @ take j r) = t"
  using assms(3)
proof (induction j)
  case 0
  show ?case
  proof (cases "t = []")
    case False
    with assms(1) obtain u q where "t = u @ q" "is_rune q" by (rule valid_utf8_last)
    then show ?thesis using last_rune_ok_rune [of q u] by (simp add: trim_partial_ok)
  qed (simp add: trim_partial.simps)
next
  case (Suc j)
  then have "\<not> last_rune_ok (t @ take (Suc j) r)" using assms by (intro last_rune_partial) auto
  moreover have "butlast (t @ take (Suc j) r) = t @ take j r"
    using Suc.prems by (simp add: butlast_append butlast_take) (auto simp: take_Suc)
  ultimately show ?case
    using Suc by (subst trim_partial.simps) (auto simp: take_Suc_conv_app_nth)
qed

lemma take_valid_split:
  assumes "valid_utf8 s" and "n < length s"
  obtains t r j where "take n s = t @ take j r" and "valid_utf8 t" and "is_rune r" and "j < length r"
    and "length t \<le> n" and "n < length t + 4"
proof -
  have "\<exists>t r j. take n s = t @ take j r \<and> valid_utf8 t \<and> is_rune r \<and> j < length r"
    using assms
  proof (induction s arbitrary: n rule: valid_utf8_induct)
    case (Rune q s)
    show ?case
    proof (cases "n < length q")
      case True
      with Rune(1) show ?thesis by (intro exI [of _ "[]"] exI [of _ q] exI [of _ n]) simp
    next
      case False
      with Rune obtain t r j where "take (n - length q) s = t @ take j r" "valid_utf8 t" "is_rune r" "j < length r"
        by (metis add_diff_cancel_left' length_append diff_less_mono linorder_not_less)
      with False Rune(1) show ?thesis
        by (intro exI [of _ "q @ t"] exI [of _ r] exI [of _ j]) (simp add: valid_utf8_rune)
    qed
  qed simp
  then obtain t r j where e: "take n s = t @ take j r" and h: "valid_utf8 t" "is_rune r" "j < length r" by blast
  moreover have "n = length t + j" using arg_cong [OF e, of length] h assms(2) by simp
  ultimately show thesis using is_rune_length [OF h(2)] by (intro that) auto
qed

lemma ellipsis_valid: "valid_utf8 (ellipsis @ ''[truncated]'')"
  by code_simp

lemma truncate_text_short: "length s \<le> n \<Longrightarrow> truncate_text s n = s"
  by (simp add: truncate_text_def)

text \<open>Cutting a valid text leaves whole runes, at most three bytes fewer than asked, and the mark.\<close>

lemma truncate_text_cases:
  assumes "valid_utf8 s"
  obtains "length s \<le> n" and "truncate_text s n = s"
  | t where "n < length s" and "prefix t s" and "valid_utf8 t" and "length t \<le> n" and "n < length t + 4"
    and "truncate_text s n = t @ ellipsis @ ''[truncated]''"
proof (cases "length s \<le> n")
  case False
  then have n: "n < length s" by simp
  from assms n obtain t r j where h: "take n s = t @ take j r" "valid_utf8 t" "is_rune r" "j < length r"
    "length t \<le> n" "n < length t + 4" by (rule take_valid_split)
  have "prefix t s" using h(1) take_is_prefix [of n s] by (metis append_prefixD)
  with that(2) [of t] h n show thesis by (simp add: truncate_text_def trim_partial_rune)
qed (use that(1) truncate_text_short in auto)

lemma truncate_text_valid: "valid_utf8 s \<Longrightarrow> valid_utf8 (truncate_text s n)"
  by (rule truncate_text_cases [of s n]) (simp_all add: valid_utf8_append ellipsis_valid)

end
