(* ===== verification/Regexp.thy ===== *)
theory Regexp
  imports Utf8
begin

text \<open>
  What the source uses of Go's \<open>regexp\<close>: leftmost-first matching over runes, captures, and
  \<open>ReplaceAllString\<close>. \<open>rx_ends r s (i, c)\<close> lists where a match of \<open>r\<close> that starts at byte \<open>i\<close> may
  end, in the order of preference (the leftmost alternative and the longest repetition first), with
  the captures made on the way; the match is the first of the list.
\<close>

type_synonym captures = "(string \<times> string) list"

text \<open>
  \<open>Class p\<close> takes one rune (or one invalid byte) whose bytes satisfy \<open>p\<close>. \<open>Rep lo hi r\<close> is
  \<open>r{lo,hi}\<close>, greedy, and \<open>Lazy r\<close> is \<open>r+?\<close>; \<open>Boundary\<close> is \<open>\b\<close>.
\<close>

datatype rx =
    Eps
  | Class "string \<Rightarrow> bool"
  | Cat rx rx
  | Alt rx rx
  | Rep nat "nat option" rx
  | Lazy rx
  | Boundary
  | Group string rx

abbreviation Lit :: "char \<Rightarrow> rx" where
  "Lit c \<equiv> Class (\<lambda>r. r = [c])"

abbreviation Many :: "rx \<Rightarrow> rx" where "Many r \<equiv> Rep 0 None r"
abbreviation Some1 :: "rx \<Rightarrow> rx" where "Some1 r \<equiv> Rep 1 None r"
abbreviation Optional :: "rx \<Rightarrow> rx" where "Optional r \<equiv> Rep 0 (Some 1) r"

text \<open>The classes: \<open>ascii p\<close> holds of a rune of one byte that satisfies \<open>p\<close>.\<close>

definition ascii :: "(char \<Rightarrow> bool) \<Rightarrow> string \<Rightarrow> bool" where
  "ascii p r = (case r of [c] \<Rightarrow> byte_of c < 128 \<and> p c | _ \<Rightarrow> False)"

abbreviation OneOf :: "(char \<Rightarrow> bool) \<Rightarrow> rx" where "OneOf p \<equiv> Class (ascii p)"
abbreviation NoneOf :: "(char \<Rightarrow> bool) \<Rightarrow> rx" where "NoneOf p \<equiv> Class (\<lambda>r. \<not> ascii p r)"

fun Word :: "string \<Rightarrow> rx" where
  "Word [] = Eps"
| "Word [c] = Lit c"
| "Word (c # d # s) = Cat (Lit c) (Word (d # s))"

fun Cats :: "rx list \<Rightarrow> rx" where
  "Cats [] = Eps"
| "Cats [r] = r"
| "Cats (r # q # rs) = Cat r (Cats (q # rs))"

definition rune_len :: "string \<Rightarrow> nat" where
  "rune_len s = (case rune_width s of None \<Rightarrow> 1 | Some n \<Rightarrow> n)"

lemma rune_len_pos [simp]: "0 < rune_len s"
  using rune_width_bounds by (auto simp: rune_len_def split: option.split)

definition word_char :: "char \<Rightarrow> bool" where
  "word_char c \<longleftrightarrow> 48 \<le> byte_of c \<and> byte_of c \<le> 57 \<or> 65 \<le> byte_of c \<and> byte_of c \<le> 90
     \<or> 97 \<le> byte_of c \<and> byte_of c \<le> 122 \<or> c = CHR ''_''"

definition word_at :: "string \<Rightarrow> nat \<Rightarrow> bool" where
  "word_at s i \<longleftrightarrow> i < length s \<and> word_char (s ! i)"

definition at_boundary :: "string \<Rightarrow> nat \<Rightarrow> bool" where
  "at_boundary s i \<longleftrightarrow> (0 < i \<and> word_at s (i - 1)) \<noteq> word_at s i"

type_synonym match_state = "nat \<times> captures"

text \<open>At most \<open>n\<close> more steps, each of which must get on, the longest runs first, or last.\<close>

primrec greedy :: "(match_state \<Rightarrow> match_state list) \<Rightarrow> nat \<Rightarrow> match_state \<Rightarrow> match_state list" where
  "greedy f 0 st = [st]"
| "greedy f (Suc n) st = concat (map (greedy f n) (filter (\<lambda>st'. fst st < fst st') (f st))) @ [st]"

primrec reluctant :: "(match_state \<Rightarrow> match_state list) \<Rightarrow> nat \<Rightarrow> match_state \<Rightarrow> match_state list" where
  "reluctant f 0 st = [st]"
| "reluctant f (Suc n) st = st # concat (map (reluctant f n) (filter (\<lambda>st'. fst st < fst st') (f st)))"

primrec exactly :: "(match_state \<Rightarrow> match_state list) \<Rightarrow> nat \<Rightarrow> match_state \<Rightarrow> match_state list" where
  "exactly f 0 st = [st]"
| "exactly f (Suc n) st = concat (map (exactly f n) (f st))"

lemma steps_numeral [simp]:
  "greedy f (numeral v) st = concat (map (greedy f (pred_numeral v)) (filter (\<lambda>st'. fst st < fst st') (f st))) @ [st]"
  "reluctant f (numeral v) st =
     st # concat (map (reluctant f (pred_numeral v)) (filter (\<lambda>st'. fst st < fst st') (f st)))"
  "exactly f (numeral v) st = concat (map (exactly f (pred_numeral v)) (f st))"
  by (simp_all add: numeral_eq_Suc)

primrec rx_ends :: "rx \<Rightarrow> string \<Rightarrow> match_state \<Rightarrow> match_state list" where
  "rx_ends Eps s = (\<lambda>st. [st])"
| "rx_ends (Class p) s = (\<lambda>(i, c).
     let n = rune_len (drop i s)
     in if i < length s \<and> p (take n (drop i s)) then [(i + n, c)] else [])"
| "rx_ends (Cat q r) s = (\<lambda>st. concat (map (rx_ends r s) (rx_ends q s st)))"
| "rx_ends (Alt q r) s = (\<lambda>st. rx_ends q s st @ rx_ends r s st)"
| "rx_ends (Rep lo hi r) s = (\<lambda>st.
     concat (map (greedy (rx_ends r s) (case hi of None \<Rightarrow> length s | Some h \<Rightarrow> h - lo))
       (exactly (rx_ends r s) lo st)))"
| "rx_ends (Lazy r) s = (\<lambda>st.
     concat (map (reluctant (rx_ends r s) (length s)) (rx_ends r s st)))"
| "rx_ends Boundary s = (\<lambda>(i, c). if at_boundary s i then [(i, c)] else [])"
| "rx_ends (Group n r) s = (\<lambda>(i, c).
     map (\<lambda>(j, d). (j, (n, take (j - i) (drop i s)) # d)) (rx_ends r s (i, c)))"

text \<open>Unfolded only where applied to a state, the equations evaluate a match step by step.\<close>

lemma rx_ends_apply [simp]:
  "rx_ends Eps s st = [st]"
  "rx_ends (Class p) s (i, c) =
     (if i < length s \<and> p (take (rune_len (drop i s)) (drop i s)) then [(i + rune_len (drop i s), c)] else [])"
  "rx_ends (Cat q r) s st = concat (map (rx_ends r s) (rx_ends q s st))"
  "rx_ends (Alt q r) s st = rx_ends q s st @ rx_ends r s st"
  "rx_ends (Rep lo hi r) s st =
     concat (map (greedy (rx_ends r s) (case hi of None \<Rightarrow> length s | Some h \<Rightarrow> h - lo)) (exactly (rx_ends r s) lo st))"
  "rx_ends (Lazy r) s st = concat (map (reluctant (rx_ends r s) (length s)) (rx_ends r s st))"
  "rx_ends Boundary s (i, c) = (if at_boundary s i then [(i, c)] else [])"
  "rx_ends (Group n r) s (i, c) = map (\<lambda>(j, d). (j, (n, take (j - i) (drop i s)) # d)) (rx_ends r s (i, c))"
  by (simp_all add: Let_def)

declare rx_ends.simps [simp del]

definition match_at :: "rx \<Rightarrow> string \<Rightarrow> nat \<Rightarrow> match_state option" where
  "match_at r s i = (case rx_ends r s (i, []) of [] \<Rightarrow> None | st # _ \<Rightarrow> Some st)"

text \<open>The leftmost match from \<open>i\<close> on, trying the start of each rune.\<close>

function find_match :: "rx \<Rightarrow> string \<Rightarrow> nat \<Rightarrow> (nat \<times> match_state) option" where
  "find_match r s i =
     (if length s < i then None
      else case match_at r s i of
        Some st \<Rightarrow> Some (i, st)
      | None \<Rightarrow> find_match r s (i + rune_len (drop i s)))"
  by pat_completeness auto
termination
  by (relation "measure (\<lambda>(r, s, i). Suc (length s) - i)") (auto intro: diff_less_mono2)

declare find_match.simps [simp del]

text \<open>
  \<open>ReplaceAllString\<close> from \<open>pos\<close> on, with everything before \<open>lo\<close> already copied. An empty match
  right after another one is not replaced.
\<close>

function replace_from :: "rx \<Rightarrow> string \<Rightarrow> string \<Rightarrow> nat \<Rightarrow> nat \<Rightarrow> string" where
  "replace_from r rep s lo pos =
     (if length s < pos then drop lo s
      else case find_match r s pos of
        None \<Rightarrow> drop lo s
      | Some (a, b, _) \<Rightarrow>
          take (a - lo) (drop lo s) @ (if lo < b \<or> a = 0 then rep else []) @
          replace_from r rep s b (max b (pos + rune_len (drop pos s))))"
  by pat_completeness auto
termination
  by (relation "measure (\<lambda>(r, rep, s, lo, pos). Suc (length s) - pos)")
    (auto intro!: diff_less_mono2 simp: less_max_iff_disj)

declare replace_from.simps [simp del]

definition replace_all :: "rx \<Rightarrow> string \<Rightarrow> string \<Rightarrow> string" where
  "replace_all r rep s = replace_from r rep s 0 0"

subsection \<open>Where a match ends\<close>

text \<open>A step keeps a property of the position and does not go back.\<close>

definition steps_within :: "(nat \<Rightarrow> bool) \<Rightarrow> (match_state \<Rightarrow> match_state list) \<Rightarrow> bool" where
  "steps_within P f \<longleftrightarrow> (\<forall>st. P (fst st) \<longrightarrow> (\<forall>st' \<in> set (f st). P (fst st') \<and> fst st \<le> fst st'))"

lemma steps_withinI:
  "(\<And>st st'. P (fst st) \<Longrightarrow> st' \<in> set (f st) \<Longrightarrow> P (fst st') \<and> fst st \<le> fst st') \<Longrightarrow> steps_within P f"
  by (simp add: steps_within_def)

lemma steps_withinD:
  "steps_within P f \<Longrightarrow> st' \<in> set (f st) \<Longrightarrow> P (fst st) \<Longrightarrow> P (fst st') \<and> fst st \<le> fst st'"
  unfolding steps_within_def by blast

lemma steps_within_seq:
  assumes "steps_within P f" and "steps_within P g"
  shows "steps_within P (\<lambda>st. concat (map g (f st)))"
proof (rule steps_withinI)
  fix st st' assume "P (fst st)" and "st' \<in> set (concat (map g (f st)))"
  then obtain m where "m \<in> set (f st)" "st' \<in> set (g m)" by auto
  from steps_withinD [OF assms(1) this(1) \<open>P (fst st)\<close>] steps_withinD [OF assms(2) this(2)]
  show "P (fst st') \<and> fst st \<le> fst st'" by linarith
qed

lemma steps_within_greedy: "steps_within P f \<Longrightarrow> steps_within P (greedy f n)"
proof (induction n)
  case (Suc n)
  have "steps_within P (\<lambda>st. concat (map (greedy f n) (f st)))"
    using Suc by (intro steps_within_seq)
  then show ?case unfolding steps_within_def by auto
qed (simp add: steps_within_def)

lemma steps_within_reluctant: "steps_within P f \<Longrightarrow> steps_within P (reluctant f n)"
proof (induction n)
  case (Suc n)
  have "steps_within P (\<lambda>st. concat (map (reluctant f n) (f st)))"
    using Suc by (intro steps_within_seq)
  then show ?case unfolding steps_within_def by auto
qed (simp add: steps_within_def)

lemma steps_within_exactly: "steps_within P f \<Longrightarrow> steps_within P (exactly f n)"
proof (induction n)
  case (Suc n)
  then have "steps_within P (\<lambda>st. concat (map (exactly f n) (f st)))" by (intro steps_within_seq)
  then show ?case by (simp add: steps_within_def)
qed (simp add: steps_within_def)

lemma steps_within_rx:
  assumes "\<And>i. P i \<Longrightarrow> i < length s \<Longrightarrow> P (i + rune_len (drop i s))"
  shows "steps_within P (rx_ends r s)"
proof (induction r)
  case (Class p)
  then show ?case using assms by (auto simp: steps_within_def Let_def split: if_splits)
next
  case (Rep lo hi r)
  then show ?case by (simp add: rx_ends.simps steps_within_seq steps_within_exactly steps_within_greedy)
next
  case (Lazy r)
  then show ?case by (simp add: rx_ends.simps steps_within_seq steps_within_reluctant)
next
  case (Cat q r)
  then show ?case by (simp add: rx_ends.simps steps_within_seq)
next
  case (Alt q r)
  show ?case
  proof (rule steps_withinI)
    fix st st' assume "P (fst st)" and "st' \<in> set (rx_ends (Alt q r) s st)"
    then show "P (fst st') \<and> fst st \<le> fst st'"
      using steps_withinD [OF Alt(1), of st' st] steps_withinD [OF Alt(2), of st' st] by auto
  qed
next
  case (Group n r)
  show ?case
  proof (rule steps_withinI)
    fix st st' assume "P (fst st)" and "st' \<in> set (rx_ends (Group n r) s st)"
    then obtain m where "m \<in> set (rx_ends r s st)" "fst st' = fst m" by (cases st) auto
    with steps_withinD [OF Group this(1)] \<open>P (fst st)\<close> show "P (fst st') \<and> fst st \<le> fst st'" by simp
  qed
qed (auto simp: steps_within_def)

lemma rune_len_in: "i < length s \<Longrightarrow> i + rune_len (drop i s) \<le> length s"
  using rune_width_bounds [of "drop i s"] by (auto simp: rune_len_def split: option.split)

lemma find_match_within:
  assumes step: "\<And>i. P i \<Longrightarrow> i < length s \<Longrightarrow> P (i + rune_len (drop i s))"
    and "P pos" and "find_match r s pos = Some (a, b, c)"
  shows "P a \<and> P b \<and> pos \<le> a \<and> a \<le> b \<and> a \<le> length s"
  using assms
proof (induction r s pos rule: find_match.induct)
  case (1 r s pos)
  show ?case
  proof (cases "match_at r s pos")
    case None
    with "1.prems"(3) have n: "\<not> length s < pos" "find_match r s (pos + rune_len (drop pos s)) = Some (a, b, c)"
      by (auto simp: find_match.simps [of r s pos] split: if_splits)
    have "pos < length s"
    proof (rule ccontr)
      assume "\<not> pos < length s"
      then have "length s < pos + rune_len (drop pos s)" using n(1) rune_len_pos [of "drop pos s"] by linarith
      with n(2) show False by (simp add: find_match.simps)
    qed
    then show ?thesis using "1.IH" [OF n(1) None "1.prems"(1) _ n(2)] "1.prems"(1) [OF "1.prems"(2)] by linarith
  next
    case (Some st)
    with "1.prems"(3) have "a = pos" "st = (b, c)" "\<not> length s < pos"
      by (auto simp: find_match.simps [of r s pos] split: if_splits)
    moreover have "(b, c) \<in> set (rx_ends r s (pos, []))"
      using Some \<open>st = (b, c)\<close> by (auto simp: match_at_def split: list.splits)
    ultimately show ?thesis using steps_withinD [OF steps_within_rx [of P s r, OF "1.prems"(1)], of "(b, c)" "(pos, [])"] "1.prems"(2) by simp
  qed
qed

lemma find_match_bounds:
  assumes "pos \<le> length s" and "find_match r s pos = Some (a, b, c)"
  shows "pos \<le> a \<and> a \<le> b \<and> b \<le> length s"
  using find_match_within [where P = "\<lambda>i. i \<le> length s", OF rune_len_in assms] by blast

text \<open>The first match is the leftmost: nothing matches at the starts of runes before it.\<close>

lemma find_match_leftmost:
  assumes "match_at r s i \<noteq> None" and "find_match r s pos = Some (a, st)" and "i \<le> length s"
    and "pos \<le> i" and "P pos" and "P i"
    and "\<And>j. P j \<Longrightarrow> j < i \<Longrightarrow> P (j + rune_len (drop j s)) \<and> j + rune_len (drop j s) \<le> i"
  shows "a \<le> i"
  using assms
proof (induction r s pos rule: find_match.induct)
  case (1 r s pos)
  show ?case
  proof (cases "match_at r s pos = None \<and> \<not> length s < pos")
    case True
    then have n: "\<not> length s < pos" "match_at r s pos = None" by auto
    then have "pos < i" using 1(2,5) by (cases "pos = i") auto
    then have q: "P (pos + rune_len (drop pos s))" "pos + rune_len (drop pos s) \<le> i"
      using 1(8) [OF "1.prems"(5)] by auto
    have "find_match r s (pos + rune_len (drop pos s)) = Some (a, st)"
      using 1(3) n by (simp add: find_match.simps [of r s pos])
    from "1.IH" [OF n "1.prems"(1) this "1.prems"(3) q(2,1) "1.prems"(6,7)] show ?thesis by blast
  next
    case False
    then show ?thesis using 1(3-5) by (auto simp: find_match.simps [of r s pos] split: if_splits)
  qed
qed

subsection \<open>What replacing leaves\<close>

lemma replace_none: "find_match r s 0 = None \<Longrightarrow> replace_all r rep s = s"
  by (simp add: replace_all_def replace_from.simps)

text \<open>Every byte of the result is of the replacement or of the text.\<close>

lemma set_replace_from: "set (replace_from r rep s lo pos) \<subseteq> set rep \<union> set s"
proof (induction r rep s lo pos rule: replace_from.induct)
  case (1 r rep s lo pos)
  have d: "set (drop lo s) \<subseteq> set s" "set (take n (drop lo s)) \<subseteq> set s" for n
    using set_drop_subset [of lo s] set_take_subset [of n "drop lo s"] by auto
  show ?case
  proof (cases "length s < pos \<or> find_match r s pos = None")
    case True
    then show ?thesis using d(1) by (subst replace_from.simps) auto
  next
    case False
    then obtain a b c where m: "find_match r s pos = Some (a, b, c)" by (cases "find_match r s pos") auto
    with False "1.IH" have "set (replace_from r rep s b (max b (pos + rune_len (drop pos s)))) \<subseteq> set rep \<union> set s"
      by auto
    then show ?thesis using False m d(2) [of "a - lo"] by (subst replace_from.simps) auto
  qed
qed

lemma set_replace_all: "set (replace_all r rep s) \<subseteq> set rep \<union> set s"
  by (simp add: replace_all_def set_replace_from)

text \<open>The positions where runes start, in a valid string.\<close>

definition rune_pos :: "string \<Rightarrow> nat \<Rightarrow> bool" where
  "rune_pos s i \<longleftrightarrow> i \<le> length s \<and> valid_utf8 (take i s) \<and> valid_utf8 (drop i s)"

lemma rune_pos_0: "valid_utf8 s \<Longrightarrow> rune_pos s 0"
  by (simp add: rune_pos_def)

lemma rune_pos_step:
  assumes "rune_pos s i" and "i < length s"
  shows "rune_pos s (i + rune_len (drop i s))" and "rune_width (drop i s) = Some (rune_len (drop i s))"
proof -
  have v: "valid_utf8 (drop i s)" "drop i s \<noteq> []" using assms by (simp_all add: rune_pos_def)
  then obtain n where n: "rune_width (drop i s) = Some n" "valid_utf8 (drop n (drop i s))"
    by (subst (asm) valid_utf8.simps) (auto split: option.splits)
  then have l: "rune_len (drop i s) = n" by (simp add: rune_len_def)
  then show "rune_width (drop i s) = Some (rune_len (drop i s))" using n by simp
  have "valid_utf8 (take n (drop i s))"
    using valid_utf8_rune [OF rune_width_take [OF n(1)], of "[]"] by simp
  then have "valid_utf8 (take (i + n) s)"
    using assms by (simp add: take_add valid_utf8_append rune_pos_def)
  then show "rune_pos s (i + rune_len (drop i s))"
    using l n rune_len_in [OF assms(2)] by (auto simp: rune_pos_def add.commute)
qed

lemma valid_between:
  assumes "rune_pos s i" and "rune_pos s j" and "i \<le> j"
  shows "valid_utf8 (take (j - i) (drop i s))"
proof -
  have "take j s = take i s @ take (j - i) (drop i s)"
    using assms(3) by (metis le_add_diff_inverse take_add)
  then show ?thesis using assms by (metis rune_pos_def valid_utf8_append)
qed

text \<open>Replacing parts of a valid text by a valid text gives one.\<close>

lemma replace_from_valid:
  assumes "rune_pos s lo" and "rune_pos s pos" and "lo \<le> pos" and "valid_utf8 rep"
  shows "valid_utf8 (replace_from r rep s lo pos)"
  using assms
proof (induction r rep s lo pos rule: replace_from.induct)
  case (1 r rep s lo pos)
  have tail: "valid_utf8 (drop lo s)" using "1.prems"(1) by (simp add: rune_pos_def)
  show ?case
  proof (cases "find_match r s pos")
    case None
    then show ?thesis using tail by (subst replace_from.simps) simp
  next
    case (Some m)
    then obtain a b c where m: "find_match r s pos = Some (a, b, c)" by (cases m) auto
    have w: "rune_pos s a" "rune_pos s b" "pos \<le> a" "a \<le> b"
      using find_match_within [where P = "rune_pos s", OF rune_pos_step(1) "1.prems"(2) m] by auto
    have pos: "\<not> length s < pos" using "1.prems"(2) by (auto simp: rune_pos_def)
    let ?next = "max b (pos + rune_len (drop pos s))"
    have "valid_utf8 (replace_from r rep s b ?next)"
    proof (cases "pos < length s \<or> ?next = b")
      case True
      then have "rune_pos s ?next" using w(2) rune_pos_step(1) [OF "1.prems"(2)] by (auto simp: max_def)
      then show ?thesis using "1.IH" [OF pos m refl refl] w(2) "1.prems"(4) by auto
    next
      case False
      then have "pos = length s" "b < ?next" using pos by (auto simp: max_def split: if_splits)
      moreover have "b = length s" using w calculation(1) by (simp add: rune_pos_def)
      ultimately show ?thesis by (subst replace_from.simps) simp
    qed
    moreover have "valid_utf8 (take (a - lo) (drop lo s))"
      using w(1,3) "1.prems"(1,3) by (intro valid_between) auto
    ultimately show ?thesis
      using m pos "1.prems"(4) by (subst replace_from.simps) (auto simp: valid_utf8_append)
  qed
qed

lemma replace_all_valid: "valid_utf8 s \<Longrightarrow> valid_utf8 rep \<Longrightarrow> valid_utf8 (replace_all r rep s)"
  by (simp add: replace_all_def replace_from_valid rune_pos_0)

end
