(* ===== verification/Scrub.thy ===== *)
theory Scrub
  imports Regexp
begin

text \<open>
  What a reported client error may carry into the store
  (\<open>business/domain/clienterrorbus/scrub.go\<close>): the patterns of the secrets, \<open>ScrubText\<close>,
  \<open>ScrubURL\<close> and \<open>Scrub\<close>, and the submitted report itself (\<open>model.go\<close>). The patterns are those of
  the source; under \<open>(?i)\<close> a class or a letter also takes the two runes outside ASCII that fold to
  an ASCII letter, the Kelvin sign and the long s.
\<close>

subsection \<open>Classes and folding\<close>

definition upper_letter :: "char \<Rightarrow> bool" where
  "upper_letter c \<longleftrightarrow> 65 \<le> byte_of c \<and> byte_of c \<le> 90"

definition lower_letter :: "char \<Rightarrow> bool" where
  "lower_letter c \<longleftrightarrow> 97 \<le> byte_of c \<and> byte_of c \<le> 122"

definition letter :: "char \<Rightarrow> bool" where
  "letter c \<longleftrightarrow> upper_letter c \<or> lower_letter c"

definition digit :: "char \<Rightarrow> bool" where
  "digit c \<longleftrightarrow> 48 \<le> byte_of c \<and> byte_of c \<le> 57"

definition hex_digit :: "char \<Rightarrow> bool" where
  "hex_digit c \<longleftrightarrow> digit c \<or> 65 \<le> byte_of c \<and> byte_of c \<le> 70 \<or> 97 \<le> byte_of c \<and> byte_of c \<le> 102"

definition lower_hex :: "char \<Rightarrow> bool" where
  "lower_hex c \<longleftrightarrow> digit c \<or> 97 \<le> byte_of c \<and> byte_of c \<le> 102"

definition rx_space :: "char \<Rightarrow> bool" where
  "rx_space c \<longleftrightarrow> byte_of c \<in> {9, 10, 12, 13, 32}"

definition kelvin_sign :: string where
  "kelvin_sign = map char_of [226, 132, 170 :: nat]"

definition long_s :: string where
  "long_s = map char_of [197, 191 :: nat]"

definition folded :: "(char \<Rightarrow> bool) \<Rightarrow> string \<Rightarrow> bool" where
  "folded p r \<longleftrightarrow> ascii (\<lambda>c. p (lower_char c) \<or> p (upper_char c)) r
     \<or> p CHR ''k'' \<and> r = kelvin_sign \<or> p CHR ''s'' \<and> r = long_s"

abbreviation FoldOf :: "(char \<Rightarrow> bool) \<Rightarrow> rx" where "FoldOf p \<equiv> Class (folded p)"

fun FoldWord :: "string \<Rightarrow> rx" where
  "FoldWord [] = Eps"
| "FoldWord [c] = FoldOf (\<lambda>x. x = c)"
| "FoldWord (c # d # s) = Cat (FoldOf (\<lambda>x. x = c)) (FoldWord (d # s))"

abbreviation Spaces :: rx where "Spaces \<equiv> Many (OneOf rx_space)"
abbreviation Char :: "char \<Rightarrow> rx" where "Char c \<equiv> OneOf (\<lambda>x. x = c)"

subsection \<open>The patterns\<close>

definition query_string :: rx where
  "query_string = Cat (Char CHR ''?'') (Many (NoneOf (\<lambda>c. rx_space c \<or> c \<in> {CHR 0x22, CHR 0x27})))"

definition email_pattern :: rx where
  "email_pattern = Cats
     [Some1 (OneOf (\<lambda>c. letter c \<or> digit c \<or> c \<in> set ''._%+-'')), Char CHR ''@'',
      Some1 (OneOf (\<lambda>c. letter c \<or> digit c \<or> c \<in> set ''.-'')), Char CHR ''.'', Rep 2 None (OneOf letter)]"

definition bearer_pattern :: rx where
  "bearer_pattern = Cats
     [FoldWord ''bearer'', Some1 (OneOf rx_space),
      Some1 (FoldOf (\<lambda>c. lower_letter c \<or> digit c \<or> c \<in> set ''._-''))]"

definition cookieish :: rx where
  "cookieish = Cats
     [Alt (FoldWord ''cookie'') (Alt (FoldWord ''set-cookie'') (FoldWord ''authorization'')),
      Spaces, OneOf (\<lambda>c. c \<in> set '':=''), Spaces,
      Some1 (NoneOf (\<lambda>c. rx_space c \<or> c \<in> {CHR '';'', CHR '','', CHR 0x22, CHR 0x27}))]"

definition our_keys :: rx where
  "our_keys = Cats
     [Boundary, Word ''ls_'', Some1 (OneOf lower_letter), Word ''_live_'', Some1 (OneOf lower_hex)]"

definition key_value :: rx where
  "key_value = Cats
     [Alt (Cats [FoldWord ''api'', Optional (OneOf (\<lambda>c. c \<in> set ''_-'')), FoldWord ''key''])
        (Alt (FoldWord ''secret'') (Alt (FoldWord ''token'') (Alt (FoldWord ''password'')
          (Alt (FoldWord ''passwd'') (FoldWord ''pwd''))))),
      Optional (OneOf (\<lambda>c. c \<in> {CHR 0x22, CHR 0x27})), Spaces, OneOf (\<lambda>c. c \<in> set '':=''), Spaces,
      Optional (OneOf (\<lambda>c. c \<in> {CHR 0x22, CHR 0x27})),
      Rep 6 None (NoneOf (\<lambda>c. rx_space c \<or> c \<in> {CHR '','', CHR '';'', CHR ''&'', CHR 0x22, CHR 0x27}))]"

definition jwt_char :: "char \<Rightarrow> bool" where
  "jwt_char c \<longleftrightarrow> letter c \<or> digit c \<or> c \<in> set ''_-''"

definition jwt_looking :: rx where
  "jwt_looking = Cats
     [Boundary, Word ''eyJ'', Rep 8 None (OneOf jwt_char), Char CHR ''.'',
      Rep 8 None (OneOf jwt_char), Char CHR ''.'', Some1 (OneOf jwt_char)]"

subsection \<open>Scrubbing a text\<close>

definition redacted :: string where
  "redacted = ''[redacted]''"

definition scrub_text :: "string \<Rightarrow> string" where
  "scrub_text s =
     (if s = [] then s
      else foldl (\<lambda>t p. replace_all p redacted t) s
        [jwt_looking, bearer_pattern, cookieish, our_keys, key_value, email_pattern])"

definition scrub_url :: "string \<Rightarrow> string" where
  "scrub_url s =
     (let t = trim_space s in
      if t = [] then t
      else scrub_text (replace_all query_string [] (takeWhile (\<lambda>c. c \<noteq> CHR ''#'') t)))"

subsection \<open>Reports\<close>

abbreviation max_batch_events :: nat where "max_batch_events \<equiv> 50"
abbreviation max_message_len :: nat where "max_message_len \<equiv> 1000"
abbreviation max_stack_len :: nat where "max_stack_len \<equiv> 8000"
abbreviation max_component_stack_len :: nat where "max_component_stack_len \<equiv> 4000"
abbreviation max_breadcrumbs :: nat where "max_breadcrumbs \<equiv> 30"
abbreviation max_breadcrumb_len :: nat where "max_breadcrumb_len \<equiv> 300"
abbreviation max_url_len :: nat where "max_url_len \<equiv> 500"
abbreviation max_user_agent_len :: nat where "max_user_agent_len \<equiv> 400"
abbreviation max_release_len :: nat where "max_release_len \<equiv> 120"

record breadcrumb =
  bc_ts :: instant
  bc_category :: string
  bc_message :: string

record api_context =
  ac_method :: string
  ac_path :: string
  ac_status :: int
  ac_code :: string

record new_client_event =
  ne_event_id :: uuid
  ne_occurred_at :: instant
  ne_level :: string
  ne_kind :: string
  ne_name :: string
  ne_message :: string
  ne_stack :: string
  ne_component_stack :: string
  ne_release :: string
  ne_environment :: string
  ne_url :: string
  ne_user_agent :: string
  ne_api :: "api_context option"
  ne_breadcrumbs :: "breadcrumb list"
  ne_sampled_count :: int

definition scrub_api :: "api_context \<Rightarrow> api_context" where
  "scrub_api a = a\<lparr> ac_method := truncate_text (trim_space (ac_method a)) 10,
     ac_path := truncate_text (scrub_url (ac_path a)) 300,
     ac_code := truncate_text (scrub_text (ac_code a)) 60 \<rparr>"

definition scrub_crumb :: "breadcrumb \<Rightarrow> breadcrumb" where
  "scrub_crumb c = \<lparr> bc_ts = bc_ts c, bc_category = truncate_text (trim_space (bc_category c)) 40,
     bc_message = truncate_text (scrub_url (scrub_text (bc_message c))) max_breadcrumb_len \<rparr>"

definition last_crumbs :: "breadcrumb list \<Rightarrow> breadcrumb list" where
  "last_crumbs cs = (if length cs > max_breadcrumbs then drop (length cs - max_breadcrumbs) cs else cs)"

definition scrub :: "new_client_event \<Rightarrow> new_client_event" where
  "scrub ne = ne\<lparr>
     ne_name := truncate_text (trim_space (ne_name ne)) 200,
     ne_message := truncate_text (scrub_text (ne_message ne)) max_message_len,
     ne_stack := truncate_text (scrub_text (ne_stack ne)) max_stack_len,
     ne_component_stack := truncate_text (scrub_text (ne_component_stack ne)) max_component_stack_len,
     ne_release := truncate_text (trim_space (ne_release ne)) max_release_len,
     ne_environment := truncate_text (trim_space (ne_environment ne)) 60,
     ne_url := truncate_text (scrub_url (ne_url ne)) max_url_len,
     ne_user_agent := truncate_text (trim_space (ne_user_agent ne)) max_user_agent_len,
     ne_api := map_option scrub_api (ne_api ne),
     ne_breadcrumbs := map scrub_crumb (last_crumbs (ne_breadcrumbs ne)),
     ne_sampled_count := (if ne_sampled_count ne < 1 then 1 else ne_sampled_count ne) \<rparr>"

subsection \<open>Locations are paths\<close>

text \<open>An ASCII byte is never inside a rune, so the search for a match cannot step over it.\<close>

lemma rune_len_ascii:
  assumes "i < length s" and "byte_of (s ! i) < 128" and "j < i"
  shows "j + rune_len (drop j s) \<le> i"
proof (rule ccontr)
  assume "\<not> ?thesis"
  then have l: "i - j < rune_len (drop j s)" using assms(3) by linarith
  then obtain n where n: "rune_width (drop j s) = Some n" "i - j < n" "rune_len (drop j s) = n"
    using assms(3) by (cases "rune_width (drop j s)") (auto simp: rune_len_def)
  have "is_rune (take n (drop j s))" "length (take n (drop j s)) = n"
    using rune_width_take [OF n(1)] rune_width_bounds [OF n(1)] by auto
  then have "cont_byte (take n (drop j s) ! (i - j))"
    using rune_shape(2) [of "take n (drop j s)" "i - j"] n(2) assms(3) by simp
  moreover have "take n (drop j s) ! (i - j) = s ! i" using n(2) assms by simp
  ultimately show False using assms(2) by (simp add: cont_byte_def)
qed

lemma find_match_reaches:
  assumes "match_at r s i \<noteq> None" and "i < length s" and "byte_of (s ! i) < 128" and "pos \<le> i"
  obtains a st where "find_match r s pos = Some (a, st)" and "a \<le> i"
proof -
  have "\<exists>a st. find_match r s pos = Some (a, st) \<and> a \<le> i"
    using assms
  proof (induction r s pos rule: find_match.induct)
    case (1 r s pos)
    show ?case
    proof (cases "match_at r s pos")
      case None
      then have "pos < i" using 1(2,5) by (cases "pos = i") auto
      then have "pos + rune_len (drop pos s) \<le> i" using 1(3,4) by (intro rune_len_ascii)
      then have "\<exists>a st. find_match r s (pos + rune_len (drop pos s)) = Some (a, st) \<and> a \<le> i"
        using "1.IH" None 1(2-5) by auto
      then show ?thesis using None 1(3,5) by (subst find_match.simps) auto
    next
      case (Some st)
      then show ?thesis using 1(3,5) by (subst find_match.simps) auto
    qed
  qed
  then show thesis using that by blast
qed

text \<open>A character at which a pattern always matches is removed.\<close>

lemma replace_removes:
  assumes "\<And>i. i < length s \<Longrightarrow> s ! i = c \<Longrightarrow> \<exists>j e. match_at r s i = Some (j, e) \<and> i < j"
    and "byte_of c < 128" and "c \<notin> set rep"
    and "lo \<le> pos" and "\<And>i. lo \<le> i \<Longrightarrow> i < pos \<Longrightarrow> i < length s \<Longrightarrow> s ! i \<noteq> c"
  shows "c \<notin> set (replace_from r rep s lo pos)"
  using assms
proof (induction r rep s lo pos rule: replace_from.induct)
  case (1 r rep s lo pos)
  have here: "\<exists>a st. find_match r s pos = Some (a, st) \<and> a \<le> i" if "pos \<le> i" "i < length s" "s ! i = c" for i
  proof -
    have "match_at r s i \<noteq> None" using 1(2) [OF that(2,3)] by auto
    then show ?thesis using find_match_reaches [OF _ that(2) _ that(1)] 1(3) that(3) by metis
  qed
  show ?case
  proof (cases "length s < pos \<or> find_match r s pos = None")
    case True
    have "s ! i \<noteq> c" if "lo \<le> i" "i < length s" for i
      using here [of i] 1(6) [of i] that True by (cases "i < pos") auto
    then have "c \<notin> set (drop lo s)" by (auto simp: in_set_conv_nth)
    with True show ?thesis by (subst replace_from.simps) auto
  next
    case False
    then obtain a b d where m: "find_match r s pos = Some (a, b, d)" by (cases "find_match r s pos") auto
    then have bounds: "pos \<le> a" "a \<le> b" "b \<le> length s" using find_match_bounds [of pos s r a b d] False by auto
    have "s ! i \<noteq> c" if "lo \<le> i" "i < a" for i
      using here [of i] 1(6) [of i] that bounds m by (cases "i < pos") auto
    then have head: "c \<notin> set (take (a - lo) (drop lo s))"
      using 1(5) bounds by (auto simp: in_set_conv_nth)
    let ?next = "max b (pos + rune_len (drop pos s))"
    have "s ! i \<noteq> c" if "b \<le> i" "i < ?next" "i < length s" for i
    proof (cases "i = pos")
      case True
      show ?thesis
      proof
        assume "s ! i = c"
        with 1(2) [of i] that(3) obtain j e where "match_at r s pos = Some (j, e)" "pos < j" using True by auto
        with m False have "b = j" by (auto simp: find_match.simps [of r s pos])
        with \<open>pos < j\<close> that(1) True show False by simp
      qed
    next
      case False
      then show ?thesis using rune_len_ascii [of i s pos] that bounds 1(3) by auto
    qed
    then have "c \<notin> set (replace_from r rep s b ?next)"
      using "1.IH" [of "(a, b, d)" a "(b, d)" b d] False m 1(2-4) by auto
    then show ?thesis using m head 1(4) False by (subst replace_from.simps) auto
  qed
qed

lemma greedy_nonempty: "greedy f n st \<noteq> []"
  by (cases n) simp_all

lemma query_string_matches:
  assumes "i < length s" and "s ! i = CHR ''?''"
  shows "\<exists>j e. match_at query_string s i = Some (j, e) \<and> i < j"
proof -
  let ?f = "rx_ends (NoneOf (\<lambda>c. rx_space c \<or> c \<in> {CHR 0x22, CHR 0x27})) s"
  have d: "drop i s = CHR ''?'' # drop (Suc i) s" using assms by (metis Cons_nth_drop_Suc)
  have e: "rx_ends query_string s (i, []) = greedy ?f (length s) (Suc i, [])"
    using assms(1) by (simp add: query_string_def d rune_len_def byte_of_def ascii_def)
  have "steps_within (\<lambda>_. True) (greedy ?f (length s))"
    by (intro steps_within_greedy steps_within_rx) simp
  then have "i < j" if "(j, d) \<in> set (rx_ends query_string s (i, []))" for j d
    using steps_withinD [of "\<lambda>_. True" "greedy ?f (length s)" "(j, d)" "(Suc i, [])"] that e by simp
  moreover obtain st rest where "rx_ends query_string s (i, []) = st # rest"
    using greedy_nonempty [of ?f "length s" "(Suc i, [])"] unfolding e by (meson neq_Nil_conv)
  ultimately show ?thesis by (cases st) (auto simp: match_at_def)
qed

lemma set_scrub_text: "set (scrub_text s) \<subseteq> set redacted \<union> set s"
proof -
  have "set (foldl (\<lambda>t p. replace_all p redacted t) s ps) \<subseteq> set redacted \<union> set s" for ps
  proof (induction ps arbitrary: s)
    case (Cons p ps)
    then show ?case using set_replace_all [of p redacted s] by fastforce
  qed simp
  then show ?thesis by (simp only: scrub_text_def split: if_split) auto
qed

text \<open>
  A stored location is a path. Whatever a browser reports as a URL, no query and no fragment
  of it is stored: nothing after a \<open>?\<close> or a \<open>#\<close>, nor the characters themselves.
\<close>

lemma scrub_url_is_path:
  "CHR ''?'' \<notin> set (scrub_url s) \<and> CHR ''#'' \<notin> set (scrub_url s)"
proof -
  let ?t = "takeWhile (\<lambda>c. c \<noteq> CHR ''#'') (trim_space s)"
  let ?u = "replace_all query_string [] ?t"
  have "CHR ''?'' \<notin> set ?u"
    unfolding replace_all_def by (rule replace_removes) (use query_string_matches in \<open>auto simp: byte_of_def\<close>)
  moreover have "CHR ''#'' \<notin> set ?u"
    using set_replace_all [of query_string "[]" ?t] by (auto dest: set_takeWhileD)
  ultimately show ?thesis using set_scrub_text [of ?u] by (auto simp: scrub_url_def Let_def redacted_def)
qed

subsection \<open>What is stored can be stored\<close>

lemma valid_utf8_butrune:
  assumes "valid_utf8 (t @ e)" and "is_rune e"
  shows "valid_utf8 t"
proof -
  have "t @ e \<noteq> []" using is_rune_length [OF assms(2)] by auto
  with assms(1) obtain u q where q: "t @ e = u @ q" "valid_utf8 u" "is_rune q" by (rule valid_utf8_last)
  then consider x where "e = x @ q" "u = t @ x" | x where "q = x @ e" "t = u @ x"
    by (auto simp: append_eq_append_conv2)
  then show ?thesis
  proof cases
    case 1
    have "x = []"
    proof (rule ccontr)
      assume "x \<noteq> []"
      then have "cont_byte (e ! length x)"
        using rune_shape(2) [OF assms(2), of "length x"] is_rune_length [OF q(3)] 1(1) by auto
      moreover have "e ! length x = q ! 0" using 1(1) is_rune_length [OF q(3)] by (simp add: nth_append)
      ultimately show False using rune_shape(1) [OF q(3)] by (simp add: rune_start_def)
    qed
    with 1 q(2) show ?thesis by simp
  next
    case 2
    have "x = []"
    proof (rule ccontr)
      assume "x \<noteq> []"
      then have "cont_byte (q ! length x)"
        using rune_shape(2) [OF q(3), of "length x"] is_rune_length [OF assms(2)] 2(1) by auto
      moreover have "q ! length x = e ! 0" using 2(1) is_rune_length [OF assms(2)] by (simp add: nth_append)
      ultimately show False using rune_shape(1) [OF assms(2)] by (simp add: rune_start_def)
    qed
    with 2 q(2) show ?thesis by simp
  qed
qed

lemma space_is_rune: "e \<in> set spaces \<Longrightarrow> is_rune (map char_of e)"
proof -
  have "\<forall>e \<in> set spaces. is_rune (map char_of e)"
    by (simp add: spaces_def is_rune_def byte_of_def cont_byte_def second_byte_def)
  then show "e \<in> set spaces \<Longrightarrow> is_rune (map char_of e)" by blast
qed

text \<open>What is trimmed on the left is a rune, or backwards one.\<close>

lemma space_at_cases:
  assumes "space_at encs s \<noteq> 0"
  obtains e where "e \<in> set encs" and "take (space_at encs s) s = map char_of e"
proof -
  from assms obtain e where e: "List.find (\<lambda>e. take (length e) (map byte_of s) = e) encs = Some e"
    "space_at encs s = length e"
    by (auto simp: space_at_def split: option.splits)
  from find_SomeD [OF e(1)] have h: "e \<in> set encs" "take (length e) (map byte_of s) = e" by auto
  have "map char_of (take (length e) (map byte_of s)) = take (length e) s"
    by (simp add: take_map byte_of_def comp_def)
  with h e(2) that show thesis by metis
qed

lemma valid_trim_left:
  "\<forall>e \<in> set encs. is_rune (map char_of e) \<Longrightarrow> valid_utf8 s \<Longrightarrow> valid_utf8 (trim_left encs s)"
proof (induction encs s rule: trim_left.induct)
  case (1 encs s)
  show ?case
  proof (cases "space_at encs s = 0 \<or> s = []")
    case True
    then show ?thesis using "1.prems" by (subst trim_left.simps) auto
  next
    case False
    then obtain e where e: "e \<in> set encs" "take (space_at encs s) s = map char_of e"
      using space_at_cases [of encs s] by auto
    then have "s = map char_of e @ drop (space_at encs s) s" by (metis append_take_drop_id)
    moreover have "is_rune (map char_of e)" using "1.prems"(1) e(1) by blast
    ultimately have "valid_utf8 (drop (space_at encs s) s)" using "1.prems"(2) valid_utf8_rune by metis
    then show ?thesis using False "1.IH" "1.prems"(1) by (subst trim_left.simps) simp
  qed
qed

lemma valid_trim_right:
  "\<forall>e \<in> set encs. is_rune (rev (map char_of e)) \<Longrightarrow> valid_utf8 (rev u) \<Longrightarrow> valid_utf8 (rev (trim_left encs u))"
proof (induction encs u rule: trim_left.induct)
  case (1 encs u)
  let ?k = "space_at encs u"
  show ?case
  proof (cases "?k = 0 \<or> u = []")
    case True
    then show ?thesis using "1.prems" by (subst trim_left.simps) auto
  next
    case False
    then obtain e where e: "e \<in> set encs" "take ?k u = map char_of e"
      using space_at_cases [of encs u] by auto
    then have "is_rune (rev (take ?k u))" using "1.prems"(1) by metis
    moreover have "rev u = rev (drop ?k u) @ rev (take ?k u)" by (metis append_take_drop_id rev_append)
    ultimately have "valid_utf8 (rev (drop ?k u))" using "1.prems"(2) valid_utf8_butrune by metis
    then show ?thesis using False "1.IH" "1.prems"(1) by (subst trim_left.simps) simp
  qed
qed

lemma valid_trim_space: "valid_utf8 s \<Longrightarrow> valid_utf8 (trim_space s)"
  unfolding trim_space_def
  by (intro valid_trim_right) (simp_all add: valid_trim_left space_is_rune rev_map [symmetric])

lemma valid_redacted: "valid_utf8 redacted"
  by code_simp

lemma valid_scrub_text: "valid_utf8 s \<Longrightarrow> valid_utf8 (scrub_text s)"
proof -
  have "valid_utf8 s \<Longrightarrow> valid_utf8 (foldl (\<lambda>t p. replace_all p redacted t) s ps)" for ps
    by (induction ps arbitrary: s) (simp_all add: replace_all_valid valid_redacted)
  then show "valid_utf8 s \<Longrightarrow> valid_utf8 (scrub_text s)"
    by (simp only: scrub_text_def split: if_split) blast
qed

lemma valid_takeWhile:
  assumes "valid_utf8 s" and "byte_of c < 128"
  shows "valid_utf8 (takeWhile (\<lambda>x. x \<noteq> c) s)"
  using assms(1)
proof (induction s rule: valid_utf8_induct)
  case (Rune r s)
  show ?case
  proof (cases "c \<in> set r")
    case True
    then obtain i where i: "i < length r" "r ! i = c" by (auto simp: in_set_conv_nth)
    then have "i = 0" using rune_shape(2) [OF Rune(1), of i] assms(2) by (cases i) (auto simp: cont_byte_def)
    with i show ?thesis by (cases r) auto
  next
    case False
    then have "takeWhile (\<lambda>x. x \<noteq> c) (r @ s) = r @ takeWhile (\<lambda>x. x \<noteq> c) s"
      by (intro takeWhile_append2) auto
    then show ?thesis using Rune by (simp add: valid_utf8_rune)
  qed
qed simp

lemma valid_scrub_url: "valid_utf8 s \<Longrightarrow> valid_utf8 (scrub_url s)"
  by (simp add: scrub_url_def Let_def valid_trim_space valid_scrub_text replace_all_valid valid_takeWhile byte_of_def)

lemma length_trim_partial: "length (trim_partial s) \<le> length s"
proof (induction s rule: trim_partial.induct)
  case (1 s)
  then show ?case by (subst trim_partial.simps) (auto intro: order_trans)
qed

lemma length_truncate_text: "length (truncate_text s n) \<le> n + 14"
  using length_trim_partial [of "take n s"] by (simp add: truncate_text_def ellipsis_def)

text \<open>The texts of a report with the limit of each.\<close>

definition report_texts :: "new_client_event \<Rightarrow> (string \<times> nat) list" where
  "report_texts ne =
     [(ne_name ne, 200), (ne_message ne, max_message_len), (ne_stack ne, max_stack_len),
      (ne_component_stack ne, max_component_stack_len), (ne_release ne, max_release_len),
      (ne_environment ne, 60), (ne_url ne, max_url_len), (ne_user_agent ne, max_user_agent_len)] @
     (case ne_api ne of None \<Rightarrow> [] | Some a \<Rightarrow> [(ac_method a, 10), (ac_path a, 300), (ac_code a, 60)]) @
     concat (map (\<lambda>c. [(bc_category c, 40), (bc_message c, max_breadcrumb_len)]) (ne_breadcrumbs ne))"

definition fits :: "nat \<Rightarrow> string \<Rightarrow> bool" where
  "fits n t \<longleftrightarrow> valid_utf8 t \<and> length t \<le> n + 14"

definition storable :: "new_client_event \<Rightarrow> bool" where
  "storable ne \<longleftrightarrow> list_all (\<lambda>(t, n). fits n t) (report_texts ne)
     \<and> length (ne_breadcrumbs ne) \<le> max_breadcrumbs \<and> 1 \<le> ne_sampled_count ne"


lemma fits_truncated:
  "valid_utf8 t \<Longrightarrow> fits n (truncate_text (trim_space t) n)"
  "valid_utf8 t \<Longrightarrow> fits n (truncate_text (scrub_text t) n)"
  "valid_utf8 t \<Longrightarrow> fits n (truncate_text (scrub_url t) n)"
  by (simp_all add: fits_def truncate_text_valid length_truncate_text valid_trim_space valid_scrub_text valid_scrub_url)

lemma truncate_text_chars: "set (truncate_text s n) \<subseteq> set s \<union> set (ellipsis @ ''[truncated]'')"
proof -
  have "prefix (trim_partial t) t" for t
  proof (induction t rule: trim_partial.induct)
    case (1 t)
    then show ?case
      by (subst trim_partial.simps) (auto intro: prefix_order.trans [OF _ prefixeq_butlast])
  qed
  then have "set (trim_partial (take n s)) \<subseteq> set s"
    using set_mono_prefix set_take_subset by (metis dual_order.trans)
  then show ?thesis by (auto simp: truncate_text_def)
qed

definition is_path :: "string \<Rightarrow> bool" where
  "is_path s \<longleftrightarrow> CHR ''?'' \<notin> set s \<and> CHR ''#'' \<notin> set s"

lemma truncate_is_path: "is_path s \<Longrightarrow> is_path (truncate_text s n)"
proof -
  have "is_path (ellipsis @ ''[truncated]'')" by (simp add: is_path_def ellipsis_def char_of_def)
  then show "is_path s \<Longrightarrow> is_path (truncate_text s n)"
    using truncate_text_chars [of s n] unfolding is_path_def by auto
qed

definition locations :: "new_client_event \<Rightarrow> string list" where
  "locations ne = ne_url ne # (case ne_api ne of None \<Rightarrow> [] | Some a \<Rightarrow> [ac_path a]) @
     map bc_message (ne_breadcrumbs ne)"

text \<open>
  C30: a scrubbed report can be stored. If the texts of a report are valid UTF-8, as the decoder of
  its JSON makes them, then after \<open>Scrub\<close> each of them is still valid (the database refuses a
  text that is not, and with it the whole batch), at most 14 bytes over its limit (the mark of a
  cut), there are at most 30 breadcrumbs, the report stands for at least one occurrence, and its
  locations carry neither a query nor a fragment.
\<close>

theorem scrub_storable:
  assumes "list_all (\<lambda>(t, n). valid_utf8 t) (report_texts ne)"
  shows "storable (scrub ne) \<and> list_all is_path (locations (scrub ne))"
proof -
  have crumbs: "set (last_crumbs cs) \<subseteq> set cs" "length (last_crumbs cs) \<le> max_breadcrumbs" for cs
    by (auto simp: last_crumbs_def dest: in_set_dropD)
  have url: "is_path (truncate_text (scrub_url t) n)" for t n
    using scrub_url_is_path [of t] by (intro truncate_is_path) (simp add: is_path_def)
  have "list_all is_path (locations (scrub ne))"
    using url by (auto simp: locations_def scrub_def scrub_api_def scrub_crumb_def list_all_iff split: option.split)
  moreover have "list_all (\<lambda>(t, n). fits n t) (report_texts (scrub ne))"
  proof -
    have c: "valid_utf8 (bc_category c) \<and> valid_utf8 (bc_message c)" if "c \<in> set (last_crumbs (ne_breadcrumbs ne))" for c
      using assms that crumbs(1) [of "ne_breadcrumbs ne"] by (auto simp: report_texts_def list_all_iff)
    have a: "valid_utf8 (ac_method a) \<and> valid_utf8 (ac_path a) \<and> valid_utf8 (ac_code a)" if "ne_api ne = Some a" for a
      using assms that by (simp add: report_texts_def)
    have "list_all (\<lambda>(t, n). fits n t) (concat (map (\<lambda>c. [(bc_category c, 40), (bc_message c, max_breadcrumb_len)])
        (map scrub_crumb (last_crumbs (ne_breadcrumbs ne)))))"
      using c by (auto simp: list_all_iff scrub_crumb_def fits_truncated valid_scrub_text)
    then show ?thesis
      using assms a by (auto simp: report_texts_def scrub_def scrub_api_def fits_truncated split: option.split)
  qed
  ultimately show ?thesis using crumbs(2) by (simp add: storable_def scrub_def)
qed


text \<open>The definitions that evaluate a pattern on a concrete text.\<close>

lemmas rx_eval = replace_all_def replace_from.simps find_match.simps match_at_def at_boundary_def
  word_at_def word_char_def rune_len_def ascii_def folded_def byte_of_def lower_char_def
  upper_char_def rx_space_def upper_letter_def lower_letter_def letter_def digit_def hex_digit_def
  lower_hex_def jwt_char_def kelvin_sign_def long_s_def cont_byte_def second_byte_def char_of_def
  bit_Suc_0_iff

lemma scrub_text_eval:
  "scrub_text (c # s) =
     replace_all email_pattern redacted (replace_all key_value redacted (replace_all our_keys redacted
       (replace_all cookieish redacted (replace_all bearer_pattern redacted
         (replace_all jwt_looking redacted (c # s))))))"
  by (simp add: scrub_text_def)

lemmas scrub_eval = rx_eval scrub_text_eval scrub_url_def redacted_def query_string_def email_pattern_def
  bearer_pattern_def cookieish_def our_keys_def key_value_def jwt_looking_def Let_def trim_space_def
  trim_left.simps space_at_def spaces_def truncate_text_def

definition sample_report :: new_client_event where
  "sample_report = \<lparr> ne_event_id = 7, ne_occurred_at = 0, ne_level = ''error'', ne_kind = ''api'', ne_name = '' Boom '',
     ne_message = ''ask b@e.org'', ne_stack = [], ne_component_stack = [], ne_release = ''r1'',
     ne_environment = [], ne_url = '' /in?a#b'', ne_user_agent = [],
     ne_api = Some \<lparr> ac_method = ''GET'', ac_path = ''/a?b'', ac_status = 500, ac_code = [] \<rparr>,
     ne_breadcrumbs = [\<lparr> bc_ts = 1, bc_category = ''nav'', bc_message = ''/home'' \<rparr>], ne_sampled_count = 0 \<rparr>"

lemma sample_passes:
  "replace_all jwt_looking redacted ''ask b@e.org'' = ''ask b@e.org''"
  "replace_all bearer_pattern redacted ''ask b@e.org'' = ''ask b@e.org''"
  "replace_all cookieish redacted ''ask b@e.org'' = ''ask b@e.org''"
  "replace_all our_keys redacted ''ask b@e.org'' = ''ask b@e.org''"
  "replace_all key_value redacted ''ask b@e.org'' = ''ask b@e.org''"
  "replace_all email_pattern redacted ''ask b@e.org'' = ''ask [redacted]''"
  by (simp_all add: scrub_eval)

lemma sample_location:
  "trim_space '' /in?a#b'' = ''/in?a#b''" "replace_all query_string [] ''/in?a'' = ''/in''"
  "scrub_text ''/in'' = ''/in''"
  by (simp_all add: scrub_eval)

lemma sample_texts:
  "scrub_text ''ask b@e.org'' = ''ask [redacted]''" "scrub_url '' /in?a#b'' = ''/in''"
  by (simp_all only: scrub_text_eval sample_passes)
    (simp add: scrub_url_def sample_location)

lemma scrub_fields [simp]:
  "ne_url (scrub ne) = truncate_text (scrub_url (ne_url ne)) max_url_len"
  "ne_message (scrub ne) = truncate_text (scrub_text (ne_message ne)) max_message_len"
  "ne_name (scrub ne) = truncate_text (trim_space (ne_name ne)) 200"
  by (simp_all add: scrub_def)

lemma sample_report_scrubbed:
  "ne_url (scrub sample_report) = ''/in''" "ne_message (scrub sample_report) = ''ask [redacted]''"
proof -
  have r: "ne_url sample_report = '' /in?a#b''" "ne_message sample_report = ''ask b@e.org''"
    by (simp_all add: sample_report_def)
  show "ne_url (scrub sample_report) = ''/in''" "ne_message (scrub sample_report) = ''ask [redacted]''"
    by (simp_all add: r sample_texts truncate_text_short)
qed

theorem scrub_storable_witness:
  "ne_url (scrub sample_report) = ''/in'' \<and> ne_message (scrub sample_report) = ''ask [redacted]''
   \<and> storable (scrub sample_report) \<and> list_all is_path (locations (scrub sample_report))"
proof -
  have "list_all (\<lambda>(t, n). valid_utf8 t) (report_texts sample_report)"
    by (simp add: report_texts_def sample_report_def)
      (auto intro!: valid_utf8_ascii simp: byte_of_def)
  from scrub_storable [OF this] sample_report_scrubbed show ?thesis by blast
qed

text \<open>
  A zero byte is valid UTF-8, so it passes \<open>Scrub\<close>; PostgreSQL does not take it in a text.
\<close>

lemma scrub_keeps_zero_byte:
  "CHR 0x00 \<in> set (ne_name (scrub (sample_report\<lparr> ne_name := [CHR 0x00] \<rparr>)))"
  by (simp add: scrub_eval)

end
