(* ===== verification/Fingerprint.thy ===== *)
theory Fingerprint
  imports Scrub
begin

text \<open>
  How a client error is keyed (\<open>business/domain/clienterrorbus/fingerprint.go\<close>, \<open>resolve.go\<close>):
  the message template, the frames of the stack, the fingerprint with its title and culprit, and
  the rewriting of a minified stack through the source maps of its release. SHA-256 is a parameter
  (\<open>digest\<close>, from the joined parts to the hexadecimal sum), as is the source map of a file, a
  function from a generated line and column to the original position (\<open>sourcemap.Consumer.Source\<close>).
\<close>

subsection \<open>Message templates\<close>

abbreviation fingerprint_version :: int where "fingerprint_version \<equiv> 1"
abbreviation resolved_fingerprint_version :: int where "resolved_fingerprint_version \<equiv> 2"
abbreviation max_frames :: nat where "max_frames \<equiv> 5"

definition hexes :: "nat \<Rightarrow> rx" where
  "hexes n = Rep n (Some n) (OneOf hex_digit)"

definition uuid_like :: rx where
  "uuid_like = Cats [Boundary, hexes 8, Char CHR ''-'', hexes 4, Char CHR ''-'', hexes 4, Char CHR ''-'',
     hexes 4, Char CHR ''-'', hexes 12, Boundary]"

definition url_like :: rx where
  "url_like = Cats [Word ''http'', Optional (Char CHR ''s''), Word ''://'',
     Some1 (NoneOf (\<lambda>c. rx_space c \<or> c \<in> {CHR 0x22, CHR 0x27, CHR '')''}))]"

definition hex_like :: rx where
  "hex_like = Cats [Boundary, Rep 16 None (OneOf hex_digit), Boundary]"

definition number_like :: rx where
  "number_like = Cats [Boundary, OneOf digit, Many (OneOf (\<lambda>c. digit c \<or> c \<in> set ''.,_'')),
     Rep 0 (Some 3) (OneOf letter), Boundary]"

definition quote_char :: "char \<Rightarrow> bool" where
  "quote_char c \<longleftrightarrow> c \<in> {CHR 0x22, CHR 0x27, CHR 0x60}"

definition quoted_like :: rx where
  "quoted_like = Cats [OneOf quote_char, Rep 0 (Some 200) (NoneOf quote_char), OneOf quote_char]"

definition whitespaces :: rx where
  "whitespaces = Some1 (OneOf rx_space)"

definition normalize_message :: "string \<Rightarrow> string" where
  "normalize_message msg =
     (let msg = trim_space msg in
      if msg = [] then []
      else let
        msg = replace_all url_like ''<url>'' msg;
        msg = replace_all uuid_like ''<uuid>'' msg;
        msg = replace_all hex_like ''<hex>'' msg;
        msg = replace_all quoted_like ''<str>'' msg;
        msg = replace_all number_like ''<n>'' msg;
        msg = replace_all whitespaces '' '' msg
      in truncate_text (trim_space msg) 300)"

subsection \<open>Frames\<close>

record frame =
  fr_function :: string
  fr_file :: string
  fr_line :: string
  fr_column :: string
  fr_in_app :: bool

definition vendor_markers :: "string list" where
  "vendor_markers = [''node_modules'', ''/vendor'', ''vendor-'', ''vendor.'', ''chunk-vendors'',
     ''webpack/bootstrap'', ''react-dom'', ''scheduler.production'']"

definition frame_line :: rx where
  "frame_line = Cats
     [Optional (Alt
        (Cats [Word ''at'', Some1 (OneOf rx_space),
           Optional (Cats [Group ''fn1'' (Some1 (NoneOf (\<lambda>c. rx_space c \<or> c = CHR ''(''))),
             Some1 (OneOf rx_space), Char CHR ''('']) ])
        (Cat (Group ''fn2'' (Some1 (NoneOf (\<lambda>c. rx_space c \<or> c = CHR ''@'')))) (Char CHR ''@''))),
      Group ''loc'' (Lazy (NoneOf (\<lambda>c. rx_space c \<or> c \<in> set ''()''))), Char CHR '':'',
      Group ''line'' (Some1 (OneOf digit)), Char CHR '':'', Group ''col'' (Some1 (OneOf digit)),
      Optional (Char CHR '')'')]"

definition capture :: "captures \<Rightarrow> string \<Rightarrow> string" where
  "capture cs n = (case map_of cs n of None \<Rightarrow> [] | Some v \<Rightarrow> v)"

text \<open>\<open>Frame.String\<close>: the column stays out.\<close>

definition frame_string :: "frame \<Rightarrow> string" where
  "frame_string f = fr_file f @ '':'' @ fr_line f @ '':'' @ fr_function f"

fun split_lines :: "string \<Rightarrow> string list" where
  "split_lines [] = [[]]"
| "split_lines (c # s) =
     (if c = CHR 0x0A then [] # split_lines s
      else case split_lines s of [] \<Rightarrow> [[c]] | l # ls \<Rightarrow> (c # l) # ls)"

fun join_with :: "string \<Rightarrow> string list \<Rightarrow> string" where
  "join_with sep [] = []"
| "join_with sep [s] = s"
| "join_with sep (s # t # ss) = s @ sep @ join_with sep (t # ss)"

definition frame_of :: "string \<Rightarrow> frame option" where
  "frame_of l =
     (let line = trim_space l in
      if line = [] then None
      else case find_match frame_line line 0 of
        None \<Rightarrow> None
      | Some (_, _, cs) \<Rightarrow>
          let function = (if capture cs ''fn2'' \<noteq> [] then capture cs ''fn2'' else capture cs ''fn1'');
            file = capture cs ''loc''; lower = to_lower (file @ '' '' @ function)
          in if file = [] then None
             else Some \<lparr> fr_function = function, fr_file = file, fr_line = capture cs ''line'',
               fr_column = capture cs ''col'', fr_in_app = \<not> list_ex (contains lower) vendor_markers \<rparr>)"

definition parse_stack :: "string \<Rightarrow> frame list" where
  "parse_stack stack = List.map_filter frame_of (split_lines stack)"

definition in_app_frames :: "frame list \<Rightarrow> frame list" where
  "in_app_frames fs = (let out = filter fr_in_app fs in if out = [] then fs else out)"

subsection \<open>The fingerprint\<close>

abbreviation level_fatal :: string where "level_fatal \<equiv> ''fatal''"
abbreviation level_error :: string where "level_error \<equiv> ''error''"
abbreviation level_warning :: string where "level_warning \<equiv> ''warning''"

abbreviation kind_unhandled :: string where "kind_unhandled \<equiv> ''unhandled''"
abbreviation kind_unhandled_rejection :: string where "kind_unhandled_rejection \<equiv> ''unhandledrejection''"
abbreviation kind_react :: string where "kind_react \<equiv> ''react''"
abbreviation kind_api :: string where "kind_api \<equiv> ''api''"
abbreviation kind_manual :: string where "kind_manual \<equiv> ''manual''"

definition valid_level :: "string \<Rightarrow> bool" where
  "valid_level s \<longleftrightarrow> s \<in> {level_fatal, level_error, level_warning}"

definition valid_kind :: "string \<Rightarrow> bool" where
  "valid_kind s \<longleftrightarrow> s \<in> {kind_unhandled, kind_unhandled_rejection, kind_react, kind_api, kind_manual}"

definition top_frames :: "string \<Rightarrow> frame list" where
  "top_frames stack = take max_frames (in_app_frames (parse_stack stack))"

definition fingerprint_parts :: "new_client_event \<Rightarrow> string list" where
  "fingerprint_parts ne = [ne_kind ne, ne_name ne] @
     (case (if ne_kind ne = kind_api then ne_api ne else None) of
        Some a \<Rightarrow> [ac_method a, ac_path a, show_int (ac_status a), ac_code a]
      | None \<Rightarrow> normalize_message (ne_message ne) # map frame_string (top_frames (ne_stack ne)))"

definition issue_title :: "new_client_event \<Rightarrow> string" where
  "issue_title ne =
     (let normalized = normalize_message (ne_message ne);
        title = (if normalized \<noteq> [] then ne_name ne @ '': '' @ normalized else ne_name ne)
      in truncate_text (if title = [] then ''Unknown error'' else title) 300)"

definition issue_culprit :: "new_client_event \<Rightarrow> string" where
  "issue_culprit ne = truncate_text
     (case top_frames (ne_stack ne) of
        f # _ \<Rightarrow> if fr_function f = [] then fr_file f else fr_function f @ '' ('' @ fr_file f @ '')''
      | [] \<Rightarrow>
          (case (if ne_kind ne = kind_api then ne_api ne else None) of
             Some a \<Rightarrow> trim_space (ac_method a @ '' '' @ ac_path a)
           | None \<Rightarrow> ne_url ne)) 300"

definition fingerprint :: "(string \<Rightarrow> string) \<Rightarrow> new_client_event \<Rightarrow> string \<times> string \<times> string" where
  "fingerprint digest ne =
     (digest (join_with ''|'' (fingerprint_parts ne)), issue_title ne, issue_culprit ne)"

subsection \<open>Resolving a stack\<close>

type_synonym source_map = "int \<Rightarrow> int \<Rightarrow> (string \<times> string \<times> int \<times> int) option"

definition path_base :: "string \<Rightarrow> string" where
  "path_base p =
     (let q = rev (dropWhile (\<lambda>c. c = CHR ''/'') (rev p))
      in if p = [] then ''.''
         else if q = [] then ''/''
         else rev (takeWhile (\<lambda>c. c \<noteq> CHR ''/'') (rev q)))"

text \<open>\<open>strconv.Atoi\<close> of a run of digits: an error beyond 64 bits.\<close>

definition atoi :: "string \<Rightarrow> int option" where
  "atoi ds = (if digits_val ds < 2 ^ 63 then Some (int (digits_val ds)) else None)"

definition render_frame :: "string \<Rightarrow> string \<Rightarrow> int \<Rightarrow> int \<Rightarrow> string" where
  "render_frame function file line column =
     (let loc = file @ '':'' @ show_int line @ '':'' @ show_int column
      in if function = [] then ''    at '' @ loc else ''    at '' @ function @ '' ('' @ loc @ '')'')"

definition parse_frame_line :: "string \<Rightarrow> frame option" where
  "parse_frame_line l =
     (case parse_stack l of
        [f] \<Rightarrow> if fr_file f = [] \<or> fr_line f = [] \<or> fr_column f = [] then None else Some f
      | _ \<Rightarrow> None)"

definition resolve_line :: "(string \<Rightarrow> source_map option) \<Rightarrow> string \<Rightarrow> string option" where
  "resolve_line map_for l =
     Option.bind (parse_frame_line l) (\<lambda>f.
       Option.bind (map_for (path_base (fr_file f))) (\<lambda>m.
         Option.bind (atoi (fr_line f)) (\<lambda>line. Option.bind (atoi (fr_column f)) (\<lambda>col.
           Option.bind (m line col) (\<lambda>(source, name, src_line, src_col).
             if source = [] then None
             else Some (render_frame (if name = [] then fr_function f else name) source src_line src_col))))))"

text \<open>\<open>maps\<close> is \<open>None\<close> for a service without stored source maps.\<close>

definition resolve_stack ::
  "(string \<Rightarrow> string \<Rightarrow> source_map option) option \<Rightarrow> string \<Rightarrow> string \<Rightarrow> string \<times> bool" where
  "resolve_stack maps stack release =
     (case maps of
        None \<Rightarrow> (stack, False)
      | Some map_for \<Rightarrow>
          if stack = [] \<or> release = [] then (stack, False)
          else
            let lines = split_lines stack; resolved = map (resolve_line (map_for release)) lines
            in if list_all (\<lambda>r. r = None) resolved then (stack, False)
               else (join_with [CHR 0x0A] (map2 (\<lambda>l r. case r of None \<Rightarrow> l | Some t \<Rightarrow> t) lines resolved), True))"

subsection \<open>What is grouped together\<close>

lemma valid_kind_plain: "valid_kind k \<Longrightarrow> CHR ''|'' \<notin> set k"
  by (auto simp: valid_kind_def)

lemma join_head:
  assumes "ps \<noteq> []" and "CHR ''|'' \<notin> set p"
  shows "takeWhile (\<lambda>c. c \<noteq> CHR ''|'') (join_with ''|'' (p # ps)) = p"
proof -
  obtain q qs where "ps = q # qs" using assms(1) by (cases ps) auto
  moreover have "takeWhile (\<lambda>c. c \<noteq> CHR ''|'') (p @ CHR ''|'' # t) = p" for t
    using assms(2) by (subst takeWhile_append2) auto
  ultimately show ?thesis by simp
qed

text \<open>
  C38: an issue never mixes kinds of failure. Where the digest has no collisions, two stored reports
  (their kinds are among the five) with the same fingerprint are of the same kind, whatever their
  names, messages and stacks.
\<close>

theorem fingerprint_separates_kinds:
  assumes "inj digest" and "valid_kind (ne_kind a)" and "valid_kind (ne_kind b)"
    and "fst (fingerprint digest a) = fst (fingerprint digest b)"
  shows "ne_kind a = ne_kind b"
proof -
  let ?head = "\<lambda>ne. takeWhile (\<lambda>c. c \<noteq> CHR ''|'') (join_with ''|'' (fingerprint_parts ne))"
  have head: "?head ne = ne_kind ne" if "valid_kind (ne_kind ne)" for ne
    using join_head [OF _ valid_kind_plain [OF that], of "tl (fingerprint_parts ne)"]
    by (simp add: fingerprint_parts_def)
  have "join_with ''|'' (fingerprint_parts a) = join_with ''|'' (fingerprint_parts b)"
    using assms(1,4) by (simp add: fingerprint_def inj_eq)
  then show ?thesis using head [OF assms(2)] head [OF assms(3)] by simp
qed

theorem fingerprint_separates_kinds_witness:
  "ne_kind (sample_report\<lparr> ne_name := ''x'' \<rparr>) = ne_kind (sample_report\<lparr> ne_name := ''x'', ne_message := [] \<rparr>)"
  by (rule fingerprint_separates_kinds [where digest = "\<lambda>s. s"])
    (simp_all add: sample_report_def valid_kind_def fingerprint_def fingerprint_parts_def)

text \<open>
  Reports of one failure share a fingerprint. A failed request is keyed by the request, so two
  reports of it with the same name agree whatever their message, stack and location; any other
  report is keyed by its message template and its frames without their columns, so two reports
  that agree on these agree on the fingerprint and on the title, wherever the build moved the code
  on its line.
\<close>

theorem fingerprint_shared:
  assumes "ne_kind a = ne_kind b" and "ne_name a = ne_name b"
    and "(ne_kind a = kind_api \<and> ne_api a = Some r \<and> ne_api b = Some r) \<or>
      (ne_kind a \<noteq> kind_api \<and> normalize_message (ne_message a) = normalize_message (ne_message b) \<and>
       map (fr_column_update (\<lambda>_. [])) (top_frames (ne_stack a)) =
       map (fr_column_update (\<lambda>_. [])) (top_frames (ne_stack b)))"
  shows "fst (fingerprint digest a) = fst (fingerprint digest b)
    \<and> (ne_kind a \<noteq> kind_api \<longrightarrow> fst (snd (fingerprint digest a)) = fst (snd (fingerprint digest b)))"
proof -
  have col: "frame_string f = frame_string (fr_column_update (\<lambda>_. []) f)" for f
    by (simp add: frame_string_def)
  have "map frame_string fs = map frame_string (map (fr_column_update (\<lambda>_. [])) fs)" for fs
    using col by simp
  then have "map frame_string (top_frames (ne_stack a)) = map frame_string (top_frames (ne_stack b))"
    if "ne_kind a \<noteq> kind_api" using assms(3) that by metis
  then show ?thesis
    using assms by (auto simp: fingerprint_def fingerprint_parts_def issue_title_def Let_def)
qed

lemmas frame_eval = rx_eval frame_line_def capture_def trim_space_def trim_left.simps space_at_def
  spaces_def frame_of_def vendor_markers_def to_lower_def has_prefix_def Let_def

lemmas template_eval = rx_eval number_like_def url_like_def uuid_like_def hexes_def hex_like_def
  quoted_like_def quote_char_def whitespaces_def

text \<open>Two builds of one crash: the same frame in another column.\<close>

definition built :: "string \<Rightarrow> new_client_event" where
  "built stack = sample_report\<lparr> ne_kind := kind_react, ne_api := None, ne_message := [], ne_stack := stack \<rparr>"

lemma sample_frames:
  "frame_of '' at f (a.js:1:2)'' =
     Some \<lparr> fr_function = ''f'', fr_file = ''a.js'', fr_line = ''1'', fr_column = ''2'', fr_in_app = True \<rparr>"
  "frame_of '' at f (a.js:1:7)'' =
     Some \<lparr> fr_function = ''f'', fr_file = ''a.js'', fr_line = ''1'', fr_column = ''7'', fr_in_app = True \<rparr>"
  by (simp_all add: frame_eval)

lemma sample_stacks:
  "map (fr_column_update (\<lambda>_. [])) (top_frames '' at f (a.js:1:2)'') =
   map (fr_column_update (\<lambda>_. [])) (top_frames '' at f (a.js:1:7)'')"
  "top_frames '' at f (a.js:1:2)'' \<noteq> []"
  by (simp_all add: top_frames_def parse_stack_def in_app_frames_def List.map_filter_simps sample_frames)

theorem fingerprint_shared_witness:
  "fst (fingerprint (\<lambda>s. s) (built '' at f (a.js:1:2)'')) = fst (fingerprint (\<lambda>s. s) (built '' at f (a.js:1:7)''))
   \<and> top_frames '' at f (a.js:1:2)'' \<noteq> []"
proof -
  let ?a = "built '' at f (a.js:1:2)''" and ?b = "built '' at f (a.js:1:7)''"
  have f: "ne_kind (built s) = kind_react" "ne_name (built s) = ne_name sample_report"
    "ne_message (built s) = []" "ne_stack (built s) = s" for s
    by (simp_all add: built_def)
  have "fst (fingerprint (\<lambda>s. s) ?a) = fst (fingerprint (\<lambda>s. s) ?b) \<and>
    (ne_kind ?a \<noteq> kind_api \<longrightarrow> fst (snd (fingerprint (\<lambda>s. s) ?a)) = fst (snd (fingerprint (\<lambda>s. s) ?b)))"
    by (rule fingerprint_shared) (simp_all add: f sample_stacks(1))
  then show ?thesis using sample_stacks(2) by blast
qed

text \<open>Two messages of one template.\<close>

lemma sample_passes_41:
  "replace_all url_like ''<url>'' ''user 41'' = ''user 41''"
  "replace_all uuid_like ''<uuid>'' ''user 41'' = ''user 41''"
  "replace_all hex_like ''<hex>'' ''user 41'' = ''user 41''"
  "replace_all quoted_like ''<str>'' ''user 41'' = ''user 41''"
  "replace_all number_like ''<n>'' ''user 41'' = ''user <n>''"
  by (simp_all add: template_eval)

lemma sample_passes_973:
  "replace_all url_like ''<url>'' ''user 973'' = ''user 973''"
  "replace_all uuid_like ''<uuid>'' ''user 973'' = ''user 973''"
  "replace_all hex_like ''<hex>'' ''user 973'' = ''user 973''"
  "replace_all quoted_like ''<str>'' ''user 973'' = ''user 973''"
  "replace_all number_like ''<n>'' ''user 973'' = ''user <n>''"
  by (simp_all add: template_eval)

lemma sample_trims:
  "trim_space ''user 41'' = ''user 41''" "trim_space ''user 973'' = ''user 973''"
  "trim_space ''user <n>'' = ''user <n>''" "replace_all whitespaces '' '' ''user <n>'' = ''user <n>''"
  by (simp_all add: scrub_eval template_eval)

lemma sample_templates:
  "normalize_message ''user 41'' = ''user <n>''" "normalize_message ''user 973'' = ''user <n>''"
  by (simp_all add: normalize_message_def sample_trims sample_passes_41 sample_passes_973 truncate_text_short)

end
