(* ===== verification/ClientStore.thy ===== *)
theory ClientStore
  imports Fingerprint
begin

text \<open>
  The tables of client error monitoring and the statements on them
  (\<open>business/domain/clienterrorbus/stores/clienterrordb/clienterrordb.go\<close>, \<open>model.go\<close>): reports,
  issues and the facets an issue was seen with, one definition per SQL statement, with the unique
  indexes and checks the schema declares (\<open>business/sdk/migrate/sql/migrate.sql\<close>, versions 1.40 to
  1.42). \<open>cw_faults\<close> says, call by call, whether the database fails it; a failed call changes
  nothing. \<open>cw_now\<close> is the database's clock. A stored process error is the error itself rather than
  the first 500 bytes of its text.
\<close>

abbreviation status_unresolved :: string where "status_unresolved \<equiv> ''unresolved''"
abbreviation status_resolved :: string where "status_resolved \<equiv> ''resolved''"
abbreviation status_ignored :: string where "status_ignored \<equiv> ''ignored''"

definition valid_status :: "string \<Rightarrow> bool" where
  "valid_status s \<longleftrightarrow> s \<in> {status_unresolved, status_resolved, status_ignored}"

datatype client_error =
    Err_issue_not_found
  | Err_no_events
  | Err_too_many_events
  | Err_invalid_status
  | Err_artifact_release
  | Err_artifact_empty
  | Err_artifact_too_large
  | Err_artifact_invalid
  | Err_client_db

record client_event =
  ce_id :: uuid
  ce_event_id :: uuid
  ce_org :: "uuid option"
  ce_project :: "uuid option"
  ce_user :: "uuid option"
  ce_role :: string
  ce_level :: string
  ce_kind :: string
  ce_name :: string
  ce_message :: string
  ce_stack :: string
  ce_component_stack :: string
  ce_resolved_stack :: string
  ce_release :: string
  ce_environment :: string
  ce_url :: string
  ce_user_agent :: string
  ce_api :: "api_context option"
  ce_breadcrumbs :: "breadcrumb list"
  ce_occurred_at :: instant
  ce_received_at :: instant
  ce_fingerprint :: string
  ce_fingerprint_version :: int
  ce_issue :: "uuid option"
  ce_processed_at :: "instant option"
  ce_attempts :: nat
  ce_process_error :: "client_error option"
  ce_sampled_count :: int

record client_issue =
  ci_id :: uuid
  ci_org :: "uuid option"
  ci_project :: "uuid option"
  ci_fingerprint :: string
  ci_title :: string
  ci_culprit :: string
  ci_level :: string
  ci_kind :: string
  ci_status :: string
  ci_regressed :: bool
  ci_event_count :: int
  ci_first_seen :: instant
  ci_last_seen :: instant
  ci_resolved_at :: "instant option"
  ci_assignee :: "uuid option"
  ci_sample_event :: "uuid option"

record spike =
  sp_issue :: client_issue
  sp_current :: int
  sp_baseline :: rat
  sp_window :: duration

datatype client_notice =
    Issue_opened client_issue client_event
  | Issue_regressed client_issue client_event
  | Issue_spiked client_issue spike

record artifact =
  af_id :: uuid
  af_release :: string
  af_file :: string
  af_content :: string
  af_uploaded_by :: string
  af_date_created :: instant

record client_world =
  cw_events :: "client_event list"
  cw_issues :: "client_issue list"
  cw_facets :: "(uuid \<times> string \<times> string) list"
  cw_artifacts :: "artifact list"
  cw_notices :: "client_notice list"
  cw_fresh :: uuid
  cw_faults :: "bool list"
  cw_now :: instant

type_synonym 'a client_op = "(client_world, client_error, 'a) op"

definition client_call :: "'a client_op \<Rightarrow> 'a client_op" where
  "client_call f w =
     (case cw_faults w of
        [] \<Rightarrow> f w
      | b # bs \<Rightarrow> if b then (Inl Err_client_db, w\<lparr> cw_faults := bs \<rparr>) else f (w\<lparr> cw_faults := bs \<rparr>))"

lemma client_call_cases [consumes 1, case_names Fault Call]:
  assumes "client_call f w = (r, w')"
  obtains bs where "r = Inl Err_client_db" and "w' = w\<lparr> cw_faults := bs \<rparr>"
  | bs where "f (w\<lparr> cw_faults := bs \<rparr>) = (r, w')"
proof (cases "cw_faults w")
  case Nil
  then have "w\<lparr> cw_faults := [] \<rparr> = w" by (cases w) simp
  moreover have "f w = (r, w')" using assms Nil by (simp add: client_call_def)
  ultimately show thesis using that(2) by metis
next
  case (Cons b bs)
  with assms that show thesis by (auto simp: client_call_def split: if_splits)
qed

lemma client_call_ok: "cw_faults w = [] \<Longrightarrow> client_call f w = f w"
  by (simp add: client_call_def)

text \<open>\<open>uuid.New\<close>.\<close>

definition new_uuid :: "uuid client_op" where
  "new_uuid w = (Inr (cw_fresh w), w\<lparr> cw_fresh := Suc (cw_fresh w) \<rparr>)"

subsection \<open>Reports\<close>

definition insert_new :: "client_event list \<Rightarrow> client_event list \<Rightarrow> client_event list" where
  "insert_new rows table =
     foldl (\<lambda>t e. if \<exists>r \<in> set t. ce_event_id r = ce_event_id e then t else t @ [e]) table rows"

definition s_ingest :: "client_event list \<Rightarrow> nat client_op" where
  "s_ingest rows = (if rows = [] then ret_op 0 else client_call (\<lambda>w.
     let t = insert_new rows (cw_events w)
     in if distinct (map ce_id t)
        then (Inr (length t - length (cw_events w)), w\<lparr> cw_events := t \<rparr>)
        else (Inl Err_client_db, w)))"

definition claimable :: "nat \<Rightarrow> client_event \<Rightarrow> bool" where
  "claimable max_attempts e \<longleftrightarrow> ce_processed_at e = None \<and> ce_attempts e < max_attempts"

definition claimed_rows :: "nat \<Rightarrow> nat \<Rightarrow> client_event list \<Rightarrow> client_event list" where
  "claimed_rows limit max_attempts es =
     take limit (sort_key ce_received_at (filter (claimable max_attempts) es))"

definition count_attempt :: "client_event \<Rightarrow> client_event" where
  "count_attempt e = e\<lparr> ce_attempts := Suc (ce_attempts e) \<rparr>"

definition s_claim_unprocessed :: "nat \<Rightarrow> nat \<Rightarrow> client_event list client_op" where
  "s_claim_unprocessed limit max_attempts = client_call (\<lambda>w.
     let rows = claimed_rows limit max_attempts (cw_events w)
     in (Inr (map count_attempt rows),
         w\<lparr> cw_events := update_where (\<lambda>e. ce_id e \<in> ce_id ` set rows) count_attempt (cw_events w) \<rparr>))"

definition attach_event :: "uuid \<Rightarrow> string \<Rightarrow> int \<Rightarrow> string \<Rightarrow> instant \<Rightarrow> client_event \<Rightarrow> client_event" where
  "attach_event issue fp version stack now e = e\<lparr> ce_issue := Some issue, ce_fingerprint := fp,
     ce_fingerprint_version := version, ce_resolved_stack := stack, ce_processed_at := Some now,
     ce_process_error := None \<rparr>"

definition s_attach_to_issue :: "uuid \<Rightarrow> uuid \<Rightarrow> string \<Rightarrow> int \<Rightarrow> string \<Rightarrow> unit client_op" where
  "s_attach_to_issue event issue fp version stack = client_call (\<lambda>w.
     (Inr (), w\<lparr> cw_events :=
        update_where (\<lambda>e. ce_id e = event) (attach_event issue fp version stack (cw_now w)) (cw_events w) \<rparr>))"

definition fail_event :: "client_error \<Rightarrow> nat \<Rightarrow> instant \<Rightarrow> client_event \<Rightarrow> client_event" where
  "fail_event reason max_attempts now e = e\<lparr> ce_process_error := Some reason,
     ce_processed_at := (if max_attempts \<le> ce_attempts e then Some now else None) \<rparr>"

definition s_mark_failed :: "uuid \<Rightarrow> client_error \<Rightarrow> nat \<Rightarrow> unit client_op" where
  "s_mark_failed event reason max_attempts = client_call (\<lambda>w.
     (Inr (), w\<lparr> cw_events :=
        update_where (\<lambda>e. ce_id e = event) (fail_event reason max_attempts (cw_now w)) (cw_events w) \<rparr>))"

definition requeue :: "client_event \<Rightarrow> client_event" where
  "requeue e = e\<lparr> ce_processed_at := None, ce_attempts := 0, ce_process_error := None \<rparr>"

definition s_mark_release_for_regroup :: "string \<Rightarrow> int \<Rightarrow> nat client_op" where
  "s_mark_release_for_regroup release below = client_call (\<lambda>w.
     let p = (\<lambda>e. ce_release e = release \<and> ce_fingerprint_version e < below \<and> ce_processed_at e \<noteq> None)
     in (Inr (length (filter p (cw_events w))), w\<lparr> cw_events := update_where p requeue (cw_events w) \<rparr>))"

subsection \<open>Issues\<close>

text \<open>
  The scope of an issue is its project when it has one, else its org, else the anonymous bucket:
  the three partial unique indexes, and the three lookups by fingerprint.
\<close>

definition in_scope :: "uuid option \<Rightarrow> uuid option \<Rightarrow> string \<Rightarrow> client_issue \<Rightarrow> bool" where
  "in_scope org project fp i \<longleftrightarrow> ci_fingerprint i = fp \<and>
     (case project of
        Some p \<Rightarrow> ci_project i = Some p
      | None \<Rightarrow>
          (case org of
             Some c \<Rightarrow> ci_project i = None \<and> ci_org i = Some c
           | None \<Rightarrow> ci_project i = None \<and> ci_org i = None))"

definition s_query_issue_by_fingerprint :: "uuid option \<Rightarrow> uuid option \<Rightarrow> string \<Rightarrow> client_issue client_op" where
  "s_query_issue_by_fingerprint org project fp = client_call (\<lambda>w.
     case List.find (in_scope org project fp) (cw_issues w) of
       None \<Rightarrow> (Inl Err_issue_not_found, w) | Some i \<Rightarrow> (Inr i, w))"

definition inserted_issue :: "client_issue \<Rightarrow> client_issue" where
  "inserted_issue i = i\<lparr> ci_regressed := False, ci_event_count := 1, ci_last_seen := ci_first_seen i,
     ci_resolved_at := None, ci_assignee := None \<rparr>"

definition s_insert_issue :: "client_issue \<Rightarrow> unit client_op" where
  "s_insert_issue i = client_call (\<lambda>w.
     if \<exists>x \<in> set (cw_issues w). in_scope (ci_org i) (ci_project i) (ci_fingerprint i) x \<or> ci_id x = ci_id i
     then (Inl Err_client_db, w)
     else (Inr (), w\<lparr> cw_issues := cw_issues w @ [inserted_issue i] \<rparr>))"

text \<open>
  \<open>UpsertIssue\<close>. The error of a lost race is the driver's, which no statement of this store turns
  into \<open>sqldb.ErrDBDuplicatedEntry\<close>: the insert's failure is returned as it is.
\<close>

definition s_upsert_issue :: "client_issue \<Rightarrow> (client_issue \<times> bool) client_op" where
  "s_upsert_issue i =
     case_op (s_query_issue_by_fingerprint (ci_org i) (ci_project i) (ci_fingerprint i))
       (\<lambda>err. if err = Err_issue_not_found
              then try_op (s_insert_issue i) (\<lambda>_. ret_op (i\<lparr> ci_event_count := 1 \<rparr>, True))
              else fail_op err)
       (\<lambda>existing. ret_op (existing, False))"

definition touch_level :: "string \<Rightarrow> string \<Rightarrow> string" where
  "touch_level old new =
     (if new = level_fatal \<or> (old = level_warning \<and> new = level_error) then new else old)"

definition touch :: "instant \<Rightarrow> string \<Rightarrow> uuid \<Rightarrow> int \<Rightarrow> client_issue \<Rightarrow> client_issue" where
  "touch at_time level sample count i = i\<lparr>
     ci_event_count := ci_event_count i + count,
     ci_last_seen := max (ci_last_seen i) at_time,
     ci_first_seen := min (ci_first_seen i) at_time,
     ci_sample_event := Some sample,
     ci_status := (if ci_status i = status_resolved then status_unresolved else ci_status i),
     ci_regressed := (if ci_status i = status_resolved then True else ci_regressed i),
     ci_resolved_at := (if ci_status i = status_resolved then None else ci_resolved_at i),
     ci_level := touch_level (ci_level i) level \<rparr>"

definition s_touch_issue :: "uuid \<Rightarrow> instant \<Rightarrow> string \<Rightarrow> uuid \<Rightarrow> int \<Rightarrow> bool client_op" where
  "s_touch_issue issue at_time level sample count = client_call (\<lambda>w.
     case List.find (\<lambda>i. ci_id i = issue) (cw_issues w) of
       None \<Rightarrow> (Inl Err_issue_not_found, w)
     | Some i \<Rightarrow>
         let i' = touch at_time level sample count i
         in (Inr (ci_regressed i' \<and> ci_resolved_at i' = None),
             w\<lparr> cw_issues := update_where (\<lambda>i. ci_id i = issue) (touch at_time level sample count) (cw_issues w) \<rparr>))"

definition s_record_facet :: "uuid \<Rightarrow> string \<Rightarrow> string \<Rightarrow> unit client_op" where
  "s_record_facet issue facet v = client_call (\<lambda>w.
     let row = (issue, facet, take 200 v)
     in if \<not> (\<exists>i \<in> set (cw_issues w). ci_id i = issue) then (Inl Err_client_db, w)
        else if row \<in> set (cw_facets w) then (Inr (), w)
        else (Inr (), w\<lparr> cw_facets := cw_facets w @ [row] \<rparr>))"

text \<open>\<open>RecordFacets\<close>: the map is walked in some order, here the order of the list.\<close>

definition s_record_facets :: "uuid \<Rightarrow> (string \<times> string list) list \<Rightarrow> unit client_op" where
  "s_record_facets issue facets =
     loop_op (\<lambda>(facet, values). loop_op (\<lambda>v.
       if v = [] then ret_op () else s_record_facet issue facet v) values) facets"

definition s_query_issue_by_id :: "uuid \<Rightarrow> client_issue client_op" where
  "s_query_issue_by_id issue = client_call (\<lambda>w.
     case List.find (\<lambda>i. ci_id i = issue) (cw_issues w) of
       None \<Rightarrow> (Inl Err_issue_not_found, w) | Some i \<Rightarrow> (Inr i, w))"

definition s_update_issue :: "client_issue \<Rightarrow> unit client_op" where
  "s_update_issue i = client_call (\<lambda>w.
     (Inr (), w\<lparr> cw_issues := update_where (\<lambda>x. ci_id x = ci_id i)
        (\<lambda>x. x\<lparr> ci_status := ci_status i, ci_regressed := ci_regressed i,
           ci_resolved_at := ci_resolved_at i, ci_assignee := ci_assignee i \<rparr>) (cw_issues w) \<rparr>))"

definition drop_issues :: "(client_issue \<Rightarrow> bool) \<Rightarrow> client_world \<Rightarrow> client_world" where
  "drop_issues p w = w\<lparr> cw_issues := filter (\<lambda>i. \<not> p i) (cw_issues w),
     cw_facets := filter (\<lambda>(issue, _, _). \<exists>i \<in> set (cw_issues w). ci_id i = issue \<and> \<not> p i) (cw_facets w) \<rparr>"

text \<open>\<open>DetachFromIssue\<close> and \<open>PurgeOrg\<close> each run in one transaction.\<close>

definition s_detach_from_issue :: "uuid \<Rightarrow> int \<Rightarrow> unit client_op" where
  "s_detach_from_issue issue count = client_call (\<lambda>w.
     let w1 = w\<lparr> cw_issues := update_where (\<lambda>i. ci_id i = issue)
        (\<lambda>i. i\<lparr> ci_event_count := max (ci_event_count i - count) 0 \<rparr>) (cw_issues w) \<rparr>
     in (Inr (), drop_issues (\<lambda>i. ci_id i = issue \<and> \<not> (\<exists>e \<in> set (cw_events w). ce_issue e = Some issue)) w1))"

definition s_purge_org :: "uuid \<Rightarrow> nat client_op" where
  "s_purge_org org = client_call (\<lambda>w.
     (Inr (length (filter (\<lambda>e. ce_org e = Some org) (cw_events w)) +
           length (filter (\<lambda>i. ci_org i = Some org) (cw_issues w))),
      drop_issues (\<lambda>i. ci_org i = Some org)
        (w\<lparr> cw_events := filter (\<lambda>e. ce_org e \<noteq> Some org) (cw_events w) \<rparr>)))"

definition s_query_issue_events :: "uuid \<Rightarrow> nat \<Rightarrow> client_event list client_op" where
  "s_query_issue_events issue limit = client_call (\<lambda>w.
     (Inr (take limit (sort_key (\<lambda>e. - ce_occurred_at e) (filter (\<lambda>e. ce_issue e = Some issue) (cw_events w)))), w))"

subsection \<open>Source maps\<close>

definition s_upsert_artifact :: "artifact \<Rightarrow> unit client_op" where
  "s_upsert_artifact a = client_call (\<lambda>w.
     let same = (\<lambda>x. af_release x = af_release a \<and> af_file x = af_file a)
     in (Inr (), w\<lparr> cw_artifacts :=
          (if \<exists>x \<in> set (cw_artifacts w). same x
           then update_where same (\<lambda>x. x\<lparr> af_content := af_content a, af_uploaded_by := af_uploaded_by a,
                  af_date_created := cw_now w \<rparr>) (cw_artifacts w)
           else cw_artifacts w @ [a\<lparr> af_date_created := cw_now w \<rparr>]) \<rparr>))"

definition s_query_artifact :: "string \<Rightarrow> string \<Rightarrow> string client_op" where
  "s_query_artifact release file = client_call (\<lambda>w.
     (Inr (case List.find (\<lambda>x. af_release x = release \<and> af_file x = file) (cw_artifacts w) of
             None \<Rightarrow> [] | Some a \<Rightarrow> af_content a), w))"

end
