(* ===== verification/ClientErrors.thy ===== *)
theory ClientErrors
  imports ClientStore
begin

text \<open>
  Client error monitoring (\<open>business/domain/clienterrorbus/clienterrorbus.go\<close>, \<open>artifact.go\<close>):
  accepting a batch of reports, the worker that groups them into issues, triage, the purge of an
  org and the upload of a source map. What the business layer is given is \<open>client_env\<close>: the digest
  of the fingerprint, what the source map cache answers for a release and a file, the text of a
  UUID, whether there is a notifier, and what the JSON column of the request context gives back
  for what was stored in it.
\<close>

record client_env =
  ge_digest :: "string \<Rightarrow> string"
  ge_maps :: "(string \<Rightarrow> string \<Rightarrow> source_map option) option"
  ge_uuid_string :: "uuid \<Rightarrow> string"
  ge_notifier :: bool
  ge_api_column :: "api_context option \<Rightarrow> api_context option"

record reporter =
  rp_user :: "uuid option"
  rp_org :: "uuid option"
  rp_project :: "uuid option"
  rp_role :: string

subsection \<open>Accepting a batch\<close>

definition normalized_report :: "new_client_event \<Rightarrow> new_client_event" where
  "normalized_report ne =
     (let ne = scrub ne;
        ne = (if valid_level (ne_level ne) then ne else ne\<lparr> ne_level := level_error \<rparr>);
        ne = (if valid_kind (ne_kind ne) then ne else ne\<lparr> ne_kind := kind_manual \<rparr>)
      in if ne_name ne = [] then ne\<lparr> ne_name := ''Error'' \<rparr> else ne)"

definition occurred_time :: "instant \<Rightarrow> instant \<Rightarrow> instant" where
  "occurred_time now t = (if t = 0 \<or> now + go_hour < t then now else t)"

definition stored_event ::
  "client_env \<Rightarrow> reporter \<Rightarrow> instant \<Rightarrow> uuid \<Rightarrow> uuid \<Rightarrow> new_client_event \<Rightarrow> client_event" where
  "stored_event env who now new_id event_id ne =
     \<lparr> ce_id = new_id, ce_event_id = event_id, ce_org = rp_org who, ce_project = rp_project who,
       ce_user = rp_user who, ce_role = rp_role who, ce_level = ne_level ne, ce_kind = ne_kind ne,
       ce_name = ne_name ne, ce_message = ne_message ne, ce_stack = ne_stack ne,
       ce_component_stack = ne_component_stack ne, ce_resolved_stack = [], ce_release = ne_release ne,
       ce_environment = ne_environment ne, ce_url = ne_url ne, ce_user_agent = ne_user_agent ne,
       ce_api = ge_api_column env (ne_api ne), ce_breadcrumbs = ne_breadcrumbs ne,
       ce_occurred_at = occurred_time now (ne_occurred_at ne), ce_received_at = now,
       ce_fingerprint = [], ce_fingerprint_version = 0, ce_issue = None, ce_processed_at = None,
       ce_attempts = 0, ce_process_error = None, ce_sampled_count = ne_sampled_count ne \<rparr>"

fun prepare_events ::
  "client_env \<Rightarrow> reporter \<Rightarrow> instant \<Rightarrow> new_client_event list \<Rightarrow> client_event list client_op" where
  "prepare_events env who now [] = ret_op []"
| "prepare_events env who now (ne # nes) =
     (let ne = normalized_report ne in
      try_op (if ne_event_id ne = uuid_nil then new_uuid else ret_op (ne_event_id ne)) (\<lambda>event_id.
      try_op new_uuid (\<lambda>new_id.
      try_op (prepare_events env who now nes) (\<lambda>rest.
        ret_op (stored_event env who now new_id event_id ne # rest)))))"

definition ingest_reports ::
  "client_env \<Rightarrow> reporter \<Rightarrow> instant \<Rightarrow> new_client_event list \<Rightarrow> nat client_op" where
  "ingest_reports env who now nes =
     (if nes = [] then fail_op Err_no_events
      else if max_batch_events < length nes then fail_op Err_too_many_events
      else try_op (prepare_events env who now nes) s_ingest)"

subsection \<open>Grouping\<close>

abbreviation max_process_attempts :: nat where "max_process_attempts \<equiv> 3"

definition resolved_stack_or_empty :: "bool \<Rightarrow> string \<Rightarrow> string" where
  "resolved_stack_or_empty resolved stack = (if resolved then stack else [])"

definition keyed_report :: "client_event \<Rightarrow> string \<Rightarrow> new_client_event" where
  "keyed_report e stack =
     \<lparr> ne_event_id = uuid_nil, ne_occurred_at = 0, ne_level = [], ne_kind = ce_kind e, ne_name = ce_name e,
       ne_message = ce_message e, ne_stack = stack, ne_component_stack = [], ne_release = [],
       ne_environment = [], ne_url = ce_url e, ne_user_agent = [], ne_api = ce_api e,
       ne_breadcrumbs = [], ne_sampled_count = 0 \<rparr>"

definition first_issue :: "client_event \<Rightarrow> string \<times> string \<times> string \<Rightarrow> uuid \<Rightarrow> client_issue" where
  "first_issue e key new_id = (case key of (fp, title, culprit) \<Rightarrow>
     \<lparr> ci_id = new_id, ci_org = ce_org e, ci_project = ce_project e, ci_fingerprint = fp, ci_title = title,
       ci_culprit = culprit, ci_level = ce_level e, ci_kind = ce_kind e, ci_status = status_unresolved,
       ci_regressed = False, ci_event_count = 0, ci_first_seen = ce_occurred_at e,
       ci_last_seen = ce_occurred_at e, ci_resolved_at = None, ci_assignee = None,
       ci_sample_event = Some (ce_id e) \<rparr>)"

definition event_facets :: "client_env \<Rightarrow> client_event \<Rightarrow> (string \<times> string list) list" where
  "event_facets env e =
     (case ce_user e of None \<Rightarrow> [] | Some u \<Rightarrow> [(''user'', [ge_uuid_string env u])]) @
     (case ce_org e of None \<Rightarrow> [] | Some c \<Rightarrow> [(''org'', [ge_uuid_string env c])]) @
     (if ce_release e \<noteq> [] then [(''release'', [ce_release e])] else [])"

definition notify_client :: "client_notice \<Rightarrow> unit client_op" where
  "notify_client n w = (Inr (), w\<lparr> cw_notices := cw_notices w @ [n] \<rparr>)"

text \<open>The key of a report: fingerprint, title and culprit, the version and the stack to store.\<close>

definition event_key ::
  "client_env \<Rightarrow> client_event \<Rightarrow> (string \<times> string \<times> string) \<times> int \<times> string" where
  "event_key env e =
     (let (resolved_stack, resolved) = resolve_stack (ge_maps env) (ce_stack e) (ce_release e);
        stack = (if resolved then resolved_stack else ce_stack e)
      in (fingerprint (ge_digest env) (keyed_report e stack),
          if resolved then resolved_fingerprint_version else fingerprint_version,
          resolved_stack_or_empty resolved resolved_stack))"

definition tell_issue :: "client_env \<Rightarrow> client_event \<Rightarrow> client_issue \<Rightarrow> bool \<Rightarrow> bool \<Rightarrow> unit client_op" where
  "tell_issue env e issue created reopened =
     (if ge_notifier env \<and> ce_issue e = None
      then if created then notify_client (Issue_opened issue e)
           else if reopened then notify_client (Issue_regressed (issue\<lparr> ci_regressed := True \<rparr>) e)
           else ret_op ()
      else ret_op ())"

text \<open>The second half of \<open>group\<close>: the facets, the report's row, the issue it leaves, the notification.\<close>

definition settle ::
  "client_env \<Rightarrow> client_event \<Rightarrow> client_issue \<Rightarrow> bool \<Rightarrow> bool \<Rightarrow> string \<Rightarrow> int \<Rightarrow> string \<Rightarrow> unit client_op" where
  "settle env e issue created reopened fp version resolved_stack =
     (let facets = event_facets env e in
      try_op (if facets = [] then ret_op () else s_record_facets (ci_id issue) facets) (\<lambda>_.
      try_op (s_attach_to_issue (ce_id e) (ci_id issue) fp version resolved_stack) (\<lambda>_.
      try_op (case ce_issue e of
                Some old \<Rightarrow> if old \<noteq> ci_id issue then s_detach_from_issue old (ce_sampled_count e) else ret_op ()
              | None \<Rightarrow> ret_op ()) (\<lambda>_.
        tell_issue env e issue created reopened))))"

definition group :: "client_env \<Rightarrow> client_event \<Rightarrow> unit client_op" where
  "group env e =
     (let (key, version, resolved_stack) = event_key env e in
      try_op new_uuid (\<lambda>new_id.
      try_op (s_upsert_issue (first_issue e key new_id)) (\<lambda>(issue, created).
      try_op (if created then ret_op False
              else s_touch_issue (ci_id issue) (ce_occurred_at e) (ce_level e) (ce_id e) (ce_sampled_count e)) (\<lambda>reopened.
        settle env e issue created reopened (fst key) version resolved_stack))))"

definition group_or_set_aside :: "client_env \<Rightarrow> client_event \<Rightarrow> unit client_op" where
  "group_or_set_aside env e =
     case_op (group env e) (\<lambda>err. s_mark_failed (ce_id e) err max_process_attempts) (\<lambda>_. ret_op ())"

definition process_batch :: "client_env \<Rightarrow> nat \<Rightarrow> nat client_op" where
  "process_batch env limit =
     try_op (s_claim_unprocessed limit max_process_attempts) (\<lambda>events.
     try_op (loop_op (group_or_set_aside env) events) (\<lambda>_. ret_op (length events)))"

text \<open>
  One tick of the worker (\<open>runClientErrorGrouping\<close> of \<open>api/services/ingestor/main.go\<close>): at most
  twenty batches, until one is not full.
\<close>

fun drain_batches :: "client_env \<Rightarrow> nat \<Rightarrow> nat \<Rightarrow> client_world \<Rightarrow> client_world" where
  "drain_batches env limit 0 w = w"
| "drain_batches env limit (Suc k) w =
     (case process_batch env limit w of
        (Inl _, w') \<Rightarrow> w'
      | (Inr n, w') \<Rightarrow> if n < limit then w' else drain_batches env limit k w')"

definition grouping_tick :: "client_env \<Rightarrow> nat \<Rightarrow> client_world \<Rightarrow> client_world" where
  "grouping_tick env limit = drain_batches env limit 20"

subsection \<open>Triage, purge and source maps\<close>

record update_issue =
  ut_status :: "string option"
  ut_assignee :: "uuid option option"

definition triaged :: "instant \<Rightarrow> string \<Rightarrow> client_issue \<Rightarrow> client_issue" where
  "triaged now status i =
     (let i' = (if status = ci_status i then i
                else if status = status_resolved then i\<lparr> ci_resolved_at := Some now, ci_regressed := False \<rparr>
                else i\<lparr> ci_resolved_at := None \<rparr>)
      in i'\<lparr> ci_status := status \<rparr>)"

definition update_issue_op :: "instant \<Rightarrow> client_issue \<Rightarrow> update_issue \<Rightarrow> client_issue client_op" where
  "update_issue_op now i ui =
     try_op (case ut_status ui of
               None \<Rightarrow> ret_op i
             | Some s \<Rightarrow> if valid_status s then ret_op (triaged now s i) else fail_op Err_invalid_status) (\<lambda>i.
       let i' = (case ut_assignee ui of None \<Rightarrow> i | Some a \<Rightarrow> i\<lparr> ci_assignee := a \<rparr>)
       in try_op (s_update_issue i') (\<lambda>_. ret_op i'))"

definition purge_org_op :: "uuid \<Rightarrow> nat client_op" where
  "purge_org_op org = s_purge_org org"

abbreviation max_artifact_bytes :: nat where "max_artifact_bytes \<equiv> 32 * 1024 * 1024"

definition generated_file_name :: "string \<Rightarrow> string" where
  "generated_file_name name =
     (let name = trim_space name;
        name = rev (takeWhile (\<lambda>c. c \<noteq> CHR ''/'') (rev name))
      in truncate_text (trim_suffix name ''.map'') 200)"

text \<open>
  \<open>strip\<close> drops the embedded sources of a map or refuses what is not one, and \<open>gzip\<close> compresses
  it: both are the JSON and gzip libraries' work.
\<close>

definition upload_artifact ::
  "(string \<Rightarrow> string option) \<Rightarrow> (string \<Rightarrow> string) \<Rightarrow> string \<Rightarrow> string \<Rightarrow> string \<Rightarrow> string \<Rightarrow> artifact client_op" where
  "upload_artifact strip gzip release file content uploader =
     (let release = trim_space release in
      if release = [] then fail_op Err_artifact_release
      else if content = [] then fail_op Err_artifact_empty
      else if max_artifact_bytes < length content then fail_op Err_artifact_too_large
      else case strip content of
        None \<Rightarrow> fail_op Err_artifact_invalid
      | Some stripped \<Rightarrow>
          try_op new_uuid (\<lambda>new_id.
            let a = \<lparr> af_id = new_id, af_release = truncate_text release max_release_len,
                af_file = generated_file_name file, af_content = gzip stripped,
                af_uploaded_by = truncate_text (trim_space uploader) 120, af_date_created = 0 \<rparr>
            in if af_file a = [] then fail_op Err_artifact_invalid
               else try_op (s_upsert_artifact a) (\<lambda>_.
                 try_op (s_mark_release_for_regroup (af_release a) resolved_fingerprint_version) (\<lambda>_.
                   ret_op a))))"

subsection \<open>The world's requests\<close>

datatype client_request =
    Report client_env reporter instant "new_client_event list"
  | Group_tick client_env nat
  | Triage instant uuid update_issue
  | Purge_org uuid
  | Upload "string \<Rightarrow> string option" "string \<Rightarrow> string" string string string string
  | Clock instant

definition quiet :: "'a client_op \<Rightarrow> client_world \<Rightarrow> client_world" where
  "quiet m w = snd (m w)"

fun client_step :: "client_request \<Rightarrow> client_world \<Rightarrow> client_world" where
  "client_step (Report env who now nes) w = quiet (ingest_reports env who now nes) w"
| "client_step (Group_tick env limit) w = grouping_tick env limit w"
| "client_step (Triage now issue ui) w =
     quiet (try_op (s_query_issue_by_id issue) (\<lambda>i. update_issue_op now i ui)) w"
| "client_step (Purge_org org) w = quiet (purge_org_op org) w"
| "client_step (Upload strip gzip release file content uploader) w =
     quiet (upload_artifact strip gzip release file content uploader) w"
| "client_step (Clock t) w = w\<lparr> cw_now := t \<rparr>"

definition client_run :: "client_request list \<Rightarrow> client_world \<Rightarrow> client_world" where
  "client_run qs w = foldl (\<lambda>w q. client_step q w) w qs"

definition empty_client_world :: "bool list \<Rightarrow> instant \<Rightarrow> client_world" where
  "empty_client_world faults now = \<lparr> cw_events = [], cw_issues = [], cw_facets = [], cw_artifacts = [],
     cw_notices = [], cw_fresh = 1, cw_faults = faults, cw_now = now \<rparr>"

subsection \<open>A small world to evaluate on\<close>

lemma normalize_Nil [simp]: "normalize_message [] = []"
  by (simp add: normalize_message_def)

lemma top_frames_Nil [simp]: "top_frames [] = []"
  by (simp add: top_frames_def parse_stack_def in_app_frames_def frame_of_def)

definition sample_env :: client_env where
  "sample_env = \<lparr> ge_digest = (\<lambda>s. s), ge_maps = None, ge_uuid_string = (\<lambda>_. ''u''), ge_notifier = True,
     ge_api_column = (\<lambda>a. a) \<rparr>"

definition sample_client_event :: client_event where
  "sample_client_event = \<lparr> ce_id = 1, ce_event_id = 70, ce_org = Some 10, ce_project = Some 20, ce_user = None,
     ce_role = [], ce_level = level_fatal, ce_kind = kind_react, ce_name = ''Boom'', ce_message = [],
     ce_stack = [], ce_component_stack = [], ce_resolved_stack = [], ce_release = [], ce_environment = [],
     ce_url = ''/in'', ce_user_agent = [], ce_api = None, ce_breadcrumbs = [], ce_occurred_at = 100,
     ce_received_at = 200, ce_fingerprint = [], ce_fingerprint_version = 0, ce_issue = None,
     ce_processed_at = None, ce_attempts = 0, ce_process_error = None, ce_sampled_count = 1 \<rparr>"

definition sample_client_world :: "bool list \<Rightarrow> client_world" where
  "sample_client_world faults = (empty_client_world faults 300)\<lparr> cw_events := [sample_client_event], cw_fresh := 2 \<rparr>"

lemma sample_client_fields [simp]:
  "cw_events (sample_client_world fs) = [sample_client_event]" "cw_issues (sample_client_world fs) = []"
  "cw_facets (sample_client_world fs) = []" "cw_notices (sample_client_world fs) = []"
  "cw_fresh (sample_client_world fs) = 2" "cw_faults (sample_client_world fs) = fs" "cw_now (sample_client_world fs) = 300"
  by (simp_all add: sample_client_world_def empty_client_world_def)

text \<open>The key of a report does not look at what the queue keeps with it.\<close>

lemma event_key_queue [simp]:
  "event_key env (e\<lparr> ce_attempts := n \<rparr>) = event_key env e"
  "event_key env (e\<lparr> ce_process_error := err \<rparr>) = event_key env e"
  "event_key env (e\<lparr> ce_processed_at := t \<rparr>) = event_key env e"
  "event_key env (e\<lparr> ce_issue := i \<rparr>) = event_key env e"
  by (simp_all add: event_key_def keyed_report_def split_beta Let_def)

lemma sample_event_key [simp]:
  "event_key sample_env sample_client_event = ((''react|Boom|'', ''Boom'', ''/in''), 1, [])"
  by (simp add: event_key_def resolve_stack_def sample_env_def sample_client_event_def keyed_report_def
      fingerprint_def fingerprint_parts_def issue_title_def issue_culprit_def truncate_text_short
      resolved_stack_or_empty_def)

lemma sample_event_fields [simp]:
  "ce_id sample_client_event = 1" "ce_org sample_client_event = Some 10" "ce_project sample_client_event = Some 20"
  "ce_user sample_client_event = None" "ce_level sample_client_event = level_fatal"
  "ce_kind sample_client_event = kind_react" "ce_release sample_client_event = []"
  "ce_occurred_at sample_client_event = 100" "ce_received_at sample_client_event = 200"
  "ce_issue sample_client_event = None" "ce_processed_at sample_client_event = None"
  "ce_attempts sample_client_event = 0" "ce_sampled_count sample_client_event = 1"
  "ge_notifier sample_env" "ge_uuid_string sample_env u = ''u''"
  by (simp_all add: sample_client_event_def sample_env_def)

text \<open>The definitions that evaluate a grouping.\<close>

lemmas group_eval = group_def settle_def new_uuid_def s_upsert_issue_def s_query_issue_by_fingerprint_def
  s_insert_issue_def client_call_def try_op_def case_op_def s_record_facets_def s_record_facet_def
  s_attach_to_issue_def tell_issue_def notify_client_def event_facets_def Let_def s_touch_issue_def
  group_or_set_aside_def s_mark_failed_def

end
