(* ===== verification/ClientInvariant.thy ===== *)
theory ClientInvariant
  imports ClientErrors
begin

text \<open>
  What holds of the tables of client error monitoring in every reachable world, statement by
  statement and operation by operation.
\<close>

definition event_ok :: "client_event \<Rightarrow> bool" where
  "event_ok e \<longleftrightarrow> ce_attempts e \<le> max_process_attempts \<and> 1 \<le> ce_sampled_count e
     \<and> valid_level (ce_level e) \<and> valid_kind (ce_kind e) \<and> ce_occurred_at e \<le> ce_received_at e + go_hour"

definition issue_ok :: "client_issue \<Rightarrow> bool" where
  "issue_ok i \<longleftrightarrow> valid_status (ci_status i) \<and> valid_level (ci_level i) \<and> valid_kind (ci_kind i)
     \<and> (ci_status i = status_resolved \<longleftrightarrow> ci_resolved_at i \<noteq> None)
     \<and> (ci_status i = status_resolved \<longrightarrow> \<not> ci_regressed i)
     \<and> 0 \<le> ci_event_count i \<and> ci_first_seen i \<le> ci_last_seen i"

definition scope_key :: "client_issue \<Rightarrow> uuid option \<times> uuid option \<times> string" where
  "scope_key i = (ci_project i, if ci_project i = None then ci_org i else None, ci_fingerprint i)"

lemma in_scope_key: "in_scope (ci_org i) (ci_project i) (ci_fingerprint i) x \<longleftrightarrow> scope_key x = scope_key i"
  by (auto simp: in_scope_def scope_key_def split: option.splits)

definition events_table_ok :: "client_event list \<Rightarrow> bool" where
  "events_table_ok es \<longleftrightarrow> distinct (map ce_id es) \<and> distinct (map ce_event_id es) \<and> (\<forall>e \<in> set es. event_ok e)"

definition issues_table_ok :: "client_issue list \<Rightarrow> bool" where
  "issues_table_ok is \<longleftrightarrow> distinct (map ci_id is) \<and> distinct (map scope_key is) \<and> (\<forall>i \<in> set is. issue_ok i)"

definition facets_table_ok :: "client_issue list \<Rightarrow> (uuid \<times> string \<times> string) list \<Rightarrow> bool" where
  "facets_table_ok is fs \<longleftrightarrow> distinct fs \<and> fst ` set fs \<subseteq> ci_id ` set is"

definition client_inv :: "client_world \<Rightarrow> bool" where
  "client_inv w \<longleftrightarrow> events_table_ok (cw_events w) \<and> issues_table_ok (cw_issues w)
     \<and> facets_table_ok (cw_issues w) (cw_facets w)"

lemma client_inv_other [simp]:
  "client_inv (w\<lparr> cw_faults := x \<rparr>) = client_inv w" "client_inv (w\<lparr> cw_notices := ns \<rparr>) = client_inv w"
  "client_inv (w\<lparr> cw_fresh := n \<rparr>) = client_inv w" "client_inv (w\<lparr> cw_artifacts := a \<rparr>) = client_inv w"
  "client_inv (w\<lparr> cw_now := t \<rparr>) = client_inv w"
  by (simp_all add: client_inv_def)

lemma keeps_client_call:
  assumes "\<And>w. client_inv w \<Longrightarrow> client_inv (snd (f w))"
  shows "keeps client_inv (client_call f)"
  using assms by (intro keepsI) (auto simp: client_call_def split: list.split)

subsection \<open>Statements on reports\<close>

lemma events_table_update:
  assumes "events_table_ok es" and "\<And>e. p e \<Longrightarrow> ce_id (f e) = ce_id e"
    and "\<And>e. p e \<Longrightarrow> ce_event_id (f e) = ce_event_id e" and "\<And>e. e \<in> set es \<Longrightarrow> p e \<Longrightarrow> event_ok (f e)"
  shows "events_table_ok (update_where p f es)"
  using assms map_update_where_same [of p ce_id f es] map_update_where_same [of p ce_event_id f es]
  unfolding events_table_ok_def by (auto simp: in_update_where)

lemma insert_new_ok:
  assumes "\<And>r. r \<in> set rows \<Longrightarrow> event_ok r" and "distinct (map ce_event_id es)" and "\<And>e. e \<in> set es \<Longrightarrow> event_ok e"
  shows "distinct (map ce_event_id (insert_new rows es)) \<and> (\<forall>e \<in> set (insert_new rows es). event_ok e)"
  using assms
proof (induction rows arbitrary: es)
  case (Cons r rows)
  let ?es = "if \<exists>x \<in> set es. ce_event_id x = ce_event_id r then es else es @ [r]"
  have "insert_new (r # rows) es = insert_new rows ?es" by (simp add: insert_new_def)
  moreover have "distinct (map ce_event_id ?es) \<and> (\<forall>e \<in> set ?es. event_ok e)"
    using Cons.prems by (auto simp: image_iff)
  ultimately show ?case using Cons.IH [of ?es] Cons.prems(1) by (simp only:) (auto split: if_splits)
qed (simp add: insert_new_def)

lemma keeps_ingest:
  assumes "\<And>r. r \<in> set rows \<Longrightarrow> event_ok r"
  shows "keeps client_inv (s_ingest rows)"
proof -
  have "events_table_ok (insert_new rows es)"
    if "events_table_ok es" "distinct (map ce_id (insert_new rows es))" for es
    using that insert_new_ok [OF assms, of rows es] by (simp add: events_table_ok_def)
  then show ?thesis
    unfolding s_ingest_def by (auto simp: Let_def client_inv_def intro!: keeps_client_call)
qed

lemma in_claimed: "e \<in> set (claimed_rows limit m es) \<Longrightarrow> e \<in> set es \<and> claimable m e"
  unfolding claimed_rows_def by (auto dest: in_set_takeD)

lemma event_ok_count: "event_ok e \<Longrightarrow> claimable max_process_attempts e \<Longrightarrow> event_ok (count_attempt e)"
  by (simp add: event_ok_def claimable_def count_attempt_def)

lemma claimed_by_id:
  assumes "distinct (map ce_id es)" and "e \<in> set es" and "ce_id e \<in> ce_id ` set (claimed_rows limit m es)"
  shows "e \<in> set (claimed_rows limit m es)"
proof -
  from assms(3) obtain x where x: "x \<in> set (claimed_rows limit m es)" "ce_id e = ce_id x" by auto
  then have "x \<in> set es" using in_claimed by blast
  with assms(1,2) x(2) have "e = x" by (auto simp: distinct_map dest: inj_onD)
  with x(1) show ?thesis by simp
qed

lemma claimed_update_ok:
  assumes "events_table_ok es" and "rows = claimed_rows limit max_process_attempts es"
  shows "events_table_ok (update_where (\<lambda>e. ce_id e \<in> ce_id ` set rows) count_attempt es)"
    and "\<And>e. e \<in> set rows \<Longrightarrow> event_ok (count_attempt e)"
proof -
  have d: "distinct (map ce_id es)" and ok: "\<And>e. e \<in> set es \<Longrightarrow> event_ok e"
    using assms(1) by (auto simp: events_table_ok_def)
  show rows: "event_ok (count_attempt e)" if "e \<in> set rows" for e
    using in_claimed that ok event_ok_count unfolding assms(2) by blast
  show "events_table_ok (update_where (\<lambda>e. ce_id e \<in> ce_id ` set rows) count_attempt es)"
  proof (rule events_table_update [OF assms(1)])
    fix e assume "e \<in> set es" "ce_id e \<in> ce_id ` set rows"
    then show "event_ok (count_attempt e)" using claimed_by_id [OF d] rows unfolding assms(2) by blast
  qed (simp_all add: count_attempt_def)
qed

lemma claim_cases:
  assumes "s_claim_unprocessed limit m w = (r, w')"
  obtains bs where "r = Inl Err_client_db" and "w' = w\<lparr> cw_faults := bs \<rparr>"
  | bs where "r = Inr (map count_attempt (claimed_rows limit m (cw_events w)))"
    and "w' = w\<lparr> cw_faults := bs, cw_events :=
      update_where (\<lambda>e. ce_id e \<in> ce_id ` set (claimed_rows limit m (cw_events w))) count_attempt (cw_events w) \<rparr>"
  using assms unfolding s_claim_unprocessed_def
proof (cases rule: client_call_cases)
  case (Call bs)
  then show thesis by (intro that(2) [of bs]) (simp_all add: Let_def)
qed (rule that(1))

lemma claim_inv:
  assumes "client_inv w" and "s_claim_unprocessed limit max_process_attempts w = (r, w')"
  shows "client_inv w' \<and> (\<forall>es. r = Inr es \<longrightarrow> (\<forall>e \<in> set es. event_ok e))"
  using assms(2)
proof (cases rule: claim_cases)
  case (2 bs)
  have "events_table_ok (cw_events w)" using assms(1) by (simp add: client_inv_def)
  from claimed_update_ok [OF this refl] 2 assms(1) show ?thesis by (simp add: client_inv_def)
qed (use assms(1) in simp)

lemma update_events_inv:
  assumes "client_inv w" and "\<And>e. ce_id (f e) = ce_id e" and "\<And>e. ce_event_id (f e) = ce_event_id e"
    and "\<And>e. event_ok e \<Longrightarrow> event_ok (f e)"
  shows "client_inv (w\<lparr> cw_events := update_where p f (cw_events w) \<rparr>)"
proof -
  have "events_table_ok (update_where p f (cw_events w))"
    by (rule events_table_update) (use assms in \<open>auto simp: client_inv_def events_table_ok_def\<close>)
  then show ?thesis using assms(1) by (simp add: client_inv_def)
qed

lemma keeps_report_statements:
  "keeps client_inv (s_attach_to_issue ev i fp v st)" "keeps client_inv (s_mark_failed ev r m)"
  "keeps client_inv (s_mark_release_for_regroup release below)"
  unfolding s_attach_to_issue_def s_mark_failed_def s_mark_release_for_regroup_def
  by (auto simp: Let_def attach_event_def fail_event_def requeue_def event_ok_def
      intro!: keeps_client_call update_events_inv)

subsection \<open>Statements on issues\<close>

lemma issues_table_update:
  assumes "issues_table_ok is" and "\<And>i. p i \<Longrightarrow> ci_id (f i) = ci_id i" and "\<And>i. p i \<Longrightarrow> scope_key (f i) = scope_key i"
    and "\<And>i. i \<in> set is \<Longrightarrow> p i \<Longrightarrow> issue_ok i \<Longrightarrow> issue_ok (f i)"
  shows "issues_table_ok (update_where p f is)"
  using assms map_update_where_same [of p ci_id f "is"] map_update_where_same [of p scope_key f "is"]
  unfolding issues_table_ok_def by (auto simp: in_update_where)

lemma facets_table_update:
  assumes "\<And>i. p i \<Longrightarrow> ci_id (f i) = ci_id i"
  shows "facets_table_ok (update_where p f is) fs = facets_table_ok is fs"
  using map_update_where_same [of p ci_id f "is"] assms
  unfolding facets_table_ok_def by (metis list.set_map)

lemma update_issues_inv:
  assumes "client_inv w" and "\<And>i. p i \<Longrightarrow> ci_id (f i) = ci_id i" and "\<And>i. p i \<Longrightarrow> scope_key (f i) = scope_key i"
    and "\<And>i. i \<in> set (cw_issues w) \<Longrightarrow> p i \<Longrightarrow> issue_ok i \<Longrightarrow> issue_ok (f i)"
  shows "client_inv (w\<lparr> cw_issues := update_where p f (cw_issues w) \<rparr>)"
proof -
  have "issues_table_ok (update_where p f (cw_issues w))"
    by (rule issues_table_update) (use assms in \<open>auto simp: client_inv_def\<close>)
  then show ?thesis using assms(1) facets_table_update [of p f, OF assms(2)] by (simp add: client_inv_def)
qed

lemma keeps_client_queries:
  "keeps client_inv (s_query_issue_by_fingerprint c p fp)" "keeps client_inv (s_query_issue_by_id i)"
  unfolding s_query_issue_by_fingerprint_def s_query_issue_by_id_def
  by (auto split: option.split intro!: keeps_client_call)

lemma keeps_insert:
  assumes "valid_level (ci_level i)" and "valid_kind (ci_kind i)" and "ci_status i = status_unresolved"
  shows "keeps client_inv (s_insert_issue i)"
proof -
  have new: "ci_id (inserted_issue i) = ci_id i" "scope_key (inserted_issue i) = scope_key i" "issue_ok (inserted_issue i)"
    using assms by (simp_all add: inserted_issue_def scope_key_def issue_ok_def valid_status_def)
  show ?thesis
    unfolding s_insert_issue_def using new
    by (intro keeps_client_call)
      (auto simp: in_scope_key client_inv_def issues_table_ok_def facets_table_ok_def image_iff)
qed

lemma touch_level_valid: "valid_level old \<Longrightarrow> valid_level new \<Longrightarrow> valid_level (touch_level old new)"
  by (simp add: touch_level_def)

lemma keeps_touch:
  assumes "valid_level level" and "0 \<le> count"
  shows "keeps client_inv (s_touch_issue i t level sample count)"
proof -
  have ok: "issue_ok (touch t level sample count x)" if "issue_ok x" for x
    using that assms touch_level_valid [of "ci_level x" level]
    by (auto simp: issue_ok_def touch_def valid_status_def)
  have same: "ci_id (touch t level sample count x) = ci_id x" "scope_key (touch t level sample count x) = scope_key x" for x
    by (simp_all add: touch_def scope_key_def)
  show ?thesis
    unfolding s_touch_issue_def
    by (intro keeps_client_call) (auto simp: Let_def same ok split: option.split intro!: update_issues_inv)
qed

lemma keeps_facets: "keeps client_inv (s_record_facets i facets)"
proof -
  have "keeps client_inv (s_record_facet i f v)" for f v
    unfolding s_record_facet_def
    by (intro keeps_client_call) (auto simp: Let_def client_inv_def facets_table_ok_def)
  then have "keeps client_inv (case x of (f, vs) \<Rightarrow> loop_op (\<lambda>v. if v = [] then ret_op () else s_record_facet i f v) vs)" for x
    by (cases x) auto
  then show ?thesis unfolding s_record_facets_def by (intro keeps_loop)
qed

lemma drop_issues_inv:
  assumes "client_inv w"
  shows "client_inv (drop_issues p w)"
proof -
  have d: "distinct (map g (filter q xs))" if "distinct (map g xs)" for g :: "client_issue \<Rightarrow> 'b" and q xs
    using that by (rule distinct_map_filter)
  show ?thesis
    using assms unfolding client_inv_def drop_issues_def issues_table_ok_def facets_table_ok_def
    by (auto simp: d)
qed

lemma keeps_removals: "keeps client_inv (s_detach_from_issue i n)" "keeps client_inv (s_purge_org c)"
proof -
  have "client_inv (w\<lparr> cw_issues := update_where (\<lambda>x. ci_id x = i)
      (\<lambda>x. x\<lparr> ci_event_count := max (ci_event_count x - n) 0 \<rparr>) (cw_issues w) \<rparr>)" if "client_inv w" for w
    using that by (rule update_issues_inv) (simp_all add: scope_key_def issue_ok_def)
  then show "keeps client_inv (s_detach_from_issue i n)"
    unfolding s_detach_from_issue_def by (intro keeps_client_call) (simp add: Let_def drop_issues_inv)
  have "events_table_ok es \<Longrightarrow> events_table_ok (filter q es)" for es q
    by (simp add: events_table_ok_def distinct_map_filter)
  then have "client_inv (w\<lparr> cw_events := filter q (cw_events w) \<rparr>)" if "client_inv w" for w q
    using that by (simp add: client_inv_def)
  then show "keeps client_inv (s_purge_org c)"
    unfolding s_purge_org_def by (intro keeps_client_call) (simp add: drop_issues_inv)
qed

subsection \<open>Operations\<close>

lemma keeps_new_uuid: "keeps client_inv new_uuid"
  by (intro keepsI) (simp add: new_uuid_def)

lemma keeps_upsert:
  assumes "valid_level (ci_level i)" and "valid_kind (ci_kind i)" and "ci_status i = status_unresolved"
  shows "keeps client_inv (s_upsert_issue i)"
  unfolding s_upsert_issue_def using assms
  by (auto intro!: keeps_case keeps_try keeps_client_queries keeps_insert)

lemma keeps_tell: "keeps client_inv (tell_issue env e i created reopened)"
  by (intro keepsI) (simp add: tell_issue_def notify_client_def)

lemma keeps_settle: "keeps client_inv (settle env e i created reopened fp version st)"
  unfolding settle_def Let_def
  by (auto split: option.split
      intro!: keeps_try keeps_facets keeps_report_statements keeps_removals keeps_tell)

lemma keeps_group:
  assumes "event_ok e"
  shows "keeps client_inv (group env e)"
proof -
  have ok: "valid_level (ce_level e)" "valid_kind (ce_kind e)" "0 \<le> ce_sampled_count e"
    using assms by (simp_all add: event_ok_def)
  have first: "ci_level (first_issue e key i) = ce_level e" "ci_kind (first_issue e key i) = ce_kind e"
    "ci_status (first_issue e key i) = status_unresolved" for key i
    by (simp_all add: first_issue_def split: prod.split)
  show ?thesis
    unfolding group_def Let_def
    by (auto split: prod.split simp: first ok
        intro!: keeps_try keeps_new_uuid keeps_upsert keeps_touch keeps_settle)
qed

lemma keeps_group_or_set_aside: "event_ok e \<Longrightarrow> keeps client_inv (group_or_set_aside env e)"
  unfolding group_or_set_aside_def by (intro keeps_case keeps_group keeps_report_statements keeps_ret)

lemma keeps_process_batch: "keeps client_inv (process_batch env limit)"
proof (rule keepsI)
  fix w assume w: "client_inv w"
  obtain r w1 where c: "s_claim_unprocessed limit max_process_attempts w = (r, w1)" by fastforce
  note inv = claim_inv [OF w c]
  show "client_inv (snd (process_batch env limit w))"
  proof (cases r)
    case (Inl err)
    then show ?thesis using c inv by (simp add: process_batch_def)
  next
    case (Inr es)
    then have "keeps client_inv (try_op (loop_op (group_or_set_aside env) es) (\<lambda>_. ret_op (length es)))"
      using inv by (intro keeps_try keeps_loop keeps_ret keeps_group_or_set_aside) auto
    then show ?thesis using c inv Inr by (simp add: process_batch_def keepsD)
  qed
qed

lemma drain_inv: "client_inv w \<Longrightarrow> client_inv (drain_batches env limit k w)"
proof (induction k arbitrary: w)
  case (Suc k)
  then have "client_inv (snd (process_batch env limit w))" by (rule_tac keepsD [OF keeps_process_batch])
  then show ?case using Suc.IH by (auto split: prod.split sum.split)
qed simp

lemma normalized_report_ok:
  "valid_level (ne_level (normalized_report ne))" "valid_kind (ne_kind (normalized_report ne))"
  "1 \<le> ne_sampled_count (normalized_report ne)" "ne_name (normalized_report ne) \<noteq> []"
  by (auto simp: normalized_report_def scrub_def valid_level_def valid_kind_def Let_def)

lemma stored_event_ok: "event_ok (stored_event env who now i j (normalized_report ne))"
  by (simp add: event_ok_def stored_event_def normalized_report_ok occurred_time_def)

lemma prepare_events_ok:
  assumes "prepare_events env who now nes w = (r, w')"
  shows "client_inv w \<longrightarrow> client_inv w'" and "\<exists>es. r = Inr es \<and> length es = length nes \<and> (\<forall>e \<in> set es. event_ok e)"
    and "cw_events w' = cw_events w \<and> cw_faults w' = cw_faults w"
proof -
  have "(client_inv w \<longrightarrow> client_inv w') \<and> (\<exists>es. r = Inr es \<and> length es = length nes \<and> (\<forall>e \<in> set es. event_ok e))
    \<and> cw_events w' = cw_events w \<and> cw_faults w' = cw_faults w"
    using assms
  proof (induction nes arbitrary: w r w')
    case (Cons ne nes)
    obtain id1 w1 where 1: "(if ne_event_id (normalized_report ne) = uuid_nil then new_uuid
        else ret_op (ne_event_id (normalized_report ne))) w = (Inr id1, w1)"
      and w1: "client_inv w \<longrightarrow> client_inv w1" "cw_events w1 = cw_events w" "cw_faults w1 = cw_faults w"
      by (cases "ne_event_id (normalized_report ne) = uuid_nil") (auto simp: new_uuid_def)
    let ?w2 = "w1\<lparr> cw_fresh := Suc (cw_fresh w1) \<rparr>"
    obtain q w3 where 3: "prepare_events env who now nes ?w2 = (q, w3)" by fastforce
    from Cons.IH [OF this] obtain es where "q = Inr es" "length es = length nes" "\<forall>e \<in> set es. event_ok e"
      and "client_inv ?w2 \<longrightarrow> client_inv w3" "cw_events w3 = cw_events ?w2" "cw_faults w3 = cw_faults ?w2" by blast
    then show ?case
      using Cons.prems 1 3 w1 by (auto simp: Let_def try_op_def new_uuid_def stored_event_ok)
  qed simp
  then show "client_inv w \<longrightarrow> client_inv w'" and "\<exists>es. r = Inr es \<and> length es = length nes \<and> (\<forall>e \<in> set es. event_ok e)"
    and "cw_events w' = cw_events w \<and> cw_faults w' = cw_faults w" by blast+
qed

lemma keeps_ingest_reports: "keeps client_inv (ingest_reports env who now nes)"
proof (rule keepsI)
  fix w assume w: "client_inv w"
  obtain r w1 where p: "prepare_events env who now nes w = (r, w1)" by fastforce
  from prepare_events_ok [OF p] w obtain es where "r = Inr es" "\<forall>e \<in> set es. event_ok e" "client_inv w1" by blast
  then show "client_inv (snd (ingest_reports env who now nes w))"
    using w p keepsD [OF keeps_ingest, of es w1] by (simp add: ingest_reports_def)
qed

lemma triaged_ok: "issue_ok i \<Longrightarrow> valid_status s \<Longrightarrow> issue_ok (triaged now s i)"
  by (auto simp: issue_ok_def triaged_def Let_def)

text \<open>A triage decision keeps the invariant when the issue it starts from is a row of the table.\<close>

lemma update_issue_inv:
  assumes "client_inv w" and "issue_ok i"
  shows "client_inv (snd (update_issue_op now i ui w))"
proof -
  have store: "client_inv (snd (s_update_issue j w))" if "issue_ok j" for j
  proof -
    have "client_inv (w\<lparr> cw_issues := update_where (\<lambda>x. ci_id x = ci_id j)
        (\<lambda>x. x\<lparr> ci_status := ci_status j, ci_regressed := ci_regressed j, ci_resolved_at := ci_resolved_at j,
          ci_assignee := ci_assignee j \<rparr>) (cw_issues w) \<rparr>)" if "client_inv w" for w
      using that by (rule update_issues_inv) (use \<open>issue_ok j\<close> in \<open>auto simp: scope_key_def issue_ok_def\<close>)
    then have "keeps client_inv (s_update_issue j)" unfolding s_update_issue_def by (intro keeps_client_call) simp
    then show ?thesis using assms(1) by (rule keepsD)
  qed
  have given: "client_inv (snd (try_op (s_update_issue j) (\<lambda>_. ret_op j) w))" if "issue_ok j" for j
    using store [OF that] by (cases "s_update_issue j w"; cases "fst (s_update_issue j w)") (auto simp: try_op_def)
  have assign: "issue_ok (case ut_assignee ui of None \<Rightarrow> j | Some a \<Rightarrow> j\<lparr> ci_assignee := a \<rparr>)" if "issue_ok j" for j
    using that by (simp add: issue_ok_def split: option.split)
  show ?thesis
    using assms given assign triaged_ok [OF assms(2)]
    by (auto simp: update_issue_op_def try_op_def [of "ret_op _"] Let_def split: option.split)
qed

lemma client_inv_step:
  assumes w: "client_inv w"
  shows "client_inv (client_step q w)"
proof (cases q)
  case (Triage now issue ui)
  obtain r w1 where i: "s_query_issue_by_id issue w = (r, w1)" by fastforce
  have w1: "client_inv w1" using keepsD [OF keeps_client_queries(2) w, of issue] i by simp
  show ?thesis
  proof (cases r)
    case (Inr j)
    then have "j \<in> set (cw_issues w1)"
      using i by (auto simp: s_query_issue_by_id_def client_call_def dest: find_SomeD split: list.splits option.splits if_splits)
    then have "issue_ok j" using w1 by (simp add: client_inv_def issues_table_ok_def)
    then show ?thesis using Triage i Inr update_issue_inv [OF w1] by (simp add: quiet_def)
  qed (use Triage i w1 in \<open>simp add: quiet_def\<close>)
next
  case (Upload strip gzip release name content uploader)
  have "keeps client_inv (s_upsert_artifact a)" for a
    unfolding s_upsert_artifact_def by (intro keeps_client_call) (simp add: Let_def)
  then have "keeps client_inv (upload_artifact strip gzip release name content uploader)"
    unfolding upload_artifact_def Let_def
    by (auto split: option.split intro!: keeps_try keeps_new_uuid keeps_report_statements)
  then show ?thesis using Upload w by (simp add: quiet_def keepsD)
qed (simp_all add: quiet_def w keepsD [OF keeps_ingest_reports] keepsD [OF keeps_removals(2)] purge_org_op_def
    grouping_tick_def drain_inv)

lemma client_inv_run: "client_inv w \<Longrightarrow> client_inv (client_run qs w)"
  unfolding client_run_def by (induction qs arbitrary: w) (simp_all add: client_inv_step)

lemma client_inv_empty: "client_inv (empty_client_world faults now)"
  by (simp add: client_inv_def empty_client_world_def events_table_ok_def issues_table_ok_def facets_table_ok_def)


text \<open>The small world keeps it.\<close>

lemma sample_client_inv: "client_inv (sample_client_world fs)"
  by (simp add: client_inv_def events_table_ok_def issues_table_ok_def facets_table_ok_def event_ok_def
      sample_client_event_def valid_level_def valid_kind_def)


end
