(* ===== verification/ClientGrouping.thy ===== *)
theory ClientGrouping
  imports ClientInvariant
begin

text \<open>
  What grouping does: a delivered batch is stored once, a grouped report is filed under an issue of
  its own scope that is seen, unresolved and at least as severe, and the queue runs dry whatever
  fails on the way.
\<close>

subsection \<open>A batch is stored once\<close>

lemma insert_new_Cons:
  "insert_new (q # rows) es =
     insert_new rows (if \<exists>x \<in> set es. ce_event_id x = ce_event_id q then es else es @ [q])"
  by (simp add: insert_new_def)

lemma insert_new_keeps: "x \<in> set es \<Longrightarrow> x \<in> set (insert_new rows es)"
  by (induction rows arbitrary: es) (simp_all add: insert_new_Cons, simp add: insert_new_def)

lemma insert_new_present: "r \<in> set rows \<Longrightarrow> ce_event_id r \<in> ce_event_id ` set (insert_new rows es)"
proof (induction rows arbitrary: es)
  case (Cons q rows)
  let ?es = "if \<exists>x \<in> set es. ce_event_id x = ce_event_id q then es else es @ [q]"
  have "ce_event_id q \<in> ce_event_id ` set ?es" by (auto; metis imageI)
  then have "ce_event_id q \<in> ce_event_id ` set (insert_new rows ?es)" using insert_new_keeps by blast
  then show ?case using Cons.IH [of ?es] Cons.prems unfolding insert_new_Cons by (metis set_ConsD)
qed simp

lemma insert_new_again:
  "(\<And>r. r \<in> set rows \<Longrightarrow> ce_event_id r \<in> ce_event_id ` set es) \<Longrightarrow> insert_new rows es = es"
proof (induction rows)
  case (Cons q rows)
  from Cons.prems [of q] have "\<exists>x \<in> set es. ce_event_id x = ce_event_id q" by auto
  then have "insert_new (q # rows) es = insert_new rows es" by (simp add: insert_new_def)
  with Cons show ?case by simp
qed (simp add: insert_new_def)

lemma length_insert_new: "length es \<le> length (insert_new rows es)"
proof (induction rows arbitrary: es)
  case (Cons q rows)
  have "length es \<le> length (insert_new rows es)" "length (es @ [q]) \<le> length (insert_new rows (es @ [q]))"
    using Cons.IH by blast+
  then show ?case by (simp add: insert_new_def)
qed (simp add: insert_new_def)

lemma normalized_report_id: "ne_event_id (normalized_report ne) = ne_event_id ne"
  by (simp add: normalized_report_def scrub_def Let_def)

lemma prepare_event_ids:
  assumes "\<And>ne. ne \<in> set nes \<Longrightarrow> ne_event_id ne \<noteq> uuid_nil" and "prepare_events env who now nes w = (Inr es, w')"
  shows "map ce_event_id es = map ne_event_id nes"
  using assms
proof (induction nes arbitrary: w es w')
  case (Cons ne nes)
  from Cons.prems(1) [of ne] have id: "ne_event_id (normalized_report ne) \<noteq> uuid_nil"
    by (simp add: normalized_report_id)
  obtain q w3 where 3: "prepare_events env who now nes (w\<lparr> cw_fresh := Suc (cw_fresh w) \<rparr>) = (q, w3)" by fastforce
  from prepare_events_ok(2) [OF this] obtain rest where q: "q = Inr rest" by blast
  have "map ce_event_id rest = map ne_event_id nes" using Cons.IH [OF _ 3 [unfolded q]] Cons.prems(1) by simp
  moreover have "es = stored_event env who now (cw_fresh w) (ne_event_id ne) (normalized_report ne) # rest"
    using Cons.prems(2) id 3 q by (simp add: Let_def try_op_def new_uuid_def normalized_report_id)
  ultimately show ?case by (simp add: stored_event_def)
qed simp

lemma ingest_reports_cases:
  assumes "ingest_reports env who now nes w = (Inr n, w')"
  obtains es w1 bs where "prepare_events env who now nes w = (Inr es, w1)" and "cw_events w1 = cw_events w"
    and "es \<noteq> []" and "length es = length nes"
    and "w' = w1\<lparr> cw_faults := bs, cw_events := insert_new es (cw_events w) \<rparr>"
    and "n = length (insert_new es (cw_events w)) - length (cw_events w)"
proof -
  obtain r w1 where p: "prepare_events env who now nes w = (r, w1)" by fastforce
  from prepare_events_ok(2,3) [OF p] obtain es where
    es: "r = Inr es" "length es = length nes" "cw_events w1 = cw_events w" by blast
  have ne: "nes \<noteq> []" "\<not> max_batch_events < length nes" using assms by (auto simp: ingest_reports_def split: if_splits)
  then have "es \<noteq> []" using es(2) by auto
  have s: "s_ingest es w1 = (Inr n, w')" using assms p es ne by (simp add: ingest_reports_def)
  then have "client_call (\<lambda>w. let t = insert_new es (cw_events w)
     in if distinct (map ce_id t)
        then (Inr (length t - length (cw_events w)), w\<lparr> cw_events := t \<rparr>)
        else (Inl Err_client_db, w)) w1 = (Inr n, w')"
    using \<open>es \<noteq> []\<close> by (simp add: s_ingest_def)
  then show thesis
  proof (cases rule: client_call_cases)
    case (Call bs)
    then show ?thesis
      using p es \<open>es \<noteq> []\<close> by (intro that [of es w1 bs]) (auto simp: Let_def split: if_splits)
  qed simp
qed

text \<open>
  C29: delivering a batch twice stores it once. When a batch whose reports carry their identifiers
  has been accepted, each of its reports is one row, as many rows were added as were said to be,
  and delivering the batch again, whoever delivers it and whenever, is accepted, adds nothing and
  says so.
\<close>

theorem ingest_idempotent:
  assumes "client_inv w" and "\<And>ne. ne \<in> set nes \<Longrightarrow> ne_event_id ne \<noteq> uuid_nil"
    and "ingest_reports env who now nes w = (Inr n, w1)" and "cw_faults w1 = []"
  shows "length (cw_events w1) = length (cw_events w) + n
    \<and> (\<forall>ne \<in> set nes. length (filter (\<lambda>e. ce_event_id e = ne_event_id ne) (cw_events w1)) = 1)
    \<and> fst (ingest_reports env' who' now' nes w1) = Inr 0
    \<and> cw_events (snd (ingest_reports env' who' now' nes w1)) = cw_events w1"
proof -
  from assms(3) obtain es wp bs where p: "prepare_events env who now nes w = (Inr es, wp)"
    and w1: "w1 = wp\<lparr> cw_faults := bs, cw_events := insert_new es (cw_events w) \<rparr>"
    and n: "n = length (insert_new es (cw_events w)) - length (cw_events w)"
    by (rule ingest_reports_cases)
  have inv1: "client_inv w1" using keepsD [OF keeps_ingest_reports assms(1)] assms(3) by (metis snd_conv)
  have ids: "map ce_event_id es = map ne_event_id nes" using prepare_event_ids [OF assms(2) p] .
  have present: "ne_event_id ne \<in> ce_event_id ` set (cw_events w1)" if "ne \<in> set nes" for ne
  proof -
    from that ids obtain r where "r \<in> set es" "ce_event_id r = ne_event_id ne"
      by (metis (no_types, lifting) imageE image_eqI list.set_map)
    then show ?thesis using insert_new_present [of r es "cw_events w"] w1 by simp
  qed
  have one: "length (filter (\<lambda>e. ce_event_id e = ne_event_id ne) (cw_events w1)) = 1" if "ne \<in> set nes" for ne
  proof -
    have "filter (\<lambda>e. ce_event_id e = ne_event_id ne) (cw_events w1) \<noteq> []"
      using present [OF that] by (auto simp: filter_empty_conv)
    moreover have "length (filter (\<lambda>e. ce_event_id e = ne_event_id ne) (cw_events w1)) \<le> 1"
      by (rule length_filter_le_1 [where f = ce_event_id]) (use inv1 in \<open>auto simp: client_inv_def events_table_ok_def\<close>)
    ultimately show ?thesis by (simp add: le_Suc_eq)
  qed
  obtain r w2 where p2: "prepare_events env' who' now' nes w1 = (r, w2)" by fastforce
  from prepare_events_ok(2,3) [OF p2] obtain es2 where es2: "r = Inr es2" "length es2 = length nes"
    "cw_events w2 = cw_events w1" "cw_faults w2 = cw_faults w1" by blast
  have again: "insert_new es2 (cw_events w1) = cw_events w1"
  proof (rule insert_new_again)
    fix r assume "r \<in> set es2"
    then have "ce_event_id r \<in> ne_event_id ` set nes"
      using prepare_event_ids [OF assms(2) p2 [unfolded es2(1)]] by (metis image_eqI list.set_map)
    then show "ce_event_id r \<in> ce_event_id ` set (cw_events w1)" using present by auto
  qed
  have "nes \<noteq> [] \<and> \<not> max_batch_events < length nes"
    using assms(3) by (auto simp: ingest_reports_def split: if_splits)
  moreover have "distinct (map ce_id (cw_events w1))" using inv1 by (simp add: client_inv_def events_table_ok_def)
  ultimately have "ingest_reports env' who' now' nes w1 = (Inr 0, w2\<lparr> cw_events := cw_events w1 \<rparr>)"
    using p2 es2 again assms(4)
    by (auto simp: ingest_reports_def s_ingest_def client_call_ok Let_def)
  then show ?thesis using n w1 one length_insert_new [of "cw_events w" es] by simp
qed

definition sample_reporter :: reporter where
  "sample_reporter = \<lparr> rp_user = None, rp_org = Some 10, rp_project = Some 20, rp_role = [] \<rparr>"

lemma sample_ingest:
  "fst (ingest_reports sample_env sample_reporter 5 [sample_report] (sample_client_world [])) = Inr 1"
  "cw_faults (snd (ingest_reports sample_env sample_reporter 5 [sample_report] (sample_client_world []))) = []"
proof -
  have "ne_event_id sample_report = 7" by (simp add: sample_report_def)
  then show "fst (ingest_reports sample_env sample_reporter 5 [sample_report] (sample_client_world [])) = Inr 1"
    "cw_faults (snd (ingest_reports sample_env sample_reporter 5 [sample_report] (sample_client_world []))) = []"
    by (simp_all add: ingest_reports_def Let_def try_op_def normalized_report_id new_uuid_def s_ingest_def client_call_def
        insert_new_def stored_event_def sample_client_event_def)
qed

theorem ingest_idempotent_witness:
  "fst (ingest_reports sample_env sample_reporter 9 [sample_report]
     (snd (ingest_reports sample_env sample_reporter 5 [sample_report] (sample_client_world [])))) = Inr 0"
proof -
  let ?m = "ingest_reports sample_env sample_reporter 5 [sample_report] (sample_client_world [])"
  have "?m = (Inr 1, snd ?m)" using sample_ingest(1) by (simp add: prod_eq_iff)
  then show ?thesis
    using ingest_idempotent [where w = "sample_client_world []" and nes = "[sample_report]" and env = sample_env
        and who = sample_reporter and now = 5 and n = 1 and env' = sample_env and who' = sample_reporter
        and now' = 9, OF sample_client_inv _ _ sample_ingest(2)]
    by (simp add: sample_report_def)
qed

subsection \<open>A grouped report is filed\<close>

definition level_rank :: "string \<Rightarrow> nat" where
  "level_rank l = (if l = level_fatal then 2 else if l = level_error then 1 else 0)"

text \<open>How an issue stands to a report filed under it.\<close>

definition covers_report :: "client_env \<Rightarrow> client_event \<Rightarrow> client_issue \<Rightarrow> bool" where
  "covers_report env e i \<longleftrightarrow>
     in_scope (ce_org e) (ce_project e) (fst (fst (event_key env e))) i
     \<and> ci_first_seen i \<le> ce_occurred_at e \<and> ce_occurred_at e \<le> ci_last_seen i
     \<and> level_rank (ce_level e) \<le> level_rank (ci_level i) \<and> ci_status i \<noteq> status_resolved"

lemma level_rank_touch:
  "valid_level old \<Longrightarrow> valid_level new \<Longrightarrow> level_rank new \<le> level_rank (touch_level old new)"
  by (auto simp: level_rank_def touch_level_def valid_level_def)

lemma covers_first: "covers_report env e (inserted_issue (first_issue e (fst (event_key env e)) i))"
  by (auto simp: covers_report_def inserted_issue_def first_issue_def in_scope_def split: prod.split option.split)

lemma covers_touch:
  assumes "in_scope (ce_org e) (ce_project e) (fst (fst (event_key env e))) x" and "valid_level (ci_level x)"
    and "valid_level (ce_level e)"
  shows "covers_report env e (touch (ce_occurred_at e) (ce_level e) sample n x)"
  using assms level_rank_touch
  by (auto simp: covers_report_def touch_def in_scope_def split: option.splits)

text \<open>The statements that succeed, on the tables they leave.\<close>

lemma query_fingerprint_cases:
  assumes "s_query_issue_by_fingerprint c p fp w = (r, w')"
  obtains bs where "r = Inl Err_client_db" and "w' = w\<lparr> cw_faults := bs \<rparr>"
  | bs where "r = Inl Err_issue_not_found" and "List.find (in_scope c p fp) (cw_issues w) = None" and "w' = w\<lparr> cw_faults := bs \<rparr>"
  | i bs where "r = Inr i" and "List.find (in_scope c p fp) (cw_issues w) = Some i" and "w' = w\<lparr> cw_faults := bs \<rparr>"
  using assms unfolding s_query_issue_by_fingerprint_def
proof (cases rule: client_call_cases)
  case (Call bs)
  then show thesis
    by (cases "List.find (in_scope c p fp) (cw_issues w)") (use that(2) [of bs] that(3) [of _ bs] in auto)
qed (rule that(1))

lemma insert_done:
  assumes "s_insert_issue i w = (Inr x, w')"
  obtains bs where "w' = w\<lparr> cw_faults := bs, cw_issues := cw_issues w @ [inserted_issue i] \<rparr>"
  using assms unfolding s_insert_issue_def
  by (cases rule: client_call_cases) (use that in \<open>auto split: if_splits\<close>)

lemma upsert_done:
  assumes "s_upsert_issue i w = (Inr (j, created), w')"
  obtains bs where "created" and "ci_id j = ci_id i"
    and "w' = w\<lparr> cw_faults := bs, cw_issues := cw_issues w @ [inserted_issue i] \<rparr>"
  | bs where "\<not> created" and "j \<in> set (cw_issues w)" and "in_scope (ci_org i) (ci_project i) (ci_fingerprint i) j"
    and "w' = w\<lparr> cw_faults := bs \<rparr>"
proof -
  obtain r w1 where q: "s_query_issue_by_fingerprint (ci_org i) (ci_project i) (ci_fingerprint i) w = (r, w1)"
    by fastforce
  then show thesis
  proof (cases rule: query_fingerprint_cases)
    case (2 bs)
    have "try_op (s_insert_issue i) (\<lambda>_. ret_op (i\<lparr> ci_event_count := 1 \<rparr>, True)) w1 = (Inr (j, created), w')"
      using assms q 2 by (simp add: s_upsert_issue_def)
    then obtain x w2 where s: "s_insert_issue i w1 = (Inr x, w2)" "w2 = w'"
      and j: "j = i\<lparr> ci_event_count := 1 \<rparr>" "created"
      by (cases rule: try_op_cases) auto
    from s(1) obtain cs where "w2 = w1\<lparr> cw_faults := cs, cw_issues := cw_issues w1 @ [inserted_issue i] \<rparr>"
      by (rule insert_done)
    then show ?thesis using s(2) j 2 that(1) [of cs] by simp
  next
    case (3 x bs)
    then have "j = x" "\<not> created" "w' = w\<lparr> cw_faults := bs \<rparr>"
      using assms q by (simp_all add: s_upsert_issue_def)
    then show ?thesis using 3 find_SomeD [OF 3(2)] that(2) [of bs] by simp
  qed (use assms q in \<open>simp add: s_upsert_issue_def\<close>)
qed

lemma touch_done:
  assumes "s_touch_issue i t l sample n w = (Inr b, w')"
  obtains bs where "w' = w\<lparr> cw_faults := bs, cw_issues := update_where (\<lambda>x. ci_id x = i) (touch t l sample n) (cw_issues w) \<rparr>"
  using assms unfolding s_touch_issue_def
  by (cases rule: client_call_cases) (use that in \<open>auto simp: Let_def split: option.splits\<close>)

text \<open>What facets leave alone.\<close>

definition same_rows :: "client_world \<Rightarrow> client_world \<Rightarrow> bool" where
  "same_rows w w' \<longleftrightarrow> cw_events w' = cw_events w \<and> cw_issues w' = cw_issues w \<and> cw_notices w' = cw_notices w"

lemma same_rows_trans: "same_rows u v \<Longrightarrow> same_rows v w \<Longrightarrow> same_rows u w"
  by (simp add: same_rows_def)

lemma same_rows_loop:
  "(\<And>x w. same_rows w (snd (f x w))) \<Longrightarrow> same_rows w (snd (loop_op f xs w))"
proof (induction xs arbitrary: w)
  case (Cons x xs)
  obtain r v where f: "f x w = (r, v)" by fastforce
  then have "same_rows w v" using Cons.prems by (metis snd_conv)
  then show ?case using Cons.IH [OF Cons.prems, of v] f same_rows_trans by (cases r) auto
qed (simp add: same_rows_def)

lemma same_rows_facets: "same_rows w (snd (s_record_facets i fs w))"
proof -
  have facet: "same_rows w (snd (s_record_facet i f v w))" for f v w
    by (auto simp: s_record_facet_def client_call_def same_rows_def Let_def split: list.split)
  have "same_rows w (snd ((if v = [] then ret_op () else s_record_facet i f v) w))" for f v w
    using facet by (simp add: same_rows_def)
  then have "same_rows w (snd ((case x of (f, vs) \<Rightarrow>
      loop_op (\<lambda>v. if v = [] then ret_op () else s_record_facet i f v) vs) w))" for x w
    by (cases x) (simp add: same_rows_loop)
  then show ?thesis unfolding s_record_facets_def by (rule same_rows_loop)
qed

lemma attach_done:
  assumes "s_attach_to_issue ev i fp v st w = (Inr x, w')"
  obtains bs where "w' = w\<lparr> cw_faults := bs,
    cw_events := update_where (\<lambda>e. ce_id e = ev) (attach_event i fp v st (cw_now w)) (cw_events w) \<rparr>"
  using assms unfolding s_attach_to_issue_def
  by (cases rule: client_call_cases) (use that in auto)

lemma detach_done:
  assumes "s_detach_from_issue i n w = (r, w')"
  shows "cw_events w' = cw_events w \<and> cw_notices w' = cw_notices w
    \<and> (\<forall>x \<in> set (cw_issues w). ci_id x \<noteq> i \<longrightarrow> x \<in> set (cw_issues w'))"
  using assms unfolding s_detach_from_issue_def
  by (cases rule: client_call_cases) (auto simp: Let_def drop_issues_def in_update_where)

lemma tell_done: "\<exists>ns. snd (tell_issue env e i created reopened w) = w\<lparr> cw_notices := cw_notices w @ ns \<rparr>
    \<and> length ns \<le> 1 \<and> (ce_issue e \<noteq> None \<longrightarrow> ns = [])"
proof -
  have "w = w\<lparr> cw_notices := cw_notices w @ [] \<rparr>" by simp
  then show ?thesis by (auto simp: tell_issue_def notify_client_def intro: exI [of _ "[]"])
qed

text \<open>The two halves of a grouping that succeeds.\<close>

lemma settle_done:
  assumes "settle env e issue created reopened fp version rs w = (Inr (), w')"
  shows "(\<forall>i \<in> set (cw_issues w). ci_id i = ci_id issue \<longrightarrow> i \<in> set (cw_issues w'))
    \<and> (\<forall>x \<in> set (cw_events w'). ce_id x = ce_id e \<longrightarrow>
        ce_issue x = Some (ci_id issue) \<and> ce_processed_at x \<noteq> None \<and> ce_fingerprint x = fp)
    \<and> (\<exists>ns. cw_notices w' = cw_notices w @ ns \<and> length ns \<le> 1 \<and> (ce_issue e \<noteq> None \<longrightarrow> ns = []))"
proof -
  let ?f = "if event_facets env e = [] then ret_op () else s_record_facets (ci_id issue) (event_facets env e)"
  let ?a = "s_attach_to_issue (ce_id e) (ci_id issue) fp version rs"
  let ?d = "case ce_issue e of
      Some old \<Rightarrow> if old \<noteq> ci_id issue then s_detach_from_issue old (ce_sampled_count e) else ret_op ()
    | None \<Rightarrow> ret_op ()"
  let ?t = "tell_issue env e issue created reopened"
  have "try_op ?f (\<lambda>_. try_op ?a (\<lambda>_. try_op ?d (\<lambda>_. ?t))) w = (Inr (), w')"
    using assms by (simp add: settle_def Let_def)
  then obtain w1 where f: "?f w = (Inr (), w1)" and "try_op ?a (\<lambda>_. try_op ?d (\<lambda>_. ?t)) w1 = (Inr (), w')"
    by (cases rule: try_op_cases) auto
  from this(2) obtain w2 where a: "?a w1 = (Inr (), w2)" and "try_op ?d (\<lambda>_. ?t) w2 = (Inr (), w')"
    by (cases rule: try_op_cases) auto
  from this(2) obtain w3 where d: "?d w2 = (Inr (), w3)" and t: "?t w3 = (Inr (), w')"
    by (cases rule: try_op_cases) auto
  have 1: "same_rows w w1"
    using f same_rows_facets [of w "ci_id issue" "event_facets env e"] by (auto simp: same_rows_def split: if_splits)
  from a obtain bs where 2: "w2 = w1\<lparr> cw_faults := bs, cw_events :=
      update_where (\<lambda>x. ce_id x = ce_id e) (attach_event (ci_id issue) fp version rs (cw_now w1)) (cw_events w1) \<rparr>"
    by (rule attach_done)
  have 3: "cw_events w3 = cw_events w2 \<and> cw_notices w3 = cw_notices w2
      \<and> (\<forall>x \<in> set (cw_issues w2). ci_id x = ci_id issue \<longrightarrow> x \<in> set (cw_issues w3))"
    using d detach_done by (auto split: option.splits if_splits)
  from tell_done [of env e issue created reopened w3] t obtain ns where
    4: "w' = w3\<lparr> cw_notices := cw_notices w3 @ ns \<rparr>" "length ns \<le> 1" "ce_issue e \<noteq> None \<longrightarrow> ns = []" by auto
  have "\<forall>x \<in> set (cw_events w'). ce_id x = ce_id e \<longrightarrow>
      ce_issue x = Some (ci_id issue) \<and> ce_processed_at x \<noteq> None \<and> ce_fingerprint x = fp"
    using 2 3 4(1) by (auto simp: in_update_where attach_event_def)
  then show ?thesis using 1 2 3 4 by (auto simp: same_rows_def)
qed

lemma found_or_created:
  assumes "client_inv w" and "event_ok e" and k: "fst (event_key env e) = key"
    and u: "s_upsert_issue (first_issue e key new_id) w = (Inr (issue, created), w2)"
    and t: "(if created then ret_op False
      else s_touch_issue (ci_id issue) (ce_occurred_at e) (ce_level e) (ce_id e) (ce_sampled_count e)) w2 = (Inr reopened, w3)"
  shows "(\<exists>i \<in> set (cw_issues w3). ci_id i = ci_id issue \<and> covers_report env e i) \<and> cw_notices w3 = cw_notices w"
  using u
proof (cases rule: upsert_done)
  case (1 bs)
  then show ?thesis using t covers_first [of env e new_id] k by (auto simp: inserted_issue_def)
next
  case (2 bs)
  let ?touch = "touch (ce_occurred_at e) (ce_level e) (ce_id e) (ce_sampled_count e)"
  from 2 t obtain cs where
    w3: "w3 = w2\<lparr> cw_faults := cs, cw_issues := update_where (\<lambda>x. ci_id x = ci_id issue) ?touch (cw_issues w2) \<rparr>"
    by (auto elim: touch_done)
  have "valid_level (ci_level issue)" "valid_level (ce_level e)"
    using assms(1,2) 2(2) by (auto simp: client_inv_def issues_table_ok_def issue_ok_def event_ok_def)
  moreover have "in_scope (ce_org e) (ce_project e) (fst (fst (event_key env e))) issue"
    using 2(3) k by (simp add: first_issue_def split: prod.splits)
  ultimately have c: "covers_report env e (?touch issue)" by (intro covers_touch)
  have "?touch issue \<in> set (cw_issues w3)"
    using 2(2,4) w3 by (auto simp: in_update_where)
  then show ?thesis using w3 2(4) c by (intro conjI bexI [of _ "?touch issue"]) (simp_all add: touch_def [of _ _ _ _ issue])
qed

text \<open>
  C27: a grouped report is filed where it belongs. When grouping a report of a legal level succeeds
  in a world that keeps the invariant, the report's row is marked done and points to an issue of
  the table with the report's fingerprint in the report's own project (or org, or the anonymous
  bucket), which was seen no later and no earlier than the report, is not resolved and is at least
  as severe; at most one notification went out, and none when the report was being grouped again.
\<close>

theorem group_files_report:
  assumes "client_inv w" and "event_ok e" and "group env e w = (Inr (), w')"
  shows "(\<exists>i \<in> set (cw_issues w'). covers_report env e i \<and>
      (\<forall>x \<in> set (cw_events w'). ce_id x = ce_id e \<longrightarrow>
        ce_issue x = Some (ci_id i) \<and> ce_processed_at x \<noteq> None \<and> ce_fingerprint x = fst (fst (event_key env e))))
    \<and> (\<exists>ns. cw_notices w' = cw_notices w @ ns \<and> length ns \<le> 1 \<and> (ce_issue e \<noteq> None \<longrightarrow> ns = []))"
proof -
  obtain key version rs where k: "event_key env e = (key, version, rs)" by (cases "event_key env e")
  let ?w1 = "w\<lparr> cw_fresh := Suc (cw_fresh w) \<rparr>"
  have "try_op (s_upsert_issue (first_issue e key (cw_fresh w))) (\<lambda>(issue, created).
      try_op (if created then ret_op False
              else s_touch_issue (ci_id issue) (ce_occurred_at e) (ce_level e) (ce_id e) (ce_sampled_count e)) (\<lambda>reopened.
        settle env e issue created reopened (fst key) version rs)) ?w1 = (Inr (), w')"
    using assms(3) k by (simp add: group_def Let_def new_uuid_def try_op_def [of new_uuid])
  then obtain issue created w2 where u: "s_upsert_issue (first_issue e key (cw_fresh w)) ?w1 = (Inr (issue, created), w2)"
    and "try_op (if created then ret_op False
        else s_touch_issue (ci_id issue) (ce_occurred_at e) (ce_level e) (ce_id e) (ce_sampled_count e)) (\<lambda>reopened.
      settle env e issue created reopened (fst key) version rs) w2 = (Inr (), w')"
    by (cases rule: try_op_cases) auto
  from this(2) obtain reopened w3 where t: "(if created then ret_op False
        else s_touch_issue (ci_id issue) (ce_occurred_at e) (ce_level e) (ce_id e) (ce_sampled_count e)) w2 = (Inr reopened, w3)"
    and s: "settle env e issue created reopened (fst key) version rs w3 = (Inr (), w')"
    by (cases rule: try_op_cases) auto
  have "client_inv ?w1" using assms(1) by simp
  moreover have "fst (event_key env e) = key" using k by simp
  ultimately obtain i where
    i: "i \<in> set (cw_issues w3)" "ci_id i = ci_id issue" "covers_report env e i" and n: "cw_notices w3 = cw_notices w"
    using found_or_created [OF _ assms(2) _ u t] by auto
  from settle_done [OF s] i n k show ?thesis by auto
qed

lemma sample_group: "fst (group sample_env sample_client_event (sample_client_world [])) = Inr ()"
  by (simp add: group_eval first_issue_def inserted_issue_def)

theorem group_files_report_witness:
  "\<exists>i \<in> set (cw_issues (snd (group sample_env sample_client_event (sample_client_world [])))).
     covers_report sample_env sample_client_event i"
  using group_files_report [OF sample_client_inv, of sample_client_event sample_env "[]"
      "snd (group sample_env sample_client_event (sample_client_world []))"] sample_group
  by (auto simp: prod_eq_iff event_ok_def sample_client_event_def valid_level_def valid_kind_def)

text \<open>
  An issue that was flagged as regressed and then ignored still reports each new event as a
  regression: \<open>reopened\<close> is read off the row after the update, not off the transition.
\<close>

lemma regression_reported_again:
  assumes "cw_faults w = []" and "List.find (\<lambda>i. ci_id i = j) (cw_issues w) = Some i"
    and "ci_status i = status_ignored" and "ci_regressed i" and "ci_resolved_at i = None"
  shows "fst (s_touch_issue j t l s n w) = Inr True"
  using assms by (simp add: s_touch_issue_def client_call_ok touch_def Let_def)


end
