(* ===== verification/Spikes.thy ===== *)
theory Spikes
  imports ClientGrouping
begin

text \<open>
  Issues whose rate has jumped (\<open>business/domain/clienterrorbus/spike.go\<close>, \<open>QuerySpikes\<close> of
  \<open>stores/clienterrordb/clienterrordb.go\<close>). Floats and SQL numerics are rationals.
\<close>

record spike_config =
  sc_window :: duration
  sc_baseline :: duration
  sc_multiplier :: rat
  sc_min_events :: int

abbreviation default_spike_window :: duration where "default_spike_window \<equiv> 10 * go_minute"
abbreviation default_spike_baseline :: duration where "default_spike_baseline \<equiv> go_hour"
abbreviation default_spike_multiplier :: rat where "default_spike_multiplier \<equiv> 5"
abbreviation default_spike_min_events :: int where "default_spike_min_events \<equiv> 25"

definition with_spike_defaults :: "spike_config \<Rightarrow> spike_config" where
  "with_spike_defaults c =
     (let c = (if sc_window c \<le> 0 then c\<lparr> sc_window := default_spike_window \<rparr> else c);
        c = (if sc_baseline c < sc_window c then c\<lparr> sc_baseline := default_spike_baseline \<rparr> else c);
        c = (if sc_multiplier c \<le> 1 then c\<lparr> sc_multiplier := default_spike_multiplier \<rparr> else c)
      in if sc_min_events c \<le> 0 then c\<lparr> sc_min_events := default_spike_min_events \<rparr> else c)"

definition spike_bounds :: "spike_config \<Rightarrow> instant \<Rightarrow> instant \<times> instant \<times> instant" where
  "spike_bounds cfg now =
     (let cfg = with_spike_defaults cfg;
        window_end = time_truncate now (sc_window cfg);
        window_start = window_end - sc_window cfg
      in (window_start - sc_baseline cfg, window_start, window_end))"

definition spike_multiple :: "spike \<Rightarrow> rat" where
  "spike_multiple s =
     (if sp_baseline s < 1 then of_int (sp_current s) else of_int (sp_current s) / sp_baseline s)"

subsection \<open>The query\<close>

definition reports_between :: "instant \<Rightarrow> instant \<Rightarrow> uuid \<Rightarrow> client_event list \<Rightarrow> client_event list" where
  "reports_between lo hi issue es =
     filter (\<lambda>e. ce_issue e = Some issue \<and> lo \<le> ce_occurred_at e \<and> ce_occurred_at e < hi) es"

definition weight :: "client_event list \<Rightarrow> int" where
  "weight es = sum_list (map ce_sampled_count es)"

definition spike_of :: "spike_config \<Rightarrow> instant \<Rightarrow> client_event list \<Rightarrow> client_issue \<Rightarrow> spike" where
  "spike_of cfg now es i =
     (case spike_bounds cfg now of (baseline_start, window_start, window_end) \<Rightarrow>
        \<lparr> sp_issue = i, sp_current = weight (reports_between window_start window_end (ci_id i) es),
          sp_baseline = of_int (weight (reports_between baseline_start window_start (ci_id i) es)) *
            (seconds (sc_window cfg) / seconds (sc_baseline cfg)),
          sp_window = sc_window cfg \<rparr>)"

definition is_spike :: "spike_config \<Rightarrow> instant \<Rightarrow> client_event list \<Rightarrow> client_issue \<Rightarrow> bool" where
  "is_spike cfg now es i \<longleftrightarrow>
     (case spike_bounds cfg now of (baseline_start, window_start, window_end) \<Rightarrow>
        let s = spike_of cfg now es i in
        reports_between window_start window_end (ci_id i) es \<noteq> [] \<and>
        ci_status i \<noteq> status_ignored \<and> ci_first_seen i < window_start \<and>
        sc_min_events cfg \<le> sp_current s \<and>
        sc_multiplier cfg * max (sp_baseline s) 1 \<le> of_int (sp_current s))"

definition s_query_spikes :: "spike_config \<Rightarrow> instant \<Rightarrow> spike list client_op" where
  "s_query_spikes cfg now = client_call (\<lambda>w.
     (Inr (sort_key (\<lambda>s. - sp_current s)
        (map (spike_of cfg now (cw_events w)) (filter (is_spike cfg now (cw_events w)) (cw_issues w)))), w))"

definition query_spikes :: "spike_config \<Rightarrow> instant \<Rightarrow> spike list client_op" where
  "query_spikes cfg now = s_query_spikes (with_spike_defaults cfg) now"

definition evaluate_spikes :: "client_env \<Rightarrow> spike_config \<Rightarrow> instant \<Rightarrow> nat client_op" where
  "evaluate_spikes env cfg now =
     try_op (query_spikes cfg now) (\<lambda>spikes.
       if \<not> ge_notifier env then ret_op (length spikes)
       else try_op (loop_op (\<lambda>s. notify_client (Issue_spiked (sp_issue s) s)) spikes) (\<lambda>_. ret_op (length spikes)))"

subsection \<open>The windows\<close>

lemma spike_default_fields:
  "sc_window (with_spike_defaults c) = (if sc_window c \<le> 0 then default_spike_window else sc_window c)"
  "sc_baseline (with_spike_defaults c) =
     (if sc_baseline c < sc_window (with_spike_defaults c) then default_spike_baseline else sc_baseline c)"
  "sc_multiplier (with_spike_defaults c) = (if sc_multiplier c \<le> 1 then default_spike_multiplier else sc_multiplier c)"
  "sc_min_events (with_spike_defaults c) = (if sc_min_events c \<le> 0 then default_spike_min_events else sc_min_events c)"
  by (simp_all add: with_spike_defaults_def Let_def)

lemma spike_defaults:
  "0 < sc_window (with_spike_defaults c)" "0 < sc_baseline (with_spike_defaults c)"
  "1 < sc_multiplier (with_spike_defaults c)" "0 < sc_min_events (with_spike_defaults c)"
  "with_spike_defaults (with_spike_defaults c) = with_spike_defaults c"
proof -
  show w: "0 < sc_window (with_spike_defaults c)" by (simp add: spike_default_fields(1))
  show "0 < sc_baseline (with_spike_defaults c)" using w by (subst spike_default_fields(2)) simp
  show m: "1 < sc_multiplier (with_spike_defaults c)" by (simp add: spike_default_fields(3))
  show e: "0 < sc_min_events (with_spike_defaults c)" by (simp add: spike_default_fields(4))
  show "with_spike_defaults (with_spike_defaults c) = with_spike_defaults c"
  proof (rule spike_config.equality)
    have sw: "sc_window (with_spike_defaults (with_spike_defaults c)) = sc_window (with_spike_defaults c)"
      using w spike_default_fields(1) [of "with_spike_defaults c"] by simp
    then show "sc_window (with_spike_defaults (with_spike_defaults c)) = sc_window (with_spike_defaults c)" .
    show "sc_baseline (with_spike_defaults (with_spike_defaults c)) = sc_baseline (with_spike_defaults c)"
      using spike_default_fields(2) [of "with_spike_defaults c"] spike_default_fields(2) [of c] sw by auto
    show "sc_multiplier (with_spike_defaults (with_spike_defaults c)) = sc_multiplier (with_spike_defaults c)"
      using m spike_default_fields(3) [of "with_spike_defaults c"] by simp
    show "sc_min_events (with_spike_defaults (with_spike_defaults c)) = sc_min_events (with_spike_defaults c)"
      using e spike_default_fields(4) [of "with_spike_defaults c"] by simp
  qed simp
qed

text \<open>
  Consecutive passes look at the same periods. For any configuration the window ends at most
  one window before now and the baseline ends where it starts; every instant before the next
  multiple of the window gives the same three bounds; and the pass after that takes up exactly where
  this window ends. So a report is in the current rate of exactly one window.
\<close>

theorem spike_windows_tile:
  assumes "spike_bounds cfg now = (b, s, e)"
  shows "b < s \<and> s < e \<and> e \<le> now \<and> now < e + (e - s)
    \<and> (e \<le> later \<and> later < e + (e - s) \<longrightarrow> spike_bounds cfg later = (b, s, e))
    \<and> (e + (e - s) \<le> later \<and> later < e + 2 * (e - s) \<longrightarrow> (\<exists>b'. spike_bounds cfg later = (b', e, e + (e - s))))"
proof -
  let ?c = "with_spike_defaults cfg"
  let ?d = "sc_window ?c"
  have d: "0 < ?d" "0 < sc_baseline ?c" by (rule spike_defaults)+
  have e: "e = time_truncate now ?d" "s = e - ?d" "b = s - sc_baseline ?c"
    using assms by (auto simp: spike_bounds_def Let_def)
  have now: "e \<le> now" "now < e + ?d" using time_truncate_bounds [OF d(1), of now] e(1) by auto
  have same: "time_truncate t ?d = e" if "e \<le> t" "t < e + ?d" for t
    using time_truncate_eqI [OF d(1), of now t] that e(1) by simp
  have "e + ?d = time_truncate (e + ?d) ?d"
    using d(1) time_truncate_dvd [OF d(1), of now] e(1) by (simp add: time_truncate_def)
  then have next_one: "time_truncate t ?d = e + ?d" if "e + ?d \<le> t" "t < e + 2 * ?d" for t
    using time_truncate_eqI [OF d(1), of "e + ?d" t] that by simp
  show ?thesis
    using d now e(2,3) same [of later] next_one [of later] by (auto simp: spike_bounds_def Let_def)
qed

abbreviation sample_spike_config :: spike_config where
  "sample_spike_config \<equiv> \<lparr> sc_window = 600, sc_baseline = 3600, sc_multiplier = 5, sc_min_events = 25 \<rparr>"

theorem spike_windows_tile_witness:
  "spike_bounds sample_spike_config 1300 = (-3000, 600, 1200) \<and> spike_bounds sample_spike_config 1700 = (-3000, 600, 1200)"
proof -
  have b: "spike_bounds sample_spike_config 1300 = (-3000, 600, 1200)"
    by (simp add: spike_bounds_def with_spike_defaults_def Let_def time_truncate_def)
  show ?thesis using spike_windows_tile [OF b, of 1700] b by simp
qed

text \<open>
  C39: what is reported as a spike is one. Every issue the evaluator is given is a row of the table
  that is not ignored and was known before the window; its reports in the window number at least the
  floor and at least the multiplier times its own rate before, and the multiple the alert states
  is at least the multiplier. Every such issue is given, the busiest first.
\<close>

theorem spikes_are_spikes:
  assumes "query_spikes cfg now w = (Inr ss, w')"
  shows "set (map sp_issue ss) = {i \<in> set (cw_issues w). is_spike (with_spike_defaults cfg) now (cw_events w) i}
    \<and> sorted (map (\<lambda>s. - sp_current s) ss)
    \<and> (\<forall>s \<in> set ss. ci_status (sp_issue s) \<noteq> status_ignored
        \<and> ci_first_seen (sp_issue s) < fst (snd (spike_bounds cfg now))
        \<and> sc_min_events (with_spike_defaults cfg) \<le> sp_current s
        \<and> sc_multiplier (with_spike_defaults cfg) \<le> spike_multiple s)"
proof -
  let ?c = "with_spike_defaults cfg"
  have ss: "ss = sort_key (\<lambda>s. - sp_current s)
      (map (spike_of ?c now (cw_events w)) (filter (is_spike ?c now (cw_events w)) (cw_issues w)))"
    using assms unfolding query_spikes_def s_query_spikes_def by (cases rule: client_call_cases) auto
  have i: "sp_issue (spike_of c now es i) = i" for c es i by (simp add: spike_of_def split: prod.split)
  have b: "spike_bounds ?c now = spike_bounds cfg now" by (simp add: spike_bounds_def spike_defaults)
  have m: "sc_multiplier ?c \<le> spike_multiple s"
    if "sc_multiplier ?c * max (sp_baseline s) 1 \<le> of_int (sp_current s)" for s
  proof (cases "sp_baseline s < 1")
    case True
    then show ?thesis using that by (simp add: spike_multiple_def max_def split: if_splits)
  next
    case False
    then have "max (sp_baseline s) 1 = sp_baseline s" by simp
    then show ?thesis using that False by (simp add: spike_multiple_def pos_le_divide_eq)
  qed
  have "sp_issue ` set ss = {i \<in> set (cw_issues w). is_spike ?c now (cw_events w) i}"
    unfolding ss by (auto simp: image_iff i)
  moreover have "sorted (map (\<lambda>s. - sp_current s) ss)" unfolding ss by (rule sorted_sort_key)
  moreover have "ci_status (sp_issue s) \<noteq> status_ignored \<and> ci_first_seen (sp_issue s) < fst (snd (spike_bounds cfg now))
      \<and> sc_min_events ?c \<le> sp_current s \<and> sc_multiplier ?c \<le> spike_multiple s" if "s \<in> set ss" for s
  proof -
    from that obtain x where x: "is_spike ?c now (cw_events w) x" "s = spike_of ?c now (cw_events w) x"
      unfolding ss by auto
    then show ?thesis using m [of s] i b by (auto simp: is_spike_def Let_def split: prod.splits)
  qed
  ultimately show ?thesis by simp
qed

definition spiking_world :: client_world where
  "spiking_world = (sample_client_world [])\<lparr>
     cw_events := [sample_client_event\<lparr> ce_issue := Some 5, ce_occurred_at := 700, ce_sampled_count := 30 \<rparr>],
     cw_issues := [\<lparr> ci_id = 5, ci_org = Some 10, ci_project = Some 20, ci_fingerprint = ''f'', ci_title = ''t'',
       ci_culprit = [], ci_level = level_error, ci_kind = kind_react, ci_status = status_unresolved,
       ci_regressed = False, ci_event_count = 31, ci_first_seen = 0, ci_last_seen = 700, ci_resolved_at = None,
       ci_assignee = None, ci_sample_event = None \<rparr>] \<rparr>"

lemma sample_spike_config_fixed: "with_spike_defaults sample_spike_config = sample_spike_config"
  by (simp add: with_spike_defaults_def)

lemma spiking_query:
  "map sp_current (case fst (query_spikes sample_spike_config 1300 spiking_world) of Inl _ \<Rightarrow> [] | Inr ss \<Rightarrow> ss) = [30]"
  by (simp add: query_spikes_def sample_spike_config_fixed s_query_spikes_def client_call_def spiking_world_def is_spike_def
      spike_of_def spike_bounds_def Let_def time_truncate_def reports_between_def weight_def)

theorem spikes_are_spikes_witness:
  "\<exists>ss. fst (query_spikes sample_spike_config 1300 spiking_world) = Inr ss \<and> ss \<noteq> [] \<and> list_all (\<lambda>s. 5 \<le> spike_multiple s) ss"
proof -
  obtain ss where ss: "fst (query_spikes sample_spike_config 1300 spiking_world) = Inr ss" "ss \<noteq> []"
    using spiking_query by (cases "fst (query_spikes sample_spike_config 1300 spiking_world)") auto
  then have "query_spikes sample_spike_config 1300 spiking_world =
      (Inr ss, snd (query_spikes sample_spike_config 1300 spiking_world))" by (simp add: prod_eq_iff)
  from spikes_are_spikes [OF this] ss show ?thesis by (simp add: sample_spike_config_fixed list_all_iff)
qed

text \<open>A window longer than an hour is compared with a baseline shorter than itself.\<close>

lemma short_baseline:
  "let c = with_spike_defaults \<lparr> sc_window = 2 * go_hour, sc_baseline = 0, sc_multiplier = 5, sc_min_events = 25 \<rparr>
   in sc_baseline c < sc_window c"
  by (simp add: with_spike_defaults_def)

end
