(* ===== verification/ClientQueue.thy ===== *)
theory ClientQueue
  imports ClientInvariant
begin

text \<open>
  The events table as a queue: every claim spends an attempt, whatever becomes of the report, so
  the queue runs dry. \<open>owed\<close> counts the attempts that are left to the reports not yet done.
\<close>

definition owed :: "client_event list \<Rightarrow> nat" where
  "owed es = sum_list (map (\<lambda>e. if ce_processed_at e = None then max_process_attempts - ce_attempts e else 0) es)"

text \<open>The same, with the reports of a batch counted whether they are done or not.\<close>

definition owed_with :: "uuid set \<Rightarrow> client_event list \<Rightarrow> nat" where
  "owed_with S es = sum_list (map (\<lambda>e. if ce_processed_at e = None \<or> ce_id e \<in> S
     then max_process_attempts - ce_attempts e else 0) es)"

lemma owed_le: "owed es \<le> owed_with S es"
  unfolding owed_def owed_with_def by (rule sum_list_mono) simp

lemma owed_bound: "owed es \<le> 3 * length es"
  by (induction es) (auto simp: owed_def)

lemma owed_with_update:
  assumes "\<And>e. ce_id (f e) = ce_id e \<and> ce_attempts (f e) = ce_attempts e"
    and "\<And>e. p e \<Longrightarrow> ce_processed_at (f e) = None \<Longrightarrow> ce_id e \<in> S"
  shows "owed_with S (update_where p f es) \<le> owed_with S es"
proof (induction es)
  case (Cons e es)
  let ?h = "\<lambda>e. if ce_processed_at e = None \<or> ce_id e \<in> S then max_process_attempts - ce_attempts e else 0"
  let ?e = "if p e then f e else e"
  have c: "owed_with S (x # xs) = ?h x + owed_with S xs" for x xs by (simp add: owed_with_def)
  have id: "ce_id (f e) = ce_id e" "ce_attempts (f e) = ce_attempts e" using assms(1) by blast+
  have "?h ?e \<le> ?h e"
  proof (cases "p e")
    case True
    show ?thesis
    proof (cases "ce_processed_at (f e) = None \<or> ce_id e \<in> S")
      case True
      then have "ce_id e \<in> S" using assms(2) [OF \<open>p e\<close>] by blast
      then show ?thesis using id by simp
    next
      case False
      then show ?thesis using \<open>p e\<close> id by auto
    qed
  qed simp
  then have "owed_with S (?e # update_where p f es) \<le> owed_with S (e # es)"
    unfolding c using Cons.IH by (rule add_mono)
  then show ?case by (simp only: update_where_Cons)
qed simp

lemma owed_claim:
  assumes "\<And>e. e \<in> set es \<Longrightarrow> p e \<Longrightarrow> claimable max_process_attempts e"
  shows "owed (update_where p count_attempt es) + length (filter p es) = owed es"
  using assms
proof (induction es)
  case (Cons e es)
  have c: "owed (x # xs) = (if ce_processed_at x = None then max_process_attempts - ce_attempts x else 0) + owed xs" for x xs
    by (simp add: owed_def)
  have IH: "owed (update_where p count_attempt es) + length (filter p es) = owed es" using Cons by simp
  show ?case
  proof (cases "p e")
    case True
    then have "ce_processed_at e = None" "ce_attempts e < max_process_attempts"
      using Cons.prems by (simp_all add: claimable_def)
    then have "Suc (max_process_attempts - Suc (ce_attempts e)) = max_process_attempts - ce_attempts e" by linarith
    then show ?thesis
      using IH True \<open>ce_processed_at e = None\<close> unfolding c update_where_Cons by (simp add: count_attempt_def c)
  qed (use IH in \<open>simp add: c\<close>)
qed (simp add: owed_def)

lemma owed_none:
  assumes "owed es = 0"
  shows "filter (claimable max_process_attempts) es = []"
  using assms by (induction es) (auto simp: owed_def claimable_def split: if_splits)

subsection \<open>A batch\<close>

abbreviation bounded_owed :: "uuid set \<Rightarrow> nat \<Rightarrow> client_world \<Rightarrow> bool" where
  "bounded_owed S k w \<equiv> owed_with S (cw_events w) \<le> k"

lemma keeps_owed_other:
  "(\<And>w. cw_events (snd (f w)) = cw_events w) \<Longrightarrow> keeps (bounded_owed S k) (client_call f)"
  by (intro keepsI) (simp add: client_call_def split: list.split)

lemma keeps_owed_issue_statements:
  "keeps (bounded_owed S k) (s_upsert_issue i)" "keeps (bounded_owed S k) (s_touch_issue j t l s n)"
  "keeps (bounded_owed S k) (s_record_facets j fs)" "keeps (bounded_owed S k) (s_detach_from_issue j n)"
  "keeps (bounded_owed S k) new_uuid" "keeps (bounded_owed S k) (tell_issue env e i c r)"
proof -
  have facet: "keeps (bounded_owed S k) (s_record_facet j f v)" for f v
    unfolding s_record_facet_def by (rule keeps_owed_other) (simp add: Let_def)
  have "keeps (bounded_owed S k) (s_query_issue_by_fingerprint c p fp)" for c p fp
    unfolding s_query_issue_by_fingerprint_def by (rule keeps_owed_other) (simp split: option.split)
  moreover have "keeps (bounded_owed S k) (s_insert_issue i)"
    unfolding s_insert_issue_def by (rule keeps_owed_other) simp
  ultimately show "keeps (bounded_owed S k) (s_upsert_issue i)"
    unfolding s_upsert_issue_def by (auto intro!: keeps_case keeps_try)
  show "keeps (bounded_owed S k) (s_touch_issue j t l s n)"
    unfolding s_touch_issue_def by (rule keeps_owed_other) (simp add: Let_def split: option.split)
  show "keeps (bounded_owed S k) (s_detach_from_issue j n)"
    unfolding s_detach_from_issue_def by (rule keeps_owed_other) (simp add: Let_def drop_issues_def)
  show "keeps (bounded_owed S k) (s_record_facets j fs)"
    unfolding s_record_facets_def using facet by (intro keeps_loop) (auto intro!: keeps_loop)
qed (auto intro!: keepsI simp: new_uuid_def tell_issue_def notify_client_def)

lemma keeps_owed_call:
  assumes "\<And>w. owed_with S (cw_events (snd (f w))) \<le> owed_with S (cw_events w)"
  shows "keeps (bounded_owed S k) (client_call f)"
proof (rule keepsI)
  fix w assume k: "bounded_owed S k w"
  have "bounded_owed S k (snd (f w))" using assms [of w] k by linarith
  moreover have "bounded_owed S k (snd (f (w\<lparr> cw_faults := bs \<rparr>)))" for bs
    using assms [of "w\<lparr> cw_faults := bs \<rparr>"] k by simp
  ultimately show "bounded_owed S k (snd (client_call f w))" using k by (simp add: client_call_def split: list.split)
qed

lemma keeps_owed_group_or_set_aside:
  assumes "ce_id e \<in> S"
  shows "keeps (bounded_owed S k) (group_or_set_aside env e)"
proof -
  have a: "keeps (bounded_owed S k) (s_attach_to_issue ev i fp v st)" for ev i fp v st
    unfolding s_attach_to_issue_def
    by (intro keeps_owed_call) (auto simp: attach_event_def intro!: owed_with_update)
  have m: "keeps (bounded_owed S k) (s_mark_failed (ce_id e) err n)" for err n
    unfolding s_mark_failed_def
    by (intro keeps_owed_call) (use assms in \<open>auto simp: fail_event_def intro!: owed_with_update\<close>)
  have "keeps (bounded_owed S k) (group env e)"
    unfolding group_def settle_def Let_def
    by (auto split: prod.split option.split intro!: keeps_try keeps_owed_issue_statements a)
  then show ?thesis
    unfolding group_or_set_aside_def using m by (auto intro!: keeps_case)
qed

lemma claimed_count:
  assumes "distinct (map ce_id es)" and "rows = claimed_rows limit m es"
  shows "length (filter (\<lambda>e. ce_id e \<in> ce_id ` set rows) es) = length rows"
    and "length rows = min limit (length (filter (claimable m) es))"
proof -
  have d: "distinct es" using assms(1) by (simp add: distinct_map)
  have "set (filter (\<lambda>e. ce_id e \<in> ce_id ` set rows) es) = set rows"
  proof
    show "set (filter (\<lambda>e. ce_id e \<in> ce_id ` set rows) es) \<subseteq> set rows"
      using claimed_by_id [OF assms(1)] unfolding assms(2) by (simp add: subset_iff)
    show "set rows \<subseteq> set (filter (\<lambda>e. ce_id e \<in> ce_id ` set rows) es)"
      using in_claimed unfolding assms(2) by (simp add: subset_iff)
  qed
  moreover have "distinct rows" unfolding assms(2) claimed_rows_def using d by simp
  ultimately show "length (filter (\<lambda>e. ce_id e \<in> ce_id ` set rows) es) = length rows"
    using d by (metis distinct_card distinct_filter)
  show "length rows = min limit (length (filter (claimable m) es))"
    unfolding assms(2) claimed_rows_def by (simp add: min.commute)
qed

lemma batch_spends:
  assumes "client_inv w" and "process_batch env limit w = (r, w')"
  shows "owed (cw_events w') \<le> owed (cw_events w)"
    and "r = Inr n \<Longrightarrow> owed (cw_events w') + n \<le> owed (cw_events w)
      \<and> n = min limit (length (filter (claimable max_process_attempts) (cw_events w)))"
proof -
  let ?es = "cw_events w"
  let ?rows = "claimed_rows limit max_process_attempts ?es"
  let ?p = "\<lambda>e. ce_id e \<in> ce_id ` set ?rows"
  have d: "distinct (map ce_id ?es)" using assms(1) by (simp add: client_inv_def events_table_ok_def)
  obtain q w1 where c: "s_claim_unprocessed limit max_process_attempts w = (q, w1)" by fastforce
  then have "owed (cw_events w') \<le> owed ?es \<and> (r = Inr n \<longrightarrow> owed (cw_events w') + n \<le> owed ?es
      \<and> n = min limit (length (filter (claimable max_process_attempts) ?es)))"
  proof (cases rule: claim_cases)
    case (1 bs)
    then show ?thesis using assms(2) c by (auto simp: process_batch_def)
  next
    case (2 bs)
    let ?S = "ce_id ` set ?rows"
    have claimable: "claimable max_process_attempts e" if "e \<in> set ?es" "?p e" for e
      using claimed_by_id [OF d that] in_claimed by blast
    have spent: "owed (cw_events w1) + length ?rows = owed ?es"
      using owed_claim [of ?es ?p] claimable claimed_count(1) [OF d refl] 2 by simp
    have "owed_with ?S (cw_events w1) = owed (cw_events w1)"
      unfolding owed_with_def owed_def using 2 claimable
      by (intro arg_cong [where f = sum_list] map_cong) (auto simp: in_update_where count_attempt_def claimable_def)
    moreover have "keeps (bounded_owed ?S k) (loop_op (group_or_set_aside env) (map count_attempt ?rows))" for k
      by (intro keeps_loop keeps_owed_group_or_set_aside) (auto simp: count_attempt_def)
    then have "keeps (bounded_owed ?S k) (try_op (loop_op (group_or_set_aside env) (map count_attempt ?rows))
        (\<lambda>_. ret_op (length ?rows)))" for k
      by (intro keeps_try) auto
    moreover have loop: "try_op (loop_op (group_or_set_aside env) (map count_attempt ?rows)) (\<lambda>_. ret_op (length ?rows)) w1 = (r, w')"
      using assms(2) c 2(1) by (simp add: process_batch_def)
    ultimately have "owed_with ?S (cw_events w') \<le> owed (cw_events w1)"
      by (metis keepsD order_refl snd_conv)
    then have "owed (cw_events w') \<le> owed (cw_events w1)" using owed_le order_trans by blast
    moreover have "n = length ?rows" if "r = Inr n"
      using loop that by (cases rule: try_op_cases) auto
    ultimately show ?thesis using spent claimed_count(2) [OF d refl] by auto
  qed
  then show "owed (cw_events w') \<le> owed (cw_events w)"
    and "r = Inr n \<Longrightarrow> owed (cw_events w') + n \<le> owed (cw_events w)
      \<and> n = min limit (length (filter (claimable max_process_attempts) (cw_events w)))" by blast+
qed

subsection \<open>The queue runs dry\<close>

fun run_batches :: "client_env \<Rightarrow> nat \<Rightarrow> nat \<Rightarrow> client_world \<Rightarrow> (client_error + nat) list \<times> client_world" where
  "run_batches env limit 0 w = ([], w)"
| "run_batches env limit (Suc k) w =
     (let (r, w1) = process_batch env limit w; (rs, w2) = run_batches env limit k w1 in (r # rs, w2))"

lemma run_batches_drain:
  assumes "client_inv w" and "0 < limit" and "owed (cw_events w) \<le> k"
    and "run_batches env limit k w = (rs, w')" and "\<And>r. r \<in> set rs \<Longrightarrow> \<exists>n. r = Inr n"
  shows "filter (claimable max_process_attempts) (cw_events w') = []"
  using assms
proof (induction k arbitrary: w rs)
  case 0
  then show ?case using owed_none by simp
next
  case (Suc k)
  obtain r w1 where b: "process_batch env limit w = (r, w1)" by fastforce
  obtain qs w2 where t: "run_batches env limit k w1 = (qs, w2)" by fastforce
  have rs: "rs = r # qs" "w' = w2" using Suc.prems(4) b t by auto
  then obtain n where r: "r = Inr n" using Suc.prems(5) [of r] by auto
  have inv: "client_inv w1" using keepsD [OF keeps_process_batch Suc.prems(1)] b by (metis snd_conv)
  note spent = batch_spends(2) [OF Suc.prems(1) b r]
  have "owed (cw_events w1) \<le> k"
  proof (cases "n = 0")
    case True
    then have "filter (claimable max_process_attempts) (cw_events w) = []"
      using spent Suc.prems(2) by (auto simp: min_def split: if_splits)
    then have "owed (cw_events w) = 0"
      by (auto simp: owed_def claimable_def filter_empty_conv)
    then show ?thesis using spent by simp
  qed (use spent Suc.prems(3) in linarith)
  moreover have "run_batches env limit k w1 = (qs, w')" using t rs(2) by simp
  ultimately show ?case using Suc.IH [OF inv Suc.prems(2), of qs] Suc.prems(5) rs(1) by simp
qed

text \<open>
  C28: no report holds up the queue. From any world that keeps the invariant, three batches per
  report, of any size but zero, leave no report that can be claimed, if the database takes the
  claims and the marks of failure: whichever reports cannot be grouped, and however often, each is
  set aside for good after its third attempt.
\<close>

theorem queue_drains:
  assumes "client_inv w" and "0 < limit" and "3 * length (cw_events w) \<le> k"
    and "list_all (\<lambda>r. \<exists>n. r = Inr n) (fst (run_batches env limit k w))"
  shows "filter (claimable max_process_attempts) (cw_events (snd (run_batches env limit k w))) = []"
  by (rule run_batches_drain [OF assms(1,2) _ surjective_pairing])
    (use assms(3,4) owed_bound [of "cw_events w"] in \<open>auto simp: list_all_iff\<close>)

text \<open>A batch in which the first statement on the only report fails.\<close>

lemma poison_batch:
  assumes "cw_events w = [e]" and "cw_faults w = False # True # False # bs" and "claimable max_process_attempts e"
    and "0 < limit"
  shows "process_batch env limit w =
    (Inr 1, w\<lparr> cw_events := [fail_event Err_client_db max_process_attempts (cw_now w) (count_attempt e)],
       cw_faults := bs, cw_fresh := Suc (cw_fresh w) \<rparr>)"
proof -
  obtain key version rs where k: "event_key env (count_attempt e) = (key, version, rs)"
    by (cases "event_key env (count_attempt e)")
  have c: "claimed_rows limit max_process_attempts [e] = [e]" using assms(3,4) by (simp add: claimed_rows_def)
  have i: "ce_id (count_attempt e) = ce_id e" by (simp add: count_attempt_def)
  show ?thesis
    by (simp add: process_batch_def s_claim_unprocessed_def client_call_def assms(1,2) c group_or_set_aside_def
        group_def k new_uuid_def s_upsert_issue_def s_query_issue_by_fingerprint_def try_op_def case_op_def
        s_mark_failed_def i Let_def)
qed

abbreviation poison :: "bool list" where
  "poison \<equiv> [False, True, False, False, True, False, False, True, False]"

lemma poison_run:
  "fst (run_batches sample_env 5 3 (sample_client_world poison)) = [Inr 1, Inr 1, Inr 1]"
  by (simp add: eval_nat_numeral poison_batch claimable_def sample_client_event_def fail_event_def count_attempt_def)

theorem queue_drains_witness:
  "fst (run_batches sample_env 5 3 (sample_client_world poison)) = [Inr 1, Inr 1, Inr 1]
   \<and> filter (claimable max_process_attempts) (cw_events (snd (run_batches sample_env 5 3 (sample_client_world poison)))) = []"
  using queue_drains [OF sample_client_inv, of 5 poison 3 sample_env] poison_run by simp
text \<open>
  The claim commits with its statement, so its locks are gone when it returns: a second claim
  before the first worker is done takes the same report.
\<close>

lemma claimed_twice:
  "fst (s_claim_unprocessed 5 max_process_attempts (sample_client_world [])) =
     Inr [sample_client_event\<lparr> ce_attempts := 1 \<rparr>]"
  "fst (s_claim_unprocessed 5 max_process_attempts (snd (s_claim_unprocessed 5 max_process_attempts (sample_client_world [])))) =
     Inr [sample_client_event\<lparr> ce_attempts := 2 \<rparr>]"
  by (simp_all add: s_claim_unprocessed_def client_call_def claimed_rows_def claimable_def count_attempt_def
      sample_client_event_def)

text \<open>
  A first report whose grouping fails after the issue was inserted is retried as one more event of
  a known issue: it counts twice, and nobody is told that the issue was opened.
\<close>

lemma opening_lost:
  "let w = snd (run_batches sample_env 5 2 (sample_client_world [False, False, False, True]))
   in map ci_event_count (cw_issues w) = [2] \<and> cw_notices w = []"
  by (simp add: eval_nat_numeral process_batch_def s_claim_unprocessed_def claimed_rows_def claimable_def count_attempt_def
     group_eval first_issue_def inserted_issue_def fail_event_def touch_def attach_event_def in_scope_def)

end
