(* ===== verification/LogStore.thy ===== *)
theory LogStore
  imports ClientStore
begin

text \<open>
  The log domain and its tables (\<open>business/domain/logbus/model.go\<close>, \<open>logbus.go\<close>,
  \<open>stores/logdb/logdb.go\<close>, \<open>model.go\<close>): the entries, their database rows, the bulk insert with the
  hourly rollup it maintains, and the other tables that ingestion and retention share. JSON
  documents are \<open>json\<close>, objects as lists of members with distinct keys. A double is a rational, an
  infinity or not a number. A statement of a transaction works on the tables; when a later one
  fails, \<open>tx_op\<close> takes them back.
\<close>

subsection \<open>Documents\<close>

datatype go_float = Finite rat | Infinite bool | Not_a_number

datatype json =
    J_null
  | J_bool bool
  | J_int int
  | J_float go_float
  | J_string string
  | J_array "json list"
  | J_object "(string \<times> json) list"

type_synonym members = "(string \<times> json) list"

definition put_member :: "string \<Rightarrow> json \<Rightarrow> members \<Rightarrow> members" where
  "put_member k v m =
     (if k \<in> fst ` set m then map (\<lambda>(k', v'). if k' = k then (k', v) else (k', v')) m else m @ [(k, v)])"

text \<open>
  What PostgreSQL stores: a text is valid UTF-8 without a zero byte. What \<open>encoding/json\<close> encodes
  into a \<open>jsonb\<close> column: no infinity, no NaN, and no zero byte in a string.
\<close>

definition pg_text :: "string \<Rightarrow> bool" where
  "pg_text s \<longleftrightarrow> valid_utf8 s \<and> CHR 0x00 \<notin> set s"

fun pg_json :: "json \<Rightarrow> bool" where
  "pg_json (J_float f) = (case f of Finite q \<Rightarrow> True | _ \<Rightarrow> False)"
| "pg_json (J_string s) = (CHR 0x00 \<notin> set s)"
| "pg_json (J_array vs) = list_all pg_json vs"
| "pg_json (J_object m) = list_all (\<lambda>(k, v). CHR 0x00 \<notin> set k \<and> pg_json v) m"
| "pg_json _ = True"

subsection \<open>Entries\<close>

abbreviation log_debug :: string where "log_debug \<equiv> ''DEBUG''"
abbreviation log_info :: string where "log_info \<equiv> ''INFO''"
abbreviation log_warn :: string where "log_warn \<equiv> ''WARN''"
abbreviation log_err :: string where "log_err \<equiv> ''ERROR''"

definition level_names :: "string list" where
  "level_names = [log_debug, log_info, log_warn, log_err]"

datatype log_error =
    Err_log_not_found
  | Err_invalid_level
  | Err_interval
  | Err_range
  | Err_too_many_buckets
  | Err_window_too_wide
  | Err_group_by
  | Err_cursor
  | Err_day_range
  | Err_source_not_found
  | Err_duplicate_name
  | Err_invalid_kind
  | Err_project_not_found
  | Err_random
  | Err_log_db

definition parse_log_level :: "string \<Rightarrow> log_error + string" where
  "parse_log_level s = (if s \<in> set level_names then Inr s else Inl Err_invalid_level)"

abbreviation source_type_app :: string where "source_type_app \<equiv> ''app''"
abbreviation source_type_infra :: string where "source_type_infra \<equiv> ''infra''"

record infra =
  in_host :: string
  in_container :: string
  in_pod :: string
  in_namespace :: string
  in_cluster :: string
  in_unit :: string
  in_facility :: string
  in_region :: string
  in_cloud_resource :: string

record log_entry =
  lg_id :: uuid
  lg_project :: uuid
  lg_level :: string
  lg_message :: string
  lg_source :: string
  lg_ts :: instant
  lg_tags :: "string list"
  lg_meta :: "members option"
  lg_source_type :: string
  lg_source_id :: "uuid option"
  lg_infra :: infra
  lg_attributes :: "members option"

record new_log =
  nl_project :: uuid
  nl_level :: string
  nl_message :: string
  nl_source :: string
  nl_ts :: instant
  nl_tags :: "string list"
  nl_meta :: "members option"
  nl_source_type :: string
  nl_source_id :: "uuid option"
  nl_infra :: infra
  nl_attributes :: "members option"

subsection \<open>Rows\<close>

record log_row =
  lr_id :: uuid
  lr_project :: uuid
  lr_level :: string
  lr_message :: string
  lr_source :: string
  lr_ts :: instant
  lr_tags :: "string list"
  lr_meta :: members
  lr_source_type :: string
  lr_source_id :: "uuid option"
  lr_host :: "string option"
  lr_container :: "string option"
  lr_pod :: "string option"
  lr_namespace :: "string option"
  lr_cluster :: "string option"
  lr_unit :: "string option"
  lr_facility :: "string option"
  lr_region :: "string option"
  lr_cloud_resource :: "string option"
  lr_attributes :: members

definition null_str :: "string \<Rightarrow> string option" where
  "null_str s = (if s = [] then None else Some s)"

definition of_null_str :: "string option \<Rightarrow> string" where
  "of_null_str v = (case v of None \<Rightarrow> [] | Some s \<Rightarrow> s)"

definition map_column :: "members option \<Rightarrow> members" where
  "map_column m = (case m of None \<Rightarrow> [] | Some m \<Rightarrow> m)"

text \<open>The driver sends a time in microseconds, cut off.\<close>

definition pg_time :: "instant \<Rightarrow> instant" where
  "pg_time t = time_truncate t 1000"

definition to_db_log :: "log_entry \<Rightarrow> log_row" where
  "to_db_log l = \<lparr> lr_id = lg_id l, lr_project = lg_project l, lr_level = lg_level l,
     lr_message = lg_message l, lr_source = lg_source l, lr_ts = pg_time (lg_ts l), lr_tags = lg_tags l,
     lr_meta = map_column (lg_meta l),
     lr_source_type = (if lg_source_type l = [] then source_type_app else lg_source_type l),
     lr_source_id = lg_source_id l, lr_host = null_str (in_host (lg_infra l)),
     lr_container = null_str (in_container (lg_infra l)), lr_pod = null_str (in_pod (lg_infra l)),
     lr_namespace = null_str (in_namespace (lg_infra l)), lr_cluster = null_str (in_cluster (lg_infra l)),
     lr_unit = null_str (in_unit (lg_infra l)), lr_facility = null_str (in_facility (lg_infra l)),
     lr_region = null_str (in_region (lg_infra l)),
     lr_cloud_resource = null_str (in_cloud_resource (lg_infra l)),
     lr_attributes = map_column (lg_attributes l) \<rparr>"

definition to_bus_log :: "log_row \<Rightarrow> log_error + log_entry" where
  "to_bus_log r =
     (case parse_log_level (lr_level r) of
        Inl e \<Rightarrow> Inl e
      | Inr level \<Rightarrow> Inr \<lparr> lg_id = lr_id r, lg_project = lr_project r, lg_level = level,
          lg_message = lr_message r, lg_source = lr_source r, lg_ts = lr_ts r, lg_tags = lr_tags r,
          lg_meta = Some (lr_meta r), lg_source_type = lr_source_type r, lg_source_id = lr_source_id r,
          lg_infra = \<lparr> in_host = of_null_str (lr_host r), in_container = of_null_str (lr_container r),
            in_pod = of_null_str (lr_pod r), in_namespace = of_null_str (lr_namespace r),
            in_cluster = of_null_str (lr_cluster r), in_unit = of_null_str (lr_unit r),
            in_facility = of_null_str (lr_facility r), in_region = of_null_str (lr_region r),
            in_cloud_resource = of_null_str (lr_cloud_resource r) \<rparr>,
          lg_attributes = Some (lr_attributes r) \<rparr>)"

fun to_bus_logs :: "log_row list \<Rightarrow> log_error + log_entry list" where
  "to_bus_logs [] = Inr []"
| "to_bus_logs (r # rs) =
     (case to_bus_log r of
        Inl e \<Rightarrow> Inl e
      | Inr l \<Rightarrow> (case to_bus_logs rs of Inl e \<Rightarrow> Inl e | Inr ls \<Rightarrow> Inr (l # ls)))"

subsection \<open>The tables\<close>

type_synonym stats_key = "uuid \<times> instant \<times> string \<times> string \<times> string"

record project_row =
  pr_id :: uuid
  pr_org :: uuid
  pr_retention :: "int option"

record plan_row =
  pl_id :: uuid
  pl_log_retention :: "int option"
  pl_infra_retention :: "int option"
  pl_infra_quota :: "int option"
  pl_app_quota :: "int option"

record source =
  sc_id :: uuid
  sc_org :: uuid
  sc_project :: uuid
  sc_kind :: string
  sc_name :: string
  sc_prefix :: string
  sc_hash :: string
  sc_active :: bool
  sc_seen :: "instant option"
  sc_rate :: int
  sc_burst :: int
  sc_sample :: rat
  sc_created :: instant
  sc_expires :: "instant option"

record usage_row =
  ug_source :: uuid
  ug_org :: uuid
  ug_project :: uuid
  ug_day :: instant
  ug_events :: int
  ug_bytes :: int
  ug_dropped :: int

record app_usage_row =
  au_project :: uuid
  au_org :: uuid
  au_day :: instant
  au_events :: int
  au_bytes :: int

record source_hour =
  sh_source :: uuid
  sh_hour :: instant
  sh_events :: int
  sh_errors :: int
  sh_dropped :: int
  sh_rejects :: int

record reject =
  rj_id :: uuid
  rj_source :: uuid
  rj_org :: uuid
  rj_project :: uuid
  rj_kind :: string
  rj_index :: nat
  rj_reason :: string
  rj_payload :: string
  rj_received :: instant

text \<open>
  \<open>lw_orgs\<close> says which organizations are enabled. \<open>lw_ticks\<close> are the times that pass between two readings of the process's clock, \<open>lw_cancel\<close> the
  number of times the context is still asked before it is cancelled, if ever.
\<close>

record log_world =
  lw_logs :: "log_row list"
  lw_stats :: "(stats_key \<times> int) list"
  lw_projects :: "project_row list"
  lw_plans :: "plan_row list"
  lw_subscriptions :: "(uuid \<times> uuid) list"
  lw_orgs :: "(uuid \<times> bool) list"
  lw_sources :: "source list"
  lw_usage :: "usage_row list"
  lw_app_usage :: "app_usage_row list"
  lw_source_hours :: "source_hour list"
  lw_rejects :: "reject list"
  lw_audit :: "(uuid \<times> instant) list"
  lw_client :: client_world
  lw_fresh :: uuid
  lw_faults :: "bool list"
  lw_now :: instant
  lw_ticks :: "duration list"
  lw_cancel :: "nat option"

type_synonym 'a log_op = "(log_world, log_error, 'a) op"

definition log_call :: "'a log_op \<Rightarrow> 'a log_op" where
  "log_call f w =
     (case lw_faults w of
        [] \<Rightarrow> f w
      | b # bs \<Rightarrow> if b then (Inl Err_log_db, w\<lparr> lw_faults := bs \<rparr>) else f (w\<lparr> lw_faults := bs \<rparr>))"

text \<open>\<open>time.Now\<close> and \<open>uuid.New\<close>.\<close>

definition read_clock :: "log_world \<Rightarrow> instant \<times> log_world" where
  "read_clock w =
     (case lw_ticks w of
        [] \<Rightarrow> (lw_now w, w)
      | d # ds \<Rightarrow> (lw_now w + d, w\<lparr> lw_now := lw_now w + d, lw_ticks := ds \<rparr>))"

definition fresh_log_id :: "uuid log_op" where
  "fresh_log_id w = (Inr (lw_fresh w), w\<lparr> lw_fresh := Suc (lw_fresh w) \<rparr>)"

definition tx_op :: "'a log_op \<Rightarrow> 'a log_op" where
  "tx_op m w =
     (case m w of
        (Inl e, w') \<Rightarrow> (Inl e, w\<lparr> lw_faults := lw_faults w' \<rparr>)
      | (Inr x, w') \<Rightarrow> (Inr x, w'))"

definition commit :: "unit log_op" where
  "commit = log_call (ret_op ())"

subsection \<open>The bulk insert and its rollup\<close>

abbreviation insert_batch_size :: nat where "insert_batch_size \<equiv> 1000"

definition utc_hour :: "instant \<Rightarrow> instant" where
  "utc_hour t = time_truncate t go_hour"

text \<open>The constraints of the table \<open>logs\<close>.\<close>

definition row_ok :: "log_world \<Rightarrow> log_row \<Rightarrow> bool" where
  "row_ok w r \<longleftrightarrow> lr_level r \<in> set level_names \<and> lr_source_type r \<in> {source_type_app, source_type_infra}
     \<and> lr_project r \<in> pr_id ` set (lw_projects w)
     \<and> (case lr_source_id r of None \<Rightarrow> True | Some s \<Rightarrow> s \<in> sc_id ` set (lw_sources w))
     \<and> pg_text (lr_message r) \<and> pg_text (lr_source r) \<and> list_all pg_text (lr_tags r)
     \<and> list_all (\<lambda>v. case v of None \<Rightarrow> True | Some s \<Rightarrow> pg_text s)
         [lr_host r, lr_container r, lr_pod r, lr_namespace r, lr_cluster r, lr_unit r, lr_facility r,
          lr_region r, lr_cloud_resource r]
     \<and> pg_json (J_object (lr_meta r)) \<and> pg_json (J_object (lr_attributes r))"

definition s_insert_logs :: "log_row list \<Rightarrow> unit log_op" where
  "s_insert_logs rows = log_call (\<lambda>w.
     if list_all (row_ok w) rows \<and> distinct (map lr_id (lw_logs w @ rows))
     then (Inr (), w\<lparr> lw_logs := lw_logs w @ rows \<rparr>)
     else (Inl Err_log_db, w))"

fun chunks :: "nat \<Rightarrow> 'a list \<Rightarrow> 'a list list" where
  "chunks n xs = (if xs = [] \<or> n = 0 then [] else take n xs # chunks n (drop n xs))"

declare chunks.simps [simp del]

definition stats_key_of :: "log_entry \<Rightarrow> stats_key" where
  "stats_key_of l = (lg_project l, utc_hour (lg_ts l), lg_source_type l, lg_source l, lg_level l)"

definition count_key :: "(stats_key \<times> int) list \<Rightarrow> stats_key \<Rightarrow> (stats_key \<times> int) list" where
  "count_key ds k =
     (if k \<in> fst ` set ds then update_where (\<lambda>d. fst d = k) (\<lambda>(k, n). (k, n + 1)) ds else ds @ [(k, 1)])"

text \<open>\<open>rollupDeltas\<close>: the map is walked in some order, here that of the first occurrences.\<close>

definition rollup_deltas :: "log_entry list \<Rightarrow> (stats_key \<times> int) list" where
  "rollup_deltas logs = foldl (\<lambda>ds l. count_key ds (stats_key_of l)) [] logs"

definition add_stat :: "(stats_key \<times> int) list \<Rightarrow> stats_key \<times> int \<Rightarrow> (stats_key \<times> int) list" where
  "add_stat stats d =
     (if fst d \<in> fst ` set stats
      then update_where (\<lambda>s. fst s = fst d) (\<lambda>(k, n). (k, n + snd d)) stats else stats @ [d])"

definition s_add_stats :: "(stats_key \<times> int) list \<Rightarrow> unit log_op" where
  "s_add_stats ds = log_call (\<lambda>w. (Inr (), w\<lparr> lw_stats := foldl add_stat (lw_stats w) ds \<rparr>))"

definition bulk_insert :: "log_entry list \<Rightarrow> unit log_op" where
  "bulk_insert logs = try_op (log_call (ret_op ())) (\<lambda>_. tx_op (
     try_op (loop_op (\<lambda>ls. s_insert_logs (map to_db_log ls)) (chunks insert_batch_size logs)) (\<lambda>_.
     try_op (if rollup_deltas logs = [] then ret_op () else s_add_stats (rollup_deltas logs)) (\<lambda>_.
       commit))))"

definition entry_of :: "uuid \<Rightarrow> new_log \<Rightarrow> log_entry" where
  "entry_of new_id nl = \<lparr> lg_id = new_id, lg_project = nl_project nl, lg_level = nl_level nl,
     lg_message = nl_message nl, lg_source = nl_source nl, lg_ts = nl_ts nl, lg_tags = nl_tags nl,
     lg_meta = Some (map_column (nl_meta nl)),
     lg_source_type = (if nl_source_type nl = [] then source_type_app else nl_source_type nl),
     lg_source_id = nl_source_id nl, lg_infra = nl_infra nl,
     lg_attributes = Some (map_column (nl_attributes nl)) \<rparr>"

fun new_entries :: "new_log list \<Rightarrow> log_entry list log_op" where
  "new_entries [] = ret_op []"
| "new_entries (nl # nls) = try_op fresh_log_id (\<lambda>new_id.
     try_op (new_entries nls) (\<lambda>rest. ret_op (entry_of new_id nl # rest)))"

definition bulk_create :: "new_log list \<Rightarrow> log_entry list log_op" where
  "bulk_create nls = try_op (new_entries nls) (\<lambda>logs. try_op (bulk_insert logs) (\<lambda>_. ret_op logs))"

end
