(* ===== verification/LogRollup.thy ===== *)
theory LogRollup
  imports LogStore
begin

text \<open>
  The hourly rollup counts exactly the stored entries: the statement, and that the bulk insert keeps
  it (\<open>stores/logdb/logdb.go\<close>).
\<close>

definition row_key :: "log_row \<Rightarrow> stats_key" where
  "row_key r = (lr_project r, utc_hour (lr_ts r), lr_source_type r, lr_source r, lr_level r)"

definition rows_of :: "log_row list \<Rightarrow> stats_key \<Rightarrow> int" where
  "rows_of rows k = int (length (filter (\<lambda>r. row_key r = k) rows))"

definition stat_of :: "('k \<times> int) list \<Rightarrow> 'k \<Rightarrow> int" where
  "stat_of stats k = sum_list (map snd (filter (\<lambda>s. fst s = k) stats))"


lemma rows_of_simps [simp]:
  "rows_of [] k = 0" "rows_of (r # rs) k = (if row_key r = k then 1 else 0) + rows_of rs k"
  "rows_of (rs @ ss) k = rows_of rs k + rows_of ss k"
  by (simp_all add: rows_of_def)

lemma stat_of_simps [simp]:
  "stat_of [] k = 0" "stat_of (s # ss) k = (if fst s = k then snd s else 0) + stat_of ss k"
  "stat_of (ss @ ts) k = stat_of ss k + stat_of ts k"
  by (simp_all add: stat_of_def)

lemma stat_of_absent: "k \<notin> fst ` set ss \<Longrightarrow> stat_of ss k = 0"
  by (induction ss) auto

lemma stat_of_filter: "stat_of (filter (\<lambda>s. P (fst s)) ss) k = (if P k then stat_of ss k else 0)"
  by (induction ss) auto

subsection \<open>Counters\<close>

lemma map_fst_bump [simp]:
  "map fst (update_where (\<lambda>s. fst s = k) (\<lambda>(k, n). (k, g n)) ss) = map fst ss"
  by (rule map_update_where_same) auto

lemma stat_of_bump:
  assumes "distinct (map fst ss)" and "k \<in> fst ` set ss"
  shows "stat_of (update_where (\<lambda>s. fst s = k) (\<lambda>(k, n). (k, n + d)) ss) j = stat_of ss j + (if j = k then d else 0)"
  using assms
proof (induction ss)
  case (Cons s ss)
  have "update_where (\<lambda>s. fst s = k) (\<lambda>(k, n). (k, n + d)) ss = ss" if "k \<notin> fst ` set ss"
    using that by (intro update_where_id) auto
  then show ?case using Cons by (cases s; cases "k \<in> fst ` set ss"; cases "fst s = k") simp_all
qed simp

lemma add_stat_ok:
  assumes "distinct (map fst ss)"
  shows "distinct (map fst (add_stat ss d))"
    and "stat_of (add_stat ss d) k = stat_of ss k + (if k = fst d then snd d else 0)"
proof -
  have s: "stat_of (ss @ [d]) k = stat_of ss k + (if k = fst d then snd d else 0)" by simp
  show "distinct (map fst (add_stat ss d))" using assms by (simp add: add_stat_def)
  show "stat_of (add_stat ss d) k = stat_of ss k + (if k = fst d then snd d else 0)"
    using stat_of_bump [OF assms, of "fst d" "snd d" k] s by (cases "fst d \<in> fst ` set ss") (simp_all only: add_stat_def if_True if_False)
qed

lemma add_stats_ok:
  assumes "distinct (map fst ss)"
  shows "distinct (map fst (foldl add_stat ss ds)) \<and> stat_of (foldl add_stat ss ds) k = stat_of ss k + stat_of ds k"
  using assms
proof (induction ds arbitrary: ss)
  case (Cons d ds)
  from Cons.IH [of "add_stat ss d"] add_stat_ok [OF Cons.prems] show ?case by simp
qed simp

lemma count_key_ok:
  assumes "distinct (map fst ds)"
  shows "distinct (map fst (count_key ds k)) \<and> stat_of (count_key ds k) j = stat_of ds j + (if j = k then 1 else 0)"
proof (cases "k \<in> fst ` set ds")
  case True
  then show ?thesis using stat_of_bump [OF assms True, of 1 j] assms by (simp only: count_key_def map_fst_bump if_True)
next
  case False
  then show ?thesis using assms by (simp add: count_key_def)
qed

lemma deltas_fold:
  assumes "distinct (map fst ds)"
  shows "distinct (map fst (foldl (\<lambda>ds l. count_key ds (stats_key_of l)) ds logs)) \<and>
    stat_of (foldl (\<lambda>ds l. count_key ds (stats_key_of l)) ds logs) k =
    stat_of ds k + int (length (filter (\<lambda>l. stats_key_of l = k) logs))"
  using assms
proof (induction logs arbitrary: ds)
  case (Cons l logs)
  from Cons.IH [of "count_key ds (stats_key_of l)"] count_key_ok [OF Cons.prems] show ?case by simp
qed simp

lemma stat_of_deltas:
  "stat_of (rollup_deltas logs) k = int (length (filter (\<lambda>l. stats_key_of l = k) logs))"
  using deltas_fold [of "[]" logs k] by (simp add: rollup_deltas_def)

text \<open>Cutting a time to microseconds keeps it in its hour.\<close>

lemma utc_hour_pg_time: "utc_hour (pg_time t) = utc_hour t"
proof -
  have "t - t mod 1000 = 1000 * (t div 1000)" by (simp add: minus_mod_eq_mult_div)
  moreover have "1000 * (t div 1000) mod (1000 * 3600000000) = 1000 * (t div 1000 mod 3600000000)"
    by (rule mult_mod_right [symmetric])
  moreover have "t mod (1000 * 3600000000) = 1000 * (t div 1000 mod 3600000000) + t mod 1000"
    by (rule zmod_zmult2_eq) simp
  ultimately show ?thesis
    by (simp add: utc_hour_def pg_time_def time_truncate_def)
qed

lemma row_key_to_db: "lg_source_type l \<noteq> [] \<Longrightarrow> row_key (to_db_log l) = stats_key_of l"
  by (simp add: row_key_def stats_key_of_def to_db_log_def utc_hour_pg_time)

lemma rows_of_to_db:
  assumes "\<And>l. l \<in> set logs \<Longrightarrow> lg_source_type l \<noteq> []"
  shows "rows_of (map to_db_log logs) k = stat_of (rollup_deltas logs) k"
  using assms unfolding stat_of_deltas by (induction logs) (auto simp: row_key_to_db)

subsection \<open>The insert\<close>

lemma log_call_cases [consumes 1, case_names Fault Call]:
  assumes "log_call f w = (r, w')"
  obtains bs where "r = Inl Err_log_db" and "w' = w\<lparr> lw_faults := bs \<rparr>"
  | bs where "f (w\<lparr> lw_faults := bs \<rparr>) = (r, w')"
proof (cases "lw_faults w")
  case Nil
  then have "w\<lparr> lw_faults := [] \<rparr> = w" by (cases w) simp
  moreover have "f w = (r, w')" using assms Nil by (simp add: log_call_def)
  ultimately show thesis using that(2) by metis
next
  case (Cons b bs)
  with assms that show thesis by (auto simp: log_call_def split: if_splits)
qed

lemma log_call_ok: "lw_faults w = [] \<Longrightarrow> log_call f w = f w"
  by (simp add: log_call_def)

lemma concat_chunks: "0 < n \<Longrightarrow> concat (chunks n xs) = xs"
proof (induction n xs rule: chunks.induct)
  case (1 n xs)
  then show ?case by (subst chunks.simps) simp
qed

definition same_but_faults :: "log_world \<Rightarrow> log_world \<Rightarrow> bool" where
  "same_but_faults w w' \<longleftrightarrow> w' = w\<lparr> lw_faults := lw_faults w' \<rparr>"

lemma same_but_faults_fields:
  "same_but_faults w w' \<Longrightarrow> lw_logs w' = lw_logs w \<and> lw_stats w' = lw_stats w"
  unfolding same_but_faults_def by (cases w; cases w') simp

lemma insert_logs_done:
  assumes "s_insert_logs rows w = (Inr (), w')"
  shows "lw_logs w' = lw_logs w @ rows \<and> lw_stats w' = lw_stats w \<and> (distinct (map lr_id (lw_logs w @ rows)))
    \<and> list_all (\<lambda>r. lr_level r \<in> set level_names) rows"
  using assms unfolding s_insert_logs_def
  by (cases rule: log_call_cases) (auto simp: row_ok_def list_all_iff split: if_splits)

lemma insert_chunks_done:
  assumes "loop_op (\<lambda>ls. s_insert_logs (map to_db_log ls)) lss w = (Inr (), w')" and "distinct (map lr_id (lw_logs w))"
  shows "lw_logs w' = lw_logs w @ map to_db_log (concat lss) \<and> lw_stats w' = lw_stats w
    \<and> distinct (map lr_id (lw_logs w')) \<and> list_all (\<lambda>r. lr_level r \<in> set level_names) (map to_db_log (concat lss))"
  using assms
proof (induction lss arbitrary: w)
  case (Cons ls lss)
  from Cons.prems(1) obtain w1 where
    "s_insert_logs (map to_db_log ls) w = (Inr (), w1)"
    "loop_op (\<lambda>ls. s_insert_logs (map to_db_log ls)) lss w1 = (Inr (), w')"
    by (auto elim!: try_op_cases)
  note w1 = insert_logs_done [OF this(1)] and loop = this(2)
  then have "distinct (map lr_id (lw_logs w1))" by simp
  note w' = Cons.IH [OF loop this]
  show ?case using w1 w' by (intro conjI) (simp, simp, blast, simp)
qed simp

lemma add_stats_done:
  assumes "s_add_stats ds w = (Inr (), w')"
  shows "lw_logs w' = lw_logs w \<and> lw_stats w' = foldl add_stat (lw_stats w) ds"
  using assms unfolding s_add_stats_def by (cases rule: log_call_cases) auto

lemma commit_done: "commit w = (r, w') \<Longrightarrow> same_but_faults w w'"
  unfolding commit_def by (erule log_call_cases) (auto simp: same_but_faults_def)

text \<open>A bulk insert appends its rows and counts them, or leaves both tables as they are.\<close>

lemma bulk_insert_cases:
  assumes "bulk_insert logs w = (r, w')" and "distinct (map lr_id (lw_logs w))"
  obtains "r = Inl Err_log_db \<or> r \<noteq> Inr ()" and "lw_logs w' = lw_logs w" and "lw_stats w' = lw_stats w"
  | "r = Inr ()" and "lw_logs w' = lw_logs w @ map to_db_log logs"
    and "lw_stats w' = foldl add_stat (lw_stats w) (rollup_deltas logs)" and "distinct (map lr_id (lw_logs w'))"
    and "list_all (\<lambda>r. lr_level r \<in> set level_names) (map to_db_log logs)"
proof -
  let ?body = "try_op (loop_op (\<lambda>ls. s_insert_logs (map to_db_log ls)) (chunks insert_batch_size logs)) (\<lambda>_.
     try_op (if rollup_deltas logs = [] then ret_op () else s_add_stats (rollup_deltas logs)) (\<lambda>_. commit))"
  have "try_op (log_call (ret_op ())) (\<lambda>_. tx_op ?body) w = (r, w')"
    using assms(1) by (simp add: bulk_insert_def)
  then show thesis
  proof (cases rule: try_op_cases)
    case (Failed e)
    from Failed(1) have "same_but_faults w w'" by (cases rule: log_call_cases) (auto simp: same_but_faults_def)
    then show thesis using that(1) Failed(2) same_but_faults_fields by auto
  next
    case (Done x w1)
    from Done(1) have w1: "lw_logs w1 = lw_logs w" "lw_stats w1 = lw_stats w"
      by (cases rule: log_call_cases; auto)+
    show thesis
    proof (cases r)
      case (Inl e)
      then have "lw_logs w' = lw_logs w1 \<and> lw_stats w' = lw_stats w1"
        using Done(2) by (auto simp: tx_op_def split: prod.splits sum.splits)
      then show thesis using that(1) Inl w1 by auto
    next
      case (Inr u)
      then have "?body w1 = (Inr (), w')"
        using Done(2) by (auto simp: tx_op_def split: prod.splits sum.splits)
      then obtain w2 where i: "loop_op (\<lambda>ls. s_insert_logs (map to_db_log ls)) (chunks insert_batch_size logs) w1 = (Inr (), w2)"
        and "try_op (if rollup_deltas logs = [] then ret_op () else s_add_stats (rollup_deltas logs)) (\<lambda>_. commit) w2 = (Inr (), w')"
        by (cases rule: try_op_cases) auto
      from this(2) obtain w3 where a: "(if rollup_deltas logs = [] then ret_op () else s_add_stats (rollup_deltas logs)) w2 = (Inr (), w3)"
        and k: "commit w3 = (Inr (), w')"
        by (cases rule: try_op_cases) auto
      have d1: "distinct (map lr_id (lw_logs w1))" using assms(2) w1 by simp
      have c: "concat (chunks insert_batch_size logs) = logs" by (simp add: concat_chunks)
      have l: "lw_logs w2 = lw_logs w @ map to_db_log logs" "lw_stats w2 = lw_stats w" "distinct (map lr_id (lw_logs w2))"
        "list_all (\<lambda>r. lr_level r \<in> set level_names) (map to_db_log logs)"
        using insert_chunks_done [OF i d1] unfolding c w1 by blast+
      moreover have "lw_logs w3 = lw_logs w2 \<and> lw_stats w3 = foldl add_stat (lw_stats w2) (rollup_deltas logs)"
        using a add_stats_done by (auto split: if_splits)
      moreover note same_but_faults_fields [OF commit_done [OF k]]
      ultimately have "lw_logs w' = lw_logs w2" "lw_stats w' = foldl add_stat (lw_stats w2) (rollup_deltas logs)" by simp_all
      note tables = this
      have "r = Inr ()" using Inr by simp
      moreover have "lw_logs w' = lw_logs w @ map to_db_log logs" using tables l by simp
      moreover have "lw_stats w' = foldl add_stat (lw_stats w) (rollup_deltas logs)" using tables l by simp
      moreover have "distinct (map lr_id (lw_logs w'))" using tables(1) l(3) by simp
      ultimately show thesis using l(4) by (rule that(2))
    qed
  qed
qed

lemma new_entries_done:
  assumes "new_entries nls w = (r, w')"
  shows "\<exists>ls. r = Inr ls \<and> length ls = length nls \<and> (\<forall>l \<in> set ls. lg_source_type l \<noteq> [])
    \<and> lw_logs w' = lw_logs w \<and> lw_stats w' = lw_stats w \<and> lw_faults w' = lw_faults w"
  using assms
proof (induction nls arbitrary: w w' r)
  case (Cons nl nls)
  obtain r1 w1 where n: "new_entries nls (w\<lparr> lw_fresh := Suc (lw_fresh w) \<rparr>) = (r1, w1)" by fastforce
  from Cons.IH [OF this] obtain ls where "r1 = Inr ls" "length ls = length nls"
    "\<forall>l \<in> set ls. lg_source_type l \<noteq> []" "lw_logs w1 = lw_logs w" "lw_stats w1 = lw_stats w" "lw_faults w1 = lw_faults w"
    by auto
  then show ?case using Cons.prems n by (auto simp: fresh_log_id_def entry_of_def)
qed simp

text \<open>
  A bulk insert, finished or failed, adds to the rollup of every key exactly the rows it adds to the
  table, whatever the rollup held before.
\<close>

lemma bulk_create_adds:
  assumes "bulk_create nls w = (r, w')" and "distinct (map lr_id (lw_logs w))" and "distinct (map fst (lw_stats w))"
  shows "\<exists>rows. lw_logs w' = lw_logs w @ rows \<and> distinct (map lr_id (lw_logs w')) \<and> distinct (map fst (lw_stats w'))
    \<and> (\<forall>k. stat_of (lw_stats w') k = stat_of (lw_stats w) k + rows_of rows k)"
proof -
  obtain r1 w1 where n1: "new_entries nls w = (r1, w1)" by fastforce
  with new_entries_done [OF n1] obtain ls where n: "new_entries nls w = (Inr ls, w1)" by auto
  then have i: "try_op (bulk_insert ls) (\<lambda>_. ret_op ls) w1 = (r, w')" using assms(1) by (simp add: bulk_create_def)
  from new_entries_done [OF n] have ls: "\<And>l. l \<in> set ls \<Longrightarrow> lg_source_type l \<noteq> []"
    and w1: "lw_logs w1 = lw_logs w" "lw_stats w1 = lw_stats w" by auto
  obtain r' where bi: "bulk_insert ls w1 = (r', w')"
    using i by (auto simp: try_op_def split: prod.splits sum.splits)
  have d: "distinct (map lr_id (lw_logs w1))" using assms(2) w1 by simp
  from bi d show ?thesis
  proof (cases rule: bulk_insert_cases)
    case 1
    then show ?thesis using assms w1 by (intro exI [of _ "[]"]) (simp add: rows_of_def)
  next
    case 2
    have "stat_of (lw_stats w') k = stat_of (lw_stats w) k + rows_of (map to_db_log ls) k \<and> distinct (map fst (lw_stats w'))" for k
      using add_stats_ok [OF assms(3), of "rollup_deltas ls" k] 2(2,3) w1 rows_of_to_db [of ls k, OF ls] by simp
    then show ?thesis using 2(2,4) w1 by (intro exI [of _ "map to_db_log ls"]) simp
  qed
qed

end
