(* ===== verification/Retention.thy ===== *)
theory Retention
  imports LogRollup ClientInvariant
begin

text \<open>
  The retention run (\<open>business/sdk/retention/retention.go\<close>): which rows expire, the batched deletes
  under the budget of a run, and the repair of the hourly rollup after them. A loop that asks the
  database for one more batch is a \<open>partial_function\<close>, so that a run which never returns is \<open>None\<close>.
\<close>

abbreviation keep_forever :: int where "keep_forever \<equiv> -1"
abbreviation default_source_stats_days :: int where "default_source_stats_days \<equiv> 14"
abbreviation default_event_days :: int where "default_event_days \<equiv> 30"
abbreviation default_issue_days :: int where "default_issue_days \<equiv> 180"
abbreviation map_grace_period :: duration where "map_grace_period \<equiv> 7 * 24 * go_hour"
abbreviation default_reject_days :: int where "default_reject_days \<equiv> 7"

record retention_config =
  rc_audit_days :: int
  rc_batch :: int
  rc_max_rows :: int
  rc_max_runtime :: duration
  rc_source_days :: int
  rc_reject_days :: int
  rc_event_days :: int
  rc_issue_days :: int

definition default_retention :: retention_config where
  "default_retention = \<lparr> rc_audit_days = keep_forever, rc_batch = 10000, rc_max_rows = 2000000,
     rc_max_runtime = 10 * go_minute, rc_source_days = default_source_stats_days, rc_reject_days = 0,
     rc_event_days = 0, rc_issue_days = 0 \<rparr>"

definition with_retention_defaults :: "retention_config \<Rightarrow> retention_config" where
  "with_retention_defaults c = c\<lparr>
     rc_batch := (if rc_batch c \<le> 0 then 10000 else rc_batch c),
     rc_source_days := (if rc_source_days c = 0 then default_source_stats_days else rc_source_days c),
     rc_reject_days := (if rc_reject_days c = 0 then default_reject_days else rc_reject_days c),
     rc_event_days := (if rc_event_days c = 0 then default_event_days else rc_event_days c),
     rc_issue_days := (if rc_issue_days c = 0 then default_issue_days else rc_issue_days c) \<rparr>"

record retention_result =
  rr_infra :: int
  rr_app :: int
  rr_audit :: int
  rr_rejects :: int
  rr_source_stats :: int
  rr_events :: int
  rr_issues :: int
  rr_incomplete :: bool

definition no_deletions :: retention_result where
  "no_deletions = \<lparr> rr_infra = 0, rr_app = 0, rr_audit = 0, rr_rejects = 0, rr_source_stats = 0,
     rr_events = 0, rr_issues = 0, rr_incomplete = False \<rparr>"

definition total_deleted :: "retention_result \<Rightarrow> int" where
  "total_deleted r = rr_infra r + rr_app r + rr_audit r"

definition expires :: "int \<Rightarrow> bool" where
  "expires days \<longleftrightarrow> keep_forever < days"

definition boundary_hour :: "instant \<Rightarrow> instant \<times> instant" where
  "boundary_hour t = (utc_hour t, utc_hour t + go_hour)"

text \<open>\<open>time.Now().UTC().Add(-time.Duration(days) * 24 * time.Hour)\<close>, in 64 bits.\<close>

definition cutoff_of :: "instant \<Rightarrow> int \<Rightarrow> instant" where
  "cutoff_of now days = now + wrap64 (- days * 24 * go_hour)"

definition context_done :: "log_world \<Rightarrow> bool \<times> log_world" where
  "context_done w =
     (case lw_cancel w of
        None \<Rightarrow> (False, w)
      | Some n \<Rightarrow> if n = 0 then (True, w) else (False, w\<lparr> lw_cancel := Some (n - 1) \<rparr>))"

definition past_deadline :: "instant option \<Rightarrow> log_world \<Rightarrow> bool \<times> log_world" where
  "past_deadline deadline w =
     (case deadline of
        None \<Rightarrow> (False, w)
      | Some d \<Rightarrow> (case read_clock w of (now, w') \<Rightarrow> (d < now, w')))"

subsection \<open>Targets\<close>

record retention_target =
  tg_project :: uuid
  tg_app :: int
  tg_infra :: int

definition coalesce :: "int option list \<Rightarrow> int" where
  "coalesce vs = (case List.find (\<lambda>v. v \<noteq> None) vs of Some (Some d) \<Rightarrow> d | _ \<Rightarrow> keep_forever)"

definition joined_plans :: "log_world \<Rightarrow> uuid \<Rightarrow> plan_row option list" where
  "joined_plans w org =
     (let subs = filter (\<lambda>s. fst s = org) (lw_subscriptions w)
      in if subs = [] then [None] else map (\<lambda>s. List.find (\<lambda>p. pl_id p = snd s) (lw_plans w)) subs)"

definition target_of :: "project_row \<Rightarrow> plan_row option \<Rightarrow> retention_target" where
  "target_of p plan = \<lparr> tg_project = pr_id p,
     tg_app = coalesce [pr_retention p, Option.bind plan pl_log_retention],
     tg_infra = coalesce [Option.bind plan pl_infra_retention] \<rparr>"

definition targets_of :: "log_world \<Rightarrow> retention_target list" where
  "targets_of w = concat (map (\<lambda>p. map (target_of p) (joined_plans w (pr_org p))) (lw_projects w))"

definition s_query_targets :: "retention_target list log_op" where
  "s_query_targets = log_call (\<lambda>w. (Inr (targets_of w), w))"

subsection \<open>Deleting expired rows\<close>

definition next_batch :: "retention_config \<Rightarrow> int \<Rightarrow> int \<Rightarrow> int option" where
  "next_batch cfg spent deleted =
     (if rc_max_rows cfg \<le> 0 then Some (rc_batch cfg)
      else let remaining = rc_max_rows cfg - (spent + deleted) in
        if remaining \<le> 0 then None
        else Some (if remaining < rc_batch cfg then remaining else rc_batch cfg))"

definition expired_rows :: "uuid \<Rightarrow> string \<Rightarrow> instant \<Rightarrow> log_row list \<Rightarrow> log_row list" where
  "expired_rows project st cutoff rows =
     filter (\<lambda>r. lr_project r = project \<and> lr_source_type r = st \<and> lr_ts r < pg_time cutoff) rows"

definition oldest_rows :: "uuid \<Rightarrow> string \<Rightarrow> instant \<Rightarrow> int \<Rightarrow> log_row list \<Rightarrow> log_row list" where
  "oldest_rows project st cutoff batch rows = take (nat batch) (sort_key lr_ts (expired_rows project st cutoff rows))"

definition s_delete_oldest :: "uuid \<Rightarrow> string \<Rightarrow> instant \<Rightarrow> int \<Rightarrow> int log_op" where
  "s_delete_oldest project st cutoff batch = log_call (\<lambda>w.
     let doomed = oldest_rows project st cutoff batch (lw_logs w);
       left = filter (\<lambda>r. lr_id r \<notin> lr_id ` set doomed) (lw_logs w)
     in (Inr (int (length (lw_logs w)) - int (length left)), w\<lparr> lw_logs := left \<rparr>))"

text \<open>The answer is Go's triple: how many rows went, whether the budget stopped it, and the error.\<close>

partial_function (option) delete_expired ::
  "retention_config \<Rightarrow> uuid \<Rightarrow> string \<Rightarrow> instant \<Rightarrow> int \<Rightarrow> instant option \<Rightarrow> int \<Rightarrow> log_world \<Rightarrow>
    ((int \<times> bool \<times> log_error option) \<times> log_world) option" where
  "delete_expired cfg project st cutoff spent deadline deleted w =
     (let (cancelled, w1) = context_done w in
      if cancelled then Some ((deleted, True, None), w1)
      else let (late, w2) = past_deadline deadline w1 in
      if late then Some ((deleted, True, None), w2)
      else (case next_batch cfg spent deleted of
        None \<Rightarrow> Some ((deleted, True, None), w2)
      | Some batch \<Rightarrow>
          (case s_delete_oldest project st cutoff batch w2 of
             (Inl e, w3) \<Rightarrow> Some ((deleted, False, Some e), w3)
           | (Inr n, w3) \<Rightarrow>
               if n < batch then Some ((deleted + n, False, None), w3)
               else delete_expired cfg project st cutoff spent deadline (deleted + n) w3)))"

subsection \<open>Repairing the rollup\<close>

definition s_oldest :: "uuid \<Rightarrow> string \<Rightarrow> instant option log_op" where
  "s_oldest project st = log_call (\<lambda>w.
     let ts = map lr_ts (filter (\<lambda>r. lr_project r = project \<and> lr_source_type r = st) (lw_logs w))
     in (Inr (if ts = [] then None else Some (Min (set ts))), w))"

definition stats_for :: "uuid \<Rightarrow> string \<Rightarrow> stats_key \<Rightarrow> bool" where
  "stats_for project st k = (case k of (p, _, s, _, _) \<Rightarrow> p = project \<and> s = st)"

definition key_hour :: "stats_key \<Rightarrow> instant" where
  "key_hour k = fst (snd k)"

definition s_drop_stats :: "uuid \<Rightarrow> string \<Rightarrow> instant option \<Rightarrow> unit log_op" where
  "s_drop_stats project st last_hour = log_call (\<lambda>w. (Inr (), w\<lparr> lw_stats :=
     filter (\<lambda>s. \<not> (stats_for project st (fst s) \<and>
       (case last_hour of None \<Rightarrow> True | Some h \<Rightarrow> key_hour (fst s) \<le> h))) (lw_stats w) \<rparr>))"

definition put_stat :: "('k \<times> int) list \<Rightarrow> 'k \<times> int \<Rightarrow> ('k \<times> int) list" where
  "put_stat stats d =
     (if fst d \<in> fst ` set stats then update_where (\<lambda>s. fst s = fst d) (\<lambda>(k, _). (k, snd d)) stats
      else stats @ [d])"

definition counted_rows :: "log_row list \<Rightarrow> (stats_key \<times> int) list" where
  "counted_rows rows = map (\<lambda>k. (k, rows_of rows k)) (remdups (map row_key rows))"

definition s_rebuild_stats :: "uuid \<Rightarrow> string \<Rightarrow> instant \<Rightarrow> instant \<Rightarrow> unit log_op" where
  "s_rebuild_stats project st lo hi = log_call (\<lambda>w.
     let rows = filter (\<lambda>r. lr_project r = project \<and> lr_source_type r = st \<and> lo \<le> lr_ts r \<and> lr_ts r < hi) (lw_logs w)
     in (Inr (), w\<lparr> lw_stats := foldl put_stat (lw_stats w) (counted_rows rows) \<rparr>))"

text \<open>
  The oldest surviving row is read before the transaction begins; other requests run in between.
\<close>

definition repair_tx :: "uuid \<Rightarrow> string \<Rightarrow> instant option \<Rightarrow> unit log_op" where
  "repair_tx project st oldest = try_op (log_call (ret_op ())) (\<lambda>_. tx_op (
     case oldest of
       None \<Rightarrow> try_op (s_drop_stats project st None) (\<lambda>_. commit)
     | Some t \<Rightarrow> (case boundary_hour t of (start, stop) \<Rightarrow>
         try_op (s_drop_stats project st (Some start)) (\<lambda>_.
         try_op (s_rebuild_stats project st start stop) (\<lambda>_. commit)))))"

definition repair_rollup :: "uuid \<Rightarrow> string \<Rightarrow> unit log_op" where
  "repair_rollup project st = try_op (s_oldest project st) (repair_tx project st)"

definition purge ::
  "retention_config \<Rightarrow> uuid \<Rightarrow> string \<Rightarrow> int \<Rightarrow> int \<Rightarrow> instant option \<Rightarrow> log_world \<Rightarrow>
    ((int \<times> bool \<times> log_error option) \<times> log_world) option" where
  "purge cfg project st days spent deadline w =
     (case read_clock w of (now, w1) \<Rightarrow>
      case delete_expired cfg project st (cutoff_of now days) spent deadline 0 w1 of
        None \<Rightarrow> None
      | Some ((deleted, incomplete, err), w2) \<Rightarrow>
          if deleted \<le> 0 then Some ((deleted, incomplete, err), w2)
          else (case repair_rollup project st w2 of
            (Inl e, w3) \<Rightarrow> Some ((deleted, incomplete, if err = None then Some e else err), w3)
          | (Inr _, w3) \<Rightarrow> Some ((deleted, incomplete, err), w3)))"

subsection \<open>The passes of a run\<close>

definition passes_of :: "retention_target list \<Rightarrow> (uuid \<times> string \<times> int) list" where
  "passes_of ts = concat (map (\<lambda>t. [(tg_project t, source_type_app, tg_app t),
     (tg_project t, source_type_infra, tg_infra t)]) ts)"

definition add_deleted :: "string \<Rightarrow> int \<Rightarrow> retention_result \<Rightarrow> retention_result" where
  "add_deleted st n r =
     (if st = source_type_app then r\<lparr> rr_app := rr_app r + n \<rparr> else r\<lparr> rr_infra := rr_infra r + n \<rparr>)"

text \<open>The answer's second part: \<open>None\<close> to go on, \<open>Some\<close> what \<open>Run\<close> returns there.\<close>

fun run_passes ::
  "retention_config \<Rightarrow> instant option \<Rightarrow> (uuid \<times> string \<times> int) list \<Rightarrow> retention_result \<Rightarrow> log_world \<Rightarrow>
    ((retention_result \<times> log_error option option) \<times> log_world) option" where
  "run_passes cfg deadline [] res w = Some ((res, None), w)"
| "run_passes cfg deadline ((project, st, days) # passes) res w =
     (if \<not> expires days then run_passes cfg deadline passes res w
      else (case purge cfg project st days (total_deleted res) deadline w of
        None \<Rightarrow> None
      | Some ((n, incomplete, err), w') \<Rightarrow>
          let res = add_deleted st n res in
          if err \<noteq> None then Some ((res, Some err), w')
          else if incomplete then Some ((res\<lparr> rr_incomplete := True \<rparr>, Some None), w')
          else run_passes cfg deadline passes res w'))"

subsection \<open>Audit records and counters\<close>

definition s_delete_audit :: "instant \<Rightarrow> int \<Rightarrow> int log_op" where
  "s_delete_audit cutoff batch = log_call (\<lambda>w.
     let doomed = take (nat batch) (sort_key snd (filter (\<lambda>a. snd a < pg_time cutoff) (lw_audit w)));
       left = filter (\<lambda>a. fst a \<notin> fst ` set doomed) (lw_audit w)
     in (Inr (int (length (lw_audit w)) - int (length left)), w\<lparr> lw_audit := left \<rparr>))"

partial_function (option) audit_batches ::
  "retention_config \<Rightarrow> instant \<Rightarrow> instant option \<Rightarrow> int \<Rightarrow> log_world \<Rightarrow>
    ((int \<times> log_error option) \<times> log_world) option" where
  "audit_batches cfg cutoff deadline deleted w =
     (let (cancelled, w1) = context_done w in
      if cancelled then Some ((deleted, None), w1)
      else let (late, w2) = past_deadline deadline w1 in
      if late then Some ((deleted, None), w2)
      else (case s_delete_audit cutoff (rc_batch cfg) w2 of
          (Inl e, w3) \<Rightarrow> Some ((deleted, Some e), w3)
        | (Inr n, w3) \<Rightarrow>
            if n < rc_batch cfg then Some ((deleted + n, None), w3)
            else audit_batches cfg cutoff deadline (deleted + n) w3))"

definition purge_audit ::
  "retention_config \<Rightarrow> instant option \<Rightarrow> log_world \<Rightarrow> ((int \<times> log_error option) \<times> log_world) option" where
  "purge_audit cfg deadline w =
     (if \<not> expires (rc_audit_days cfg) then Some ((0, None), w)
      else (case read_clock w of (now, w1) \<Rightarrow>
        audit_batches cfg (cutoff_of now (rc_audit_days cfg)) deadline 0 w1))"

definition clock_cutoff :: "int \<Rightarrow> log_world \<Rightarrow> instant \<times> log_world" where
  "clock_cutoff days w = (case read_clock w of (now, w') \<Rightarrow> (pg_time (cutoff_of now days), w'))"

definition prune_source_stats :: "retention_config \<Rightarrow> int log_op" where
  "prune_source_stats cfg w =
     (if \<not> expires (rc_source_days cfg) then (Inr 0, w)
      else (case clock_cutoff (rc_source_days cfg) w of (cutoff, w1) \<Rightarrow>
        log_call (\<lambda>w. let left = filter (\<lambda>h. \<not> sh_hour h < cutoff) (lw_source_hours w)
          in (Inr (int (length (lw_source_hours w)) - int (length left)), w\<lparr> lw_source_hours := left \<rparr>)) w1))"

definition prune_rejects :: "retention_config \<Rightarrow> int log_op" where
  "prune_rejects cfg w =
     (if \<not> expires (rc_reject_days cfg) then (Inr 0, w)
      else (case clock_cutoff (rc_reject_days cfg) w of (cutoff, w1) \<Rightarrow>
        log_call (\<lambda>w. let left = filter (\<lambda>r. \<not> rj_received r < cutoff) (lw_rejects w)
          in (Inr (int (length (lw_rejects w)) - int (length left)), w\<lparr> lw_rejects := left \<rparr>)) w1))"

subsection \<open>Client errors\<close>

definition s_drop_events :: "instant \<Rightarrow> int log_op" where
  "s_drop_events cutoff = log_call (\<lambda>w.
     let c = lw_client w; left = filter (\<lambda>e. \<not> ce_received_at e < cutoff) (cw_events c)
     in (Inr (int (length (cw_events c)) - int (length left)), w\<lparr> lw_client := c\<lparr> cw_events := left \<rparr> \<rparr>))"

definition s_drop_old_issues :: "instant \<Rightarrow> int log_op" where
  "s_drop_old_issues cutoff = log_call (\<lambda>w.
     let c = lw_client w;
       c' = drop_issues (\<lambda>i. ci_last_seen i < cutoff \<and> \<not> (\<exists>e \<in> set (cw_events c). ce_issue e = Some (ci_id i))) c
     in (Inr (int (length (cw_issues c)) - int (length (cw_issues c'))), w\<lparr> lw_client := c' \<rparr>))"

definition s_drop_maps :: "instant \<Rightarrow> unit log_op" where
  "s_drop_maps cutoff = log_call (\<lambda>w.
     let c = lw_client w
     in (Inr (), w\<lparr> lw_client := c\<lparr> cw_artifacts := filter (\<lambda>a. \<not> (af_date_created a < cutoff \<and>
          \<not> (\<exists>e \<in> set (cw_events c). ce_release e = af_release a))) (cw_artifacts c) \<rparr> \<rparr>))"

definition prune_pass :: "int \<Rightarrow> (instant \<Rightarrow> int log_op) \<Rightarrow> int log_op" where
  "prune_pass days f w =
     (if expires days then case clock_cutoff days w of (cutoff, w') \<Rightarrow> f cutoff w' else (Inr 0, w))"

text \<open>Events, issues and the error; the two counts stand even when a later statement fails.\<close>

definition prune_client_errors :: "retention_config \<Rightarrow> log_world \<Rightarrow> (int \<times> int \<times> log_error option) \<times> log_world" where
  "prune_client_errors cfg w =
     (case prune_pass (rc_event_days cfg) s_drop_events w of
        (Inl e, w1) \<Rightarrow> ((0, 0, Some e), w1)
      | (Inr events, w1) \<Rightarrow>
          (case prune_pass (rc_issue_days cfg) s_drop_old_issues w1 of
             (Inl e, w2) \<Rightarrow> ((events, 0, Some e), w2)
           | (Inr issues, w2) \<Rightarrow>
               (case read_clock w2 of (now, w3) \<Rightarrow>
                case s_drop_maps (pg_time (now - map_grace_period)) w3 of
                  (Inl e, w4) \<Rightarrow> ((events, issues, Some e), w4)
                | (Inr _, w4) \<Rightarrow> ((events, issues, None), w4))))"

subsection \<open>A run\<close>

definition prune_tables :: "retention_config \<Rightarrow> retention_result \<Rightarrow> log_world \<Rightarrow> (retention_result \<times> log_error option) \<times> log_world" where
  "prune_tables cfg res w =
     (case prune_source_stats cfg w of
        (Inl e, w1) \<Rightarrow> ((res, Some e), w1)
      | (Inr stats, w1) \<Rightarrow>
          (case prune_client_errors cfg w1 of ((events, issues, err), w2) \<Rightarrow>
            let res = res\<lparr> rr_source_stats := stats, rr_events := events, rr_issues := issues \<rparr> in
            if err \<noteq> None then ((res, err), w2)
            else (case prune_rejects cfg w2 of
              (Inl e, w3) \<Rightarrow> ((res, Some e), w3)
            | (Inr n, w3) \<Rightarrow> ((res\<lparr> rr_rejects := n \<rparr>, None), w3))))"

definition retention_run ::
  "retention_config \<Rightarrow> log_world \<Rightarrow> ((retention_result \<times> log_error option) \<times> log_world) option" where
  "retention_run cfg w =
     (let cfg = with_retention_defaults cfg in
      case try_op (log_call (ret_op ())) (\<lambda>_. s_query_targets) w of
        (Inl e, w1) \<Rightarrow> Some ((no_deletions, Some e), w1)
      | (Inr targets, w1) \<Rightarrow>
          (case read_clock w1 of (start, w2) \<Rightarrow>
           let deadline = (if 0 < rc_max_runtime cfg then Some (start + rc_max_runtime cfg) else None) in
           case run_passes cfg deadline (passes_of targets) no_deletions w2 of
             None \<Rightarrow> None
           | Some ((res, Some err), w3) \<Rightarrow> Some ((res, err), w3)
           | Some ((res, None), w3) \<Rightarrow>
               (case purge_audit cfg deadline w3 of
                  None \<Rightarrow> None
                | Some ((n, err), w4) \<Rightarrow>
                    let res = res\<lparr> rr_audit := n \<rparr> in
                    if err \<noteq> None then Some ((res, err), w4) else Some (prune_tables cfg res w4))))"

end
