(* ===== verification/RetentionRun.thy ===== *)
theory RetentionRun
  imports Retention
begin

text \<open>
  What a retention run does to the tables: it returns, it deletes only what has expired and within
  its budget, and what its repair of the rollup does.
\<close>

subsection \<open>Every run returns\<close>

lemma s_delete_oldest_shorter:
  assumes "s_delete_oldest p st cutoff batch w = (Inr n, w')"
  shows "int (length (lw_logs w')) = int (length (lw_logs w)) - n"
  using assms unfolding s_delete_oldest_def by (cases rule: log_call_cases) (auto simp: Let_def)

lemma context_done_logs: "context_done w = (b, w') \<Longrightarrow> lw_logs w' = lw_logs w \<and> lw_audit w' = lw_audit w"
  by (auto simp: context_done_def split: option.splits if_splits)

lemma read_clock_tables: "read_clock w = (t, w') \<Longrightarrow> w' = w\<lparr> lw_now := lw_now w', lw_ticks := lw_ticks w' \<rparr>"
  by (cases w) (auto simp: read_clock_def split: list.splits)

lemma past_deadline_logs: "past_deadline d w = (b, w') \<Longrightarrow> lw_logs w' = lw_logs w \<and> lw_audit w' = lw_audit w"
  by (auto simp: past_deadline_def read_clock_def split: option.splits list.splits)

lemma next_batch_pos: "0 < rc_batch cfg \<Longrightarrow> next_batch cfg spent deleted = Some b \<Longrightarrow> 0 < b \<and> b \<le> rc_batch cfg"
  by (auto simp: next_batch_def Let_def split: if_splits)

lemma delete_expired_returns:
  assumes "0 < rc_batch cfg"
  shows "delete_expired cfg p st cutoff spent deadline deleted w \<noteq> None"
proof (induction "length (lw_logs w)" arbitrary: w deleted rule: less_induct)
  case less
  obtain c w1 where c: "context_done w = (c, w1)" by fastforce
  obtain l w2 where l: "past_deadline deadline w1 = (l, w2)" by fastforce
  have len: "length (lw_logs w2) = length (lw_logs w)"
    using context_done_logs [OF c] past_deadline_logs [OF l] by simp
  have "delete_expired cfg p st cutoff spent deadline (deleted + n) w3 \<noteq> None"
    if "next_batch cfg spent deleted = Some b" "s_delete_oldest p st cutoff b w2 = (Inr n, w3)" "\<not> n < b" for b n w3
    using that next_batch_pos [OF assms that(1)] s_delete_oldest_shorter [OF that(2)] len by (intro less) linarith
  then show ?case
    using c l by (subst delete_expired.simps) (auto split: option.splits prod.splits sum.splits)
qed

lemma s_delete_audit_shorter:
  assumes "s_delete_audit cutoff batch w = (Inr n, w')"
  shows "int (length (lw_audit w')) = int (length (lw_audit w)) - n"
  using assms unfolding s_delete_audit_def by (cases rule: log_call_cases) (auto simp: Let_def)

lemma audit_batches_returns:
  assumes "0 < rc_batch cfg"
  shows "audit_batches cfg cutoff deadline deleted w \<noteq> None"
proof (induction "length (lw_audit w)" arbitrary: w deleted rule: less_induct)
  case less
  obtain c w1 where c: "context_done w = (c, w1)" by fastforce
  obtain l w2 where l: "past_deadline deadline w1 = (l, w2)" by fastforce
  have len: "length (lw_audit w2) = length (lw_audit w)"
    using context_done_logs [OF c] past_deadline_logs [OF l] by simp
  have "audit_batches cfg cutoff deadline (deleted + n) w3 \<noteq> None"
    if "s_delete_audit cutoff (rc_batch cfg) w2 = (Inr n, w3)" "\<not> n < rc_batch cfg" for n w3
    using that assms s_delete_audit_shorter [OF that(1)] len by (intro less) linarith
  then show ?case
    using c l by (subst audit_batches.simps) (auto split: prod.splits sum.splits)
qed

lemma purge_returns: "0 < rc_batch cfg \<Longrightarrow> purge cfg p st days spent deadline w \<noteq> None"
  using delete_expired_returns by (auto simp: purge_def simp del: not_None_eq split: option.splits prod.splits sum.splits)

lemma run_passes_returns: "0 < rc_batch cfg \<Longrightarrow> run_passes cfg deadline passes res w \<noteq> None"
proof (induction passes arbitrary: res w)
  case (Cons pass passes)
  then show ?case using purge_returns [OF Cons.prems] by (cases pass) (auto simp: Let_def simp del: not_None_eq split: option.splits prod.splits)
qed simp

lemma purge_audit_returns: "0 < rc_batch cfg \<Longrightarrow> purge_audit cfg deadline w \<noteq> None"
  using audit_batches_returns by (auto simp: purge_audit_def simp del: not_None_eq split: prod.splits)

lemma batch_pos: "0 < rc_batch (with_retention_defaults cfg)"
  by (simp add: with_retention_defaults_def)

text \<open>
  C23: every retention run returns. Whatever the configuration, the sizes of the tables, the faults
  of the database, the clock and the cancellation, no loop of a run goes on for ever: a batch that
  does not end its loop has deleted at least one row.
\<close>

theorem retention_returns:
  "retention_run cfg w \<noteq> None"
  using run_passes_returns [OF batch_pos] purge_audit_returns [OF batch_pos]
  by (auto simp: retention_run_def Let_def simp del: not_None_eq split: option.splits prod.splits sum.splits)

subsection \<open>What a purge deletes\<close>

definition forward :: "log_world \<Rightarrow> bool" where
  "forward w \<longleftrightarrow> (\<forall>d \<in> set (lw_ticks w). 0 \<le> d)"

definition later :: "log_world \<Rightarrow> log_world \<Rightarrow> bool" where
  "later w w' \<longleftrightarrow> (forward w \<longrightarrow> lw_now w \<le> lw_now w' \<and> forward w')"

lemma later_refl [simp]: "later w w"
  by (simp add: later_def)

lemma later_trans: "later w w1 \<Longrightarrow> later w1 w2 \<Longrightarrow> later w w2"
  by (auto simp: later_def)

definition removes :: "(log_row \<Rightarrow> bool) \<Rightarrow> log_world \<Rightarrow> log_world \<Rightarrow> bool" where
  "removes P w w' \<longleftrightarrow> (\<exists>D. D \<subseteq> {r \<in> set (lw_logs w). P r} \<and> lw_logs w' = filter (\<lambda>r. r \<notin> D) (lw_logs w))"

definition drains :: "uuid \<Rightarrow> string \<Rightarrow> instant \<Rightarrow> log_world \<Rightarrow> log_world \<Rightarrow> bool" where
  "drains p st cutoff w w' \<longleftrightarrow>
     (\<exists>D. D \<subseteq> set (expired_rows p st cutoff (lw_logs w)) \<and> lw_logs w' = filter (\<lambda>r. r \<notin> D) (lw_logs w)
       \<and> (\<forall>d \<in> D. \<forall>r \<in> set (lw_logs w'). lr_project r = p \<and> lr_source_type r = st \<longrightarrow> lr_ts d \<le> lr_ts r))
     \<and> lw_stats w' = lw_stats w \<and> later w w'"

lemma drains_trans:
  assumes "drains p st cutoff w w1" and "drains p st cutoff w1 w2"
  shows "drains p st cutoff w w2"
proof -
  from assms(1) obtain D where D: "D \<subseteq> set (expired_rows p st cutoff (lw_logs w))"
    "lw_logs w1 = filter (\<lambda>r. r \<notin> D) (lw_logs w)"
    "\<forall>d \<in> D. \<forall>r \<in> set (lw_logs w1). lr_project r = p \<and> lr_source_type r = st \<longrightarrow> lr_ts d \<le> lr_ts r"
    by (auto simp: drains_def)
  from assms(2) obtain E where E: "E \<subseteq> set (expired_rows p st cutoff (lw_logs w1))"
    "lw_logs w2 = filter (\<lambda>r. r \<notin> E) (lw_logs w1)"
    "\<forall>d \<in> E. \<forall>r \<in> set (lw_logs w2). lr_project r = p \<and> lr_source_type r = st \<longrightarrow> lr_ts d \<le> lr_ts r"
    by (auto simp: drains_def)
  have sub: "D \<union> E \<subseteq> set (expired_rows p st cutoff (lw_logs w))"
    using D(1,2) E(1) by (auto simp: expired_rows_def)
  have logs: "lw_logs w2 = filter (\<lambda>r. r \<notin> D \<union> E) (lw_logs w)"
    using D(2) E(2) by (auto intro: filter_cong)
  have "\<forall>d \<in> D \<union> E. \<forall>r \<in> set (lw_logs w2). lr_project r = p \<and> lr_source_type r = st \<longrightarrow> lr_ts d \<le> lr_ts r"
    using D(3) E(2,3) by auto
  moreover have "lw_stats w2 = lw_stats w" "later w w2"
    using assms later_trans by (auto simp: drains_def)
  ultimately show ?thesis using sub logs unfolding drains_def by blast
qed

lemma drains_same:
  "lw_logs w' = lw_logs w \<Longrightarrow> lw_stats w' = lw_stats w \<Longrightarrow> later w w' \<Longrightarrow> drains p st cutoff w w'"
  unfolding drains_def by (intro conjI exI [of _ "{}"]) auto

lemma context_done_later: "context_done w = (b, w') \<Longrightarrow> lw_stats w' = lw_stats w \<and> later w w'"
  by (auto simp: context_done_def later_def forward_def split: option.splits if_splits)

lemma read_clock_later: "read_clock w = (t, w') \<Longrightarrow> later w w' \<and> t = lw_now w' \<and> lw_stats w' = lw_stats w \<and> lw_logs w' = lw_logs w"
  by (auto simp: read_clock_def later_def forward_def split: list.splits)

lemma past_deadline_later: "past_deadline d w = (b, w') \<Longrightarrow> lw_stats w' = lw_stats w \<and> later w w'"
  by (auto simp: past_deadline_def dest: read_clock_later split: option.splits prod.splits)

lemma sorted_take_le:
  assumes "sorted (map f xs)" and "x \<in> set (take n xs)" and "y \<in> set (drop n xs)"
  shows "f x \<le> f y"
proof -
  have "sorted (map f (take n xs @ drop n xs))" using assms(1) by simp
  then show ?thesis using assms(2,3) unfolding map_append sorted_append by auto
qed

text \<open>One batch: as many rows as counted, expired ones, and none of those left is older.\<close>

lemma s_delete_oldest_drains:
  assumes "s_delete_oldest p st cutoff batch w = (r, w')" and "distinct (map lr_id (lw_logs w))"
  shows "drains p st cutoff w w' \<and> distinct (map lr_id (lw_logs w')) \<and>
    (case r of Inl e \<Rightarrow> lw_logs w' = lw_logs w
     | Inr n \<Rightarrow> 0 \<le> n \<and> n \<le> int (nat batch) \<and> int (length (lw_logs w')) = int (length (lw_logs w)) - n)"
  using assms(1) unfolding s_delete_oldest_def
proof (cases rule: log_call_cases)
  case (Fault bs)
  then show ?thesis using assms(2) by (simp add: drains_same later_def forward_def)
next
  case (Call bs)
  let ?old = "oldest_rows p st cutoff batch (lw_logs w)"
  have n: "r = Inr (int (length (lw_logs w)) - int (length (lw_logs w')))"
    and w': "w' = w\<lparr> lw_faults := bs, lw_logs := filter (\<lambda>r. lr_id r \<notin> lr_id ` set ?old) (lw_logs w) \<rparr>"
    using Call by (auto simp: Let_def)
  have sub: "set ?old \<subseteq> set (expired_rows p st cutoff (lw_logs w))"
    unfolding oldest_rows_def using set_take_subset by fastforce
  have inj: "inj_on lr_id (set (lw_logs w))" using assms(2) by (simp add: distinct_map)
  then have logs: "lw_logs w' = filter (\<lambda>r. r \<notin> set ?old) (lw_logs w)"
    unfolding w' using sub by (auto simp: expired_rows_def inj_on_def intro!: filter_cong)
  have old: "lr_ts d \<le> lr_ts x"
    if "d \<in> set ?old" "x \<in> set (lw_logs w')" "lr_project x = p" "lr_source_type x = st" for d x
  proof (cases "lr_ts x < pg_time cutoff")
    case True
    let ?srt = "sort_key lr_ts (expired_rows p st cutoff (lw_logs w))"
    from True that logs have "x \<in> set ?srt" "x \<notin> set (take (nat batch) ?srt)"
      by (auto simp: expired_rows_def oldest_rows_def)
    then have "x \<in> set (drop (nat batch) ?srt)" by (metis UnE append_take_drop_id set_append)
    then show ?thesis using that(1) unfolding oldest_rows_def by (intro sorted_take_le [OF sorted_sort_key])
  next
    case False
    then show ?thesis using that(1) sub by (auto simp: expired_rows_def)
  qed
  have "drains p st cutoff w w'"
    unfolding drains_def using sub logs old w' by (intro conjI exI [of _ "set ?old"]) (auto simp: later_def forward_def)
  moreover have "distinct (map lr_id (lw_logs w'))" using assms(2) logs by (simp add: distinct_map_filter)
  moreover have "length (lw_logs w) = length (lw_logs w') + length (filter (\<lambda>r. r \<in> set ?old) (lw_logs w))"
    unfolding logs using sum_length_filter_compl [of "\<lambda>r. r \<in> set ?old" "lw_logs w"] by simp
  moreover have "length (filter (\<lambda>r. r \<in> set ?old) (lw_logs w)) \<le> nat batch"
  proof -
    have d: "distinct (lw_logs w)" using assms(2) by (simp add: distinct_map)
    then have "length (filter (\<lambda>r. r \<in> set ?old) (lw_logs w)) = card (set (lw_logs w) \<inter> set ?old)"
      by (subst distinct_card [symmetric]) (auto intro: arg_cong [where f = card])
    also have "\<dots> \<le> card (set ?old)" by (simp add: card_mono)
    also have "\<dots> \<le> nat batch" using card_length [of ?old] by (simp add: oldest_rows_def)
    finally show ?thesis .
  qed
  ultimately show ?thesis using n by (simp del: int_nat_eq)
qed

lemma next_batch_budget:
  "next_batch cfg spent deleted = Some b \<Longrightarrow> 0 < rc_batch cfg \<Longrightarrow>
    0 < b \<and> (0 < rc_max_rows cfg \<longrightarrow> spent + deleted + b \<le> rc_max_rows cfg)"
  by (auto simp: next_batch_def Let_def split: if_splits)

lemma delete_expired_drains:
  assumes "delete_expired cfg p st cutoff spent deadline deleted w = Some ((d, inc, err), w')"
    and "0 < rc_batch cfg" and "distinct (map lr_id (lw_logs w))"
    and "0 < rc_max_rows cfg \<longrightarrow> spent + deleted \<le> rc_max_rows cfg"
  shows "drains p st cutoff w w' \<and> distinct (map lr_id (lw_logs w')) \<and> deleted \<le> d
    \<and> int (length (lw_logs w')) = int (length (lw_logs w)) - (d - deleted)
    \<and> (0 < rc_max_rows cfg \<longrightarrow> spent + d \<le> rc_max_rows cfg)"
  using assms(1,3,4)
proof (induction "length (lw_logs w)" arbitrary: w deleted rule: less_induct)
  case less
  obtain c w1 where c: "context_done w = (c, w1)" by fastforce
  obtain l w2 where l: "past_deadline deadline w1 = (l, w2)" by fastforce
  have same: "lw_logs w2 = lw_logs w" "lw_stats w2 = lw_stats w" "later w w2" "lw_logs w1 = lw_logs w"
    "lw_stats w1 = lw_stats w" "later w w1"
    using context_done_logs [OF c] past_deadline_logs [OF l] context_done_later [OF c] past_deadline_later [OF l]
      later_trans by auto
  note step = less.prems(1) [unfolded delete_expired.simps [of cfg p st cutoff spent deadline deleted w]]
  show ?case
  proof (cases "c \<or> l \<or> next_batch cfg spent deleted = None")
    case True
    then show ?thesis using step c l same less.prems by (auto intro!: drains_same split: if_splits option.splits)
  next
    case False
    then obtain b where b: "next_batch cfg spent deleted = Some b" by auto
    obtain r w3 where r: "s_delete_oldest p st cutoff b w2 = (r, w3)" by fastforce
    note budget = next_batch_budget [OF b assms(2)]
    have d0: "drains p st cutoff w w2" using same by (simp add: drains_same)
    note del = s_delete_oldest_drains [OF r, unfolded same(1), OF less.prems(2)]
    then have d3: "drains p st cutoff w w3" using d0 drains_trans by blast
    show ?thesis
    proof (cases r)
      case (Inl e)
      then show ?thesis using step c l b r False del d3 less.prems same by auto
    next
      case (Inr n)
      show ?thesis
      proof (cases "n < b")
        case True
        then show ?thesis using step c l b r Inr False del d3 budget same by auto
      next
        case 2: False
        then have rec: "delete_expired cfg p st cutoff spent deadline (deleted + n) w3 = Some ((d, inc, err), w')"
          using step c l b r Inr False by auto
        have "length (lw_logs w3) < length (lw_logs w)" using del Inr 2 budget same by auto
        moreover have "0 < rc_max_rows cfg \<longrightarrow> spent + (deleted + n) \<le> rc_max_rows cfg"
          using del Inr budget by auto
        ultimately have "drains p st cutoff w3 w' \<and> distinct (map lr_id (lw_logs w')) \<and> deleted + n \<le> d
          \<and> int (length (lw_logs w')) = int (length (lw_logs w3)) - (d - (deleted + n))
          \<and> (0 < rc_max_rows cfg \<longrightarrow> spent + d \<le> rc_max_rows cfg)"
          using less.hyps [OF _ rec] del by simp
        then show ?thesis using d3 drains_trans del Inr same by auto
      qed
    qed
  qed
qed

subsection \<open>The repair\<close>

lemma put_stat_ok:
  assumes "distinct (map fst ss)"
  shows "distinct (map fst (put_stat ss d)) \<and> stat_of (put_stat ss d) k = (if k = fst d then snd d else stat_of ss k)"
proof (cases "fst d \<in> fst ` set ss")
  case True
  have "stat_of (update_where (\<lambda>s. fst s = fst d) (\<lambda>(k, _). (k, snd d)) ss) k =
      (if k = fst d \<and> fst d \<in> fst ` set ss then snd d else stat_of ss k)"
    if "distinct (map fst ss)" for ss using that
  proof (induction ss)
    case (Cons s ss)
    have "update_where (\<lambda>s. fst s = fst d) (\<lambda>(k, _). (k, snd d)) ss = ss" if "fst d \<notin> fst ` set ss"
      using that by (intro update_where_id) (auto simp: image_iff)
    then show ?case
      using Cons stat_of_absent [of k ss] stat_of_absent [of "fst d" ss] by (cases "fst d \<in> fst ` set ss"; cases "fst s = fst d"; cases s) simp_all
  qed simp
  then show ?thesis using assms True by (simp only: put_stat_def if_True map_fst_bump simp_thms)
next
  case False
  then show ?thesis using assms stat_of_absent [of "fst d" ss] by (simp add: put_stat_def)
qed

lemma put_stats_ok:
  assumes "distinct (map fst ss)" and "distinct (map fst ds)"
  shows "distinct (map fst (foldl put_stat ss ds)) \<and>
    stat_of (foldl put_stat ss ds) k = (if k \<in> fst ` set ds then stat_of ds k else stat_of ss k)"
  using assms
proof (induction ds arbitrary: ss)
  case (Cons d ds)
  have "stat_of ds (fst d) = 0" using Cons.prems by (intro stat_of_absent) simp
  then show ?case
    using Cons.IH [of "put_stat ss d"] Cons.prems put_stat_ok [of ss d k] put_stat_ok [of ss d "fst d"]
    by (cases "k = fst d"; simp)
qed simp

lemma counted_rows_ok:
  "distinct (map fst (counted_rows rows))" "fst ` set (counted_rows rows) = row_key ` set rows"
  "k \<in> row_key ` set rows \<Longrightarrow> stat_of (counted_rows rows) k = rows_of rows k"
proof -
  show d: "distinct (map fst (counted_rows rows))" by (simp add: counted_rows_def comp_def)
  show "fst ` set (counted_rows rows) = row_key ` set rows" by (auto simp: counted_rows_def image_iff)
  have "stat_of (map (\<lambda>k. (k, f k)) ks) k = f k" if "distinct ks" "k \<in> set ks" for ks and f :: "stats_key \<Rightarrow> int"
    using that by (induction ks) (auto simp: stat_of_absent image_iff simp del: split_paired_All)
  then show "k \<in> row_key ` set rows \<Longrightarrow> stat_of (counted_rows rows) k = rows_of rows k"
    by (simp add: counted_rows_def)
qed

lemma rows_of_filter:
  "rows_of (filter P rows) k = (if \<forall>r \<in> set rows. row_key r = k \<longrightarrow> P r then rows_of rows k else rows_of (filter P rows) k)"
  by (auto simp: rows_of_def intro!: arg_cong [where f = length] filter_cong)

lemma rows_of_none: "(\<And>r. r \<in> set rows \<Longrightarrow> row_key r \<noteq> k) \<Longrightarrow> rows_of rows k = 0"
  by (auto simp: rows_of_def)

lemma rows_of_filter_all: "(\<And>r. r \<in> set rows \<Longrightarrow> row_key r = k \<Longrightarrow> P r) \<Longrightarrow> rows_of (filter P rows) k = rows_of rows k"
  using rows_of_filter [of P rows k] by auto

lemma utc_hour_mono: "t \<le> u \<Longrightarrow> utc_hour t \<le> utc_hour u"
  using zdiv_mono1 [of t u go_hour] by (simp add: utc_hour_def time_truncate_def minus_mod_eq_mult_div)

lemma utc_hour_span: "utc_hour t \<le> u \<and> u < utc_hour t + go_hour \<longleftrightarrow> utc_hour u = utc_hour t"
  using time_truncate_bounds [of go_hour u] time_truncate_eqI [of go_hour t u]
  by (auto simp: utc_hour_def)

lemma s_oldest_done:
  assumes "s_oldest p st w = (Inr oldest, w')"
  shows "lw_logs w' = lw_logs w \<and> lw_stats w' = lw_stats w \<and>
    (case oldest of
       None \<Rightarrow> \<forall>r \<in> set (lw_logs w). \<not> (lr_project r = p \<and> lr_source_type r = st)
     | Some t \<Rightarrow> (\<exists>r \<in> set (lw_logs w). lr_project r = p \<and> lr_source_type r = st \<and> lr_ts r = t) \<and>
         (\<forall>r \<in> set (lw_logs w). lr_project r = p \<and> lr_source_type r = st \<longrightarrow> t \<le> lr_ts r))"
  using assms unfolding s_oldest_def
proof (cases rule: log_call_cases)
  case (Call bs)
  let ?T = "lr_ts ` {r \<in> set (lw_logs w). lr_project r = p \<and> lr_source_type r = st}"
  have "oldest = (if ?T = {} then None else Some (Min ?T))" "w' = w\<lparr> lw_faults := bs \<rparr>"
    using Call by (auto simp: Let_def filter_empty_conv)
  note o = this
  show ?thesis
  proof (cases "?T = {}")
    case False
    then have "Min ?T \<in> ?T" by (intro Min_in) simp_all
    then obtain r where "r \<in> set (lw_logs w)" "lr_project r = p" "lr_source_type r = st" "lr_ts r = Min ?T" by auto
    moreover have "Min ?T \<le> lr_ts r" if "r \<in> set (lw_logs w)" "lr_project r = p" "lr_source_type r = st" for r
      using that by (intro Min_le) auto
    ultimately show ?thesis using o False by auto
  qed (use o in auto)
qed simp

lemma drop_stats_done:
  assumes "s_drop_stats p st h w = (Inr u, w')"
  shows "lw_logs w' = lw_logs w \<and> lw_stats w' = filter (\<lambda>s. \<not> (stats_for p st (fst s) \<and>
       (case h of None \<Rightarrow> True | Some h \<Rightarrow> key_hour (fst s) \<le> h))) (lw_stats w)"
  using assms unfolding s_drop_stats_def by (cases rule: log_call_cases) auto

lemma rebuild_stats_done:
  assumes "s_rebuild_stats p st lo hi w = (Inr u, w')"
  shows "lw_logs w' = lw_logs w \<and> lw_stats w' = foldl put_stat (lw_stats w) (counted_rows
     (filter (\<lambda>r. lr_project r = p \<and> lr_source_type r = st \<and> lo \<le> lr_ts r \<and> lr_ts r < hi) (lw_logs w)))"
  using assms unfolding s_rebuild_stats_def by (cases rule: log_call_cases) (auto simp: Let_def)

lemma call_nothing_done: "log_call (ret_op ()) w = (r, w') \<Longrightarrow> lw_logs w' = lw_logs w \<and> lw_stats w' = lw_stats w"
  by (erule log_call_cases) auto

lemma tx_op_done: "tx_op m w = (Inr x, w') \<Longrightarrow> m w = (Inr x, w')"
  by (auto simp: tx_op_def split: prod.splits sum.splits)

lemma stats_for_key: "stats_for p st (row_key r) \<longleftrightarrow> lr_project r = p \<and> lr_source_type r = st"
  by (simp add: stats_for_def row_key_def)

lemma key_hour_key: "key_hour (row_key r) = utc_hour (lr_ts r)"
  by (simp add: key_hour_def row_key_def)

text \<open>What a finished repair leaves: nothing, or nothing before the oldest row's hour and that hour counted anew.\<close>

lemma repair_tx_done:
  assumes "repair_tx p st oldest w = (Inr u, w')"
  shows "lw_logs w' = lw_logs w \<and> lw_stats w' = (case oldest of
      None \<Rightarrow> filter (\<lambda>s. \<not> stats_for p st (fst s)) (lw_stats w)
    | Some t \<Rightarrow> foldl put_stat (filter (\<lambda>s. \<not> (stats_for p st (fst s) \<and> key_hour (fst s) \<le> utc_hour t)) (lw_stats w))
      (counted_rows (filter (\<lambda>r. stats_for p st (row_key r) \<and> utc_hour (lr_ts r) = utc_hour t) (lw_logs w))))"
proof -
  from assms obtain w2 where b: "log_call (ret_op ()) w = (Inr (), w2)"
    and "tx_op (case oldest of
         None \<Rightarrow> try_op (s_drop_stats p st None) (\<lambda>_. commit)
       | Some t \<Rightarrow> (case boundary_hour t of (start, stop) \<Rightarrow>
           try_op (s_drop_stats p st (Some start)) (\<lambda>_.
           try_op (s_rebuild_stats p st start stop) (\<lambda>_. commit)))) w2 = (Inr u, w')"
    unfolding repair_tx_def by (cases rule: try_op_cases) auto
  note body = tx_op_done [OF this(2)]
  have w2: "lw_logs w2 = lw_logs w" "lw_stats w2 = lw_stats w" using call_nothing_done [OF b] by auto
  show ?thesis
  proof (cases oldest)
    case None
    from body None obtain w3 where d: "s_drop_stats p st None w2 = (Inr (), w3)" and k: "commit w3 = (Inr (), w')"
      by (auto elim!: try_op_cases)
    show ?thesis using None drop_stats_done [OF d] same_but_faults_fields [OF commit_done [OF k]] w2 by simp
  next
    case (Some t)
    from body Some have "try_op (s_drop_stats p st (Some (utc_hour t))) (\<lambda>_.
        try_op (s_rebuild_stats p st (utc_hour t) (utc_hour t + go_hour)) (\<lambda>_. commit)) w2 = (Inr u, w')"
      by (simp add: boundary_hour_def)
    then obtain w3 w4 where d: "s_drop_stats p st (Some (utc_hour t)) w2 = (Inr (), w3)"
      and r: "s_rebuild_stats p st (utc_hour t) (utc_hour t + go_hour) w3 = (Inr (), w4)" and k: "commit w4 = (Inr (), w')"
      by (auto elim!: try_op_cases)
    show ?thesis
      using Some drop_stats_done [OF d] rebuild_stats_done [OF r] same_but_faults_fields [OF commit_done [OF k]] w2
      by (simp add: stats_for_key utc_hour_span conj_assoc)
  qed
qed

subsection \<open>A purge\<close>

lemma drains_nothing:
  assumes "drains p st cutoff w w'" and "length (lw_logs w') = length (lw_logs w)"
  shows "lw_logs w' = lw_logs w"
proof -
  from assms(1) obtain D where D: "lw_logs w' = filter (\<lambda>r. r \<notin> D) (lw_logs w)" by (auto simp: drains_def)
  have "r \<notin> D" if "r \<in> set (lw_logs w)" for r
    using length_filter_less [of r "lw_logs w" "\<lambda>r. r \<notin> D"] that assms(2) D by auto
  then show ?thesis using D by (simp add: filter_id_conv)
qed

text \<open>The repair touches the rollup alone.\<close>

definition at_rest :: "log_world \<Rightarrow> log_world \<Rightarrow> bool" where
  "at_rest v w \<longleftrightarrow> lw_logs w = lw_logs v \<and> lw_now w = lw_now v \<and> lw_ticks w = lw_ticks v"

lemma keeps_rest_call:
  assumes "\<And>w. at_rest v w \<Longrightarrow> at_rest v (snd (f w))"
  shows "keeps (at_rest v) (log_call f)"
  using assms by (intro keepsI) (auto simp: log_call_def at_rest_def split: list.split)

lemma keeps_rest_tx: "keeps (at_rest v) m \<Longrightarrow> keeps (at_rest v) (tx_op m)"
proof (rule keepsI)
  fix w assume m: "keeps (at_rest v) m" "at_rest v w"
  obtain r w' where "m w = (r, w')" by fastforce
  moreover from this keepsD [OF m] have "at_rest v w'" by simp
  moreover have "at_rest v (w\<lparr> lw_faults := bs \<rparr>)" for bs using m(2) by (simp add: at_rest_def)
  ultimately show "at_rest v (snd (tx_op m w))" by (cases r) (simp_all add: tx_op_def)
qed

lemma keeps_rest_repair: "keeps (at_rest v) (repair_rollup p st)"
proof -
  have "keeps (at_rest v) (s_oldest p st)" "keeps (at_rest v) (log_call (ret_op ()))" "keeps (at_rest v) commit"
    "keeps (at_rest v) (s_drop_stats p st h)" "keeps (at_rest v) (s_rebuild_stats p st lo hi)" for h lo hi
    unfolding s_oldest_def s_drop_stats_def s_rebuild_stats_def commit_def
    by (intro keeps_rest_call; simp add: at_rest_def Let_def)+
  note statement = this
  have "keeps (at_rest v) (case oldest of
       None \<Rightarrow> try_op (s_drop_stats p st None) (\<lambda>_. commit)
     | Some t \<Rightarrow> (case boundary_hour t of (start, stop) \<Rightarrow>
         try_op (s_drop_stats p st (Some start)) (\<lambda>_. try_op (s_rebuild_stats p st start stop) (\<lambda>_. commit))))" for oldest
    by (cases oldest) (simp_all add: boundary_hour_def keeps_try statement)
  then show ?thesis
    unfolding repair_rollup_def repair_tx_def by (intro keeps_try keeps_rest_tx statement)
qed

lemma repair_rest: "repair_rollup p st w = (r, w') \<Longrightarrow> lw_logs w' = lw_logs w \<and> later w w' \<and> lw_now w' = lw_now w"
  using keepsD [OF keeps_rest_repair [of w p st], of w] by (simp add: at_rest_def later_def forward_def)

text \<open>A purge that reports no error: what it removed, and how much it was.\<close>

lemma purge_done:
  assumes "purge cfg p st days spent deadline w = Some ((n, inc, err), w')" and "0 < rc_batch cfg"
    and "distinct (map lr_id (lw_logs w))" and "0 < rc_max_rows cfg \<longrightarrow> spent \<le> rc_max_rows cfg"
  obtains now w1 where "drains p st (cutoff_of now days) w w1" and "lw_logs w' = lw_logs w1"
    and "later w w'" and "forward w \<longrightarrow> lw_now w \<le> now \<and> now \<le> lw_now w'"
    and "0 \<le> n" and "int (length (lw_logs w')) = int (length (lw_logs w)) - n"
    and "0 < rc_max_rows cfg \<longrightarrow> spent + n \<le> rc_max_rows cfg" and "distinct (map lr_id (lw_logs w'))"
proof -
  obtain now w0 where c: "read_clock w = (now, w0)" by fastforce
  note c0 = read_clock_later [OF c]
  obtain d i er w1 where del: "delete_expired cfg p st (cutoff_of now days) spent deadline 0 w0 = Some ((d, i, er), w1)"
    and rest: "(if d \<le> 0 then Some ((d, i, er), w1)
      else (case repair_rollup p st w1 of
        (Inl e, w3) \<Rightarrow> Some ((d, i, if er = None then Some e else er), w3)
      | (Inr _, w3) \<Rightarrow> Some ((d, i, er), w3))) = Some ((n, inc, err), w')"
    using assms(1) c by (auto simp: purge_def split: option.splits prod.splits)
  have dw: "drains p st (cutoff_of now days) w0 w1 \<and> distinct (map lr_id (lw_logs w1)) \<and> 0 \<le> d
    \<and> int (length (lw_logs w1)) = int (length (lw_logs w0)) - (d - 0)
    \<and> (0 < rc_max_rows cfg \<longrightarrow> spent + d \<le> rc_max_rows cfg)"
    using delete_expired_drains [OF del assms(2)] assms(3,4) c0 by simp
  have d0: "drains p st (cutoff_of now days) w w1"
    using dw c0 drains_same [of w0 w p st "cutoff_of now days"] drains_trans by blast
  have l1: "later w0 w1" using dw by (simp add: drains_def)
  show thesis
  proof (cases "d \<le> 0")
    case True
    then have "w' = w1" "n = d" using rest by auto
    moreover have "lw_logs w1 = lw_logs w" using True dw c0 by (intro drains_nothing [OF d0]) auto
    ultimately show thesis using that [of now w1] d0 dw c0 l1 later_trans by (auto simp: later_def)
  next
    case False
    obtain r w3 where r: "repair_rollup p st w1 = (r, w3)" by fastforce
    have "w' = w3" "n = d" using rest False r by (auto split: sum.splits)
    moreover have "lw_logs w3 = lw_logs w1" "later w1 w3" "lw_now w3 = lw_now w1" "distinct (map lr_id (lw_logs w3))"
      using repair_rest [OF r] dw by simp_all
    ultimately show thesis using that [of now w1] d0 dw c0 l1 later_trans by (auto simp: later_def)
  qed
qed

subsection \<open>The passes of a run\<close>

definition aside :: "log_world \<Rightarrow> log_world \<Rightarrow> bool" where
  "aside w w' \<longleftrightarrow> lw_logs w' = lw_logs w \<and> lw_stats w' = lw_stats w \<and> later w w'"

lemma aside_trans: "aside w w1 \<Longrightarrow> aside w1 w2 \<Longrightarrow> aside w w2"
  using later_trans by (auto simp: aside_def)

lemma aside_refl [simp]: "aside w w"
  by (simp add: aside_def)

definition expired_in :: "(uuid \<times> string \<times> int) list \<Rightarrow> log_world \<Rightarrow> log_world \<Rightarrow> log_row \<Rightarrow> bool" where
  "expired_in passes w w' r \<longleftrightarrow> (\<exists>days now. (lr_project r, lr_source_type r, days) \<in> set passes \<and> expires days
     \<and> lr_ts r < cutoff_of now days \<and> (forward w \<longrightarrow> lw_now w \<le> now \<and> now \<le> lw_now w'))"

lemma pg_time_le: "pg_time t \<le> t"
  using time_truncate_bounds [of 1000 t] by (simp add: pg_time_def)

lemma drains_expired:
  assumes "drains p st (cutoff_of now days) w w1" and "expires days" and "(p, st, days) \<in> set passes"
    and "forward w \<longrightarrow> lw_now w \<le> now \<and> now \<le> lw_now w'"
  shows "removes (expired_in passes w w') w w1"
proof -
  from assms(1) obtain D where D: "D \<subseteq> set (expired_rows p st (cutoff_of now days) (lw_logs w))"
    "lw_logs w1 = filter (\<lambda>r. r \<notin> D) (lw_logs w)" by (auto simp: drains_def)
  have "r \<in> set (lw_logs w) \<and> expired_in passes w w' r" if "r \<in> D" for r
  proof -
    have r: "r \<in> set (lw_logs w)" "lr_project r = p" "lr_source_type r = st" "lr_ts r < pg_time (cutoff_of now days)"
      using that D(1) by (auto simp: expired_rows_def)
    then have "lr_ts r < cutoff_of now days" using pg_time_le [of "cutoff_of now days"] by linarith
    then show ?thesis using r assms(2-4) unfolding expired_in_def by blast
  qed
  then have "D \<subseteq> {r \<in> set (lw_logs w). expired_in passes w w' r}" by blast
  with D(2) show ?thesis by (auto simp: removes_def)
qed

lemma removes_trans:
  assumes "removes P w w1" and "removes Q w1 w2" and "\<And>r. P r \<Longrightarrow> R r" and "\<And>r. Q r \<Longrightarrow> R r"
  shows "removes R w w2"
proof -
  from assms(1) obtain D where D: "D \<subseteq> {r \<in> set (lw_logs w). P r}" "lw_logs w1 = filter (\<lambda>r. r \<notin> D) (lw_logs w)"
    by (auto simp: removes_def)
  from assms(2) obtain E where E: "E \<subseteq> {r \<in> set (lw_logs w1). Q r}" "lw_logs w2 = filter (\<lambda>r. r \<notin> E) (lw_logs w1)"
    by (auto simp: removes_def)
  have "D \<union> E \<subseteq> {r \<in> set (lw_logs w). R r}" using D E assms(3,4) by auto
  moreover have "lw_logs w2 = filter (\<lambda>r. r \<notin> D \<union> E) (lw_logs w)" using D(2) E(2) by (auto intro: filter_cong)
  ultimately show ?thesis unfolding removes_def by blast
qed

lemma removes_none: "lw_logs w' = lw_logs w \<Longrightarrow> removes P w w'"
  unfolding removes_def by (intro exI [of _ "{}"]) simp

lemma removes_same: "removes P w w1 \<Longrightarrow> lw_logs w' = lw_logs w1 \<Longrightarrow> removes P w w'"
  by (simp add: removes_def)

lemma total_add_deleted [simp]:
  "total_deleted (add_deleted st n res) = total_deleted res + n" "rr_audit (add_deleted st n res) = rr_audit res"
  by (simp_all add: total_deleted_def add_deleted_def)

lemma total_incomplete [simp]: "total_deleted (res\<lparr> rr_incomplete := b \<rparr>) = total_deleted res"
  by (simp add: total_deleted_def)

lemma run_passes_done:
  assumes "run_passes cfg deadline passes res w = Some ((res', stop), w')" and "0 < rc_batch cfg"
    and "distinct (map lr_id (lw_logs w))" and "0 < rc_max_rows cfg \<longrightarrow> total_deleted res \<le> rc_max_rows cfg"
  shows "removes (expired_in passes w w') w w' \<and> later w w'
    \<and> int (length (lw_logs w')) = int (length (lw_logs w)) - (total_deleted res' - total_deleted res)
    \<and> (0 < rc_max_rows cfg \<longrightarrow> total_deleted res' \<le> rc_max_rows cfg) \<and> rr_audit res' = rr_audit res"
  using assms(1,3,4)
proof (induction passes arbitrary: res w)
  case Nil
  then show ?case by (simp add: removes_none)
next
  case (Cons pass passes)
  obtain p st days where pass: "pass = (p, st, days)" by (cases pass) auto
  have weaken: "expired_in passes v w' r \<Longrightarrow> later w v \<Longrightarrow> expired_in (pass # passes) w w' r" for v r
    by (fastforce simp: expired_in_def later_def)
  show ?case
  proof (cases "expires days")
    case False
    then have "run_passes cfg deadline passes res w = Some ((res', stop), w')" using Cons.prems(1) pass by simp
    from Cons.IH [OF this Cons.prems(2,3)] show ?thesis
      using removes_trans [OF _ removes_none, of _ w w' w'] weaken [of w] by (auto intro: removes_trans)
  next
    case True
    then obtain n inc err w1 where pu: "purge cfg p st days (total_deleted res) deadline w = Some ((n, inc, err), w1)"
      and rest: "(let res = add_deleted st n res in
          if err \<noteq> None then Some ((res, Some err), w1)
          else if inc then Some ((res\<lparr> rr_incomplete := True \<rparr>, Some None), w1)
          else run_passes cfg deadline passes res w1) = Some ((res', stop), w')"
      using Cons.prems(1) pass by (auto split: option.splits)
    from pu assms(2) Cons.prems(2,3) show ?thesis
    proof (cases rule: purge_done)
      case (1 now v)
      show ?thesis
      proof (cases "err \<noteq> None \<or> inc")
        case True
        then have w': "w' = w1" "total_deleted res' = total_deleted res + n" "rr_audit res' = rr_audit res"
          "err \<noteq> None \<longrightarrow> stop = Some err"
          using rest by (auto simp: Let_def total_deleted_def add_deleted_def split: if_splits)
        have "removes (expired_in (pass # passes) w w') w w1"
          using drains_expired [OF 1(1) \<open>expires days\<close>, of "pass # passes" w'] 1(2,4) pass w' removes_same by simp
        then show ?thesis using 1 w' by auto
      next
        case False
        then have rec: "run_passes cfg deadline passes (add_deleted st n res) w1 = Some ((res', stop), w')"
          using rest by (simp add: Let_def)
        from Cons.IH [OF rec 1(8)] 1(7) have ih: "removes (expired_in passes w1 w') w1 w' \<and> later w1 w'
          \<and> int (length (lw_logs w')) = int (length (lw_logs w1)) - (total_deleted res' - (total_deleted res + n))
          \<and> (0 < rc_max_rows cfg \<longrightarrow> total_deleted res' \<le> rc_max_rows cfg) \<and> rr_audit res' = rr_audit res" by simp
        have "forward w \<longrightarrow> lw_now w \<le> now \<and> now \<le> lw_now w'"
          using 1(3,4) ih by (auto simp: later_def)
        then have "removes (expired_in (pass # passes) w w') w w1"
          using drains_expired [OF 1(1) \<open>expires days\<close>, of "pass # passes" w'] 1(2) pass removes_same by simp
        moreover have "removes (expired_in passes w1 w') w1 w'" using ih by blast
        ultimately have "removes (expired_in (pass # passes) w w') w w'"
        proof (rule removes_trans)
          show "expired_in (pass # passes) w w' r" if "expired_in passes w1 w' r" for r
            using weaken [OF that 1(3)] .
        qed
        then show ?thesis using ih 1 False later_trans [OF 1(3)] by auto
      qed
    qed
  qed
qed

subsection \<open>The rest of a run leaves the logs alone\<close>

lemma log_call_aside:
  assumes "log_call f w = (r, w')" and "\<And>bs r w'. f (w\<lparr> lw_faults := bs \<rparr>) = (r, w') \<Longrightarrow> aside w w'"
  shows "aside w w'"
  using assms(1)
proof (cases rule: log_call_cases)
  case (Fault bs)
  then show ?thesis by (simp add: aside_def later_def forward_def)
next
  case (Call bs)
  then show ?thesis using assms(2) by blast
qed

lemma read_clock_aside: "read_clock w = (t, w') \<Longrightarrow> aside w w'"
  using read_clock_later by (auto simp: aside_def)

lemma clock_cutoff_aside: "clock_cutoff days w = (t, w') \<Longrightarrow> aside w w'"
  by (auto simp: clock_cutoff_def split: prod.splits dest: read_clock_aside)

lemma s_delete_audit_aside: "s_delete_audit cutoff batch w = (r, w') \<Longrightarrow> aside w w'"
  unfolding s_delete_audit_def by (erule log_call_aside) (auto simp: Let_def aside_def later_def forward_def)

lemma audit_batches_aside:
  assumes "audit_batches cfg cutoff deadline deleted w = Some ((d, err), w')" and "0 < rc_batch cfg"
  shows "aside w w'"
  using assms(1)
proof (induction "length (lw_audit w)" arbitrary: w deleted rule: less_induct)
  case less
  obtain c w1 where c: "context_done w = (c, w1)" by fastforce
  obtain l w2 where l: "past_deadline deadline w1 = (l, w2)" by fastforce
  have a: "aside w w1" "aside w w2" "length (lw_audit w2) = length (lw_audit w)"
    using context_done_logs [OF c] past_deadline_logs [OF l] context_done_later [OF c] past_deadline_later [OF l]
      later_trans by (auto simp: aside_def)
  note step = less.prems [unfolded audit_batches.simps [of cfg cutoff deadline deleted w]]
  show ?case
  proof (cases "c \<or> l")
    case True
    then show ?thesis using step c l a by (auto split: if_splits)
  next
    case False
    obtain r w3 where r: "s_delete_audit cutoff (rc_batch cfg) w2 = (r, w3)" by fastforce
    have w3: "aside w w3" using aside_trans [OF a(2) s_delete_audit_aside [OF r]] .
    show ?thesis
    proof (cases "\<exists>n. r = Inr n \<and> \<not> n < rc_batch cfg")
      case True
      then obtain n where n: "r = Inr n" "\<not> n < rc_batch cfg" by auto
      then have "audit_batches cfg cutoff deadline (deleted + n) w3 = Some ((d, err), w')"
        using step c l r False by auto
      moreover have "length (lw_audit w3) < length (lw_audit w)"
        using s_delete_audit_shorter [of cutoff "rc_batch cfg" w2 n w3] r n a(3) assms(2) by auto
      ultimately show ?thesis using less.hyps aside_trans [OF w3] by blast
    next
      case 2: False
      then show ?thesis using step c l r False w3 by (cases r) auto
    qed
  qed
qed

lemma purge_audit_aside:
  "purge_audit cfg deadline w = Some ((d, err), w') \<Longrightarrow> 0 < rc_batch cfg \<Longrightarrow> aside w w'"
  using read_clock_aside audit_batches_aside aside_trans
  by (auto simp: purge_audit_def split: if_splits prod.splits) blast

lemma prune_source_stats_aside: "prune_source_stats cfg w = (r, w') \<Longrightarrow> aside w w'"
proof -
  assume a: "prune_source_stats cfg w = (r, w')"
  obtain t w1 where c: "clock_cutoff (rc_source_days cfg) w = (t, w1)" by fastforce
  have "aside w1 w'" if "expires (rc_source_days cfg)"
    by (rule log_call_aside) (use a c that in \<open>auto simp: prune_source_stats_def Let_def aside_def later_def forward_def\<close>)
  then show ?thesis
    using a aside_trans [OF clock_cutoff_aside [OF c]] by (auto simp: prune_source_stats_def split: if_splits)
qed

lemma prune_rejects_aside: "prune_rejects cfg w = (r, w') \<Longrightarrow> aside w w'"
proof -
  assume a: "prune_rejects cfg w = (r, w')"
  obtain t w1 where c: "clock_cutoff (rc_reject_days cfg) w = (t, w1)" by fastforce
  have "aside w1 w'" if "expires (rc_reject_days cfg)"
    by (rule log_call_aside) (use a c that in \<open>auto simp: prune_rejects_def Let_def aside_def later_def forward_def\<close>)
  then show ?thesis
    using a aside_trans [OF clock_cutoff_aside [OF c]] by (auto simp: prune_rejects_def split: if_splits)
qed

lemma prune_statements_aside:
  "s_drop_events t w = (r, w') \<Longrightarrow> aside w w'" "s_drop_old_issues t w = (r, w') \<Longrightarrow> aside w w'"
  "s_drop_maps t w = (q, w') \<Longrightarrow> aside w w'"
  unfolding s_drop_events_def s_drop_old_issues_def s_drop_maps_def
  by (erule log_call_aside; auto simp: Let_def aside_def later_def forward_def)+

lemma prune_pass_aside:
  assumes "prune_pass days f w = (r, w')" and "\<And>t w r w'. f t w = (r, w') \<Longrightarrow> aside w w'"
  shows "aside w w'"
  using assms clock_cutoff_aside aside_trans unfolding prune_pass_def
  by (auto split: if_splits prod.splits) blast

lemma prune_client_errors_aside: "prune_client_errors cfg w = (r, w') \<Longrightarrow> aside w w'"
proof -
  assume a: "prune_client_errors cfg w = (r, w')"
  obtain q1 w1 where e: "prune_pass (rc_event_days cfg) s_drop_events w = (q1, w1)" by fastforce
  obtain q2 w2 where i: "prune_pass (rc_issue_days cfg) s_drop_old_issues w1 = (q2, w2)" by fastforce
  obtain t w3 where c: "read_clock w2 = (t, w3)" by fastforce
  obtain q4 w4 where m: "s_drop_maps (pg_time (t - map_grace_period)) w3 = (q4, w4)" by fastforce
  have s1: "aside w w1" using prune_pass_aside [OF e] prune_statements_aside(1) by blast
  have s2: "aside w w2" using aside_trans [OF s1 prune_pass_aside [OF i]] prune_statements_aside(2) by blast
  have s4: "aside w w4"
    using aside_trans [OF aside_trans [OF s2 read_clock_aside [OF c]] prune_statements_aside(3) [OF m]] .
  show ?thesis using a e i c m s1 s2 s4 by (auto simp: prune_client_errors_def split: sum.splits)
qed

lemma prune_tables_done:
  assumes "prune_tables cfg res w = ((res', err), w')"
  shows "aside w w' \<and> rr_app res' = rr_app res \<and> rr_infra res' = rr_infra res"
proof -
  obtain q1 w1 where s: "prune_source_stats cfg w = (q1, w1)" by fastforce
  obtain q2 w2 where c: "prune_client_errors cfg w1 = (q2, w2)" by fastforce
  obtain q3 w3 where r: "prune_rejects cfg w2 = (q3, w3)" by fastforce
  have s1: "aside w w1" by (rule prune_source_stats_aside [OF s])
  have s2: "aside w w2" using aside_trans [OF s1 prune_client_errors_aside [OF c]] .
  have s3: "aside w w3" using aside_trans [OF s2 prune_rejects_aside [OF r]] .
  show ?thesis
    using assms s c r s1 s2 s3 by (auto simp: prune_tables_def Let_def split: sum.splits prod.splits if_splits)
qed

subsection \<open>A whole run\<close>

lemma targets_faults [simp]: "targets_of (w\<lparr> lw_faults := bs \<rparr>) = targets_of w"
proof -
  have "joined_plans (w\<lparr> lw_faults := bs \<rparr>) org = joined_plans w org" for org
    by (cases "filter (\<lambda>s. fst s = org) (lw_subscriptions w) = []") (simp_all add: joined_plans_def)
  then show ?thesis by (simp add: targets_of_def)
qed

lemma targets_call:
  assumes "try_op (log_call (ret_op ())) (\<lambda>_. s_query_targets) w = (r, w')"
  shows "aside w w' \<and> (\<forall>ts. r = Inr ts \<longrightarrow> ts = targets_of w)"
  using assms
proof (cases rule: try_op_cases)
  case (Failed e)
  from Failed(1) have "aside w w'" by (rule log_call_aside) (auto simp: aside_def later_def forward_def)
  then show ?thesis using Failed(2) by simp
next
  case (Done x w1)
  from Done(1) obtain bs where w1: "w1 = w\<lparr> lw_faults := bs \<rparr>" by (cases rule: log_call_cases) auto
  from Done(2) show ?thesis
    unfolding s_query_targets_def
    by (cases rule: log_call_cases) (auto simp: w1 aside_def later_def forward_def)
qed

lemma retention_run_cases:
  assumes "retention_run cfg w = Some ((res, err), w')"
  obtains "aside w w'" and "res = no_deletions" and "err \<noteq> None"
  | deadline w2 r stop w3 where "aside w w2"
    and "run_passes (with_retention_defaults cfg) deadline (passes_of (targets_of w)) no_deletions w2 = Some ((r, stop), w3)"
    and "aside w3 w'" and "rr_app res = rr_app r" and "rr_infra res = rr_infra r"
    and "err = None \<longrightarrow> stop = None \<or> stop = Some None"
proof -
  let ?c = "with_retention_defaults cfg"
  obtain q w1 where t: "try_op (log_call (ret_op ())) (\<lambda>_. s_query_targets) w = (q, w1)" by fastforce
  obtain start w2 where c: "read_clock w1 = (start, w2)" by fastforce
  have w2: "aside w w2" using aside_trans [OF conjunct1 [OF targets_call [OF t]] read_clock_aside [OF c]] .
  show thesis
  proof (cases q)
    case (Inl e)
    then show thesis using that(1) assms t targets_call [OF t] by (auto simp: retention_run_def Let_def)
  next
    case (Inr ts)
    let ?d = "if 0 < rc_max_runtime ?c then Some (start + rc_max_runtime ?c) else None"
    have ts: "ts = targets_of w" using targets_call [OF t] Inr by simp
    obtain r stop w3 where p: "run_passes ?c ?d (passes_of ts) no_deletions w2 = Some ((r, stop), w3)"
      using run_passes_returns [OF batch_pos] by (metis not_None_eq surj_pair)
    show thesis
    proof (cases stop)
      case (Some e)
      then have "res = r" "err = e" "w' = w3" using assms t Inr c p by (auto simp: retention_run_def Let_def)
      then show thesis using that(2) [OF w2 p [unfolded ts]] Some by simp
    next
      case None
      obtain n e w4 where a: "purge_audit ?c ?d w3 = Some ((n, e), w4)"
        using purge_audit_returns [OF batch_pos] by (metis not_None_eq surj_pair)
      note w4 = purge_audit_aside [OF a batch_pos]
      have f: "(if e \<noteq> None then ((r\<lparr> rr_audit := n \<rparr>, e), w4) else prune_tables ?c (r\<lparr> rr_audit := n \<rparr>) w4) = ((res, err), w')"
        using assms t Inr c p a None by (auto simp: retention_run_def Let_def)
      show thesis
      proof (cases "e = None")
        case True
        then have "prune_tables ?c (r\<lparr> rr_audit := n \<rparr>) w4 = ((res, err), w')" using f by simp
        from prune_tables_done [OF this] show thesis
          using that(2) [OF w2 p [unfolded ts]] None aside_trans [OF w4] by simp
      next
        case False
        then show thesis using f that(2) [OF w2 p [unfolded ts]] None w4 by auto
      qed
    qed
  qed
qed

definition retention_days :: "retention_target \<Rightarrow> string \<Rightarrow> int" where
  "retention_days t st = (if st = source_type_app then tg_app t else tg_infra t)"

lemma in_passes_of:
  "(p, st, days) \<in> set (passes_of ts) \<Longrightarrow> \<exists>t \<in> set ts. tg_project t = p \<and> retention_days t st = days"
  by (auto simp: passes_of_def retention_days_def)

lemma cutoff_of_exact: "0 \<le> days \<Longrightarrow> days \<le> 106751 \<Longrightarrow> cutoff_of now days = now - days * (24 * go_hour)"
  by (simp add: cutoff_of_def wrap64_id)

text \<open>
  C22: a run deletes only what has outlived its retention, and no more than it may. If the clock does
  not run backwards and no target keeps its logs longer than the 106751 days that 64 bits of
  nanoseconds hold, every log row a run has removed belongs to a project whose retention for that kind
  of source is a number of days, not the mark for ever, and is older than these; the rows left are as
  they were; as many rows are gone as the result reports; and a budget of rows is kept by the log rows,
  the audit records not counted. This holds of a run that fails, is cancelled or runs out of time as
  well.
\<close>

theorem retention_deletes_expired:
  assumes "retention_run cfg w = Some ((res, err), w')" and "distinct (map lr_id (lw_logs w))" and "forward w"
    and "\<forall>t \<in> set (targets_of w). tg_app t \<le> 106751 \<and> tg_infra t \<le> 106751"
  shows "(\<exists>D. lw_logs w' = filter (\<lambda>r. r \<notin> D) (lw_logs w) \<and>
      (\<forall>r \<in> D. \<exists>t \<in> set (targets_of w). tg_project t = lr_project r \<and> 0 \<le> retention_days t (lr_source_type r)
        \<and> lr_ts r < lw_now w' - retention_days t (lr_source_type r) * (24 * go_hour)))
    \<and> int (length (lw_logs w)) - int (length (lw_logs w')) = rr_app res + rr_infra res
    \<and> (0 < rc_max_rows cfg \<longrightarrow> rr_app res + rr_infra res \<le> rc_max_rows cfg)"
  using assms(1)
proof (cases rule: retention_run_cases)
  case 1
  then show ?thesis by (intro conjI exI [of _ "{}"]) (auto simp: aside_def no_deletions_def)
next
  case (2 deadline w2 r stop w3)
  have w2: "lw_logs w2 = lw_logs w" "later w w2" using 2(1) by (auto simp: aside_def)
  have m: "rc_max_rows (with_retention_defaults cfg) = rc_max_rows cfg" by (simp add: with_retention_defaults_def)
  have "total_deleted no_deletions = 0" "rr_audit no_deletions = 0" by (simp_all add: total_deleted_def no_deletions_def)
  then have p: "removes (expired_in (passes_of (targets_of w)) w2 w3) w2 w3" "later w2 w3"
    "int (length (lw_logs w3)) = int (length (lw_logs w2)) - total_deleted r"
    "0 < rc_max_rows cfg \<longrightarrow> total_deleted r \<le> rc_max_rows cfg" "rr_audit r = 0"
    using run_passes_done [OF 2(2) batch_pos] w2 assms(2) m by auto
  have w3: "lw_logs w' = lw_logs w3" "later w3 w'" using 2(3) by (auto simp: aside_def)
  have total: "total_deleted r = rr_app res + rr_infra res" using 2(4,5) p(5) by (simp add: total_deleted_def)
  from p(1) w2(1) obtain D where D: "D \<subseteq> {r \<in> set (lw_logs w). expired_in (passes_of (targets_of w)) w2 w3 r}"
    "lw_logs w3 = filter (\<lambda>r. r \<notin> D) (lw_logs w)" by (auto simp: removes_def)
  have "\<exists>t \<in> set (targets_of w). tg_project t = lr_project r \<and> 0 \<le> retention_days t (lr_source_type r)
      \<and> lr_ts r < lw_now w' - retention_days t (lr_source_type r) * (24 * go_hour)" if "r \<in> D" for r
  proof -
    from that D(1) obtain days now where d: "(lr_project r, lr_source_type r, days) \<in> set (passes_of (targets_of w))"
      "expires days" "lr_ts r < cutoff_of now days" "forward w2 \<longrightarrow> now \<le> lw_now w3"
      by (auto simp: expired_in_def)
    from in_passes_of [OF d(1)] obtain t where t: "t \<in> set (targets_of w)" "tg_project t = lr_project r"
      "retention_days t (lr_source_type r) = days" by auto
    have "0 \<le> days" "days \<le> 106751" using d(2) t assms(4) by (auto simp: expires_def retention_days_def)
    moreover have "now \<le> lw_now w'" using d(4) w2(2) p(2) w3(2) assms(3) by (auto simp: later_def)
    ultimately show ?thesis using t d(3) by (intro bexI [OF _ t(1)]) (simp add: cutoff_of_exact)
  qed
  then show ?thesis using D(2) w3(1) p(3,4) w2(1) total by (intro conjI exI [of _ D]) auto
qed

text \<open>A world with one project, a week of retention and one entry of the first second.\<close>

definition sample_row :: log_row where
  "sample_row = \<lparr> lr_id = 7, lr_project = 1, lr_level = log_info, lr_message = ''m'', lr_source = ''s'', lr_ts = 0,
     lr_tags = [], lr_meta = [], lr_source_type = source_type_app, lr_source_id = None, lr_host = None,
     lr_container = None, lr_pod = None, lr_namespace = None, lr_cluster = None, lr_unit = None,
     lr_facility = None, lr_region = None, lr_cloud_resource = None, lr_attributes = [] \<rparr>"

definition retained_world :: "int option \<Rightarrow> log_world" where
  "retained_world days = \<lparr> lw_logs = [sample_row], lw_stats = [(row_key sample_row, 1)],
     lw_projects = [\<lparr> pr_id = 1, pr_org = 2, pr_retention = days \<rparr>], lw_plans = [], lw_subscriptions = [],
     lw_orgs = [(2, True)], lw_sources = [], lw_usage = [], lw_app_usage = [], lw_source_hours = [], lw_rejects = [], lw_audit = [],
     lw_client = empty_client_world [] 0, lw_fresh = 100, lw_faults = [], lw_now = 10 * 24 * go_hour,
     lw_ticks = [], lw_cancel = None \<rparr>"

lemma sample_targets: "targets_of (retained_world days) = [\<lparr> tg_project = 1, tg_app = coalesce [days, None], tg_infra = keep_forever \<rparr>]"
  by (simp add: targets_of_def joined_plans_def retained_world_def target_of_def coalesce_def)

theorem retention_deletes_expired_witness:
  "\<exists>res err w'. retention_run default_retention (retained_world (Some 7)) = Some ((res, err), w')
     \<and> 1 - int (length (lw_logs w')) = rr_app res + rr_infra res"
proof -
  obtain res err w' where r: "retention_run default_retention (retained_world (Some 7)) = Some ((res, err), w')"
    using retention_returns by (metis not_None_eq surj_pair)
  have "int (length (lw_logs (retained_world (Some 7)))) - int (length (lw_logs w')) = rr_app res + rr_infra res"
    using retention_deletes_expired [OF r] by (simp add: sample_targets coalesce_def) (simp add: retained_world_def forward_def)
  then show ?thesis using r by (auto simp: retained_world_def)
qed

text \<open>
  Beyond 64 bits the cutoff wraps into the future: a project that wants its logs kept for 200000 days
  loses all of them at the next run.
\<close>

lemma long_retention_wraps: "expires 200000 \<and> now < cutoff_of now 200000"
  by (simp add: cutoff_of_def wrap64_eq expires_def)

end
