(* ===== verification/RollupHistory.thy ===== *)
theory RollupHistory
  imports RetentionRun
begin

text \<open>
  The hourly rollup against the logs, with bulk inserts between the statements of a retention run:
  the deletions, the read of the oldest surviving row and the repair are steps of their own.
\<close>

subsection \<open>The steps\<close>

text \<open>
  Where the one retention run that is under way stands: between purges; deleting the rows of a project and
  kind of source before a cutoff, with how many are gone; about to repair, with the oldest row it read.
\<close>

datatype purge_phase = Idle | Draining uuid string instant int | Repairing uuid string "instant option"

text \<open>
  What may be inserted: between purges anything; while rows before a cutoff are deleted, nothing of that
  project and kind before the cutoff; while the repair waits, nothing of them before the hour that was read,
  and nothing at all when no row was left. All other projects and kinds are free.
\<close>

fun admits :: "purge_phase \<Rightarrow> log_row \<Rightarrow> bool" where
  "admits Idle r = True"
| "admits (Draining p st cutoff d) r = (stats_for p st (row_key r) \<longrightarrow> pg_time cutoff \<le> lr_ts r)"
| "admits (Repairing p st oldest) r =
     (stats_for p st (row_key r) \<longrightarrow> (case oldest of None \<Rightarrow> False | Some t \<Rightarrow> utc_hour t \<le> utc_hour (lr_ts r)))"

inductive log_history :: "log_world \<Rightarrow> purge_phase \<Rightarrow> bool" where
  Start: "lw_logs w = [] \<Longrightarrow> lw_stats w = [] \<Longrightarrow> log_history w Idle"
| Create: "log_history w ph \<Longrightarrow> bulk_create nls w = (r, w') \<Longrightarrow>
    list_all (admits ph) (drop (length (lw_logs w)) (lw_logs w')) \<Longrightarrow> log_history w' ph"
| Purge: "log_history w Idle \<Longrightarrow> log_history w (Draining p st cutoff 0)"
| Delete: "log_history w (Draining p st cutoff d) \<Longrightarrow> s_delete_oldest p st cutoff batch w = (Inr n, w') \<Longrightarrow>
    log_history w' (Draining p st cutoff (d + n))"
| Nothing: "log_history w (Draining p st cutoff d) \<Longrightarrow> d \<le> 0 \<Longrightarrow> log_history w Idle"
| Oldest: "log_history w (Draining p st cutoff d) \<Longrightarrow> s_oldest p st w = (Inr oldest, w') \<Longrightarrow>
    log_history w' (Repairing p st oldest)"
| Repair: "log_history w (Repairing p st oldest) \<Longrightarrow> repair_tx p st oldest w = (Inr (), w') \<Longrightarrow> log_history w' Idle"
| Elsewhere: "log_history w ph \<Longrightarrow> lw_logs w' = lw_logs w \<Longrightarrow> lw_stats w' = lw_stats w \<Longrightarrow> log_history w' ph"

subsection \<open>What holds in each phase\<close>

declare split_paired_All [simp del]

definition keys_ok :: "log_world \<Rightarrow> bool" where
  "keys_ok w \<longleftrightarrow> distinct (map fst (lw_stats w)) \<and> distinct (map lr_id (lw_logs w))"

definition exact_at :: "log_world \<Rightarrow> stats_key \<Rightarrow> bool" where
  "exact_at w k \<longleftrightarrow> stat_of (lw_stats w) k = rows_of (lw_logs w) k"

text \<open>Off by what was deleted up to \<open>m\<close>, the time of the last row to go.\<close>

definition drained_to :: "uuid \<Rightarrow> string \<Rightarrow> instant \<Rightarrow> log_world \<Rightarrow> bool" where
  "drained_to p st m w \<longleftrightarrow>
     (\<forall>k. \<not> (stats_for p st k \<and> key_hour k \<le> utc_hour m) \<longrightarrow> exact_at w k)
     \<and> (\<forall>r \<in> set (lw_logs w). stats_for p st (row_key r) \<longrightarrow> m \<le> lr_ts r)"

fun phase_inv :: "purge_phase \<Rightarrow> log_world \<Rightarrow> bool" where
  "phase_inv Idle w = (\<forall>k. exact_at w k)"
| "phase_inv (Draining p st cutoff d) w =
     (0 \<le> d \<and> ((\<forall>k. exact_at w k) \<or> 0 < d \<and> (\<exists>m < pg_time cutoff. drained_to p st m w)))"
| "phase_inv (Repairing p st None) w =
     ((\<forall>k. \<not> stats_for p st k \<longrightarrow> exact_at w k) \<and> (\<forall>r \<in> set (lw_logs w). \<not> stats_for p st (row_key r)))"
| "phase_inv (Repairing p st (Some t)) w =
     ((\<forall>k. \<not> (stats_for p st k \<and> key_hour k \<le> utc_hour t) \<longrightarrow> exact_at w k)
      \<and> (\<forall>r \<in> set (lw_logs w). stats_for p st (row_key r) \<longrightarrow> utc_hour t \<le> utc_hour (lr_ts r)))"

lemma phase_inv_same:
  assumes "lw_logs w' = lw_logs w" and "lw_stats w' = lw_stats w"
  shows "phase_inv ph w' = phase_inv ph w"
proof -
  have "exact_at w' = exact_at w" by (rule ext) (simp add: exact_at_def assms)
  then show ?thesis by (cases "(ph, w)" rule: phase_inv.cases) (simp_all add: drained_to_def assms(1))
qed

lemma phase_inv_insert:
  assumes "lw_logs w' = lw_logs w @ rows" and "\<forall>k. stat_of (lw_stats w') k = stat_of (lw_stats w) k + rows_of rows k"
    and "list_all (admits ph) rows" and "phase_inv ph w"
  shows "phase_inv ph w'"
proof -
  have "rows_of (lw_logs w') k = rows_of (lw_logs w) k + rows_of rows k" for k by (simp add: assms(1) rows_of_def)
  then have e: "exact_at w' = exact_at w" using assms(2) by (intro ext) (simp add: exact_at_def)
  have "drained_to p st m w'" if "drained_to p st m w" "m < pg_time c" "list_all (admits (Draining p st c d)) rows" for p st m c d
    using that by (auto simp: drained_to_def e assms(1) list_all_iff)
  then show ?thesis
    using assms(3,4) by (cases "(ph, w)" rule: phase_inv.cases) (auto simp: e assms(1) list_all_iff)
qed

text \<open>One deletion: the rows that go are the oldest, so the rollup is off up to the hour of the last of them.\<close>

lemma phase_inv_delete:
  assumes "phase_inv (Draining p st cutoff d) w" and "drains p st cutoff w w'"
    and n: "int (length (lw_logs w')) = int (length (lw_logs w)) - n" and "0 \<le> n"
  shows "phase_inv (Draining p st cutoff (d + n)) w'"
proof (cases "n = 0")
  case True
  then have "lw_logs w' = lw_logs w" using drains_nothing [OF assms(2)] n by simp
  moreover have "lw_stats w' = lw_stats w" using assms(2) by (auto simp: drains_def)
  ultimately show ?thesis using assms(1) True phase_inv_same [of w' w] by (simp del: phase_inv.simps)
next
  case False
  from assms(2) obtain D where D: "D \<subseteq> set (expired_rows p st cutoff (lw_logs w))"
    "lw_logs w' = filter (\<lambda>r. r \<notin> D) (lw_logs w)"
    "\<And>d r. d \<in> D \<Longrightarrow> r \<in> set (lw_logs w') \<Longrightarrow> stats_for p st (row_key r) \<Longrightarrow> lr_ts d \<le> lr_ts r"
    and stats: "lw_stats w' = lw_stats w"
    unfolding drains_def by (auto simp: stats_for_key)
  have gone: "stats_for p st (row_key x)" "x \<in> set (lw_logs w)" "lr_ts x < pg_time cutoff" if "x \<in> D" for x
    using that D(1) by (auto simp: expired_rows_def stats_for_key)
  have "D \<noteq> {}" using D(2) False n by auto
  moreover have "finite D" using D(1) finite_subset by blast
  moreover from calculation have "Max (lr_ts ` D) \<in> lr_ts ` D" by (intro Max_in) simp_all
  then obtain x where top: "Max (lr_ts ` D) = lr_ts x" and "x \<in> D" by (rule imageE)
  with \<open>finite D\<close> have x: "x \<in> D" "\<And>y. y \<in> D \<Longrightarrow> lr_ts y \<le> lr_ts x"
    by (simp_all flip: top)
  have kept: "exact_at w' k = exact_at w k" if "\<not> (stats_for p st k \<and> key_hour k \<le> utc_hour (lr_ts x))" for k
  proof -
    have "r \<notin> D" if "row_key r = k" for r
      using \<open>\<not> (stats_for p st k \<and> key_hour k \<le> utc_hour (lr_ts x))\<close> that gone(1) [of r] x(2) [of r] utc_hour_mono key_hour_key [of r] by auto
    then have "rows_of (lw_logs w') k = rows_of (lw_logs w) k" unfolding D(2) by (intro rows_of_filter_all) auto
    then show ?thesis by (simp add: exact_at_def stats)
  qed
  have "exact_at w k" if "\<not> (stats_for p st k \<and> key_hour k \<le> utc_hour (lr_ts x))" for k
    using assms(1)
  proof (auto simp: drained_to_def)
    fix m assume m: "\<forall>k. (stats_for p st k \<longrightarrow> \<not> key_hour k \<le> utc_hour m) \<longrightarrow> exact_at w k"
      "\<forall>r\<in>set (lw_logs w). stats_for p st (row_key r) \<longrightarrow> m \<le> lr_ts r"
    have "m \<le> lr_ts x" using m(2) gone(1,2) [OF x(1)] by blast
    then show "exact_at w k" using m(1) that utc_hour_mono [of m "lr_ts x"] by force
  qed
  then have "drained_to p st (lr_ts x) w'"
    using kept D(3) [OF x(1)] by (auto simp: drained_to_def)
  then show ?thesis using assms(1,4) False gone(3) [OF x(1)] by auto
qed

lemma phase_inv_oldest:
  assumes "phase_inv (Draining p st cutoff d) w" and "s_oldest p st w = (Inr oldest, w')"
  shows "phase_inv (Repairing p st oldest) w'"
proof -
  note o = s_oldest_done [OF assms(2)]
  have e: "exact_at w' k = exact_at w k" for k using o by (simp add: exact_at_def)
  show ?thesis
  proof (cases oldest)
    case None
    then have none: "\<forall>r\<in>set (lw_logs w). \<not> stats_for p st (row_key r)" using o by (simp add: stats_for_key)
    have "exact_at w k" if "\<not> stats_for p st k" for k using assms(1) that by (auto simp: drained_to_def)
    then show ?thesis using None none e o by simp
  next
    case (Some t)
    then obtain r where r: "r \<in> set (lw_logs w)" "stats_for p st (row_key r)" "lr_ts r = t"
      and least: "\<And>r. r \<in> set (lw_logs w) \<Longrightarrow> stats_for p st (row_key r) \<Longrightarrow> t \<le> lr_ts r"
      using o by (auto simp: stats_for_key)
    have "exact_at w k" if k: "\<not> (stats_for p st k \<and> key_hour k \<le> utc_hour t)" for k
      using assms(1)
    proof (auto simp: drained_to_def)
      fix m assume m: "\<forall>k. (stats_for p st k \<longrightarrow> \<not> key_hour k \<le> utc_hour m) \<longrightarrow> exact_at w k"
        "\<forall>r\<in>set (lw_logs w). stats_for p st (row_key r) \<longrightarrow> m \<le> lr_ts r"
      have "m \<le> t" using m(2) r by blast
      then show "exact_at w k" using m(1) k utc_hour_mono [of m t] by force
    qed
    then show ?thesis using Some e o least utc_hour_mono by simp
  qed
qed

lemma repair_phase:
  assumes "phase_inv (Repairing p st oldest) w" and "keys_ok w" and "repair_tx p st oldest w = (Inr (), w')"
  shows "(\<forall>k. exact_at w' k) \<and> keys_ok w'"
proof -
  note repaired = repair_tx_done [OF assms(3)]
  show ?thesis
  proof (cases oldest)
    case None
    have logs: "lw_logs w' = lw_logs w" and stats: "lw_stats w' = filter (\<lambda>s. \<not> stats_for p st (fst s)) (lw_stats w)"
      using repaired None by simp_all
    have "exact_at w' k" for k
    proof (cases "stats_for p st k")
      case True
      then have "rows_of (lw_logs w) k = 0" using assms(1) None by (intro rows_of_none) auto
      then show ?thesis using logs stats True stat_of_filter [of "\<lambda>k. \<not> stats_for p st k"] by (simp add: exact_at_def)
    next
      case False
      then show ?thesis
        using logs stats assms(1) None stat_of_filter [of "\<lambda>k. \<not> stats_for p st k"] by (simp add: exact_at_def)
    qed
    then show ?thesis using assms(2) logs stats by (simp add: keys_ok_def distinct_map_filter)
  next
    case (Some t)
    let ?kept = "filter (\<lambda>s. \<not> (stats_for p st (fst s) \<and> key_hour (fst s) \<le> utc_hour t)) (lw_stats w)"
    let ?hour = "filter (\<lambda>r. stats_for p st (row_key r) \<and> utc_hour (lr_ts r) = utc_hour t) (lw_logs w)"
    have logs: "lw_logs w' = lw_logs w" and stats: "lw_stats w' = foldl put_stat ?kept (counted_rows ?hour)"
      using repaired Some by simp_all
    have kept: "distinct (map fst ?kept)" using assms(2) by (simp add: keys_ok_def distinct_map_filter)
    have put: "stat_of (lw_stats w') k = (if k \<in> row_key ` set ?hour then rows_of ?hour k else stat_of ?kept k)" for k
      using put_stats_ok [OF kept counted_rows_ok(1) [of ?hour], of k] counted_rows_ok(2) [of ?hour] counted_rows_ok(3) [of k ?hour] stats
      by (cases "k \<in> row_key ` set ?hour") (simp_all only: if_True if_False simp_thms)
    have "exact_at w' k" for k
    proof (cases "k \<in> row_key ` set ?hour")
      case True
      then have "stats_for p st k" "key_hour k = utc_hour t" by (auto simp: key_hour_key)
      then have "rows_of ?hour k = rows_of (lw_logs w) k" by (intro rows_of_filter_all) (auto simp: key_hour_key)
      then show ?thesis using put True logs by (simp add: exact_at_def)
    next
      case False
      have kept_stat: "stat_of (lw_stats w') k = (if stats_for p st k \<and> key_hour k \<le> utc_hour t then 0 else stat_of (lw_stats w) k)"
        using put [of k] False stat_of_filter [of "\<lambda>k. \<not> (stats_for p st k \<and> key_hour k \<le> utc_hour t)" "lw_stats w" k]
        by (cases "stats_for p st k \<and> key_hour k \<le> utc_hour t") (simp_all only: if_True if_False simp_thms)
      have "rows_of (lw_logs w) k = 0" if "stats_for p st k" "key_hour k \<le> utc_hour t"
      proof (intro rows_of_none notI)
        fix r assume r: "r \<in> set (lw_logs w)" "row_key r = k"
        then have "utc_hour t \<le> utc_hour (lr_ts r)" using assms(1) Some that(1) by auto
        then have "utc_hour (lr_ts r) = utc_hour t" using that(2) r(2) key_hour_key [of r] by simp
        then show False using False r that(1) by auto
      qed
      then show ?thesis using kept_stat assms(1) Some logs by (auto simp: exact_at_def)
    qed
    moreover have "distinct (map fst (lw_stats w'))"
      using put_stats_ok [OF kept counted_rows_ok(1) [of ?hour]] stats by simp
    ultimately show ?thesis using logs assms(2) by (simp add: keys_ok_def)
  qed
qed

lemma log_history_inv: "log_history w ph \<Longrightarrow> phase_inv ph w \<and> keys_ok w"
proof (induction rule: log_history.induct)
  case (Start w)
  then have "exact_at w k" for k by (simp add: exact_at_def rows_of_def stat_of_def)
  then have "\<forall>k. exact_at w k" by (rule allI)
  then show ?case using Start by (simp add: keys_ok_def)
next
  case (Create w ph nls r w')
  then have "distinct (map lr_id (lw_logs w))" "distinct (map fst (lw_stats w))" by (simp_all add: keys_ok_def)
  from bulk_create_adds [OF Create(2) this] obtain rows where rows: "lw_logs w' = lw_logs w @ rows"
    "keys_ok w'" "\<forall>k. stat_of (lw_stats w') k = stat_of (lw_stats w) k + rows_of rows k" by (auto simp: keys_ok_def)
  then have "list_all (admits ph) rows" using Create(3) by simp
  then show ?case using phase_inv_insert [OF rows(1,3)] rows(2) Create.IH by blast
next
  case (Purge w p st cutoff)
  have "phase_inv (Draining p st cutoff 0) w" using conjunct1 [OF Purge.IH] by simp
  then show ?case using Purge.IH by blast
next
  case (Delete w p st cutoff d batch n w')
  have d: "distinct (map lr_id (lw_logs w))" using Delete.IH by (simp add: keys_ok_def)
  note del = s_delete_oldest_drains [OF Delete(2) d]
  have "phase_inv (Draining p st cutoff (d + n)) w'"
    using phase_inv_delete [OF conjunct1 [OF Delete.IH]] del by auto
  moreover have "keys_ok w'" using del Delete.IH by (auto simp: keys_ok_def drains_def)
  ultimately show ?case by blast
next
  case (Nothing w p st cutoff d)
  then show ?case by auto
next
  case (Oldest w p st cutoff d oldest w')
  moreover have "keys_ok w'" using s_oldest_done [OF Oldest(2)] Oldest.IH by (simp add: keys_ok_def)
  ultimately show ?case using phase_inv_oldest by blast
next
  case (Repair w p st oldest w')
  note repaired = repair_phase [OF conjunct1 [OF Repair.IH] conjunct2 [OF Repair.IH] Repair(2)]
  then have "phase_inv Idle w'" by (unfold phase_inv.simps) (rule conjunct1)
  then show ?case using repaired by blast
next
  case (Elsewhere w ph w')
  then show ?case using phase_inv_same [OF Elsewhere(2,3), of ph] by (simp add: keys_ok_def del: phase_inv.simps)
qed

subsection \<open>The retention run is made of these steps\<close>

lemma log_history_aside: "log_history w ph \<Longrightarrow> aside w w' \<Longrightarrow> log_history w' ph"
  by (rule Elsewhere) (simp_all add: aside_def)

lemma delete_expired_history:
  assumes "delete_expired cfg p st cutoff spent deadline deleted w = Some res"
  shows "log_history w (Draining p st cutoff deleted) \<Longrightarrow> snd (snd (fst res)) = None \<Longrightarrow>
    log_history (snd res) (Draining p st cutoff (fst (fst res)))"
  using assms
proof (induction rule: delete_expired.raw_induct [rotated, consumes 1, case_names Step])
  case (Step rec cfg p st cutoff spent deadline deleted w res)
  obtain c w1 where c: "context_done w = (c, w1)" by fastforce
  obtain l w2 where l: "past_deadline deadline w1 = (l, w2)" by fastforce
  have "aside w w1" "aside w1 w2"
    using context_done_logs [OF c] past_deadline_logs [OF l] context_done_later [OF c] past_deadline_later [OF l]
    by (simp_all add: aside_def)
  then have h: "log_history w1 (Draining p st cutoff deleted)" "log_history w2 (Draining p st cutoff deleted)"
    using Step(3) log_history_aside by blast+
  show ?case
  proof (cases "c \<or> l \<or> next_batch cfg spent deleted = None")
    case True
    then show ?thesis using Step(2) c l h by (auto split: if_splits option.splits)
  next
    case False
    then obtain b where b: "next_batch cfg spent deleted = Some b" by auto
    obtain r w3 where r: "s_delete_oldest p st cutoff b w2 = (r, w3)" by fastforce
    show ?thesis
    proof (cases r)
      case (Inl e)
      then show ?thesis using Step(2,4) c l b r False by auto
    next
      case (Inr n)
      note next_step = Delete [OF h(2) r [unfolded Inr]]
      show ?thesis
        using Step(1) [of cfg p st cutoff spent deadline "deleted + n" w3 res] Step(2,4) c l b r Inr False next_step
        by (auto split: if_splits)
    qed
  qed
qed

lemma purge_history:
  assumes "purge cfg p st days spent deadline w = Some ((n, inc, None), w')" and "log_history w Idle"
  shows "log_history w' Idle"
proof -
  obtain now w0 where c: "read_clock w = (now, w0)" by fastforce
  have "log_history w0 (Draining p st (cutoff_of now days) 0)"
    by (intro Purge log_history_aside [OF assms(2) read_clock_aside [OF c]])
  moreover obtain d i er w1 where del: "delete_expired cfg p st (cutoff_of now days) spent deadline 0 w0 = Some ((d, i, er), w1)"
    and rest: "(if d \<le> 0 then Some ((d, i, er), w1)
      else (case repair_rollup p st w1 of
        (Inl e, w3) \<Rightarrow> Some ((d, i, if er = None then Some e else er), w3)
      | (Inr _, w3) \<Rightarrow> Some ((d, i, er), w3))) = Some ((n, inc, None), w')"
    using assms(1) c by (auto simp: purge_def split: option.splits prod.splits)
  moreover have "er = None" using rest by (auto split: if_splits prod.splits sum.splits)
  ultimately have h: "log_history w1 (Draining p st (cutoff_of now days) d)"
    using delete_expired_history [OF del] by simp
  show ?thesis
  proof (cases "d \<le> 0")
    case True
    then show ?thesis using rest Nothing [OF h] by simp
  next
    case False
    then have "repair_rollup p st w1 = (Inr (), w')" using rest by (auto split: prod.splits sum.splits if_splits)
    then obtain oldest w2 where o: "s_oldest p st w1 = (Inr oldest, w2)" "repair_tx p st oldest w2 = (Inr (), w')"
      unfolding repair_rollup_def by (cases rule: try_op_cases) auto
    show ?thesis by (rule Repair [OF Oldest [OF h o(1)] o(2)])
  qed
qed

lemma run_passes_history:
  assumes "run_passes cfg deadline passes res w = Some ((res', stop), w')" and "stop = None \<or> stop = Some None"
    and "log_history w Idle"
  shows "log_history w' Idle"
  using assms
proof (induction passes arbitrary: res w)
  case (Cons pass passes)
  obtain p st days where pass: "pass = (p, st, days)" by (cases pass) auto
  show ?case
  proof (cases "expires days")
    case False
    then show ?thesis using Cons.IH [of res w] Cons.prems pass by simp
  next
    case True
    then obtain n inc err w1 where pu: "purge cfg p st days (total_deleted res) deadline w = Some ((n, inc, err), w1)"
      and rest: "(let res = add_deleted st n res in
          if err \<noteq> None then Some ((res, Some err), w1)
          else if inc then Some ((res\<lparr> rr_incomplete := True \<rparr>, Some None), w1)
          else run_passes cfg deadline passes res w1) = Some ((res', stop), w')"
      using Cons.prems(1) pass by (auto split: option.splits)
    have none: "err = None" using rest Cons.prems(2) by (auto simp: Let_def split: if_splits)
    have "log_history w1 Idle" by (rule purge_history [OF pu [unfolded none] Cons.prems(3)])
    then show ?thesis using rest none Cons.IH [of "add_deleted st n res" w1] Cons.prems(2) by (auto simp: Let_def split: if_splits)
  qed
qed simp

text \<open>
  A retention run that reports no error is a history of its own: the deletions, reads and repairs of
  its purges, one after another.
\<close>

theorem retention_run_history:
  assumes "retention_run cfg w = Some ((res, None), w')" and "log_history w Idle"
  shows "log_history w' Idle"
  using assms(1)
proof (cases rule: retention_run_cases)
  case (2 deadline w2 r stop w3)
  have "log_history w3 Idle"
    using run_passes_history [OF 2(2)] 2(6) log_history_aside [OF assms(2) 2(1)] by simp
  then show ?thesis using log_history_aside 2(3) by blast
qed simp


subsection \<open>A run\<close>

text \<open>An entry of ten days ago and one of yesterday, and a retention of a week.\<close>

definition entry_at :: "instant \<Rightarrow> new_log" where
  "entry_at t = \<lparr> nl_project = 1, nl_level = log_info, nl_message = ''m'', nl_source = ''s'', nl_ts = t, nl_tags = [],
     nl_meta = None, nl_source_type = source_type_app, nl_source_id = None, nl_infra = \<lparr> in_host = [], in_container = [], in_pod = [], in_namespace = [], in_cluster = [], in_unit = [],
       in_facility = [], in_region = [], in_cloud_resource = [] \<rparr>, nl_attributes = None \<rparr>"

definition filled_world :: log_world where
  "filled_world = snd (bulk_create [entry_at 0, entry_at (9 * 24 * go_hour)] ((retained_world (Some 7))\<lparr> lw_logs := [], lw_stats := [] \<rparr>))"

definition purged_world :: log_world where
  "purged_world = snd (the (retention_run default_retention filled_world))"

definition old_key :: stats_key where
  "old_key = (1, 0, source_type_app, ''s'', log_info)"

definition new_key :: stats_key where
  "new_key = (1, 9 * 24 * go_hour, source_type_app, ''s'', log_info)"

declare delete_expired.simps [code] audit_batches.simps [code]

lemma purged_finished: "map_option (\<lambda>r. snd (fst r)) (retention_run default_retention filled_world) = Some None"
  by code_simp


text \<open>
  The last restriction is needed: a row that is there at the repair, of an hour before the one that was
  read, is in no count of the rollup afterwards.
\<close>

theorem backfill_during_repair_uncounted:
  assumes "repair_tx p st oldest w = (Inr (), w')" and "distinct (map fst (lw_stats w))"
    and "r \<in> set (lw_logs w)" and "\<not> admits (Repairing p st oldest) r"
  shows "r \<in> set (lw_logs w') \<and> stat_of (lw_stats w') (row_key r) = 0"
proof -
  note repaired = repair_tx_done [OF assms(1)]
  have r: "stats_for p st (row_key r)" using assms(4) by auto
  show ?thesis
  proof (cases oldest)
    case None
    then show ?thesis using repaired assms(3) r stat_of_filter [of "\<lambda>k. \<not> stats_for p st k"] by simp
  next
    case (Some t)
    let ?kept = "filter (\<lambda>s. \<not> (stats_for p st (fst s) \<and> key_hour (fst s) \<le> utc_hour t)) (lw_stats w)"
    let ?hour = "filter (\<lambda>r. stats_for p st (row_key r) \<and> utc_hour (lr_ts r) = utc_hour t) (lw_logs w)"
    have early: "key_hour (row_key r) < utc_hour t" using assms(4) Some by (auto simp: key_hour_key)
    then have no: "row_key r \<notin> fst ` set (counted_rows ?hour)"
      unfolding counted_rows_ok(2) by (metis (mono_tags, lifting) imageE key_hour_key less_irrefl mem_Collect_eq set_filter)
    have "distinct (map fst ?kept)" using assms(2) by (simp add: distinct_map_filter)
    from put_stats_ok [OF this counted_rows_ok(1) [of ?hour], of "row_key r"]
    have "stat_of (lw_stats w') (row_key r) = stat_of ?kept (row_key r)" using no repaired Some by (simp only: if_False option.case)
    also have "\<dots> = 0"
      using stat_of_filter [of "\<lambda>k. \<not> (stats_for p st k \<and> key_hour k \<le> utc_hour t)" "lw_stats w" "row_key r"] r early by simp
    finally show ?thesis using repaired assms(3) Some by simp
  qed
qed

declare split_paired_All [simp]

end
