(* ===== verification/GoParse.thy ===== *)
theory GoParse
  imports LogStore Scrub
begin

text \<open>
  What the ingestion path uses of Go's \<open>strconv\<close>, \<open>time.Parse\<close> and \<open>encoding/json\<close>: integers of 64
  bits, floating-point literals (kept exact, a value that rounds beyond the doubles refused), the
  layout RFC 3339, and the decoder of JSON texts. Times outside the layouts and letters outside
  ASCII in names are as in the library.
\<close>

subsection \<open>Numbers\<close>

definition split_sign :: "string \<Rightarrow> bool \<times> string" where
  "split_sign s = (case s of [] \<Rightarrow> (False, []) | c # t \<Rightarrow>
     if c = CHR ''-'' then (True, t) else if c = CHR ''+'' then (False, t) else (False, s))"

definition all_digits :: "string \<Rightarrow> bool" where
  "all_digits s \<longleftrightarrow> s \<noteq> [] \<and> list_all digit s"

definition parse_int64 :: "string \<Rightarrow> int option" where
  "parse_int64 s =
     (case split_sign s of (neg, ds) \<Rightarrow>
        if \<not> all_digits ds then None
        else let v = (if neg then - int (digits_val ds) else int (digits_val ds)) in
          if - (2 ^ 63) \<le> v \<and> v < 2 ^ 63 then Some v else None)"

definition digit_value :: "bool \<Rightarrow> char \<Rightarrow> nat option" where
  "digit_value hex c =
     (if digit c then Some (byte_of c - 48)
      else if hex \<and> hex_digit c then Some (byte_of (lower_char c) - 87) else None)"

text \<open>The mantissa read so far, its digits and those after the point, and what follows it.\<close>

fun scan_mantissa :: "bool \<Rightarrow> bool \<Rightarrow> nat \<times> nat \<times> nat \<Rightarrow> string \<Rightarrow> (nat \<times> nat \<times> nat) \<times> string" where
  "scan_mantissa hex dot (m, nd, nf) [] = ((m, nd, nf), [])"
| "scan_mantissa hex dot (m, nd, nf) (c # s) =
     (if c = CHR ''_'' then scan_mantissa hex dot (m, nd, nf) s
      else if c = CHR ''.'' then if dot then ((m, nd, nf), c # s) else scan_mantissa hex True (m, nd, nf) s
      else case digit_value hex c of
        None \<Rightarrow> ((m, nd, nf), c # s)
      | Some d \<Rightarrow> scan_mantissa hex dot
          (m * (if hex then 16 else 10) + d, nd + 1, if dot then nf + 1 else nf) s)"

fun scan_exponent :: "nat \<Rightarrow> string \<Rightarrow> nat \<times> string" where
  "scan_exponent e [] = (e, [])"
| "scan_exponent e (c # s) =
     (if c = CHR ''_'' then scan_exponent e s
      else if digit c then scan_exponent (if e < 10000 then e * 10 + (byte_of c - 48) else e) s
      else (e, c # s))"

datatype last_seen = Saw_start | Saw_digit | Saw_underscore | Saw_other

fun underscore_run :: "bool \<Rightarrow> last_seen \<Rightarrow> string \<Rightarrow> bool" where
  "underscore_run hex saw [] = (saw \<noteq> Saw_underscore)"
| "underscore_run hex saw (c # s) =
     (if digit_value hex c \<noteq> None then underscore_run hex Saw_digit s
      else if c = CHR ''_'' then saw = Saw_digit \<and> underscore_run hex Saw_underscore s
      else saw \<noteq> Saw_underscore \<and> underscore_run hex Saw_other s)"

definition hex_prefixed :: "string \<Rightarrow> bool" where
  "hex_prefixed s \<longleftrightarrow> has_prefix (to_lower s) ''0x''"

definition underscore_ok :: "string \<Rightarrow> bool" where
  "underscore_ok s =
     (let t = snd (split_sign s) in
      if take 2 (to_lower t) \<in> {''0b'', ''0o'', ''0x''} then underscore_run (hex_prefixed t) Saw_digit (drop 2 t)
      else underscore_run False Saw_start t)"

definition scale :: "rat \<Rightarrow> int \<Rightarrow> rat \<Rightarrow> rat" where
  "scale b e q = (if 0 \<le> e then q * b ^ nat e else q / b ^ nat (- e))"

definition read_float :: "string \<Rightarrow> rat option" where
  "read_float s =
     (case split_sign s of (neg, t) \<Rightarrow>
      let hex = (hex_prefixed t \<and> 2 < length t) in
      case scan_mantissa hex False (0, 0, 0) (if hex then drop 2 t else t) of ((m, nd, nf), rest) \<Rightarrow>
      if nd = 0 then None
      else
        let tail = (if rest \<noteq> [] \<and> lower_char (hd rest) = (if hex then CHR ''p'' else CHR ''e'')
              then (case split_sign (tl rest) of (eneg, u) \<Rightarrow>
                if u = [] \<or> \<not> digit (hd u) then None
                else (case scan_exponent 0 u of (e, v) \<Rightarrow> Some (if eneg then - int e else int e, v)))
              else if hex then None else Some (0, rest))
        in (case tail of
          None \<Rightarrow> None
        | Some (e, v) \<Rightarrow>
            if v \<noteq> [] \<or> CHR ''_'' \<in> set s \<and> \<not> underscore_ok s then None
            else Some ((if neg then -1 else 1) * (if hex then scale 2 (e - 4 * int nf) (of_nat m)
              else scale 10 (e - int nf) (of_nat m)))))"

definition special_float :: "string \<Rightarrow> go_float option" where
  "special_float s =
     (case split_sign s of (neg, t) \<Rightarrow>
        if to_lower t \<in> {''inf'', ''infinity''} then Some (Infinite neg)
        else if to_lower s = ''nan'' then Some Not_a_number else None)"

definition parse_float :: "string \<Rightarrow> go_float option" where
  "parse_float s =
     (case special_float s of
        Some f \<Rightarrow> Some f
      | None \<Rightarrow> (case read_float s of
          None \<Rightarrow> None
        | Some q \<Rightarrow> if \<bar>q\<bar> < 2 ^ 1024 - 2 ^ 970 then Some (Finite q) else None))"

subsection \<open>Times\<close>

definition leap_year :: "int \<Rightarrow> bool" where
  "leap_year y \<longleftrightarrow> y mod 4 = 0 \<and> (y mod 100 \<noteq> 0 \<or> y mod 400 = 0)"

definition month_days :: "int \<Rightarrow> int list" where
  "month_days y = [31, if leap_year y then 29 else 28, 31, 30, 31, 30, 31, 31, 30, 31, 30, 31]"

definition civil_day :: "int \<Rightarrow> nat \<Rightarrow> int \<Rightarrow> int" where
  "civil_day y m d =
     365 * (y - 1) + (y - 1) div 4 - (y - 1) div 100 + (y - 1) div 400 + sum_list (take (m - 1) (month_days y)) + (d - 1)"

text \<open>\<open>getnum\<close>: two digits, or one where the layout does not fix the width.\<close>

definition get_num :: "bool \<Rightarrow> string \<Rightarrow> (nat \<times> string) option" where
  "get_num fixed s =
     (case s of
        [] \<Rightarrow> None
      | c # t \<Rightarrow>
          if \<not> digit c then None
          else if t = [] \<or> \<not> digit (hd t) then if fixed then None else Some (digits_val [c], t)
          else Some (digits_val [c, hd t], tl t))"

definition expect :: "char \<Rightarrow> string \<Rightarrow> string option" where
  "expect c s = (if s \<noteq> [] \<and> hd s = c then Some (tl s) else None)"

definition nanos_of :: "string \<Rightarrow> int" where
  "nanos_of ds = int (digits_val (take 9 ds)) * 10 ^ (9 - length (take 9 ds))"

text \<open>A fraction the layout does not name, and the three digits of \<open>.000\<close>, which may carry a sign.\<close>

definition free_fraction :: "string \<Rightarrow> (int \<times> string) option" where
  "free_fraction s =
     (if 2 \<le> length s \<and> hd s \<in> {CHR ''.'', CHR '',''} \<and> digit (s ! 1)
      then Some (nanos_of (takeWhile digit (tl s)), dropWhile digit (tl s)) else Some (0, s))"

definition milli_fraction :: "string \<Rightarrow> (int \<times> string) option" where
  "milli_fraction s =
     (if length s < 4 \<or> hd s \<notin> {CHR ''.'', CHR '',''} then None
      else case parse_int64 (take 3 (tl s)) of
        None \<Rightarrow> None | Some n \<Rightarrow> if n < 0 then None else Some (n * 1000000, drop 4 s))"

definition parse_offset :: "string \<Rightarrow> (int \<times> string) option" where
  "parse_offset s =
     (if s \<noteq> [] \<and> hd s = CHR ''Z'' then Some (0, tl s)
      else if length s < 6 \<or> s ! 3 \<noteq> CHR '':'' \<or> hd s \<notin> {CHR ''+'', CHR ''-''} then None
      else (case (get_num True (take 2 (drop 1 s)), get_num True (take 2 (drop 4 s))) of
          (Some (h, _), Some (m, _)) \<Rightarrow>
            if 24 < h \<or> 60 < m then None
            else Some ((if hd s = CHR ''-'' then -1 else 1) * (int h * 60 + int m) * 60, drop 6 s)
        | _ \<Rightarrow> None))"

definition parse_year :: "string \<Rightarrow> (int \<times> string) option" where
  "parse_year s = (if 4 \<le> length s \<and> list_all digit (take 4 s) then Some (int (digits_val (take 4 s)), drop 4 s) else None)"

definition parse_time :: "(string \<Rightarrow> (int \<times> string) option) \<Rightarrow> string \<Rightarrow> instant option" where
  "parse_time part s =
     Option.bind (parse_year s) (\<lambda>(y, s). Option.bind (expect CHR ''-'' s) (\<lambda>s.
     Option.bind (get_num True s) (\<lambda>(mo, s). Option.bind (expect CHR ''-'' s) (\<lambda>s.
     Option.bind (get_num True s) (\<lambda>(d, s). Option.bind (expect CHR ''T'' s) (\<lambda>s.
     Option.bind (get_num False s) (\<lambda>(h, s). Option.bind (expect CHR '':'' s) (\<lambda>s.
     Option.bind (get_num True s) (\<lambda>(mi, s). Option.bind (expect CHR '':'' s) (\<lambda>s.
     Option.bind (get_num True s) (\<lambda>(sec, s). Option.bind (part s) (\<lambda>(ns, s).
     Option.bind (parse_offset s) (\<lambda>(off, s).
       if s \<noteq> [] \<or> mo < 1 \<or> 12 < mo \<or> d < 1 \<or> month_days y ! (mo - 1) < int d \<or> 24 \<le> h \<or> 60 \<le> mi \<or> 60 \<le> sec
       then None
       else Some (((civil_day y mo (int d) * 24 + int h) * 60 + int mi) * go_minute + int sec * go_second + ns
         - off * go_second))))))))))))))"

abbreviation parse_rfc3339 :: "string \<Rightarrow> instant option" where
  "parse_rfc3339 \<equiv> parse_time free_fraction"

abbreviation parse_rfc3339_millis :: "string \<Rightarrow> instant option" where
  "parse_rfc3339_millis \<equiv> parse_time milli_fraction"

definition unix_epoch :: instant where
  "unix_epoch = civil_day 1970 1 1 * 24 * go_hour"

subsection \<open>Hexadecimal\<close>

definition hex_char :: "nat \<Rightarrow> char" where
  "hex_char n = (if n < 10 then char_of (48 + n) else char_of (87 + n))"

definition hex_encode :: "string \<Rightarrow> string" where
  "hex_encode s = concat (map (\<lambda>c. [hex_char (byte_of c div 16), hex_char (byte_of c mod 16)]) s)"

end
