(* ===== verification/GoJson.thy ===== *)
theory GoJson
  imports GoParse
begin

text \<open>
  \<open>json.Unmarshal\<close>: the grammar of RFC 8259 with Go's limit on nesting, strings with their escapes
  and with invalid bytes replaced, and the value an \<open>any\<close> receives. \<open>decode_json\<close> keeps repeated
  members, which a struct takes one after the other; \<open>as_any\<close> resolves them. A number too large for
  a double is kept as an infinity, which \<open>as_any\<close> refuses.
\<close>

subsection \<open>Strings\<close>

definition utf8_encode :: "nat \<Rightarrow> string" where
  "utf8_encode n =
     (if n < 128 then [char_of n]
      else if n < 2048 then [char_of (192 + n div 64), char_of (128 + n mod 64)]
      else if n < 65536 then [char_of (224 + n div 4096), char_of (128 + n div 64 mod 64), char_of (128 + n mod 64)]
      else [char_of (240 + n div 262144), char_of (128 + n div 4096 mod 64), char_of (128 + n div 64 mod 64),
        char_of (128 + n mod 64)])"

definition replacement_char :: string where
  "replacement_char = utf8_encode 65533"

definition hex4 :: "string \<Rightarrow> nat option" where
  "hex4 s = (if 4 \<le> length s \<and> list_all hex_digit (take 4 s)
     then Some (foldl (\<lambda>v c. 16 * v + the (digit_value True c)) 0 (take 4 s)) else None)"

definition high_surrogate :: "nat \<Rightarrow> bool" where
  "high_surrogate n \<longleftrightarrow> 55296 \<le> n \<and> n < 56320"

definition low_surrogate :: "nat \<Rightarrow> bool" where
  "low_surrogate n \<longleftrightarrow> 56320 \<le> n \<and> n < 57344"

text \<open>The rune of \<open>\u\<close> and its four digits, with the second half of a pair, and how much was read.\<close>

definition unicode_escape :: "string \<Rightarrow> (string \<times> nat) option" where
  "unicode_escape s =
     (case hex4 s of
        None \<Rightarrow> None
      | Some n \<Rightarrow>
          if \<not> high_surrogate n \<and> \<not> low_surrogate n then Some (utf8_encode n, 4)
          else (case (if high_surrogate n \<and> take 2 (drop 4 s) = [CHR 0x5C, CHR ''u''] then hex4 (drop 6 s) else None) of
            Some m \<Rightarrow> if low_surrogate m then Some (utf8_encode (65536 + (n - 55296) * 1024 + (m - 56320)), 10)
              else Some (replacement_char, 4)
          | None \<Rightarrow> Some (replacement_char, 4)))"

definition simple_escape :: "char \<Rightarrow> char option" where
  "simple_escape c =
     map_of [(CHR 0x22, CHR 0x22), (CHR 0x5C, CHR 0x5C), (CHR ''/'', CHR ''/''), (CHR ''b'', CHR 0x08),
       (CHR ''f'', CHR 0x0C), (CHR ''n'', CHR 0x0A), (CHR ''r'', CHR 0x0D), (CHR ''t'', CHR 0x09)] c"

definition prepend :: "string \<Rightarrow> (string \<times> 'a) option \<Rightarrow> (string \<times> 'a) option" where
  "prepend p r = map_option (\<lambda>(s, x). (p @ s, x)) r"

lemma rune_shorter: "Suc n - rune_len s \<le> n"
  using rune_len_pos [of s] by linarith

text \<open>What follows the opening quote, up to the closing one.\<close>

function string_body :: "string \<Rightarrow> (string \<times> string) option" where
  "string_body s =
     (case s of
        [] \<Rightarrow> None
      | c # t \<Rightarrow>
          if c = CHR 0x22 then Some ([], t)
          else if c = CHR 0x5C then
            (case t of
               [] \<Rightarrow> None
             | e # u \<Rightarrow>
                 if e = CHR ''u'' then
                   (case unicode_escape u of
                      None \<Rightarrow> None | Some (r, n) \<Rightarrow> prepend r (string_body (drop n u)))
                 else (case simple_escape e of None \<Rightarrow> None | Some x \<Rightarrow> prepend [x] (string_body u)))
          else if byte_of c < 32 then None
          else prepend (if rune_width s = None then replacement_char else take (rune_len s) s)
            (string_body (drop (rune_len s) s)))"
  by pat_completeness auto
termination
  by (relation "measure length") (auto simp: less_Suc_eq_le rune_shorter)

declare string_body.simps [simp del]

lemma string_body_shorter: "string_body s = Some (x, r) \<Longrightarrow> length r < length s"
proof (induction s arbitrary: x rule: string_body.induct)
  case (1 s)
  show ?case
  proof (cases s)
    case Nil
    then show ?thesis using "1.prems" by (simp add: string_body.simps)
  next
    case (Cons c t)
    have d: "length (drop n u) \<le> length u" for n and u :: string by simp
    show ?thesis
    proof (cases "c = CHR 0x22 \<or> c = CHR 0x5C")
      case True
      then show ?thesis
        using "1.prems" Cons "1.IH"(1,2) [OF Cons]
        by (subst (asm) string_body.simps)
           (fastforce simp: prepend_def split: if_splits list.splits option.splits prod.splits)
    next
      case False
      then have e: "string_body s = (if byte_of c < 32 then None
          else prepend (if rune_width s = None then replacement_char else take (rune_len s) s)
            (string_body (drop (rune_len s) s)))"
        by (subst string_body.simps) (simp add: Cons)
      then have b: "\<not> byte_of c < 32" using "1.prems" by (cases "byte_of c < 32") simp_all
      then obtain y where "string_body (drop (rune_len s) s) = Some (y, r)"
        using "1.prems" e by (auto simp: prepend_def)
      then have "length r < length (drop (rune_len s) s)" using "1.IH"(3) [OF Cons] False b(1) by blast
      then show ?thesis by simp
    qed
  qed
qed

subsection \<open>Numbers and values\<close>

definition json_space :: "char \<Rightarrow> bool" where
  "json_space c \<longleftrightarrow> byte_of c \<in> {9, 10, 13, 32}"

abbreviation skip_space :: "string \<Rightarrow> string" where
  "skip_space \<equiv> dropWhile json_space"

definition int_part :: "string \<Rightarrow> string \<times> string" where
  "int_part s = (if s \<noteq> [] \<and> hd s = CHR ''0'' then (take 1 s, drop 1 s) else (takeWhile digit s, dropWhile digit s))"

definition digits_after :: "string \<Rightarrow> string \<Rightarrow> (string \<times> string) option" where
  "digits_after lead s =
     (let ds = takeWhile digit (drop (length lead) s)
      in if ds = [] then None else Some (lead @ ds, dropWhile digit (drop (length lead) s)))"

definition json_number :: "string \<Rightarrow> (string \<times> string) option" where
  "json_number s =
     (let sign = (if s \<noteq> [] \<and> hd s = CHR ''-'' then ''-'' else []) in
      case int_part (drop (length sign) s) of (ip, s1) \<Rightarrow>
      if ip = [] then None
      else Option.bind (if s1 \<noteq> [] \<and> hd s1 = CHR ''.'' then digits_after ''.'' s1 else Some ([], s1)) (\<lambda>(fp, s2).
        Option.bind (if s2 \<noteq> [] \<and> lower_char (hd s2) = CHR ''e''
            then digits_after (take (if tl s2 \<noteq> [] \<and> s2 ! 1 \<in> {CHR ''+'', CHR ''-''} then 2 else 1) s2) s2
            else Some ([], s2)) (\<lambda>(ep, s3).
        Some (sign @ ip @ fp @ ep, s3))))"

definition number_value :: "string \<Rightarrow> go_float" where
  "number_value t = (case parse_float t of Some f \<Rightarrow> f | None \<Rightarrow> Infinite (hd t = CHR ''-''))"

definition json_literal :: "string \<Rightarrow> (json \<times> string) option" where
  "json_literal s =
     (if has_prefix s ''true'' then Some (J_bool True, drop 4 s)
      else if has_prefix s ''false'' then Some (J_bool False, drop 5 s)
      else if has_prefix s ''null'' then Some (J_null, drop 4 s)
      else map_option (\<lambda>(t, r). (J_float (number_value t), r)) (json_number s))"

abbreviation max_nesting :: nat where "max_nesting \<equiv> 10000"

text \<open>
  \<open>d\<close> is how many more objects and arrays may be opened. Every value reads something, which the
  bounds on the lengths say for the termination; they do not refuse anything.
\<close>

lemma dropWhile_length: "length (dropWhile P s) \<le> length s"
  by (simp add: length_dropWhile_le)

lemma expect_length: "expect c s = Some r \<Longrightarrow> length r < length s"
  by (auto simp: expect_def split: if_splits)

function json_value :: "nat \<Rightarrow> string \<Rightarrow> (json \<times> string) option"
  and json_members :: "nat \<Rightarrow> string \<Rightarrow> (members \<times> string) option"
  and json_elements :: "nat \<Rightarrow> string \<Rightarrow> (json list \<times> string) option" where
  "json_value d s =
     (case s of
        [] \<Rightarrow> None
      | c # t \<Rightarrow>
          if c = CHR 0x22 then map_option (\<lambda>(x, r). (J_string x, r)) (string_body t)
          else if c = CHR ''{'' then
            if d = 0 then None
            else (case expect CHR ''}'' (skip_space t) of
                Some r \<Rightarrow> Some (J_object [], r)
              | None \<Rightarrow> map_option (\<lambda>(m, r). (J_object m, r)) (json_members (d - 1) (skip_space t)))
          else if c = CHR ''['' then
            if d = 0 then None
            else (case expect CHR '']'' (skip_space t) of
                Some r \<Rightarrow> Some (J_array [], r)
              | None \<Rightarrow> map_option (\<lambda>(vs, r). (J_array vs, r)) (json_elements (d - 1) (skip_space t)))
          else json_literal s)"
| "json_members d s =
     (case Option.bind (expect CHR 0x22 s) string_body of
        None \<Rightarrow> None
      | Some (k, r1) \<Rightarrow>
          (case expect CHR '':'' (skip_space r1) of
             None \<Rightarrow> None
           | Some r2 \<Rightarrow>
               (case json_value d (skip_space r2) of
                  None \<Rightarrow> None
                | Some (v, r3) \<Rightarrow>
                    (case expect CHR '','' (skip_space r3) of
                       Some r4 \<Rightarrow>
                         if length r4 < length s
                         then map_option (\<lambda>(m, r). ((k, v) # m, r)) (json_members d (skip_space r4)) else None
                     | None \<Rightarrow> map_option (\<lambda>r. ([(k, v)], r)) (expect CHR ''}'' (skip_space r3))))))"
| "json_elements d s =
     (case json_value d s of
        None \<Rightarrow> None
      | Some (v, r1) \<Rightarrow>
          (case expect CHR '','' (skip_space r1) of
             Some r2 \<Rightarrow>
               if length r2 < length s
               then map_option (\<lambda>(vs, r). (v # vs, r)) (json_elements d (skip_space r2)) else None
           | None \<Rightarrow> map_option (\<lambda>r. ([v], r)) (expect CHR '']'' (skip_space r1))))"
  by pat_completeness auto
termination
proof (relation "measure (\<lambda>x. case x of Inl (d, s) \<Rightarrow> 2 * length s
    | Inr (Inl (d, s)) \<Rightarrow> 2 * length s | Inr (Inr (d, s)) \<Rightarrow> 2 * length s + 1)", goal_cases)
  case (2 d s c t)
  then show ?case using dropWhile_length [of json_space t] by simp
next
  case (3 d s c t)
  then show ?case using dropWhile_length [of json_space t] by simp
next
  case (4 d s p k r1 r2)
  then obtain u where "expect CHR 0x22 s = Some u" "string_body u = Some (k, r1)" by (auto simp: bind_eq_Some_conv)
  then show ?case
    using 4(3) expect_length string_body_shorter [of u k r1] dropWhile_length [of json_space r1]
      dropWhile_length [of json_space r2]
    by (fastforce dest: expect_length)
next
  case (5 d s p k r1 r2 q v r3 r4)
  then show ?case using dropWhile_length [of json_space r4] by simp
next
  case (6 d s)
  then show ?case by simp
next
  case (7 d s p v r1 r2)
  then show ?case using dropWhile_length [of json_space r2] by simp
qed simp

declare json_value.simps [simp del] json_members.simps [simp del] json_elements.simps [simp del]

definition decode_json :: "string \<Rightarrow> json option" where
  "decode_json s =
     (case json_value max_nesting (skip_space s) of
        Some (v, r) \<Rightarrow> if skip_space r = [] then Some v else None
      | None \<Rightarrow> None)"

fun as_any :: "json \<Rightarrow> json option" where
  "as_any (J_float f) = (case f of Finite q \<Rightarrow> Some (J_float f) | _ \<Rightarrow> None)"
| "as_any (J_array vs) = map_option J_array (those (map as_any vs))"
| "as_any (J_object m) =
     map_option (\<lambda>m. J_object (foldl (\<lambda>m (k, v). put_member k v m) [] m))
       (those (map (\<lambda>(k, v). map_option (Pair k) (as_any v)) m))"
| "as_any v = Some v"

end
