(* ===== verification/Normalize.thy ===== *)
theory Normalize
  imports GoJson
begin

text \<open>
  The pipeline every infrastructure record passes (\<open>business/sdk/ingest/severity.go\<close>,
  \<open>sampling.go\<close>, \<open>redact.go\<close>, \<open>normalize.go\<close>): levels from syslog and OpenTelemetry severities,
  sampling, redaction, the clamp of the timestamp and the fields lifted out of a message that is a
  JSON object or a logfmt line. Objects keep their members in a list; the code walks maps in no
  order, and none of the steps depends on it.
\<close>

subsection \<open>Severities and sampling\<close>

definition severity_attr_key :: string where
  "severity_attr_key = ''_severity''"

definition syslog_severity_to_level :: "int \<Rightarrow> string" where
  "syslog_severity_to_level sev =
     (if 0 \<le> sev \<and> sev \<le> 3 then log_err
      else if sev = 4 then log_warn
      else if sev = 5 \<or> sev = 6 then log_info
      else if sev = 7 then log_debug
      else log_info)"

definition otel_severity_to_level :: "int \<Rightarrow> string" where
  "otel_severity_to_level num =
     (if 1 \<le> num \<and> num \<le> 8 then log_debug
      else if 9 \<le> num \<and> num \<le> 12 then log_info
      else if 13 \<le> num \<and> num \<le> 16 then log_warn
      else if 17 \<le> num \<and> num \<le> 24 then log_err
      else log_info)"

definition keep_record :: "string \<Rightarrow> rat \<Rightarrow> rat \<Rightarrow> bool" where
  "keep_record level keep_rate r =
     (if level = log_warn \<or> level = log_err then True
      else if 1 \<le> keep_rate then True
      else if keep_rate \<le> 0 then False
      else r < keep_rate)"

lemma severity_levels: "syslog_severity_to_level s \<in> set level_names" "otel_severity_to_level n \<in> set level_names"
  by (simp_all add: syslog_severity_to_level_def otel_severity_to_level_def level_names_def)

subsection \<open>Redaction\<close>

definition ipv4_pattern :: rx where
  "ipv4_pattern = Cats
     [Boundary, Rep 3 (Some 3) (Cats [Rep 1 (Some 3) (OneOf digit), Char CHR ''.'']), Rep 1 (Some 3) (OneOf digit), Boundary]"

text \<open>\<open>[ -]*?\<close> prefers nothing, then as little as it can.\<close>

definition card_pattern :: rx where
  "card_pattern = Cats
     [Boundary, Rep 13 (Some 16) (Cats [OneOf digit, Alt Eps (Lazy (OneOf (\<lambda>c. c \<in> set '' -'')))]), Boundary]"

definition secret_value_pattern :: rx where
  "secret_value_pattern = Cats
     [Alt (Cats [FoldWord ''api'', Optional (OneOf (\<lambda>c. c \<in> set ''_-'')), FoldWord ''key''])
        (Alt (FoldWord ''secret'') (Alt (FoldWord ''token'') (FoldWord ''password''))),
      Optional (OneOf (\<lambda>c. c \<in> {CHR 0x22, CHR 0x27})), Spaces, OneOf (\<lambda>c. c \<in> set '':=''), Spaces,
      Optional (OneOf (\<lambda>c. c \<in> {CHR 0x22, CHR 0x27})),
      Rep 6 None (FoldOf (\<lambda>c. lower_letter c \<or> digit c \<or> c \<in> set ''._-''))]"

definition default_patterns :: "rx list" where
  "default_patterns = [email_pattern, ipv4_pattern, card_pattern, bearer_pattern, our_keys, secret_value_pattern]"

definition default_mask :: string where
  "default_mask = ''[REDACTED]''"

type_synonym redactor = "rx list"

definition redact_string :: "redactor \<Rightarrow> string \<Rightarrow> string" where
  "redact_string red s = (if s = [] then s else foldl (\<lambda>t p. replace_all p default_mask t) s red)"

fun redact_value :: "redactor \<Rightarrow> json \<Rightarrow> json" where
  "redact_value red (J_string s) = J_string (redact_string red s)"
| "redact_value red (J_object m) = J_object (map (\<lambda>(k, v). (k, redact_value red v)) m)"
| "redact_value red (J_array vs) = J_array (map (redact_value red) vs)"
| "redact_value red v = v"

definition redact_map :: "redactor \<Rightarrow> members \<Rightarrow> members" where
  "redact_map red m = map (\<lambda>(k, v). (k, redact_value red v)) m"

subsection \<open>Structured messages\<close>

definition coerce_scalar :: "string \<Rightarrow> json" where
  "coerce_scalar v =
     (if v = ''true'' then J_bool True
      else if v = ''false'' then J_bool False
      else case parse_int64 v of
        Some n \<Rightarrow> J_int n
      | None \<Rightarrow> (case parse_float v of Some f \<Rightarrow> J_float f | None \<Rightarrow> J_string v))"

text \<open>The text up to the closing quote, which stays in front of the rest.\<close>

fun quoted_value :: "string \<Rightarrow> string \<times> string" where
  "quoted_value [] = ([], [])"
| "quoted_value (c # s) =
     (if c = CHR 0x22 then ([], c # s)
      else if c = CHR 0x5C \<and> s \<noteq> [] then
        (case quoted_value (tl s) of (v, r) \<Rightarrow> (c # hd s # v, r))
      else (case quoted_value s of (v, r) \<Rightarrow> (c # v, r)))"

abbreviation skip_blanks :: "string \<Rightarrow> string" where
  "skip_blanks \<equiv> dropWhile (\<lambda>c. c = CHR '' '')"

definition logfmt_key_char :: "char \<Rightarrow> bool" where
  "logfmt_key_char c \<longleftrightarrow> c \<noteq> CHR ''='' \<and> c \<noteq> CHR '' ''"

definition logfmt_value :: "string \<Rightarrow> string \<times> string" where
  "logfmt_value r =
     (if r \<noteq> [] \<and> hd r = CHR 0x22 then (case quoted_value (tl r) of (v, q) \<Rightarrow> (v, drop 1 q))
      else (takeWhile (\<lambda>c. c \<noteq> CHR '' '') r, dropWhile (\<lambda>c. c \<noteq> CHR '' '') r))"

lemma quoted_value_length: "length (snd (quoted_value s)) \<le> length s"
proof (induction s rule: quoted_value.induct)
  case (2 c s)
  then show ?case by (cases s) (auto split: prod.splits)
qed simp

lemma logfmt_value_length: "length (snd (logfmt_value r)) \<le> length r"
  using quoted_value_length [of "tl r"] length_dropWhile_le [of "\<lambda>c. c \<noteq> CHR '' ''" r]
  by (auto simp: logfmt_value_def split: prod.splits)

function logfmt_pairs :: "string \<Rightarrow> (string \<times> string) list option" where
  "logfmt_pairs s =
     (let t = skip_blanks s in
      if t = [] then Some []
      else let key = takeWhile logfmt_key_char t; r = dropWhile logfmt_key_char t in
        if r = [] \<or> hd r \<noteq> CHR ''='' then None
        else if key = [] then None
        else map_option (\<lambda>ps. (key, fst (logfmt_value (tl r))) # ps) (logfmt_pairs (snd (logfmt_value (tl r)))))"
  by pat_completeness auto
termination
proof (relation "measure length", goal_cases)
  case (2 s t key r)
  then have "r \<noteq> []" by simp
  then have "length (tl r) < length r" by simp
  then have "length (snd (logfmt_value (tl r))) < length r"
    using logfmt_value_length [of "tl r"] by linarith
  moreover have "length r \<le> length t" "length t \<le> length s"
    using 2 length_dropWhile_le by auto
  ultimately show ?case by simp
qed simp

declare logfmt_pairs.simps [simp del]

definition parse_logfmt :: "string \<Rightarrow> members option" where
  "parse_logfmt s =
     (if CHR ''='' \<notin> set s then None
      else case logfmt_pairs s of
        None \<Rightarrow> None
      | Some ps \<Rightarrow> if ps = [] then None else Some (foldl (\<lambda>m (k, v). put_member k (coerce_scalar v) m) [] ps))"

definition sniff_message :: "string \<Rightarrow> members option" where
  "sniff_message msg =
     (let t = trim_space msg in
      if t = [] then None
      else case (if has_prefix t ''{'' \<and> has_suffix t ''}'' then Option.bind (decode_json t) as_any else None) of
        Some (J_object (x # m)) \<Rightarrow> Some (x # m)
      | _ \<Rightarrow> parse_logfmt t)"

subsection \<open>Records\<close>

record ingest_record =
  ir_level :: string
  ir_message :: string
  ir_source :: string
  ir_ts :: instant
  ir_tags :: "string list"
  ir_infra :: infra
  ir_attributes :: "members option"

abbreviation max_future_skew :: duration where "max_future_skew \<equiv> 24 * go_hour"

definition normalize_timestamp :: "instant \<Rightarrow> instant \<Rightarrow> instant" where
  "normalize_timestamp ts now =
     (if ts = 0 then now else if now + max_future_skew < ts then now else ts)"

definition lift_fields :: "members \<Rightarrow> members \<Rightarrow> members" where
  "lift_fields attrs found = foldl (\<lambda>m (k, v). if k \<in> fst ` set m then m else put_member k v m) attrs found"

definition normalize :: "ingest_record \<Rightarrow> instant \<Rightarrow> redactor option \<Rightarrow> ingest_record" where
  "normalize rec now red =
     (let attrs = (case ir_attributes rec of None \<Rightarrow> [] | Some m \<Rightarrow> m);
        lifted = (case sniff_message (ir_message rec) of None \<Rightarrow> attrs | Some found \<Rightarrow> lift_fields attrs found);
        stamped = rec\<lparr> ir_attributes := Some lifted, ir_ts := normalize_timestamp (ir_ts rec) now \<rparr>
      in case red of
        None \<Rightarrow> stamped
      | Some red \<Rightarrow> stamped\<lparr> ir_message := redact_string red (ir_message rec), ir_attributes := Some (redact_map red lifted) \<rparr>)"

end
