(* ===== verification/Usage.thy ===== *)
theory Usage
  imports Normalize LogRollup
begin

text \<open>
  Counters and refusals of infrastructure ingestion: the daily tally that quotas are enforced from
  and the hourly counters that source health is read from (\<open>business/domain/usagebus\<close>), and the
  capped sample of refused records (\<open>business/domain/rejectbus\<close>). Sums of counters are taken to fit
  a BIGINT.
\<close>

subsection \<open>Quotas\<close>

record usage =
  us_source :: uuid
  us_org :: uuid
  us_project :: uuid
  us_day :: instant
  us_events :: int
  us_bytes :: int
  us_dropped :: int
  us_errors :: int
  us_rejects :: int

record quota_status =
  qs_quota :: int
  qs_used :: int

definition quota_exceeded :: "quota_status \<Rightarrow> bool" where
  "quota_exceeded q \<longleftrightarrow> 0 \<le> qs_quota q \<and> qs_quota q \<le> qs_used q"

text \<open>A \<open>DATE\<close> keeps the day of a time.\<close>

definition utc_day :: "instant \<Rightarrow> instant" where
  "utc_day t = time_truncate t (24 * go_hour)"

definition org_plans :: "log_world \<Rightarrow> uuid \<Rightarrow> plan_row list" where
  "org_plans w org = concat (map (\<lambda>s. filter (\<lambda>p. pl_id p = snd s) (lw_plans w))
     (filter (\<lambda>s. fst s = org) (lw_subscriptions w)))"

text \<open>Any error reads as no limit, that of the database as well as a missing subscription.\<close>

definition plan_quota :: "(plan_row \<Rightarrow> int option) \<Rightarrow> uuid \<Rightarrow> int log_op" where
  "plan_quota feature org = case_op
     (log_call (\<lambda>w. case org_plans w org of
        [] \<Rightarrow> (Inl Err_log_not_found, w)
      | p # _ \<Rightarrow> (Inr (case feature p of None \<Rightarrow> -1 | Some q \<Rightarrow> q), w)))
     (\<lambda>_. ret_op (-1)) ret_op"

abbreviation s_quota :: "uuid \<Rightarrow> int log_op" where "s_quota \<equiv> plan_quota pl_infra_quota"
abbreviation s_app_quota :: "uuid \<Rightarrow> int log_op" where "s_app_quota \<equiv> plan_quota pl_app_quota"

definition s_used_today :: "uuid \<Rightarrow> instant \<Rightarrow> int log_op" where
  "s_used_today org day = log_call (\<lambda>w.
     (Inr (sum_list (map ug_events (filter (\<lambda>u. ug_org u = org \<and> ug_day u = utc_day day) (lw_usage w)))), w))"

definition check_quota :: "uuid \<Rightarrow> instant \<Rightarrow> quota_status log_op" where
  "check_quota org day = try_op (s_quota org) (\<lambda>quota. try_op (s_used_today org day) (\<lambda>used.
     ret_op \<lparr> qs_quota = quota, qs_used = used \<rparr>))"

definition s_app_used_today :: "uuid \<Rightarrow> instant \<Rightarrow> int log_op" where
  "s_app_used_today org day = log_call (\<lambda>w.
     (Inr (sum_list (map au_events (filter (\<lambda>u. au_org u = org \<and> au_day u = utc_day day) (lw_app_usage w)))), w))"

definition check_app_quota :: "uuid \<Rightarrow> instant \<Rightarrow> quota_status log_op" where
  "check_app_quota org day = try_op (s_app_quota org) (\<lambda>quota. try_op (s_app_used_today org day) (\<lambda>used.
     ret_op \<lparr> qs_quota = quota, qs_used = used \<rparr>))"

subsection \<open>Counters\<close>

definition fold_usage :: "usage \<Rightarrow> usage_row list \<Rightarrow> usage_row list" where
  "fold_usage u rows =
     (let same = (\<lambda>r. ug_source r = us_source u \<and> ug_day r = utc_day (us_day u)) in
      if list_ex same rows
      then update_where same (\<lambda>r. r\<lparr> ug_events := ug_events r + us_events u, ug_bytes := ug_bytes r + us_bytes u,
        ug_dropped := ug_dropped r + us_dropped u \<rparr>) rows
      else rows @ [\<lparr> ug_source = us_source u, ug_org = us_org u, ug_project = us_project u,
        ug_day = utc_day (us_day u), ug_events = us_events u, ug_bytes = us_bytes u, ug_dropped = us_dropped u \<rparr>])"

definition fold_hour :: "usage \<Rightarrow> source_hour list \<Rightarrow> source_hour list" where
  "fold_hour u rows =
     (let same = (\<lambda>r. sh_source r = us_source u \<and> sh_hour r = utc_hour (us_day u)) in
      if list_ex same rows
      then update_where same (\<lambda>r. r\<lparr> sh_events := sh_events r + us_events u, sh_errors := sh_errors r + us_errors u,
        sh_dropped := sh_dropped r + us_dropped u, sh_rejects := sh_rejects r + us_rejects u \<rparr>) rows
      else rows @ [\<lparr> sh_source = us_source u, sh_hour = utc_hour (us_day u), sh_events = us_events u,
        sh_errors = us_errors u, sh_dropped = us_dropped u, sh_rejects = us_rejects u \<rparr>])"

definition s_daily :: "usage \<Rightarrow> unit log_op" where
  "s_daily u = log_call (\<lambda>w.
     if us_source u \<in> sc_id ` set (lw_sources w) then (Inr (), w\<lparr> lw_usage := fold_usage u (lw_usage w) \<rparr>)
     else (Inl Err_log_db, w))"

definition s_hourly :: "usage \<Rightarrow> unit log_op" where
  "s_hourly u = log_call (\<lambda>w.
     if us_source u \<in> sc_id ` set (lw_sources w)
     then (Inr (), w\<lparr> lw_source_hours := fold_hour u (lw_source_hours w) \<rparr>)
     else (Inl Err_log_db, w))"

definition s_record :: "usage \<Rightarrow> unit log_op" where
  "s_record u = try_op (log_call (ret_op ())) (\<lambda>_. tx_op (
     try_op (s_daily u) (\<lambda>_. try_op (s_hourly u) (\<lambda>_. commit))))"

definition record_delta :: "usage \<Rightarrow> unit log_op" where
  "record_delta u = s_record u"

definition fold_app_usage :: "app_usage_row \<Rightarrow> app_usage_row list \<Rightarrow> app_usage_row list" where
  "fold_app_usage u rows =
     (let same = (\<lambda>r. au_project r = au_project u \<and> au_day r = utc_day (au_day u)) in
      if list_ex same rows
      then update_where same (\<lambda>r. r\<lparr> au_events := au_events r + au_events u, au_bytes := au_bytes r + au_bytes u \<rparr>) rows
      else rows @ [u\<lparr> au_day := utc_day (au_day u) \<rparr>])"

definition s_record_app :: "app_usage_row \<Rightarrow> unit log_op" where
  "s_record_app u = log_call (\<lambda>w.
     if au_project u \<in> pr_id ` set (lw_projects w) then (Inr (), w\<lparr> lw_app_usage := fold_app_usage u (lw_app_usage w) \<rparr>)
     else (Inl Err_log_db, w))"

record project_usage =
  pu_project :: uuid
  pu_events :: int
  pu_bytes :: int
  pu_dropped :: int

text \<open>
  One project's totals of both tables; the name of the project, by which equal counts are ordered, is
  left out, so the rows come in the order of their events.
\<close>

definition project_totals :: "log_world \<Rightarrow> uuid \<Rightarrow> instant \<Rightarrow> instant \<Rightarrow> uuid \<Rightarrow> project_usage" where
  "project_totals w org from to project =
     (let infra = filter (\<lambda>u. ug_project u = project \<and> ug_org u = org \<and> from \<le> ug_day u \<and> ug_day u < to) (lw_usage w);
        app = filter (\<lambda>u. au_project u = project \<and> au_org u = org \<and> from \<le> au_day u \<and> au_day u < to) (lw_app_usage w)
      in \<lparr> pu_project = project, pu_events = sum_list (map ug_events infra) + sum_list (map au_events app),
        pu_bytes = sum_list (map ug_bytes infra) + sum_list (map au_bytes app),
        pu_dropped = sum_list (map ug_dropped infra) \<rparr>)"

definition used_projects :: "log_world \<Rightarrow> uuid \<Rightarrow> instant \<Rightarrow> instant \<Rightarrow> uuid list" where
  "used_projects w org from to = remdups
     (map ug_project (filter (\<lambda>u. ug_org u = org \<and> from \<le> ug_day u \<and> ug_day u < to) (lw_usage w)) @
      map au_project (filter (\<lambda>u. au_org u = org \<and> from \<le> au_day u \<and> au_day u < to) (lw_app_usage w)))"

definition s_usage_by_org :: "uuid \<Rightarrow> instant \<Rightarrow> instant \<Rightarrow> project_usage list log_op" where
  "s_usage_by_org org from to = log_call (\<lambda>w.
     (Inr (sort_key (\<lambda>p. - pu_events p) (map (project_totals w org from to) (used_projects w org from to))), w))"

record org_usage =
  ou_from :: instant
  ou_to :: instant
  ou_projects :: "project_usage list"
  ou_events :: int
  ou_bytes :: int
  ou_dropped :: int

definition query_usage_by_org :: "uuid \<Rightarrow> instant \<Rightarrow> instant \<Rightarrow> org_usage log_op" where
  "query_usage_by_org org from to =
     (let from = utc_day from; to = utc_day to in
      if to \<le> from then fail_op Err_day_range
      else try_op (s_usage_by_org org from to) (\<lambda>ps. ret_op
        \<lparr> ou_from = from, ou_to = to, ou_projects = ps, ou_events = sum_list (map pu_events ps),
          ou_bytes = sum_list (map pu_bytes ps), ou_dropped = sum_list (map pu_dropped ps) \<rparr>))"

record source_counters =
  so_events :: int
  so_errors :: int
  so_dropped :: int

definition counters_of :: "source_hour list \<Rightarrow> source_counters" where
  "counters_of rows = \<lparr> so_events = sum_list (map sh_events rows), so_errors = sum_list (map sh_errors rows),
     so_dropped = sum_list (map sh_dropped rows) \<rparr>"

definition error_rate :: "source_counters \<Rightarrow> rat" where
  "error_rate c = (if so_events c \<le> 0 then 0 else of_int (so_errors c) / of_int (so_events c))"

text \<open>Sources without rows are absent from the answer.\<close>

definition s_source_counters :: "uuid list \<Rightarrow> instant \<Rightarrow> (uuid \<rightharpoonup> source_counters) log_op" where
  "s_source_counters ids from = log_call (\<lambda>w. (Inr (\<lambda>i.
     let rows = filter (\<lambda>r. sh_source r = i \<and> i \<in> set ids \<and> utc_hour from \<le> sh_hour r) (lw_source_hours w)
     in if rows = [] then None else Some (counters_of rows)), w))"

definition query_source_counters :: "uuid list \<Rightarrow> instant \<Rightarrow> (uuid \<rightharpoonup> source_counters) log_op" where
  "query_source_counters ids from = (if ids = [] then ret_op Map.empty else s_source_counters ids from)"

definition s_source_buckets :: "uuid \<Rightarrow> instant \<Rightarrow> instant \<Rightarrow> source_hour list log_op" where
  "s_source_buckets i from to = log_call (\<lambda>w. (Inr (sort_key sh_hour
     (filter (\<lambda>r. sh_source r = i \<and> utc_hour from \<le> sh_hour r \<and> sh_hour r < pg_time to) (lw_source_hours w))), w))"

subsection \<open>Refused records\<close>

abbreviation kind_parse :: string where "kind_parse \<equiv> ''parse''"
abbreviation kind_validate :: string where "kind_validate \<equiv> ''validate''"
abbreviation max_payload_bytes :: nat where "max_payload_bytes \<equiv> 4 * 1024"
abbreviation max_reason_len :: nat where "max_reason_len \<equiv> 500"
abbreviation default_hourly_cap :: int where "default_hourly_cap \<equiv> 100"

record new_reject =
  nj_source :: uuid
  nj_org :: uuid
  nj_project :: uuid
  nj_kind :: string
  nj_index :: nat
  nj_reason :: string
  nj_payload :: string

record reject_bus =
  rb_scrubber :: "redactor option"
  rb_cap :: int

definition new_reject_bus :: "redactor option \<Rightarrow> int \<Rightarrow> reject_bus" where
  "new_reject_bus scrubber cap = \<lparr> rb_scrubber = scrubber, rb_cap = (if cap \<le> 0 then default_hourly_cap else cap) \<rparr>"

abbreviation hour_start :: "instant \<Rightarrow> instant" where "hour_start \<equiv> utc_hour"

text \<open>\<open>truncate\<close> here is the one of the client errors, on whole runes and with the same mark.\<close>

abbreviation truncate_stored :: "string \<Rightarrow> nat \<Rightarrow> string" where "truncate_stored \<equiv> truncate_text"

definition s_count_since :: "uuid \<Rightarrow> instant \<Rightarrow> int log_op" where
  "s_count_since source since = log_call (\<lambda>w.
     (Inr (int (length (filter (\<lambda>r. rj_source r = source \<and> pg_time since \<le> rj_received r) (lw_rejects w)))), w))"

definition reject_ok :: "log_world \<Rightarrow> reject \<Rightarrow> bool" where
  "reject_ok w r \<longleftrightarrow> rj_kind r \<in> {kind_parse, kind_validate} \<and> pg_text (rj_reason r) \<and> pg_text (rj_payload r)
     \<and> rj_index r < 2 ^ 31 \<and> rj_source r \<in> sc_id ` set (lw_sources w) \<and> rj_project r \<in> pr_id ` set (lw_projects w)
     \<and> rj_org r \<in> fst ` set (lw_orgs w)"

definition s_store_rejects :: "reject list \<Rightarrow> nat log_op" where
  "s_store_rejects rows =
     (if rows = [] then ret_op 0
      else log_call (\<lambda>w.
        if list_all (reject_ok w) rows \<and> distinct (map rj_id (lw_rejects w @ rows))
        then (Inr (length rows), w\<lparr> lw_rejects := lw_rejects w @ map (\<lambda>r. r\<lparr> rj_received := pg_time (rj_received r) \<rparr>) rows \<rparr>)
        else (Inl Err_log_db, w)))"

definition reject_of :: "reject_bus \<Rightarrow> instant \<Rightarrow> uuid \<Rightarrow> new_reject \<Rightarrow> reject" where
  "reject_of b now i r = \<lparr> rj_id = i, rj_source = nj_source r, rj_org = nj_org r, rj_project = nj_project r,
     rj_kind = (if nj_kind r \<noteq> kind_parse \<and> nj_kind r \<noteq> kind_validate then kind_validate else nj_kind r),
     rj_index = nj_index r, rj_reason = truncate_stored (nj_reason r) max_reason_len,
     rj_payload = truncate_stored (case rb_scrubber b of None \<Rightarrow> nj_payload r | Some red \<Rightarrow> redact_string red (nj_payload r))
       max_payload_bytes,
     rj_received = now \<rparr>"

fun new_rejects :: "reject_bus \<Rightarrow> instant \<Rightarrow> new_reject list \<Rightarrow> reject list log_op" where
  "new_rejects b now [] = ret_op []"
| "new_rejects b now (r # rs) = try_op fresh_log_id (\<lambda>i. try_op (new_rejects b now rs) (\<lambda>out.
     ret_op (reject_of b now i r # out)))"

text \<open>
  \<open>Store\<close> in the three steps between which other requests run: the count, whose answer bounds what is
  kept; the time and the rows; the insert.
\<close>

definition reject_room :: "reject_bus \<Rightarrow> new_reject list \<Rightarrow> new_reject list log_op" where
  "reject_room b rejects w =
     (case rejects of
        [] \<Rightarrow> (Inr [], w)
      | r # _ \<Rightarrow>
          (case read_clock w of (t, w1) \<Rightarrow>
           try_op (s_count_since (nj_source r) (hour_start t)) (\<lambda>existing w2.
             let room = rb_cap b - existing in
             if room \<le> 0 then (Inr [], w2) else (Inr (take (nat room) rejects), w2)) w1))"

definition stamp_rejects :: "reject_bus \<Rightarrow> new_reject list \<Rightarrow> reject list log_op" where
  "stamp_rejects b rejects w = (case read_clock w of (now, w1) \<Rightarrow> new_rejects b now rejects w1)"

definition store_rejects :: "reject_bus \<Rightarrow> new_reject list \<Rightarrow> nat log_op" where
  "store_rejects b rejects = try_op (reject_room b rejects) (\<lambda>kept.
     if kept = [] then ret_op 0 else try_op (stamp_rejects b kept) s_store_rejects)"

end
