(* ===== verification/Ingest.thy ===== *)
theory Ingest
  imports Usage TokenBucket Fingerprint "HOL-Library.List_Lexorder" "HOL-Library.Char_ord"
begin

text \<open>
  The two listeners of infrastructure logs (\<open>app/domain/ingestapp\<close>): the HTTP bulk endpoint with its
  parser, the OTLP endpoint with its mapping of resources and attributes, and the pipeline both
  end in. What a request leaves to a goroutine is a job, run later or never. The decoded OTLP
  message, the text of a decoding error, of a marshalled record and of a double are given by the
  caller; so are the random numbers of the sampling.
\<close>

subsection \<open>Records of a request\<close>

abbreviation max_body_bytes :: nat where "max_body_bytes \<equiv> 8 * 2 ^ 20"
abbreviation max_records :: nat where "max_records \<equiv> 10000"
abbreviation touch_interval :: duration where "touch_interval \<equiv> 10 * go_second"

record bulk_record =
  br_level :: string
  br_message :: string
  br_source :: string
  br_ts :: "string option"
  br_tags :: "string list"
  br_infra :: infra
  br_attributes :: "members option"

definition no_infra :: infra where
  "no_infra = \<lparr> in_host = [], in_container = [], in_pod = [], in_namespace = [], in_cluster = [], in_unit = [],
     in_facility = [], in_region = [], in_cloud_resource = [] \<rparr>"

definition empty_bulk_record :: bulk_record where
  "empty_bulk_record = \<lparr> br_level = [], br_message = [], br_source = [], br_ts = None, br_tags = [],
     br_infra = no_infra, br_attributes = None \<rparr>"

record record_error =
  re_index :: nat
  re_error :: string
  re_kind :: string
  re_payload :: string

record ingest_texts =
  it_error :: "string \<Rightarrow> string"
  it_marshal :: "bulk_record \<Rightarrow> string"
  it_double :: "go_float \<Rightarrow> string"

subsection \<open>Decoding a record\<close>

text \<open>A field of type \<open>string\<close>: a string is taken, null changes nothing.\<close>

definition string_field :: "(string \<Rightarrow> bulk_record \<Rightarrow> bulk_record) \<Rightarrow> json \<Rightarrow> bulk_record \<Rightarrow> bulk_record option" where
  "string_field put v r = (case v of J_string s \<Rightarrow> Some (put s r) | J_null \<Rightarrow> Some r | _ \<Rightarrow> None)"

definition infra_field :: "(string \<Rightarrow> infra \<Rightarrow> infra) \<Rightarrow> json \<Rightarrow> bulk_record \<Rightarrow> bulk_record option" where
  "infra_field put = string_field (\<lambda>s r. r\<lparr> br_infra := put s (br_infra r) \<rparr>)"

definition ts_field :: "json \<Rightarrow> bulk_record \<Rightarrow> bulk_record option" where
  "ts_field v r = (case v of J_string s \<Rightarrow> Some (r\<lparr> br_ts := Some s \<rparr>) | J_null \<Rightarrow> Some (r\<lparr> br_ts := None \<rparr>) | _ \<Rightarrow> None)"

text \<open>A slice that is decoded again keeps its elements where the new one has null.\<close>

fun string_elements :: "string list \<Rightarrow> json list \<Rightarrow> string list option" where
  "string_elements old [] = Some []"
| "string_elements old (v # vs) =
     (case (case v of J_string s \<Rightarrow> Some s | J_null \<Rightarrow> Some (if old = [] then [] else hd old) | _ \<Rightarrow> None) of
        None \<Rightarrow> None
      | Some s \<Rightarrow> map_option (\<lambda>ss. s # ss) (string_elements (drop 1 old) vs))"

definition tags_field :: "json \<Rightarrow> bulk_record \<Rightarrow> bulk_record option" where
  "tags_field v r =
     (case v of
        J_null \<Rightarrow> Some (r\<lparr> br_tags := [] \<rparr>)
      | J_array vs \<Rightarrow> map_option (\<lambda>ss. r\<lparr> br_tags := ss \<rparr>) (string_elements (br_tags r) vs)
      | _ \<Rightarrow> None)"

definition attributes_field :: "json \<Rightarrow> bulk_record \<Rightarrow> bulk_record option" where
  "attributes_field v r =
     (case v of
        J_null \<Rightarrow> Some (r\<lparr> br_attributes := None \<rparr>)
      | J_object m \<Rightarrow>
          map_option (\<lambda>m. r\<lparr> br_attributes := Some (foldl (\<lambda>m (k, v). put_member k v m) (map_column (br_attributes r)) m) \<rparr>)
            (those (map (\<lambda>(k, v). map_option (Pair k) (as_any v)) m))
      | _ \<Rightarrow> None)"

definition record_fields :: "(string \<times> (json \<Rightarrow> bulk_record \<Rightarrow> bulk_record option)) list" where
  "record_fields =
     [(''level'', string_field (\<lambda>s r. r\<lparr> br_level := s \<rparr>)), (''message'', string_field (\<lambda>s r. r\<lparr> br_message := s \<rparr>)),
      (''source'', string_field (\<lambda>s r. r\<lparr> br_source := s \<rparr>)), (''ts'', ts_field), (''tags'', tags_field),
      (''host'', infra_field (\<lambda>s i. i\<lparr> in_host := s \<rparr>)), (''container'', infra_field (\<lambda>s i. i\<lparr> in_container := s \<rparr>)),
      (''pod'', infra_field (\<lambda>s i. i\<lparr> in_pod := s \<rparr>)), (''namespace'', infra_field (\<lambda>s i. i\<lparr> in_namespace := s \<rparr>)),
      (''cluster'', infra_field (\<lambda>s i. i\<lparr> in_cluster := s \<rparr>)), (''unit'', infra_field (\<lambda>s i. i\<lparr> in_unit := s \<rparr>)),
      (''facility'', infra_field (\<lambda>s i. i\<lparr> in_facility := s \<rparr>)), (''region'', infra_field (\<lambda>s i. i\<lparr> in_region := s \<rparr>)),
      (''cloudResourceId'', infra_field (\<lambda>s i. i\<lparr> in_cloud_resource := s \<rparr>)), (''attributes'', attributes_field)]"

text \<open>The field of a key: by its exact name, else by its name under folding; other keys are skipped.\<close>

definition set_field :: "string \<times> json \<Rightarrow> bulk_record \<Rightarrow> bulk_record option" where
  "set_field kv r =
     (case map_of record_fields (fst kv) of
        Some put \<Rightarrow> put (snd kv) r
      | None \<Rightarrow> (case List.find (\<lambda>f. equal_fold (fst f) (fst kv)) record_fields of
          Some (_, put) \<Rightarrow> put (snd kv) r | None \<Rightarrow> Some r))"

definition decode_record :: "json \<Rightarrow> bulk_record option" where
  "decode_record v =
     (case v of
        J_null \<Rightarrow> Some empty_bulk_record
      | J_object m \<Rightarrow> foldl (\<lambda>r kv. Option.bind r (set_field kv)) (Some empty_bulk_record) m
      | _ \<Rightarrow> None)"

definition unmarshal_record :: "string \<Rightarrow> bulk_record option" where
  "unmarshal_record s = Option.bind (decode_json s) decode_record"

definition unmarshal_records :: "string \<Rightarrow> bulk_record list option" where
  "unmarshal_records s =
     (case decode_json s of Some (J_array vs) \<Rightarrow> those (map decode_record vs) | _ \<Rightarrow> None)"

subsection \<open>Parsing a body\<close>

text \<open>\<open>None\<close> is a body that cannot be read.\<close>

definition read_limited :: "string option \<Rightarrow> nat \<Rightarrow> string option" where
  "read_limited body limit = (case body of None \<Rightarrow> None | Some s \<Rightarrow> if limit < length s then None else Some s)"

definition parse_error :: "ingest_texts \<Rightarrow> nat \<Rightarrow> string \<Rightarrow> string \<Rightarrow> record_error" where
  "parse_error tx i what s = \<lparr> re_index = i, re_error = what @ it_error tx s, re_kind = kind_parse, re_payload = s \<rparr>"

fun parse_lines :: "ingest_texts \<Rightarrow> nat \<Rightarrow> string list \<Rightarrow> bulk_record list \<times> record_error list" where
  "parse_lines tx i [] = ([], [])"
| "parse_lines tx i (l # ls) =
     (let line = trim_space l; (recs, errs) = parse_lines tx (i + 1) ls in
      if line = [] then (recs, errs)
      else case unmarshal_record line of
        None \<Rightarrow> (recs, parse_error tx i ''invalid JSON: '' line # errs)
      | Some r \<Rightarrow> (r # recs, errs))"

definition parse_records :: "ingest_texts \<Rightarrow> string \<Rightarrow> string \<Rightarrow> bulk_record list \<times> record_error list" where
  "parse_records tx content_type body =
     (let trimmed = trim_space body; ndjson = contains (to_lower content_type) ''ndjson'' in
      if trimmed = [] then ([], [])
      else if \<not> ndjson \<and> hd trimmed = CHR ''['' then
        (case unmarshal_records trimmed of
           None \<Rightarrow> ([], [parse_error tx 0 ''invalid JSON array: '' trimmed])
         | Some arr \<Rightarrow> (arr, []))
      else if \<not> ndjson \<and> hd trimmed = CHR ''{'' \<and> CHR 0x0A \<notin> set trimmed then
        (case unmarshal_record trimmed of
           None \<Rightarrow> ([], [parse_error tx 0 ''invalid JSON object: '' trimmed])
         | Some one \<Rightarrow> ([one], []))
      else parse_lines tx 0 (split_lines trimmed))"

definition normalize_level :: "string \<Rightarrow> string" where
  "normalize_level s = to_upper (trim_space s)"

definition parse_timestamp :: "string option \<Rightarrow> instant \<Rightarrow> instant" where
  "parse_timestamp ts now =
     (case ts of
        None \<Rightarrow> now
      | Some s \<Rightarrow>
          if s = [] then now
          else case parse_rfc3339 s of
            Some t \<Rightarrow> t
          | None \<Rightarrow> (case parse_rfc3339_millis s of Some t \<Rightarrow> t | None \<Rightarrow> now))"

definition bulk_to_record :: "source \<Rightarrow> bulk_record \<Rightarrow> instant \<Rightarrow> string + ingest_record" where
  "bulk_to_record src rec now =
     (if br_message rec = [] then Inl ''message is required''
      else Inr \<lparr> ir_level = (if br_level rec = [] then log_info
          else case parse_log_level (normalize_level (br_level rec)) of Inr l \<Rightarrow> l | Inl _ \<Rightarrow> log_info),
        ir_message = br_message rec, ir_source = (if br_source rec = [] then sc_kind src else br_source rec),
        ir_ts = parse_timestamp (br_ts rec) now, ir_tags = br_tags rec, ir_infra = br_infra rec,
        ir_attributes = Some (map_column (br_attributes rec)) \<rparr>)"

text \<open>The records that pass and the errors of the others, by their place among the parsed ones.\<close>

fun validate_records ::
  "ingest_texts \<Rightarrow> source \<Rightarrow> instant \<Rightarrow> nat \<Rightarrow> bulk_record list \<Rightarrow> ingest_record list \<times> record_error list" where
  "validate_records tx src now i [] = ([], [])"
| "validate_records tx src now i (br # brs) =
     (let (recs, errs) = validate_records tx src now (i + 1) brs in
      case bulk_to_record src br now of
        Inl e \<Rightarrow> (recs, \<lparr> re_index = i, re_error = e, re_kind = kind_validate, re_payload = it_marshal tx br \<rparr> # errs)
      | Inr rec \<Rightarrow> (rec # recs, errs))"

subsection \<open>The pipeline\<close>

record ingest_app =
  ia_limiter :: ingest_limiter
  ia_touch :: "uuid \<rightharpoonup> instant"
  ia_metered :: bool
  ia_rejects :: "reject_bus option"
  ia_redactor :: redactor

datatype ingest_reply =
    Ingested nat nat "record_error list"
  | Throttled int string
  | Unreadable_body
  | No_records
  | Too_many_records nat
  | Undecodable_payload
  | Bulk_failed log_error

text \<open>
  The goroutines a request leaves. The one of the refusals is a \<open>Job_rejects\<close> until it has counted, a
  \<open>Job_stamp\<close> with what it will keep until it has the rows, and a \<open>Job_insert\<close> until they are stored.
\<close>

datatype ingest_job = Job_usage usage | Job_rejects "new_reject list" | Job_stamp "new_reject list"
  | Job_insert "reject list" | Job_touch uuid instant

definition throttled :: "duration \<Rightarrow> string \<Rightarrow> ingest_reply" where
  "throttled retry msg = Throttled (max (float_trunc (seconds retry)) 1) msg"

definition record_to_new_log :: "source \<Rightarrow> ingest_record \<Rightarrow> new_log" where
  "record_to_new_log src rec = \<lparr> nl_project = sc_project src, nl_level = ir_level rec, nl_message = ir_message rec,
     nl_source = ir_source rec, nl_ts = ir_ts rec, nl_tags = ir_tags rec, nl_meta = None,
     nl_source_type = source_type_infra, nl_source_id = Some (sc_id src), nl_infra = ir_infra rec,
     nl_attributes = ir_attributes rec \<rparr>"

text \<open>\<open>roll i\<close> is the random number drawn for the record at place \<open>i\<close>.\<close>

fun sample_records ::
  "source \<Rightarrow> instant \<Rightarrow> redactor \<Rightarrow> (nat \<Rightarrow> rat) \<Rightarrow> nat \<Rightarrow> ingest_record list \<Rightarrow> new_log list \<times> nat" where
  "sample_records src now red roll i [] = ([], 0)"
| "sample_records src now red roll i (rec # recs) =
     (let rec = normalize rec now (Some red); (logs, dropped) = sample_records src now red roll (i + 1) recs in
      if \<not> keep_record (ir_level rec) (sc_sample src) (roll i) then (logs, dropped + 1)
      else (record_to_new_log src rec # logs, dropped))"

definition over_quota :: "ingest_app \<Rightarrow> source \<Rightarrow> instant \<Rightarrow> log_world \<Rightarrow> bool \<times> log_world" where
  "over_quota a src now w =
     (if \<not> ia_metered a then (False, w)
      else case check_quota (sc_org src) now w of
        (Inl e, w1) \<Rightarrow> (False, w1) | (Inr status, w1) \<Rightarrow> (quota_exceeded status, w1))"

definition usage_jobs :: "ingest_app \<Rightarrow> source \<Rightarrow> instant \<Rightarrow> nat \<Rightarrow> nat \<Rightarrow> nat \<Rightarrow> nat \<Rightarrow> nat \<Rightarrow> ingest_job list" where
  "usage_jobs a src now accepted bytes dropped errored rejected =
     (if \<not> ia_metered a then []
      else [Job_usage \<lparr> us_source = sc_id src, us_org = sc_org src, us_project = sc_project src, us_day = now,
        us_events = int accepted, us_bytes = int bytes, us_dropped = int dropped, us_errors = int errored,
        us_rejects = int rejected \<rparr>])"

definition reject_jobs :: "ingest_app \<Rightarrow> source \<Rightarrow> record_error list \<Rightarrow> ingest_job list" where
  "reject_jobs a src errs =
     (if ia_rejects a = None \<or> errs = [] then []
      else [Job_rejects (map (\<lambda>e. \<lparr> nj_source = sc_id src, nj_org = sc_org src, nj_project = sc_project src,
        nj_kind = re_kind e, nj_index = re_index e, nj_reason = re_error e, nj_payload = re_payload e \<rparr>) errs)])"

definition touch_last_seen :: "uuid \<Rightarrow> instant \<Rightarrow> ingest_app \<Rightarrow> ingest_job list \<times> ingest_app" where
  "touch_last_seen i now a =
     (case ia_touch a i of
        Some prev \<Rightarrow> if time_sub now prev < touch_interval then ([], a)
          else ([Job_touch i now], a\<lparr> ia_touch := (ia_touch a)(i \<mapsto> now) \<rparr>)
      | None \<Rightarrow> ([Job_touch i now], a\<lparr> ia_touch := (ia_touch a)(i \<mapsto> now) \<rparr>))"

text \<open>What a request leaves: the reply, the jobs and the entries sent to the live tail.\<close>

record ingest_outcome =
  io_reply :: ingest_reply
  io_jobs :: "ingest_job list"
  io_broadcast :: "log_entry list"

definition refused :: "ingest_reply \<Rightarrow> ingest_outcome" where
  "refused r = \<lparr> io_reply = r, io_jobs = [], io_broadcast = [] \<rparr>"

definition finish ::
  "ingest_app \<Rightarrow> source \<Rightarrow> instant \<Rightarrow> log_entry list \<Rightarrow> nat \<Rightarrow> nat \<Rightarrow> record_error list \<Rightarrow> ingest_outcome \<times> ingest_app" where
  "finish a src now logs bytes dropped errs =
     (case touch_last_seen (sc_id src) now a of (touches, a') \<Rightarrow>
        (\<lparr> io_reply = Ingested (length logs) (length errs) errs,
           io_jobs = usage_jobs a src now (length logs) bytes dropped
             (length (filter (\<lambda>l. lg_level l = log_err) logs)) (length errs) @ reject_jobs a src errs @ touches,
           io_broadcast = logs \<rparr>, a'))"

definition process ::
  "source \<Rightarrow> ingest_record list \<Rightarrow> record_error list \<Rightarrow> nat \<Rightarrow> (nat \<Rightarrow> rat) \<Rightarrow> ingest_app \<Rightarrow> log_world \<Rightarrow>
    (ingest_outcome \<times> ingest_app) \<times> log_world" where
  "process src recs errs body_len roll a w =
     (case read_clock w of (now, w1) \<Rightarrow>
      case allow_n (sc_id src) (sc_rate src) (sc_burst src) (length recs) now (ia_limiter a) of ((ok, retry), l) \<Rightarrow>
      let a = a\<lparr> ia_limiter := l \<rparr> in
      if \<not> ok then ((refused (throttled retry ''rate limit exceeded''), a), w1)
      else (case over_quota a src now w1 of (over, w2) \<Rightarrow>
        if over then ((refused (throttled go_hour ''daily ingest quota exceeded''), a), w2)
        else (case sample_records src now (ia_redactor a) roll 0 recs of (logs, dropped) \<Rightarrow>
          if logs = [] then (finish a src now [] body_len dropped errs, w2)
          else (case bulk_create logs w2 of
              (Inl e, w3) \<Rightarrow> ((refused (Bulk_failed e), a), w3)
            | (Inr stored, w3) \<Rightarrow> (finish a src now stored body_len dropped errs, w3)))))"

definition bulk ::
  "ingest_texts \<Rightarrow> source \<Rightarrow> string \<Rightarrow> string option \<Rightarrow> (nat \<Rightarrow> rat) \<Rightarrow> ingest_app \<Rightarrow> log_world \<Rightarrow>
    (ingest_outcome \<times> ingest_app) \<times> log_world" where
  "bulk tx src content_type raw roll a w =
     (case read_limited raw max_body_bytes of
        None \<Rightarrow> ((refused Unreadable_body, a), w)
      | Some body \<Rightarrow>
          (case parse_records tx content_type body of (parsed, parse_errs) \<Rightarrow>
             if parsed = [] \<and> parse_errs = [] then ((refused No_records, a), w)
             else if max_records < length parsed then ((refused (Too_many_records (length parsed)), a), w)
             else (case read_clock w of (now, w1) \<Rightarrow>
               case validate_records tx src now 0 parsed of (recs, errs) \<Rightarrow>
                 process src recs (parse_errs @ errs) (length body) roll a w1)))"

text \<open>The jobs, each of which reports its own failure and no more.\<close>

definition s_touch :: "uuid \<Rightarrow> instant \<Rightarrow> unit log_op" where
  "s_touch i t = log_call (\<lambda>w. (Inr (), w\<lparr> lw_sources :=
     update_where (\<lambda>s. sc_id s = i) (\<lambda>s. s\<lparr> sc_seen := Some (pg_time t) \<rparr>) (lw_sources w) \<rparr>))"

text \<open>One step of a job: what is left of it, and the world after the step.\<close>

fun run_job :: "reject_bus option \<Rightarrow> ingest_job \<Rightarrow> log_world \<Rightarrow> ingest_job list \<times> log_world" where
  "run_job rb (Job_usage u) w = ([], snd (record_delta u w))"
| "run_job rb (Job_rejects rs) w =
     (case rb of
        None \<Rightarrow> ([], w)
      | Some b \<Rightarrow> (case reject_room b rs w of
            (Inl e, w1) \<Rightarrow> ([], w1)
          | (Inr kept, w1) \<Rightarrow> (if kept = [] then [] else [Job_stamp kept], w1)))"
| "run_job rb (Job_stamp rs) w =
     (case rb of
        None \<Rightarrow> ([], w)
      | Some b \<Rightarrow> (case stamp_rejects b rs w of (Inl e, w1) \<Rightarrow> ([], w1) | (Inr rows, w1) \<Rightarrow> ([Job_insert rows], w1)))"
| "run_job rb (Job_insert rows) w = ([], snd (s_store_rejects rows w))"
| "run_job rb (Job_touch i t) w = ([], snd (s_touch i t w))"

text \<open>Run step after step with nothing in between, a job of refusals is the whole call.\<close>

fun run_job_alone :: "reject_bus option \<Rightarrow> nat \<Rightarrow> ingest_job list \<times> log_world \<Rightarrow> ingest_job list \<times> log_world" where
  "run_job_alone rb (Suc n) ([j], w) = run_job_alone rb n (run_job rb j w)"
| "run_job_alone rb n (js, w) = (js, w)"

lemma new_rejects_answer: "\<exists>out w'. new_rejects b now rs w = (Inr out, w')"
proof (induction rs arbitrary: w)
  case (Cons r rs)
  obtain out w' where "new_rejects b now rs (w\<lparr> lw_fresh := Suc (lw_fresh w) \<rparr>) = (Inr out, w')" using Cons by blast
  then show ?case by (simp add: fresh_log_id_def)
qed simp

lemma run_job_alone_stores: "run_job_alone (Some b) 3 ([Job_rejects rs], w) = ([], snd (store_rejects b rs w))"
proof -
  obtain r1 w1 where c: "reject_room b rs w = (r1, w1)" by fastforce
  show ?thesis
  proof (cases r1)
    case (Inl e)
    then show ?thesis using c by (simp add: eval_nat_numeral store_rejects_def try_op_def)
  next
    case (Inr kept)
    obtain now w2 where t: "read_clock w1 = (now, w2)" by fastforce
    obtain out w3 where n: "new_rejects b now kept w2 = (Inr out, w3)" using new_rejects_answer by blast
    show ?thesis
      using c Inr t n by (simp add: eval_nat_numeral store_rejects_def stamp_rejects_def try_op_def ret_op_def)
  qed
qed

end
