(* ===== verification/Otlp.thy ===== *)
theory Otlp
  imports Ingest
begin

text \<open>
  The OTLP endpoint (\<open>app/domain/ingestapp/otlp.go\<close>): the mapping of decoded resource logs to
  records. The decoders of the two wire formats are given by the caller; a missing value and one of
  an unset kind are both \<open>AV_none\<close>.
\<close>

datatype any_value =
    AV_none
  | AV_string string
  | AV_bool bool
  | AV_int int
  | AV_double go_float
  | AV_bytes string
  | AV_array "any_value list"
  | AV_kvlist "(string \<times> any_value) list"

type_synonym key_values = "(string \<times> any_value) list"

record otlp_log =
  ol_attributes :: key_values
  ol_severity :: int
  ol_severity_text :: string
  ol_trace :: string
  ol_span :: string
  ol_time :: nat
  ol_observed :: nat
  ol_body :: any_value

record resource_logs =
  rl_resource :: "key_values option"
  rl_scopes :: "otlp_log list list"

type_synonym otlp_data = "resource_logs list"

record otlp_decoders =
  od_json :: "string \<Rightarrow> otlp_data option"
  od_proto :: "string \<Rightarrow> otlp_data option"

definition otlp_resource_attr_map :: "(string \<times> (string \<Rightarrow> infra \<Rightarrow> infra)) list" where
  "otlp_resource_attr_map =
     [(''host.name'', \<lambda>v i. i\<lparr> in_host := v \<rparr>), (''k8s.pod.name'', \<lambda>v i. i\<lparr> in_pod := v \<rparr>),
      (''k8s.namespace.name'', \<lambda>v i. i\<lparr> in_namespace := v \<rparr>), (''k8s.cluster.name'', \<lambda>v i. i\<lparr> in_cluster := v \<rparr>),
      (''k8s.container.name'', \<lambda>v i. i\<lparr> in_container := v \<rparr>), (''container.name'', \<lambda>v i. i\<lparr> in_container := v \<rparr>),
      (''service.name'', \<lambda>v i. i\<lparr> in_unit := v \<rparr>), (''cloud.region'', \<lambda>v i. i\<lparr> in_region := v \<rparr>),
      (''cloud.resource.id'', \<lambda>v i. i\<lparr> in_cloud_resource := v \<rparr>)]"

fun any_value_to_go :: "any_value \<Rightarrow> json" where
  "any_value_to_go AV_none = J_null"
| "any_value_to_go (AV_string s) = J_string s"
| "any_value_to_go (AV_bool b) = J_bool b"
| "any_value_to_go (AV_int n) = J_int n"
| "any_value_to_go (AV_double f) = J_float f"
| "any_value_to_go (AV_bytes s) = J_string (hex_encode s)"
| "any_value_to_go (AV_array vs) = J_array (map any_value_to_go vs)"
| "any_value_to_go (AV_kvlist kvs) =
     J_object (foldl (\<lambda>m (k, v). put_member k v m) [] (map (\<lambda>(k, v). (k, any_value_to_go v)) kvs))"

text \<open>\<open>fmt.Sprintf("%v")\<close> of such a value; a map is printed in the order of its keys.\<close>

fun join_with :: "string \<Rightarrow> string list \<Rightarrow> string" where
  "join_with sep [] = []"
| "join_with sep [s] = s"
| "join_with sep (s # t # ss) = s @ sep @ join_with sep (t # ss)"

fun show_value :: "(go_float \<Rightarrow> string) \<Rightarrow> json \<Rightarrow> string" where
  "show_value dbl J_null = ''<nil>''"
| "show_value dbl (J_bool b) = (if b then ''true'' else ''false'')"
| "show_value dbl (J_int n) = show_int n"
| "show_value dbl (J_float f) = dbl f"
| "show_value dbl (J_string s) = s"
| "show_value dbl (J_array vs) = ''['' @ join_with '' '' (map (show_value dbl) vs) @ '']''"
| "show_value dbl (J_object m) =
     ''map['' @ join_with '' '' (map (\<lambda>(k, t). k @ '':'' @ t)
       (sort_key fst (map (\<lambda>(k, v). (k, show_value dbl v)) m))) @ '']''"

definition any_value_to_string :: "(go_float \<Rightarrow> string) \<Rightarrow> any_value \<Rightarrow> string" where
  "any_value_to_string dbl v =
     (case any_value_to_go v of J_string s \<Rightarrow> s | J_null \<Rightarrow> [] | j \<Rightarrow> show_value dbl j)"

definition collect_attr :: "infra \<times> members \<Rightarrow> string \<times> any_value \<Rightarrow> infra \<times> members" where
  "collect_attr s kv =
     (case (map_of otlp_resource_attr_map (fst kv), any_value_to_go (snd kv)) of
        (Some put, J_string v) \<Rightarrow> (put v (fst s), snd s)
      | (_, v) \<Rightarrow> (fst s, put_member (fst kv) v (snd s)))"

definition collect_attrs :: "key_values \<Rightarrow> infra \<times> members \<Rightarrow> infra \<times> members" where
  "collect_attrs kvs s = foldl collect_attr s kvs"

definition unix_nano :: "nat \<Rightarrow> instant" where
  "unix_nano t = unix_epoch + wrap64 (int t)"

definition otlp_record :: "(go_float \<Rightarrow> string) \<Rightarrow> otlp_log \<Rightarrow> infra \<times> members \<Rightarrow> string \<Rightarrow> instant \<Rightarrow> ingest_record" where
  "otlp_record dbl lr resource default_source now =
     (case collect_attrs (ol_attributes lr) resource of (place, attrs) \<Rightarrow>
      let attrs = put_member severity_attr_key (J_int (ol_severity lr)) attrs;
        attrs = (if ol_severity_text lr = [] then attrs
          else put_member ''severity_text'' (J_string (ol_severity_text lr)) attrs);
        attrs = (if ol_trace lr = [] then attrs else put_member ''trace_id'' (J_string (hex_encode (ol_trace lr))) attrs);
        attrs = (if ol_span lr = [] then attrs else put_member ''span_id'' (J_string (hex_encode (ol_span lr))) attrs)
      in \<lparr> ir_level = otel_severity_to_level (ol_severity lr), ir_message = any_value_to_string dbl (ol_body lr),
           ir_source = default_source,
           ir_ts = (if 0 < ol_time lr then unix_nano (ol_time lr)
             else if 0 < ol_observed lr then unix_nano (ol_observed lr) else now),
           ir_tags = [], ir_infra = place, ir_attributes = Some attrs \<rparr>)"

definition otlp_to_records :: "(go_float \<Rightarrow> string) \<Rightarrow> otlp_data \<Rightarrow> string \<Rightarrow> instant \<Rightarrow> ingest_record list" where
  "otlp_to_records dbl rls default_source now = concat (map (\<lambda>rl.
     let resource = (case rl_resource rl of None \<Rightarrow> (no_infra, []) | Some kvs \<Rightarrow> collect_attrs kvs (no_infra, []))
     in concat (map (map (\<lambda>lr. otlp_record dbl lr resource default_source now)) (rl_scopes rl))) rls)"

definition otlp ::
  "ingest_texts \<Rightarrow> otlp_decoders \<Rightarrow> source \<Rightarrow> string \<Rightarrow> string option \<Rightarrow> (nat \<Rightarrow> rat) \<Rightarrow> ingest_app \<Rightarrow> log_world \<Rightarrow>
    (ingest_outcome \<times> ingest_app) \<times> log_world" where
  "otlp tx dec src content_type raw roll a w =
     (case read_limited raw max_body_bytes of
        None \<Rightarrow> ((refused Unreadable_body, a), w)
      | Some body \<Rightarrow>
          (case (if contains content_type ''json'' then od_json dec body else od_proto dec body) of
             None \<Rightarrow> ((refused Undecodable_payload, a), w)
           | Some rls \<Rightarrow>
               (case read_clock w of (now, w1) \<Rightarrow>
                let recs = otlp_to_records (it_double tx) rls (sc_kind src) now in
                if recs = [] then ((refused No_records, a), w1)
                else if max_records < length recs then ((refused (Too_many_records (length recs)), a), w1)
                else process src recs [] (length body) roll a w1)))"

end
