(* ===== verification/Logfmt.thy ===== *)
theory Logfmt
  imports Normalize
begin

text \<open>
  The logfmt reader against a writer: a line written from keys and values reads back as the values,
  typed. And what lifting fields out of a message does to its secrets.
\<close>

subsection \<open>A writer\<close>

text \<open>A quoted text has a backslash before each of its quotes and backslashes.\<close>

datatype logfmt_scalar = Bare string | Quoted string | Whole int | Quoted_whole int | Flag bool | Quoted_flag bool

fun escape_quotes :: "string \<Rightarrow> string" where
  "escape_quotes [] = []"
| "escape_quotes (c # s) = (if c = CHR 0x22 \<or> c = CHR 0x5C then CHR 0x5C # c # escape_quotes s else c # escape_quotes s)"

abbreviation in_quotes :: "string \<Rightarrow> string" where
  "in_quotes v \<equiv> CHR 0x22 # v @ [CHR 0x22]"

abbreviation flag_text :: "bool \<Rightarrow> string" where
  "flag_text b \<equiv> (if b then ''true'' else ''false'')"

fun logfmt_text :: "logfmt_scalar \<Rightarrow> string" where
  "logfmt_text (Bare v) = v"
| "logfmt_text (Quoted v) = in_quotes (escape_quotes v)"
| "logfmt_text (Whole n) = show_int n"
| "logfmt_text (Quoted_whole n) = in_quotes (show_int n)"
| "logfmt_text (Flag b) = flag_text b"
| "logfmt_text (Quoted_flag b) = in_quotes (flag_text b)"

text \<open>
  What a reader should make of it. The reader of the code leaves the backslashes in a quoted text,
  and gives a number or truth value its type inside quotes as well.
\<close>

fun logfmt_meaning :: "logfmt_scalar \<Rightarrow> json" where
  "logfmt_meaning (Bare v) = J_string v"
| "logfmt_meaning (Quoted v) = J_string (escape_quotes v)"
| "logfmt_meaning (Whole n) = J_int n"
| "logfmt_meaning (Quoted_whole n) = J_int n"
| "logfmt_meaning (Flag b) = J_bool b"
| "logfmt_meaning (Quoted_flag b) = J_bool b"

fun logfmt_line :: "(string \<times> logfmt_scalar) list \<Rightarrow> string" where
  "logfmt_line [] = []"
| "logfmt_line ((k, v) # ps) = k @ ''='' @ logfmt_text v @ (if ps = [] then [] else CHR '' '' # logfmt_line ps)"

text \<open>A text that reads as a truth value, or as a number for \<open>strconv\<close>.\<close>

definition reads_as_scalar :: "string \<Rightarrow> bool" where
  "reads_as_scalar v \<longleftrightarrow> v = ''true'' \<or> v = ''false'' \<or> parse_int64 v \<noteq> None \<or> parse_float v \<noteq> None"

fun logfmt_plain :: "logfmt_scalar \<Rightarrow> bool" where
  "logfmt_plain (Bare v) \<longleftrightarrow> CHR '' '' \<notin> set v \<and> (v \<noteq> [] \<longrightarrow> hd v \<noteq> CHR 0x22) \<and> \<not> reads_as_scalar v"
| "logfmt_plain (Quoted v) \<longleftrightarrow> \<not> reads_as_scalar (escape_quotes v)"
| "logfmt_plain (Whole n) \<longleftrightarrow> - (2 ^ 63) \<le> n \<and> n < 2 ^ 63"
| "logfmt_plain (Quoted_whole n) \<longleftrightarrow> - (2 ^ 63) \<le> n \<and> n < 2 ^ 63"
| "logfmt_plain _ \<longleftrightarrow> True"

definition logfmt_writable :: "(string \<times> logfmt_scalar) list \<Rightarrow> bool" where
  "logfmt_writable ps \<longleftrightarrow> ps \<noteq> [] \<and> distinct (map fst ps)
     \<and> list_all (\<lambda>(k, v). k \<noteq> [] \<and> list_all logfmt_key_char k \<and> logfmt_plain v) ps"

subsection \<open>Integers\<close>

lemma digit_digit_char: "digit (digit_char d)"
  by (simp add: digit_def)

lemma show_nat_digits: "list_all digit (show_nat n) \<and> show_nat n \<noteq> []"
proof (induction n rule: show_nat.induct)
  case (1 n)
  show ?case by (subst (1 2) show_nat.simps) (use 1 in \<open>simp add: digit_digit_char\<close>)
qed

lemma digit_not_sign: "digit c \<Longrightarrow> c \<noteq> CHR ''-'' \<and> c \<noteq> CHR ''+'' \<and> c \<noteq> CHR '' '' \<and> c \<noteq> CHR 0x22 \<and> c \<noteq> CHR ''t'' \<and> c \<noteq> CHR ''f''"
  by (auto simp: digit_def byte_of_def)

lemma split_sign_show: "split_sign (show_int n) = (n < 0, show_nat (nat \<bar>n\<bar>))"
proof -
  obtain c t where s: "show_nat (nat \<bar>n\<bar>) = c # t" using show_nat_digits [of "nat \<bar>n\<bar>"] by (cases "show_nat (nat \<bar>n\<bar>)") auto
  then have "digit c" using show_nat_digits [of "nat \<bar>n\<bar>"] by simp
  then show ?thesis using s digit_not_sign [of c] by (simp add: split_sign_def show_int_def abs_if split: if_splits)
qed

lemma show_int_chars: "list_all (\<lambda>c. digit c \<or> c = CHR ''-'') (show_int n) \<and> show_int n \<noteq> []"
  using show_nat_digits [of "nat n"] show_nat_digits [of "nat (- n)"] by (auto simp: show_int_def list_all_iff)

lemma coerce_show_int:
  assumes "- (2 ^ 63) \<le> n" and "n < 2 ^ 63"
  shows "coerce_scalar (show_int n) = J_int n"
proof -
  have "list_all (\<lambda>c. digit c \<or> c = CHR ''-'') (show_int n)" using show_int_chars by simp
  then have "show_int n \<noteq> ''true''" "show_int n \<noteq> ''false''" by (auto simp: digit_def byte_of_def)
  moreover have "parse_int64 (show_int n) = Some n"
    using assms show_nat_digits [of "nat \<bar>n\<bar>"]
    by (simp add: parse_int64_def split_sign_show all_digits_def)
  ultimately show ?thesis by (simp add: coerce_scalar_def)
qed

subsection \<open>Reading a line\<close>

lemma takeWhile_stop: "list_all P xs \<Longrightarrow> \<not> P y \<Longrightarrow> takeWhile P (xs @ y # ys) = xs \<and> dropWhile P (xs @ y # ys) = y # ys"
  by (induction xs) auto

lemma takeWhile_end: "list_all P xs \<Longrightarrow> takeWhile P xs = xs \<and> dropWhile P xs = []"
  by (induction xs) auto

lemma quoted_value_plain:
  "CHR 0x22 \<notin> set v \<Longrightarrow> CHR 0x5C \<notin> set v \<Longrightarrow> quoted_value (v @ CHR 0x22 # r) = (v, CHR 0x22 # r)"
  by (induction v) auto

lemma quoted_value_escaped: "quoted_value (escape_quotes v @ CHR 0x22 # r) = (escape_quotes v, CHR 0x22 # r)"
  by (induction v) auto

text \<open>A bare text and what follows it, which is nothing or starts with a blank.\<close>

lemma logfmt_value_bare:
  assumes "CHR '' '' \<notin> set v" and "v \<noteq> [] \<longrightarrow> hd v \<noteq> CHR 0x22" and "r = [] \<or> hd r = CHR '' ''"
  shows "logfmt_value (v @ r) = (v, r)"
proof -
  have p: "list_all (\<lambda>c. c \<noteq> CHR '' '') v" using assms(1) by (auto simp: list_all_iff)
  have h: "\<not> (v @ r \<noteq> [] \<and> hd (v @ r) = CHR 0x22)" using assms(2,3) by (cases v) auto
  show ?thesis
  proof (cases r)
    case Nil
    then show ?thesis using takeWhile_end [OF p] h by (auto simp: logfmt_value_def)
  next
    case (Cons c q)
    then have "c = CHR '' ''" using assms(3) by simp
    then show ?thesis
      using takeWhile_stop [OF p, of c q] h Cons by (auto simp: logfmt_value_def)
  qed
qed

fun logfmt_raw :: "logfmt_scalar \<Rightarrow> string" where
  "logfmt_raw (Quoted v) = escape_quotes v"
| "logfmt_raw (Quoted_whole n) = show_int n"
| "logfmt_raw (Quoted_flag b) = flag_text b"
| "logfmt_raw v = logfmt_text v"

lemma logfmt_value_text:
  assumes "logfmt_plain v" and "r = [] \<or> hd r = CHR '' ''"
  shows "logfmt_value (logfmt_text v @ r) = (logfmt_raw v, r)"
proof (cases v)
  case (Whole n)
  have c: "list_all (\<lambda>c. digit c \<or> c = CHR ''-'') (show_int n)" and "show_int n \<noteq> []" using show_int_chars by auto
  then have "hd (show_int n) \<noteq> CHR 0x22" using digit_not_sign [of "hd (show_int n)"] by (cases "show_int n") auto
  moreover have "CHR '' '' \<notin> set (show_int n)" using c digit_not_sign by (fastforce simp: list_all_iff)
  ultimately show ?thesis using logfmt_value_bare [OF _ _ assms(2)] Whole by simp
next
  case (Quoted v)
  then show ?thesis by (simp add: logfmt_value_def quoted_value_escaped)
next
  case (Quoted_whole n)
  have "list_all (\<lambda>c. digit c \<or> c = CHR ''-'') (show_int n)" using show_int_chars by simp
  then have "CHR 0x22 \<notin> set (show_int n)" "CHR 0x5C \<notin> set (show_int n)"
    by (auto simp: list_all_iff digit_def byte_of_def)
  then show ?thesis using Quoted_whole by (simp add: logfmt_value_def quoted_value_plain)
next
  case (Quoted_flag b)
  have "quoted_value (flag_text b @ CHR 0x22 # r) = (flag_text b, CHR 0x22 # r)" by (rule quoted_value_plain) simp_all
  then show ?thesis using Quoted_flag by (simp add: logfmt_value_def)
next
  case (Flag b)
  have "logfmt_value (logfmt_text v @ r) = (logfmt_text v, r)"
    using assms(2) Flag by (intro logfmt_value_bare) auto
  then show ?thesis using Flag by simp
next
  case (Bare v)
  then show ?thesis using assms by (simp add: logfmt_value_bare)
qed

lemma coerce_flag: "coerce_scalar (if b then ''true'' else ''false'') = J_bool b"
  by (simp add: coerce_scalar_def)

lemma coerce_text: "\<not> reads_as_scalar v \<Longrightarrow> coerce_scalar v = J_string v"
  by (simp add: reads_as_scalar_def coerce_scalar_def)

lemma coerce_raw: "logfmt_plain v \<Longrightarrow> coerce_scalar (logfmt_raw v) = logfmt_meaning v"
  by (cases v) (simp_all add: coerce_show_int coerce_flag coerce_text)

lemma logfmt_pairs_line:
  assumes "list_all (\<lambda>(k, v). k \<noteq> [] \<and> list_all logfmt_key_char k \<and> logfmt_plain v) ps"
    and "l = logfmt_line ps \<or> l = CHR '' '' # logfmt_line ps"
  shows "logfmt_pairs l = Some (map (\<lambda>(k, v). (k, logfmt_raw v)) ps)"
  using assms
proof (induction ps arbitrary: l)
  case Nil
  then show ?case by (auto simp: logfmt_pairs.simps [of l])
next
  case (Cons p ps)
  obtain k v where p: "p = (k, v)" by fastforce
  let ?next = "if ps = [] then [] else CHR '' '' # logfmt_line ps"
  have k: "k \<noteq> []" "list_all logfmt_key_char k" and v: "logfmt_plain v" using Cons.prems(1) p by auto
  have blank: "\<not> logfmt_key_char CHR '' ''" "\<not> logfmt_key_char CHR ''=''" by (simp_all add: logfmt_key_char_def)
  then have hd: "hd k \<noteq> CHR '' ''" using k by (cases k) auto
  let ?t = "k @ CHR ''='' # logfmt_text v @ ?next"
  have t: "skip_blanks l = ?t" using Cons.prems(2) p k(1) hd by (cases k) auto
  have w: "takeWhile logfmt_key_char ?t = k \<and> dropWhile logfmt_key_char ?t = CHR ''='' # logfmt_text v @ ?next"
    using takeWhile_stop [OF k(2) blank(2)] by blast
  have "logfmt_value (logfmt_text v @ ?next) = (logfmt_raw v, ?next)"
    using v by (intro logfmt_value_text) auto
  moreover have "logfmt_pairs ?next = Some (map (\<lambda>(k, v). (k, logfmt_raw v)) ps)"
    using Cons.prems(1) by (intro Cons.IH) auto
  moreover have "?t \<noteq> []" by simp
  ultimately show ?case
    using k(1) p by (subst logfmt_pairs.simps) (simp only: t w Let_def, simp)
qed

lemma put_all_distinct:
  "distinct (map fst m @ map fst ps) \<Longrightarrow>
    foldl (\<lambda>m (k, v). put_member k (f v) m) m ps = m @ map (\<lambda>(k, v). (k, f v)) ps"
proof (induction ps arbitrary: m)
  case (Cons p ps)
  obtain k v where p: "p = (k, v)" by fastforce
  then have "put_member k (f v) m = m @ [(k, f v)]" using Cons.prems by (auto simp: put_member_def)
  then show ?case using Cons p by simp
qed simp

lemma logfmt_reads_line:
  assumes "logfmt_writable ps"
  shows "parse_logfmt (logfmt_line ps) = Some (map (\<lambda>(k, v). (k, logfmt_meaning v)) ps)"
proof -
  have ok: "list_all (\<lambda>(k, v). k \<noteq> [] \<and> list_all logfmt_key_char k \<and> logfmt_plain v) ps" and d: "distinct (map fst ps)"
    and ne: "ps \<noteq> []" using assms by (auto simp: logfmt_writable_def)
  have "CHR ''='' \<in> set (logfmt_line ps)" using ne by (cases ps rule: logfmt_line.cases) auto
  moreover have "foldl (\<lambda>m (k, v). put_member k (coerce_scalar v) m) [] (map (\<lambda>(k, v). (k, logfmt_raw v)) ps)
      = map (\<lambda>(k, v). (k, logfmt_meaning v)) ps"
  proof -
    have "map fst (map (\<lambda>(k, v). (k, logfmt_raw v)) ps) = map fst ps" by auto
    then have "distinct (map fst [] @ map fst (map (\<lambda>(k, v). (k, logfmt_raw v)) ps))" using d by (simp del: map_map)
    then have "foldl (\<lambda>m (k, v). put_member k (coerce_scalar v) m) [] (map (\<lambda>(k, v). (k, logfmt_raw v)) ps)
        = map (\<lambda>(k, v). (k, coerce_scalar v)) (map (\<lambda>(k, v). (k, logfmt_raw v)) ps)"
      using put_all_distinct [of "[]" "map (\<lambda>(k, v). (k, logfmt_raw v)) ps" coerce_scalar] by (simp del: map_map)
    then show ?thesis using ok by (auto simp: list_all_iff coerce_raw)
  qed
  ultimately show ?thesis
    using logfmt_pairs_line [OF ok, of "logfmt_line ps"] ne by (simp add: parse_logfmt_def)
qed

text \<open>
  C24: reading what was written. Take a line of at least one field, of distinct non-empty keys without
  blanks or equals signs, whose values are bare texts without blanks and not starting with a quote,
  quoted texts of any characters with their quotes and backslashes escaped, 64-bit integers in decimal
  and truth values, the last two bare or in quotes; let no text read as a truth value or as a number
  for \<open>strconv\<close>. It is read as logfmt and gives back each key with the value that was written: a bare
  text as it is, a quoted text with its escapes as they stand between the quotes, integers and truth
  values typed, also those in quotes.
\<close>

theorem logfmt_round_trip:
  assumes "logfmt_writable ps"
  shows "parse_logfmt (logfmt_line ps) = Some (map (\<lambda>(k, v). (k, logfmt_meaning v)) ps)"
  using assms by (rule logfmt_reads_line)

definition sample_fields :: "(string \<times> logfmt_scalar) list" where
  "sample_fields = [(''msg'', Quoted (''user '' @ [CHR 0x22] @ ''x'' @ [CHR 0x22])), (''status'', Whole (-42)), (''ok'', Flag True),
     (''path'', Bare ''/a=b''), (''code'', Quoted_whole 7)]"

lemma sample_texts_plain:
  "\<not> reads_as_scalar (escape_quotes (''user '' @ [CHR 0x22] @ ''x'' @ [CHR 0x22]))" "\<not> reads_as_scalar ''/a=b''"
  by code_simp+

theorem logfmt_round_trip_witness:
  "parse_logfmt (logfmt_line sample_fields) = Some (map (\<lambda>(k, v). (k, logfmt_meaning v)) sample_fields)"
  by (rule logfmt_round_trip)
    (simp add: logfmt_writable_def sample_fields_def logfmt_key_char_def sample_texts_plain [simplified])

subsection \<open>Secrets in fields\<close>

text \<open>
  A secret written as a field is masked in the message and kept in clear as the attribute that was
  lifted out of it: the fields are lifted first, and the bare value matches no pattern.
\<close>

lemmas redact_eval = rx_eval ipv4_pattern_def card_pattern_def secret_value_pattern_def email_pattern_def
  bearer_pattern_def our_keys_def default_mask_def Let_def

lemma secret_message:
  "replace_all email_pattern default_mask ''token=abcdef'' = ''token=abcdef''"
  "replace_all ipv4_pattern default_mask ''token=abcdef'' = ''token=abcdef''"
  "replace_all card_pattern default_mask ''token=abcdef'' = ''token=abcdef''"
  "replace_all bearer_pattern default_mask ''token=abcdef'' = ''token=abcdef''"
  "replace_all our_keys default_mask ''token=abcdef'' = ''token=abcdef''"
  "replace_all secret_value_pattern default_mask ''token=abcdef'' = default_mask"
  by (simp_all add: redact_eval)

lemma secret_value:
  "replace_all email_pattern default_mask ''abcdef'' = ''abcdef''"
  "replace_all ipv4_pattern default_mask ''abcdef'' = ''abcdef''"
  "replace_all card_pattern default_mask ''abcdef'' = ''abcdef''"
  "replace_all bearer_pattern default_mask ''abcdef'' = ''abcdef''"
  "replace_all our_keys default_mask ''abcdef'' = ''abcdef''"
  "replace_all secret_value_pattern default_mask ''abcdef'' = ''abcdef''"
  by (simp_all add: redact_eval)

lemma sniff_secret: "sniff_message ''token=abcdef'' = Some [(''token'', J_string ''abcdef'')]"
proof -
  have "\<not> reads_as_scalar ''abcdef''" by code_simp
  then have l: "parse_logfmt ''token=abcdef'' = Some [(''token'', J_string ''abcdef'')]"
    using logfmt_reads_line [of "[(''token'', Bare ''abcdef'')]"]
    by (simp add: logfmt_writable_def logfmt_key_char_def)
  have "trim_space ''token=abcdef'' = ''token=abcdef''" "\<not> has_prefix ''token=abcdef'' ''{''" by code_simp+
  then show ?thesis using l by (simp add: sniff_message_def)
qed

lemma lifted_secret_survives:
  assumes "ir_message rec = ''token=abcdef''" and "ir_attributes rec = None"
  shows "ir_message (normalize rec now (Some default_patterns)) = default_mask
    \<and> ir_attributes (normalize rec now (Some default_patterns)) = Some [(''token'', J_string ''abcdef'')]"
  by (simp add: normalize_def assms sniff_secret lift_fields_def put_member_def redact_map_def redact_string_def
      default_patterns_def secret_message secret_value)

end
