(* ===== verification/Cursor.thy ===== *)
theory Cursor
  imports GoJson Tickets
begin

text \<open>
  The cursor of a page of logs, \<open>encodeCursor\<close> and \<open>decodeCursor\<close> of \<open>business/domain/logbus/logbus.go\<close>:
  the padded base64url text of a JSON object with a time in RFC 3339 and an identifier. The text of
  an identifier and its parser are those of a library, and a parameter. A cursor of a time whose year
  has at most four digits reads back.
\<close>

subsection \<open>Times as text\<close>

text \<open>The year, the month and the day of a day counted from the first of January of the year 1.\<close>

definition year_split :: "int \<Rightarrow> int \<times> int" where
  "year_split n =
     (let c = n div 146097; r = n mod 146097; q = min 3 (r div 36524); r = r - q * 36524;
        p = r div 1461; r = r mod 1461; y = min 3 (r div 365)
      in (400 * c + 100 * q + 4 * p + y + 1, r - 365 * y))"

fun month_split :: "int list \<Rightarrow> int \<Rightarrow> nat \<times> int" where
  "month_split [] n = (1, n + 1)"
| "month_split (l # ls) n = (if n < l then (1, n + 1) else case month_split ls (n - l) of (m, d) \<Rightarrow> (m + 1, d))"

definition civil_of :: "int \<Rightarrow> int \<times> nat \<times> int" where
  "civil_of n = (case year_split n of (y, r) \<Rightarrow> case month_split (month_days y) r of (m, d) \<Rightarrow> (y, m, d))"

definition year_of :: "instant \<Rightarrow> int" where
  "year_of t = fst (year_split (t div (24 * go_hour)))"

text \<open>\<open>Format(RFC3339Nano)\<close> of a time in UTC whose year has four digits.\<close>

definition show_rfc3339 :: "instant \<Rightarrow> string" where
  "show_rfc3339 t =
     (case civil_of (t div (24 * go_hour)) of (y, m, d) \<Rightarrow>
      let s = t mod (24 * go_hour) in
      pad_digits 4 y @ ''-'' @ pad_digits 2 (int m) @ ''-'' @ pad_digits 2 d @ ''T'' @ pad_digits 2 (s div go_hour) @ '':''
        @ pad_digits 2 (s div go_minute mod 60) @ '':'' @ pad_digits 2 (s div go_second mod 60)
        @ fraction 9 (s mod go_second) @ ''Z'')"

subsection \<open>Padded base64url\<close>

fun base64url_padded :: "string \<Rightarrow> string" where
  "base64url_padded [] = []"
| "base64url_padded [a] = base64url [byte_of a] @ ''==''"
| "base64url_padded [a, b] = base64url [byte_of a, byte_of b] @ ''=''"
| "base64url_padded (a # b # c # s) = base64url [byte_of a, byte_of b, byte_of c] @ base64url_padded s"

definition sextet_value :: "char \<Rightarrow> nat option" where
  "sextet_value c = (case List.find (\<lambda>n. base64url_alphabet ! n = c) [0..<64] of None \<Rightarrow> None | Some n \<Rightarrow> Some n)"

text \<open>The bytes of two, three or four characters.\<close>

definition sextet_bytes :: "string \<Rightarrow> string option" where
  "sextet_bytes cs =
     map_option (\<lambda>vs. case vs of
         [a, b] \<Rightarrow> [char_of (a * 4 + b div 16)]
       | [a, b, c] \<Rightarrow> [char_of (a * 4 + b div 16), char_of (b mod 16 * 16 + c div 4)]
       | [a, b, c, d] \<Rightarrow> [char_of (a * 4 + b div 16), char_of (b mod 16 * 16 + c div 4), char_of (c mod 4 * 64 + d)]
       | _ \<Rightarrow> [])
     (those (map sextet_value cs))"

fun unpad_groups :: "string \<Rightarrow> string option" where
  "unpad_groups [] = Some []"
| "unpad_groups (a # b # c # d # s) =
     (if c = CHR ''='' then (if d = CHR ''='' \<and> s = [] then sextet_bytes [a, b] else None)
      else if d = CHR ''='' then (if s = [] then sextet_bytes [a, b, c] else None)
      else Option.bind (sextet_bytes [a, b, c, d]) (\<lambda>g. map_option ((@) g) (unpad_groups s)))"
| "unpad_groups _ = None"

text \<open>\<open>base64.URLEncoding.DecodeString\<close>, which skips line breaks.\<close>

definition base64url_decode :: "string \<Rightarrow> string option" where
  "base64url_decode s = unpad_groups (filter (\<lambda>c. byte_of c \<noteq> 13 \<and> byte_of c \<noteq> 10) s)"

subsection \<open>Cursors\<close>

record uuid_text =
  ut_show :: "uuid \<Rightarrow> string"
  ut_parse :: "string \<Rightarrow> uuid option"

text \<open>A year of five digits fails \<open>json.Marshal\<close>, whose error is dropped: the text is empty.\<close>

definition cursor_json :: "string \<Rightarrow> string \<Rightarrow> string" where
  "cursor_json ts i =
     [CHR ''{'', CHR 0x22] @ ''ts'' @ [CHR 0x22, CHR '':'', CHR 0x22] @ ts @ [CHR 0x22, CHR '','', CHR 0x22] @ ''id''
       @ [CHR 0x22, CHR '':'', CHR 0x22] @ i @ [CHR 0x22, CHR ''}'']"

definition encode_cursor :: "uuid_text \<Rightarrow> instant \<times> uuid \<Rightarrow> string" where
  "encode_cursor ut c =
     (if 0 \<le> year_of (fst c) \<and> year_of (fst c) \<le> 9999
      then base64url_padded (cursor_json (show_rfc3339 (fst c)) (ut_show ut (snd c)))
      else [])"

text \<open>The members of an object that has been found valid, each with the text of its value.\<close>

fun raw_members :: "nat \<Rightarrow> string \<Rightarrow> (string \<times> json \<times> string) list" where
  "raw_members 0 s = []"
| "raw_members (Suc n) s =
     (case Option.bind (expect CHR 0x22 (skip_space s)) string_body of
        None \<Rightarrow> []
      | Some (k, r) \<Rightarrow> (case expect CHR '':'' (skip_space r) of
          None \<Rightarrow> []
        | Some u \<Rightarrow> (case json_value max_nesting (skip_space u) of
            None \<Rightarrow> []
          | Some (v, r) \<Rightarrow>
              (k, v, take (length (skip_space u) - length r) (skip_space u)) #
              (case expect CHR '','' (skip_space r) of None \<Rightarrow> [] | Some s \<Rightarrow> raw_members n s))))"

text \<open>
  A time is read from the text between the quotes as it stands, an identifier from the string;
  \<open>null\<close> leaves the time as it is.
\<close>

fun read_cursor :: "uuid_text \<Rightarrow> (string \<times> json \<times> string) list \<Rightarrow> instant \<times> uuid \<Rightarrow> (instant \<times> uuid) option" where
  "read_cursor ut [] c = Some c"
| "read_cursor ut ((k, v, raw) # ms) (t, i) =
     (if equal_fold k ''ts'' then
        (case v of
           J_null \<Rightarrow> read_cursor ut ms (t, i)
         | J_string _ \<Rightarrow> (case parse_rfc3339 (butlast (tl raw)) of None \<Rightarrow> None | Some t \<Rightarrow> read_cursor ut ms (t, i))
         | _ \<Rightarrow> None)
      else if equal_fold k ''id'' then
        (case v of
           J_string x \<Rightarrow> (case ut_parse ut x of None \<Rightarrow> None | Some i \<Rightarrow> read_cursor ut ms (t, i))
         | _ \<Rightarrow> None)
      else read_cursor ut ms (t, i))"

definition decode_cursor :: "uuid_text \<Rightarrow> string \<Rightarrow> (instant \<times> uuid) option" where
  "decode_cursor ut s =
     Option.bind (base64url_decode s) (\<lambda>b.
     case decode_json b of
       Some J_null \<Rightarrow> Some (0, uuid_nil)
     | Some (J_object _) \<Rightarrow> read_cursor ut (raw_members (length b) (tl (skip_space b))) (0, uuid_nil)
     | _ \<Rightarrow> None)"

subsection \<open>Days read back\<close>

lemma capped_div:
  fixes r d k :: int
  assumes "0 < d" and "0 \<le> r"
  shows "(min k (r div d) < k \<and> 0 \<le> min k (r div d) \<and> 0 \<le> r - min k (r div d) * d \<and> r - min k (r div d) * d < d)
    \<or> (min k (r div d) = k \<and> 0 \<le> r - k * d)"
proof (cases "r div d < k")
  case True
  have "r - r div d * d = r mod d" by (simp add: minus_div_mult_eq_mod)
  then show ?thesis using True assms by (simp add: pos_imp_zdiv_nonneg_iff)
next
  case False
  then have "k * d \<le> r div d * d" using assms(1) by (intro mult_right_mono) auto
  moreover have "r div d * d \<le> r" using minus_div_mult_eq_mod [of r d] pos_mod_sign [OF assms(1), of r] by linarith
  ultimately have "k * d \<le> r" by linarith
  then show ?thesis using False by (simp add: min_def)
qed

lemma year_split_bounds:
  assumes "year_split n = (y, r)"
  shows "civil_day y 1 1 + r = n \<and> 0 \<le> r \<and> r < sum_list (month_days y)"
proof -
  define c r1 where "c = n div 146097" and "r1 = n mod 146097"
  define q where "q = min 3 (r1 div 36524)"
  define r2 where "r2 = r1 - q * 36524"
  define p r3 where "p = r2 div 1461" and "r3 = r2 mod 1461"
  define z where "z = min 3 (r3 div 365)"
  have y: "y = 400 * c + 100 * q + 4 * p + z + 1" and r: "r = r3 - 365 * z"
    using assms unfolding year_split_def Let_def z_def r3_def p_def r2_def q_def r1_def c_def prod.inject by blast+
  have n: "n = 146097 * c + r1" "0 \<le> r1" "r1 < 146097" by (simp_all add: c_def r1_def)
  have "q < 3 \<and> 0 \<le> q \<and> 0 \<le> r2 \<and> r2 < 36524 \<or> q = 3 \<and> 0 \<le> r1 - 3 * 36524"
    using capped_div [of 36524 r1 3, folded q_def r2_def] n(2) by simp
  then have q: "0 \<le> q" "q \<le> 3" "0 \<le> r2" "r2 \<le> 36524" "q < 3 \<longrightarrow> r2 < 36524"
    using n(3) r2_def by auto
  have p: "r2 = 1461 * p + r3" "0 \<le> r3" "r3 < 1461" "0 \<le> p" using q by (simp_all add: p_def r3_def)
  have p24: "p \<le> 24" using p q(4) by linarith
  have "z < 3 \<and> 0 \<le> z \<and> 0 \<le> r3 - z * 365 \<and> r3 - z * 365 < 365 \<or> z = 3 \<and> 0 \<le> r3 - 3 * 365"
    using capped_div [of 365 r3 3, folded z_def] p(2) by simp
  then have z: "0 \<le> z" "z \<le> 3" "0 \<le> r" "r \<le> 365" "z < 3 \<longrightarrow> r < 365"
    using p(3) unfolding r by auto
  have d4: "(y - 1) div 4 = 100 * c + 25 * q + p" using z y by linarith
  have d100: "(y - 1) div 100 = 4 * c + q" using z y p p24 by linarith
  have d400: "(y - 1) div 400 = c" using z y p p24 q by linarith
  have "civil_day y 1 1 + r = n"
    unfolding civil_day_def d4 d100 d400 using n p r y r2_def by simp
  moreover have "leap_year y" if "r = 365"
  proof -
    have "z = 3" using that z by linarith
    then have "r3 = 1460" using that r by simp
    have "y = 4 * (100 * c + 25 * q + p + 1)" using y \<open>z = 3\<close> by simp
    then have "y mod 4 = 0" by simp
    moreover have "y mod 400 = 0" if "y mod 100 = 0"
    proof -
      have "p = 24"
      proof (rule ccontr)
        assume "p \<noteq> 24"
        then have "0 \<le> p" "p < 24" using p p24 by simp_all
        moreover have "y mod 100 = 4 * p + 4"
        proof -
          have "y = 4 * p + 4 + 100 * (4 * c + q)" using y \<open>z = 3\<close> by simp
          then have "y mod 100 = (4 * p + 4) mod 100" by (metis mod_mult_self2)
          then show ?thesis using calculation by simp
        qed
        ultimately show False using that by simp
      qed
      then have "r2 = 36524" using p \<open>r3 = 1460\<close> by simp
      then have "q = 3" using q by linarith
      then have "y = 400 * (c + 1)" using y \<open>p = 24\<close> \<open>z = 3\<close> by simp
      then show ?thesis by simp
    qed
    ultimately show ?thesis by (auto simp: leap_year_def)
  qed
  ultimately have "civil_day y 1 1 + r = n" "r = 365 \<Longrightarrow> leap_year y" by blast+
  then show ?thesis using z(3,4) by (cases "r = 365") (auto simp: month_days_def)
qed

lemma month_split_bounds:
  assumes "month_split ls n = (m, d)" and "0 \<le> n" and "n < sum_list ls"
  shows "1 \<le> m \<and> m \<le> length ls \<and> 1 \<le> d \<and> d \<le> ls ! (m - 1) \<and> sum_list (take (m - 1) ls) + (d - 1) = n"
  using assms
proof (induction ls arbitrary: n m)
  case (Cons l ls)
  show ?case
  proof (cases "n < l")
    case False
    obtain m' where m: "month_split ls (n - l) = (m', d)" "m = m' + 1" using Cons.prems(1) False by (auto split: prod.splits)
    from Cons.IH [OF m(1)] Cons.prems(2,3) False
    have "1 \<le> m' \<and> m' \<le> length ls \<and> 1 \<le> d \<and> d \<le> ls ! (m' - 1) \<and> sum_list (take (m' - 1) ls) + (d - 1) = n - l" by simp
    then show ?thesis using m(2) by (cases m') auto
  qed (use Cons.prems in auto)
qed simp

lemma civil_of_day:
  assumes "civil_of n = (y, m, d)"
  shows "civil_day y m d = n \<and> 1 \<le> m \<and> m \<le> 12 \<and> 1 \<le> d \<and> d \<le> month_days y ! (m - 1) \<and> y = fst (year_split n)"
proof -
  obtain r where y: "year_split n = (y, r)" and m: "month_split (month_days y) r = (m, d)"
    using assms by (auto simp: civil_of_def split: prod.splits)
  have "length (month_days y) = 12" by (simp add: month_days_def)
  with year_split_bounds [OF y] month_split_bounds [OF m] show ?thesis using y by (auto simp: civil_day_def)
qed

subsection \<open>Times read back\<close>

lemma digit_char_is_digit [simp]: "digit (digit_char d)"
  by (simp add: digit_def)

lemma length_pad [simp]: "length (pad_digits k v) = k"
  by (induction k arbitrary: v) (simp_all add: pad_digits.simps [of "Suc _"] pad_digits.simps [of 0])

lemma pad_digit: "list_all digit (pad_digits k v)"
  by (induction k arbitrary: v) (simp_all add: pad_digits.simps [of "Suc _"] pad_digits.simps [of 0])

lemma digits_val_snoc: "digits_val (s @ [c]) = 10 * digits_val s + (byte_of c - 48)"
  by (simp add: digits_val_def)

lemma digits_val_pad: "0 \<le> v \<Longrightarrow> int (digits_val (pad_digits k v)) = v mod 10 ^ k"
proof (induction k arbitrary: v)
  case (Suc k)
  have "int (nat (v mod 10) mod 10) = v mod 10" by (simp add: zmod_int)
  then have "int (digits_val (pad_digits (Suc k) v)) = 10 * (v div 10 mod 10 ^ k) + v mod 10"
    using Suc by (simp add: pad_digits.simps [of "Suc k"] digits_val_snoc)
  also have "\<dots> = v mod (10 * 10 ^ k)" by (simp add: zmod_zmult2_eq)
  finally show ?case by simp
qed (simp add: pad_digits.simps digits_val_def)

lemma parse_year_pad: "0 \<le> y \<Longrightarrow> y \<le> 9999 \<Longrightarrow> parse_year (pad_digits 4 y @ s) = Some (y, s)"
  using pad_digit [of 4 y] digits_val_pad [of y 4] by (simp add: parse_year_def)

lemma get_num_pad:
  assumes "0 \<le> v" and "v < 100"
  shows "get_num fixed (pad_digits 2 v @ s) = Some (nat v, s)"
proof -
  obtain a b where ab: "pad_digits 2 v = [a, b]" by (simp add: pad_digits.simps)
  have "digit a" "digit b" using pad_digit [of 2 v] ab by simp_all
  moreover have "digits_val [a, b] = nat v" using digits_val_pad [OF assms(1), of 2] assms ab by simp
  ultimately show ?thesis by (simp add: get_num_def ab)
qed

lemma expect_same [simp]: "expect c (c # s) = Some s"
  by (simp add: expect_def)

lemma digits_val_zeros: "digits_val (s @ replicate n (CHR ''0'')) = digits_val s * 10 ^ n"
proof (induction n)
  case (Suc n)
  have "byte_of (CHR ''0'') = 48" by (simp add: byte_of_def)
  then show ?case using Suc digits_val_snoc [of "s @ replicate n (CHR ''0'')"] by (simp add: replicate_append_same [symmetric])
qed simp

lemma trailing_zeros: "\<exists>n. s = rev (dropWhile (\<lambda>c. c = z) (rev s)) @ replicate n z"
proof -
  have "rev s = takeWhile (\<lambda>c. c = z) (rev s) @ dropWhile (\<lambda>c. c = z) (rev s)" by simp
  then have "s = rev (dropWhile (\<lambda>c. c = z) (rev s)) @ rev (takeWhile (\<lambda>c. c = z) (rev s))"
    by (metis rev_append rev_rev_ident)
  moreover have "takeWhile (\<lambda>c. c = z) (rev s) = replicate (length (takeWhile (\<lambda>c. c = z) (rev s))) z"
    by (rule replicate_length_same [symmetric]) (auto dest: set_takeWhileD)
  ultimately show ?thesis by (metis rev_replicate)
qed

lemma free_fraction_reads:
  assumes "0 \<le> v" and "v < go_second"
  shows "free_fraction (fraction 9 v @ ''Z'' @ s) = Some (v, ''Z'' @ s)"
proof -
  let ?ds = "rev (dropWhile (\<lambda>c. c = CHR ''0'') (rev (pad_digits 9 v)))"
  obtain n where n: "pad_digits 9 v = ?ds @ replicate n (CHR ''0'')" using trailing_zeros by metis
  have len: "length ?ds + n = 9" using arg_cong [OF n, of length] by simp
  then have len_n: "9 - length ?ds = n" by linarith
  have val: "int (digits_val ?ds) * 10 ^ n = v"
    using digits_val_pad [OF assms(1), of 9] arg_cong [OF n, of digits_val] digits_val_zeros [of ?ds n] assms by simp
  have digits: "list_all digit ?ds" using pad_digit [of 9 v] n by (metis list_all_append)
  have z: "\<not> digit (CHR ''Z'')" by (simp add: digit_def byte_of_def)
  show ?thesis
  proof (cases "?ds = []")
    case True
    have "v = 0" using val unfolding True by (simp add: digits_val_def)
    then show ?thesis using True unfolding fraction_def Let_def by (simp add: free_fraction_def)
  next
    case False
    then have "takeWhile digit (?ds @ ''Z'' @ s) = ?ds \<and> dropWhile digit (?ds @ ''Z'' @ s) = ''Z'' @ s"
      using digits z by (simp add: takeWhile_append dropWhile_append list_all_iff)
    moreover have "nanos_of ?ds = v" using val len_n len by (simp add: nanos_of_def del: length_rev)
    moreover have "digit (hd ?ds)" using False digits by (cases ?ds) simp_all
    ultimately show ?thesis using False by (cases ?ds) (simp_all add: fraction_def free_fraction_def Let_def)
  qed
qed

lemma parse_offset_Z: "parse_offset (''Z'' @ s) = Some (0, s)"
  by (simp add: parse_offset_def)

lemma clock_sum:
  fixes a b c d e f s :: int
  assumes "a * 60 + b = c" and "c * 60 + d = e" and "e * 1000000000 + f = s"
  shows "(a * 60 + b) * 60000000000 + d * 1000000000 + f = s"
  unfolding assms(3) [symmetric] assms(2) [symmetric] assms(1) [symmetric] by (simp add: algebra_simps)

lemma clock_parts:
  assumes "0 \<le> s" and "s < 24 * go_hour"
  shows "0 \<le> s div go_hour" "s div go_hour < 24" "0 \<le> s div go_minute mod 60" "s div go_minute mod 60 < 60"
    "0 \<le> s div go_second mod 60" "s div go_second mod 60 < 60" "0 \<le> s mod go_second" "s mod go_second < go_second"
    "(s div go_hour * 60 + s div go_minute mod 60) * go_minute + s div go_second mod 60 * go_second + s mod go_second = s"
proof -
  show "s div go_hour < 24" using zdiv_mono1 [of s "24 * go_hour - 1" go_hour] assms by simp
  have h: "s div go_hour = s div go_minute div 60" by (simp add: zdiv_zmult2_eq [symmetric])
  have m: "s div go_minute = s div go_second div 60" by (simp add: zdiv_zmult2_eq [symmetric])
  have "s div go_hour * 60 + s div go_minute mod 60 = s div go_minute" unfolding h by simp
  moreover have "s div go_minute * 60 + s div go_second mod 60 = s div go_second" unfolding m by simp
  moreover have "s div go_second * go_second + s mod go_second = s" by (rule div_mult_mod_eq)
  ultimately show "(s div go_hour * 60 + s div go_minute mod 60) * go_minute + s div go_second mod 60 * go_second + s mod go_second = s"
    by (rule clock_sum)
qed (use assms in \<open>simp_all add: pos_imp_zdiv_nonneg_iff\<close>)

lemma parse_time_text:
  assumes "0 \<le> y" "y \<le> 9999" "1 \<le> m" "m \<le> 12" "1 \<le> d" "d \<le> 31" "d \<le> month_days y ! (m - 1)"
    "0 \<le> h" "h < 24" "0 \<le> mi" "mi < 60" "0 \<le> sec" "sec < 60" "0 \<le> ns" "ns < go_second"
  shows "parse_rfc3339 (pad_digits 4 y @ ''-'' @ pad_digits 2 (int m) @ ''-'' @ pad_digits 2 d @ ''T'' @ pad_digits 2 h @ '':''
      @ pad_digits 2 mi @ '':'' @ pad_digits 2 sec @ fraction 9 ns @ ''Z'') =
    Some (((civil_day y m d * 24 + h) * 60 + mi) * go_minute + sec * go_second + ns)"
  using assms
  by (simp add: parse_time_def parse_year_pad get_num_pad free_fraction_reads [of _ "[]", simplified] parse_offset_Z [of "[]", simplified]
      not_le nat_less_iff)

lemma parse_show_time:
  assumes "0 \<le> year_of t" and "year_of t \<le> 9999"
  shows "parse_rfc3339 (show_rfc3339 t) = Some t"
proof -
  obtain y m d where c: "civil_of (t div (24 * go_hour)) = (y, m, d)" by (metis surj_pair)
  define s where "s = t mod (24 * go_hour)"
  note day = civil_of_day [OF c]
  have y: "0 \<le> y" "y \<le> 9999" using day assms by (simp_all add: year_of_def)
  have m: "1 \<le> m" "m \<le> 12" "1 \<le> d" "d \<le> month_days y ! (m - 1)" using day by blast+
  have "month_days y ! (m - 1) \<in> set (month_days y)" using conjunct2 [OF day] by (intro nth_mem) (auto simp: month_days_def)
  then have d: "d \<le> 31" using day by (auto simp: month_days_def split: if_splits)
  have "0 \<le> s" "s < 24 * go_hour" by (simp_all add: s_def)
  note parts = clock_parts [OF this]
  have t: "civil_day y m d * (24 * go_hour) + s = t" using conjunct1 [OF day] by (simp add: s_def)
  have "parse_rfc3339 (show_rfc3339 t) = Some (((civil_day y m d * 24 + s div go_hour) * 60 + s div go_minute mod 60) * go_minute
      + s div go_second mod 60 * go_second + s mod go_second)"
    unfolding show_rfc3339_def c prod.case Let_def s_def [symmetric]
    by (rule parse_time_text [OF y m(1-3) d m(4) parts(1-8)])
  also have "\<dots> = Some (civil_day y m d * (24 * go_hour) + s)" using parts(9) by simp
  finally show ?thesis using t by simp
qed

subsection \<open>Base64 read back\<close>

lemma sextet_value_sextet: "n < 64 \<Longrightarrow> sextet_value (sextet n) = Some n"
proof -
  assume n: "n < 64"
  have same: "base64url_alphabet ! m = sextet n \<longleftrightarrow> m = n" if "m < 64" for m
    using sextet_eq_iff [OF that n] that by (simp add: sextet_def)
  obtain m where m: "List.find (\<lambda>m. base64url_alphabet ! m = sextet n) [0..<64] = Some m"
    using n same by (cases "List.find (\<lambda>m. base64url_alphabet ! m = sextet n) [0..<64]") (auto simp: find_None_iff)
  from find_SomeD [OF m] same have "m = n" by auto
  with m show ?thesis by (simp add: sextet_value_def)
qed

lemma sextet_in: "sextet n \<in> set base64url_alphabet"
proof -
  have "n mod 64 < length base64url_alphabet" by (simp add: base64url_alphabet_def)
  then show ?thesis unfolding sextet_def by (rule nth_mem)
qed

lemma alphabet_chars: "list_all (\<lambda>c. c \<noteq> CHR ''='' \<and> byte_of c \<noteq> 13 \<and> byte_of c \<noteq> 10) base64url_alphabet"
  by code_simp

lemma sextet_char [simp]: "sextet n \<noteq> CHR ''=''" "byte_of (sextet n) \<noteq> 13" "byte_of (sextet n) \<noteq> 10"
  using sextet_in [of n] alphabet_chars by (auto simp: list_all_iff)

lemma byte_of_less: "byte_of c < 256"
  by (simp add: byte_of_def)

lemma char_of_byte [simp]: "char_of (byte_of c) = c"
  by (simp add: byte_of_def)

lemma sextet_bytes_read:
  assumes "a < 256" and "b < 256" and "c < 256"
  shows "sextet_bytes [sextet (a div 4), sextet (a mod 4 * 16)] = Some [char_of a]"
    "sextet_bytes [sextet (a div 4), sextet (a mod 4 * 16 + b div 16), sextet (b mod 16 * 4)] = Some [char_of a, char_of b]"
    "sextet_bytes [sextet (a div 4), sextet (a mod 4 * 16 + b div 16), sextet (b mod 16 * 4 + c div 64), sextet (c mod 64)] =
      Some [char_of a, char_of b, char_of c]"
proof -
  have small: "a div 4 < 64" "a mod 4 * 16 < 64" "a mod 4 * 16 + b div 16 < 64" "b mod 16 * 4 < 64" "b mod 16 * 4 + c div 64 < 64" "c mod 64 < 64"
    using assms by linarith+
  have hi: "(a mod 4 * 16 + b div 16) div 16 = a mod 4" "(a mod 4 * 16 + b div 16) mod 16 = b div 16"
    "(b mod 16 * 4 + c div 64) div 4 = b mod 16" "(b mod 16 * 4 + c div 64) mod 4 = c div 64"
    using assms by (simp_all add: less_mult_imp_div_less)
  have top: "b div 16 mod 16 = b div 16" "c div 64 mod 4 = c div 64"
    using assms by (simp_all add: less_mult_imp_div_less)
  have parts: "a div 4 * 4 + a mod 4 = a" "b div 16 * 16 + b mod 16 = b" "c div 64 * 64 + c mod 64 = c" by simp_all
  show "sextet_bytes [sextet (a div 4), sextet (a mod 4 * 16)] = Some [char_of a]"
    "sextet_bytes [sextet (a div 4), sextet (a mod 4 * 16 + b div 16), sextet (b mod 16 * 4)] = Some [char_of a, char_of b]"
    "sextet_bytes [sextet (a div 4), sextet (a mod 4 * 16 + b div 16), sextet (b mod 16 * 4 + c div 64), sextet (c mod 64)] =
      Some [char_of a, char_of b, char_of c]"
    unfolding sextet_bytes_def by (simp_all add: sextet_value_sextet small hi parts top)
qed

lemma group_one: "sextet_bytes [sextet (byte_of a div 4), sextet (byte_of a mod 4 * 16)] = Some [a]"
  using sextet_bytes_read(1) [OF byte_of_less [of a] byte_of_less [of a] byte_of_less [of a]] by simp

lemma group_two: "sextet_bytes [sextet (byte_of a div 4), sextet (byte_of a mod 4 * 16 + byte_of b div 16), sextet (byte_of b mod 16 * 4)] = Some [a, b]"
  using sextet_bytes_read(2) [OF byte_of_less [of a] byte_of_less [of b] byte_of_less [of a]] by simp

lemma unpad_padded: "unpad_groups (base64url_padded s) = Some s"
  by (induction s rule: base64url_padded.induct)
    (simp_all add: sextet_bytes_read [OF byte_of_less byte_of_less byte_of_less] group_one group_two)

lemma equals_byte: "byte_of (CHR ''='') = 61"
  by code_simp

lemma base64url_decode_padded: "base64url_decode (base64url_padded s) = Some s"
proof -
  have "filter (\<lambda>c. byte_of c \<noteq> 13 \<and> byte_of c \<noteq> 10) (base64url_padded s) = base64url_padded s"
    by (induction s rule: base64url_padded.induct) (simp_all add: equals_byte)
  then show ?thesis by (simp add: base64url_decode_def unpad_padded)
qed

subsection \<open>Cursors read back\<close>

text \<open>Characters a JSON string holds as they are.\<close>

definition plain_char :: "char \<Rightarrow> bool" where
  "plain_char c \<longleftrightarrow> 32 \<le> byte_of c \<and> byte_of c < 128 \<and> c \<noteq> CHR 0x22 \<and> c \<noteq> CHR 0x5C"

lemma string_body_plain: "list_all plain_char s \<Longrightarrow> string_body (s @ CHR 0x22 # r) = Some (s, r)"
proof (induction s)
  case (Cons c s)
  then have c: "byte_of c < 128" "\<not> byte_of c < 32" "c \<noteq> CHR 0x22" "c \<noteq> CHR 0x5C" by (simp_all add: plain_char_def)
  have w: "rune_width (c # s @ CHR 0x22 # r) = Some 1" using c(1) by simp
  then have "rune_len (c # s @ CHR 0x22 # r) = 1" by (simp add: rune_len_def)
  then show ?case using Cons c w by (subst string_body.simps) (simp add: prepend_def)
qed (subst string_body.simps, simp)

lemma json_string_value: "list_all plain_char s \<Longrightarrow> json_value d (CHR 0x22 # s @ CHR 0x22 # r) = Some (J_string s, r)"
  by (subst json_value.simps) (simp add: string_body_plain)

lemma no_space [simp]: "\<not> json_space (CHR 0x22)" "\<not> json_space (CHR '':'')" "\<not> json_space (CHR '','')"
  "\<not> json_space (CHR ''{'')" "\<not> json_space (CHR ''}'')"
  by code_simp+

lemma expect_empty [simp]: "expect c [] = None"
  by (simp add: expect_def)

lemma expect_other: "c \<noteq> d \<Longrightarrow> expect c (d # s) = None"
  by (simp add: expect_def)

lemma member_names: "list_all plain_char ''ts''" "list_all plain_char ''id''" "equal_fold ''ts'' ''ts''"
  "\<not> equal_fold ''id'' ''ts''" "equal_fold ''id'' ''id''"
  by code_simp+

lemma cursor_json_eq:
  "cursor_json t u = CHR ''{'' # CHR 0x22 # (''ts'' @ CHR 0x22 # CHR '':'' # CHR 0x22 # t @ CHR 0x22 # CHR '','' # CHR 0x22 #
     (''id'' @ CHR 0x22 # CHR '':'' # CHR 0x22 # u @ CHR 0x22 # ''}''))"
  by (simp add: cursor_json_def)

lemma last_member:
  assumes "list_all plain_char k" and "list_all plain_char u"
  shows "json_members d (CHR 0x22 # (k @ CHR 0x22 # CHR '':'' # CHR 0x22 # u @ CHR 0x22 # ''}'')) = Some ([(k, J_string u)], [])"
  using assms by (subst json_members.simps) (simp add: string_body_plain json_string_value expect_other)

lemma decode_cursor_json:
  assumes "list_all plain_char t" and "list_all plain_char u"
  shows "decode_json (cursor_json t u) = Some (J_object [(''ts'', J_string t), (''id'', J_string u)])"
proof -
  let ?rest = "CHR 0x22 # (''id'' @ CHR 0x22 # CHR '':'' # CHR 0x22 # u @ CHR 0x22 # ''}'')"
  have "json_members d (CHR 0x22 # (''ts'' @ CHR 0x22 # CHR '':'' # CHR 0x22 # t @ CHR 0x22 # CHR '','' # ?rest)) =
      Some ([(''ts'', J_string t), (''id'', J_string u)], [])" for d
    using string_body_plain [OF member_names(1)] assms(1) last_member [OF member_names(2) assms(2), of d]
    by (subst json_members.simps) (simp add: json_string_value del: append_Cons) 
  then show ?thesis
    unfolding cursor_json_eq decode_json_def
    by (subst json_value.simps) (simp add: expect_other)
qed

lemma cursor_raw_members:
  assumes "list_all plain_char t" and "list_all plain_char u" and "2 \<le> n"
  shows "raw_members n (tl (cursor_json t u)) =
    [(''ts'', J_string t, CHR 0x22 # t @ [CHR 0x22]), (''id'', J_string u, CHR 0x22 # u @ [CHR 0x22])]"
proof -
  obtain k where n: "n = Suc (Suc k)" using assms(3) by (metis Suc_le_D numeral_2_eq_2 Suc_le_mono)
  show ?thesis
    unfolding cursor_json_eq n
    using string_body_plain [OF member_names(1)] string_body_plain [OF member_names(2)] assms(1,2)
    by (simp add: json_string_value expect_other)
qed

text \<open>What is relied on of the library of identifiers: its texts read back, and consist of hexadecimal digits and hyphens.\<close>

definition uuid_text_ok :: "uuid_text \<Rightarrow> uuid \<Rightarrow> bool" where
  "uuid_text_ok ut i \<longleftrightarrow> ut_parse ut (ut_show ut i) = Some i \<and> list_all (\<lambda>c. lower_hex c \<or> c = CHR ''-'') (ut_show ut i)"

lemma digit_plain: "digit c \<Longrightarrow> plain_char c"
  by (auto simp: digit_def plain_char_def byte_of_def)

lemma lower_hex_plain: "lower_hex c \<or> c = CHR ''-'' \<Longrightarrow> plain_char c"
  by (auto simp: lower_hex_def digit_def plain_char_def byte_of_def)

lemma fraction_plain: "list_all plain_char (fraction k v)"
proof -
  have "set (rev (dropWhile (\<lambda>c. c = CHR ''0'') (rev (pad_digits k v)))) \<subseteq> set (pad_digits k v)"
    by (auto dest: set_dropWhileD)
  then have "list_all plain_char (rev (dropWhile (\<lambda>c. c = CHR ''0'') (rev (pad_digits k v))))"
    using pad_digit [of k v] digit_plain by (auto simp: list_all_iff)
  moreover have "plain_char (CHR ''.'')" by code_simp
  ultimately show ?thesis by (simp add: fraction_def Let_def)
qed

lemma time_plain: "list_all plain_char (show_rfc3339 t)"
proof -
  have "list_all plain_char (pad_digits k v)" for k v using pad_digit [of k v] digit_plain by (auto simp: list_all_iff)
  moreover have "plain_char (CHR ''-'')" "plain_char (CHR ''T'')" "plain_char (CHR '':'')" "plain_char (CHR ''Z'')" by code_simp+
  ultimately show ?thesis using fraction_plain by (simp add: show_rfc3339_def Let_def split: prod.splits)
qed

lemma cursor_reads_back:
  assumes "0 \<le> year_of t" and "year_of t \<le> 9999" and "uuid_text_ok ut i"
  shows "encode_cursor ut (t, i) \<noteq> [] \<and> decode_cursor ut (encode_cursor ut (t, i)) = Some (t, i)"
proof -
  let ?ts = "show_rfc3339 t" and ?id = "ut_show ut i"
  have plain: "list_all plain_char ?ts" "list_all plain_char ?id"
    using time_plain assms(3) lower_hex_plain by (auto simp: uuid_text_ok_def list_all_iff)
  have enc: "encode_cursor ut (t, i) = base64url_padded (cursor_json ?ts ?id)" using assms by (simp add: encode_cursor_def)
  have "skip_space (cursor_json ?ts ?id) = cursor_json ?ts ?id" by (simp add: cursor_json_def)
  moreover have "2 \<le> length (cursor_json ?ts ?id)" by (simp add: cursor_json_def)
  ultimately have "decode_cursor ut (encode_cursor ut (t, i)) = Some (t, i)"
    using assms parse_show_time [OF assms(1,2)] member_names
    by (simp add: enc decode_cursor_def base64url_decode_padded decode_cursor_json [OF plain] cursor_raw_members [OF plain] uuid_text_ok_def)
  moreover have "base64url_padded (cursor_json ?ts ?id) \<noteq> []"
    using unpad_padded [of "cursor_json ?ts ?id"] by (auto simp: cursor_json_def)
  ultimately show ?thesis by (simp add: enc)
qed

lemma late_year_no_cursor: "9999 < year_of t \<Longrightarrow> encode_cursor ut (t, i) = []"
  by (simp add: encode_cursor_def)

end
