(* ===== verification/LogQuery.thy ===== *)
theory LogQuery
  imports LogRollup Cursor "HOL-Library.Product_Lexorder"
begin

text \<open>
  Reading logs: the filter and the keyset page of \<open>stores/logdb/logdb.go\<close>, the query with its cursor of
  \<open>business/domain/logbus/logbus.go\<close>, the choice of projects and the streamed export of
  \<open>app/domain/logapp/orglogs.go\<close> and \<open>export.go\<close>. The text of a cursor is that of
  \<open>Cursor\<close>. The identifier of a row compares like its
  text. Letters fold within ASCII.
\<close>

subsection \<open>Filters\<close>

datatype total_mode = Total_bounded | Total_none | Total_exact

abbreviation total_cap :: nat where "total_cap \<equiv> 10000"
abbreviation max_raw_window :: duration where "max_raw_window \<equiv> 2 * go_hour"

record log_filter =
  lf_project :: uuid
  lf_projects :: "uuid list"
  lf_levels :: "string list"
  lf_search :: "string option"
  lf_source :: "string option"
  lf_tags :: "string list"
  lf_meta :: "(string \<times> string) list"
  lf_from :: "instant option"
  lf_to :: "instant option"
  lf_source_type :: "string option"
  lf_total :: total_mode

definition scan_filters :: "log_filter \<Rightarrow> bool" where
  "scan_filters f \<longleftrightarrow> lf_tags f \<noteq> []"

definition apply_scan_window :: "instant \<Rightarrow> log_filter \<Rightarrow> log_error + log_filter" where
  "apply_scan_window now f =
     (if \<not> scan_filters f then Inr f
      else let to = (case lf_to f of None \<Rightarrow> now | Some t \<Rightarrow> t) in
        case lf_from f of
          None \<Rightarrow> Inr (f\<lparr> lf_from := Some (to - max_raw_window) \<rparr>)
        | Some from \<Rightarrow> if time_sub to from > max_raw_window then Inl Err_window_too_wide else Inr f)"

text \<open>\<open>LIKE\<close>, where the text of the caller keeps its wildcards, and \<open>ILIKE\<close>.\<close>

function like :: "string \<Rightarrow> string \<Rightarrow> bool" where
  "like [] s = (s = [])"
| "like (c # p) s =
     (if s = [] then c = CHR ''%'' \<and> like p s
      else if c = CHR ''%'' then like p s \<or> like (c # p) (drop (rune_len s) s)
      else if c = CHR ''_'' then like p (drop (rune_len s) s)
      else if c = CHR 0x5C \<and> p \<noteq> [] then hd s = hd p \<and> like (tl p) (tl s)
      else hd s = c \<and> like p (tl s))"
  by pat_completeness auto
termination
  by (relation "measure (\<lambda>(p, s). length p + length s)") (use rune_len_pos in \<open>auto simp: length_greater_0_conv\<close>)

declare like.simps [simp del]

definition ilike :: "string \<Rightarrow> string \<Rightarrow> bool" where
  "ilike p s = like (to_lower p) (to_lower s)"

definition option_all :: "('a \<Rightarrow> bool) \<Rightarrow> 'a option \<Rightarrow> bool" where
  "option_all P v = (case v of None \<Rightarrow> True | Some x \<Rightarrow> P x)"

definition log_matches :: "log_filter \<Rightarrow> log_row \<Rightarrow> bool" where
  "log_matches f r \<longleftrightarrow>
     option_all (\<lambda>st. lr_source_type r = st) (lf_source_type f)
     \<and> (lf_levels f = [] \<or> lr_level r \<in> set (lf_levels f))
     \<and> option_all (\<lambda>q. ilike (''%'' @ q @ ''%'') (lr_message r) \<or> ilike (''%'' @ q @ ''%'') (lr_source r)) (lf_search f)
     \<and> option_all (\<lambda>s. lr_source r = s) (lf_source f)
     \<and> set (lf_tags f) \<subseteq> set (lr_tags r)
     \<and> list_all (\<lambda>(k, v). map_of (lr_meta r) k = Some (J_string v)) (lf_meta f)
     \<and> option_all (\<lambda>t. pg_time t \<le> lr_ts r) (lf_from f)
     \<and> option_all (\<lambda>t. lr_ts r \<le> pg_time t) (lf_to f)"

subsection \<open>Pages\<close>

definition order_key :: "log_row \<Rightarrow> int \<times> int" where
  "order_key r = (- lr_ts r, - int (lr_id r))"

definition beyond :: "(instant \<times> uuid) option \<Rightarrow> log_row \<Rightarrow> bool" where
  "beyond after r = (case after of None \<Rightarrow> True | Some (ts, i) \<Rightarrow>
     lr_ts r < pg_time ts \<or> (lr_ts r = pg_time ts \<and> lr_id r < i))"

definition page_of :: "log_filter \<Rightarrow> uuid \<Rightarrow> nat \<Rightarrow> (instant \<times> uuid) option \<Rightarrow> log_row list \<Rightarrow> log_row list" where
  "page_of f project limit after rows =
     take limit (sort_key order_key (filter (\<lambda>r. lr_project r = project \<and> log_matches f r \<and> beyond after r) rows))"

definition page_rows :: "log_filter \<Rightarrow> nat \<Rightarrow> (instant \<times> uuid) option \<Rightarrow> log_row list \<Rightarrow> log_row list" where
  "page_rows f limit after rows =
     (if lf_projects f = [] then page_of f (lf_project f) limit after rows
      else take limit (sort_key order_key (concat (map (\<lambda>p. page_of f p limit after rows) (lf_projects f)))))"

definition project_count :: "log_filter \<Rightarrow> uuid \<Rightarrow> log_row list \<Rightarrow> nat" where
  "project_count f project rows =
     (let n = length (filter (\<lambda>r. lr_project r = project \<and> log_matches f r) rows)
      in if lf_total f = Total_exact then n else min total_cap n)"

definition count_rows :: "log_filter \<Rightarrow> log_row list \<Rightarrow> nat" where
  "count_rows f rows =
     (if lf_projects f = [] then project_count f (lf_project f) rows
      else let n = sum_list (map (\<lambda>p. project_count f p rows) (lf_projects f))
        in if lf_total f = Total_exact then n else min total_cap n)"

definition s_log_query ::
  "log_filter \<Rightarrow> nat \<Rightarrow> (instant \<times> uuid) option \<Rightarrow> (log_entry list \<times> nat) log_op" where
  "s_log_query f limit after =
     try_op (log_call (\<lambda>w. (Inr (page_rows f limit after (lw_logs w)), w))) (\<lambda>rows.
       case to_bus_logs rows of
         Inl e \<Rightarrow> fail_op e
       | Inr logs \<Rightarrow>
           if lf_total f = Total_none then ret_op (logs, 0)
           else log_call (\<lambda>w. (Inr (logs, count_rows f (lw_logs w)), w)))"

definition s_log_by_id :: "uuid \<Rightarrow> log_entry log_op" where
  "s_log_by_id i = log_call (\<lambda>w.
     case List.find (\<lambda>r. lr_id r = i) (lw_logs w) of
       None \<Rightarrow> (Inl Err_log_not_found, w) | Some r \<Rightarrow> (to_bus_log r, w))"

definition level_sum :: "(stats_key \<Rightarrow> bool) \<Rightarrow> (stats_key \<times> int) list \<Rightarrow> string \<Rightarrow> int" where
  "level_sum P stats level =
     sum_list (map snd (filter (\<lambda>s. P (fst s) \<and> (case fst s of (_, _, _, _, l) \<Rightarrow> l = level)) stats))"

text \<open>The levels of the rollup are among the four, which the table \<open>logs\<close> checks.\<close>

definition s_log_stats :: "uuid \<Rightarrow> string option \<Rightarrow> (string \<times> int) list log_op" where
  "s_log_stats project st = log_call (\<lambda>w. (Inr (map (\<lambda>l. (l,
     level_sum (\<lambda>(p, _, s, _, _). p = project \<and> option_all (\<lambda>t. s = t) st) (lw_stats w) l)) level_names), w))"

subsection \<open>The query\<close>

record log_page =
  lp_logs :: "log_entry list"
  lp_next :: "string option"
  lp_total :: "nat option"
  lp_exact :: bool

definition log_query :: "uuid_text \<Rightarrow> log_filter \<Rightarrow> nat \<Rightarrow> string \<Rightarrow> log_page log_op" where
  "log_query ut f limit cursor w =
     (case read_clock w of (now, w1) \<Rightarrow>
      case apply_scan_window now f of
        Inl e \<Rightarrow> (Inl e, w1)
      | Inr f \<Rightarrow>
          (case (if cursor = [] then Inr None
                 else case decode_cursor ut cursor of None \<Rightarrow> Inl Err_cursor | Some c \<Rightarrow> Inr (Some c)) of
             Inl e \<Rightarrow> (Inl e, w1)
           | Inr after \<Rightarrow> try_op (s_log_query f limit after) (\<lambda>(logs, total). ret_op
               \<lparr> lp_logs = logs,
                 lp_next = (if length logs = limit
                            then Some (encode_cursor ut (lg_ts (last logs), lg_id (last logs))) else None),
                 lp_total = (if lf_total f = Total_none then None else Some total),
                 lp_exact = (case lf_total f of Total_none \<Rightarrow> False | Total_exact \<Rightarrow> True
                   | Total_bounded \<Rightarrow> total < total_cap) \<rparr>) w1))"

subsection \<open>Choosing projects\<close>

abbreviation max_org_log_projects :: nat where "max_org_log_projects \<equiv> 50"

datatype select_error = Too_many_projects | Invalid_project | Project_not_found

fun select_each :: "(string \<Rightarrow> uuid option) \<Rightarrow> uuid list \<Rightarrow> uuid list \<Rightarrow> string list \<Rightarrow> select_error + uuid list" where
  "select_each parse visible out [] = Inr out"
| "select_each parse visible out (raw # raws) =
     (case parse raw of
        None \<Rightarrow> Inl Invalid_project
      | Some i \<Rightarrow>
          if i \<notin> set visible then Inl Project_not_found
          else select_each parse visible (if i \<in> set out then out else out @ [i]) raws)"

definition select_projects :: "(string \<Rightarrow> uuid option) \<Rightarrow> string list \<Rightarrow> uuid list \<Rightarrow> select_error + uuid list" where
  "select_projects parse requested visible =
     (if requested = [] then if max_org_log_projects < length visible then Inl Too_many_projects else Inr visible
      else if max_org_log_projects < length requested then Inl Too_many_projects
      else select_each parse visible [] requested)"

subsection \<open>The export\<close>

abbreviation export_page_size :: nat where "export_page_size \<equiv> 1000"
abbreviation max_export_rows :: nat where "max_export_rows \<equiv> 100000"

datatype export_error = Export_query log_error | Export_write | Export_cancelled

text \<open>
  \<open>sink\<close> says, write by write, whether the client is gone. The answer of \<open>write_rows\<close> is what was
  written and, when the export ends there, how.
\<close>

fun write_rows ::
  "nat \<Rightarrow> log_entry list \<Rightarrow> log_entry list \<Rightarrow> bool list \<Rightarrow>
    log_entry list \<times> bool list \<times> export_error option option" where
  "write_rows max_rows [] written sink = (written, sink, None)"
| "write_rows max_rows (l # ls) written sink =
     (if max_rows \<le> length written then (written, sink, Some None)
      else if sink \<noteq> [] \<and> hd sink then (written, tl sink, Some (Some Export_write))
      else write_rows max_rows ls (written @ [l]) (tl sink))"

partial_function (option) write_export ::
  "(string \<Rightarrow> log_page log_op) \<Rightarrow> nat \<Rightarrow> string \<Rightarrow> log_entry list \<Rightarrow> bool list \<Rightarrow> log_world \<Rightarrow>
    ((log_entry list \<times> export_error option) \<times> log_world) option" where
  "write_export fetch max_rows cursor written sink w =
     (case fetch cursor w of
        (Inl e, w1) \<Rightarrow> Some ((written, Some (Export_query e)), w1)
      | (Inr page, w1) \<Rightarrow>
          (case write_rows max_rows (lp_logs page) written sink of (written, sink, stop) \<Rightarrow>
             if stop \<noteq> None then Some ((written, the stop), w1)
             else (case lp_next page of
               None \<Rightarrow> Some ((written, None), w1)
             | Some next_cursor \<Rightarrow>
                 if sink \<noteq> [] \<and> hd sink then Some ((written, Some Export_write), w1)
                 else (case lw_cancel w1 of
                   Some 0 \<Rightarrow> Some ((written, Some Export_cancelled), w1)
                 | c \<Rightarrow> write_export fetch max_rows next_cursor written (tl sink)
                     (w1\<lparr> lw_cancel := map_option (\<lambda>n. n - 1) c \<rparr>)))))"

definition export_row_limit :: "nat option \<Rightarrow> nat" where
  "export_row_limit requested = (case requested of None \<Rightarrow> max_export_rows | Some n \<Rightarrow> min n max_export_rows)"

definition stream_export ::
  "uuid_text \<Rightarrow> log_filter \<Rightarrow> nat option \<Rightarrow> bool list \<Rightarrow> log_world \<Rightarrow>
    (log_error + ((log_entry list \<times> export_error option) \<times> log_world) option)" where
  "stream_export ut f requested sink w =
     (let f = f\<lparr> lf_total := Total_none \<rparr> in
      case log_query ut f export_page_size [] w of
        (Inl e, w1) \<Rightarrow> Inl e
      | (Inr first, w1) \<Rightarrow> Inr (write_export
          (\<lambda>c w. if c = [] then (Inr first, w) else log_query ut f export_page_size c w)
          (export_row_limit requested) [] [] sink w1))"

end
