(* ===== verification/LogPages.thy ===== *)
theory LogPages
  imports LogQuery RetentionRun "HOL-Library.Multiset"
begin

text \<open>
  The pages of a query: the fan-out over projects gives the page one query over all of them would,
  the cursor goes on exactly after the last row, and an export therefore writes every matching row
  once, in order.
\<close>

subsection \<open>Merging the newest of each part\<close>

lemma mset_foldr_insort: "mset (foldr (insort_key f) B M) = mset B + mset M"
  by (induction B) simp_all

lemma length_filter_mset: "mset xs = mset ys \<Longrightarrow> length (filter P xs) = length (filter P ys)"
  by (metis mset_filter size_mset)

lemma sort_key_mset:
  assumes "mset xs = mset ys" and "inj_on f (set ys)"
  shows "sort_key f xs = sort_key f ys"
proof (rule properties_for_sort_key)
  show "mset (sort_key f ys) = mset xs" using assms(1) by simp
  show "filter (\<lambda>x. f k = f x) (sort_key f ys) = filter (\<lambda>x. f k = f x) xs" if k: "k \<in> set (sort_key f ys)" for k
  proof -
    have s: "set xs = set ys" using assms(1) by (rule mset_eq_setD)
    have all: "filter (\<lambda>x. f k = f x) zs = replicate (length (filter (\<lambda>x. f k = f x) zs)) k" if "set zs = set ys" for zs
      using that assms(2) k by (intro replicate_length_same [symmetric]) (auto dest: inj_onD)
    have "length (filter (\<lambda>x. f k = f x) (sort_key f ys)) = length (filter (\<lambda>x. f k = f x) xs)"
      by (rule length_filter_mset) (simp add: assms(1))
    then show ?thesis using all [of "sort_key f ys"] all [of xs] s by simp
  qed
  show "sorted (map f (sort_key f ys))" by simp
qed

lemma take_insort:
  assumes "n \<le> length (filter (\<lambda>x. f x < f b) M)" and "sorted (map f M)"
  shows "take n (insort_key f b M) = take n M"
  using assms
proof (induction M arbitrary: n)
  case (Cons x M)
  show ?case
  proof (cases n)
    case (Suc m)
    show ?thesis
    proof (cases "f b \<le> f x")
      case True
      then have "filter (\<lambda>x. f x < f b) (x # M) = []"
        using Cons.prems(2) by (fastforce simp: filter_empty_conv)
      then show ?thesis using Cons.prems(1) Suc by simp
    next
      case False
      then have "m \<le> length (filter (\<lambda>x. f x < f b) M)" using Cons.prems(1) Suc by (simp add: not_le)
      then show ?thesis using Cons.IH Cons.prems(2) False Suc by simp
    qed
  qed simp
qed simp

lemma sorted_foldr_insort: "sorted (map f M) \<Longrightarrow> sorted (map f (foldr (insort_key f) B M))"
  by (induction B) (simp_all add: sorted_insort_key)

lemma take_insort_many:
  assumes "\<And>b. b \<in> set B \<Longrightarrow> n \<le> length (filter (\<lambda>x. f x < f b) M)" and "sorted (map f M)"
  shows "take n (foldr (insort_key f) B M) = take n M"
  using assms
proof (induction B)
  case (Cons b B)
  let ?M = "foldr (insort_key f) B M"
  have "mset (filter (\<lambda>x. f x < f b) ?M) = mset (filter (\<lambda>x. f x < f b) (B @ M))"
    by (simp add: mset_foldr_insort)
  then have "length (filter (\<lambda>x. f x < f b) M) \<le> length (filter (\<lambda>x. f x < f b) ?M)"
    by (metis filter_append le_add2 length_append size_mset)
  then have "take n (insort_key f b ?M) = take n ?M"
    using Cons.prems sorted_foldr_insort [OF Cons.prems(2), of B]
    by (intro take_insort) (auto intro: order_trans)
  then show ?case using Cons by simp
qed simp

lemma foldr_insort_sort: "foldr (insort_key f) B (sort_key f xs) = sort_key f (B @ xs)"
  by (simp add: sort_key_def)

lemma take_sort_merge:
  assumes "inj_on f (set (xs @ ys))" and "distinct xs"
  shows "take n (sort_key f (take n (sort_key f xs) @ ys)) = take n (sort_key f (xs @ ys))"
proof -
  let ?S = "sort_key f xs" and ?M = "sort_key f (take n (sort_key f xs) @ ys)"
  have disj: "set (take n ?S) \<inter> set (drop n ?S) = {}"
    using assms(2) by (metis append_take_drop_id distinct_append distinct_sort)
  have "mset (take n ?S) + mset (drop n ?S) = mset xs"
    by (simp only: mset_append [symmetric] append_take_drop_id mset_sort)
  then have "mset (drop n ?S @ take n ?S @ ys) = mset (xs @ ys)"
    unfolding mset_append by (metis add.assoc add.commute)
  then have all: "foldr (insort_key f) (drop n ?S) ?M = sort_key f (xs @ ys)"
    unfolding foldr_insort_sort by (rule sort_key_mset [OF _ assms(1)])
  have "n \<le> length (filter (\<lambda>x. f x < f b) ?M)" if b: "b \<in> set (drop n ?S)" for b
  proof -
    have "f a < f b" if "a \<in> set (take n ?S)" for a
    proof -
      have "sorted (map f (take n ?S) @ map f (drop n ?S))"
        by (simp only: map_append [symmetric] append_take_drop_id sorted_sort_key)
      then have "f a \<le> f b" using that b by (auto simp: sorted_append)
      moreover have "a \<noteq> b" using that b disj by blast
      moreover have "a \<in> set xs" "b \<in> set xs" using that b by (auto dest: in_set_takeD in_set_dropD)
      ultimately show ?thesis using assms(1) by (auto simp: inj_on_def order_le_less)
    qed
    then have "filter (\<lambda>x. f x < f b) (take n ?S) = take n ?S" by (simp add: filter_id_conv)
    moreover have "length (take n ?S) = n" using b by (cases "n \<le> length ?S") auto
    moreover have "length (filter (\<lambda>x. f x < f b) ?M) = length (filter (\<lambda>x. f x < f b) (take n ?S @ ys))"
      by (rule length_filter_mset) simp
    ultimately show ?thesis by simp
  qed
  then have "take n (foldr (insort_key f) (drop n ?S) ?M) = take n ?M"
    by (intro take_insort_many) auto
  then show ?thesis unfolding all by simp
qed

lemma take_sort_merge_all:
  assumes "inj_on f (set (concat (map g ps) @ zs))" and "\<And>p. p \<in> set ps \<Longrightarrow> distinct (g p)"
  shows "take n (sort_key f (concat (map (\<lambda>p. take n (sort_key f (g p))) ps) @ zs)) =
    take n (sort_key f (concat (map g ps) @ zs))"
  using assms
proof (induction ps arbitrary: zs)
  case (Cons p ps)
  let ?T = "concat (map (\<lambda>p. take n (sort_key f (g p))) ps)" and ?C = "concat (map g ps)"
  have sub: "set ?T \<subseteq> set ?C" by (auto dest!: in_set_takeD)
  have "take n (sort_key f (concat (map (\<lambda>p. take n (sort_key f (g p))) (p # ps)) @ zs)) =
      take n (sort_key f (g p @ ?T @ zs))"
    using take_sort_merge [of f "g p" "?T @ zs" n] Cons.prems sub by (simp, meson inj_on_subset Un_mono subset_refl)
  also have "sort_key f (g p @ ?T @ zs) = sort_key f (?T @ (zs @ g p))"
    using Cons.prems(1) sub by (intro sort_key_mset) (auto intro: inj_on_subset)
  also have "take n \<dots> = take n (sort_key f (?C @ (zs @ g p)))"
    using Cons.prems by (intro Cons.IH) (auto intro: inj_on_subset)
  also have "sort_key f (?C @ (zs @ g p)) = sort_key f (concat (map g (p # ps)) @ zs)"
    using Cons.prems(1) by (intro sort_key_mset) (auto intro: inj_on_subset)
  finally show ?case .
qed simp

lemma mset_concat_by:
  "distinct ps \<Longrightarrow> mset (concat (map (\<lambda>p. filter (\<lambda>x. h x = p \<and> Q x) xs) ps)) = mset (filter (\<lambda>x. h x \<in> set ps \<and> Q x) xs)"
proof (induction ps)
  case (Cons p ps)
  have "mset (filter (\<lambda>x. h x \<in> set (p # ps) \<and> Q x) xs) =
      mset (filter (\<lambda>x. h x = p \<and> Q x) xs) + mset (filter (\<lambda>x. h x \<in> set ps \<and> Q x) xs)"
    using Cons.prems by (induction xs) auto
  then show ?case using Cons by simp
qed simp

subsection \<open>One page\<close>

definition selected :: "log_filter \<Rightarrow> log_row list \<Rightarrow> log_row list" where
  "selected f rows = sort_key order_key
     (filter (\<lambda>r. lr_project r \<in> (if lf_projects f = [] then {lf_project f} else set (lf_projects f)) \<and> log_matches f r) rows)"

definition table_ok :: "log_row list \<Rightarrow> bool" where
  "table_ok rows \<longleftrightarrow> distinct (map lr_id rows)
     \<and> list_all (\<lambda>r. lr_level r \<in> set level_names \<and> pg_time (lr_ts r) = lr_ts r) rows"

lemma table_ok_distinct: "table_ok rows \<Longrightarrow> distinct rows"
  by (simp add: table_ok_def distinct_map)

lemma inj_order_key: "table_ok rows \<Longrightarrow> inj_on order_key (set rows)"
  by (auto simp: table_ok_def distinct_map inj_on_def order_key_def)

lemma fan_out_is_one_query:
  assumes "table_ok rows" and "distinct (lf_projects f)"
  shows "page_rows f limit after rows = take limit (filter (beyond after) (selected f rows))"
proof (cases "lf_projects f = []")
  case True
  then show ?thesis by (simp add: page_rows_def page_of_def selected_def filter_sort conj_ac)
next
  case False
  let ?sel = "\<lambda>p. filter (\<lambda>r. lr_project r = p \<and> (log_matches f r \<and> beyond after r)) rows"
  let ?ps = "lf_projects f"
  have inj: "inj_on order_key (set (concat (map ?sel ?ps)))"
    by (rule inj_on_subset [OF inj_order_key [OF assms(1)]]) auto
  have "page_rows f limit after rows = take limit (sort_key order_key (concat (map ?sel ?ps)))"
    using take_sort_merge_all [of order_key ?sel ?ps "[]" limit] inj table_ok_distinct [OF assms(1)] False
    by (simp add: page_rows_def page_of_def)
  also have "sort_key order_key (concat (map ?sel ?ps)) =
      sort_key order_key (filter (\<lambda>r. lr_project r \<in> set ?ps \<and> (log_matches f r \<and> beyond after r)) rows)"
    by (rule sort_key_mset [OF mset_concat_by [OF assms(2)]])
       (rule inj_on_subset [OF inj_order_key [OF assms(1)]], auto)
  also have "\<dots> = filter (beyond after) (selected f rows)"
    using False by (simp add: selected_def filter_sort conj_ac)
  finally show ?thesis .
qed

subsection \<open>Following the cursor\<close>

lemma after_last:
  assumes "sorted (map f (xs @ ys))" and "inj_on f (set (xs @ ys))" and "distinct (xs @ ys)" and "xs \<noteq> []"
  shows "filter (\<lambda>x. f (last xs) < f x) (xs @ ys) = ys"
proof -
  have "f x \<le> f (last xs)" if "x \<in> set xs" for x
  proof -
    have "sorted (map f (butlast xs @ [last xs]))" using assms(1,4) by (simp add: sorted_append)
    then show ?thesis using that assms(4)
      by (subst (asm) map_append) (metis (no_types, lifting) UnE append_butlast_last_id imageI list.set_map list.simps(8,9)
        list.set_intros(1) order_refl set_append set_ConsD empty_iff empty_set sorted_append)
  qed
  moreover have "f (last xs) < f y" if "y \<in> set ys" for y
  proof -
    have "last xs \<in> set xs" using assms(4) by simp
    then have "f (last xs) \<le> f y" "last xs \<noteq> y" using assms(1,3) that by (auto simp: sorted_append)
    then show ?thesis using assms(2,4) that by (auto simp: inj_on_def order_le_less)
  qed
  ultimately show ?thesis by (fastforce simp: filter_empty_conv filter_id_conv not_less)
qed

definition row_cursor :: "log_row \<Rightarrow> instant \<times> uuid" where
  "row_cursor r = (lr_ts r, lr_id r)"

lemma beyond_row:
  "pg_time (lr_ts r) = lr_ts r \<Longrightarrow> beyond (Some (row_cursor r)) x \<longleftrightarrow> order_key r < order_key x"
  by (auto simp: beyond_def row_cursor_def order_key_def less_prod_def)

lemma selected_rows: "set (selected f rows) \<subseteq> set rows"
  by (auto simp: selected_def)

lemma rest_after:
  assumes "table_ok rows" and "selected f rows = xs @ ys" and "xs \<noteq> []"
  shows "filter (beyond (Some (row_cursor (last xs)))) (selected f rows) = ys"
proof -
  have "last xs \<in> set rows" using selected_rows [of f rows] assms(2,3) last_in_set [OF assms(3)] by auto
  then have "pg_time (lr_ts (last xs)) = lr_ts (last xs)" using assms(1) by (auto simp: table_ok_def list_all_iff)
  note b = beyond_row [OF this]
  have "sorted (map order_key (xs @ ys))" by (simp only: assms(2) [symmetric] selected_def sorted_sort_key)
  moreover have "distinct (xs @ ys)"
    using table_ok_distinct [OF assms(1)] by (simp only: assms(2) [symmetric] selected_def) simp
  moreover have "inj_on order_key (set (xs @ ys))"
    unfolding assms(2) [symmetric] by (rule inj_on_subset [OF inj_order_key [OF assms(1)] selected_rows])
  ultimately show ?thesis unfolding b assms(2) by (intro after_last assms(3))
qed

subsection \<open>The export\<close>

text \<open>The rows have years of at most four digits, and identifiers whose texts the library reads back.\<close>

definition texts_ok :: "uuid_text \<Rightarrow> log_row list \<Rightarrow> bool" where
  "texts_ok ut rows \<longleftrightarrow>
     list_all (\<lambda>r. 0 \<le> year_of (lr_ts r) \<and> year_of (lr_ts r) \<le> 9999 \<and> uuid_text_ok ut (lr_id r)) rows"

lemma row_cursor_reads_back:
  "texts_ok ut rows \<Longrightarrow> r \<in> set rows \<Longrightarrow>
    encode_cursor ut (row_cursor r) \<noteq> [] \<and> decode_cursor ut (encode_cursor ut (row_cursor r)) = Some (row_cursor r)"
  unfolding row_cursor_def by (rule cursor_reads_back) (auto simp: texts_ok_def list_all_iff)

lemma read_clock_keeps:
  "read_clock w = (now, w') \<Longrightarrow> lw_logs w' = lw_logs w \<and> lw_faults w' = lw_faults w \<and> lw_cancel w' = lw_cancel w"
  by (auto simp: read_clock_def split: list.splits)

lemma to_bus_logs_map:
  assumes "list_all (\<lambda>r. lr_level r \<in> set level_names) rows"
  shows "\<exists>ls. to_bus_logs rows = Inr ls \<and> map Inr ls = map to_bus_log rows"
  using assms
proof (induction rows)
  case (Cons r rows)
  then obtain ls where "to_bus_logs rows = Inr ls" "map Inr ls = map to_bus_log rows" by auto
  moreover obtain l where "to_bus_log r = Inr l" using Cons.prems by (simp add: to_bus_log_def parse_log_level_def)
  ultimately show ?case by simp
qed simp

lemma to_bus_log_cursor: "to_bus_log r = Inr l \<Longrightarrow> (lg_ts l, lg_id l) = row_cursor r"
  by (auto simp: to_bus_log_def row_cursor_def split: sum.splits)

definition quiet :: "log_world \<Rightarrow> log_row list \<Rightarrow> bool" where
  "quiet w rows \<longleftrightarrow> lw_faults w = [] \<and> lw_cancel w = None \<and> lw_logs w = rows"

text \<open>A page of what is left: its rows, and the cursor of its last row when it is full.\<close>

definition page_is :: "uuid_text \<Rightarrow> log_row list \<Rightarrow> log_page \<Rightarrow> bool" where
  "page_is ut left page \<longleftrightarrow>
     map Inr (lp_logs page) = map to_bus_log (take export_page_size left)
     \<and> lp_next page = (if length (take export_page_size left) = export_page_size
         then Some (encode_cursor ut (row_cursor (last (take export_page_size left)))) else None)"

lemma page_next:
  assumes "map Inr ls = map to_bus_log rows" and "rows \<noteq> []"
  shows "(lg_ts (last ls), lg_id (last ls)) = row_cursor (last rows)"
proof -
  have "ls \<noteq> []" using assms by auto
  then have "to_bus_log (last rows) = Inr (last ls)" using assms by (metis last_map)
  then show ?thesis by (rule to_bus_log_cursor)
qed

lemma selected_total [simp]: "selected (f\<lparr> lf_total := m \<rparr>) rows = selected f rows"
  by (simp add: selected_def log_matches_def)

lemma log_query_page:
  assumes "table_ok rows" and "distinct (lf_projects f)" and "quiet w rows"
    and "\<And>now. apply_scan_window now f = Inr f" and "lf_total f = Total_none"
    and "cursor = [] \<and> after = None \<or> cursor \<noteq> [] \<and> (\<exists>c. decode_cursor ut cursor = Some c \<and> after = Some c)"
  shows "\<exists>page w'. log_query ut f export_page_size cursor w = (Inr page, w') \<and> quiet w' rows
    \<and> page_is ut (filter (beyond after) (selected f rows)) page"
proof -
  let ?left = "filter (beyond after) (selected f rows)"
  let ?rows = "take export_page_size ?left"
  obtain now w1 where c: "read_clock w = (now, w1)" by fastforce
  then have w1: "quiet w1 rows" using read_clock_keeps [OF c] assms(3) by (simp add: quiet_def)
  have p: "page_rows f export_page_size after rows = ?rows" by (rule fan_out_is_one_query [OF assms(1,2)])
  have "set ?rows \<subseteq> set rows" using selected_rows [of f rows] by (auto dest!: in_set_takeD)
  then have "list_all (\<lambda>r. lr_level r \<in> set level_names) ?rows" using assms(1) by (auto simp: table_ok_def list_all_iff)
  then obtain ls where ls: "to_bus_logs ?rows = Inr ls" "map Inr ls = map to_bus_log ?rows"
    using to_bus_logs_map by blast
  have len: "length ls = length ?rows" using ls(2) by (metis length_map)
  have q: "s_log_query f export_page_size after w1 = (Inr (ls, 0), w1)"
    using w1 ls(1) assms(5) unfolding p [symmetric]
    by (simp add: s_log_query_def log_call_ok quiet_def try_op_def)
  let ?page = "\<lparr> lp_logs = ls, lp_next = (if length ls = export_page_size
      then Some (encode_cursor ut (lg_ts (last ls), lg_id (last ls))) else None), lp_total = None, lp_exact = False \<rparr>"
  have "log_query ut f export_page_size cursor w = (Inr ?page, w1)"
    using assms(4) [of now] assms(5,6) q c by (auto simp: log_query_def try_op_def)
  moreover have "page_is ut ?left ?page"
    using ls(2) len page_next [OF ls(2)] by (cases "?rows = []") (simp_all add: page_is_def)
  ultimately show ?thesis using w1 by blast
qed

lemma write_rows_all:
  "length written \<le> n \<Longrightarrow> write_rows n ls written [] =
    (written @ take (n - length written) ls, [], if length ls \<le> n - length written then None else Some None)"
proof (induction ls arbitrary: written)
  case (Cons l ls)
  then show ?case by (cases "length written = n") (auto simp: take_Cons' not_le Suc_diff_le)
qed simp

lemma quiet_cancel: "quiet w rows \<Longrightarrow> lw_cancel w = None \<and> w\<lparr> lw_cancel := None \<rparr> = w"
  by (simp add: quiet_def)

lemma export_rest:
  assumes "table_ok rows" and "texts_ok ut rows" and "distinct (lf_projects f)"
    and "\<And>now. apply_scan_window now f = Inr f" and "lf_total f = Total_none"
    and fetch: "fetch = (\<lambda>c w. if c = [] then (Inr first, w) else log_query ut f export_page_size c w)"
  shows "fetch cursor w = (Inr page, w1) \<Longrightarrow> quiet w1 rows \<Longrightarrow> page_is ut left page \<Longrightarrow>
    selected f rows = seen @ left \<Longrightarrow> map Inr written = map to_bus_log seen \<Longrightarrow> length seen \<le> n \<Longrightarrow>
    \<exists>out w2. write_export fetch n cursor written [] w = Some ((out, None), w2)
      \<and> map Inr out = map to_bus_log (take n (seen @ left))"
proof (induction "length left" arbitrary: cursor w page w1 left seen written rule: less_induct)
  case less
  let ?now = "take export_page_size left"
  have lw: "length written = length seen" using less.prems(5) by (metis length_map)
  have logs: "map Inr (lp_logs page) = map to_bus_log ?now" using less.prems(3) by (simp only: page_is_def)
  have ll: "length (lp_logs page) = length ?now" using logs by (metis length_map)
  have wr: "write_rows n (lp_logs page) written [] = (written @ take (n - length seen) (lp_logs page), [],
      if length ?now \<le> n - length seen then None else Some None)"
    using write_rows_all [of written n "lp_logs page"] less.prems(6) lw ll by simp
  have out: "map Inr (written @ take (n - length seen) (lp_logs page)) =
      map to_bus_log (take n (seen @ ?now))"
    using less.prems(5,6) logs by (simp add: take_map [symmetric])
  show ?case
  proof (cases "length ?now \<le> n - length seen")
    case False
    then have "n - length seen \<le> export_page_size" by simp
    then have "take n (seen @ ?now) = take n (seen @ left)" by (simp add: min_def)
    then show ?thesis
      using less.prems(1) wr False out by (subst write_export.simps) simp
  next
    case fits: True
    show ?thesis
    proof (cases "lp_next page")
      case None
      then have "?now = left" using less.prems(3) by (auto simp: page_is_def split: if_splits)
      then show ?thesis
        using less.prems(1) wr fits out None by (subst write_export.simps) simp
    next
      case (Some c)
      then have full: "length ?now = export_page_size" and c: "c = encode_cursor ut (row_cursor (last ?now))"
        using less.prems(3) by (auto simp: page_is_def split: if_splits)
      then have ne: "?now \<noteq> []" by auto
      then have "last ?now \<in> set rows"
        using selected_rows [of f rows] less.prems(4) in_set_takeD [OF last_in_set [OF ne]] by auto
      then have dec: "c \<noteq> []" "decode_cursor ut c = Some (row_cursor (last ?now))"
        using row_cursor_reads_back [OF assms(2)] unfolding c by simp_all
      have parts: "selected f rows = (seen @ ?now) @ drop export_page_size left" using less.prems(4) by simp
      have "filter (beyond (Some (row_cursor (last ?now)))) (selected f rows) = drop export_page_size left"
        using rest_after [OF assms(1) parts] ne by simp
      moreover obtain page' w2 where next_page: "log_query ut f export_page_size c w1 = (Inr page', w2)"
        "quiet w2 rows"
        "page_is ut (filter (beyond (Some (row_cursor (last ?now)))) (selected f rows)) page'"
        using log_query_page [OF assms(1,3) less.prems(2) assms(4,5)] dec by blast
      ultimately have page': "page_is ut (drop export_page_size left) page'" by simp
      have "\<exists>out w3. write_export fetch n c (written @ lp_logs page) [] w1 = Some ((out, None), w3)
          \<and> map Inr out = map to_bus_log (take n ((seen @ ?now) @ drop export_page_size left))"
      proof (rule less.hyps [OF _ _ next_page(2) page' parts])
        show "length (drop export_page_size left) < length left" using full by simp
        show "fetch c w1 = (Inr page', w2)" using next_page(1) dec(1) by (simp add: fetch)
        show "map Inr (written @ lp_logs page) = map to_bus_log (seen @ ?now)" using logs less.prems(5) by simp
        show "length (seen @ ?now) \<le> n" using fits less.prems(6) by simp
      qed
      moreover have "write_export fetch n cursor written [] w = write_export fetch n c (written @ lp_logs page) [] w1"
        using less.prems(1) wr fits ll Some quiet_cancel [OF less.prems(2)]
        by (subst write_export.simps) simp
      ultimately show ?thesis by simp
    qed
  qed
qed

lemma window_kept:
  "lf_tags f = [] \<or> (\<exists>from to. lf_from f = Some from \<and> lf_to f = Some to \<and> time_sub to from \<le> max_raw_window) \<Longrightarrow>
    apply_scan_window now f = Inr f"
  by (auto simp: apply_scan_window_def scan_filters_def)

text \<open>
  C21: an export is complete. Let the table be as the inserts leave it and stay so, the years of
  its rows have at most four digits and their identifiers read back, the chosen projects be
  distinct, the filter have no tags or a window with both ends of at most the raw limit, no call
  fail, the client stay and nothing cancel. Then the export returns, reports no error, and has
  written exactly the newest matching rows of the chosen projects, newest first, each once, up to
  the cap of the request or 100000: over any number of pages no row is skipped, doubled or out of
  order.
\<close>

theorem export_complete:
  assumes "table_ok (lw_logs w)" and "texts_ok ut (lw_logs w)" and "distinct (lf_projects f)"
    and "lf_tags f = [] \<or> (\<exists>from to. lf_from f = Some from \<and> lf_to f = Some to \<and> time_sub to from \<le> max_raw_window)"
    and "lw_faults w = []" and "lw_cancel w = None"
  shows "\<exists>out w'. stream_export ut f requested [] w = Inr (Some ((out, None), w'))
    \<and> map Inr out = map to_bus_log (take (export_row_limit requested) (selected f (lw_logs w)))"
proof -
  let ?f = "f\<lparr> lf_total := Total_none \<rparr>" and ?rows = "lw_logs w"
  have win: "\<And>now. apply_scan_window now ?f = Inr ?f" using assms(4) by (intro window_kept) auto
  have d: "distinct (lf_projects ?f)" and t: "lf_total ?f = Total_none" using assms(3) by simp_all
  have q: "quiet w ?rows" using assms(5,6) by (simp add: quiet_def)
  have "beyond None = (\<lambda>r. True)" by (auto simp: beyond_def)
  then obtain first w1 where first_page: "log_query ut ?f export_page_size [] w = (Inr first, w1)"
    "quiet w1 ?rows" "page_is ut (selected ?f ?rows) first"
    using log_query_page [OF assms(1) d q win t, of "[]" None ut] by auto
  let ?fetch = "\<lambda>c w. if c = [] then (Inr first, w) else log_query ut ?f export_page_size c w"
  have "\<exists>out w2. write_export ?fetch (export_row_limit requested) [] [] [] w1 = Some ((out, None), w2)
      \<and> map Inr out = map to_bus_log (take (export_row_limit requested) ([] @ selected ?f ?rows))"
  proof (rule export_rest [OF assms(1,2) d win t refl])
    show "?fetch [] w1 = (Inr first, w1)" by simp
    show "page_is ut (selected ?f ?rows) first" by (rule first_page(3))
  qed (use first_page(2) in simp_all)
  then show ?thesis using first_page(1) by (auto simp: stream_export_def Let_def)
qed

subsection \<open>What the inserts leave\<close>

lemma pg_time_twice: "pg_time (pg_time t) = pg_time t"
  by (simp add: pg_time_def time_truncate_def)

lemma bulk_create_table_ok:
  assumes "table_ok (lw_logs w)"
  shows "table_ok (lw_logs (snd (bulk_create nls w)))"
proof -
  obtain r w' where b: "bulk_create nls w = (r, w')" by fastforce
  obtain r1 w1 where n: "new_entries nls w = (r1, w1)" by fastforce
  from new_entries_done [OF n] obtain ls where "r1 = Inr ls" and w1: "lw_logs w1 = lw_logs w" by auto
  then have "try_op (bulk_insert ls) (\<lambda>_. ret_op ls) w1 = (r, w')" using b n by (simp add: bulk_create_def)
  then obtain r' where bi: "bulk_insert ls w1 = (r', w')"
    by (auto simp: try_op_def split: prod.splits sum.splits)
  have d: "distinct (map lr_id (lw_logs w1))" using assms w1 by (simp add: table_ok_def)
  from bi d show ?thesis
  proof (cases rule: bulk_insert_cases)
    case 1
    then show ?thesis using assms b w1 by simp
  next
    case 2
    have "list_all (\<lambda>r. pg_time (lr_ts r) = lr_ts r) (map to_db_log ls)"
      by (simp add: list_all_iff to_db_log_def pg_time_twice)
    then show ?thesis using assms b w1 2 by (simp add: table_ok_def list_all_iff ball_Un)
  qed
qed

definition plain_filter :: log_filter where
  "plain_filter = \<lparr> lf_project = 0, lf_projects = [1, 2], lf_levels = [], lf_search = None, lf_source = None, lf_tags = [],
     lf_meta = [], lf_from = None, lf_to = None, lf_source_type = None, lf_total = Total_bounded \<rparr>"

definition two_rows :: "log_row list" where
  "two_rows = [sample_row, sample_row\<lparr> lr_id := 8, lr_project := 2, lr_ts := 5000, lr_level := log_err \<rparr>]"

definition sample_text :: uuid_text where
  "sample_text = \<lparr> ut_show = (\<lambda>i. if i = 7 then ''7'' else ''8''),
     ut_parse = (\<lambda>s. if s = ''7'' then Some 7 else if s = ''8'' then Some 8 else None) \<rparr>"

lemma sample_years: "year_of 0 = 1" "year_of 5000 = 1"
  by code_simp+

lemma sample_text_ok: "uuid_text_ok sample_text 7" "uuid_text_ok sample_text 8"
proof -
  have hex: "lower_hex (CHR ''7'')" "lower_hex (CHR ''8'')" by code_simp+
  show "uuid_text_ok sample_text 7" "uuid_text_ok sample_text 8" by (simp_all add: uuid_text_ok_def sample_text_def hex)
qed

theorem export_complete_witness:
  "\<exists>out w'. stream_export sample_text plain_filter (Some 1) [] ((retained_world None)\<lparr> lw_logs := two_rows \<rparr>)
      = Inr (Some ((out, None), w')) \<and> map lg_id out = [8]"
proof -
  let ?w = "(retained_world None)\<lparr> lw_logs := two_rows \<rparr>"
  have "table_ok (lw_logs ?w)"
    by (simp add: table_ok_def two_rows_def sample_row_def level_names_def pg_time_def time_truncate_def)
  moreover have "texts_ok sample_text (lw_logs ?w)"
    by (simp add: texts_ok_def two_rows_def sample_row_def sample_years sample_text_ok)
  moreover have "distinct (lf_projects plain_filter)" "lf_tags plain_filter = []" "lw_faults ?w = []" "lw_cancel ?w = None"
    by (simp_all add: plain_filter_def retained_world_def)
  ultimately obtain out w' where r: "stream_export sample_text plain_filter (Some 1) [] ?w = Inr (Some ((out, None), w'))"
    and o: "map Inr out = map to_bus_log (take (export_row_limit (Some 1)) (selected plain_filter (lw_logs ?w)))"
    using export_complete [of ?w sample_text plain_filter "Some 1"] by blast
  have "map to_bus_log (take (export_row_limit (Some 1)) (selected plain_filter (lw_logs ?w))) = [to_bus_log (two_rows ! 1)]"
    by (simp add: export_row_limit_def selected_def plain_filter_def two_rows_def sample_row_def log_matches_def
        option_all_def order_key_def less_eq_prod_def)
  then have "map Inr out = [to_bus_log (two_rows ! 1)]" using o by simp
  then obtain l where "out = [l]" "to_bus_log (two_rows ! 1) = Inr l" by (cases out) auto
  then have "map lg_id out = [8]"
    by (auto simp: to_bus_log_def two_rows_def parse_log_level_def sample_row_def level_names_def split: if_splits)
  then show ?thesis using r by (intro exI conjI)
qed

end
