(* ===== verification/IngestRun.thy ===== *)
theory IngestRun
  imports Otlp Logfmt LogPages
begin

text \<open>
  What a request of a collector may do: where its records go, how each is accounted for, and what
  the tables of ingestion keep through requests and the jobs they leave behind.
\<close>

subsection \<open>What the bulk insert leaves alone\<close>

definition beside :: "log_world \<Rightarrow> log_world" where
  "beside w = w\<lparr> lw_logs := [], lw_stats := [], lw_fresh := 0, lw_faults := [] \<rparr>"

lemma beside_fields:
  "beside w' = beside w \<Longrightarrow> lw_projects w' = lw_projects w \<and> lw_orgs w' = lw_orgs w \<and> lw_sources w' = lw_sources w
    \<and> lw_usage w' = lw_usage w \<and> lw_app_usage w' = lw_app_usage w \<and> lw_source_hours w' = lw_source_hours w
    \<and> lw_rejects w' = lw_rejects w \<and> lw_plans w' = lw_plans w \<and> lw_subscriptions w' = lw_subscriptions w
    \<and> lw_audit w' = lw_audit w \<and> lw_client w' = lw_client w \<and> lw_now w' = lw_now w"
  by (cases w; cases w') (simp add: beside_def)

lemma beside_updates [simp]:
  "beside (w\<lparr> lw_logs := x \<rparr>) = beside w" "beside (w\<lparr> lw_stats := y \<rparr>) = beside w"
  "beside (w\<lparr> lw_fresh := n \<rparr>) = beside w" "beside (w\<lparr> lw_faults := fs \<rparr>) = beside w"
  by (simp_all add: beside_def)

lemma keeps_log_call:
  assumes "\<And>v bs. P v \<Longrightarrow> P (v\<lparr> lw_faults := bs \<rparr>)" and "keeps P f"
  shows "keeps P (log_call f)"
  using assms by (intro keepsI) (auto simp: log_call_def keeps_def split: list.split)

lemma keeps_tx:
  assumes "\<And>v bs. P v \<Longrightarrow> P (v\<lparr> lw_faults := bs \<rparr>)" and "keeps P m"
  shows "keeps P (tx_op m)"
  using assms by (intro keepsI) (auto simp: tx_op_def keeps_def split: prod.split sum.split; metis snd_conv)

lemma keeps_beside_bulk_create: "keeps (\<lambda>v. beside v = b) (bulk_create nls)"
proof -
  have call: "keeps (\<lambda>v. beside v = b) f \<Longrightarrow> keeps (\<lambda>v. beside v = b) (log_call f)" for f :: "'a log_op"
    by (rule keeps_log_call) simp_all
  have tx: "keeps (\<lambda>v. beside v = b) f \<Longrightarrow> keeps (\<lambda>v. beside v = b) (tx_op f)" for f :: "unit log_op"
    by (rule keeps_tx) simp_all
  have "keeps (\<lambda>v. beside v = b) (s_insert_logs rows)" "keeps (\<lambda>v. beside v = b) (s_add_stats ds)"
    "keeps (\<lambda>v. beside v = b) commit" for rows ds
    unfolding s_insert_logs_def s_add_stats_def commit_def
    by (rule keeps_log_call; simp add: keeps_def)+
  then have "keeps (\<lambda>v. beside v = b) (bulk_insert ls)" for ls
    unfolding bulk_insert_def
    by (intro keeps_try tx keeps_loop call) (auto simp: keeps_ret)
  moreover have "keeps (\<lambda>v. beside v = b) (new_entries nls)" for nls
  proof (induction nls)
    case (Cons nl nls)
    have "keeps (\<lambda>v. beside v = b) fresh_log_id" by (simp add: keeps_def fresh_log_id_def)
    then show ?case using Cons by (auto intro!: keeps_try keeps_ret)
  qed (simp add: keeps_def)
  ultimately show ?thesis unfolding bulk_create_def by (auto intro!: keeps_try keeps_ret)
qed

lemma new_entries_of:
  assumes "new_entries nls w = (r, w')"
  shows "\<exists>ls. r = Inr ls \<and> list_all2 (\<lambda>nl l. \<exists>i. l = entry_of i nl) nls ls \<and> lw_logs w' = lw_logs w \<and> lw_stats w' = lw_stats w"
  using assms
proof (induction nls arbitrary: w w' r)
  case (Cons nl nls)
  obtain r1 w1 where n: "new_entries nls (w\<lparr> lw_fresh := Suc (lw_fresh w) \<rparr>) = (r1, w1)" by fastforce
  from Cons.IH [OF this] obtain ls where "r1 = Inr ls" "list_all2 (\<lambda>nl l. \<exists>i. l = entry_of i nl) nls ls"
    "lw_logs w1 = lw_logs w" "lw_stats w1 = lw_stats w" by auto
  then show ?case using Cons.prems n by (auto simp: fresh_log_id_def)
qed simp

text \<open>A bulk create stores one row per entry, or none.\<close>

lemma bulk_create_cases:
  assumes "bulk_create nls w = (r, w')" and "distinct (map lr_id (lw_logs w))"
  obtains e where "r = Inl e" and "lw_logs w' = lw_logs w" and "lw_stats w' = lw_stats w" and "beside w' = beside w"
  | ls where "r = Inr ls" and "list_all2 (\<lambda>nl l. \<exists>i. l = entry_of i nl) nls ls"
    and "lw_logs w' = lw_logs w @ map to_db_log ls" and "distinct (map lr_id (lw_logs w'))"
    and "list_all (\<lambda>l. lg_level l \<in> set level_names) ls" and "beside w' = beside w"
proof -
  have b: "beside w' = beside w"
    using keepsD [OF keeps_beside_bulk_create, of w "beside w" nls] assms(1) by simp
  obtain r1 w1 where n: "new_entries nls w = (r1, w1)" by fastforce
  from new_entries_of [OF n] obtain ls where ls: "r1 = Inr ls" "list_all2 (\<lambda>nl l. \<exists>i. l = entry_of i nl) nls ls"
    "lw_logs w1 = lw_logs w" "lw_stats w1 = lw_stats w" by auto
  then have i: "try_op (bulk_insert ls) (\<lambda>_. ret_op ls) w1 = (r, w')" using assms(1) n by (simp add: bulk_create_def)
  obtain r' w2 where bi: "bulk_insert ls w1 = (r', w2)" by fastforce
  have d: "distinct (map lr_id (lw_logs w1))" using assms(2) ls by simp
  from bi d show thesis
  proof (cases rule: bulk_insert_cases)
    case 1
    then obtain e where "r' = Inl e" by (cases r') auto
    then show thesis using that(1) i bi 1 ls b by auto
  next
    case 2
    have "list_all (\<lambda>l. lg_level l \<in> set level_names) ls" using 2(5) by (simp add: list_all_iff to_db_log_def)
    then show thesis using that(2) i bi 2 ls b by auto
  qed
qed

subsection \<open>Sampling\<close>

lemma normalize_keeps:
  "ir_level (normalize rec now red) = ir_level rec" "ir_source (normalize rec now red) = ir_source rec"
  "ir_tags (normalize rec now red) = ir_tags rec" "ir_infra (normalize rec now red) = ir_infra rec"
  "ir_ts (normalize rec now red) = normalize_timestamp (ir_ts rec) now"
  by (auto simp: normalize_def Let_def split: option.split)

definition important :: "string \<Rightarrow> bool" where
  "important l \<longleftrightarrow> l = log_warn \<or> l = log_err"

definition of_source :: "source \<Rightarrow> instant \<Rightarrow> new_log \<Rightarrow> bool" where
  "of_source src now nl \<longleftrightarrow> nl_project nl = sc_project src \<and> nl_source_type nl = source_type_infra
     \<and> nl_source_id nl = Some (sc_id src) \<and> nl_ts nl \<le> now + max_future_skew"

lemma sample_records_spec:
  assumes "sample_records src now red roll i recs = (logs, dropped)"
  shows "length logs + dropped = length recs \<and> list_all (of_source src now) logs
    \<and> length (filter (important \<circ> nl_level) logs) = length (filter (important \<circ> ir_level) recs)
    \<and> (1 \<le> sc_sample src \<longrightarrow> dropped = 0)"
  using assms
proof (induction src now red roll i recs arbitrary: logs dropped rule: sample_records.induct)
  case (2 src now red roll i rec recs)
  let ?rec = "normalize rec now (Some red)"
  obtain l d where s: "sample_records src now red roll (i + 1) recs = (l, d)" by fastforce
  have o: "of_source src now (record_to_new_log src ?rec)"
    by (simp add: of_source_def record_to_new_log_def normalize_keeps normalize_timestamp_def)
  have k: "important (ir_level rec) \<or> 1 \<le> sc_sample src \<Longrightarrow> keep_record (ir_level ?rec) (sc_sample src) (roll i)"
    by (auto simp: keep_record_def important_def normalize_keeps)
  have l: "nl_level (record_to_new_log src ?rec) = ir_level rec" by (simp add: record_to_new_log_def normalize_keeps)
  show ?case
    using "2.IH" [OF refl s] "2.prems" s o k l
    by (cases "keep_record (ir_level ?rec) (sc_sample src) (roll i)") (auto simp: Let_def)
qed simp

subsection \<open>Where records go\<close>

definition row_of_source :: "source \<Rightarrow> instant \<Rightarrow> log_row \<Rightarrow> bool" where
  "row_of_source src now r \<longleftrightarrow> lr_project r = sc_project src \<and> lr_source_type r = source_type_infra
     \<and> lr_source_id r = Some (sc_id src) \<and> lr_ts r \<le> now + max_future_skew"

definition job_accounts :: "source \<Rightarrow> log_row list \<Rightarrow> nat \<Rightarrow> record_error list \<Rightarrow> ingest_job \<Rightarrow> bool" where
  "job_accounts src rows dropped errs j =
     (case j of
        Job_usage u \<Rightarrow> us_source u = sc_id src \<and> us_org u = sc_org src \<and> us_events u = int (length rows)
          \<and> 0 \<le> us_bytes u \<and> us_dropped u = int dropped \<and> us_rejects u = int (length errs)
          \<and> us_errors u = int (length (filter (\<lambda>r. lr_level r = log_err) rows))
      | Job_rejects rs \<Rightarrow> map nj_payload rs = map re_payload errs \<and> list_all (\<lambda>r. nj_source r = sc_id src) rs
      | Job_stamp rs \<Rightarrow> False
      | Job_insert rows \<Rightarrow> False
      | Job_touch i t \<Rightarrow> i = sc_id src)"

lemma stored_row:
  assumes "of_source src now nl" and "l = entry_of i nl"
  shows "row_of_source src now (to_db_log l)" and "lg_level l = nl_level nl"
  using assms pg_time_le [of "nl_ts nl"]
  by (auto simp: of_source_def row_of_source_def to_db_log_def entry_of_def)

lemma stored_rows:
  assumes "list_all2 (\<lambda>nl l. \<exists>i. l = entry_of i nl) nls ls" and "list_all (of_source src now) nls"
  shows "list_all (row_of_source src now) (map to_db_log ls) \<and> length ls = length nls
    \<and> length (filter (important \<circ> lr_level) (map to_db_log ls)) = length (filter (important \<circ> nl_level) nls)"
  using assms
proof (induction nls ls rule: list_all2_induct)
  case (Cons nl nls l ls)
  then obtain i where "l = entry_of i nl" and "of_source src now nl" by auto
  with stored_row [of src now nl l i] Cons show ?case by (simp add: to_db_log_def)
qed simp

lemma finish_accounts:
  assumes "finish a src now ls bytes dropped errs = (out, a')"
  shows "io_reply out = Ingested (length ls) (length errs) errs \<and> io_broadcast out = ls
    \<and> list_all (job_accounts src (map to_db_log ls) dropped errs) (io_jobs out)"
proof -
  have "length (filter (\<lambda>r. lr_level r = log_err) (map to_db_log ls)) = length (filter (\<lambda>l. lg_level l = log_err) ls)"
    by (simp add: filter_map comp_def to_db_log_def)
  then show ?thesis
    using assms
    by (auto simp: finish_def touch_last_seen_def usage_jobs_def reject_jobs_def job_accounts_def list_all_iff comp_def
        split: option.splits if_splits)
qed

definition unchanged_tables :: "log_world \<Rightarrow> log_world \<Rightarrow> bool" where
  "unchanged_tables w w' \<longleftrightarrow> lw_projects w' = lw_projects w \<and> lw_orgs w' = lw_orgs w \<and> lw_sources w' = lw_sources w
     \<and> lw_plans w' = lw_plans w \<and> lw_subscriptions w' = lw_subscriptions w \<and> lw_usage w' = lw_usage w
     \<and> lw_app_usage w' = lw_app_usage w \<and> lw_source_hours w' = lw_source_hours w \<and> lw_rejects w' = lw_rejects w
     \<and> lw_audit w' = lw_audit w \<and> lw_client w' = lw_client w"

lemma unchanged_tables_trans: "unchanged_tables w w1 \<Longrightarrow> unchanged_tables w1 w2 \<Longrightarrow> unchanged_tables w w2"
  by (simp add: unchanged_tables_def)

lemma beside_unchanged_tables:
  assumes "beside w' = beside w"
  shows "unchanged_tables w w' \<and> lw_now w' = lw_now w"
  using beside_fields [OF assms] unfolding unchanged_tables_def by blast

lemma read_clock_now:
  "read_clock w = (now, w') \<Longrightarrow> lw_now w' = now \<and> lw_logs w' = lw_logs w \<and> lw_stats w' = lw_stats w \<and> unchanged_tables w w'"
  by (auto simp: read_clock_def unchanged_tables_def split: list.splits)

definition only_faults :: "log_world \<Rightarrow> log_world \<Rightarrow> bool" where
  "only_faults b v \<longleftrightarrow> v\<lparr> lw_faults := [] \<rparr> = b"

lemma keeps_only_faults: "keeps (only_faults b) f \<Longrightarrow> keeps (only_faults b) (log_call f)"
  by (rule keeps_log_call) (simp_all add: only_faults_def)

lemma only_faults_fields:
  assumes "only_faults (w\<lparr> lw_faults := [] \<rparr>) w'"
  shows "lw_logs w' = lw_logs w \<and> lw_stats w' = lw_stats w \<and> unchanged_tables w w' \<and> lw_now w' = lw_now w"
proof -
  have e: "w'\<lparr> lw_faults := [] \<rparr> = w\<lparr> lw_faults := [] \<rparr>" using assms by (simp add: only_faults_def)
  then have "beside w' = beside w" by (metis beside_updates(4))
  then have "unchanged_tables w w' \<and> lw_now w' = lw_now w" by (rule beside_unchanged_tables)
  then show ?thesis using arg_cong [OF e, of lw_logs] arg_cong [OF e, of lw_stats] by simp
qed

lemma keeps_check_quota: "keeps (only_faults b) (check_quota org day)"
proof -
  have "keeps (only_faults b) (plan_quota feature org)" for feature
    unfolding plan_quota_def
    by (intro keeps_case keeps_only_faults) (auto simp: keeps_def split: list.split)
  moreover have "keeps (only_faults b) (s_used_today org day)"
    unfolding s_used_today_def by (intro keeps_only_faults) (simp add: keeps_def)
  ultimately show ?thesis unfolding check_quota_def by (intro keeps_try keeps_ret)
qed

lemma over_quota_keeps:
  assumes "over_quota a src now w = (b, w')"
  shows "lw_logs w' = lw_logs w \<and> lw_stats w' = lw_stats w \<and> unchanged_tables w w' \<and> lw_now w' = lw_now w"
proof -
  have "only_faults (w\<lparr> lw_faults := [] \<rparr>) (snd (check_quota (sc_org src) now w))"
    by (rule keepsD [OF keeps_check_quota]) (simp add: only_faults_def)
  then have "only_faults (w\<lparr> lw_faults := [] \<rparr>) w'"
    using assms by (auto simp: over_quota_def only_faults_def split: if_splits prod.splits sum.splits)
  then show ?thesis by (rule only_faults_fields)
qed

text \<open>What a request does, once it has been mapped to records.\<close>

definition accounted ::
  "source \<Rightarrow> ingest_record list \<Rightarrow> record_error list \<Rightarrow> instant \<Rightarrow> log_row list \<Rightarrow> ingest_outcome \<Rightarrow> bool" where
  "accounted src recs errs now rows out =
     (case io_reply out of
        Ingested acc rej es \<Rightarrow> acc = length rows \<and> rej = length errs \<and> es = errs \<and> acc \<le> length recs
          \<and> list_all (row_of_source src now) rows
          \<and> length (filter (important \<circ> lr_level) rows) = length (filter (important \<circ> ir_level) recs)
          \<and> (1 \<le> sc_sample src \<longrightarrow> acc = length recs)
          \<and> map to_db_log (io_broadcast out) = rows
          \<and> list_all (job_accounts src rows (length recs - acc) errs) (io_jobs out)
      | _ \<Rightarrow> rows = [] \<and> io_jobs out = [] \<and> io_broadcast out = [])"

lemma refused_accounted: "\<forall>acc rej es. r \<noteq> Ingested acc rej es \<Longrightarrow> accounted src recs errs now [] (refused r)"
  by (cases r) (simp_all add: accounted_def refused_def)

lemma process_accounts:
  assumes "process src recs errs n roll a w = ((out, a'), w')" and "distinct (map lr_id (lw_logs w))"
  shows "\<exists>rows. lw_logs w' = lw_logs w @ rows \<and> accounted src recs errs (lw_now w') rows out \<and> unchanged_tables w w'
    \<and> distinct (map lr_id (lw_logs w')) \<and> list_all (\<lambda>r. lr_level r \<in> set level_names \<and> pg_time (lr_ts r) = lr_ts r) rows"
proof -
  obtain now w1 where c: "read_clock w = (now, w1)" by fastforce
  note w1 = read_clock_now [OF c]
  obtain ok retry l where al: "allow_n (sc_id src) (sc_rate src) (sc_burst src) (length recs) now (ia_limiter a) = ((ok, retry), l)"
    by (metis surj_pair)
  let ?a = "a\<lparr> ia_limiter := l \<rparr>"
  obtain over w2 where q: "over_quota ?a src now w1 = (over, w2)" by fastforce
  note w2 = over_quota_keeps [OF q]
  obtain logs dropped where s: "sample_records src now (ia_redactor ?a) roll 0 recs = (logs, dropped)" by fastforce
  note sp = sample_records_spec [OF s]
  have refuse: ?thesis if "lw_logs w' = lw_logs w" "unchanged_tables w w'" "out = refused r" "\<forall>acc rej es. r \<noteq> Ingested acc rej es" for r
    using that assms(2) refused_accounted [of r src recs errs "lw_now w'"] by (intro exI [of _ "[]"]) simp
  show ?thesis
  proof (cases "\<not> ok \<or> over")
    case True
    then show ?thesis
    proof (cases ok)
      case False
      then have "out = refused (throttled retry ''rate limit exceeded'')" "w' = w1" using assms(1) c al by (auto simp: process_def)
      then show ?thesis using refuse w1 by (simp add: throttled_def)
    next
      case True
      then have "over" using \<open>\<not> ok \<or> over\<close> by simp
      then have "out = refused (throttled go_hour ''daily ingest quota exceeded'')" "w' = w2"
        using True assms(1) c al q by (auto simp: process_def)
      then show ?thesis using refuse w1 w2 unchanged_tables_trans by (auto simp: throttled_def)
    qed
  next
    case go: False
    show ?thesis
    proof (cases "logs = []")
      case True
      then have f: "finish ?a src now [] n dropped errs = (out, a')" and "w' = w2"
        using assms(1) c al q go s by (auto simp: process_def)
      then show ?thesis
        using finish_accounts [OF f] True sp w1 w2 unchanged_tables_trans assms(2)
        by (intro exI [of _ "[]"]) (auto simp: accounted_def)
    next
      case False
      obtain r w3 where b: "bulk_create logs w2 = (r, w3)" by fastforce
      have d: "distinct (map lr_id (lw_logs w2))" using assms(2) w1 w2 by simp
      have p: "((out, a'), w') = (case r of Inl e \<Rightarrow> ((refused (Bulk_failed e), ?a), w3)
          | Inr stored \<Rightarrow> (finish ?a src now stored n dropped errs, w3))"
        using assms(1) c al q go s False b by (simp add: process_def Let_def split: sum.splits)
      from b d show ?thesis
      proof (cases rule: bulk_create_cases)
        case (1 e)
        then show ?thesis
          using refuse [of "Bulk_failed e"] p w1 w2 beside_unchanged_tables [OF 1(4)] unchanged_tables_trans by (metis (no_types, lifting) Pair_inject ingest_reply.distinct(11) sum.case(1))
      next
        case (2 ls)
        have f: "finish ?a src now ls n dropped errs = (out, a')" and w': "w' = w3" using p 2(1) by auto
        have now: "lw_now w' = now" using w' beside_unchanged_tables [OF 2(6)] w1 w2 by simp
        have "list_all (of_source src now) logs" using sp by simp
        note st = stored_rows [OF 2(2) this]
        have "lw_logs w' = lw_logs w @ map to_db_log ls" using 2(3) w' w1 w2 by simp
        moreover have "unchanged_tables w w'" using w' beside_unchanged_tables [OF 2(6)] w1 w2 unchanged_tables_trans by metis
        moreover have "accounted src recs errs (lw_now w') (map to_db_log ls) out"
        proof -
          have "length logs + dropped = length recs" "length ls = length logs" using st sp by blast+
          then have "length recs - length ls = dropped" by simp
          then show ?thesis using finish_accounts [OF f] st sp now by (auto simp: accounted_def)
        qed
        moreover have "list_all (\<lambda>r. lr_level r \<in> set level_names \<and> pg_time (lr_ts r) = lr_ts r) (map to_db_log ls)"
          using 2(5) by (simp add: list_all_iff to_db_log_def pg_time_twice)
        ultimately show ?thesis using 2(4) w' by blast
      qed
    qed
  qed
qed

text \<open>
  C7: a request of a collector stays in its own project and is accounted for in full. Whatever the
  records say, every row a request adds belongs to the project of the source that was authenticated,
  is an infrastructure log, carries the source's identifier and lies at most a day ahead of the
  clock; nothing else in the database changes. If the reply says so many were accepted, that many
  rows were added and sent to the live tail, and no record of level WARN or ERROR is missing; the
  counters the request leaves to be recorded agree with the rows. Any other reply (rate limit,
  quota, a failed insert) has added nothing and leaves no job.
\<close>

theorem ingest_accounts:
  assumes "process src recs errs body_len roll a w = ((out, a'), w')" and "table_ok (lw_logs w)"
  shows "\<exists>rows. lw_logs w' = lw_logs w @ rows \<and> accounted src recs errs (lw_now w') rows out \<and> unchanged_tables w w'
    \<and> table_ok (lw_logs w')"
proof -
  have "distinct (map lr_id (lw_logs w))" using assms(2) by (simp add: table_ok_def)
  from process_accounts [OF assms(1) this] assms(2) show ?thesis by (auto simp: table_ok_def)
qed

subsection \<open>Lines of a batch\<close>

definition line_texts :: "string \<Rightarrow> string list" where
  "line_texts body = filter (\<lambda>l. l \<noteq> []) (map trim_space (split_lines (trim_space body)))"

definition accepted_line :: "string \<Rightarrow> bool" where
  "accepted_line l = (case unmarshal_record l of None \<Rightarrow> False | Some r \<Rightarrow> br_message r \<noteq> [])"

lemma parse_lines_spec:
  "parse_lines tx i ls =
    (map (\<lambda>l. the (unmarshal_record l)) (filter (\<lambda>l. unmarshal_record l \<noteq> None) (filter (\<lambda>l. l \<noteq> []) (map trim_space ls))),
     map (\<lambda>(j, l). parse_error tx j ''invalid JSON: '' l)
       (filter (\<lambda>(j, l). l \<noteq> [] \<and> unmarshal_record l = None) (enumerate i (map trim_space ls))))"
  by (induction ls arbitrary: i) (auto simp: Let_def split: option.split)

lemma validate_records_spec:
  assumes "validate_records tx src now i brs = (recs, errs)"
  shows "length recs = length (filter (\<lambda>b. br_message b \<noteq> []) brs)
    \<and> errs = map (\<lambda>(j, b). \<lparr> re_index = j, re_error = ''message is required'', re_kind = kind_validate,
        re_payload = it_marshal tx b \<rparr>) (filter (\<lambda>(j, b). br_message b = []) (enumerate i brs))"
  using assms
proof (induction tx src now i brs arbitrary: recs errs rule: validate_records.induct)
  case (2 tx src now i br brs)
  obtain r e where v: "validate_records tx src now (i + 1) brs = (r, e)" by fastforce
  show ?case using "2.IH" [OF v] "2.prems" v by (cases "br_message br = []") (auto simp: bulk_to_record_def)
qed simp

lemma length_filter_enumerate: "length (filter (\<lambda>(j, x). P x) (enumerate i xs)) = length (filter P xs)"
  by (induction xs arbitrary: i) auto

lemma bulk_ndjson:
  assumes "contains (to_lower content_type) ''ndjson''" and "trim_space body \<noteq> []"
    and "bulk tx src content_type (Some body) roll a w = ((out, a'), w')" and "io_reply out = Ingested acc rej errs"
  obtains recs es n w1 where "process src recs es n roll a w1 = ((out, a'), w')" and "lw_logs w1 = lw_logs w"
    and "length recs = length (filter accepted_line (line_texts body))"
    and "length es = length (filter (\<lambda>l. \<not> accepted_line l) (line_texts body))"
    and "map re_index (filter (\<lambda>e. re_kind e = kind_parse) es) =
      map fst (filter (\<lambda>(j, l). l \<noteq> [] \<and> unmarshal_record l = None) (enumerate 0 (map trim_space (split_lines (trim_space body)))))"
proof -
  let ?lines = "map trim_space (split_lines (trim_space body))"
  let ?good = "filter (\<lambda>l. unmarshal_record l \<noteq> None) (filter (\<lambda>l. l \<noteq> []) ?lines)"
  let ?parsed = "map (\<lambda>l. the (unmarshal_record l)) ?good"
  let ?bad = "\<lambda>l. l \<noteq> [] \<and> unmarshal_record l = None"
  let ?errs = "map (\<lambda>(j, l). parse_error tx j ''invalid JSON: '' l) (filter (\<lambda>(j, l). ?bad l) (enumerate 0 ?lines))"
  have read: "read_limited (Some body) max_body_bytes = Some body"
    using assms(3,4) by (auto simp: bulk_def read_limited_def refused_def)
  have parsed: "parse_records tx content_type body = (?parsed, ?errs)"
    using assms(1,2) parse_lines_spec [of tx 0 "split_lines (trim_space body)"] by (simp add: parse_records_def Let_def)
  obtain now w1 where c: "read_clock w = (now, w1)" by fastforce
  obtain recs es where v: "validate_records tx src now 0 ?parsed = (recs, es)" by fastforce
  note vs = validate_records_spec [OF v]
  have "process src recs (?errs @ es) (length body) roll a w1 = ((out, a'), w')"
    using assms(3,4) read parsed c v by (auto simp: bulk_def refused_def split: if_splits)
  moreover have "lw_logs w1 = lw_logs w" using read_clock_now [OF c] by simp
  moreover have "length recs = length (filter accepted_line (line_texts body))"
  proof -
    have "length recs = length (filter (\<lambda>l. br_message (the (unmarshal_record l)) \<noteq> []) ?good)"
      using vs by (simp add: filter_map comp_def)
    also have "\<dots> = length (filter accepted_line (line_texts body))"
      by (auto simp: line_texts_def accepted_line_def intro!: arg_cong [of _ _ length] filter_cong split: option.split)
    finally show ?thesis .
  qed
  moreover have "length (?errs @ es) = length (filter (\<lambda>l. \<not> accepted_line l) (line_texts body))"
  proof -
    have "length es = length (filter (\<lambda>b. br_message b = []) ?parsed)"
      using vs length_filter_enumerate [of "\<lambda>b. br_message b = []" 0 ?parsed] by simp
    also have "\<dots> = length (filter (\<lambda>l. br_message (the (unmarshal_record l)) = []) ?good)"
      by (simp add: filter_map comp_def)
    finally have e: "length es = length (filter (\<lambda>l. br_message (the (unmarshal_record l)) = []) ?good)" .
    have b: "length ?errs = length (filter ?bad ?lines)"
      using length_filter_enumerate [of ?bad 0 ?lines] by simp
    have f: "length (filter ?bad ls) + length (filter (\<lambda>l. br_message (the (unmarshal_record l)) = [])
        (filter (\<lambda>l. unmarshal_record l \<noteq> None) (filter (\<lambda>l. l \<noteq> []) ls))) =
        length (filter (\<lambda>l. \<not> accepted_line l) (filter (\<lambda>l. l \<noteq> []) ls))" for ls
      by (induction ls) (auto simp: accepted_line_def split: option.split)
    show ?thesis unfolding length_append b e line_texts_def by (rule f)
  qed
  moreover have "map re_index (filter (\<lambda>e. re_kind e = kind_parse) (?errs @ es)) =
      map fst (filter (\<lambda>(j, l). ?bad l) (enumerate 0 ?lines))"
  proof -
    have "filter (\<lambda>e. re_kind e = kind_parse) es = []" using vs by (auto simp: filter_empty_conv)
    moreover have "filter (\<lambda>e. re_kind e = kind_parse) ?errs = ?errs" by (auto simp: filter_id_conv parse_error_def)
    ultimately show ?thesis by (auto simp: parse_error_def)
  qed
  ultimately show thesis by (rule that)
qed

text \<open>
  C18: a bad line costs only itself. When a newline-delimited batch of a source that keeps every
  record is answered with counts, over sound log tables, every line that is not blank is in them:
  accepted, and added as rows, are exactly those that decode and have a message, refused the others;
  and the errors of decoding carry the indices of exactly the lines that do not decode. The errors of
  validation are numbered among the decoded records instead.
\<close>

theorem ndjson_partial_success:
  assumes "contains (to_lower content_type) ''ndjson''" and "trim_space body \<noteq> []"
    and "bulk tx src content_type (Some body) roll a w = ((out, a'), w')" and "io_reply out = Ingested acc rej errs"
    and "table_ok (lw_logs w)" and "1 \<le> sc_sample src"
  shows "acc = length (filter accepted_line (line_texts body))
    \<and> rej = length (filter (\<lambda>l. \<not> accepted_line l) (line_texts body)) \<and> length errs = rej
    \<and> length (lw_logs w') = length (lw_logs w) + acc
    \<and> map re_index (filter (\<lambda>e. re_kind e = kind_parse) errs) =
      map fst (filter (\<lambda>(j, l). l \<noteq> [] \<and> unmarshal_record l = None) (enumerate 0 (map trim_space (split_lines (trim_space body)))))"
proof -
  from bulk_ndjson [OF assms(1-4)] obtain recs es n w1
    where p: "process src recs es n roll a w1 = ((out, a'), w')" and w1: "lw_logs w1 = lw_logs w"
      and l: "length recs = length (filter accepted_line (line_texts body))"
        "length es = length (filter (\<lambda>l. \<not> accepted_line l) (line_texts body))"
      and i: "map re_index (filter (\<lambda>e. re_kind e = kind_parse) es) =
        map fst (filter (\<lambda>(j, l). l \<noteq> [] \<and> unmarshal_record l = None) (enumerate 0 (map trim_space (split_lines (trim_space body)))))"
    by blast
  have "distinct (map lr_id (lw_logs w1))" using assms(5) w1 by (simp add: table_ok_def)
  from process_accounts [OF p this] obtain rows where "lw_logs w' = lw_logs w1 @ rows"
    and "accounted src recs es (lw_now w') rows out" by blast
  then show ?thesis using assms(4,6) w1 l i by (simp add: accounted_def)
qed

subsection \<open>A batch of two lines\<close>

definition sample_source :: source where
  "sample_source = \<lparr> sc_id = 5, sc_org = 2, sc_project = 1, sc_kind = ''http'', sc_name = ''s'', sc_prefix = [], sc_hash = [],
     sc_active = True, sc_seen = None, sc_rate = 0, sc_burst = 0, sc_sample = 1, sc_created = 0, sc_expires = None \<rparr>"

definition ingest_world :: log_world where
  "ingest_world = (retained_world None)\<lparr> lw_logs := [], lw_stats := [], lw_sources := [sample_source] \<rparr>"

definition sample_app :: ingest_app where
  "sample_app = \<lparr> ia_limiter = Map.empty, ia_touch = Map.empty, ia_metered = True, ia_rejects = Some (new_reject_bus None 0),
     ia_redactor = default_patterns \<rparr>"

definition sample_texts :: ingest_texts where
  "sample_texts = \<lparr> it_error = (\<lambda>s. ''bad''), it_marshal = (\<lambda>r. []), it_double = (\<lambda>f. []) \<rparr>"

definition sample_body :: string where
  "sample_body = ''{'' @ [CHR 0x22] @ ''message'' @ [CHR 0x22] @ '':'' @ [CHR 0x22] @ ''hi'' @ [CHR 0x22] @ ''}'' @ [CHR 0x0A] @ ''x''"

lemma sample_parsed: "parse_records sample_texts ''application/x-ndjson'' sample_body =
  ([empty_bulk_record\<lparr> br_message := ''hi'' \<rparr>], [parse_error sample_texts 1 ''invalid JSON: '' ''x''])"
  by code_simp

lemma hi_kept:
  "replace_all email_pattern default_mask ''hi'' = ''hi''"
  "replace_all ipv4_pattern default_mask ''hi'' = ''hi''"
  "replace_all card_pattern default_mask ''hi'' = ''hi''"
  "replace_all bearer_pattern default_mask ''hi'' = ''hi''"
  "replace_all our_keys default_mask ''hi'' = ''hi''"
  "replace_all secret_value_pattern default_mask ''hi'' = ''hi''"
  by (simp_all add: redact_eval)

lemma hi_plain: "sniff_message ''hi'' = None"
  by code_simp

definition hi_record :: ingest_record where
  "hi_record = \<lparr> ir_level = log_info, ir_message = ''hi'', ir_source = ''http'', ir_ts = 864000000000000, ir_tags = [],
     ir_infra = no_infra, ir_attributes = Some [] \<rparr>"

lemma hi_normalized: "normalize hi_record (864000000000000) (Some default_patterns) = hi_record"
  by (simp add: normalize_def hi_record_def hi_plain redact_string_def default_patterns_def hi_kept redact_map_def
      normalize_timestamp_def)

lemma sample_validated: "validate_records sample_texts sample_source (864000000000000) 0 [empty_bulk_record\<lparr> br_message := ''hi'' \<rparr>] = ([hi_record], [])"
  by (simp add: bulk_to_record_def empty_bulk_record_def hi_record_def sample_source_def parse_timestamp_def map_column_def)

lemma sample_clock: "read_clock ingest_world = (864000000000000, ingest_world)"
  by (simp add: read_clock_def ingest_world_def retained_world_def)

lemma sample_quota: "over_quota a sample_source now ingest_world = (False, ingest_world)"
  by (simp add: over_quota_def check_quota_def plan_quota_def log_call_def org_plans_def ingest_world_def
      retained_world_def case_op_def try_op_def s_used_today_def quota_exceeded_def)

lemma sample_sampled: "sample_records sample_source (864000000000000) default_patterns roll 0 [hi_record] =
   ([record_to_new_log sample_source hi_record], 0)"
  by (simp add: hi_normalized Let_def keep_record_def sample_source_def)

lemma sample_created: "fst (bulk_create [record_to_new_log sample_source hi_record] ingest_world) = 
  Inr [entry_of 100 (record_to_new_log sample_source hi_record)]"
  by code_simp

lemma sample_reply:
  "io_reply (fst (fst (bulk sample_texts sample_source ''application/x-ndjson'' (Some sample_body) (\<lambda>_. 0) sample_app ingest_world)))
    = Ingested 1 1 [parse_error sample_texts 1 ''invalid JSON: '' ''x'']"
proof -
  have "length sample_body \<le> max_body_bytes" by (simp add: sample_body_def)
  moreover obtain w' where "bulk_create [record_to_new_log sample_source hi_record] ingest_world
    = (Inr [entry_of 100 (record_to_new_log sample_source hi_record)], w')"
    using sample_created by (metis prod.collapse)
  moreover have "allow_n (sc_id sample_source) (sc_rate sample_source) (sc_burst sample_source) n now l = ((True, 0), l)" for n now l
    by (simp add: sample_source_def allow_n_unlimited)
  moreover have "ia_redactor (sample_app\<lparr> ia_limiter := l \<rparr>) = default_patterns" for l by (simp add: sample_app_def)
  ultimately show ?thesis
    by (simp add: bulk_def read_limited_def sample_parsed sample_clock sample_validated process_def sample_quota
        sample_sampled Let_def finish_def split: prod.split del: validate_records.simps sample_records.simps)
qed

theorem ingest_accounts_witness:
  "\<exists>rows out a' w'. process sample_source [hi_record] [] 0 (\<lambda>_. 0) sample_app ingest_world = ((out, a'), w')
    \<and> lw_logs w' = lw_logs ingest_world @ rows \<and> accounted sample_source [hi_record] [] (lw_now w') rows out"
proof -
  obtain out a' w' where p: "process sample_source [hi_record] [] 0 (\<lambda>_. 0) sample_app ingest_world = ((out, a'), w')"
    by (metis surj_pair)
  have "table_ok (lw_logs ingest_world)" by (simp add: ingest_world_def table_ok_def)
  from ingest_accounts [OF p this] p show ?thesis by blast
qed

theorem ndjson_partial_success_witness:
  "length (lw_logs (snd (bulk sample_texts sample_source ''application/x-ndjson'' (Some sample_body) (\<lambda>_. 0) sample_app ingest_world))) = 1"
proof -
  obtain out a' w' where b: "bulk sample_texts sample_source ''application/x-ndjson'' (Some sample_body) (\<lambda>_. 0) sample_app ingest_world
      = ((out, a'), w')" by (metis surj_pair)
  have "contains (to_lower ''application/x-ndjson'') ''ndjson''" "trim_space sample_body \<noteq> []" by code_simp+
  moreover have "io_reply out = Ingested 1 1 [parse_error sample_texts 1 ''invalid JSON: '' ''x'']"
    using sample_reply b by simp
  moreover have "table_ok (lw_logs ingest_world)" "1 \<le> sc_sample sample_source"
    by (simp_all add: ingest_world_def table_ok_def sample_source_def)
  ultimately have "length (lw_logs w') = length (lw_logs ingest_world) + 1"
    using ndjson_partial_success [OF _ _ b] by blast
  then show ?thesis using b by (simp add: ingest_world_def)
qed

end
