(* ===== verification/IngestState.thy ===== *)
theory IngestState
  imports IngestRun
begin

text \<open>
  What the tables of ingestion keep: counters and refusals through every interleaving of requests
  and of the jobs they leave, and the hourly cap on what is stored of the refused.
\<close>

subsection \<open>Refusals as they are stored\<close>

definition bounded_reject :: "reject \<Rightarrow> bool" where
  "bounded_reject r \<longleftrightarrow> rj_kind r \<in> {kind_parse, kind_validate}
     \<and> length (rj_reason r) \<le> max_reason_len + length (ellipsis @ ''[truncated]'')
     \<and> length (rj_payload r) \<le> max_payload_bytes + length (ellipsis @ ''[truncated]'')"

lemma trim_partial_length: "length (trim_partial s) \<le> length s"
proof (induction s rule: trim_partial.induct)
  case (1 s)
  then show ?case by (subst trim_partial.simps) (auto intro: le_trans)
qed

lemma truncate_text_length: "length (truncate_text s n) \<le> n + length (ellipsis @ ''[truncated]'')"
  using trim_partial_length [of "take n s"] by (auto simp: truncate_text_def)

lemma reject_of_bounded: "bounded_reject (reject_of b now i r)"
  using truncate_text_length [of "nj_reason r" max_reason_len] truncate_text_length [of _ max_payload_bytes]
  unfolding bounded_reject_def reject_of_def by (simp split: option.split)

lemma new_rejects_done:
  assumes "new_rejects b now rs w = (r, w')"
  shows "\<exists>out. r = Inr out \<and> list_all2 (\<lambda>nj j. \<exists>i. j = reject_of b now i nj) rs out \<and> lw_logs w' = lw_logs w
    \<and> lw_faults w' = lw_faults w \<and> beside w' = beside w"
  using assms
proof (induction rs arbitrary: w w' r)
  case (Cons nj rs)
  obtain r1 w1 where n: "new_rejects b now rs (w\<lparr> lw_fresh := Suc (lw_fresh w) \<rparr>) = (r1, w1)" by fastforce
  from Cons.IH [OF this] obtain out where "r1 = Inr out" "list_all2 (\<lambda>nj j. \<exists>i. j = reject_of b now i nj) rs out"
    "lw_logs w1 = lw_logs w" "lw_faults w1 = lw_faults w" "beside w1 = beside w" by auto
  then show ?case using Cons.prems n by (auto simp: fresh_log_id_def)
qed simp

subsection \<open>The tables\<close>

definition counts_ok :: "source_hour \<Rightarrow> bool" where
  "counts_ok r \<longleftrightarrow> 0 \<le> sh_errors r \<and> sh_errors r \<le> sh_events r \<and> 0 \<le> sh_dropped r \<and> 0 \<le> sh_rejects r"

definition ingest_tables_ok :: "log_world \<Rightarrow> bool" where
  "ingest_tables_ok w \<longleftrightarrow> table_ok (lw_logs w)
     \<and> distinct (map (\<lambda>u. (ug_source u, ug_day u)) (lw_usage w))
     \<and> list_all (\<lambda>u. 0 \<le> ug_events u \<and> 0 \<le> ug_bytes u \<and> 0 \<le> ug_dropped u) (lw_usage w)
     \<and> distinct (map (\<lambda>r. (sh_source r, sh_hour r)) (lw_source_hours w)) \<and> list_all counts_ok (lw_source_hours w)
     \<and> distinct (map rj_id (lw_rejects w)) \<and> list_all bounded_reject (lw_rejects w)"

definition delta_ok :: "usage \<Rightarrow> bool" where
  "delta_ok u \<longleftrightarrow> 0 \<le> us_errors u \<and> us_errors u \<le> us_events u \<and> 0 \<le> us_bytes u \<and> 0 \<le> us_dropped u \<and> 0 \<le> us_rejects u"

lemma ingest_tables_ok_cong:
  "lw_logs w' = lw_logs w \<Longrightarrow> lw_usage w' = lw_usage w \<Longrightarrow> lw_source_hours w' = lw_source_hours w \<Longrightarrow>
    lw_rejects w' = lw_rejects w \<Longrightarrow> ingest_tables_ok w' \<longleftrightarrow> ingest_tables_ok w"
  by (simp add: ingest_tables_ok_def)

lemma keeps_tables_call: "keeps ingest_tables_ok f \<Longrightarrow> keeps ingest_tables_ok (log_call f)"
  by (rule keeps_log_call) (simp_all cong: ingest_tables_ok_cong)

lemma fold_usage_ok:
  assumes "distinct (map (\<lambda>u. (ug_source u, ug_day u)) rows)" and "delta_ok u"
    and "list_all (\<lambda>u. 0 \<le> ug_events u \<and> 0 \<le> ug_bytes u \<and> 0 \<le> ug_dropped u) rows"
  shows "distinct (map (\<lambda>u. (ug_source u, ug_day u)) (fold_usage u rows))
    \<and> list_all (\<lambda>u. 0 \<le> ug_events u \<and> 0 \<le> ug_bytes u \<and> 0 \<le> ug_dropped u) (fold_usage u rows)"
proof (cases "list_ex (\<lambda>r. ug_source r = us_source u \<and> ug_day r = utc_day (us_day u)) rows")
  case True
  have "distinct (map (\<lambda>u. (ug_source u, ug_day u)) (fold_usage u rows))"
    using assms(1) True unfolding fold_usage_def Let_def by (simp add: map_update_where_same)
  moreover have "list_all (\<lambda>u. 0 \<le> ug_events u \<and> 0 \<le> ug_bytes u \<and> 0 \<le> ug_dropped u) (fold_usage u rows)"
    using assms(2,3) True unfolding fold_usage_def Let_def
    by (auto simp: list_all_iff update_where_def delta_ok_def)
  ultimately show ?thesis by simp
next
  case False
  then show ?thesis using assms by (auto simp: fold_usage_def Let_def list_ex_iff delta_ok_def)
qed

lemma fold_hour_ok:
  assumes "distinct (map (\<lambda>r. (sh_source r, sh_hour r)) rows)" and "delta_ok u" and "list_all counts_ok rows"
  shows "distinct (map (\<lambda>r. (sh_source r, sh_hour r)) (fold_hour u rows)) \<and> list_all counts_ok (fold_hour u rows)"
proof (cases "list_ex (\<lambda>r. sh_source r = us_source u \<and> sh_hour r = utc_hour (us_day u)) rows")
  case True
  have "distinct (map (\<lambda>r. (sh_source r, sh_hour r)) (fold_hour u rows))"
    using assms(1) True unfolding fold_hour_def Let_def by (simp add: map_update_where_same)
  moreover have "list_all counts_ok (fold_hour u rows)"
    using assms(2,3) True unfolding fold_hour_def Let_def
    by (auto simp: list_all_iff update_where_def delta_ok_def counts_ok_def intro!: add_mono)
  ultimately show ?thesis by simp
next
  case False
  then show ?thesis using assms by (auto simp: fold_hour_def Let_def list_ex_iff delta_ok_def counts_ok_def)
qed

text \<open>A delta is recorded in both tables or in neither.\<close>

lemma record_cases:
  assumes "record_delta u w = (r, w')"
  shows "lw_logs w' = lw_logs w \<and> lw_rejects w' = lw_rejects w
    \<and> (lw_usage w' = lw_usage w \<and> lw_source_hours w' = lw_source_hours w
      \<or> lw_usage w' = fold_usage u (lw_usage w) \<and> lw_source_hours w' = fold_hour u (lw_source_hours w))"
  using assms unfolding record_delta_def s_record_def s_daily_def s_hourly_def commit_def log_call_def tx_op_def try_op_def ret_op_def
  by (auto split: list.splits if_splits)

definition stored_since :: "uuid \<Rightarrow> instant \<Rightarrow> reject list \<Rightarrow> nat" where
  "stored_since i h rows = length (filter (\<lambda>r. rj_source r = i \<and> pg_time h \<le> rj_received r) rows)"

lemma s_count_since_done:
  assumes "s_count_since i h w = (r, w')"
  shows "(\<exists>fs. w' = w\<lparr> lw_faults := fs \<rparr>) \<and> (\<forall>n. r = Inr n \<longrightarrow> n = int (stored_since i h (lw_rejects w)))"
proof -
  have "\<exists>fs. w = w\<lparr> lw_faults := fs \<rparr>" by (rule exI [of _ "lw_faults w"]) simp
  then show ?thesis using assms by (auto simp: s_count_since_def log_call_def stored_since_def split: list.splits if_splits)
qed

lemma s_store_rejects_done:
  assumes "s_store_rejects rows w = (r, w')"
  shows "lw_logs w' = lw_logs w \<and> lw_usage w' = lw_usage w \<and> lw_source_hours w' = lw_source_hours w
    \<and> ((\<exists>e. r = Inl e) \<and> lw_rejects w' = lw_rejects w
      \<or> r = Inr (length rows) \<and> lw_rejects w' = lw_rejects w @ map (\<lambda>r. r\<lparr> rj_received := pg_time (rj_received r) \<rparr>) rows
        \<and> (distinct (map rj_id (lw_rejects w)) \<longrightarrow> distinct (map rj_id (lw_rejects w'))))"
proof (cases "rows = []")
  case False
  then show ?thesis
    using assms
    by (auto simp: s_store_rejects_def log_call_def comp_def split: list.splits if_splits)
qed (use assms in \<open>simp add: s_store_rejects_def ret_op_def\<close>)

subsection \<open>The daily and the hourly counters\<close>

definition days_total :: "(usage_row \<Rightarrow> int) \<Rightarrow> uuid \<Rightarrow> instant \<Rightarrow> usage_row list \<Rightarrow> int" where
  "days_total f s d rows = sum_list (map f (filter (\<lambda>u. ug_source u = s \<and> ug_day u = d) rows))"

definition hours_total :: "(source_hour \<Rightarrow> int) \<Rightarrow> uuid \<Rightarrow> instant \<Rightarrow> source_hour list \<Rightarrow> int" where
  "hours_total f s d rows = sum_list (map f (filter (\<lambda>r. sh_source r = s \<and> utc_day (sh_hour r) = d) rows))"

definition counters_agree :: "instant \<Rightarrow> log_world \<Rightarrow> bool" where
  "counters_agree p w \<longleftrightarrow> (\<forall>s d. p \<le> d \<longrightarrow>
     hours_total sh_events s d (lw_source_hours w) = days_total ug_events s d (lw_usage w) \<and>
     hours_total sh_dropped s d (lw_source_hours w) = days_total ug_dropped s d (lw_usage w))"

lemma sum_bump:
  assumes "distinct (map key rows)" and "k \<in> key ` set rows" and "\<And>r. key (upd r) = key r"
    and "\<And>r. f (upd r) = f r + (d :: int)" and "\<And>r. P r = Q (key r)"
  shows "sum_list (map f (filter P (update_where (\<lambda>r. key r = k) upd rows))) =
    sum_list (map f (filter P rows)) + (if Q k then d else 0)"
  using assms(1,2)
proof (induction rows)
  case (Cons r rows)
  then show ?case
  proof (cases "key r = k")
    case True
    have "key x \<noteq> k" if "x \<in> set rows" for x using Cons.prems(1) True imageI [OF that, of key] by auto
    then have "update_where (\<lambda>r. key r = k) upd rows = rows" by (intro update_where_id)
    then show ?thesis using True assms(3-5) by simp
  next
    case False
    then have "k \<in> key ` set rows" using Cons.prems by auto
    then show ?thesis using False Cons.IH Cons.prems(1) by simp
  qed
qed simp

lemma day_of_hour: "utc_day (utc_hour t) = utc_day t"
proof (unfold utc_day_def, rule time_truncate_eqI)
  have "t mod go_hour \<le> t mod (24 * go_hour)"
  proof -
    have "t mod go_hour = t mod (24 * go_hour) mod go_hour" by (simp add: mod_mod_cancel)
    also have "\<dots> \<le> t mod (24 * go_hour)" by (rule zmod_le_nonneg_dividend) simp
    finally show ?thesis .
  qed
  then show "time_truncate t (24 * go_hour) \<le> utc_hour t" by (simp add: utc_hour_def time_truncate_def)
  show "utc_hour t < time_truncate t (24 * go_hour) + 24 * go_hour"
    using time_truncate_bounds [of "24 * go_hour" t] time_truncate_bounds [of go_hour t] by (simp add: utc_hour_def)
qed simp

lemma fold_usage_total:
  assumes "distinct (map (\<lambda>u. (ug_source u, ug_day u)) rows)"
    and "\<And>r. f (r\<lparr> ug_events := ug_events r + us_events u, ug_bytes := ug_bytes r + us_bytes u,
        ug_dropped := ug_dropped r + us_dropped u \<rparr>) = f r + d"
    and "f \<lparr> ug_source = us_source u, ug_org = us_org u, ug_project = us_project u,
        ug_day = utc_day (us_day u), ug_events = us_events u, ug_bytes = us_bytes u, ug_dropped = us_dropped u \<rparr> = d"
  shows "days_total f s day (fold_usage u rows) = days_total f s day rows
    + (if us_source u = s \<and> utc_day (us_day u) = day then d else 0)"
proof (cases "list_ex (\<lambda>r. ug_source r = us_source u \<and> ug_day r = utc_day (us_day u)) rows")
  case True
  then have "(us_source u, utc_day (us_day u)) \<in> (\<lambda>u. (ug_source u, ug_day u)) ` set rows" by (force simp: list_ex_iff image_iff)
  from sum_bump [OF assms(1) this, of "\<lambda>r. r\<lparr> ug_events := ug_events r + us_events u, ug_bytes := ug_bytes r + us_bytes u,
      ug_dropped := ug_dropped r + us_dropped u \<rparr>" f d "\<lambda>u. ug_source u = s \<and> ug_day u = day" "\<lambda>(a, b). a = s \<and> b = day"]
  show ?thesis using True assms(2) by (simp add: fold_usage_def days_total_def)
next
  case False
  then show ?thesis using assms(3) by (auto simp: fold_usage_def Let_def days_total_def)
qed

lemma fold_hour_total:
  assumes "distinct (map (\<lambda>r. (sh_source r, sh_hour r)) rows)"
    and "\<And>r. f (r\<lparr> sh_events := sh_events r + us_events u, sh_errors := sh_errors r + us_errors u,
        sh_dropped := sh_dropped r + us_dropped u, sh_rejects := sh_rejects r + us_rejects u \<rparr>) = f r + d"
    and "f \<lparr> sh_source = us_source u, sh_hour = utc_hour (us_day u), sh_events = us_events u,
        sh_errors = us_errors u, sh_dropped = us_dropped u, sh_rejects = us_rejects u \<rparr> = d"
  shows "hours_total f s day (fold_hour u rows) = hours_total f s day rows
    + (if us_source u = s \<and> utc_day (us_day u) = day then d else 0)"
proof (cases "list_ex (\<lambda>r. sh_source r = us_source u \<and> sh_hour r = utc_hour (us_day u)) rows")
  case True
  then have "(us_source u, utc_hour (us_day u)) \<in> (\<lambda>u. (sh_source u, sh_hour u)) ` set rows" by (force simp: list_ex_iff image_iff)
  from sum_bump [OF assms(1) this, of "\<lambda>r. r\<lparr> sh_events := sh_events r + us_events u, sh_errors := sh_errors r + us_errors u,
        sh_dropped := sh_dropped r + us_dropped u, sh_rejects := sh_rejects r + us_rejects u \<rparr>" f d
      "\<lambda>u. sh_source u = s \<and> utc_day (sh_hour u) = day" "\<lambda>(a, b). a = s \<and> utc_day b = day"]
  show ?thesis using True assms(2) by (simp add: fold_hour_def hours_total_def day_of_hour)
next
  case False
  then show ?thesis using assms(3) by (auto simp: fold_hour_def Let_def hours_total_def day_of_hour)
qed

definition tally_ok :: "instant \<Rightarrow> log_world \<Rightarrow> bool" where
  "tally_ok p w \<longleftrightarrow> ingest_tables_ok w \<and> counters_agree p w"

lemma record_tally:
  assumes "tally_ok p w" and "delta_ok u"
  shows "tally_ok p (snd (record_delta u w))"
proof -
  obtain r w' where rec: "record_delta u w = (r, w')" by fastforce
  note c = record_cases [OF rec]
  have d: "distinct (map (\<lambda>u. (ug_source u, ug_day u)) (lw_usage w))"
    "distinct (map (\<lambda>r. (sh_source r, sh_hour r)) (lw_source_hours w))"
    using assms(1) by (simp_all add: tally_ok_def ingest_tables_ok_def)
  have ok: "ingest_tables_ok w" using assms(1) by (simp add: tally_ok_def)
  note rows = fold_usage_ok [OF d(1) assms(2)] fold_hour_ok [OF d(2) assms(2)]
  have "ingest_tables_ok w'"
    using c
  proof (elim conjE disjE)
    assume "lw_logs w' = lw_logs w" "lw_rejects w' = lw_rejects w"
      "lw_usage w' = fold_usage u (lw_usage w)" "lw_source_hours w' = fold_hour u (lw_source_hours w)"
    then show ?thesis using ok rows by (simp add: ingest_tables_ok_def)
  qed (use ok in \<open>simp add: ingest_tables_ok_def\<close>)
  moreover have "counters_agree p w'"
  proof (cases "lw_usage w' = fold_usage u (lw_usage w) \<and> lw_source_hours w' = fold_hour u (lw_source_hours w)")
    case True
    then show ?thesis
      using assms(1) fold_usage_total [OF d(1)] fold_hour_total [OF d(2)] by (simp add: tally_ok_def counters_agree_def)
  next
    case False
    then show ?thesis using c assms(1) by (auto simp: tally_ok_def counters_agree_def)
  qed
  ultimately show ?thesis using rec by (simp add: tally_ok_def)
qed

subsection \<open>Requests and the jobs they leave\<close>

definition job_ok :: "ingest_job \<Rightarrow> bool" where
  "job_ok j =
     (case j of
        Job_usage u \<Rightarrow> delta_ok u
      | Job_rejects rs \<Rightarrow> \<exists>i. list_all (\<lambda>x. nj_source x = i) rs
      | Job_stamp rs \<Rightarrow> \<exists>i. list_all (\<lambda>x. nj_source x = i) rs
      | Job_insert rows \<Rightarrow> list_all bounded_reject rows
      | Job_touch i t \<Rightarrow> True)"

text \<open>Counting the refusals and making their rows change no table.\<close>

definition same_tables :: "log_world \<Rightarrow> log_world \<Rightarrow> bool" where
  "same_tables w w' \<longleftrightarrow> lw_logs w' = lw_logs w \<and> lw_usage w' = lw_usage w \<and> lw_source_hours w' = lw_source_hours w
     \<and> lw_rejects w' = lw_rejects w"

lemma reject_room_done:
  assumes "reject_room b rs w = (r, w')"
  shows "same_tables w w' \<and> (rs \<noteq> [] \<longrightarrow> lw_now w' = fst (read_clock w))
    \<and> (\<forall>kept. r = Inr kept \<longrightarrow> kept = [] \<or> (\<exists>nj njs. rs = nj # njs \<and> kept =
      take (nat (rb_cap b - int (stored_since (nj_source nj) (hour_start (fst (read_clock w))) (lw_rejects w)))) rs))"
proof (cases rs)
  case Nil
  then show ?thesis using assms by (auto simp: reject_room_def same_tables_def)
next
  case (Cons nj njs)
  obtain t w1 where c: "read_clock w = (t, w1)" by fastforce
  have w1: "same_tables w w1" "lw_now w1 = t" using c by (auto simp: same_tables_def read_clock_def split: list.splits)
  obtain r2 w2 where n: "s_count_since (nj_source nj) (hour_start t) w1 = (r2, w2)" by fastforce
  from s_count_since_done [OF this] obtain fs where w2: "w2 = w1\<lparr> lw_faults := fs \<rparr>"
    and count: "\<And>n. r2 = Inr n \<Longrightarrow> n = int (stored_since (nj_source nj) (hour_start t) (lw_rejects w))"
    using w1(1) by (auto simp: same_tables_def)
  show ?thesis
    using assms Cons c n w1 w2 count
    by (cases r2) (auto simp: reject_room_def try_op_def Let_def same_tables_def split: if_splits)
qed

lemma stamp_rejects_done:
  assumes "stamp_rejects b rs w = (r, w')"
  shows "same_tables w w' \<and> lw_now w' = fst (read_clock w)
    \<and> (\<exists>rows. r = Inr rows \<and> list_all2 (\<lambda>nj j. \<exists>i. j = reject_of b (fst (read_clock w)) i nj) rs rows)"
proof -
  obtain t w1 where c: "read_clock w = (t, w1)" by fastforce
  have w1: "same_tables w w1" "lw_now w1 = t" using c by (auto simp: same_tables_def read_clock_def split: list.splits)
  have "new_rejects b t rs w1 = (r, w')" using assms c by (simp add: stamp_rejects_def)
  from new_rejects_done [OF this] obtain rows where n: "r = Inr rows" "list_all2 (\<lambda>nj j. \<exists>i. j = reject_of b t i nj) rs rows"
    "lw_logs w' = lw_logs w1" "beside w' = beside w1" by blast
  then show ?thesis using w1 c beside_fields [OF n(4)] by (simp add: same_tables_def)
qed

lemma rows_bounded: "list_all2 (\<lambda>nj j. \<exists>i. j = reject_of b now i nj) rs rows \<Longrightarrow> list_all bounded_reject rows"
  by (induction rule: list_all2_induct) (auto simp: reject_of_bounded)

lemma tally_ok_same_tables: "same_tables w w' \<Longrightarrow> tally_ok p w \<Longrightarrow> tally_ok p w'"
  by (simp add: same_tables_def tally_ok_def ingest_tables_ok_def counters_agree_def)

lemma run_job_tally:
  assumes "tally_ok p w" and "job_ok j" and "run_job rb j w = (left, w')"
  shows "tally_ok p w' \<and> list_all job_ok left"
proof (cases j)
  case (Job_usage u)
  then show ?thesis using assms record_tally by (auto simp: job_ok_def)
next
  case (Job_rejects rs)
  show ?thesis
  proof (cases rb)
    case (Some b)
    obtain r w1 where st: "reject_room b rs w = (r, w1)" by fastforce
    note room = reject_room_done [OF this]
    have "list_all job_ok left \<and> w' = w1"
    proof (cases r)
      case (Inr kept)
      obtain i where "list_all (\<lambda>x. nj_source x = i) rs" using assms(2) Job_rejects by (auto simp: job_ok_def)
      moreover have "set kept \<subseteq> set rs" using room Inr set_take_subset by fastforce
      ultimately have "job_ok (Job_stamp kept)" by (auto simp: job_ok_def list_all_iff)
      then show ?thesis using assms(3) Job_rejects Some st Inr by (cases "kept = []") auto
    qed (use assms(3) Job_rejects Some st in simp)
    moreover have "tally_ok p w1" by (rule tally_ok_same_tables [OF conjunct1 [OF room] assms(1)])
    ultimately show ?thesis by blast
  qed (use assms Job_rejects in simp)
next
  case (Job_stamp rs)
  show ?thesis
  proof (cases rb)
    case (Some b)
    obtain r w1 where st: "stamp_rejects b rs w = (r, w1)" by fastforce
    from stamp_rejects_done [OF this] obtain rows where "same_tables w w1" "r = Inr rows" "list_all bounded_reject rows"
      using rows_bounded by blast
    then show ?thesis using assms Job_stamp Some st tally_ok_same_tables by (auto simp: job_ok_def)
  qed (use assms Job_stamp in simp)
next
  case (Job_insert rows)
  obtain r w1 where st: "s_store_rejects rows w = (r, w1)" by fastforce
  have "list_all bounded_reject (map (\<lambda>r. r\<lparr> rj_received := pg_time (rj_received r) \<rparr>) rows)"
    using assms(2) Job_insert by (auto simp: job_ok_def list_all_iff bounded_reject_def)
  then have "tally_ok p w1"
    using s_store_rejects_done [OF st] assms(1) by (auto simp: tally_ok_def ingest_tables_ok_def counters_agree_def)
  then show ?thesis using assms(3) Job_insert st by simp
next
  case (Job_touch i t)
  have "ingest_tables_ok (snd (s_touch i t w)) \<and> counters_agree p (snd (s_touch i t w))"
    using assms(1) by (auto simp: tally_ok_def s_touch_def log_call_def ingest_tables_ok_def counters_agree_def split: list.split)
  then show ?thesis using assms(3) Job_touch by (auto simp: tally_ok_def)
qed

record ingest_system =
  is_app :: ingest_app
  is_world :: log_world
  is_jobs :: "ingest_job list"
  is_pruned :: instant

text \<open>
  A request of either endpoint leaves jobs behind; a job runs once, step by step and in any
  order against the others and against requests, or is lost, as all are with the process. The nightly pruning drops old hours
  and old refusals (\<open>is_pruned\<close> is the latest cutoff of hours so far), and deleting a project takes the
  rows of its sources with it; everything else the program does may change the database, but not
  these tables. While a job runs the clock is not set back.
\<close>

definition after_request :: "ingest_system \<Rightarrow> (ingest_outcome \<times> ingest_app) \<times> log_world \<Rightarrow> ingest_system" where
  "after_request s res = \<lparr> is_app = snd (fst res), is_world = snd res, is_jobs = is_jobs s @ io_jobs (fst (fst res)),
     is_pruned = is_pruned s \<rparr>"

definition without_sources :: "(uuid \<Rightarrow> bool) \<Rightarrow> log_world \<Rightarrow> log_world" where
  "without_sources gone w = w\<lparr> lw_sources := filter (\<lambda>s. \<not> gone (sc_id s)) (lw_sources w),
     lw_usage := filter (\<lambda>u. \<not> gone (ug_source u)) (lw_usage w),
     lw_source_hours := filter (\<lambda>r. \<not> gone (sh_source r)) (lw_source_hours w),
     lw_rejects := filter (\<lambda>r. \<not> gone (rj_source r)) (lw_rejects w) \<rparr>"

inductive ingest_moves :: "ingest_system \<Rightarrow> ingest_system \<Rightarrow> bool" where
  Bulk_request: "ingest_moves s (after_request s (bulk tx src content_type raw roll (is_app s) (is_world s)))"
| Otlp_request: "ingest_moves s (after_request s (otlp tx d src content_type raw roll (is_app s) (is_world s)))"
| Job_run: "j \<in> set (is_jobs s) \<Longrightarrow> list_all (\<lambda>d. 0 \<le> d) (lw_ticks (is_world s)) \<Longrightarrow>
    run_job (ia_rejects (is_app s)) j (is_world s) = (left, w) \<Longrightarrow>
    ingest_moves s (s\<lparr> is_world := w, is_jobs := remove1 j (is_jobs s) @ left \<rparr>)"
| Job_lost: "ingest_moves s (s\<lparr> is_jobs := remove1 j (is_jobs s) \<rparr>)"
| Restart: "ingest_moves s (s\<lparr> is_app := (is_app s)\<lparr> ia_limiter := Map.empty, ia_touch := Map.empty \<rparr>, is_jobs := [] \<rparr>)"
| Hours_pruned: "ingest_moves s (s\<lparr> is_world := snd (prune_source_stats cfg (is_world s)),
    is_pruned := max (is_pruned s) (fst (clock_cutoff (rc_source_days cfg) (is_world s))) \<rparr>)"
| Rejects_pruned: "ingest_moves s (s\<lparr> is_world := snd (prune_rejects cfg (is_world s)) \<rparr>)"
| Sources_deleted: "ingest_moves s (s\<lparr> is_world := without_sources gone (is_world s) \<rparr>)"
| Elsewhere: "table_ok (lw_logs w) \<Longrightarrow> lw_usage w = lw_usage (is_world s) \<Longrightarrow>
    lw_source_hours w = lw_source_hours (is_world s) \<Longrightarrow> lw_rejects w = lw_rejects (is_world s) \<Longrightarrow>
    ingest_moves s (s\<lparr> is_world := w \<rparr>)"

inductive ingest_reach :: "ingest_system \<Rightarrow> bool" where
  Fresh: "table_ok (lw_logs w) \<Longrightarrow> lw_usage w = [] \<Longrightarrow> lw_source_hours w = [] \<Longrightarrow> lw_rejects w = [] \<Longrightarrow>
    ingest_reach \<lparr> is_app = a, is_world = w, is_jobs = [], is_pruned = p \<rparr>"
| Next: "ingest_reach s \<Longrightarrow> ingest_moves s s' \<Longrightarrow> ingest_reach s'"

text \<open>A request leaves its jobs before their first step.\<close>

definition job_starts :: "ingest_job \<Rightarrow> bool" where
  "job_starts j \<longleftrightarrow> (case j of Job_stamp rs \<Rightarrow> False | Job_insert rows \<Rightarrow> False | _ \<Rightarrow> job_ok j)"

lemma job_starts_ok: "job_starts j \<Longrightarrow> job_ok j"
  by (auto simp: job_starts_def split: ingest_job.splits)

lemma jobs_start_ok: "list_all job_starts js \<Longrightarrow> list_all job_ok js"
  by (auto simp: list_all_iff job_starts_ok)

lemma process_system:
  assumes "process src recs errs n roll a w = ((out, a'), w')" and "tally_ok p w"
  shows "tally_ok p w' \<and> list_all job_starts (io_jobs out) \<and> ia_rejects a' = ia_rejects a \<and> lw_rejects w' = lw_rejects w"
proof -
  have "distinct (map lr_id (lw_logs w))" using assms(2) by (simp add: tally_ok_def ingest_tables_ok_def table_ok_def)
  from process_accounts [OF assms(1) this] obtain rows where p: "lw_logs w' = lw_logs w @ rows"
    "accounted src recs errs (lw_now w') rows out" "unchanged_tables w w'" "distinct (map lr_id (lw_logs w'))"
    "list_all (\<lambda>r. lr_level r \<in> set level_names \<and> pg_time (lr_ts r) = lr_ts r) rows" by blast
  have "tally_ok p w'"
    using assms(2) p by (simp add: tally_ok_def ingest_tables_ok_def counters_agree_def unchanged_tables_def table_ok_def)
  moreover have "job_starts j" if "job_accounts src rows m es j" for m es j
    using that by (auto simp: job_accounts_def job_starts_def job_ok_def delta_ok_def split: ingest_job.splits)
  then have "list_all job_starts (io_jobs out)"
    using p(2) by (auto simp: accounted_def list_all_iff split: ingest_reply.splits)
  moreover have "ia_rejects a' = ia_rejects a"
    using assms(1) by (auto simp: process_def finish_def touch_last_seen_def Let_def
        split: prod.splits if_splits sum.splits option.splits)
  ultimately show ?thesis using p(3) by (simp add: unchanged_tables_def)
qed

definition kept_by :: "instant \<Rightarrow> ingest_app \<Rightarrow> log_world \<Rightarrow> (ingest_outcome \<times> ingest_app) \<times> log_world \<Rightarrow> bool" where
  "kept_by p a w res \<longleftrightarrow> tally_ok p (snd res) \<and> list_all job_starts (io_jobs (fst (fst res))) \<and> ia_rejects (snd (fst res)) = ia_rejects a
     \<and> lw_rejects (snd res) = lw_rejects w"

lemma kept_by_process:
  assumes "tally_ok p w"
  shows "kept_by p a w (process src recs errs n roll a w)"
proof -
  obtain out a' w' where p: "process src recs errs n roll a w = ((out, a'), w')" by (metis surj_pair)
  show ?thesis using process_system [OF p assms] p by (simp add: kept_by_def)
qed

lemma tally_ok_clock:
  assumes "read_clock w = (now, w1)" and "tally_ok p w"
  shows "tally_ok p w1 \<and> lw_rejects w1 = lw_rejects w"
  using read_clock_now [OF assms(1)] assms(2)
  by (simp add: tally_ok_def ingest_tables_ok_def counters_agree_def unchanged_tables_def)

lemma kept_by_refused: "tally_ok p w1 \<Longrightarrow> lw_rejects w1 = lw_rejects w \<Longrightarrow> kept_by p a w ((refused r, a), w1)"
  by (simp add: kept_by_def refused_def)

lemma kept_by_requests:
  assumes "tally_ok p w"
  shows "kept_by p a w (bulk tx src content_type raw roll a w)" "kept_by p a w (otlp tx d src content_type raw roll a w)"
proof -
  obtain now w1 where c: "read_clock w = (now, w1)" by fastforce
  note w1 = tally_ok_clock [OF c assms]
  have p: "kept_by p a w (process src recs errs n roll a w1)" for recs errs n
    using kept_by_process [of p w1 a src recs errs n roll] w1 by (simp add: kept_by_def)
  show "kept_by p a w (bulk tx src content_type raw roll a w)"
    using assms w1 c p by (auto simp: bulk_def kept_by_refused split: option.split prod.split)
  show "kept_by p a w (otlp tx d src content_type raw roll a w)"
    using assms w1 c p by (auto simp: otlp_def Let_def kept_by_refused split: option.split prod.split)
qed

definition ingest_inv :: "ingest_system \<Rightarrow> bool" where
  "ingest_inv s \<longleftrightarrow> tally_ok (is_pruned s) (is_world s) \<and> list_all job_ok (is_jobs s)"

lemma prune_source_stats_left:
  "lw_logs (snd (prune_source_stats cfg w)) = lw_logs w \<and> lw_usage (snd (prune_source_stats cfg w)) = lw_usage w
    \<and> lw_rejects (snd (prune_source_stats cfg w)) = lw_rejects w
    \<and> (lw_source_hours (snd (prune_source_stats cfg w)) = lw_source_hours w
      \<or> lw_source_hours (snd (prune_source_stats cfg w)) =
        filter (\<lambda>h. \<not> sh_hour h < fst (clock_cutoff (rc_source_days cfg) w)) (lw_source_hours w))"
  by (auto simp: prune_source_stats_def clock_cutoff_def read_clock_def log_call_def Let_def split: list.split)

lemma prune_rejects_left:
  "\<exists>keep. lw_rejects (snd (prune_rejects cfg w)) = filter keep (lw_rejects w)
    \<and> lw_logs (snd (prune_rejects cfg w)) = lw_logs w \<and> lw_usage (snd (prune_rejects cfg w)) = lw_usage w
    \<and> lw_source_hours (snd (prune_rejects cfg w)) = lw_source_hours w"
proof -
  have "\<exists>keep. rows = filter keep rows" for rows :: "reject list" by (rule exI [of _ "\<lambda>_. True"]) simp
  then show ?thesis
    by (auto simp: prune_rejects_def clock_cutoff_def read_clock_def log_call_def Let_def split: list.split)
qed

lemma tally_ok_later: "tally_ok p w \<Longrightarrow> p \<le> q \<Longrightarrow> tally_ok q w"
  by (auto simp: tally_ok_def counters_agree_def)

lemma hours_total_pruned:
  assumes "c \<le> d"
  shows "hours_total f s d (filter (\<lambda>r. \<not> sh_hour r < c) rows) = hours_total f s d rows"
proof -
  have "d \<le> t" if "utc_day t = d" for t
    using that time_truncate_bounds [of "24 * go_hour" t] by (simp add: utc_day_def)
  then have "\<not> sh_hour r < c" if "utc_day (sh_hour r) = d" for r using that assms by fastforce
  then have "filter (\<lambda>r. sh_source r = s \<and> utc_day (sh_hour r) = d) (filter (\<lambda>r. \<not> sh_hour r < c) rows) =
      filter (\<lambda>r. sh_source r = s \<and> utc_day (sh_hour r) = d) rows"
    unfolding filter_filter by (intro filter_cong) auto
  then show ?thesis by (simp add: hours_total_def)
qed

lemma tally_ok_pruned:
  assumes "tally_ok p w" and "lw_logs w' = lw_logs w \<and> lw_usage w' = lw_usage w \<and> lw_rejects w' = lw_rejects w
      \<and> lw_source_hours w' = filter (\<lambda>r. \<not> sh_hour r < c) (lw_source_hours w)"
  shows "tally_ok (max p c) w'"
  using assms
  by (auto simp: tally_ok_def ingest_tables_ok_def counters_agree_def hours_total_pruned distinct_map_filter list_all_iff)

lemma tally_ok_same:
  assumes "tally_ok p w" and "lw_logs w' = lw_logs w \<and> lw_usage w' = lw_usage w \<and> lw_rejects w' = lw_rejects w
      \<and> lw_source_hours w' = lw_source_hours w"
  shows "tally_ok p w'"
  using assms by (simp add: tally_ok_def ingest_tables_ok_def counters_agree_def)

lemma totals_without:
  "hours_total f s d (filter (\<lambda>r. \<not> gone (sh_source r)) rows) = (if gone s then 0 else hours_total f s d rows)"
  "days_total g s d (filter (\<lambda>u. \<not> gone (ug_source u)) urows) = (if gone s then 0 else days_total g s d urows)"
proof -
  have "filter (\<lambda>r. sh_source r = s \<and> utc_day (sh_hour r) = d) (filter (\<lambda>r. \<not> gone (sh_source r)) rows) =
      (if gone s then [] else filter (\<lambda>r. sh_source r = s \<and> utc_day (sh_hour r) = d) rows)"
    by (auto simp: filter_empty_conv intro: filter_cong)
  then show "hours_total f s d (filter (\<lambda>r. \<not> gone (sh_source r)) rows) = (if gone s then 0 else hours_total f s d rows)"
    by (simp add: hours_total_def)
  have "filter (\<lambda>u. ug_source u = s \<and> ug_day u = d) (filter (\<lambda>u. \<not> gone (ug_source u)) urows) =
      (if gone s then [] else filter (\<lambda>u. ug_source u = s \<and> ug_day u = d) urows)"
    by (auto simp: filter_empty_conv intro: filter_cong)
  then show "days_total g s d (filter (\<lambda>u. \<not> gone (ug_source u)) urows) = (if gone s then 0 else days_total g s d urows)"
    by (simp add: days_total_def)
qed

lemma tally_ok_without: "tally_ok p w \<Longrightarrow> tally_ok p (without_sources gone w)"
  by (auto simp: tally_ok_def ingest_tables_ok_def counters_agree_def without_sources_def totals_without distinct_map_filter list_all_iff)

lemma ingest_moves_inv:
  assumes "ingest_moves s s'" and "ingest_inv s"
  shows "ingest_inv s'"
  using assms
proof (induction rule: ingest_moves.induct)
  case (Bulk_request s tx src content_type raw roll)
  then show ?case
    using kept_by_requests(1) [of "is_pruned s" "is_world s" "is_app s" tx src content_type raw roll]
    by (simp add: ingest_inv_def after_request_def kept_by_def jobs_start_ok)
next
  case (Otlp_request s tx d src content_type raw roll)
  then show ?case
    using kept_by_requests(2) [of "is_pruned s" "is_world s" "is_app s" tx d src content_type raw roll]
    by (simp add: ingest_inv_def after_request_def kept_by_def jobs_start_ok)
next
  case (Job_run j s left w)
  then have j: "job_ok j" by (auto simp: ingest_inv_def list_all_iff)
  have "list_all job_ok (remove1 j (is_jobs s))"
    using Job_run(4) by (auto simp: ingest_inv_def list_all_iff dest: notin_set_remove1)
  moreover have "tally_ok (is_pruned s) (is_world s)" using Job_run(4) by (simp add: ingest_inv_def)
  note run_job_tally [OF this j Job_run(3)]
  ultimately show ?case by (simp add: ingest_inv_def)
next
  case (Job_lost s j)
  then show ?case by (auto simp: ingest_inv_def list_all_iff notin_set_remove1)
next
  case (Restart s)
  then show ?case by (simp add: ingest_inv_def)
next
  case (Hours_pruned s cfg)
  let ?w = "is_world s" and ?w' = "snd (prune_source_stats cfg (is_world s))"
    and ?c = "fst (clock_cutoff (rc_source_days cfg) (is_world s))"
  note left = prune_source_stats_left [of cfg ?w]
  have t: "tally_ok (is_pruned s) ?w" using Hours_pruned by (simp add: ingest_inv_def)
  have "tally_ok (max (is_pruned s) ?c) ?w'"
  proof (cases "lw_source_hours ?w' = lw_source_hours ?w")
    case True
    have "tally_ok (is_pruned s) ?w'" by (rule tally_ok_same [OF t]) (use left True in blast)
    then show ?thesis by (rule tally_ok_later) simp
  next
    case False
    show ?thesis by (rule tally_ok_pruned [OF t]) (use left False in blast)
  qed
  then show ?case using Hours_pruned left by (simp add: ingest_inv_def)
next
  case (Rejects_pruned s cfg)
  from prune_rejects_left [of cfg "is_world s"] obtain keep where
    l: "lw_rejects (snd (prune_rejects cfg (is_world s))) = filter keep (lw_rejects (is_world s))"
      "lw_logs (snd (prune_rejects cfg (is_world s))) = lw_logs (is_world s)"
      "lw_usage (snd (prune_rejects cfg (is_world s))) = lw_usage (is_world s)"
      "lw_source_hours (snd (prune_rejects cfg (is_world s))) = lw_source_hours (is_world s)" by blast
  have "tally_ok (is_pruned s) (snd (prune_rejects cfg (is_world s)))"
    using Rejects_pruned l
    by (simp add: ingest_inv_def tally_ok_def ingest_tables_ok_def counters_agree_def distinct_map_filter list_all_iff)
  then show ?case using Rejects_pruned l by (auto simp: ingest_inv_def)
next
  case (Sources_deleted s gone)
  have "lw_rejects (without_sources gone (is_world s)) = filter (\<lambda>r. \<not> gone (rj_source r)) (lw_rejects (is_world s))"
    by (simp add: without_sources_def)
  then show ?case
    using Sources_deleted tally_ok_without by (auto simp: ingest_inv_def)
next
  case (Elsewhere w s)
  then show ?case by (simp add: ingest_inv_def tally_ok_def ingest_tables_ok_def counters_agree_def)
qed

lemma ingest_reach_inv: "ingest_reach s \<Longrightarrow> ingest_inv s"
proof (induction rule: ingest_reach.induct)
  case (Fresh w a)
  then show ?case
    by (simp add: ingest_inv_def tally_ok_def ingest_tables_ok_def counters_agree_def hours_total_def
        days_total_def)
qed (rule ingest_moves_inv)

lemma error_rate_bounds:
  assumes "list_all counts_ok rows"
  shows "0 \<le> error_rate (counters_of rows) \<and> error_rate (counters_of rows) \<le> 1"
proof -
  have "0 \<le> sum_list (map sh_errors rows) \<and> sum_list (map sh_errors rows) \<le> sum_list (map sh_events rows)"
    using assms by (induction rows) (auto simp: counts_ok_def)
  then show ?thesis by (simp add: error_rate_def counters_of_def)
qed

lemma query_source_counters_of:
  assumes "query_source_counters ids start w = (Inr m, w')" and "m i = Some c"
  obtains rows where "set rows \<subseteq> set (lw_source_hours w)" and "c = counters_of rows"
proof -
  have "c = counters_of (filter (\<lambda>r. sh_source r = i \<and> i \<in> set ids \<and> utc_hour start \<le> sh_hour r) (lw_source_hours w))"
    using assms
    by (auto simp: query_source_counters_def s_source_counters_def log_call_def ret_op_def Let_def split: if_splits list.splits)
  then show thesis by (rule that [rotated]) auto
qed

text \<open>
  C16: the tables of ingestion stay well formed through any run of requests of both endpoints and of
  the jobs they leave, in any order, lost or run: counters have one row per source and day, and per
  source and hour, none negative and errors within events; refusals have one row per identifier, a
  known kind, and a reason and payload within their bounds. So the error rate of a source, over any
  window it is asked for, lies between 0 and 1.
\<close>

theorem ingest_tables_typed:
  assumes "ingest_reach s"
  shows "ingest_tables_ok (is_world s) \<and>
    (\<forall>ids start m w' i c. query_source_counters ids start (is_world s) = (Inr m, w') \<longrightarrow> m i = Some c \<longrightarrow>
      0 \<le> error_rate c \<and> error_rate c \<le> 1)"
proof -
  have ok: "ingest_tables_ok (is_world s)"
    using ingest_reach_inv [OF assms] by (simp add: ingest_inv_def tally_ok_def)
  moreover have "0 \<le> error_rate c \<and> error_rate c \<le> 1"
    if q: "query_source_counters ids start (is_world s) = (Inr m, w')" "m i = Some c" for ids start m w' i c
  proof -
    obtain rows where r: "set rows \<subseteq> set (lw_source_hours (is_world s))" "c = counters_of rows"
      using query_source_counters_of [OF q] by blast
    then have "list_all counts_ok rows" using ok by (auto simp: ingest_tables_ok_def list_all_iff)
    then show ?thesis using r(2) error_rate_bounds by simp
  qed
  ultimately show ?thesis by blast
qed

text \<open>
  C10: the counters of billing and those of source health never disagree. A delta is recorded in both
  tables or in neither, so for every source and every day whose hours have not been pruned, the
  hourly counters of that day add up to the daily tally that the quota is enforced from, of accepted
  records and of those sampled away, whatever requests, failures and lost jobs came before.
\<close>

theorem hourly_daily_agree:
  assumes "ingest_reach s" and "is_pruned s \<le> d"
  shows "hours_total sh_events i d (lw_source_hours (is_world s)) = days_total ug_events i d (lw_usage (is_world s))
    \<and> hours_total sh_dropped i d (lw_source_hours (is_world s)) = days_total ug_dropped i d (lw_usage (is_world s))"
  using ingest_reach_inv [OF assms(1)] assms(2) by (simp add: ingest_inv_def tally_ok_def counters_agree_def)

subsection \<open>A run\<close>

definition sample_system :: ingest_system where
  "sample_system = \<lparr> is_app = sample_app, is_world = ingest_world, is_jobs = [], is_pruned = 0 \<rparr>"

definition sample_usage :: usage where
  "sample_usage = \<lparr> us_source = 5, us_org = 2, us_project = 1, us_day = 864000000000000, us_events = 1,
     us_bytes = int (length sample_body), us_dropped = 0, us_errors = 0, us_rejects = 1 \<rparr>"

definition sample_rejects :: "new_reject list" where
  "sample_rejects = [\<lparr> nj_source = 5, nj_org = 2, nj_project = 1, nj_kind = kind_parse, nj_index = 1,
     nj_reason = ''invalid JSON: bad'', nj_payload = ''x'' \<rparr>]"

lemma sample_created_faults: "lw_faults (snd (bulk_create [record_to_new_log sample_source hi_record] ingest_world)) = []"
  by code_simp

lemma sample_outcome:
  obtains out a' w' where "bulk sample_texts sample_source ''application/x-ndjson'' (Some sample_body) (\<lambda>_. 0) sample_app ingest_world
      = ((out, a'), w')"
    and "io_jobs out = [Job_usage sample_usage, Job_rejects sample_rejects, Job_touch 5 864000000000000]"
    and "ia_rejects a' = Some (new_reject_bus None 0)" and "beside w' = beside ingest_world" and "lw_faults w' = []"
proof -
  have "length sample_body \<le> max_body_bytes" by (simp add: sample_body_def)
  moreover obtain w' where c: "bulk_create [record_to_new_log sample_source hi_record] ingest_world
    = (Inr [entry_of 100 (record_to_new_log sample_source hi_record)], w')"
    using sample_created by (metis prod.collapse)
  moreover have "allow_n (sc_id sample_source) (sc_rate sample_source) (sc_burst sample_source) n now l = ((True, 0), l)" for n now l
    by (simp add: sample_source_def allow_n_unlimited)
  moreover have "ia_redactor (sample_app\<lparr> ia_limiter := l \<rparr>) = default_patterns" for l by (simp add: sample_app_def)
  ultimately have b: "bulk sample_texts sample_source ''application/x-ndjson'' (Some sample_body) (\<lambda>_. 0) sample_app ingest_world =
      (finish (sample_app\<lparr> ia_limiter := ia_limiter sample_app \<rparr>) sample_source 864000000000000
        [entry_of 100 (record_to_new_log sample_source hi_record)] (length sample_body) 0
        [parse_error sample_texts 1 ''invalid JSON: '' ''x''], w')"
    by (simp add: bulk_def read_limited_def sample_parsed sample_clock sample_validated process_def sample_quota
        sample_sampled Let_def split: prod.split del: validate_records.simps sample_records.simps)
  obtain out a' where f: "finish (sample_app\<lparr> ia_limiter := ia_limiter sample_app \<rparr>) sample_source 864000000000000
        [entry_of 100 (record_to_new_log sample_source hi_record)] (length sample_body) 0
        [parse_error sample_texts 1 ''invalid JSON: '' ''x''] = (out, a')" by fastforce
  have "io_jobs out = [Job_usage sample_usage, Job_rejects sample_rejects, Job_touch 5 864000000000000]"
    "ia_rejects a' = Some (new_reject_bus None 0)"
    using f by (auto simp: finish_def touch_last_seen_def usage_jobs_def reject_jobs_def sample_app_def sample_source_def
        sample_usage_def sample_rejects_def parse_error_def sample_texts_def entry_of_def record_to_new_log_def hi_record_def)
  moreover have "beside w' = beside ingest_world"
    using keepsD [OF keeps_beside_bulk_create, of ingest_world "beside ingest_world" "[record_to_new_log sample_source hi_record]"] c
    by simp
  moreover have "lw_faults w' = []" using sample_created_faults c by simp
  ultimately show thesis using that b f by simp
qed

text \<open>A request and the job of its counters; the refusals and the touch are left.\<close>

lemma sample_fresh: "ingest_reach sample_system"
  unfolding sample_system_def by (rule Fresh) (simp_all add: ingest_world_def retained_world_def table_ok_def)

lemma sample_run:
  obtains s0 s where "ingest_moves sample_system s0" and "ingest_moves s0 s" and "lw_now (is_world s0) = 864000000000000"
    and "is_jobs s0 = [Job_usage sample_usage, Job_rejects sample_rejects, Job_touch 5 864000000000000]"
    and "is_jobs s = [Job_rejects sample_rejects, Job_touch 5 864000000000000]"
    and "ia_rejects (is_app s) = Some (new_reject_bus None 0)" and "is_pruned s = 0"
    and "lw_usage (is_world s) = fold_usage sample_usage []"
    and "lw_ticks (is_world s) = []" and "lw_faults (is_world s) = []" and "lw_now (is_world s) = 864000000000000"
    and "lw_rejects (is_world s) = []" and "lw_sources (is_world s) = [sample_source]"
    and "lw_projects (is_world s) = lw_projects ingest_world" and "lw_orgs (is_world s) = lw_orgs ingest_world"
proof -
  obtain out a' w' where o: "bulk sample_texts sample_source ''application/x-ndjson'' (Some sample_body) (\<lambda>_. 0) sample_app ingest_world
      = ((out, a'), w')"
    and jobs: "io_jobs out = [Job_usage sample_usage, Job_rejects sample_rejects, Job_touch 5 864000000000000]"
    and rb: "ia_rejects a' = Some (new_reject_bus None 0)" and b: "beside w' = beside ingest_world" and f: "lw_faults w' = []"
    by (rule sample_outcome)
  note w' = beside_fields [OF b]
  have ticks: "lw_ticks w' = []"
    using arg_cong [OF b, of lw_ticks] by (simp add: beside_def ingest_world_def retained_world_def)
  define s0 where "s0 = \<lparr> is_app = a', is_world = w', is_jobs = io_jobs out, is_pruned = 0 \<rparr>"
  have "ingest_moves sample_system (after_request sample_system
      (bulk sample_texts sample_source ''application/x-ndjson'' (Some sample_body) (\<lambda>_. 0) sample_app ingest_world))"
    using Bulk_request [of sample_system] by (simp add: sample_system_def)
  then have s0: "ingest_moves sample_system s0" unfolding o s0_def by (simp add: after_request_def sample_system_def)
  obtain left w1 where job: "run_job (ia_rejects a') (Job_usage sample_usage) w' = (left, w1)" by fastforce
  define s1 where "s1 = s0\<lparr> is_world := w1, is_jobs := remove1 (Job_usage sample_usage) (is_jobs s0) @ left \<rparr>"
  have s1: "ingest_moves s0 s1"
    using Job_run [of "Job_usage sample_usage" s0 left w1] ticks jobs job by (simp add: s0_def s1_def)
  have w1: "lw_ticks w1 = []" "lw_faults w1 = []" "lw_now w1 = 864000000000000" "lw_rejects w1 = []" "lw_sources w1 = [sample_source]"
    "lw_projects w1 = lw_projects ingest_world" "lw_orgs w1 = lw_orgs ingest_world"
    "lw_usage w1 = fold_usage sample_usage []" "left = []"
    using ticks f w' job by (auto simp: record_delta_def s_record_def s_daily_def s_hourly_def commit_def log_call_def tx_op_def
        try_op_def ret_op_def ingest_world_def retained_world_def sample_source_def sample_usage_def)
  have now: "lw_now w' = 864000000000000" using w' by (simp add: ingest_world_def retained_world_def)
  show thesis using that [OF s0 s1] w1 rb jobs now by (simp add: s1_def s0_def)
qed

lemma sample_totals:
  "length (fold_usage sample_usage []) = 1" "days_total ug_events 5 864000000000000 (fold_usage sample_usage []) = 1"
  by (simp_all add: fold_usage_def sample_usage_def days_total_def utc_day_def time_truncate_def)

theorem ingest_tables_typed_witness: "\<exists>s. ingest_reach s \<and> length (lw_usage (is_world s)) = 1 \<and> ingest_tables_ok (is_world s)"
proof -
  obtain s0 s where s: "ingest_moves sample_system s0" "ingest_moves s0 s" "lw_usage (is_world s) = fold_usage sample_usage []"
    by (rule sample_run)
  have "ingest_reach s" using sample_fresh s(1,2) Next by blast
  from ingest_tables_typed [OF this] this s(3) sample_totals show ?thesis by metis
qed

theorem hourly_daily_agree_witness:
  "\<exists>s. ingest_reach s \<and> hours_total sh_events 5 864000000000000 (lw_source_hours (is_world s)) = 1"
proof -
  obtain s0 s where s: "ingest_moves sample_system s0" "ingest_moves s0 s" "lw_usage (is_world s) = fold_usage sample_usage []"
    "is_pruned s = 0" by (rule sample_run)
  have r: "ingest_reach s" using sample_fresh s(1,2) Next by blast
  have "hours_total sh_events 5 864000000000000 (lw_source_hours (is_world s)) = 1"
    using hourly_daily_agree [OF r, of 864000000000000 5] s(3,4) sample_totals by simp
  then show ?thesis using r by blast
qed

end
