(* ===== verification/RejectCap.thy ===== *)
theory RejectCap
  imports IngestState
begin

text \<open>
  The hourly cap on what is stored of the refused, with as many jobs between their count and their
  insert as a run allows: each of them may fill the cap once.
\<close>

subsection \<open>What an hour holds, and what is on its way\<close>

definition hour_count :: "uuid \<Rightarrow> instant \<Rightarrow> reject list \<Rightarrow> nat" where
  "hour_count s h rows = length (filter (\<lambda>r. rj_source r = s \<and> utc_hour (rj_received r) = h) rows)"

lemma hour_count_append: "hour_count s h (xs @ ys) = hour_count s h xs + hour_count s h ys"
  by (simp add: hour_count_def)

lemma hour_count_filter: "hour_count i h (filter keep rows) \<le> hour_count i h rows"
  by (induction rows) (auto simp: hour_count_def)

lemma pg_time_hour: "pg_time (utc_hour t) = utc_hour t"
proof -
  have "1000 dvd utc_hour t" unfolding utc_hour_def by (rule dvd_trans [OF _ time_truncate_dvd]) simp_all
  then show ?thesis by (simp add: pg_time_def time_truncate_def)
qed

lemma hour_count_stored: "hour_count i h (map (\<lambda>r. r\<lparr> rj_received := pg_time (rj_received r) \<rparr>) rows) = hour_count i h rows"
  by (induction rows) (simp_all add: hour_count_def utc_hour_pg_time)

lemma length_filter_mono: "(\<And>x. x \<in> set xs \<Longrightarrow> P x \<Longrightarrow> Q x) \<Longrightarrow> length (filter P xs) \<le> length (filter Q xs)"
  by (induction xs) auto

lemma hour_count_since:
  assumes "utc_hour t \<le> h"
  shows "hour_count i h rows \<le> stored_since i (hour_start t) rows"
  unfolding hour_count_def stored_since_def
proof (rule length_filter_mono)
  fix r assume "r \<in> set rows" and r: "rj_source r = i \<and> utc_hour (rj_received r) = h"
  have "utc_hour (rj_received r) \<le> rj_received r"
    using time_truncate_bounds [of go_hour "rj_received r"] by (simp add: utc_hour_def)
  then show "rj_source r = i \<and> pg_time (hour_start t) \<le> rj_received r" using r assms by (simp add: pg_time_hour)
qed

text \<open>A job of the source between its count and its insert, and what it may still add to an hour.\<close>

definition underway :: "uuid \<Rightarrow> ingest_job \<Rightarrow> bool" where
  "underway i j =
     (case j of
        Job_stamp rs \<Rightarrow> list_ex (\<lambda>r. nj_source r = i) rs
      | Job_insert rows \<Rightarrow> list_ex (\<lambda>r. rj_source r = i) rows
      | _ \<Rightarrow> False)"

definition due :: "uuid \<Rightarrow> instant \<Rightarrow> instant \<Rightarrow> ingest_job \<Rightarrow> nat" where
  "due i h now j =
     (case j of
        Job_stamp rs \<Rightarrow> if utc_hour now \<le> h then length (filter (\<lambda>r. nj_source r = i) rs) else 0
      | Job_insert rows \<Rightarrow> hour_count i h rows
      | _ \<Rightarrow> 0)"

abbreviation overlapping :: "uuid \<Rightarrow> ingest_job list \<Rightarrow> nat" where
  "overlapping i jobs \<equiv> length (filter (underway i) jobs)"

abbreviation total_due :: "uuid \<Rightarrow> instant \<Rightarrow> instant \<Rightarrow> ingest_job list \<Rightarrow> nat" where
  "total_due i h now jobs \<equiv> sum_list (map (due i h now) jobs)"

lemma due_underway: "\<not> underway i j \<Longrightarrow> due i h now j = 0"
  by (auto simp: underway_def due_def hour_count_def filter_empty_conv list_ex_iff split: ingest_job.splits)

lemma due_later: "t \<le> u \<Longrightarrow> due i h u j \<le> due i h t j"
  using utc_hour_mono [of t u] by (auto simp: due_def split: ingest_job.splits)

lemma total_due_later: "t \<le> u \<Longrightarrow> total_due i h u jobs \<le> total_due i h t jobs"
  by (rule sum_list_mono) (rule due_later)

lemma total_due_bound:
  assumes "list_all (\<lambda>j. \<forall>h. due i h now j \<le> k) jobs"
  shows "total_due i h now jobs \<le> overlapping i jobs * k"
  using assms by (induction jobs) (auto simp: due_underway intro: add_mono)

lemma total_due_remove1:
  "total_due i h now (remove1 j jobs) + (if j \<in> set jobs then due i h now j else 0) = total_due i h now jobs"
  by (induction jobs) auto

lemma overlapping_remove1: "overlapping i (remove1 j jobs) \<le> overlapping i jobs"
  by (induction jobs) auto

subsection \<open>One step of a job\<close>

lemma stamped_due:
  assumes "list_all2 (\<lambda>nj j. \<exists>k. j = reject_of b now k nj) rs rows"
  shows "hour_count i h rows = (if utc_hour now = h then length (filter (\<lambda>r. nj_source r = i) rs) else 0)"
  using assms by (induction rule: list_all2_induct) (auto simp: hour_count_def reject_of_def)

lemma run_job_moves_due:
  assumes "run_job (Some b) j w = (left, w')" and "lw_now w \<le> lw_now w'" and "\<And>rs. j \<noteq> Job_rejects rs"
  shows "hour_count i h (lw_rejects w') + total_due i h (lw_now w') left \<le> hour_count i h (lw_rejects w) + due i h (lw_now w) j
    \<and> list_all (\<lambda>k. due i h (lw_now w') k \<le> due i h (lw_now w) j) left"
proof (cases j)
  case (Job_usage u)
  obtain r w1 where "record_delta u w = (r, w1)" by fastforce
  with record_cases [OF this] show ?thesis using assms(1) Job_usage by (auto simp: due_def)
next
  case (Job_rejects rs)
  then show ?thesis using assms(3) by blast
next
  case (Job_stamp rs)
  obtain r w1 where st: "stamp_rejects b rs w = (r, w1)" by fastforce
  from stamp_rejects_done [OF st] obtain rows where d: "same_tables w w1" "lw_now w1 = fst (read_clock w)" "r = Inr rows"
    "list_all2 (\<lambda>nj j. \<exists>k. j = reject_of b (fst (read_clock w)) k nj) rs rows" by blast
  have "left = [Job_insert rows]" "w' = w1" using assms(1) Job_stamp st d(3) by simp_all
  moreover have "due i h (lw_now w1) (Job_insert rows) \<le> due i h (lw_now w) j"
    using stamped_due [OF d(4), of i h] utc_hour_mono [OF assms(2)] d(2) \<open>w' = w1\<close> Job_stamp by (auto simp: due_def)
  ultimately show ?thesis using d(1) by (simp add: same_tables_def)
next
  case (Job_insert rows)
  obtain r w1 where st: "s_store_rejects rows w = (r, w1)" by fastforce
  then have "left = []" "w' = w1" using assms(1) Job_insert by simp_all
  then show ?thesis
    using s_store_rejects_done [OF st] Job_insert by (auto simp: due_def hour_count_append hour_count_stored)
next
  case (Job_touch i t)
  then show ?thesis using assms(1) by (auto simp: s_touch_def log_call_def due_def split: list.splits)
qed

lemma run_job_counts:
  assumes "run_job (Some b) (Job_rejects rs) w = (left, w')" and "list_all (\<lambda>x. nj_source x = k) rs" and "0 \<le> rb_cap b"
  shows "lw_rejects w' = lw_rejects w \<and> list_all (\<lambda>j. \<forall>h. int (due i h (lw_now w') j) \<le> rb_cap b) left
    \<and> (left = [] \<or> k = i \<and> overlapping i left = 1
        \<and> (\<forall>h. total_due i h (lw_now w') left = 0
          \<or> int (hour_count i h (lw_rejects w) + total_due i h (lw_now w') left) \<le> rb_cap b)
      \<or> (\<forall>h. total_due i h (lw_now w') left = 0))"
proof -
  obtain r w1 where st: "reject_room b rs w = (r, w1)" by fastforce
  note room = reject_room_done [OF st]
  have tables: "lw_rejects w1 = lw_rejects w" using room by (simp add: same_tables_def)
  show ?thesis
  proof (cases "\<exists>kept. r = Inr kept \<and> kept \<noteq> []")
    case False
    then show ?thesis using assms(1) st tables by (auto split: sum.splits if_splits)
  next
    case True
    then obtain kept where k: "r = Inr kept" "kept \<noteq> []" by blast
    let ?since = "\<lambda>i. stored_since i (hour_start (fst (read_clock w))) (lw_rejects w)"
    obtain nj njs where rs: "rs = nj # njs" "kept = take (nat (rb_cap b - int (?since (nj_source nj)))) rs"
      using room k by blast
    have nj: "nj_source nj = k" using assms(2) rs(1) by simp
    have left: "left = [Job_stamp kept]" "w' = w1" using assms(1) st k by simp_all
    have now: "lw_now w1 = fst (read_clock w)" using room rs(1) by simp
    have len: "int (length kept) \<le> rb_cap b - int (?since k)" using rs(2) k(2) nj by (cases "rb_cap b \<le> int (?since k)") auto
    have src: "list_all (\<lambda>x. nj_source x = k) kept" using assms(2) rs(2) by (auto simp: list_all_iff dest: in_set_takeD)
    have le: "due i h t (Job_stamp kept) \<le> length kept" for h t by (simp add: due_def)
    then have "int (due i h t (Job_stamp kept)) \<le> rb_cap b" for h t using len le [of h t] by linarith
    moreover have "\<forall>h. total_due i h t left = 0" if "k \<noteq> i" for t
      using that src left(1) by (auto simp: due_def list_all_iff filter_empty_conv)
    moreover have "overlapping i left = 1" if "k = i"
      using that src k(2) left(1) by (cases kept) (simp_all add: underway_def)
    moreover have "total_due i h (lw_now w') left = 0
        \<or> int (hour_count i h (lw_rejects w) + total_due i h (lw_now w') left) \<le> rb_cap b" if "k = i" for h
    proof (cases "utc_hour (lw_now w') \<le> h")
      case True
      have "hour_count i h (lw_rejects w) \<le> ?since i" using hour_count_since [of "fst (read_clock w)" h i] True now left(2) by simp
      moreover have "total_due i h (lw_now w') left \<le> length kept" using le left(1) by simp
      ultimately have "int (hour_count i h (lw_rejects w) + total_due i h (lw_now w') left) \<le> rb_cap b"
        using len unfolding that by linarith
      then show ?thesis by blast
    qed (use left(1) in \<open>simp add: due_def\<close>)
    ultimately show ?thesis using tables left by (cases "k = i") simp_all
  qed
qed

subsection \<open>Runs with a bound on the overlap\<close>

text \<open>
  The runs of \<open>ingest_moves\<close> from empty tables in which the clock is not set back and no more than \<open>n\<close>
  jobs of the source \<open>i\<close> are between their count and their insert at any time.
\<close>

inductive capped_reach :: "nat \<Rightarrow> uuid \<Rightarrow> ingest_system \<Rightarrow> bool" for n i where
  Cap_fresh: "table_ok (lw_logs w) \<Longrightarrow> lw_usage w = [] \<Longrightarrow> lw_source_hours w = [] \<Longrightarrow> lw_rejects w = [] \<Longrightarrow>
    capped_reach n i \<lparr> is_app = a, is_world = w, is_jobs = [], is_pruned = p \<rparr>"
| Cap_next: "capped_reach n i s \<Longrightarrow> ingest_moves s s' \<Longrightarrow> lw_now (is_world s) \<le> lw_now (is_world s') \<Longrightarrow>
    overlapping i (is_jobs s') \<le> n \<Longrightarrow> capped_reach n i s'"

lemma capped_reach_ingest: "capped_reach n i s \<Longrightarrow> ingest_reach s"
  by (induction rule: capped_reach.induct) (auto intro: Fresh Next)

definition cap_inv :: "nat \<Rightarrow> uuid \<Rightarrow> ingest_system \<Rightarrow> bool" where
  "cap_inv n i s \<longleftrightarrow> (\<forall>b. ia_rejects (is_app s) = Some b \<longrightarrow> 0 \<le> rb_cap b \<longrightarrow>
     (\<forall>h. int (hour_count i h (lw_rejects (is_world s)) + total_due i h (lw_now (is_world s)) (is_jobs s)) \<le> int n * rb_cap b)
     \<and> list_all (\<lambda>j. \<forall>h. int (due i h (lw_now (is_world s)) j) \<le> rb_cap b) (is_jobs s))"

text \<open>A move that leaves the buckets in flight as they are and stores nothing.\<close>

lemma cap_inv_quiet:
  assumes "cap_inv n i s" and "ia_rejects (is_app s') = ia_rejects (is_app s)" and "lw_now (is_world s) \<le> lw_now (is_world s')"
    and "\<And>h. hour_count i h (lw_rejects (is_world s')) \<le> hour_count i h (lw_rejects (is_world s))"
    and "\<And>h t. total_due i h t (is_jobs s') \<le> total_due i h t (is_jobs s)"
    and "list_all (\<lambda>j. j \<in> set (is_jobs s) \<or> \<not> underway i j) (is_jobs s')"
  shows "cap_inv n i s'"
proof (unfold cap_inv_def, intro allI impI conjI)
  fix b assume b: "ia_rejects (is_app s') = Some b" "0 \<le> rb_cap b"
  then have inv: "\<And>h. int (hour_count i h (lw_rejects (is_world s)) + total_due i h (lw_now (is_world s)) (is_jobs s)) \<le> int n * rb_cap b"
    "list_all (\<lambda>j. \<forall>h. int (due i h (lw_now (is_world s)) j) \<le> rb_cap b) (is_jobs s)"
    using assms(1,2) by (simp_all add: cap_inv_def)
  fix h
  have "total_due i h (lw_now (is_world s')) (is_jobs s') \<le> total_due i h (lw_now (is_world s)) (is_jobs s)"
    using assms(5) total_due_later [OF assms(3)] le_trans by blast
  then show "int (hour_count i h (lw_rejects (is_world s')) + total_due i h (lw_now (is_world s')) (is_jobs s')) \<le> int n * rb_cap b"
    using inv(1) [of h] assms(4) [of h] by linarith
next
  fix b assume b: "ia_rejects (is_app s') = Some b" "0 \<le> rb_cap b"
  then have inv: "list_all (\<lambda>j. \<forall>h. int (due i h (lw_now (is_world s)) j) \<le> rb_cap b) (is_jobs s)"
    using assms(1,2) by (simp add: cap_inv_def)
  show "list_all (\<lambda>j. \<forall>h. int (due i h (lw_now (is_world s')) j) \<le> rb_cap b) (is_jobs s')"
  proof (unfold list_all_iff, intro ballI allI)
    fix j h assume "j \<in> set (is_jobs s')"
    then consider "j \<in> set (is_jobs s)" | "\<not> underway i j" using assms(6) by (auto simp: list_all_iff)
    then show "int (due i h (lw_now (is_world s')) j) \<le> rb_cap b"
    proof cases
      case 1
      then have "int (due i h (lw_now (is_world s)) j) \<le> rb_cap b" using inv by (simp add: list_all_iff)
      then show ?thesis using due_later [OF assms(3), of i h j] by linarith
    qed (use b(2) due_underway in simp)
  qed
qed

lemma cap_inv_job:
  assumes "cap_inv n i s" and "job_ok j" and "j \<in> set (is_jobs s)"
    and run: "run_job (ia_rejects (is_app s)) j (is_world s) = (left, w)"
    and "lw_now (is_world s) \<le> lw_now w" and "overlapping i (remove1 j (is_jobs s) @ left) \<le> n"
  shows "cap_inv n i (s\<lparr> is_world := w, is_jobs := remove1 j (is_jobs s) @ left \<rparr>)"
proof (unfold cap_inv_def, intro allI impI)
  fix b
  let ?s' = "s\<lparr> is_world := w, is_jobs := remove1 j (is_jobs s) @ left \<rparr>"
  let ?rest = "remove1 j (is_jobs s)" and ?rows = "lw_rejects (is_world s)" and ?now = "lw_now (is_world s)"
  assume "ia_rejects (is_app ?s') = Some b" and c: "0 \<le> rb_cap b"
  then have b: "ia_rejects (is_app s) = Some b" by simp
  have total: "\<And>h. int (hour_count i h ?rows + total_due i h ?now (is_jobs s)) \<le> int n * rb_cap b"
    and each: "list_all (\<lambda>j. \<forall>h. int (due i h ?now j) \<le> rb_cap b) (is_jobs s)"
    using assms(1) b c by (simp_all add: cap_inv_def)
  have part: "\<And>h. total_due i h ?now ?rest + due i h ?now j = total_due i h ?now (is_jobs s)"
    using total_due_remove1 [of i _ ?now j "is_jobs s"] assms(3) by simp
  have later: "\<And>h. total_due i h (lw_now w) ?rest \<le> total_due i h ?now ?rest" by (rule total_due_later [OF assms(5)])
  have rest: "list_all (\<lambda>j. \<forall>h. int (due i h (lw_now w) j) \<le> rb_cap b) ?rest"
    unfolding list_all_iff
  proof (intro ballI allI)
    fix k h assume "k \<in> set ?rest"
    then have "int (due i h ?now k) \<le> rb_cap b" using each notin_set_remove1 by (fastforce simp: list_all_iff)
    then show "int (due i h (lw_now w) k) \<le> rb_cap b" using due_later [OF assms(5), of i h k] by linarith
  qed
  have "(\<forall>h. int (hour_count i h (lw_rejects w) + total_due i h (lw_now w) (?rest @ left)) \<le> int n * rb_cap b)
      \<and> list_all (\<lambda>j. \<forall>h. int (due i h (lw_now w) j) \<le> rb_cap b) left"
  proof (cases "\<exists>rs. j = Job_rejects rs")
    case False
    note moves = run_job_moves_due [OF run [unfolded b] assms(5), of i]
    have "int (hour_count i h (lw_rejects w) + total_due i h (lw_now w) (?rest @ left)) \<le> int n * rb_cap b" for h
      using moves [of h] False part [of h] later [of h] total [of h] by simp
    moreover have "int (due i h (lw_now w) k) \<le> rb_cap b" if "k \<in> set left" for k h
    proof -
      have "due i h (lw_now w) k \<le> due i h ?now j" using moves [of h] False that by (simp add: list_all_iff)
      moreover have "int (due i h ?now j) \<le> rb_cap b" using each assms(3) by (simp add: list_all_iff)
      ultimately show ?thesis by linarith
    qed
    ultimately show ?thesis by (simp add: list_all_iff)
  next
    case True
    then obtain rs where rs: "j = Job_rejects rs" by blast
    obtain k where k: "list_all (\<lambda>x. nj_source x = k) rs" using assms(2) rs by (auto simp: job_ok_def)
    note counts = run_job_counts [OF run [unfolded b rs] k c, of i]
    have rows: "lw_rejects w = ?rows" using counts by blast
    have "int (hour_count i h (lw_rejects w) + (total_due i h (lw_now w) ?rest + total_due i h (lw_now w) left)) \<le> int n * rb_cap b" for h
    proof (cases "total_due i h (lw_now w) left = 0")
      case True
      then show ?thesis unfolding rows using part [of h] later [of h] total [of h] by linarith
    next
      case False
      then have "left \<noteq> []" by auto
      have one: "overlapping i left = 1 \<and> int (hour_count i h ?rows + total_due i h (lw_now w) left) \<le> rb_cap b"
        using counts False \<open>left \<noteq> []\<close> by meson
      have "list_all (\<lambda>j. \<forall>h. due i h (lw_now w) j \<le> nat (rb_cap b)) ?rest"
        using rest c by (auto simp: list_all_iff le_nat_iff)
      note total_due_bound [OF this, of h]
      moreover have "overlapping i ?rest \<le> n - 1" "1 \<le> n" using assms(6) conjunct1 [OF one] by simp_all
      ultimately have "total_due i h (lw_now w) ?rest \<le> (n - 1) * nat (rb_cap b)"
        by (meson le_trans mult_le_mono1)
      then have "int (total_due i h (lw_now w) ?rest) \<le> int ((n - 1) * nat (rb_cap b))" by linarith
      also have "\<dots> = int n * rb_cap b - rb_cap b" using c \<open>1 \<le> n\<close> by (simp add: of_nat_diff left_diff_distrib)
      finally show ?thesis using conjunct2 [OF one] unfolding rows by linarith
    qed
    moreover have "list_all (\<lambda>j. \<forall>h. int (due i h (lw_now w) j) \<le> rb_cap b) left" using counts by blast
    ultimately show ?thesis by simp
  qed
  then show "(\<forall>h. int (hour_count i h (lw_rejects (is_world ?s')) + total_due i h (lw_now (is_world ?s')) (is_jobs ?s')) \<le> int n * rb_cap b)
      \<and> list_all (\<lambda>j. \<forall>h. int (due i h (lw_now (is_world ?s')) j) \<le> rb_cap b) (is_jobs ?s')"
    using rest by simp
qed

lemma starts_not_due: "list_all job_starts js \<Longrightarrow> total_due i h t js = 0 \<and> list_all (\<lambda>j. \<not> underway i j) js"
  by (induction js) (auto simp: job_starts_def due_def underway_def split: ingest_job.splits)

lemma cap_inv_request:
  assumes "cap_inv n i s" and "kept_by p (is_app s) (is_world s) res" and "lw_now (is_world s) \<le> lw_now (snd res)"
  shows "cap_inv n i (after_request s res)"
  using assms starts_not_due [of "io_jobs (fst (fst res))" i]
  by (intro cap_inv_quiet [OF assms(1)]) (auto simp: after_request_def kept_by_def list_all_iff)

lemma ingest_moves_cap:
  assumes "ingest_moves s s'" and "ingest_inv s" and "cap_inv n i s" and "lw_now (is_world s) \<le> lw_now (is_world s')"
    and "overlapping i (is_jobs s') \<le> n"
  shows "cap_inv n i s'"
  using assms
proof (induction rule: ingest_moves.induct)
  case (Bulk_request s tx src content_type raw roll)
  then show ?case
    by (intro cap_inv_request [OF _ kept_by_requests(1) [of "is_pruned s"]]) (simp_all add: ingest_inv_def after_request_def)
next
  case (Otlp_request s tx d src content_type raw roll)
  then show ?case
    by (intro cap_inv_request [OF _ kept_by_requests(2) [of "is_pruned s"]]) (simp_all add: ingest_inv_def after_request_def)
next
  case (Job_run j s left w)
  have "job_ok j" using Job_run(1,4) by (auto simp: ingest_inv_def list_all_iff)
  then show ?case using Job_run by (intro cap_inv_job) simp_all
next
  case (Job_lost s j)
  have "total_due i h t (remove1 j (is_jobs s)) \<le> total_due i h t (is_jobs s)" for h t
    using total_due_remove1 [of i h t j "is_jobs s"] by linarith
  then show ?case
    using Job_lost by (intro cap_inv_quiet [OF Job_lost(2)]) (auto simp: list_all_iff dest: notin_set_remove1)
next
  case (Restart s)
  then show ?case by (intro cap_inv_quiet [OF Restart(2)]) simp_all
next
  case (Hours_pruned s cfg)
  then show ?case
    using prune_source_stats_left [of cfg "is_world s"] by (intro cap_inv_quiet [OF Hours_pruned(2)]) (simp_all add: list_all_iff)
next
  case (Rejects_pruned s cfg)
  from prune_rejects_left [of cfg "is_world s"] obtain keep where
    "lw_rejects (snd (prune_rejects cfg (is_world s))) = filter keep (lw_rejects (is_world s))" by blast
  then show ?case
    using Rejects_pruned by (intro cap_inv_quiet [OF Rejects_pruned(2)]) (simp_all add: list_all_iff hour_count_filter)
next
  case (Sources_deleted s gone)
  then show ?case
    by (intro cap_inv_quiet [OF Sources_deleted(2)]) (simp_all add: list_all_iff hour_count_filter without_sources_def)
next
  case (Elsewhere w s)
  then show ?case by (intro cap_inv_quiet [OF Elsewhere(6)]) (simp_all add: list_all_iff)
qed

lemma capped_reach_inv: "capped_reach n i s \<Longrightarrow> cap_inv n i s"
proof (induction rule: capped_reach.induct)
  case (Cap_fresh w a p)
  then show ?case by (simp add: cap_inv_def hour_count_def)
next
  case (Cap_next s s')
  then show ?case using ingest_moves_cap ingest_reach_inv capped_reach_ingest by blast
qed

text \<open>
  C13: a source that misbehaves cannot fill the table of refusals. In a run where the clock is not set
  back and no more than \<open>n\<close> of the source's jobs of refusals are between their count and their insert
  at the same time, no more than \<open>n\<close> times the cap of its refusals are stored with a time in one hour,
  whatever it sends, whichever calls fail and however the jobs interleave; with jobs that do not
  overlap, \<open>n = 1\<close>, no more than the cap.
\<close>

theorem rejects_capped:
  assumes "capped_reach n i s" and "ia_rejects (is_app s) = Some b" and "0 \<le> rb_cap b"
  shows "int (hour_count i h (lw_rejects (is_world s))) \<le> int n * rb_cap b"
proof -
  have "int (hour_count i h (lw_rejects (is_world s)) + total_due i h (lw_now (is_world s)) (is_jobs s)) \<le> int n * rb_cap b"
    using capped_reach_inv [OF assms(1)] assms(2,3) by (simp add: cap_inv_def)
  then show ?thesis by linarith
qed

subsection \<open>A run\<close>

abbreviation sample_bus :: reject_bus where
  "sample_bus \<equiv> new_reject_bus None 0"

definition sample_reject_row :: "uuid \<Rightarrow> reject" where
  "sample_reject_row i = reject_of sample_bus 864000000000000 i (hd sample_rejects)"

definition can_store :: "reject list \<Rightarrow> log_world \<Rightarrow> bool" where
  "can_store rows w \<longleftrightarrow> lw_ticks w = [] \<and> lw_faults w = [] \<and> lw_now w = 864000000000000 \<and> lw_rejects w = rows
     \<and> lw_sources w = [sample_source] \<and> lw_projects w = lw_projects ingest_world \<and> lw_orgs w = lw_orgs ingest_world"

lemma sample_texts_short: "truncate_text ''invalid JSON: bad'' max_reason_len = ''invalid JSON: bad''" "truncate_text ''x'' max_payload_bytes = ''x''"
  "pg_text ''invalid JSON: bad''" "pg_text ''x''"
  by code_simp+

lemma sample_reject_row_fields: "rj_id (sample_reject_row i) = i" "rj_source (sample_reject_row i) = 5" "rj_received (sample_reject_row i) = 864000000000000"
  by (simp_all add: sample_reject_row_def reject_of_def sample_rejects_def)

lemma sample_counted:
  "can_store rows w \<Longrightarrow> stored_since 5 864000000000000 rows < nat (rb_cap b) \<Longrightarrow> rb_scrubber b = None \<Longrightarrow>
    run_job (Some b) (Job_rejects sample_rejects) w = ([Job_stamp sample_rejects], w)"
  by (simp add: can_store_def reject_room_def sample_rejects_def read_clock_def s_count_since_def log_call_def try_op_def
      stored_since_def utc_hour_def time_truncate_def)

lemma sample_stamped:
  "can_store rows w \<Longrightarrow> rb_scrubber b = None \<Longrightarrow>
    \<exists>w'. run_job (Some b) (Job_stamp sample_rejects) w = ([Job_insert [sample_reject_row (lw_fresh w)]], w') \<and> can_store rows w'
      \<and> lw_fresh w' = Suc (lw_fresh w)"
  by (simp add: can_store_def stamp_rejects_def sample_rejects_def read_clock_def fresh_log_id_def try_op_def ret_op_def
      sample_reject_row_def reject_of_def new_reject_bus_def)

lemma sample_inserted:
  assumes "can_store rows w" and "i \<notin> rj_id ` set rows" and "distinct (map rj_id rows)"
  shows "\<exists>w'. run_job rb (Job_insert [sample_reject_row i]) w = ([], w') \<and> can_store (rows @ [sample_reject_row i]) w' \<and> lw_fresh w' = lw_fresh w"
proof -
  have "pg_time 864000000000000 = 864000000000000" by (simp add: pg_time_def time_truncate_def)
  then have "(sample_reject_row i)\<lparr> rj_received := pg_time (rj_received (sample_reject_row i)) \<rparr> = sample_reject_row i"
    by (simp add: sample_reject_row_def reject_of_def)
  moreover have "reject_ok w (sample_reject_row i)"
    using assms(1) sample_texts_short
    by (simp add: can_store_def reject_ok_def sample_reject_row_def reject_of_def new_reject_bus_def sample_rejects_def
        ingest_world_def retained_world_def sample_source_def)
  ultimately show ?thesis
    using assms by (simp add: can_store_def s_store_rejects_def log_call_def sample_reject_row_fields)
qed

lemma sample_hour: "utc_hour 864000000000000 = 864000000000000" "pg_time 864000000000000 = 864000000000000"
  by (simp_all add: utc_hour_def pg_time_def time_truncate_def)

text \<open>The one refusal of the request is counted, given a row and stored.\<close>

theorem rejects_capped_witness:
  "\<exists>s. capped_reach 1 5 s \<and> hour_count 5 864000000000000 (lw_rejects (is_world s)) = 1
    \<and> int (hour_count 5 864000000000000 (lw_rejects (is_world s))) \<le> 100"
proof -
  obtain s0 s where s: "ingest_moves sample_system s0" "ingest_moves s0 s" "lw_now (is_world s0) = 864000000000000"
    "is_jobs s0 = [Job_usage sample_usage, Job_rejects sample_rejects, Job_touch 5 864000000000000]"
    "is_jobs s = [Job_rejects sample_rejects, Job_touch 5 864000000000000]" "ia_rejects (is_app s) = Some sample_bus"
    "lw_ticks (is_world s) = []" "lw_faults (is_world s) = []" "lw_now (is_world s) = 864000000000000"
    "lw_rejects (is_world s) = []" "lw_sources (is_world s) = [sample_source]"
    "lw_projects (is_world s) = lw_projects ingest_world" "lw_orgs (is_world s) = lw_orgs ingest_world" by (rule sample_run)
  let ?w = "is_world s"
  have w: "can_store [] ?w" using s by (simp add: can_store_def)
  have "capped_reach 1 5 sample_system"
    unfolding sample_system_def by (rule Cap_fresh) (simp_all add: ingest_world_def retained_world_def table_ok_def)
  moreover have "lw_now (is_world sample_system) = 864000000000000" by (simp add: sample_system_def ingest_world_def retained_world_def)
  ultimately have r: "capped_reach 1 5 s"
    using Cap_next [OF Cap_next [OF _ s(1)] s(2)] s(3-5,9) by (simp add: underway_def)
  define s1 where "s1 = s\<lparr> is_world := ?w, is_jobs := [Job_touch 5 864000000000000, Job_stamp sample_rejects] \<rparr>"
  have "run_job (ia_rejects (is_app s)) (Job_rejects sample_rejects) ?w = ([Job_stamp sample_rejects], ?w)"
    unfolding s(6) by (rule sample_counted [OF w]) (simp_all add: new_reject_bus_def stored_since_def)
  from Job_run [OF _ _ this] have "ingest_moves s s1" using s(5,7) by (simp add: s1_def)
  then have r1: "capped_reach 1 5 s1" by (rule Cap_next [OF r]) (simp_all add: s1_def underway_def sample_rejects_def)
  obtain w2 where w2: "run_job (Some sample_bus) (Job_stamp sample_rejects) ?w = ([Job_insert [sample_reject_row (lw_fresh ?w)]], w2)"
    "can_store [] w2" using sample_stamped [OF w, of sample_bus] by (auto simp: new_reject_bus_def)
  define s2 where "s2 = s1\<lparr> is_world := w2, is_jobs := [Job_touch 5 864000000000000, Job_insert [sample_reject_row (lw_fresh ?w)]] \<rparr>"
  have "ingest_moves s1 s2"
    using Job_run [of "Job_stamp sample_rejects" s1] w2(1) s(6,7) by (simp add: s1_def s2_def)
  then have r2: "capped_reach 1 5 s2"
    by (rule Cap_next [OF r1]) (use w2(2) s(9) in \<open>simp_all add: s1_def s2_def underway_def can_store_def\<close>)
  obtain w3 where w3: "run_job (Some sample_bus) (Job_insert [sample_reject_row (lw_fresh ?w)]) w2 = ([], w3)"
    "can_store [sample_reject_row (lw_fresh ?w)] w3" using sample_inserted [OF w2(2)] by fastforce
  define s3 where "s3 = s2\<lparr> is_world := w3, is_jobs := [Job_touch 5 864000000000000] \<rparr>"
  have "ingest_moves s2 s3"
    using Job_run [of "Job_insert [sample_reject_row (lw_fresh ?w)]" s2] w3(1) w2(2) s(6) by (simp add: s1_def s2_def s3_def can_store_def)
  then have r3: "capped_reach 1 5 s3"
    by (rule Cap_next [OF r2]) (use w2(2) w3(2) in \<open>simp_all add: s2_def s3_def underway_def can_store_def\<close>)
  have app: "ia_rejects (is_app s3) = Some sample_bus" using s(6) by (simp add: s1_def s2_def s3_def)
  have "0 \<le> rb_cap sample_bus" by (simp add: new_reject_bus_def)
  from rejects_capped [OF r3 app this, of 864000000000000]
  have "int (hour_count 5 864000000000000 (lw_rejects (is_world s3))) \<le> 100" by (simp add: new_reject_bus_def)
  moreover have "hour_count 5 864000000000000 (lw_rejects (is_world s3)) = 1"
    using w3(2) by (simp add: s3_def can_store_def hour_count_def sample_reject_row_fields sample_hour)
  ultimately show ?thesis using r3 by blast
qed

subsection \<open>Jobs that overlap\<close>

fun run_jobs :: "reject_bus option \<Rightarrow> ingest_job list \<Rightarrow> log_world \<Rightarrow> ingest_job list \<times> log_world" where
  "run_jobs rb [] w = ([], w)"
| "run_jobs rb (j # js) w = (case run_job rb j w of (left, w) \<Rightarrow> case run_jobs rb js w of (lefts, w) \<Rightarrow> (left @ lefts, w))"

text \<open>
  The bound cannot be the cap itself: two jobs that both count before either inserts both find room,
  and a cap of one refusal an hour is exceeded.
\<close>

theorem overlapping_jobs_exceed_cap:
  assumes "can_store [] w" and "rb_cap b = 1" and "rb_scrubber b = None"
  shows "\<exists>js w1 js' w2 w3. run_jobs (Some b) [Job_rejects sample_rejects, Job_rejects sample_rejects] w = (js, w1)
    \<and> run_jobs (Some b) js w1 = (js', w2) \<and> run_jobs (Some b) js' w2 = ([], w3)
    \<and> hour_count 5 864000000000000 (lw_rejects w3) = 2"
proof -
  have c: "run_job (Some b) (Job_rejects sample_rejects) w = ([Job_stamp sample_rejects], w)"
    by (rule sample_counted [OF assms(1)]) (simp_all add: assms stored_since_def)
  obtain w1 where w1: "run_job (Some b) (Job_stamp sample_rejects) w = ([Job_insert [sample_reject_row (lw_fresh w)]], w1)"
    "can_store [] w1" "lw_fresh w1 = Suc (lw_fresh w)" using sample_stamped [OF assms(1,3)] by blast
  obtain w2 where w2: "run_job (Some b) (Job_stamp sample_rejects) w1 = ([Job_insert [sample_reject_row (Suc (lw_fresh w))]], w2)"
    "can_store [] w2" using sample_stamped [OF w1(2) assms(3)] w1(3) by auto
  obtain w3 where w3: "run_job (Some b) (Job_insert [sample_reject_row (lw_fresh w)]) w2 = ([], w3)" "can_store [sample_reject_row (lw_fresh w)] w3"
    using sample_inserted [OF w2(2)] by fastforce
  obtain w4 where w4: "run_job (Some b) (Job_insert [sample_reject_row (Suc (lw_fresh w))]) w3 = ([], w4)"
    "can_store [sample_reject_row (lw_fresh w), sample_reject_row (Suc (lw_fresh w))] w4"
    using sample_inserted [OF w3(2), of "Suc (lw_fresh w)"] by (fastforce simp: sample_reject_row_fields)
  show ?thesis
    using c w1(1) w2(1) w3(1) w4 by (simp add: can_store_def hour_count_def sample_reject_row_fields sample_hour del: run_job.simps)
qed

end
