(* ===== verification/Sources.thy ===== *)
theory Sources
  imports Ingest
begin

text \<open>
  Sources and their ingest keys: minting, disabling and rotating (\<open>business/domain/sourcebus\<close> with
  its audit extension and \<open>sourcedb\<close>), the authentication of a collector
  (\<open>app/sdk/mid/authenticatesource.go\<close>), the handlers of organization admins and the health derived
  from the counters (\<open>app/domain/sourceapp\<close>), and the listing of refused records. The digest of a
  key is a parameter, the random bytes an argument that is \<open>None\<close> when reading them fails; times
  are answered as instants rather than as texts.
\<close>

subsection \<open>Keys\<close>

abbreviation key_scheme :: string where "key_scheme \<equiv> ''ls_src_live_''"

definition hash_key :: "(string \<Rightarrow> string) \<Rightarrow> string \<Rightarrow> string" where
  "hash_key sha raw = hex_encode (sha raw)"

text \<open>The raw key, its hash and its display prefix.\<close>

definition generate_key :: "(string \<Rightarrow> string) \<Rightarrow> string option \<Rightarrow> (string \<times> string \<times> string) option" where
  "generate_key sha rnd = map_option (\<lambda>buf.
     let random_hex = hex_encode buf; raw = key_scheme @ random_hex
     in (raw, hash_key sha raw, key_scheme @ take 6 random_hex)) rnd"

definition has_key_scheme :: "string \<Rightarrow> bool" where
  "has_key_scheme raw = has_prefix raw key_scheme"

definition source_kinds :: "string list" where
  "source_kinds = [''otel'', ''syslog'', ''fluentbit'', ''vector'', ''k8s'', ''http'']"

definition valid_source_kind :: "string \<Rightarrow> bool" where
  "valid_source_kind k \<longleftrightarrow> k \<in> set source_kinds"

abbreviation default_rate_limit :: int where "default_rate_limit \<equiv> 500"
abbreviation default_rate_burst :: int where "default_rate_burst \<equiv> 1000"
abbreviation default_sample :: rat where "default_sample \<equiv> 1"

definition source_expired :: "source \<Rightarrow> instant \<Rightarrow> bool" where
  "source_expired s now = (case sc_expires s of None \<Rightarrow> False | Some t \<Rightarrow> t < now)"

record new_source =
  ns_org :: uuid
  ns_project :: uuid
  ns_kind :: string
  ns_name :: string
  ns_expires :: "instant option"

subsection \<open>The table\<close>

definition stored_source :: "source \<Rightarrow> source" where
  "stored_source s = s\<lparr> sc_seen := map_option pg_time (sc_seen s), sc_created := pg_time (sc_created s),
     sc_expires := map_option pg_time (sc_expires s) \<rparr>"

definition s_source_create :: "source \<Rightarrow> unit log_op" where
  "s_source_create src = log_call (\<lambda>w.
     if \<not> pg_text (sc_name src) \<or> \<not> valid_source_kind (sc_kind src) then (Inl Err_log_db, w)
     else if list_ex (\<lambda>s. sc_id s = sc_id src \<or> sc_org s = sc_org src \<and> sc_name s = sc_name src \<or> sc_hash s = sc_hash src)
         (lw_sources w) then (Inl Err_duplicate_name, w)
     else if sc_org src \<notin> fst ` set (lw_orgs w) \<or> sc_project src \<notin> pr_id ` set (lw_projects w) then (Inl Err_log_db, w)
     else (Inr (), w\<lparr> lw_sources := lw_sources w @ [stored_source src] \<rparr>))"

text \<open>What an update writes: the times and the owner of a row stay.\<close>

definition set_mutable :: "source \<Rightarrow> source \<Rightarrow> source" where
  "set_mutable src r = r\<lparr> sc_name := sc_name src, sc_active := sc_active src, sc_prefix := sc_prefix src,
     sc_hash := sc_hash src, sc_rate := sc_rate src, sc_burst := sc_burst src, sc_sample := sc_sample src \<rparr>"

definition source_clash :: "source \<Rightarrow> source \<Rightarrow> source \<Rightarrow> bool" where
  "source_clash src r s \<longleftrightarrow> sc_id s \<noteq> sc_id r \<and> (sc_org s = sc_org r \<and> sc_name s = sc_name src \<or> sc_hash s = sc_hash src)"

definition s_source_update :: "source \<Rightarrow> unit log_op" where
  "s_source_update src = log_call (\<lambda>w.
     if \<not> pg_text (sc_name src)
         \<or> list_ex (\<lambda>r. sc_id r = sc_id src \<and> list_ex (source_clash src r) (lw_sources w)) (lw_sources w)
     then (Inl Err_log_db, w)
     else (Inr (), w\<lparr> lw_sources := update_where (\<lambda>r. sc_id r = sc_id src) (set_mutable src) (lw_sources w) \<rparr>))"

definition s_sources_by_org :: "uuid \<Rightarrow> source list log_op" where
  "s_sources_by_org org = log_call (\<lambda>w. (Inr (sort_key (\<lambda>s. - sc_created s)
     (filter (\<lambda>s. sc_org s = org) (lw_sources w))), w))"

definition s_source_by :: "(source \<Rightarrow> bool) \<Rightarrow> source log_op" where
  "s_source_by p = log_call (\<lambda>w.
     case List.find p (lw_sources w) of None \<Rightarrow> (Inl Err_source_not_found, w) | Some s \<Rightarrow> (Inr s, w))"

definition s_source_by_id :: "uuid \<Rightarrow> source log_op" where
  "s_source_by_id i = s_source_by (\<lambda>s. sc_id s = i)"

definition s_source_by_hash :: "string \<Rightarrow> source log_op" where
  "s_source_by_hash h = s_source_by (\<lambda>s. sc_hash s = h)"

definition s_project_by_id :: "uuid \<Rightarrow> project_row log_op" where
  "s_project_by_id i = log_call (\<lambda>w.
     case List.find (\<lambda>p. pr_id p = i) (lw_projects w) of None \<Rightarrow> (Inl Err_project_not_found, w) | Some p \<Rightarrow> (Inr p, w))"

definition s_org_enabled :: "uuid \<Rightarrow> bool log_op" where
  "s_org_enabled project = log_call (\<lambda>w.
     case concat (map (\<lambda>p. filter (\<lambda>or. fst or = pr_org p) (lw_orgs w))
         (filter (\<lambda>p. pr_id p = project) (lw_projects w))) of
       [] \<Rightarrow> (Inl Err_project_not_found, w) | (_, enabled) # _ \<Rightarrow> (Inr enabled, w))"

text \<open>The row of the audit trail, written after the change and outside its statement.\<close>

definition audit_create :: "unit log_op" where
  "audit_create = try_op fresh_log_id (\<lambda>i w. case read_clock w of (t, w1) \<Rightarrow>
     log_call (\<lambda>w. (Inr (), w\<lparr> lw_audit := lw_audit w @ [(i, pg_time t)] \<rparr>)) w1)"

subsection \<open>The business layer\<close>

definition create_source :: "(string \<Rightarrow> string) \<Rightarrow> string option \<Rightarrow> new_source \<Rightarrow> (source \<times> string) log_op" where
  "create_source sha rnd ns =
     (if \<not> valid_source_kind (ns_kind ns) then fail_op Err_invalid_kind
      else case generate_key sha rnd of
        None \<Rightarrow> fail_op Err_random
      | Some (raw, hash, shown) \<Rightarrow> try_op fresh_log_id (\<lambda>i w. case read_clock w of (now, w1) \<Rightarrow>
          let src = \<lparr> sc_id = i, sc_org = ns_org ns, sc_project = ns_project ns, sc_kind = ns_kind ns,
            sc_name = ns_name ns, sc_prefix = shown, sc_hash = hash, sc_active = True, sc_seen = None,
            sc_rate = default_rate_limit, sc_burst = default_rate_burst, sc_sample = default_sample,
            sc_created = now, sc_expires = ns_expires ns \<rparr>
          in try_op (s_source_create src) (\<lambda>_. try_op audit_create (\<lambda>_. ret_op (src, raw))) w1))"

definition disable_source :: "source \<Rightarrow> source log_op" where
  "disable_source src =
     (let src = src\<lparr> sc_active := False \<rparr>
      in try_op (s_source_update src) (\<lambda>_. try_op audit_create (\<lambda>_. ret_op src)))"

definition rotate_key :: "(string \<Rightarrow> string) \<Rightarrow> string option \<Rightarrow> source \<Rightarrow> (source \<times> string) log_op" where
  "rotate_key sha rnd src =
     (case generate_key sha rnd of
        None \<Rightarrow> fail_op Err_random
      | Some (raw, hash, shown) \<Rightarrow>
          let src = src\<lparr> sc_hash := hash, sc_prefix := shown \<rparr>
          in try_op (s_source_update src) (\<lambda>_. try_op audit_create (\<lambda>_. ret_op (src, raw))))"

subsection \<open>Health\<close>

abbreviation health_window :: duration where "health_window \<equiv> 24 * go_hour"
abbreviation degraded_error_rate :: rat where "degraded_error_rate \<equiv> 1 / 10"
abbreviation degraded_min_events :: int where "degraded_min_events \<equiv> 20"

datatype health_status =
  Health_disconnected | Health_expired | Health_never_connected | Health_silent | Health_degraded | Health_healthy

record source_health =
  he_status :: health_status
  he_events :: int
  he_errors :: int
  he_dropped :: int
  he_rate :: rat

definition health_of :: "source \<Rightarrow> instant \<Rightarrow> source_counters \<Rightarrow> source_health" where
  "health_of s now c =
     \<lparr> he_status =
         (if \<not> sc_active s then Health_disconnected
          else if source_expired s now then Health_expired
          else if sc_seen s = None then Health_never_connected
          else if so_events c = 0 then Health_silent
          else if degraded_min_events \<le> so_events c \<and> degraded_error_rate \<le> error_rate c then Health_degraded
          else Health_healthy),
       he_events = so_events c, he_errors = so_errors c, he_dropped = so_dropped c, he_rate = error_rate c \<rparr>"

definition no_counters :: source_counters where
  "no_counters = \<lparr> so_events = 0, so_errors = 0, so_dropped = 0 \<rparr>"

definition health_end :: "instant \<Rightarrow> instant" where
  "health_end now = time_truncate now go_hour + go_hour"

definition health_counters :: "bool \<Rightarrow> source list \<Rightarrow> instant \<Rightarrow> (uuid \<rightharpoonup> source_counters) log_op" where
  "health_counters metered sources now =
     (if \<not> metered \<or> sources = [] then ret_op Map.empty
      else query_source_counters (map sc_id sources) (health_end now - health_window))"

record health_bucket =
  hb_hour :: instant
  hb_events :: int
  hb_errors :: int
  hb_dropped :: int

function hour_grid :: "instant \<Rightarrow> instant \<Rightarrow> instant list" where
  "hour_grid h stop = (if h < stop then h # hour_grid (h + go_hour) stop else [])"
  by pat_completeness auto
termination by (relation "measure (\<lambda>(h, stop). nat (stop - h))") auto

declare hour_grid.simps [simp del]

text \<open>An hour without a row is the zero value; of two rows of one hour the later wins.\<close>

definition bucket_of :: "source_hour list \<Rightarrow> instant \<Rightarrow> health_bucket" where
  "bucket_of rows h =
     (case map_of (rev (map (\<lambda>c. (sh_hour c, c)) rows)) h of
        None \<Rightarrow> \<lparr> hb_hour = h, hb_events = 0, hb_errors = 0, hb_dropped = 0 \<rparr>
      | Some c \<Rightarrow> \<lparr> hb_hour = h, hb_events = sh_events c, hb_errors = sh_errors c, hb_dropped = sh_dropped c \<rparr>)"

definition fill_buckets :: "source_hour list \<Rightarrow> instant \<Rightarrow> instant \<Rightarrow> health_bucket list" where
  "fill_buckets rows start stop = map (bucket_of rows) (hour_grid start stop)"

subsection \<open>The handlers of an organization\<close>

datatype err_code =
    Invalid_argument | Not_found | Aborted | Internal | Unauthenticated | Permission_denied | Key_expired
  | Org_suspended | Unimplemented

type_synonym 'a handler = "(log_world, err_code, 'a) op"

definition coded :: "(log_error \<Rightarrow> err_code) \<Rightarrow> 'a log_op \<Rightarrow> 'a handler" where
  "coded code m = case_op m (\<lambda>e. fail_op (code e)) ret_op"

definition path_uuid :: "(string \<Rightarrow> uuid option) \<Rightarrow> string \<Rightarrow> uuid handler" where
  "path_uuid parse_uuid s = (case parse_uuid s of None \<Rightarrow> fail_op Invalid_argument | Some i \<Rightarrow> ret_op i)"

record source_body =
  sb_kind :: string
  sb_name :: string
  sb_project :: string
  sb_days :: int

text \<open>\<open>None\<close> is a body that does not decode. The expiry is a number of days of 24 hours, as in UTC.\<close>

definition app_create_source ::
  "(string \<Rightarrow> string) \<Rightarrow> (string \<Rightarrow> uuid option) \<Rightarrow> string option \<Rightarrow> source_body option \<Rightarrow> string \<Rightarrow>
    (source \<times> string) handler" where
  "app_create_source sha parse_uuid rnd body org =
     (case body of
        None \<Rightarrow> fail_op Invalid_argument
      | Some b \<Rightarrow> try_op (path_uuid parse_uuid org) (\<lambda>org.
          if sb_name b = [] then fail_op Invalid_argument
          else if \<not> valid_source_kind (sb_kind b) then fail_op Invalid_argument
          else case parse_uuid (sb_project b) of
            None \<Rightarrow> fail_op Invalid_argument
          | Some project \<Rightarrow>
              try_op (coded (\<lambda>e. if e = Err_project_not_found then Not_found else Internal) (s_project_by_id project)) (\<lambda>p.
              if pr_org p \<noteq> org then fail_op Not_found
              else if sb_days b < 0 then fail_op Invalid_argument
              else (\<lambda>w. case (if 0 < sb_days b then (case read_clock w of (now, w1) \<Rightarrow> (Some (now + sb_days b * (24 * go_hour)), w1))
                  else (None, w)) of (expires, w1) \<Rightarrow>
                coded (\<lambda>e. if e = Err_duplicate_name then Aborted else if e = Err_invalid_kind then Invalid_argument else Internal)
                  (create_source sha rnd \<lparr> ns_org = org, ns_project = project, ns_kind = sb_kind b, ns_name = sb_name b,
                    ns_expires = expires \<rparr>) w1))))"

definition app_query_sources :: "(string \<Rightarrow> uuid option) \<Rightarrow> bool \<Rightarrow> string \<Rightarrow> (source \<times> source_health) list handler" where
  "app_query_sources parse_uuid metered org =
     try_op (path_uuid parse_uuid org) (\<lambda>org.
     try_op (coded (\<lambda>_. Internal) (s_sources_by_org org)) (\<lambda>sources w.
     case read_clock w of (now, w1) \<Rightarrow>
     try_op (coded (\<lambda>_. Internal) (health_counters metered sources now)) (\<lambda>counters.
     ret_op (map (\<lambda>s. (s, health_of s now (case counters (sc_id s) of None \<Rightarrow> no_counters | Some c \<Rightarrow> c))) sources)) w1))"

definition load_org_source :: "(string \<Rightarrow> uuid option) \<Rightarrow> string \<Rightarrow> string \<Rightarrow> source handler" where
  "load_org_source parse_uuid org i =
     try_op (path_uuid parse_uuid org) (\<lambda>org.
     try_op (path_uuid parse_uuid i) (\<lambda>i.
     try_op (coded (\<lambda>e. if e = Err_source_not_found then Not_found else Internal) (s_source_by_id i)) (\<lambda>src.
     if sc_org src \<noteq> org then fail_op Not_found else ret_op src)))"

definition app_disconnect :: "(string \<Rightarrow> uuid option) \<Rightarrow> string \<Rightarrow> string \<Rightarrow> source handler" where
  "app_disconnect parse_uuid org i =
     try_op (load_org_source parse_uuid org i) (\<lambda>src. coded (\<lambda>_. Internal) (disable_source src))"

definition app_rotate_key ::
  "(string \<Rightarrow> string) \<Rightarrow> (string \<Rightarrow> uuid option) \<Rightarrow> string option \<Rightarrow> string \<Rightarrow> string \<Rightarrow> (source \<times> string) handler" where
  "app_rotate_key sha parse_uuid rnd org i =
     try_op (load_org_source parse_uuid org i) (\<lambda>src. coded (\<lambda>_. Internal) (rotate_key sha rnd src))"

record health_reply =
  hr_source :: source
  hr_health :: source_health
  hr_expired :: bool
  hr_start :: instant
  hr_end :: instant
  hr_buckets :: "health_bucket list"

definition app_health :: "(string \<Rightarrow> uuid option) \<Rightarrow> bool \<Rightarrow> string \<Rightarrow> string \<Rightarrow> health_reply handler" where
  "app_health parse_uuid metered org i =
     try_op (load_org_source parse_uuid org i) (\<lambda>src w.
     case read_clock w of (now, w1) \<Rightarrow>
     let stop = health_end now; start = stop - health_window in
     try_op (coded (\<lambda>_. Internal) (health_counters metered [src] now)) (\<lambda>counters.
     try_op (if metered then coded (\<lambda>_. Internal) (s_source_buckets (sc_id src) start stop) else ret_op []) (\<lambda>rows.
     ret_op \<lparr> hr_source = src,
       hr_health = health_of src now (case counters (sc_id src) of None \<Rightarrow> no_counters | Some c \<Rightarrow> c),
       hr_expired = source_expired src now, hr_start = start, hr_end = stop, hr_buckets = fill_buckets rows start stop \<rparr>)) w1)"

subsection \<open>The list of refused records\<close>

record reject_filter =
  jf_org :: uuid
  jf_project :: "uuid option"
  jf_source :: "uuid option"
  jf_kind :: string
  jf_since :: "instant option"
  jf_limit :: int

definition reject_matches :: "reject_filter \<Rightarrow> reject \<Rightarrow> bool" where
  "reject_matches f r \<longleftrightarrow> rj_org r = jf_org f
     \<and> (case jf_project f of None \<Rightarrow> True | Some p \<Rightarrow> rj_project r = p)
     \<and> (case jf_source f of None \<Rightarrow> True | Some s \<Rightarrow> rj_source r = s)
     \<and> (jf_kind f = [] \<or> rj_kind r = jf_kind f)
     \<and> (case jf_since f of None \<Rightarrow> True | Some t \<Rightarrow> pg_time t \<le> rj_received r)"

definition s_query_rejects :: "reject_filter \<Rightarrow> reject list log_op" where
  "s_query_rejects f = log_call (\<lambda>w. (Inr (take (nat (jf_limit f))
     (sort_key (\<lambda>r. - rj_received r) (sort_key (\<lambda>r. - int (rj_id r)) (filter (reject_matches f) (lw_rejects w))))), w))"

definition query_rejects :: "reject_filter \<Rightarrow> reject list log_op" where
  "query_rejects f = s_query_rejects (if jf_limit f \<le> 0 \<or> 500 < jf_limit f then f\<lparr> jf_limit := 100 \<rparr> else f)"

text \<open>Kinds without rows are absent.\<close>

definition count_by_kind :: "uuid \<Rightarrow> instant \<Rightarrow> (string \<rightharpoonup> nat) log_op" where
  "count_by_kind org since = log_call (\<lambda>w. (Inr (\<lambda>k.
     let n = length (filter (\<lambda>r. rj_org r = org \<and> pg_time since \<le> rj_received r \<and> rj_kind r = k) (lw_rejects w))
     in if n = 0 then None else Some n), w))"

definition query_uuid :: "(string \<Rightarrow> uuid option) \<Rightarrow> string \<Rightarrow> uuid option handler" where
  "query_uuid parse_uuid v =
     (if v = [] then ret_op None
      else case parse_uuid v of None \<Rightarrow> fail_op Invalid_argument | Some i \<Rightarrow> ret_op (Some i))"

text \<open>\<open>q\<close> are the parameters of the query string; a parameter that is absent is empty.\<close>

definition app_query_rejects ::
  "(string \<Rightarrow> uuid option) \<Rightarrow> reject_bus option \<Rightarrow> string \<Rightarrow> (string \<Rightarrow> string) \<Rightarrow>
    (reject list \<times> (string \<rightharpoonup> nat) \<times> int) handler" where
  "app_query_rejects parse_uuid bus org q =
     try_op (path_uuid parse_uuid org) (\<lambda>org.
     case bus of None \<Rightarrow> fail_op Unimplemented | Some b \<Rightarrow>
     try_op (query_uuid parse_uuid (q ''projectId'')) (\<lambda>project.
     try_op (query_uuid parse_uuid (q ''sourceId'')) (\<lambda>src.
     if q ''kind'' \<noteq> [] \<and> q ''kind'' \<noteq> kind_parse \<and> q ''kind'' \<noteq> kind_validate then fail_op Invalid_argument
     else (\<lambda>w. case read_clock w of (now, w1) \<Rightarrow>
       (case (if q ''since'' = [] then Some (now - 24 * go_hour) else parse_rfc3339 (q ''since'')) of
          None \<Rightarrow> fail_op Invalid_argument
        | Some since \<Rightarrow>
            (case (if q ''limit'' = [] then Some 0 else Option.bind (parse_int64 (q ''limit'')) (\<lambda>n. if n \<le> 0 then None else Some n)) of
               None \<Rightarrow> fail_op Invalid_argument
             | Some limit \<Rightarrow>
                 try_op (coded (\<lambda>_. Internal) (query_rejects \<lparr> jf_org = org, jf_project = project, jf_source = src,
                   jf_kind = q ''kind'', jf_since = Some since, jf_limit = limit \<rparr>)) (\<lambda>rejects.
                 try_op (coded (\<lambda>_. Internal) (count_by_kind org since)) (\<lambda>counts.
                 ret_op (rejects, counts, rb_cap b))))) w1))))"

subsection \<open>The authentication of a collector\<close>

definition bearer_token :: "string \<Rightarrow> string option" where
  "bearer_token header =
     (let scheme = takeWhile (\<lambda>c. c \<noteq> CHR '' '') header; rest = dropWhile (\<lambda>c. c \<noteq> CHR '' '') header in
      if rest = [] \<or> \<not> equal_fold scheme ''bearer'' \<or> tl rest = [] then None
      else Some (trim_space (tl rest)))"

definition authenticate_source :: "(string \<Rightarrow> string) \<Rightarrow> string \<Rightarrow> source handler" where
  "authenticate_source sha header =
     (case bearer_token header of
        None \<Rightarrow> fail_op Unauthenticated
      | Some raw \<Rightarrow>
          if \<not> has_key_scheme raw then fail_op Unauthenticated
          else try_op (coded (\<lambda>_. Unauthenticated) (s_source_by_hash (hash_key sha raw))) (\<lambda>src.
            if sc_hash src \<noteq> hash_key sha raw then fail_op Unauthenticated
            else if \<not> sc_active src then fail_op Permission_denied
            else (\<lambda>w. case read_clock w of (now, w1) \<Rightarrow>
              if source_expired src now then (Inl Key_expired, w1)
              else try_op (coded (\<lambda>_. Internal) (s_org_enabled (sc_project src))) (\<lambda>enabled.
                if \<not> enabled then fail_op Org_suspended else ret_op src) w1)))"

end
