(* ===== verification/SourceRun.thy ===== *)
theory SourceRun
  imports Sources IngestRun
begin

text \<open>
  What an ingest key lets its holder do. The requests of organization admins are steps that read a
  row and, later, write it back, so that two of them may interleave; the collectors' requests and
  the rest of the program run in between.
\<close>

subsection \<open>What the statements change\<close>

lemma s_source_create_cases:
  assumes "s_source_create src w = (r, w')"
  shows "lw_projects w' = lw_projects w \<and> lw_orgs w' = lw_orgs w \<and> lw_fresh w' = lw_fresh w
    \<and> ((\<exists>e. r = Inl e) \<and> lw_sources w' = lw_sources w
      \<or> r = Inr () \<and> lw_sources w' = lw_sources w @ [stored_source src]
        \<and> \<not> list_ex (\<lambda>s. sc_id s = sc_id src \<or> sc_hash s = sc_hash src) (lw_sources w))"
  using assms
  by (auto simp: s_source_create_def log_call_def list_ex_iff split: list.splits if_splits)

lemma s_source_update_cases:
  assumes "s_source_update src w = (r, w')"
  shows "lw_projects w' = lw_projects w \<and> lw_orgs w' = lw_orgs w \<and> lw_fresh w' = lw_fresh w
    \<and> ((\<exists>e. r = Inl e) \<and> lw_sources w' = lw_sources w
      \<or> r = Inr () \<and> lw_sources w' = update_where (\<lambda>r. sc_id r = sc_id src) (set_mutable src) (lw_sources w)
        \<and> (\<forall>r \<in> set (lw_sources w). sc_id r = sc_id src \<longrightarrow> (\<forall>s \<in> set (lw_sources w). \<not> source_clash src r s)))"
  using assms
  by (auto simp: s_source_update_def log_call_def list_ex_iff split: list.splits if_splits)

lemma audit_create_cases:
  assumes "audit_create w = (r, w')"
  shows "lw_sources w' = lw_sources w \<and> lw_projects w' = lw_projects w \<and> lw_orgs w' = lw_orgs w \<and> lw_fresh w \<le> lw_fresh w'"
  using assms
  by (auto simp: audit_create_def fresh_log_id_def read_clock_def log_call_def try_op_def split: list.splits if_splits)

lemma update_then_audit:
  assumes "try_op (s_source_update src) (\<lambda>_. try_op audit_create (\<lambda>_. ret_op x)) w = (r, w')"
  shows "lw_projects w' = lw_projects w \<and> lw_orgs w' = lw_orgs w \<and> lw_fresh w \<le> lw_fresh w'
    \<and> ((\<exists>e. r = Inl e) \<and> lw_sources w' = lw_sources w
      \<or> ((\<exists>e. r = Inl e) \<or> r = Inr x) \<and> lw_sources w' = update_where (\<lambda>r. sc_id r = sc_id src) (set_mutable src) (lw_sources w)
        \<and> (\<forall>r \<in> set (lw_sources w). sc_id r = sc_id src \<longrightarrow> (\<forall>s \<in> set (lw_sources w). \<not> source_clash src r s)))"
proof -
  obtain r1 w1 where u: "s_source_update src w = (r1, w1)" by fastforce
  note c = s_source_update_cases [OF u]
  show ?thesis
  proof (cases r1)
    case (Inl e)
    then have "r = Inl e" "w' = w1" using assms u unfolding try_op_def by simp_all
    then show ?thesis using c Inl by simp
  next
    case (Inr y)
    obtain r2 w2 where a: "audit_create w1 = (r2, w2)" by fastforce
    have "try_op audit_create (\<lambda>_. ret_op x) w1 = (r, w')" using assms u unfolding try_op_def Inr by simp
    then have "(case r2 of Inl e \<Rightarrow> (Inl e, w2) | Inr y \<Rightarrow> (Inr x, w2)) = (r, w')" unfolding try_op_def a by (cases r2) simp_all
    then have w': "w' = w2" and r: "(\<exists>e. r = Inl e) \<or> r = Inr x" by (cases r2; force)+
    note ac = audit_create_cases [OF a]
    have "lw_sources w1 = update_where (\<lambda>r. sc_id r = sc_id src) (set_mutable src) (lw_sources w)"
      and ok: "\<forall>r \<in> set (lw_sources w). sc_id r = sc_id src \<longrightarrow> (\<forall>s \<in> set (lw_sources w). \<not> source_clash src r s)"
      using c Inr by blast+
    then have "lw_sources w' = update_where (\<lambda>r. sc_id r = sc_id src) (set_mutable src) (lw_sources w)"
      using ac w' by simp
    moreover have "lw_projects w' = lw_projects w \<and> lw_orgs w' = lw_orgs w \<and> lw_fresh w \<le> lw_fresh w'"
      using c ac w' by simp
    ultimately show ?thesis using r ok by blast
  qed
qed

lemma create_source_cases:
  assumes "create_source sha rnd ns w = (r, w')"
  shows "lw_projects w' = lw_projects w \<and> lw_orgs w' = lw_orgs w \<and> lw_fresh w \<le> lw_fresh w'
    \<and> (lw_sources w' = lw_sources w \<or> (\<exists>buf src. rnd = Some buf \<and> lw_sources w' = lw_sources w @ [stored_source src]
        \<and> sc_id src = lw_fresh w \<and> lw_fresh w < lw_fresh w' \<and> sc_org src = ns_org ns \<and> sc_project src = ns_project ns
        \<and> sc_hash src = hash_key sha (key_scheme @ hex_encode buf)
        \<and> \<not> list_ex (\<lambda>s. sc_id s = sc_id src \<or> sc_hash s = sc_hash src) (lw_sources w)))"
proof (cases "valid_source_kind (ns_kind ns) \<and> rnd \<noteq> None")
  case False
  then show ?thesis using assms by (cases rnd) (auto simp: create_source_def generate_key_def split: if_splits)
next
  case True
  then obtain buf where rnd: "rnd = Some buf" by auto
  obtain now w1 where c: "read_clock (w\<lparr> lw_fresh := Suc (lw_fresh w) \<rparr>) = (now, w1)" by fastforce
  have w1: "lw_projects w1 = lw_projects w" "lw_orgs w1 = lw_orgs w" "lw_fresh w1 = Suc (lw_fresh w)" "lw_sources w1 = lw_sources w"
    using c by (auto simp: read_clock_def split: list.splits)
  define src where "src = \<lparr> sc_id = lw_fresh w, sc_org = ns_org ns, sc_project = ns_project ns, sc_kind = ns_kind ns,
            sc_name = ns_name ns, sc_prefix = key_scheme @ take 6 (hex_encode buf),
            sc_hash = hash_key sha (key_scheme @ hex_encode buf), sc_active = True, sc_seen = None,
            sc_rate = default_rate_limit, sc_burst = default_rate_burst, sc_sample = default_sample,
            sc_created = now, sc_expires = ns_expires ns \<rparr>"
  have eq: "try_op (s_source_create src) (\<lambda>_. try_op audit_create (\<lambda>_. ret_op (src, key_scheme @ hex_encode buf))) w1 = (r, w')"
    using assms True rnd c by (simp add: create_source_def generate_key_def Let_def src_def fresh_log_id_def try_op_def)
  obtain r2 w2 where u: "s_source_create src w1 = (r2, w2)" by fastforce
  note cc = s_source_create_cases [OF u]
  show ?thesis
  proof (cases r2)
    case (Inl e)
    then show ?thesis using cc eq u w1 by auto
  next
    case (Inr y)
    obtain r3 w3 where a: "audit_create w2 = (r3, w3)" by fastforce
    have w': "w' = w3" using eq u Inr a by (cases r3; simp)
    have "lw_sources w' = lw_sources w @ [stored_source src]" "\<not> list_ex (\<lambda>s. sc_id s = sc_id src \<or> sc_hash s = sc_hash src) (lw_sources w)"
      using cc Inr audit_create_cases [OF a] w' w1 by auto
    moreover have "lw_projects w' = lw_projects w" "lw_orgs w' = lw_orgs w" "lw_fresh w < lw_fresh w'"
      using cc audit_create_cases [OF a] w' w1 by auto
    ultimately show ?thesis
      using rnd by (intro conjI disjI2 exI [of _ buf] exI [of _ src]) (simp_all add: src_def)
  qed
qed

subsection \<open>Requests that read a row and write it back\<close>

definition project_org :: "log_world \<Rightarrow> uuid \<Rightarrow> uuid option" where
  "project_org w p = map_option pr_org (List.find (\<lambda>r. pr_id r = p) (lw_projects w))"

definition placed :: "log_world \<Rightarrow> source \<Rightarrow> bool" where
  "placed w s \<longleftrightarrow> project_org w (sc_project s) = Some (sc_org s)"

text \<open>\<open>ky_read\<close> are the rows requests have read, \<open>ky_drawn\<close> the random bytes drawn, with the organization they were drawn for.\<close>

record key_system =
  ky_world :: log_world
  ky_read :: "source list"
  ky_drawn :: "(string \<times> uuid) list"

definition drawn_for :: "string option \<Rightarrow> uuid option \<Rightarrow> (string \<times> uuid) list" where
  "drawn_for rnd org = (case (rnd, org) of (Some buf, Some o') \<Rightarrow> [(buf, o')] | _ \<Rightarrow> [])"

text \<open>What the rest of the program does to the table: sources are seen, and deleted with their projects.\<close>

definition sources_kept :: "log_world \<Rightarrow> log_world \<Rightarrow> bool" where
  "sources_kept w w' \<longleftrightarrow> (\<exists>keep seen. lw_sources w' = map (\<lambda>s. s\<lparr> sc_seen := seen s \<rparr>) (filter keep (lw_sources w)))
     \<and> list_all (placed w') (lw_sources w') \<and> lw_fresh w \<le> lw_fresh w'"

inductive key_moves :: "(string \<Rightarrow> string) \<Rightarrow> key_system \<Rightarrow> key_system \<Rightarrow> bool" for sha where
  Create_request: "app_create_source sha parse_uuid rnd body org (ky_world s) = (r, w') \<Longrightarrow>
    key_moves sha s (s\<lparr> ky_world := w', ky_drawn := drawn_for rnd (parse_uuid org) @ ky_drawn s \<rparr>)"
| Row_read: "load_org_source parse_uuid org i (ky_world s) = (r, w') \<Longrightarrow>
    key_moves sha s (s\<lparr> ky_world := w', ky_read := (case r of Inl e \<Rightarrow> [] | Inr src \<Rightarrow> [src]) @ ky_read s \<rparr>)"
| Disable_request: "src \<in> set (ky_read s) \<Longrightarrow> disable_source src (ky_world s) = (r, w') \<Longrightarrow>
    key_moves sha s (s\<lparr> ky_world := w' \<rparr>)"
| Rotate_request: "src \<in> set (ky_read s) \<Longrightarrow> rotate_key sha rnd src (ky_world s) = (r, w') \<Longrightarrow>
    key_moves sha s (s\<lparr> ky_world := w', ky_drawn := drawn_for rnd (Some (sc_org src)) @ ky_drawn s \<rparr>)"
| Other_request: "sources_kept (ky_world s) w' \<Longrightarrow> key_moves sha s (s\<lparr> ky_world := w' \<rparr>)"

inductive key_reach :: "(string \<Rightarrow> string) \<Rightarrow> key_system \<Rightarrow> bool" for sha where
  No_sources: "lw_sources w = [] \<Longrightarrow> key_reach sha \<lparr> ky_world = w, ky_read = [], ky_drawn = [] \<rparr>"
| Key_move: "key_reach sha s \<Longrightarrow> key_moves sha s s' \<Longrightarrow> key_reach sha s'"

definition hash_drawn :: "(string \<Rightarrow> string) \<Rightarrow> (string \<times> uuid) list \<Rightarrow> source \<Rightarrow> bool" where
  "hash_drawn sha drawn s \<longleftrightarrow> (\<exists>buf. (buf, sc_org s) \<in> set drawn \<and> sc_hash s = hash_key sha (key_scheme @ hex_encode buf))"

definition keys_ok :: "(string \<Rightarrow> string) \<Rightarrow> log_world \<Rightarrow> source list \<Rightarrow> (string \<times> uuid) list \<Rightarrow> bool" where
  "keys_ok sha w read drawn \<longleftrightarrow> distinct (map sc_id (lw_sources w)) \<and> distinct (map sc_hash (lw_sources w))
     \<and> list_all (placed w) (lw_sources w) \<and> list_all (hash_drawn sha drawn) (lw_sources w) \<and> list_all (hash_drawn sha drawn) read
     \<and> list_all (\<lambda>x. sc_id x < lw_fresh w) (lw_sources w) \<and> list_all (\<lambda>x. sc_id x < lw_fresh w) read
     \<and> list_all (\<lambda>y. \<forall>x \<in> set (lw_sources w). sc_id x = sc_id y \<longrightarrow> sc_org x = sc_org y) read"

lemma hash_drawn_more: "list_all (hash_drawn sha drawn) xs \<Longrightarrow> list_all (hash_drawn sha (extra @ drawn)) xs"
  by (auto simp: hash_drawn_def list_all_iff)

lemma keys_ok_below:
  assumes "keys_ok sha w read drawn" and "lw_fresh w \<le> n"
  shows "list_all (\<lambda>x. sc_id x < n) (lw_sources w) \<and> list_all (\<lambda>x. sc_id x < n) read"
  using assms by (auto simp: keys_ok_def list_all_iff intro: less_le_trans)

lemma placed_same: "lw_projects w' = lw_projects w \<Longrightarrow> placed w' = placed w"
  by (simp add: placed_def project_org_def fun_eq_iff)

lemma keys_ok_same:
  assumes "keys_ok sha w read drawn" and "lw_projects w' = lw_projects w" "lw_fresh w \<le> lw_fresh w'" "lw_sources w' = lw_sources w"
  shows "keys_ok sha w' read (extra @ drawn)"
  using assms(1,4) placed_same [OF assms(2)] keys_ok_below [OF assms(1,3)] by (simp add: keys_ok_def hash_drawn_more)

text \<open>A write-back of a row read earlier, with a key that was drawn for its organization.\<close>

lemma keys_ok_update:
  assumes inv: "keys_ok sha w read drawn" and w': "lw_projects w' = lw_projects w" "lw_fresh w \<le> lw_fresh w'"
    and rows: "lw_sources w' = update_where (\<lambda>r. sc_id r = sc_id src) (set_mutable src) (lw_sources w)"
    and ok: "\<forall>r \<in> set (lw_sources w). sc_id r = sc_id src \<longrightarrow> (\<forall>x \<in> set (lw_sources w). \<not> source_clash src r x)"
    and old: "old \<in> set read" "sc_id src = sc_id old" "sc_org src = sc_org old" "hash_drawn sha (extra @ drawn) src"
  shows "keys_ok sha w' read (extra @ drawn)"
proof -
  let ?rows = "lw_sources w"
  have same: "map sc_id (lw_sources w') = map sc_id ?rows" "map sc_org (lw_sources w') = map sc_org ?rows"
    "map sc_project (lw_sources w') = map sc_project ?rows"
    unfolding rows by (simp_all add: map_update_where_same set_mutable_def)
  have in_rows: "\<exists>y \<in> set ?rows. sc_id x = sc_id y \<and> sc_org x = sc_org y \<and> sc_project x = sc_project y
      \<and> (x = y \<or> sc_id x = sc_id src \<and> sc_hash x = sc_hash src)" if "x \<in> set (lw_sources w')" for x
  proof -
    have "(\<exists>r \<in> set ?rows. sc_id r = sc_id src \<and> x = set_mutable src r) \<or> x \<in> set ?rows \<and> sc_id x \<noteq> sc_id src"
      using that unfolding rows in_update_where .
    then show ?thesis
    proof
      assume "\<exists>r \<in> set ?rows. sc_id r = sc_id src \<and> x = set_mutable src r"
      then obtain r where "r \<in> set ?rows" "sc_id r = sc_id src" "x = set_mutable src r" by blast
      then show ?thesis by (intro bexI [of _ r]) (simp_all add: set_mutable_def)
    next
      assume "x \<in> set ?rows \<and> sc_id x \<noteq> sc_id src"
      then show ?thesis by blast
    qed
  qed
  have "distinct (map sc_id (lw_sources w'))" unfolding same using inv by (simp add: keys_ok_def)
  moreover have "distinct (map sc_hash (lw_sources w'))"
    unfolding rows
  proof (rule distinct_map_update_where [of sc_hash ?rows sc_id _ "sc_id src"])
    show "distinct (map sc_hash ?rows)" "distinct (map sc_id ?rows)" using inv by (simp_all add: keys_ok_def)
    fix r x assume r: "r \<in> set ?rows" "sc_id r = sc_id src" "x \<in> set ?rows" "\<not> sc_id x = sc_id src"
    then have "\<not> source_clash src r x" using ok by blast
    then show "sc_hash (set_mutable src r) \<noteq> sc_hash x" using r by (auto simp: source_clash_def set_mutable_def)
  qed simp
  moreover have "list_all (placed w') (lw_sources w')"
    unfolding placed_same [OF w'(1)] list_all_iff
  proof
    fix x assume "x \<in> set (lw_sources w')"
    from in_rows [OF this] inv show "placed w x" by (auto simp: keys_ok_def list_all_iff placed_def)
  qed
  moreover have "hash_drawn sha (extra @ drawn) x" if x: "x \<in> set (lw_sources w')" for x
  proof -
    from in_rows [OF x] obtain y where y: "y \<in> set ?rows" "sc_id x = sc_id y" "sc_org x = sc_org y"
      "x = y \<or> sc_id x = sc_id src \<and> sc_hash x = sc_hash src" by blast
    have all: "list_all (hash_drawn sha (extra @ drawn)) ?rows" using inv by (simp add: keys_ok_def hash_drawn_more)
    from y(4) show ?thesis
    proof
      assume "x = y"
      then show ?thesis using y(1) all by (simp add: list_all_iff)
    next
      assume h: "sc_id x = sc_id src \<and> sc_hash x = sc_hash src"
      have "sc_org y = sc_org old" using inv y(1,2) h old by (auto simp: keys_ok_def list_all_iff)
      then show ?thesis using h y(3) old(3,4) by (simp add: hash_drawn_def)
    qed
  qed
  moreover have "sc_id x < lw_fresh w'" if x: "x \<in> set (lw_sources w')" for x
  proof -
    have "list_all (\<lambda>i. i < lw_fresh w) (map sc_id ?rows)" using inv by (simp add: keys_ok_def list_all_iff)
    then have "list_all (\<lambda>i. i < lw_fresh w) (map sc_id (lw_sources w'))" unfolding same .
    then show ?thesis using x w'(2) by (auto simp: list_all_iff)
  qed
  moreover have "sc_org x = sc_org y" if x: "x \<in> set (lw_sources w')" "y \<in> set read" "sc_id x = sc_id y" for x y
  proof -
    from in_rows [OF x(1)] obtain z where "z \<in> set ?rows" "sc_id x = sc_id z" "sc_org x = sc_org z" by blast
    then show ?thesis using inv x(2,3) by (auto simp: keys_ok_def list_all_iff)
  qed
  moreover have "list_all (\<lambda>x. sc_id x < lw_fresh w') read" "list_all (hash_drawn sha (extra @ drawn)) read"
    using inv keys_ok_below [OF inv w'(2)] by (simp_all add: keys_ok_def hash_drawn_more)
  ultimately show ?thesis by (simp add: keys_ok_def list_all_iff)
qed

lemma keys_ok_create:
  assumes inv: "keys_ok sha w read drawn" and w': "lw_projects w' = lw_projects w"
    and rows: "lw_sources w' = lw_sources w @ [stored_source src]" "sc_id src = lw_fresh w" "lw_fresh w < lw_fresh w'"
      "\<not> list_ex (\<lambda>s. sc_id s = sc_id src \<or> sc_hash s = sc_hash src) (lw_sources w)"
    and "placed w src" and "hash_drawn sha (extra @ drawn) src"
  shows "keys_ok sha w' read (extra @ drawn)"
proof -
  have f: "sc_id (stored_source src) = sc_id src" "sc_hash (stored_source src) = sc_hash src"
    "sc_org (stored_source src) = sc_org src" "sc_project (stored_source src) = sc_project src"
    by (simp_all add: stored_source_def)
  have "hash_drawn sha (extra @ drawn) (stored_source src)" using assms(8) f by (simp add: hash_drawn_def)
  moreover have "placed w' (stored_source src)" using assms(7) f placed_same [OF w'] by (simp add: placed_def)
  moreover have "list_all (\<lambda>y. sc_id src \<noteq> sc_id y) read" using inv rows(2) by (auto simp: keys_ok_def list_all_iff)
  moreover have "list_all (\<lambda>x. sc_id x < lw_fresh w') (lw_sources w)" "list_all (\<lambda>x. sc_id x < lw_fresh w') read"
    using keys_ok_below [OF inv less_imp_le [OF rows(3)]] by simp_all
  moreover have "distinct (map sc_id (lw_sources w'))" "distinct (map sc_hash (lw_sources w'))"
    using inv rows f by (auto simp: keys_ok_def list_ex_iff)
  ultimately show ?thesis
    using inv rows(1,2,3) f placed_same [OF w']
    by (simp add: keys_ok_def hash_drawn_more) (auto simp: list_all_iff)
qed

lemma keys_ok_read:
  assumes "keys_ok sha w read drawn" and "x \<in> set (lw_sources w)"
  shows "keys_ok sha w (x # read) drawn"
proof -
  have "y = x" if "y \<in> set (lw_sources w)" "sc_id y = sc_id x" for y
    using assms that by (auto simp: keys_ok_def dest: inj_onD [OF distinct_map [THEN iffD1, THEN conjunct2]])
  then show ?thesis using assms by (auto simp: keys_ok_def list_all_iff)
qed

lemma keys_ok_kept:
  assumes inv: "keys_ok sha w read drawn" and "sources_kept w w'"
  shows "keys_ok sha w' read drawn"
proof -
  obtain keep seen where rows: "lw_sources w' = map (\<lambda>s. s\<lparr> sc_seen := seen s \<rparr>) (filter keep (lw_sources w))"
    and placed: "list_all (placed w') (lw_sources w')" and fresh: "lw_fresh w \<le> lw_fresh w'"
    using assms(2) by (auto simp: sources_kept_def)
  have same: "map sc_id (lw_sources w') = map sc_id (filter keep (lw_sources w))"
    "map sc_hash (lw_sources w') = map sc_hash (filter keep (lw_sources w))"
    unfolding rows by (simp_all add: comp_def)
  have "distinct (map sc_id (lw_sources w'))" "distinct (map sc_hash (lw_sources w'))"
    unfolding same using inv by (auto simp: keys_ok_def intro: distinct_map_filter)
  moreover have "list_all (hash_drawn sha drawn) (lw_sources w')"
    using inv unfolding rows by (auto simp: keys_ok_def list_all_iff hash_drawn_def)
  moreover have "list_all (\<lambda>x. sc_id x < lw_fresh w') (lw_sources w')" "list_all (\<lambda>x. sc_id x < lw_fresh w') read"
    using inv fresh unfolding rows by (auto simp: keys_ok_def list_all_iff intro: less_le_trans)
  moreover have "list_all (\<lambda>y. \<forall>x \<in> set (lw_sources w'). sc_id x = sc_id y \<longrightarrow> sc_org x = sc_org y) read"
    using inv unfolding rows by (auto simp: keys_ok_def list_all_iff)
  ultimately show ?thesis using inv placed by (simp add: keys_ok_def)
qed

subsection \<open>Every run\<close>

definition same_sources :: "log_world \<Rightarrow> log_world \<Rightarrow> bool" where
  "same_sources w w' \<longleftrightarrow> lw_sources w' = lw_sources w \<and> lw_projects w' = lw_projects w \<and> lw_orgs w' = lw_orgs w \<and> lw_fresh w' = lw_fresh w"

lemma same_sources_refl [simp]: "same_sources w w"
  by (simp add: same_sources_def)

lemma coded_done: "coded c m w = (r, w') \<Longrightarrow> \<exists>r0. m w = (r0, w') \<and> (\<forall>x. r = Inr x \<longrightarrow> r0 = Inr x)"
  by (cases "m w"; cases "fst (m w)") (auto simp: coded_def)

lemma path_uuid_done: "path_uuid pu t w = (r, w') \<Longrightarrow> w' = w \<and> (\<forall>i. r = Inr i \<longrightarrow> pu t = Some i)"
  by (auto simp: path_uuid_def split: option.splits)

lemma s_source_by_done:
  assumes "s_source_by p w = (r, w')"
  shows "same_sources w w' \<and> (\<forall>src. r = Inr src \<longrightarrow> src \<in> set (lw_sources w) \<and> p src)"
proof -
  have f: "x \<in> set xs \<and> p x" if "List.find p xs = Some x" for xs x
    using that by (auto simp: find_Some_iff)
  show ?thesis
    using assms by (auto simp: s_source_by_def log_call_def same_sources_def dest: f split: list.splits if_splits option.splits)
qed

lemma load_org_source_done:
  assumes "load_org_source pu org i w = (r, w')"
  shows "same_sources w w' \<and> (\<forall>src. r = Inr src \<longrightarrow> src \<in> set (lw_sources w) \<and> pu org = Some (sc_org src) \<and> pu i = Some (sc_id src))"
proof (cases "pu org"; cases "pu i")
  fix o' i' assume u: "pu org = Some o'" "pu i = Some i'"
  obtain r1 w1 where q: "s_source_by (\<lambda>s. sc_id s = i') w = (r1, w1)" by fastforce
  note d = s_source_by_done [OF q]
  show ?thesis
    using assms u q d by (cases r1) (auto simp: load_org_source_def path_uuid_def coded_def s_source_by_id_def split: if_splits)
qed (use assms in \<open>auto simp: load_org_source_def path_uuid_def\<close>)

lemma s_project_by_id_done:
  assumes "s_project_by_id i w = (r, w')"
  shows "same_sources w w' \<and> (\<forall>p. r = Inr p \<longrightarrow> project_org w i = Some (pr_org p))"
  using assms by (auto simp: s_project_by_id_def log_call_def same_sources_def project_org_def split: list.splits if_splits option.splits)

lemma app_create_source_cases:
  assumes "app_create_source sha pu rnd body org w = (r, w')"
  obtains "same_sources w w'"
  | ns w1 r1 where "same_sources w w1" and "create_source sha rnd ns w1 = (r1, w')" and "pu org = Some (ns_org ns)"
    and "project_org w (ns_project ns) = Some (ns_org ns)" and "\<And>x. r = Inr x \<Longrightarrow> r1 = Inr x"
proof (cases body)
  case None
  then show thesis using assms that(1) by (simp add: app_create_source_def)
next
  case (Some b)
  show thesis
  proof (cases "pu org = None \<or> sb_name b = [] \<or> \<not> valid_source_kind (sb_kind b) \<or> pu (sb_project b) = None")
    case True
    then show thesis using assms Some that(1)
      by (cases "pu org"; cases "pu (sb_project b)") (auto simp: app_create_source_def path_uuid_def split: if_splits)
  next
    case False
    then obtain o' project where u: "pu org = Some o'" "pu (sb_project b) = Some project" by auto
    obtain r2 w2 where q: "s_project_by_id project w = (r2, w2)" by fastforce
    note d = s_project_by_id_done [OF q]
    show thesis
    proof (cases "\<exists>p. r2 = Inr p \<and> pr_org p = o' \<and> 0 \<le> sb_days b")
      case no: False
      then have "w' = w2"
        using assms Some False u q by (cases r2) (auto simp: app_create_source_def path_uuid_def coded_def split: if_splits)
      then show thesis using that(1) d by simp
    next
      case True
      then obtain p where p: "r2 = Inr p" "pr_org p = o'" "0 \<le> sb_days b" by blast
      obtain expires w3 where e: "(if 0 < sb_days b then (case read_clock w2 of (now, w1) \<Rightarrow> (Some (now + sb_days b * (24 * go_hour)), w1))
                  else (None, w2)) = (expires, w3)" by fastforce
      have w3: "same_sources w w3"
        using e d by (auto simp: same_sources_def read_clock_def split: if_splits list.splits)
      let ?ns = "\<lparr> ns_org = o', ns_project = project, ns_kind = sb_kind b, ns_name = sb_name b, ns_expires = expires \<rparr>"
      have "coded (\<lambda>e. if e = Err_duplicate_name then Aborted else if e = Err_invalid_kind then Invalid_argument else Internal)
          (create_source sha rnd ?ns) w3 = (r, w')"
        using assms Some False u q p e by (simp add: app_create_source_def path_uuid_def coded_def)
      from coded_done [OF this] obtain r1 where "create_source sha rnd ?ns w3 = (r1, w')" "\<And>x. r = Inr x \<Longrightarrow> r1 = Inr x" by blast
      then show thesis using that(2) [OF w3] d p u by simp
    qed
  qed
qed

lemma key_moves_ok:
  assumes "key_moves sha s s'" and "keys_ok sha (ky_world s) (ky_read s) (ky_drawn s)"
  shows "keys_ok sha (ky_world s') (ky_read s') (ky_drawn s')"
  using assms
proof (induction rule: key_moves.induct)
  case (Create_request pu rnd body org s r w')
  let ?w = "ky_world s"
  from Create_request(1) show ?case
  proof (cases rule: app_create_source_cases)
    case 1
    then show ?thesis using keys_ok_same [OF Create_request(2)] by (simp add: same_sources_def)
  next
    case (2 ns w1 r1)
    note c = create_source_cases [OF 2(2)]
    have w1: "lw_sources w1 = lw_sources ?w" "lw_projects w1 = lw_projects ?w" "lw_fresh w1 = lw_fresh ?w"
      using 2(1) by (simp_all add: same_sources_def)
    show ?thesis
    proof (cases "lw_sources w' = lw_sources w1")
      case True
      then show ?thesis using keys_ok_same [OF Create_request(2), of w'] c w1 by simp
    next
      case False
      then obtain buf src where n: "rnd = Some buf" "lw_sources w' = lw_sources ?w @ [stored_source src]"
        "sc_id src = lw_fresh ?w" "lw_fresh ?w < lw_fresh w'" "sc_org src = ns_org ns" "sc_project src = ns_project ns"
        "sc_hash src = hash_key sha (key_scheme @ hex_encode buf)"
        "\<not> list_ex (\<lambda>s. sc_id s = sc_id src \<or> sc_hash s = sc_hash src) (lw_sources ?w)" using c w1 by auto
      have "placed ?w src" using 2(4) n(5,6) by (simp add: placed_def)
      moreover have "hash_drawn sha (drawn_for rnd (pu org) @ ky_drawn s) src"
        using 2(3) n(1,5,7) by (auto simp: hash_drawn_def drawn_for_def)
      ultimately have "keys_ok sha w' (ky_read s) (drawn_for rnd (pu org) @ ky_drawn s)"
        using keys_ok_create [OF Create_request(2) _ n(2,3,4,8)] c w1 by simp
      then show ?thesis by simp
    qed
  qed
next
  case (Row_read pu org i s r w')
  note l = load_org_source_done [OF Row_read(1)]
  have "keys_ok sha w' (ky_read s) ([] @ ky_drawn s)"
    using keys_ok_same [OF Row_read(2), of w' "[]"] l by (simp add: same_sources_def)
  then show ?case
    using l keys_ok_read by (cases r) (auto simp: same_sources_def)
next
  case (Disable_request src s r w')
  let ?src = "src\<lparr> sc_active := False \<rparr>"
  have u: "try_op (s_source_update ?src) (\<lambda>_. try_op audit_create (\<lambda>_. ret_op ?src)) (ky_world s) = (r, w')"
    using Disable_request(2) by (simp add: disable_source_def Let_def)
  note c = update_then_audit [OF u]
  have "keys_ok sha w' (ky_read s) ([] @ ky_drawn s)"
  proof (cases "lw_sources w' = lw_sources (ky_world s)")
    case True
    then show ?thesis using keys_ok_same [OF Disable_request(3), of w' "[]"] c by simp
  next
    case False
    have "list_all (hash_drawn sha (ky_drawn s)) (ky_read s)" using Disable_request(3) by (simp add: keys_ok_def)
    then have "hash_drawn sha ([] @ ky_drawn s) ?src"
      using Disable_request(1) by (auto simp: list_all_iff hash_drawn_def)
    then show ?thesis
      using keys_ok_update [OF Disable_request(3), of w' ?src src "[]"] c False Disable_request(1) by auto
  qed
  then show ?case by simp
next
  case (Rotate_request src s rnd r w')
  show ?case
  proof (cases rnd)
    case None
    then have "w' = ky_world s" using Rotate_request(2) by (simp add: rotate_key_def generate_key_def)
    then show ?thesis using Rotate_request(3) None by (simp add: drawn_for_def)
  next
    case (Some buf)
    let ?src = "src\<lparr> sc_hash := hash_key sha (key_scheme @ hex_encode buf), sc_prefix := key_scheme @ take 6 (hex_encode buf) \<rparr>"
    have u: "try_op (s_source_update ?src) (\<lambda>_. try_op audit_create (\<lambda>_. ret_op (?src, key_scheme @ hex_encode buf))) (ky_world s) = (r, w')"
      using Rotate_request(2) Some by (simp add: rotate_key_def generate_key_def Let_def)
    note c = update_then_audit [OF u]
    have "keys_ok sha w' (ky_read s) ([(buf, sc_org src)] @ ky_drawn s)"
    proof (cases "lw_sources w' = lw_sources (ky_world s)")
      case True
      then show ?thesis using keys_ok_same [OF Rotate_request(3), of w' "[(buf, sc_org src)]"] c by simp
    next
      case False
      have "hash_drawn sha ([(buf, sc_org src)] @ ky_drawn s) ?src" by (auto simp: hash_drawn_def)
      then show ?thesis
        using keys_ok_update [OF Rotate_request(3), of w' ?src src "[(buf, sc_org src)]"] c False Rotate_request(1) by auto
    qed
    then show ?thesis using Some by (simp add: drawn_for_def)
  qed
next
  case (Other_request s w')
  then show ?case using keys_ok_kept by simp
qed

lemma key_reach_ok: "key_reach sha s \<Longrightarrow> keys_ok sha (ky_world s) (ky_read s) (ky_drawn s)"
proof (induction rule: key_reach.induct)
  case (No_sources w)
  then show ?case by (simp add: keys_ok_def)
qed (rule key_moves_ok)

subsection \<open>The authentication of a collector\<close>

lemma s_org_enabled_done:
  assumes "s_org_enabled p w = (r, w')"
  shows "(\<exists>fs. w' = w\<lparr> lw_faults := fs \<rparr>)
    \<and> (r = Inr True \<longrightarrow> (\<exists>row \<in> set (lw_projects w). pr_id row = p \<and> (pr_org row, True) \<in> set (lw_orgs w)))"
proof -
  let ?joined = "\<lambda>v. concat (map (\<lambda>p. filter (\<lambda>or. fst or = pr_org p) (lw_orgs v)) (filter (\<lambda>r. pr_id r = p) (lw_projects v)))"
  have answer: "(case ?joined v of [] \<Rightarrow> (Inl Err_project_not_found, v) | (_, enabled) # _ \<Rightarrow> (Inr enabled, v)) = (r, w') \<Longrightarrow>
      w' = v \<and> (r = Inr True \<longrightarrow> (\<exists>o'. (o', True) \<in> set (?joined v)))" for v
    by (cases "?joined v") auto
  have sound: "\<exists>row \<in> set (lw_projects v). pr_id row = p \<and> (pr_org row, True) \<in> set (lw_orgs v)"
    if "(o', True) \<in> set (?joined v)" for v o' using that by auto
  show ?thesis
  proof (cases "lw_faults w")
    case Nil
    then have "(case ?joined w of [] \<Rightarrow> (Inl Err_project_not_found, w) | (_, enabled) # _ \<Rightarrow> (Inr enabled, w)) = (r, w')"
      using assms by (simp add: s_org_enabled_def log_call_def)
    from answer [OF this] sound [of _ w] Nil show ?thesis by (intro conjI exI [of _ "[]"]) auto
  next
    case (Cons b bs)
    let ?v = "w\<lparr> lw_faults := bs \<rparr>"
    show ?thesis
    proof (cases b)
      case True
      then show ?thesis using assms Cons by (auto simp: s_org_enabled_def log_call_def)
    next
      case False
      then have "(case ?joined ?v of [] \<Rightarrow> (Inl Err_project_not_found, ?v) | (_, enabled) # _ \<Rightarrow> (Inr enabled, ?v)) = (r, w')"
        using assms Cons by (simp add: s_org_enabled_def log_call_def)
      from answer [OF this] sound [of _ ?v] show ?thesis by (intro conjI exI [of _ bs]) auto
    qed
  qed
qed

lemma filter_unique: "distinct (map f xs) \<Longrightarrow> x \<in> set xs \<Longrightarrow> filter (\<lambda>y. f y = f x) xs = [x]"
  by (induction xs) (auto simp: filter_empty_conv image_iff)

definition same_but_clock :: "log_world \<Rightarrow> log_world \<Rightarrow> bool" where
  "same_but_clock w w' \<longleftrightarrow> lw_logs w' = lw_logs w \<and> same_sources w w'"

lemma authenticate_done:
  assumes "authenticate_source sha header w = (Inr src, w')"
  obtains raw where "bearer_token header = Some raw" and "src \<in> set (lw_sources w)" and "sc_hash src = hash_key sha raw"
    and "sc_active src" and "\<not> source_expired src (lw_now w')" and "same_but_clock w w'"
    and "\<exists>row \<in> set (lw_projects w). pr_id row = sc_project src \<and> (pr_org row, True) \<in> set (lw_orgs w)"
proof (cases "bearer_token header")
  case None
  then show thesis using assms by (simp add: authenticate_source_def)
next
  case (Some raw)
  obtain r1 w1 where q: "s_source_by (\<lambda>s. sc_hash s = hash_key sha raw) w = (r1, w1)" by fastforce
  note d = s_source_by_done [OF q]
  have logs: "lw_logs w1 = lw_logs w"
    using q by (auto simp: s_source_by_def log_call_def split: list.splits if_splits option.splits)
  have "has_key_scheme raw" using assms Some by (auto simp: authenticate_source_def split: if_splits)
  then obtain src' where r1: "r1 = Inr src'"
    using assms Some q by (cases r1) (auto simp: authenticate_source_def coded_def s_source_by_hash_def)
  obtain now w2 where c: "read_clock w1 = (now, w2)" by fastforce
  have w2: "lw_now w2 = now" "lw_logs w2 = lw_logs w1" "same_sources w1 w2"
    using c by (auto simp: read_clock_def same_sources_def split: list.splits)
  have ok: "sc_active src'" "\<not> source_expired src' now"
    and e: "try_op (coded (\<lambda>_. Internal) (s_org_enabled (sc_project src'))) (\<lambda>enabled.
        if \<not> enabled then fail_op Org_suspended else ret_op src') w2 = (Inr src, w')"
    using assms Some \<open>has_key_scheme raw\<close> q r1 c
    by (auto simp: authenticate_source_def coded_def s_source_by_hash_def split: if_splits)
  obtain r3 w3 where o: "s_org_enabled (sc_project src') w2 = (r3, w3)" by fastforce
  note od = s_org_enabled_done [OF o]
  have r3: "r3 = Inr True" "src = src'" "w' = w3" using e o by (cases r3; auto simp: coded_def split: if_splits)+
  then obtain fs where w': "w' = w2\<lparr> lw_faults := fs \<rparr>" using od by blast
  have now: "lw_now w' = now" unfolding w' using w2 by simp
  have "same_but_clock w w'" using w' w2 d logs by (simp add: same_but_clock_def same_sources_def)
  moreover have "\<exists>row \<in> set (lw_projects w). pr_id row = sc_project src \<and> (pr_org row, True) \<in> set (lw_orgs w)"
    using od r3 w2(3) d by (simp add: same_sources_def)
  moreover have "\<not> source_expired src (lw_now w')" using ok(2) r3(2) unfolding now by simp
  ultimately show thesis using that [OF Some] d r1 r3 ok by simp
qed

lemma bulk_rows:
  assumes "bulk tx src content_type raw roll a w = ((out, a'), w')" and "distinct (map lr_id (lw_logs w))"
  shows "\<exists>rows. lw_logs w' = lw_logs w @ rows \<and> list_all (\<lambda>r. lr_project r = sc_project src \<and> lr_source_id r = Some (sc_id src)) rows"
proof -
  have none: ?thesis if "lw_logs w' = lw_logs w" using that by (intro exI [of _ "[]"]) simp
  show ?thesis
  proof (cases "read_limited raw max_body_bytes")
    case None
    then show ?thesis using none assms(1) by (simp add: bulk_def)
  next
    case (Some body)
    obtain parsed parse_errs where p: "parse_records tx content_type body = (parsed, parse_errs)" by fastforce
    obtain now w1 where c: "read_clock w = (now, w1)" by fastforce
    obtain recs errs where v: "validate_records tx src now 0 parsed = (recs, errs)" by fastforce
    have w1: "lw_logs w1 = lw_logs w" using read_clock_now [OF c] by simp
    show ?thesis
    proof (cases "parsed = [] \<and> parse_errs = [] \<or> max_records < length parsed")
      case True
      then show ?thesis using none assms(1) Some p by (auto simp: bulk_def split: if_splits)
    next
      case False
      then have pr: "process src recs (parse_errs @ errs) (length body) roll a w1 = ((out, a'), w')"
        using assms(1) Some p c v by (auto simp: bulk_def)
      have "distinct (map lr_id (lw_logs w1))" using assms(2) w1 by simp
      from process_accounts [OF pr this] obtain rows where "lw_logs w' = lw_logs w @ rows"
        "accounted src recs (parse_errs @ errs) (lw_now w') rows out" using w1 by auto
      then show ?thesis
        by (intro exI [of _ rows]) (auto simp: accounted_def row_of_source_def list_all_iff split: ingest_reply.splits)
    qed
  qed
qed

text \<open>
  C4: an ingest key is confined to the organization it was minted for. In any state the requests of
  admins can lead to, read and write-back of two of them interleaved in any way, with any faults,
  deletions and other traffic in between: whoever is authenticated presented a key with the hash of
  one minted, for a source of that very organization, from random bytes drawn there; the source is
  the only one with that hash, active and not expired; its project belongs to that organization,
  which is enabled. And every row a bulk request then adds is one of that project and source.
\<close>

theorem source_key_confined:
  assumes "key_reach sha s" and "authenticate_source sha header (ky_world s) = (Inr src, w')"
    and "distinct (map lr_id (lw_logs (ky_world s)))" and "bulk tx src content_type raw roll a w' = ((out, a'), w2)"
  shows "\<exists>key rows. bearer_token header = Some key
    \<and> (\<exists>buf. (buf, sc_org src) \<in> set (ky_drawn s) \<and> hash_key sha key = hash_key sha (key_scheme @ hex_encode buf))
    \<and> filter (\<lambda>x. sc_hash x = hash_key sha key) (lw_sources (ky_world s)) = [src]
    \<and> sc_active src \<and> \<not> source_expired src (lw_now w')
    \<and> project_org (ky_world s) (sc_project src) = Some (sc_org src)
    \<and> (\<exists>row \<in> set (lw_projects (ky_world s)). pr_id row = sc_project src \<and> (pr_org row, True) \<in> set (lw_orgs (ky_world s)))
    \<and> lw_logs w2 = lw_logs (ky_world s) @ rows
    \<and> list_all (\<lambda>r. lr_project r = sc_project src \<and> lr_source_id r = Some (sc_id src)) rows"
proof -
  let ?w = "ky_world s"
  note ok = key_reach_ok [OF assms(1)]
  from authenticate_done [OF assms(2)] obtain key where key: "bearer_token header = Some key" "src \<in> set (lw_sources ?w)"
    "sc_hash src = hash_key sha key" "sc_active src" "\<not> source_expired src (lw_now w')" "same_but_clock ?w w'"
    "\<exists>row \<in> set (lw_projects ?w). pr_id row = sc_project src \<and> (pr_org row, True) \<in> set (lw_orgs ?w)" by metis
  have "hash_drawn sha (ky_drawn s) src" "placed ?w src" using ok key(2) by (auto simp: keys_ok_def list_all_iff)
  moreover have "filter (\<lambda>x. sc_hash x = hash_key sha key) (lw_sources ?w) = [src]"
    using ok key(2) unfolding key(3) [symmetric] by (intro filter_unique) (simp_all add: keys_ok_def)
  moreover obtain rows where "lw_logs w2 = lw_logs w' @ rows"
    "list_all (\<lambda>r. lr_project r = sc_project src \<and> lr_source_id r = Some (sc_id src)) rows"
    using bulk_rows [OF assms(4)] assms(3) key(6) by (auto simp: same_but_clock_def)
  ultimately show ?thesis
    using key unfolding hash_drawn_def placed_def same_but_clock_def
    by (intro exI [of _ key] exI [of _ rows]) (simp del: append_Cons)
qed

subsection \<open>Rotation\<close>

lemma s_source_by_found:
  assumes "lw_faults w = []" and "List.find p (lw_sources w) = Some src"
  shows "s_source_by p w = (Inr src, w)"
  using assms by (simp add: s_source_by_def log_call_def)

lemma authenticate_finds:
  assumes "bearer_token header = Some key" and "has_key_scheme key" and "lw_faults w = []"
    and "List.find (\<lambda>s. sc_hash s = hash_key sha key) (lw_sources w) = Some row" and "sc_active row"
    and "\<not> source_expired row (fst (read_clock w))" and "fst (s_org_enabled (sc_project row) w) = Inr True"
  shows "fst (authenticate_source sha header w) = Inr row"
proof -
  have h: "sc_hash row = hash_key sha key" using assms(4) by (auto simp: find_Some_iff)
  obtain now w1 where c: "read_clock w = (now, w1)" by fastforce
  have w1: "lw_faults w1 = []" "lw_orgs w1 = lw_orgs w" "lw_projects w1 = lw_projects w"
    using c assms(3) by (auto simp: read_clock_def split: list.splits)
  let ?joined = "concat (map (\<lambda>p. filter (\<lambda>or. fst or = pr_org p) (lw_orgs w)) (filter (\<lambda>r. pr_id r = sc_project row) (lw_projects w)))"
  obtain o' rest where j: "?joined = (o', True) # rest"
    using assms(7,3) by (cases "?joined") (auto simp: s_org_enabled_def log_call_def)
  have e: "s_org_enabled (sc_project row) w1 = (Inr True, w1)"
    unfolding s_org_enabled_def log_call_def using w1 j by simp
  show ?thesis
    using assms(1,2,5,6) h c e s_source_by_found [OF assms(3,4)]
    by (simp add: authenticate_source_def coded_def s_source_by_hash_def)
qed

lemma authenticate_unknown:
  assumes "bearer_token header = Some key" and "\<forall>x \<in> set (lw_sources w). sc_hash x \<noteq> hash_key sha key"
  shows "fst (authenticate_source sha header w) = Inl Unauthenticated"
proof -
  obtain r w1 where q: "s_source_by (\<lambda>s. sc_hash s = hash_key sha key) w = (r, w1)" by fastforce
  obtain e where "r = Inl e" using s_source_by_done [OF q] assms(2) by (cases r) auto
  then show ?thesis using assms(1) q by (simp add: authenticate_source_def coded_def s_source_by_hash_def)
qed

lemma rotate_key_done:
  assumes "app_rotate_key sha pu rnd org i w = (Inr (src, key), w')"
  obtains old buf where "rnd = Some buf" and "key = key_scheme @ hex_encode buf" and "old \<in> set (lw_sources w)"
    and "pu org = Some (sc_org old)" and "pu i = Some (sc_id old)"
    and "src = old\<lparr> sc_hash := hash_key sha key, sc_prefix := key_scheme @ take 6 (hex_encode buf) \<rparr>"
    and "lw_sources w' = update_where (\<lambda>r. sc_id r = sc_id old) (set_mutable src) (lw_sources w)"
    and "\<forall>r \<in> set (lw_sources w). sc_id r = sc_id old \<longrightarrow> (\<forall>s \<in> set (lw_sources w). \<not> source_clash src r s)"
proof -
  obtain r1 w1 where l: "load_org_source pu org i w = (r1, w1)" by fastforce
  note ld = load_org_source_done [OF l]
  obtain old where r1: "r1 = Inr old" using assms l by (cases r1) (auto simp: app_rotate_key_def)
  then have "coded (\<lambda>_. Internal) (rotate_key sha rnd old) w1 = (Inr (src, key), w')"
    using assms l by (simp add: app_rotate_key_def)
  from coded_done [OF this] have rk: "rotate_key sha rnd old w1 = (Inr (src, key), w')" by auto
  obtain buf where rnd: "rnd = Some buf" using rk by (cases rnd) (auto simp: rotate_key_def generate_key_def)
  let ?key = "key_scheme @ hex_encode buf"
  let ?src = "old\<lparr> sc_hash := hash_key sha ?key, sc_prefix := key_scheme @ take 6 (hex_encode buf) \<rparr>"
  have u: "try_op (s_source_update ?src) (\<lambda>_. try_op audit_create (\<lambda>_. ret_op (?src, ?key))) w1 = (Inr (src, key), w')"
    using rk rnd by (simp add: rotate_key_def generate_key_def Let_def)
  note c = update_then_audit [OF u]
  have eq: "src = ?src" "key = ?key" using c by (blast, blast)
  have rows: "lw_sources w1 = lw_sources w" using ld by (simp add: same_sources_def)
  have "lw_sources w' = update_where (\<lambda>r. sc_id r = sc_id old) (set_mutable src) (lw_sources w)"
    "\<forall>r \<in> set (lw_sources w). sc_id r = sc_id old \<longrightarrow> (\<forall>s \<in> set (lw_sources w). \<not> source_clash src r s)"
    using c unfolding eq(1) rows by auto
  then show thesis using that [OF rnd eq(2)] ld r1 eq by blast
qed

text \<open>
  C19: rotating a key swaps it and nothing else. When a rotation answers with a new key, the source
  it was asked for is one of the organization in the path; from then on the new key authenticates
  as that source, if it is active, not expired and its organization enabled, the key it had is
  refused as unknown, and no other source has changed.
\<close>

theorem rotation_swaps_keys:
  assumes "app_rotate_key sha parse_uuid rnd org i w = (Inr (src, key), w')"
    and "distinct (map sc_id (lw_sources w))" and "distinct (map sc_hash (lw_sources w))" and "lw_faults w' = []"
  shows "\<exists>old \<in> set (lw_sources w). parse_uuid org = Some (sc_org old) \<and> parse_uuid i = Some (sc_id old)
    \<and> (\<forall>header. bearer_token header = Some key \<longrightarrow> sc_active old \<longrightarrow> \<not> source_expired old (fst (read_clock w')) \<longrightarrow>
        fst (s_org_enabled (sc_project old) w') = Inr True \<longrightarrow>
        (\<exists>row. fst (authenticate_source sha header w') = Inr row \<and> sc_id row = sc_id old))
    \<and> (\<forall>header token. bearer_token header = Some token \<longrightarrow> hash_key sha token = sc_hash old \<longrightarrow>
        sc_hash old \<noteq> hash_key sha key \<longrightarrow> fst (authenticate_source sha header w') = Inl Unauthenticated)
    \<and> filter (\<lambda>s. sc_id s \<noteq> sc_id old) (lw_sources w') = filter (\<lambda>s. sc_id s \<noteq> sc_id old) (lw_sources w)"
proof -
  from assms(1) obtain old buf where d: "rnd = Some buf" "key = key_scheme @ hex_encode buf" "old \<in> set (lw_sources w)"
    "parse_uuid org = Some (sc_org old)" "parse_uuid i = Some (sc_id old)"
    "src = old\<lparr> sc_hash := hash_key sha key, sc_prefix := key_scheme @ take 6 (hex_encode buf) \<rparr>"
    "lw_sources w' = update_where (\<lambda>r. sc_id r = sc_id old) (set_mutable src) (lw_sources w)"
    "\<forall>r \<in> set (lw_sources w). sc_id r = sc_id old \<longrightarrow> (\<forall>s \<in> set (lw_sources w). \<not> source_clash src r s)"
    by (rule rotate_key_done)
  have only: "x = old" if "x \<in> set (lw_sources w)" "sc_id x = sc_id old" for x
    using assms(2) that d(3) by (auto simp: distinct_map dest: inj_onD)
  have src: "sc_hash src = hash_key sha key" "sc_id src = sc_id old" using d(6) by simp_all
  have scheme: "has_key_scheme key" unfolding d(2) by (simp add: has_key_scheme_def has_prefix_def)
  have new: "x = set_mutable src old" if "x \<in> set (lw_sources w')" "sc_hash x = hash_key sha key" for x
  proof -
    have "\<not> source_clash src old y" if "y \<in> set (lw_sources w)" for y using d(3,8) that by blast
    then show ?thesis
      using that src only unfolding d(7) by (auto simp: in_update_where source_clash_def)
  qed
  have here: "set_mutable src old \<in> set (lw_sources w')" using d(3) unfolding d(7) by (auto simp: in_update_where)
  have mutated: "sc_hash (set_mutable src old) = hash_key sha key" "sc_active (set_mutable src old) = sc_active old"
    "sc_expires (set_mutable src old) = sc_expires old" "sc_project (set_mutable src old) = sc_project old"
    "sc_id (set_mutable src old) = sc_id old"
    using d(6) by (simp_all add: set_mutable_def)
  have "List.find (\<lambda>s. sc_hash s = hash_key sha key) (lw_sources w') = Some (set_mutable src old)"
  proof -
    obtain x where "List.find (\<lambda>s. sc_hash s = hash_key sha key) (lw_sources w') = Some x"
      using here mutated(1) by (cases "List.find (\<lambda>s. sc_hash s = hash_key sha key) (lw_sources w')") (auto simp: find_None_iff)
    moreover from this have "x \<in> set (lw_sources w')" "sc_hash x = hash_key sha key" by (auto simp: find_Some_iff)
    ultimately show ?thesis using new by simp
  qed
  then have works: "fst (authenticate_source sha header w') = Inr (set_mutable src old)"
    if "bearer_token header = Some key" "sc_active old" "\<not> source_expired old (fst (read_clock w'))"
      "fst (s_org_enabled (sc_project old) w') = Inr True" for header
    using authenticate_finds [OF that(1) scheme assms(4)] that mutated by (simp add: source_expired_def)
  have refused: "fst (authenticate_source sha header w') = Inl Unauthenticated"
    if "bearer_token header = Some token" "hash_key sha token = sc_hash old" "sc_hash old \<noteq> hash_key sha key" for header token
  proof (rule authenticate_unknown [OF that(1)], rule ballI)
    fix x assume "x \<in> set (lw_sources w')"
    then have "(\<exists>r \<in> set (lw_sources w). sc_id r = sc_id old \<and> x = set_mutable src r)
        \<or> x \<in> set (lw_sources w) \<and> sc_id x \<noteq> sc_id old"
      unfolding d(7) in_update_where .
    then show "sc_hash x \<noteq> hash_key sha token"
      using that(2,3) assms(3) d(3) only src(1) by (auto simp: distinct_map set_mutable_def dest: inj_onD)
  qed
  have others: "filter (\<lambda>s. sc_id s \<noteq> sc_id old) (lw_sources w') = filter (\<lambda>s. sc_id s \<noteq> sc_id old) (lw_sources w)"
    unfolding d(7) by (rule filter_update_where_disjoint) (simp_all add: set_mutable_def)
  show ?thesis using d(3,4,5) works refused others mutated(5) by (intro bexI [of _ old]) auto
qed

subsection \<open>Health\<close>

lemma hour_grid_length: "hour_grid h (h + int n * go_hour) = map (\<lambda>k. h + int k * go_hour) [0..<n]"
proof (induction n arbitrary: h)
  case (Suc n)
  have "hour_grid h (h + int (Suc n) * go_hour) = h # hour_grid (h + go_hour) (h + go_hour + int n * go_hour)"
    by (subst hour_grid.simps) (simp add: algebra_simps)
  also have "\<dots> = h # map (\<lambda>k. h + go_hour + int k * go_hour) [0..<n]" unfolding Suc.IH ..
  also have "\<dots> = map (\<lambda>k. h + int k * go_hour) [0..<Suc n]"
    by (simp add: map_upt_Suc algebra_simps del: upt_Suc)
  finally show ?case .
qed (subst hour_grid.simps, simp)

definition hour_value :: "(source_hour \<Rightarrow> int) \<Rightarrow> source_hour list \<Rightarrow> instant \<Rightarrow> int" where
  "hour_value f rows h = (case map_of (map (\<lambda>c. (sh_hour c, c)) rows) h of None \<Rightarrow> 0 | Some c \<Rightarrow> f c)"

lemma sum_over_grid:
  assumes "distinct (map sh_hour rows)" and "sh_hour ` set rows \<subseteq> set grid" and "distinct grid"
  shows "sum_list (map (hour_value f rows) grid) = sum_list (map f rows)"
  using assms(1,2)
proof (induction rows)
  case Nil
  then show ?case by (simp add: hour_value_def sum_list_0)
next
  case (Cons c rows)
  have "map_of (map (\<lambda>c. (sh_hour c, c)) rows) (sh_hour c) = None"
    using Cons.prems(1) by (simp add: map_of_eq_None_iff image_image)
  then have z: "hour_value f rows (sh_hour c) = 0" by (simp add: hour_value_def)
  have "sum_list (map (hour_value f (c # rows)) grid) = sum (hour_value f (c # rows)) (set grid)"
    using assms(3) by (rule sum_list_distinct_conv_sum_set)
  also have "\<dots> = sum (\<lambda>h. (if h = sh_hour c then f c else 0) + hour_value f rows h) (set grid)"
  proof (rule sum.cong [OF refl])
    show "hour_value f (c # rows) h = (if h = sh_hour c then f c else 0) + hour_value f rows h" for h
      using z by (simp add: hour_value_def)
  qed
  also have "\<dots> = f c + sum (hour_value f rows) (set grid)"
    using Cons.prems(2) by (simp add: sum.distrib sum.delta)
  also have "sum (hour_value f rows) (set grid) = sum_list (map f rows)"
    using Cons assms(3) by (simp add: sum_list_distinct_conv_sum_set)
  finally show ?case by simp
qed

lemma bucket_values:
  assumes "distinct (map sh_hour rows)"
  shows "map hb_events (map (bucket_of rows) grid) = map (hour_value sh_events rows) grid"
    "map hb_errors (map (bucket_of rows) grid) = map (hour_value sh_errors rows) grid"
    "map hb_dropped (map (bucket_of rows) grid) = map (hour_value sh_dropped rows) grid"
    "map hb_hour (map (bucket_of rows) grid) = grid"
proof -
  have "map_of (rev (map (\<lambda>c. (sh_hour c, c)) rows)) = map_of (map (\<lambda>c. (sh_hour c, c)) rows)"
    using assms by (subst map_of_inject_set) (simp_all add: comp_def rev_map [symmetric])
  then have b: "bucket_of rows h = (case map_of (map (\<lambda>c. (sh_hour c, c)) rows) h of
        None \<Rightarrow> \<lparr> hb_hour = h, hb_events = 0, hb_errors = 0, hb_dropped = 0 \<rparr>
      | Some c \<Rightarrow> \<lparr> hb_hour = h, hb_events = sh_events c, hb_errors = sh_errors c, hb_dropped = sh_dropped c \<rparr>)" for h
    by (simp add: bucket_of_def)
  show "map hb_events (map (bucket_of rows) grid) = map (hour_value sh_events rows) grid"
    "map hb_errors (map (bucket_of rows) grid) = map (hour_value sh_errors rows) grid"
    "map hb_dropped (map (bucket_of rows) grid) = map (hour_value sh_dropped rows) grid"
    "map hb_hour (map (bucket_of rows) grid) = grid"
    by (simp_all add: b hour_value_def split: option.split) (auto intro!: map_idI simp: b split: option.split)
qed

lemma sum_list_sort_key: "sum_list (map f (sort_key k xs)) = sum_list (map (f :: _ \<Rightarrow> int) xs)"
proof -
  have "mset (map f (sort_key k xs)) = mset (map f xs)" by simp
  then show ?thesis by (metis sum_mset_sum_list)
qed

lemma source_rows_distinct:
  assumes "distinct (map (\<lambda>r. (sh_source r, sh_hour r)) rows)"
  shows "distinct (map sh_hour (filter (\<lambda>r. sh_source r = i \<and> P r) rows))"
proof -
  have "inj_on sh_hour (set (filter (\<lambda>r. sh_source r = i \<and> P r) rows))"
    using assms by (auto simp: distinct_map inj_on_def)
  then show ?thesis using assms by (simp add: distinct_map)
qed

lemma load_hours:
  assumes "load_org_source pu org i w = (r, w')"
  shows "lw_source_hours w' = lw_source_hours w"
proof -
  have "keeps (\<lambda>v. lw_source_hours v = h) (s_source_by p)" for p h
    unfolding s_source_by_def by (rule keeps_log_call) (auto simp: keeps_def split: option.split)
  note k = this
  have s: "lw_source_hours w1 = lw_source_hours w" if "s_source_by p w = (r1, w1)" for p r1 w1
    using keepsD [OF k [of "lw_source_hours w" p], of w] that by simp
  show ?thesis
  proof (cases "pu org"; cases "pu i")
    fix o' i' assume u: "pu org = Some o'" "pu i = Some i'"
    obtain r1 w1 where q: "s_source_by (\<lambda>s. sc_id s = i') w = (r1, w1)" by fastforce
    show ?thesis
      using assms u q s [OF q] by (cases r1) (auto simp: load_org_source_def path_uuid_def coded_def s_source_by_id_def split: if_splits)
  qed (use assms in \<open>auto simp: load_org_source_def path_uuid_def\<close>)
qed

lemma query_source_counters_done:
  assumes "query_source_counters [i] from' w = (Inr m, w')"
  shows "(case m i of None \<Rightarrow> no_counters | Some c \<Rightarrow> c) =
      counters_of (filter (\<lambda>r. sh_source r = i \<and> utc_hour from' \<le> sh_hour r) (lw_source_hours w))
    \<and> lw_source_hours w' = lw_source_hours w"
  using assms
  by (auto simp: query_source_counters_def s_source_counters_def log_call_def Let_def no_counters_def counters_of_def
      split: list.splits if_splits)

lemma s_source_buckets_done:
  assumes "s_source_buckets i from' to' w = (Inr rows, w')"
  shows "rows = sort_key sh_hour
     (filter (\<lambda>r. sh_source r = i \<and> utc_hour from' \<le> sh_hour r \<and> sh_hour r < pg_time to') (lw_source_hours w))"
  using assms by (auto simp: s_source_buckets_def log_call_def split: list.splits if_splits)

text \<open>
  C25: the health page adds up. A source's health answers with exactly one bucket for each of the 24
  hours of its window, in order, and when the counters hold one row per source and hour, on the
  hour and none beyond the window, the buckets add up to the totals, from which the error rate is
  computed.
\<close>

theorem health_buckets_add_up:
  assumes "app_health parse_uuid True org i w = (Inr rep, w')"
    and "distinct (map (\<lambda>r. (sh_source r, sh_hour r)) (lw_source_hours w))"
    and "list_all (\<lambda>r. utc_hour (sh_hour r) = sh_hour r \<and> sh_hour r < hr_end rep) (lw_source_hours w)"
  shows "map hb_hour (hr_buckets rep) = map (\<lambda>k. hr_start rep + int k * go_hour) [0..<24]
    \<and> hr_end rep = hr_start rep + 24 * go_hour
    \<and> sum_list (map hb_events (hr_buckets rep)) = he_events (hr_health rep)
    \<and> sum_list (map hb_errors (hr_buckets rep)) = he_errors (hr_health rep)
    \<and> sum_list (map hb_dropped (hr_buckets rep)) = he_dropped (hr_health rep)"
proof -
  obtain r1 w1 where l: "load_org_source parse_uuid org i w = (r1, w1)" by fastforce
  obtain src where r1: "r1 = Inr src" using assms(1) l by (cases r1) (auto simp: app_health_def)
  obtain now w2 where c: "read_clock w1 = (now, w2)" by fastforce
  let ?stop = "health_end now"
  let ?start = "?stop - health_window"
  have hours: "lw_source_hours w2 = lw_source_hours w"
    using load_hours [OF l] c by (auto simp: read_clock_def split: list.splits)
  have aligned: "utc_hour ?start = ?start" "pg_time ?stop = ?stop" "?stop = ?start + int 24 * go_hour"
  proof -
    have e: "go_hour dvd ?stop" using time_truncate_dvd [of go_hour now] by (simp add: health_end_def)
    then have "go_hour dvd ?start" by simp
    then show "utc_hour ?start = ?start" by (simp add: utc_hour_def time_truncate_def)
    have "1000 dvd ?stop" by (rule dvd_trans [OF _ e]) simp
    then show "pg_time ?stop = ?stop" by (simp add: pg_time_def time_truncate_def)
  qed simp
  obtain r3 w3 where q: "query_source_counters [sc_id src] ?start w2 = (r3, w3)" by fastforce
  obtain m where r3: "r3 = Inr m"
    using assms(1) l r1 c q by (cases r3) (auto simp: app_health_def coded_def health_counters_def Let_def)
  note qd = query_source_counters_done [OF q [unfolded r3]]
  obtain r4 w4 where bk: "s_source_buckets (sc_id src) ?start ?stop w3 = (r4, w4)" by fastforce
  obtain rows where r4: "r4 = Inr rows"
    using assms(1) l r1 c q r3 bk by (cases r4) (auto simp: app_health_def coded_def health_counters_def Let_def)
  note bd = s_source_buckets_done [OF bk [unfolded r4]]
  have rep: "rep = \<lparr> hr_source = src, hr_health = health_of src now (case m (sc_id src) of None \<Rightarrow> no_counters | Some c \<Rightarrow> c),
       hr_expired = source_expired src now, hr_start = ?start, hr_end = ?stop, hr_buckets = fill_buckets rows ?start ?stop \<rparr>"
    using assms(1) l r1 c q r3 bk r4 by (simp add: app_health_def coded_def health_counters_def Let_def)
  let ?mine = "filter (\<lambda>r. sh_source r = sc_id src \<and> ?start \<le> sh_hour r) (lw_source_hours w)"
  let ?grid = "map (\<lambda>k. ?start + int k * go_hour) [0..<24]"
  have total: "(case m (sc_id src) of None \<Rightarrow> no_counters | Some c \<Rightarrow> c) = counters_of ?mine"
    using qd unfolding hours aligned(1) by simp
  have rows: "rows = sort_key sh_hour ?mine"
  proof -
    have "filter (\<lambda>r. sh_source r = sc_id src \<and> ?start \<le> sh_hour r \<and> sh_hour r < ?stop) (lw_source_hours w) = ?mine"
      using assms(3) rep by (intro filter_cong) (auto simp: list_all_iff)
    then show ?thesis using bd qd unfolding hours aligned(1,2) by simp
  qed
  have distinct: "distinct (map sh_hour rows)"
    using source_rows_distinct [OF assms(2), of "sc_id src" "\<lambda>r. ?start \<le> sh_hour r"] unfolding rows by (simp add: distinct_map)
  have grid: "hour_grid ?start ?stop = ?grid" using hour_grid_length [of ?start 24] aligned(3) by simp
  have "sh_hour r \<in> set ?grid" if r: "r \<in> set ?mine" for r
  proof -
    have "utc_hour (sh_hour r) = sh_hour r" "sh_hour r < ?stop" "?start \<le> sh_hour r"
      using assms(3) r rep by (auto simp: list_all_iff)
    moreover have "go_hour dvd sh_hour r" using calculation(1) time_truncate_dvd [of go_hour "sh_hour r"] by (simp add: utc_hour_def)
    moreover have "go_hour dvd ?start" using aligned(1) time_truncate_dvd [of go_hour ?start] by (simp add: utc_hour_def)
    ultimately obtain k where k: "sh_hour r - ?start = go_hour * k" by (meson dvd_diff dvdE)
    then have "0 \<le> k" "k < 24" using \<open>?start \<le> sh_hour r\<close> \<open>sh_hour r < ?stop\<close> by simp_all
    then show ?thesis using k by (intro image_eqI [of _ _ "nat k"] | simp)+
  qed
  then have within: "sh_hour ` set rows \<subseteq> set ?grid" unfolding rows by auto
  have "distinct ?grid" by (auto simp: distinct_map inj_on_def)
  note sums = sum_over_grid [OF distinct within this]
  have buckets: "hr_buckets rep = map (bucket_of rows) ?grid" "hr_start rep = ?start" "hr_end rep = ?stop"
    "hr_health rep = health_of src now (counters_of ?mine)"
    unfolding rep total by (simp_all only: health_reply.simps fill_buckets_def grid)
  have "he_events (hr_health rep) = sum_list (map sh_events rows)" "he_errors (hr_health rep) = sum_list (map sh_errors rows)"
    "he_dropped (hr_health rep) = sum_list (map sh_dropped rows)"
    unfolding buckets rows sum_list_sort_key by (simp_all add: health_of_def counters_of_def)
  then show ?thesis
    unfolding buckets bucket_values [OF distinct] sums by simp
qed

subsection \<open>A source, its key and its health\<close>

text \<open>The bytes \<open>0x61 0x62\<close> drawn for source 100 of organization 2, then \<open>0x63\<close>; a digest that is the identity.\<close>

definition key_world :: log_world where
  "key_world = (retained_world None)\<lparr> lw_logs := [], lw_stats := [] \<rparr>"

definition sample_uuid :: "string \<Rightarrow> uuid option" where
  "sample_uuid t = (if t = ''1'' then Some 1 else if t = ''2'' then Some 2 else if t = ''100'' then Some 100 else None)"

definition sample_create :: "(err_code + source \<times> string) \<times> log_world" where
  "sample_create = app_create_source id sample_uuid (Some ''ab'')
     (Some \<lparr> sb_kind = ''http'', sb_name = ''edge'', sb_project = ''1'', sb_days = 0 \<rparr>) ''2'' key_world"

abbreviation sample_header :: string where "sample_header \<equiv> ''Bearer ls_src_live_6162''"

lemma sample_authenticated:
  "(case fst (authenticate_source id sample_header (snd sample_create)) of Inl e \<Rightarrow> False | Inr src \<Rightarrow> sc_org src = 2)"
  by code_simp

definition created_system :: key_system where
  "created_system = \<lparr> ky_world = snd sample_create, ky_read = [], ky_drawn = [(''ab'', 2)] \<rparr>"

lemma created_reached: "key_reach id created_system"
proof (rule Key_move)
  show "key_reach id \<lparr> ky_world = key_world, ky_read = [], ky_drawn = [] \<rparr>"
    by (rule No_sources) (simp add: key_world_def retained_world_def)
  show "key_moves id \<lparr> ky_world = key_world, ky_read = [], ky_drawn = [] \<rparr> created_system"
    using Create_request [of id sample_uuid "Some ''ab''" "Some \<lparr> sb_kind = ''http'', sb_name = ''edge'', sb_project = ''1'', sb_days = 0 \<rparr>"
        "''2''" "\<lparr> ky_world = key_world, ky_read = [], ky_drawn = [] \<rparr>" "fst sample_create" "snd sample_create"]
    by (simp add: created_system_def sample_create_def drawn_for_def sample_uuid_def)
qed

lemma created_logs: "lw_logs (snd sample_create) = []"
  by code_simp

theorem source_key_confined_witness:
  "\<exists>src. fst (authenticate_source id sample_header (ky_world created_system)) = Inr src
    \<and> project_org (ky_world created_system) (sc_project src) = Some (sc_org src)"
proof -
  obtain src w' where a: "authenticate_source id sample_header (ky_world created_system) = (Inr src, w')"
    using sample_authenticated
    by (cases "authenticate_source id sample_header (snd sample_create)"; cases "fst (authenticate_source id sample_header (snd sample_create))")
      (auto simp: created_system_def)
  obtain out a' w2 where b: "bulk sample_texts src [] None (\<lambda>_. 0) sample_app w' = ((out, a'), w2)" by (metis surj_pair)
  have "distinct (map lr_id (lw_logs (ky_world created_system)))" by (simp add: created_system_def created_logs)
  from source_key_confined [OF created_reached a this b] a show ?thesis by auto
qed

text \<open>The same source as a row, for the requests that find it there.\<close>

definition keyed_source :: source where
  "keyed_source = \<lparr> sc_id = 100, sc_org = 2, sc_project = 1, sc_kind = ''http'', sc_name = ''edge'', sc_prefix = ''ls_src_live_6162'',
     sc_hash = hash_key id ''ls_src_live_6162'', sc_active = True, sc_seen = None, sc_rate = 500, sc_burst = 1000, sc_sample = 1,
     sc_created = 0, sc_expires = None \<rparr>"

definition keyed_world :: log_world where
  "keyed_world = key_world\<lparr> lw_sources := [keyed_source] \<rparr>"

definition sample_rotate :: "(err_code + source \<times> string) \<times> log_world" where
  "sample_rotate = app_rotate_key id sample_uuid (Some ''c'') ''2'' ''100'' keyed_world"

lemma sample_rotated: "fst sample_rotate = Inr (fst (projr (fst sample_rotate)), ''ls_src_live_63'')"
  by code_simp

lemma sample_rotated_world: "lw_faults (snd sample_rotate) = []" "bearer_token sample_header = Some ''ls_src_live_6162''"
  "hash_key id ''ls_src_live_6162'' \<noteq> hash_key id ''ls_src_live_63''"
  by code_simp+

lemma keyed_rows: "lw_sources keyed_world = [keyed_source]" "sc_hash keyed_source = hash_key id ''ls_src_live_6162''"
  by (simp_all add: keyed_world_def keyed_source_def)

theorem rotation_swaps_keys_witness:
  "fst (authenticate_source id sample_header (snd sample_rotate)) = Inl Unauthenticated"
proof -
  let ?w = "keyed_world"
  have r: "app_rotate_key id sample_uuid (Some ''c'') ''2'' ''100'' ?w
      = (Inr (fst (projr (fst sample_rotate)), ''ls_src_live_63''), snd sample_rotate)"
    using sample_rotated by (metis prod.collapse sample_rotate_def)
  have "distinct (map sc_id (lw_sources ?w))" "distinct (map sc_hash (lw_sources ?w))" by (simp_all add: keyed_rows)
  from rotation_swaps_keys [OF r this sample_rotated_world(1)] obtain old where old: "old \<in> set (lw_sources ?w)"
    and refused: "\<And>header token. bearer_token header = Some token \<Longrightarrow> hash_key id token = sc_hash old \<Longrightarrow>
        sc_hash old \<noteq> hash_key id ''ls_src_live_63'' \<Longrightarrow> fst (authenticate_source id header (snd sample_rotate)) = Inl Unauthenticated"
    by blast
  have "sc_hash old = hash_key id ''ls_src_live_6162''" using old by (simp add: keyed_rows)
  then show ?thesis using refused [OF sample_rotated_world(2)] sample_rotated_world(3) by metis
qed

definition health_world :: log_world where
  "health_world = keyed_world\<lparr> lw_source_hours := [\<lparr> sh_source = 100, sh_hour = 860400000000000, sh_events = 8, sh_errors = 2,
     sh_dropped = 1, sh_rejects = 0 \<rparr>] \<rparr>"

definition sample_health :: "(err_code + health_reply) \<times> log_world" where
  "sample_health = app_health sample_uuid True ''2'' ''100'' health_world"

lemma sample_health_done: "(case fst sample_health of Inl e \<Rightarrow> False | Inr rep \<Rightarrow> he_events (hr_health rep) = 8 \<and> 860400000000000 < hr_end rep)"
  by code_simp

theorem health_buckets_add_up_witness:
  "(case fst sample_health of Inl e \<Rightarrow> False | Inr rep \<Rightarrow> length (hr_buckets rep) = 24 \<and> sum_list (map hb_events (hr_buckets rep)) = 8)"
proof -
  obtain rep where f: "fst sample_health = Inr rep" "he_events (hr_health rep) = 8" "860400000000000 < hr_end rep"
    using sample_health_done by (cases "fst sample_health") auto
  then have h: "app_health sample_uuid True ''2'' ''100'' health_world = (Inr rep, snd sample_health)"
    by (metis prod.collapse sample_health_def)
  have "distinct (map (\<lambda>r. (sh_source r, sh_hour r)) (lw_source_hours health_world))"
    "list_all (\<lambda>r. utc_hour (sh_hour r) = sh_hour r \<and> sh_hour r < hr_end rep) (lw_source_hours health_world)"
    using f(3) by (simp_all add: health_world_def utc_hour_def time_truncate_def)
  note hb = health_buckets_add_up [OF h this]
  have "length (hr_buckets rep) = 24" using arg_cong [OF conjunct1 [OF hb], of length] by simp
  moreover have "sum_list (map hb_events (hr_buckets rep)) = 8" using hb f(2) by metis
  ultimately show ?thesis unfolding f(1) by simp
qed

text \<open>
  A write-back of a row read earlier undoes what was done in between: a rotation read before a
  disconnection and written after it leaves the source enabled, with a key that is accepted.
\<close>

definition stale_rotation :: "(err_code + source \<times> string) \<times> log_world" where
  "stale_rotation =
     (case load_org_source sample_uuid ''2'' ''100'' keyed_world of
        (Inl e, w) \<Rightarrow> (Inl e, w)
      | (Inr src, w) \<Rightarrow> coded (\<lambda>_. Internal) (rotate_key id (Some ''c'') src) (snd (app_disconnect sample_uuid ''2'' ''100'' w)))"

lemma stale_rotation_reenables:
  "map sc_active (lw_sources (snd (app_disconnect sample_uuid ''2'' ''100'' keyed_world))) = [False]"
  "map sc_active (lw_sources (snd stale_rotation)) = [True]"
  "(case fst (authenticate_source id ''Bearer ls_src_live_63'' (snd stale_rotation)) of Inl e \<Rightarrow> False | Inr src \<Rightarrow> sc_id src = 100)"
  by code_simp+

text \<open>An audit entry that cannot be written after the row is: the answer is an error, the key is lost and the name is taken.\<close>

lemma failed_audit_loses_key:
  "(let res = create_source id (Some ''ab'') \<lparr> ns_org = 2, ns_project = 1, ns_kind = ''http'', ns_name = ''edge'', ns_expires = None \<rparr>
      (key_world\<lparr> lw_faults := [False, True] \<rparr>) in fst res = Inl Err_log_db \<and> map sc_name (lw_sources (snd res)) = [''edge''])"
  by code_simp

end
