(* ===== verification/Orgs.thy ===== *)
theory Orgs
  imports LogStore
begin

text \<open>
  Organizations, their members, projects, plans, subscriptions and invitations: the tables
  (\<open>business/sdk/migrate/sql/migrate.sql\<close>), the statements of \<open>orgdb\<close> and the business layer of
  organizations with its audit extension (\<open>business/domain/orgbus\<close>). An enumeration column holds
  the value it parses to; the features of a plan hold the members of their JSON object.
\<close>

subsection \<open>Roles and names\<close>

datatype role = Admin | OrgAdmin | PrjManager | User

fun role_string :: "role \<Rightarrow> string" where
  "role_string Admin = ''SUPER ADMIN''"
| "role_string OrgAdmin = ''ORG ADMIN''"
| "role_string PrjManager = ''PROJECT MANAGER''"
| "role_string User = ''VIEWER''"

definition role_parse :: "string \<Rightarrow> role option" where
  "role_parse v = List.find (\<lambda>r. role_string r = v) [Admin, OrgAdmin, PrjManager, User]"

lemma role_string_inj [simp]: "role_string r = role_string s \<longleftrightarrow> r = s"
  by (induct r; induct s; code_simp)

lemma role_parse_string [simp]: "role_parse (role_string r) = Some r"
  by (induct r; code_simp)

lemma role_parse_SomeD:
  assumes "role_parse v = Some r"
  shows "v = role_string r"
  using find_SomeD [OF assms [unfolded role_parse_def]] by simp

definition between :: "nat \<Rightarrow> char \<Rightarrow> nat \<Rightarrow> bool" where
  "between lo c hi \<longleftrightarrow> lo \<le> of_char c \<and> of_char c \<le> hi"

definition ascii_letter :: "char \<Rightarrow> bool" where
  "ascii_letter c \<longleftrightarrow> between 97 c 122 \<or> between 65 c 90"

definition ascii_digit :: "char \<Rightarrow> bool" where
  "ascii_digit c \<longleftrightarrow> between 48 c 57"

text \<open>The expression of \<open>name.Parse\<close>: a letter, then two to nineteen letters, digits, quotes, blanks or hyphens.\<close>

definition valid_name :: "string \<Rightarrow> bool" where
  "valid_name v = (case v of [] \<Rightarrow> False
     | c # cs \<Rightarrow> ascii_letter c \<and> 2 \<le> length cs \<and> length cs \<le> 19
         \<and> list_all (\<lambda>c. ascii_letter c \<or> ascii_digit c \<or> c = CHR 0x27 \<or> c = CHR '' '' \<or> c = CHR ''-'') cs)"

definition slug_ok :: "string \<Rightarrow> bool" where
  "slug_ok v \<longleftrightarrow> v \<noteq> [] \<and> list_all (\<lambda>c. between 97 c 122 \<or> ascii_digit c \<or> c = CHR ''-'') v"

subsection \<open>Data\<close>

record org =
  og_id :: uuid
  og_name :: string
  og_slug :: string
  og_enabled :: bool
  og_owner :: "uuid option"
  og_created :: instant
  og_updated :: instant

record org_member =
  me_id :: uuid
  me_org :: uuid
  me_user :: uuid
  me_role :: role
  me_joined :: instant

record project =
  pj_id :: uuid
  pj_org :: uuid
  pj_name :: string
  pj_color :: string
  pj_retention :: "int option"
  pj_created :: instant
  pj_updated :: instant

record account =
  ac_id :: uuid
  ac_name :: string
  ac_email :: string
  ac_hash :: string
  ac_roles :: "role list"
  ac_enabled :: bool
  ac_created :: instant
  ac_updated :: instant

record verify_row =
  vt_token :: string
  vt_user :: uuid
  vt_expires :: instant
  vt_used :: "instant option"

datatype sub_plan = PlanFree | PlanPro | PlanEnterprise

fun plan_string :: "sub_plan \<Rightarrow> string" where
  "plan_string PlanFree = ''free''"
| "plan_string PlanPro = ''pro''"
| "plan_string PlanEnterprise = ''enterprise''"

definition parse_plan :: "string \<Rightarrow> sub_plan option" where
  "parse_plan v = List.find (\<lambda>p. plan_string p = v) [PlanFree, PlanPro, PlanEnterprise]"

datatype sub_status = StatusTrialing | StatusActive | StatusPastDue | StatusCancelled

record plan_features =
  pf_retention :: int
  pf_projects :: int
  pf_members :: int

text \<open>A row of the catalog, and the plan it is read as.\<close>

record catalog_row =
  pl_id :: uuid
  pl_slug :: string
  pl_name :: string
  pl_price :: int
  pl_stripe :: "string option"
  pl_features :: "(string \<times> int) list"
  pl_active :: bool

record plan =
  pn_id :: uuid
  pn_slug :: sub_plan
  pn_name :: string
  pn_price :: int
  pn_stripe :: string
  pn_features :: plan_features
  pn_active :: bool

record sub_row =
  sb_id :: uuid
  sb_org :: uuid
  sb_plan :: uuid
  sb_status :: sub_status
  sb_customer :: "string option"
  sb_stripe :: "string option"
  sb_cancel :: bool
  sb_cancelled :: "instant option"
  sb_start :: "instant option"
  sb_end :: "instant option"
  sb_created :: instant
  sb_updated :: instant

record subscription =
  su_id :: uuid
  su_org :: uuid
  su_plan :: uuid
  su_slug :: "sub_plan option"
  su_name :: string
  su_features :: plan_features
  su_status :: sub_status
  su_customer :: string
  su_stripe :: string
  su_cancel :: bool
  su_cancelled :: "instant option"
  su_start :: "instant option"
  su_end :: "instant option"
  su_created :: instant
  su_updated :: instant

record invitation =
  iv_id :: uuid
  iv_org :: uuid
  iv_email :: string
  iv_role :: role
  iv_token :: string
  iv_by :: uuid
  iv_projects :: "uuid list"
  iv_accepted :: "instant option"
  iv_expires :: instant
  iv_created :: instant

record api_key =
  ak_id :: uuid
  ak_org :: uuid
  ak_project :: "uuid option"
  ak_name :: string
  ak_prefix :: string
  ak_hash :: string
  ak_per_min :: int
  ak_burst :: int
  ak_active :: bool
  ak_by :: "uuid option"
  ak_used :: "instant option"
  ak_expires :: "instant option"
  ak_created :: instant

record audit_row =
  au_id :: uuid
  au_org :: uuid
  au_obj :: uuid
  au_name :: string
  au_actor :: uuid
  au_action :: string
  au_time :: instant

record sso_config =
  sx_org :: uuid
  sx_issuer :: string
  sx_client :: string
  sx_secret :: string
  sx_role :: role
  sx_domains :: "string list"
  sx_enabled :: bool
  sx_created :: instant
  sx_updated :: instant

record scim_token =
  sm_org :: uuid
  sm_hash :: string
  sm_prefix :: string
  sm_created :: instant
  sm_used :: "instant option"

datatype org_error =
    Err_org_not_found | Err_unique_slug | Err_org_limit | Err_member_exists | Err_member_not_found
  | Err_no_project | Err_project_name | Err_no_invitation | Err_already_used | Err_no_account
  | Err_unique_email | Err_auth_failure | Err_token_not_found | Err_token_used | Err_token_expired
  | Err_no_sso | Err_sso_config | Err_no_scim | Err_scim_random
  | Err_no_key | Err_key_expired | Err_key_name | Err_key_expiry | Err_key_limits | Err_key_random | Err_org_db

subsection \<open>The world\<close>

text \<open>The two processes that serve requests each keep a cache of accounts, by id and by address.\<close>

datatype service = Auth_service | Ingest_service
datatype cache_key = Id_key uuid | Email_key string

text \<open>
  \<open>ow_grants\<close> is \<open>user_project_access\<close>, a user and a project per row; \<open>ow_touched\<close> is what the
  middleware of API keys remembers of each key. \<open>ow_faults\<close> tells of each
  statement to come whether the database fails it, \<open>ow_ticks\<close> how far the clock goes between readings.
\<close>

record org_world =
  ow_orgs :: "org list"
  ow_members :: "org_member list"
  ow_projects :: "project list"
  ow_grants :: "(uuid \<times> uuid) list"
  ow_accounts :: "account list"
  ow_verify :: "verify_row list"
  ow_cache :: "service \<Rightarrow> cache_key \<rightharpoonup> (account \<times> instant)"
  ow_plans :: "catalog_row list"
  ow_subs :: "sub_row list"
  ow_invites :: "invitation list"
  ow_keys :: "api_key list"
  ow_sso :: "sso_config list"
  ow_scim :: "scim_token list"
  ow_audit :: "audit_row list"
  ow_touched :: "uuid \<rightharpoonup> instant"
  ow_fresh :: uuid
  ow_now :: instant
  ow_ticks :: "duration list"
  ow_faults :: "bool list"

type_synonym 'a org_op = "(org_world, org_error, 'a) op"

definition org_call :: "'a org_op \<Rightarrow> 'a org_op" where
  "org_call f w =
     (case ow_faults w of
        [] \<Rightarrow> f w
      | b # bs \<Rightarrow> if b then (Inl Err_org_db, w\<lparr> ow_faults := bs \<rparr>) else f (w\<lparr> ow_faults := bs \<rparr>))"

definition org_clock :: "(org_world, 'e, instant) op" where
  "org_clock w =
     (case ow_ticks w of
        [] \<Rightarrow> (Inr (ow_now w), w)
      | d # ds \<Rightarrow> (Inr (ow_now w + d), w\<lparr> ow_now := ow_now w + d, ow_ticks := ds \<rparr>))"

definition org_fresh :: "uuid org_op" where
  "org_fresh w = (Inr (ow_fresh w), w\<lparr> ow_fresh := Suc (ow_fresh w) \<rparr>)"

text \<open>The row of \<open>rows\<close> that satisfies \<open>p\<close>, or the error \<open>e\<close>.\<close>

definition one_row :: "org_error \<Rightarrow> (org_world \<Rightarrow> 'r list) \<Rightarrow> ('r \<Rightarrow> bool) \<Rightarrow> 'r org_op" where
  "one_row e rows p = org_call (\<lambda>w. case List.find p (rows w) of None \<Rightarrow> (Inl e, w) | Some r \<Rightarrow> (Inr r, w))"

definition exec :: "(org_world \<Rightarrow> org_error + org_world) \<Rightarrow> unit org_op" where
  "exec f = org_call (\<lambda>w. case f w of Inl e \<Rightarrow> (Inl e, w) | Inr w' \<Rightarrow> (Inr (), w'))"

subsection \<open>The audit trail\<close>

definition org_audit :: "uuid \<Rightarrow> uuid \<Rightarrow> string \<Rightarrow> uuid \<Rightarrow> string \<Rightarrow> unit org_op" where
  "org_audit org obj name actor action =
     try_op org_fresh (\<lambda>i. try_op org_clock (\<lambda>t. exec (\<lambda>w. Inr (w\<lparr> ow_audit := ow_audit w @
       [\<lparr> au_id = i, au_org = org, au_obj = obj, au_name = name, au_actor = actor, au_action = action, au_time = pg_time t \<rparr>] \<rparr>))))"

subsection \<open>Organizations\<close>

definition org_name_ok :: "org \<Rightarrow> org org_op" where
  "org_name_ok og = (if valid_name (og_name og) then ret_op og else fail_op Err_org_db)"

definition stored_org :: "org \<Rightarrow> org" where
  "stored_org og = og\<lparr> og_created := pg_time (og_created og), og_updated := pg_time (og_updated og) \<rparr>"

definition s_org_create :: "org \<Rightarrow> unit org_op" where
  "s_org_create og = exec (\<lambda>w.
     if \<not> slug_ok (og_slug og) then Inl Err_org_db
     else if list_ex (\<lambda>r. og_id r = og_id og \<or> og_slug r = og_slug og) (ow_orgs w) then Inl Err_unique_slug
     else if (case og_owner og of None \<Rightarrow> False | Some u \<Rightarrow> u \<notin> ac_id ` set (ow_accounts w)) then Inl Err_org_db
     else Inr (w\<lparr> ow_orgs := ow_orgs w @ [stored_org og] \<rparr>))"

definition set_org :: "org \<Rightarrow> org \<Rightarrow> org" where
  "set_org og r = r\<lparr> og_name := og_name og, og_slug := og_slug og, og_enabled := og_enabled og, og_updated := pg_time (og_updated og) \<rparr>"

text \<open>The constraints bind the rows that are written: none when no row has the id.\<close>

definition s_org_update :: "org \<Rightarrow> unit org_op" where
  "s_org_update og = exec (\<lambda>w.
     if og_id og \<notin> og_id ` set (ow_orgs w) then Inr w
     else if \<not> slug_ok (og_slug og) then Inl Err_org_db
     else if list_ex (\<lambda>r. og_id r \<noteq> og_id og \<and> og_slug r = og_slug og) (ow_orgs w) then Inl Err_unique_slug
     else Inr (w\<lparr> ow_orgs := update_where (\<lambda>r. og_id r = og_id og) (set_org og) (ow_orgs w) \<rparr>))"

text \<open>What goes with a project, and with an organization: the foreign keys that cascade.\<close>

definition drop_projects :: "(project \<Rightarrow> bool) \<Rightarrow> org_world \<Rightarrow> org_world" where
  "drop_projects p w =
     (let gone = map pj_id (filter p (ow_projects w))
      in w\<lparr> ow_projects := filter (\<lambda>r. \<not> p r) (ow_projects w),
            ow_grants := filter (\<lambda>g. snd g \<notin> set gone) (ow_grants w),
            ow_keys := filter (\<lambda>k. case ak_project k of None \<Rightarrow> True | Some q \<Rightarrow> q \<notin> set gone) (ow_keys w) \<rparr>)"

definition drop_org :: "uuid \<Rightarrow> org_world \<Rightarrow> org_world" where
  "drop_org i w =
     (let w = drop_projects (\<lambda>r. pj_org r = i) w
      in w\<lparr> ow_orgs := filter (\<lambda>r. og_id r \<noteq> i) (ow_orgs w),
            ow_members := filter (\<lambda>r. me_org r \<noteq> i) (ow_members w),
            ow_subs := filter (\<lambda>r. sb_org r \<noteq> i) (ow_subs w),
            ow_invites := filter (\<lambda>r. iv_org r \<noteq> i) (ow_invites w),
            ow_keys := filter (\<lambda>r. ak_org r \<noteq> i) (ow_keys w),
            ow_sso := filter (\<lambda>r. sx_org r \<noteq> i) (ow_sso w),
            ow_scim := filter (\<lambda>r. sm_org r \<noteq> i) (ow_scim w) \<rparr>)"

definition s_org_delete :: "org \<Rightarrow> unit org_op" where
  "s_org_delete og = exec (\<lambda>w. Inr (if og_id og \<in> og_id ` set (ow_orgs w) then drop_org (og_id og) w else w))"

definition s_org_by_id :: "uuid \<Rightarrow> org org_op" where
  "s_org_by_id i = try_op (one_row Err_org_not_found ow_orgs (\<lambda>og. og_id og = i)) org_name_ok"

definition s_org_by_slug :: "string \<Rightarrow> org org_op" where
  "s_org_by_slug slug = try_op (one_row Err_org_not_found ow_orgs (\<lambda>og. og_slug og = slug)) org_name_ok"

text \<open>The organizations a user is a member of, with the role there, oldest first.\<close>

definition user_orgs :: "org_world \<Rightarrow> uuid \<Rightarrow> (org \<times> role) list" where
  "user_orgs w u = sort_key (\<lambda>x. og_created (fst x))
     (concat (map (\<lambda>og. map (\<lambda>m. (og, me_role m)) (filter (\<lambda>m. me_org m = og_id og \<and> me_user m = u) (ow_members w))) (ow_orgs w)))"

definition s_orgs_by_user :: "uuid \<Rightarrow> (org \<times> role) list org_op" where
  "s_orgs_by_user u = org_call (\<lambda>w.
     if list_all (\<lambda>x. valid_name (og_name (fst x))) (user_orgs w u) then (Inr (user_orgs w u), w) else (Inl Err_org_db, w))"

definition s_count_owned :: "uuid \<Rightarrow> nat org_op" where
  "s_count_owned u = org_call (\<lambda>w. (Inr (length (filter (\<lambda>og. og_owner og = Some u) (ow_orgs w))), w))"

definition s_update_enabled :: "uuid \<Rightarrow> bool \<Rightarrow> unit org_op" where
  "s_update_enabled i b = exec (\<lambda>w. Inr (w\<lparr> ow_orgs := update_where (\<lambda>og. og_id og = i) (\<lambda>og. og\<lparr> og_enabled := b \<rparr>) (ow_orgs w) \<rparr>))"

subsection \<open>Members\<close>

definition s_add_member :: "org_member \<Rightarrow> unit org_op" where
  "s_add_member m = exec (\<lambda>w.
     if list_ex (\<lambda>r. me_id r = me_id m \<or> me_org r = me_org m \<and> me_user r = me_user m) (ow_members w) then Inl Err_member_exists
     else if me_org m \<notin> og_id ` set (ow_orgs w) \<or> me_user m \<notin> ac_id ` set (ow_accounts w) then Inl Err_org_db
     else Inr (w\<lparr> ow_members := ow_members w @ [m\<lparr> me_joined := pg_time (me_joined m) \<rparr>] \<rparr>))"

definition s_remove_member :: "uuid \<Rightarrow> unit org_op" where
  "s_remove_member i = exec (\<lambda>w. Inr (w\<lparr> ow_members := filter (\<lambda>m. me_id m \<noteq> i) (ow_members w) \<rparr>))"

definition s_member_role :: "uuid \<Rightarrow> role \<Rightarrow> unit org_op" where
  "s_member_role i r = exec (\<lambda>w. Inr (w\<lparr> ow_members := update_where (\<lambda>m. me_id m = i) (\<lambda>m. m\<lparr> me_role := r \<rparr>) (ow_members w) \<rparr>))"

definition s_query_members :: "uuid \<Rightarrow> org_member list org_op" where
  "s_query_members i = org_call (\<lambda>w. (Inr (sort_key me_joined (filter (\<lambda>m. me_org m = i) (ow_members w))), w))"

definition s_member_by_id :: "uuid \<Rightarrow> org_member org_op" where
  "s_member_by_id i = one_row Err_member_not_found ow_members (\<lambda>m. me_id m = i)"

record member_user =
  mu_member :: org_member
  mu_name :: string
  mu_email :: string
  mu_enabled :: bool
  mu_projects :: nat

text \<open>The join with the account, and the number of the member's grants on projects of the organization.\<close>

definition member_users :: "org_world \<Rightarrow> (org_member \<Rightarrow> bool) \<Rightarrow> member_user list" where
  "member_users w p = concat (map (\<lambda>m. map (\<lambda>a.
       \<lparr> mu_member = m, mu_name = ac_name a, mu_email = ac_email a, mu_enabled = ac_enabled a,
         mu_projects = length (filter (\<lambda>g. fst g = me_user m \<and> list_ex (\<lambda>q. pj_id q = snd g \<and> pj_org q = me_org m) (ow_projects w)) (ow_grants w)) \<rparr>)
       (filter (\<lambda>a. ac_id a = me_user m) (ow_accounts w)))
     (filter p (ow_members w)))"

definition s_members_with_users :: "uuid \<Rightarrow> member_user list org_op" where
  "s_members_with_users i = org_call (\<lambda>w.
     let ms = sort_key (\<lambda>x. me_joined (mu_member x)) (member_users w (\<lambda>m. me_org m = i))
     in if list_all (\<lambda>x. valid_name (mu_name x)) ms then (Inr ms, w) else (Inl Err_org_db, w))"

definition s_member_with_user :: "uuid \<Rightarrow> member_user org_op" where
  "s_member_with_user i = org_call (\<lambda>w.
     case member_users w (\<lambda>m. me_id m = i) of
       [] \<Rightarrow> (Inl Err_member_not_found, w)
     | x # _ \<Rightarrow> if valid_name (mu_name x) then (Inr x, w) else (Inl Err_org_db, w))"

subsection \<open>Plans and subscriptions\<close>

text \<open>
  \<open>json.Unmarshal\<close> into \<open>PlanFeatures\<close>: the struct has no tags, so a member sets the field whose
  name it has up to case, and is ignored when there is none.
\<close>

definition feature_named :: "string \<Rightarrow> (string \<times> int) list \<Rightarrow> int" where
  "feature_named f fs = foldl (\<lambda>v m. if equal_fold (fst m) f then snd m else v) 0 fs"

definition plan_features_of :: "(string \<times> int) list \<Rightarrow> plan_features" where
  "plan_features_of fs = \<lparr> pf_retention = feature_named ''LogRetentionDays'' fs,
     pf_projects = feature_named ''MaxProjects'' fs, pf_members = feature_named ''MaxMembers'' fs \<rparr>"

definition to_bus_plan :: "catalog_row \<Rightarrow> plan option" where
  "to_bus_plan r = map_option (\<lambda>slug.
     \<lparr> pn_id = pl_id r, pn_slug = slug, pn_name = pl_name r, pn_price = pl_price r, pn_stripe = of_null_str (pl_stripe r),
       pn_features = plan_features_of (pl_features r), pn_active = pl_active r \<rparr>) (parse_plan (pl_slug r))"

definition s_query_all_plans :: "plan list org_op" where
  "s_query_all_plans = org_call (\<lambda>w.
     let rows = map to_bus_plan (sort_key pl_price (filter pl_active (ow_plans w)))
     in if None \<in> set rows then (Inl Err_org_db, w) else (Inr (map the rows), w))"

definition s_plan_by_slug :: "string \<Rightarrow> plan org_op" where
  "s_plan_by_slug slug = try_op (one_row Err_org_not_found ow_plans (\<lambda>p. pl_slug p = slug))
     (\<lambda>r. case to_bus_plan r of None \<Rightarrow> fail_op Err_org_db | Some p \<Rightarrow> ret_op p)"

definition to_write_sub :: "subscription \<Rightarrow> sub_row" where
  "to_write_sub s = \<lparr> sb_id = su_id s, sb_org = su_org s, sb_plan = su_plan s, sb_status = su_status s,
     sb_customer = null_str (su_customer s), sb_stripe = null_str (su_stripe s), sb_cancel = su_cancel s,
     sb_cancelled = map_option pg_time (su_cancelled s), sb_start = map_option pg_time (su_start s),
     sb_end = map_option pg_time (su_end s), sb_created = pg_time (su_created s), sb_updated = pg_time (su_updated s) \<rparr>"

definition to_bus_sub :: "catalog_row \<Rightarrow> sub_row \<Rightarrow> subscription option" where
  "to_bus_sub p r = map_option (\<lambda>slug.
     \<lparr> su_id = sb_id r, su_org = sb_org r, su_plan = sb_plan r, su_slug = Some slug, su_name = pl_name p,
       su_features = plan_features_of (pl_features p), su_status = sb_status r,
       su_customer = of_null_str (sb_customer r), su_stripe = of_null_str (sb_stripe r), su_cancel = sb_cancel r,
       su_cancelled = sb_cancelled r, su_start = sb_start r, su_end = sb_end r,
       su_created = sb_created r, su_updated = sb_updated r \<rparr>) (parse_plan (pl_slug p))"

definition plan_exists :: "org_world \<Rightarrow> uuid \<Rightarrow> bool" where
  "plan_exists w i \<longleftrightarrow> list_ex (\<lambda>p. pl_id p = i) (ow_plans w)"

definition s_sub_create :: "subscription \<Rightarrow> unit org_op" where
  "s_sub_create s = exec (\<lambda>w.
     if list_ex (\<lambda>r. sb_id r = su_id s \<or> sb_org r = su_org s) (ow_subs w) then Inl Err_org_db
     else if su_org s \<notin> og_id ` set (ow_orgs w) \<or> \<not> plan_exists w (su_plan s) then Inl Err_org_db
     else Inr (w\<lparr> ow_subs := ow_subs w @ [to_write_sub s] \<rparr>))"

text \<open>The billing columns, which an update replaces.\<close>

definition set_billing :: "sub_row \<Rightarrow> sub_row \<Rightarrow> sub_row" where
  "set_billing s r = r\<lparr> sb_plan := sb_plan s, sb_status := sb_status s, sb_customer := sb_customer s, sb_stripe := sb_stripe s,
     sb_cancel := sb_cancel s, sb_cancelled := sb_cancelled s, sb_start := sb_start s, sb_end := sb_end s, sb_updated := sb_updated s \<rparr>"

definition s_sub_upsert :: "subscription \<Rightarrow> unit org_op" where
  "s_sub_upsert s = exec (\<lambda>w.
     if list_ex (\<lambda>r. sb_org r = su_org s) (ow_subs w)
     then (if \<not> plan_exists w (su_plan s) then Inl Err_org_db
       else Inr (w\<lparr> ow_subs := update_where (\<lambda>r. sb_org r = su_org s) (set_billing (to_write_sub s)) (ow_subs w) \<rparr>))
     else if list_ex (\<lambda>r. sb_id r = su_id s) (ow_subs w) then Inl Err_org_db
     else if su_org s \<notin> og_id ` set (ow_orgs w) \<or> \<not> plan_exists w (su_plan s) then Inl Err_org_db
     else Inr (w\<lparr> ow_subs := ow_subs w @ [to_write_sub s] \<rparr>))"

definition s_sub_update :: "subscription \<Rightarrow> unit org_op" where
  "s_sub_update s = exec (\<lambda>w.
     if list_ex (\<lambda>r. sb_id r = su_id s) (ow_subs w) \<and> \<not> plan_exists w (su_plan s) then Inl Err_org_db
     else Inr (w\<lparr> ow_subs := update_where (\<lambda>r. sb_id r = su_id s) (set_billing (to_write_sub s)) (ow_subs w) \<rparr>))"

definition sql_coalesce :: "'a option \<Rightarrow> 'a option \<Rightarrow> 'a option" where
  "sql_coalesce a b = (case a of None \<Rightarrow> b | Some x \<Rightarrow> Some x)"

definition set_by_stripe :: "sub_row \<Rightarrow> sub_row \<Rightarrow> sub_row" where
  "set_by_stripe s r = r\<lparr> sb_plan := sb_plan s, sb_status := sb_status s, sb_customer := sql_coalesce (sb_customer s) (sb_customer r),
     sb_stripe := sb_stripe s, sb_cancel := sb_cancel s, sb_cancelled := sb_cancelled s,
     sb_start := sql_coalesce (sb_start s) (sb_start r), sb_end := sql_coalesce (sb_end s) (sb_end r), sb_updated := sb_updated s \<rparr>"

definition s_sub_by_stripe :: "string \<Rightarrow> subscription \<Rightarrow> unit org_op" where
  "s_sub_by_stripe i s = exec (\<lambda>w.
     if list_ex (\<lambda>r. sb_stripe r = Some i) (ow_subs w) \<and> \<not> plan_exists w (su_plan s) then Inl Err_org_db
     else Inr (w\<lparr> ow_subs := update_where (\<lambda>r. sb_stripe r = Some i) (set_by_stripe (to_write_sub s)) (ow_subs w) \<rparr>))"

definition s_query_sub :: "uuid \<Rightarrow> subscription org_op" where
  "s_query_sub i = org_call (\<lambda>w.
     case List.find (\<lambda>r. sb_org r = i \<and> plan_exists w (sb_plan r)) (ow_subs w) of
       None \<Rightarrow> (Inl Err_org_not_found, w)
     | Some r \<Rightarrow> (case List.find (\<lambda>p. pl_id p = sb_plan r) (ow_plans w) of
         None \<Rightarrow> (Inl Err_org_not_found, w)
       | Some p \<Rightarrow> (case to_bus_sub p r of None \<Rightarrow> (Inl Err_org_db, w) | Some s \<Rightarrow> (Inr s, w))))"

end
