(* ===== verification/Accounts.thy ===== *)
theory Accounts
  imports Orgs
begin

text \<open>
  Accounts of users: the statements of \<open>userdb\<close>, the cache in front of them (\<open>usercache\<close>), the
  business layer with its audit extension (\<open>business/domain/userbus\<close>), and the password rule
  (\<open>business/types/password\<close>). The digest of a password and its check are parameters.
\<close>

subsection \<open>The table\<close>

definition stored_account :: "account \<Rightarrow> account" where
  "stored_account a = a\<lparr> ac_created := pg_time (ac_created a), ac_updated := pg_time (ac_updated a) \<rparr>"

definition s_user_create :: "account \<Rightarrow> unit org_op" where
  "s_user_create a = exec (\<lambda>w.
     if \<not> pg_text (ac_email a) then Inl Err_org_db
     else if list_ex (\<lambda>r. ac_id r = ac_id a \<or> ac_email r = ac_email a) (ow_accounts w) then Inl Err_unique_email
     else Inr (w\<lparr> ow_accounts := ow_accounts w @ [stored_account a] \<rparr>))"

definition set_account :: "account \<Rightarrow> account \<Rightarrow> account" where
  "set_account a r = r\<lparr> ac_name := ac_name a, ac_email := ac_email a, ac_roles := ac_roles a, ac_hash := ac_hash a,
     ac_enabled := ac_enabled a, ac_updated := pg_time (ac_updated a) \<rparr>"

definition s_user_update :: "account \<Rightarrow> unit org_op" where
  "s_user_update a = exec (\<lambda>w.
     if ac_id a \<notin> ac_id ` set (ow_accounts w) then Inr w
     else if \<not> pg_text (ac_email a) then Inl Err_org_db
     else if list_ex (\<lambda>r. ac_id r \<noteq> ac_id a \<and> ac_email r = ac_email a) (ow_accounts w) then Inl Err_unique_email
     else Inr (w\<lparr> ow_accounts := update_where (\<lambda>r. ac_id r = ac_id a) (set_account a) (ow_accounts w) \<rparr>))"

text \<open>
  The foreign keys on an account: memberships, grants and tokens go with it, organizations and keys
  lose their creator, and an invitation it sent keeps it from being deleted.
\<close>

definition drop_account :: "uuid \<Rightarrow> org_world \<Rightarrow> org_world" where
  "drop_account i w = w\<lparr> ow_accounts := filter (\<lambda>a. ac_id a \<noteq> i) (ow_accounts w),
     ow_members := filter (\<lambda>m. me_user m \<noteq> i) (ow_members w),
     ow_grants := filter (\<lambda>g. fst g \<noteq> i) (ow_grants w),
     ow_verify := filter (\<lambda>t. vt_user t \<noteq> i) (ow_verify w),
     ow_orgs := update_where (\<lambda>r. og_owner r = Some i) (\<lambda>r. r\<lparr> og_owner := None \<rparr>) (ow_orgs w),
     ow_keys := update_where (\<lambda>k. ak_by k = Some i) (\<lambda>k. k\<lparr> ak_by := None \<rparr>) (ow_keys w) \<rparr>"

definition s_user_delete :: "account \<Rightarrow> unit org_op" where
  "s_user_delete a = exec (\<lambda>w.
     if ac_id a \<notin> ac_id ` set (ow_accounts w) then Inr w
     else if list_ex (\<lambda>r. iv_by r = ac_id a) (ow_invites w) then Inl Err_org_db
     else Inr (drop_account (ac_id a) w))"

definition to_bus_user :: "account \<Rightarrow> account org_op" where
  "to_bus_user a = (if valid_name (ac_name a) then ret_op a else fail_op Err_org_db)"

definition s_user_by_id :: "uuid \<Rightarrow> account org_op" where
  "s_user_by_id i = try_op (one_row Err_no_account ow_accounts (\<lambda>a. ac_id a = i)) to_bus_user"

definition s_user_by_email :: "string \<Rightarrow> account org_op" where
  "s_user_by_email email = try_op (one_row Err_no_account ow_accounts (\<lambda>a. ac_email a = email)) to_bus_user"

definition s_store_verify_token :: "uuid \<Rightarrow> string \<Rightarrow> instant \<Rightarrow> unit org_op" where
  "s_store_verify_token user token expires = exec (\<lambda>w.
     if list_ex (\<lambda>t. vt_token t = token) (ow_verify w) \<or> user \<notin> ac_id ` set (ow_accounts w) then Inl Err_org_db
     else Inr (w\<lparr> ow_verify := ow_verify w @ [\<lparr> vt_token = token, vt_user = user, vt_expires = pg_time expires, vt_used = None \<rparr>] \<rparr>))"

definition s_consume_verify_token :: "string \<Rightarrow> uuid org_op" where
  "s_consume_verify_token token =
     try_op (one_row Err_token_not_found ow_verify (\<lambda>t. vt_token t = token)) (\<lambda>row.
     if vt_used row \<noteq> None then fail_op Err_token_used
     else try_op org_clock (\<lambda>now.
       if vt_expires row < now then fail_op Err_token_expired
       else try_op org_clock (\<lambda>used.
         try_op (exec (\<lambda>w. Inr (w\<lparr> ow_verify :=
           update_where (\<lambda>t. vt_token t = token) (\<lambda>t. t\<lparr> vt_used := Some (pg_time used) \<rparr>) (ow_verify w) \<rparr>))) (\<lambda>_.
         ret_op (vt_user row)))))"

subsection \<open>The cache\<close>

abbreviation user_cache_ttl :: duration where "user_cache_ttl \<equiv> go_minute"

definition read_cache :: "service \<Rightarrow> cache_key \<Rightarrow> org_world \<Rightarrow> account option" where
  "read_cache svc k w =
     (case ow_cache w svc k of None \<Rightarrow> None | Some (a, t) \<Rightarrow> if ow_now w < t then Some a else None)"

definition write_cache :: "service \<Rightarrow> account \<Rightarrow> unit org_op" where
  "write_cache svc a w =
     (let e = (a, ow_now w + user_cache_ttl)
      in (Inr (), w\<lparr> ow_cache := (ow_cache w)(svc := (ow_cache w svc)(Id_key (ac_id a) \<mapsto> e, Email_key (ac_email a) \<mapsto> e)) \<rparr>))"

definition delete_cache :: "service \<Rightarrow> account \<Rightarrow> unit org_op" where
  "delete_cache svc a w =
     (Inr (), w\<lparr> ow_cache := (ow_cache w)(svc := (ow_cache w svc)(Id_key (ac_id a) := None, Email_key (ac_email a) := None)) \<rparr>)"

definition c_user_create :: "service \<Rightarrow> account \<Rightarrow> unit org_op" where
  "c_user_create svc a = try_op (s_user_create a) (\<lambda>_. write_cache svc a)"

definition c_user_update :: "service \<Rightarrow> account \<Rightarrow> unit org_op" where
  "c_user_update svc a = try_op (s_user_update a) (\<lambda>_. write_cache svc a)"

definition c_user_delete :: "service \<Rightarrow> account \<Rightarrow> unit org_op" where
  "c_user_delete svc a = try_op (s_user_delete a) (\<lambda>_. delete_cache svc a)"

definition c_user_by_id :: "service \<Rightarrow> uuid \<Rightarrow> account org_op" where
  "c_user_by_id svc i w =
     (case read_cache svc (Id_key i) w of
        Some a \<Rightarrow> (Inr a, w)
      | None \<Rightarrow> try_op (s_user_by_id i) (\<lambda>a. try_op (write_cache svc a) (\<lambda>_. ret_op a)) w)"

definition c_user_by_email :: "service \<Rightarrow> string \<Rightarrow> account org_op" where
  "c_user_by_email svc email w =
     (case read_cache svc (Email_key email) w of
        Some a \<Rightarrow> (Inr a, w)
      | None \<Rightarrow> try_op (s_user_by_email email) (\<lambda>a. try_op (write_cache svc a) (\<lambda>_. ret_op a)) w)"

subsection \<open>Passwords\<close>

definition valid_password :: "string \<Rightarrow> bool" where
  "valid_password v \<longleftrightarrow> 3 \<le> length v \<and> length v \<le> 19
     \<and> list_all (\<lambda>c. ascii_letter c \<or> ascii_digit c \<or> c \<in> set ''#@!-'') v"

definition parse_confirm :: "string option \<Rightarrow> string option \<Rightarrow> string option" where
  "parse_confirm pass confirm =
     (case (pass, confirm) of
        (Some p, Some c) \<Rightarrow> if valid_password p \<and> p = c then Some p else None
      | _ \<Rightarrow> None)"

subsection \<open>The business layer\<close>

record new_user =
  nu_name :: string
  nu_email :: string
  nu_roles :: "role list"
  nu_password :: string

definition user_create :: "(string \<Rightarrow> string option) \<Rightarrow> uuid \<Rightarrow> new_user \<Rightarrow> account org_op" where
  "user_create digest actor nu =
     (case digest (nu_password nu) of
        None \<Rightarrow> fail_op Err_auth_failure
      | Some h \<Rightarrow> try_op org_clock (\<lambda>now. try_op org_fresh (\<lambda>i.
          let a = \<lparr> ac_id = i, ac_name = nu_name nu, ac_email = nu_email nu, ac_hash = h, ac_roles = nu_roles nu,
            ac_enabled = False, ac_created = now, ac_updated = now \<rparr>
          in try_op (c_user_create Ingest_service a) (\<lambda>_.
            try_op (org_audit uuid_nil i (nu_name nu) actor ''user.created'') (\<lambda>_. ret_op a)))))"

text \<open>Roles that are given replace the old ones when there is at least a list of them.\<close>

record update_user =
  uu_name :: "string option"
  uu_email :: "string option"
  uu_roles :: "role list option"
  uu_password :: "string option"
  uu_enabled :: "bool option"

definition user_update :: "(string \<Rightarrow> string option) \<Rightarrow> uuid \<Rightarrow> account \<Rightarrow> update_user \<Rightarrow> account org_op" where
  "user_update digest actor a uu =
     (case (case uu_password uu of None \<Rightarrow> Some (ac_hash a) | Some p \<Rightarrow> digest p) of
        None \<Rightarrow> fail_op Err_auth_failure
      | Some h \<Rightarrow> try_op org_clock (\<lambda>now.
          let a = a\<lparr> ac_name := (case uu_name uu of None \<Rightarrow> ac_name a | Some v \<Rightarrow> v),
            ac_email := (case uu_email uu of None \<Rightarrow> ac_email a | Some v \<Rightarrow> v),
            ac_roles := (case uu_roles uu of None \<Rightarrow> ac_roles a | Some v \<Rightarrow> v), ac_hash := h,
            ac_enabled := (case uu_enabled uu of None \<Rightarrow> ac_enabled a | Some v \<Rightarrow> v), ac_updated := now \<rparr>
          in try_op (c_user_update Ingest_service a) (\<lambda>_.
            try_op (org_audit uuid_nil (ac_id a) (ac_name a) actor ''user.updated'') (\<lambda>_. ret_op a))))"

text \<open>No domain registers a function for the deletion of a user.\<close>

definition user_delete :: "uuid \<Rightarrow> account \<Rightarrow> unit org_op" where
  "user_delete actor a =
     try_op (c_user_delete Ingest_service a) (\<lambda>_. org_audit uuid_nil (ac_id a) (ac_name a) actor ''user.deleted'')"

definition user_authenticate :: "(string \<Rightarrow> string \<Rightarrow> bool) \<Rightarrow> service \<Rightarrow> string \<Rightarrow> string \<Rightarrow> account org_op" where
  "user_authenticate matches svc email password =
     try_op (c_user_by_email svc email) (\<lambda>a.
     if matches (ac_hash a) password then ret_op a else fail_op Err_auth_failure)"

definition user_activate :: "uuid \<Rightarrow> unit org_op" where
  "user_activate i =
     try_op (c_user_by_id Ingest_service i) (\<lambda>a.
     if ac_enabled a then ret_op () else c_user_update Ingest_service (a\<lparr> ac_enabled := True \<rparr>))"

end
