(* ===== verification/OrgBus.thy ===== *)
theory OrgBus
  imports Accounts
begin

text \<open>
  The business layers over the tables of organizations, each with the audit extension the service
  wraps it in: organizations and members (\<open>business/domain/orgbus\<close>), projects and the grants on them
  (\<open>business/domain/projectbus\<close>, \<open>projectdb\<close>), invitations (\<open>business/domain/invitationbus\<close>,
  \<open>invitationdb\<close>). The content of an audit record beyond its subject, actor and action is left out.
\<close>

subsection \<open>Organizations\<close>

abbreviation max_orgs_per_user :: nat where "max_orgs_per_user \<equiv> 3"

definition org_create :: "uuid \<Rightarrow> string \<Rightarrow> string \<Rightarrow> org org_op" where
  "org_create actor name slug =
     try_op (s_count_owned actor) (\<lambda>owned.
     if max_orgs_per_user \<le> owned then fail_op Err_org_limit
     else try_op org_clock (\<lambda>now. try_op org_fresh (\<lambda>i.
       let org = \<lparr> og_id = i, og_name = name, og_slug = slug, og_enabled = True, og_owner = Some actor,
         og_created = now, og_updated = now \<rparr> in
       try_op (s_org_create org) (\<lambda>_. try_op org_fresh (\<lambda>m.
       try_op (s_add_member \<lparr> me_id = m, me_org = i, me_user = actor, me_role = OrgAdmin, me_joined = now \<rparr>) (\<lambda>_.
       try_op (s_plan_by_slug ''free'') (\<lambda>free. try_op org_fresh (\<lambda>s.
       try_op (s_sub_create \<lparr> su_id = s, su_org = i, su_plan = pn_id free, su_slug = None, su_name = [],
         su_features = \<lparr> pf_retention = 0, pf_projects = 0, pf_members = 0 \<rparr>, su_status = StatusActive,
         su_customer = [], su_stripe = [], su_cancel = False, su_cancelled = None, su_start = None, su_end = None,
         su_created = now, su_updated = now \<rparr>) (\<lambda>_. ret_op org)))))))))"

definition ext_org_create :: "uuid \<Rightarrow> string \<Rightarrow> string \<Rightarrow> org org_op" where
  "ext_org_create actor name slug =
     try_op (org_create actor name slug) (\<lambda>org.
     try_op (org_audit (og_id org) (og_id org) (og_name org) actor ''org.created'') (\<lambda>_. ret_op org))"

record update_org =
  uo_name :: "string option"
  uo_slug :: "string option"
  uo_enabled :: "bool option"

definition or_else :: "'a option \<Rightarrow> 'a \<Rightarrow> 'a" where
  "or_else v d = (case v of None \<Rightarrow> d | Some x \<Rightarrow> x)"

definition org_update :: "org \<Rightarrow> update_org \<Rightarrow> org org_op" where
  "org_update org uu =
     try_op org_clock (\<lambda>now.
     let org = org\<lparr> og_name := or_else (uo_name uu) (og_name org), og_slug := or_else (uo_slug uu) (og_slug org),
       og_enabled := or_else (uo_enabled uu) (og_enabled org), og_updated := now \<rparr>
     in try_op (s_org_update org) (\<lambda>_. ret_op org))"

definition ext_org_update :: "uuid \<Rightarrow> org \<Rightarrow> update_org \<Rightarrow> org org_op" where
  "ext_org_update actor org uu =
     try_op (org_update org uu) (\<lambda>org.
     try_op (org_audit (og_id org) (og_id org) (og_name org) actor
       (if uo_name uu \<noteq> None \<and> uo_slug uu = None \<and> uo_enabled uu = None then ''org.renamed'' else ''org.updated''))
     (\<lambda>_. ret_op org))"

definition ext_org_delete :: "uuid \<Rightarrow> org \<Rightarrow> unit org_op" where
  "ext_org_delete actor org =
     try_op (s_org_delete org) (\<lambda>_. org_audit (og_id org) (og_id org) (og_name org) actor ''org.deleted'')"

definition org_activate :: "uuid \<Rightarrow> unit org_op" where
  "org_activate i = s_update_enabled i True"

text \<open>The audit record of a suspension names the organization as the actor.\<close>

definition ext_org_suspend :: "uuid \<Rightarrow> unit org_op" where
  "ext_org_suspend i =
     try_op (s_org_by_id i) (\<lambda>org. try_op (s_update_enabled i False) (\<lambda>_.
       org_audit (og_id org) (og_id org) (og_name org) i ''org.suspended''))"

subsection \<open>Members\<close>

definition add_member :: "uuid \<Rightarrow> uuid \<Rightarrow> role \<Rightarrow> org_member org_op" where
  "add_member org user r =
     try_op org_fresh (\<lambda>i. try_op org_clock (\<lambda>now.
       let m = \<lparr> me_id = i, me_org = org, me_user = user, me_role = r, me_joined = now \<rparr>
       in try_op (s_add_member m) (\<lambda>_. ret_op m)))"

definition ext_add_member :: "uuid \<Rightarrow> uuid \<Rightarrow> uuid \<Rightarrow> role \<Rightarrow> org_member org_op" where
  "ext_add_member actor org user r =
     try_op (add_member org user r) (\<lambda>m. try_op (s_org_by_id org) (\<lambda>og.
       try_op (org_audit org (me_id m) (og_name og) actor ''user.joined'') (\<lambda>_. ret_op m)))"

definition ext_remove_member :: "uuid \<Rightarrow> uuid \<Rightarrow> unit org_op" where
  "ext_remove_member actor i =
     try_op (s_member_with_user i) (\<lambda>m. try_op (s_org_by_id (me_org (mu_member m))) (\<lambda>og.
       try_op (s_remove_member i) (\<lambda>_. org_audit (me_org (mu_member m)) i (og_name og) actor ''user.removed'')))"

definition update_member_role :: "uuid \<Rightarrow> role \<Rightarrow> org_member org_op" where
  "update_member_role i r = try_op (s_member_role i r) (\<lambda>_. s_member_by_id i)"

definition ext_update_member_role :: "uuid \<Rightarrow> uuid \<Rightarrow> role \<Rightarrow> org_member org_op" where
  "ext_update_member_role actor i r =
     try_op (s_member_by_id i) (\<lambda>before. try_op (update_member_role i r) (\<lambda>m.
       try_op (s_org_by_id (me_org m)) (\<lambda>og.
       try_op (org_audit (me_org m) i (og_name og) actor ''user.role_changed'') (\<lambda>_. ret_op m))))"

subsection \<open>Subscriptions\<close>

definition ext_create_subscription :: "uuid \<Rightarrow> uuid \<Rightarrow> uuid \<Rightarrow> sub_status \<Rightarrow> subscription org_op" where
  "ext_create_subscription actor org plan status =
     try_op org_clock (\<lambda>now. try_op org_fresh (\<lambda>i.
     let s = \<lparr> su_id = i, su_org = org, su_plan = plan, su_slug = None, su_name = [],
       su_features = \<lparr> pf_retention = 0, pf_projects = 0, pf_members = 0 \<rparr>, su_status = status,
       su_customer = [], su_stripe = [], su_cancel = False, su_cancelled = None, su_start = None, su_end = None,
       su_created = now, su_updated = now \<rparr>
     in try_op (s_sub_create s) (\<lambda>_. try_op (s_org_by_id org) (\<lambda>og.
       try_op (org_audit org i (og_name og) actor ''subscription_created'') (\<lambda>_. ret_op s)))))"

record update_subscription =
  us_plan :: "uuid option"
  us_status :: "sub_status option"
  us_customer :: "string option"
  us_stripe :: "string option"
  us_cancel :: "bool option"
  us_cancelled :: "instant option"
  us_start :: "instant option"
  us_end :: "instant option"

definition apply_subscription :: "update_subscription \<Rightarrow> instant \<Rightarrow> subscription \<Rightarrow> subscription" where
  "apply_subscription us now s = s\<lparr> su_plan := or_else (us_plan us) (su_plan s), su_status := or_else (us_status us) (su_status s),
     su_customer := or_else (us_customer us) (su_customer s), su_stripe := or_else (us_stripe us) (su_stripe s),
     su_cancel := or_else (us_cancel us) (su_cancel s), su_cancelled := sql_coalesce (us_cancelled us) (su_cancelled s),
     su_start := sql_coalesce (us_start us) (su_start s), su_end := sql_coalesce (us_end us) (su_end s), su_updated := now \<rparr>"

definition ext_update_subscription :: "uuid \<Rightarrow> subscription \<Rightarrow> update_subscription \<Rightarrow> subscription org_op" where
  "ext_update_subscription actor sub us =
     try_op org_clock (\<lambda>now.
     let s = apply_subscription us now sub
     in try_op (s_sub_update s) (\<lambda>_. try_op (s_org_by_id (su_org s)) (\<lambda>og.
       try_op (org_audit (su_org s) (su_id s) (og_name og) actor ''subscription_updated'') (\<lambda>_. ret_op s))))"

subsection \<open>Projects\<close>

definition color_ok :: "string \<Rightarrow> bool" where
  "color_ok v \<longleftrightarrow> length v = 7 \<and> hd v = CHR ''#''
     \<and> list_all (\<lambda>c. ascii_digit c \<or> between 97 c 102 \<or> between 65 c 70) (tl v)"

definition project_ok :: "project \<Rightarrow> bool" where
  "project_ok p \<longleftrightarrow> color_ok (pj_color p) \<and> pg_text (pj_name p)
     \<and> (case pj_retention p of None \<Rightarrow> True | Some n \<Rightarrow> - (2 ^ 31) \<le> n \<and> n < 2 ^ 31)"

definition s_project_create :: "project \<Rightarrow> unit org_op" where
  "s_project_create p = exec (\<lambda>w.
     if \<not> project_ok p then Inl Err_org_db
     else if list_ex (\<lambda>r. pj_id r = pj_id p \<or> pj_org r = pj_org p \<and> pj_name r = pj_name p) (ow_projects w) then Inl Err_project_name
     else if pj_org p \<notin> og_id ` set (ow_orgs w) then Inl Err_org_db
     else Inr (w\<lparr> ow_projects := ow_projects w @ [p\<lparr> pj_created := pg_time (pj_created p), pj_updated := pg_time (pj_updated p) \<rparr>] \<rparr>))"

definition set_project :: "project \<Rightarrow> project \<Rightarrow> project" where
  "set_project p r = r\<lparr> pj_name := pj_name p, pj_color := pj_color p, pj_retention := pj_retention p, pj_updated := pg_time (pj_updated p) \<rparr>"

text \<open>A name that another project of the organization has is an error without a name here.\<close>

definition s_project_update :: "project \<Rightarrow> unit org_op" where
  "s_project_update p = exec (\<lambda>w.
     case List.find (\<lambda>r. pj_id r = pj_id p) (ow_projects w) of
       None \<Rightarrow> Inr w
     | Some old \<Rightarrow>
         if \<not> project_ok p then Inl Err_org_db
         else if list_ex (\<lambda>r. pj_id r \<noteq> pj_id p \<and> pj_org r = pj_org old \<and> pj_name r = pj_name p) (ow_projects w) then Inl Err_org_db
         else Inr (w\<lparr> ow_projects := update_where (\<lambda>r. pj_id r = pj_id p) (set_project p) (ow_projects w) \<rparr>))"

definition s_project_delete :: "project \<Rightarrow> unit org_op" where
  "s_project_delete p = exec (\<lambda>w. Inr (drop_projects (\<lambda>r. pj_id r = pj_id p) w))"

definition s_project :: "uuid \<Rightarrow> project org_op" where
  "s_project i = one_row Err_no_project ow_projects (\<lambda>p. pj_id p = i)"

definition projects_where :: "(org_world \<Rightarrow> project \<Rightarrow> bool) \<Rightarrow> project list org_op" where
  "projects_where p = org_call (\<lambda>w. (Inr (sort_key pj_created (filter (p w) (ow_projects w))), w))"

definition s_projects_by_org :: "uuid \<Rightarrow> project list org_op" where
  "s_projects_by_org org = projects_where (\<lambda>w p. pj_org p = org)"

definition s_grant :: "uuid \<Rightarrow> uuid \<Rightarrow> unit org_op" where
  "s_grant user p = exec (\<lambda>w.
     if (user, p) \<in> set (ow_grants w) then Inr w
     else if user \<notin> ac_id ` set (ow_accounts w) \<or> p \<notin> pj_id ` set (ow_projects w) then Inl Err_org_db
     else Inr (w\<lparr> ow_grants := ow_grants w @ [(user, p)] \<rparr>))"

text \<open>The three statements write their predicate out each.\<close>

definition admin_of :: "org_world \<Rightarrow> uuid \<Rightarrow> uuid \<Rightarrow> bool" where
  "admin_of w user org \<longleftrightarrow> list_ex (\<lambda>m. me_org m = org \<and> me_user m = user \<and> me_role m \<in> {OrgAdmin, Admin}) (ow_members w)"

definition s_has_access :: "uuid \<Rightarrow> uuid \<Rightarrow> bool org_op" where
  "s_has_access user i = org_call (\<lambda>w. (Inr (list_ex (\<lambda>p. pj_id p = i
     \<and> (admin_of w user (pj_org p) \<or> list_ex (\<lambda>g. snd g = pj_id p \<and> fst g = user) (ow_grants w))) (ow_projects w)), w))"

definition s_query_accessible :: "uuid \<Rightarrow> uuid \<Rightarrow> project list org_op" where
  "s_query_accessible org user = projects_where (\<lambda>w p. pj_org p = org
     \<and> (admin_of w user (pj_org p) \<or> list_ex (\<lambda>g. snd g = pj_id p \<and> fst g = user) (ow_grants w)))"

definition s_visible_by_org :: "uuid \<Rightarrow> uuid \<Rightarrow> project list org_op" where
  "s_visible_by_org org user = projects_where (\<lambda>w p. pj_org p = org
     \<and> (admin_of w user (pj_org p) \<or> list_ex (\<lambda>g. snd g = pj_id p \<and> fst g = user) (ow_grants w)))"

definition s_project_org_enabled :: "uuid \<Rightarrow> bool org_op" where
  "s_project_org_enabled i = org_call (\<lambda>w.
     case List.find (\<lambda>p. pj_id p = i) (ow_projects w) of
       None \<Rightarrow> (Inl Err_no_project, w)
     | Some p \<Rightarrow> (case List.find (\<lambda>og. og_id og = pj_org p) (ow_orgs w) of
         None \<Rightarrow> (Inl Err_no_project, w)
       | Some og \<Rightarrow> (Inr (og_enabled og), w)))"

definition ext_project_create :: "uuid \<Rightarrow> uuid \<Rightarrow> string \<Rightarrow> string \<Rightarrow> project org_op" where
  "ext_project_create actor org name color =
     try_op org_clock (\<lambda>now. try_op org_fresh (\<lambda>i.
     let p = \<lparr> pj_id = i, pj_org = org, pj_name = name, pj_color = color, pj_retention = None, pj_created = now, pj_updated = now \<rparr>
     in try_op (s_project_create p) (\<lambda>_. try_op (org_audit org i name actor ''project.created'') (\<lambda>_. ret_op p))))"

record update_project =
  up_name :: "string option"
  up_color :: "string option"
  up_retention :: "int option option"

definition project_action :: "update_project \<Rightarrow> string" where
  "project_action up =
     (case (up_name up, up_color up, up_retention up) of
        (Some _, None, None) \<Rightarrow> ''project.renamed''
      | (None, Some _, None) \<Rightarrow> ''project.color_updated''
      | (None, None, Some _) \<Rightarrow> ''project.retention_updated''
      | _ \<Rightarrow> ''project.updated'')"

definition ext_project_update :: "uuid \<Rightarrow> project \<Rightarrow> update_project \<Rightarrow> project org_op" where
  "ext_project_update actor p up =
     try_op org_clock (\<lambda>now.
     let p = p\<lparr> pj_name := or_else (up_name up) (pj_name p), pj_color := or_else (up_color up) (pj_color p),
       pj_retention := or_else (up_retention up) (pj_retention p), pj_updated := now \<rparr>
     in try_op (s_project_update p) (\<lambda>_.
       try_op (org_audit (pj_org p) (pj_id p) (pj_name p) actor (project_action up)) (\<lambda>_. ret_op p)))"

definition ext_project_delete :: "uuid \<Rightarrow> project \<Rightarrow> unit org_op" where
  "ext_project_delete actor p =
     try_op (s_project_delete p) (\<lambda>_. org_audit (pj_org p) (pj_id p) (pj_name p) actor ''project.deleted'')"

definition ext_grant_access :: "uuid \<Rightarrow> uuid \<Rightarrow> uuid \<Rightarrow> unit org_op" where
  "ext_grant_access actor user i =
     try_op (s_grant user i) (\<lambda>_. try_op (s_project i) (\<lambda>p.
       org_audit (pj_org p) i (pj_name p) actor ''project.access_granted''))"

subsection \<open>Invitations\<close>

definition s_invite_create :: "invitation \<Rightarrow> unit org_op" where
  "s_invite_create iv = exec (\<lambda>w.
     if \<not> pg_text (iv_email iv) \<or> \<not> pg_text (iv_token iv) then Inl Err_org_db
     else if list_ex (\<lambda>r. iv_id r = iv_id iv \<or> iv_token r = iv_token iv) (ow_invites w) then Inl Err_org_db
     else if iv_org iv \<notin> og_id ` set (ow_orgs w) \<or> iv_by iv \<notin> ac_id ` set (ow_accounts w) then Inl Err_org_db
     else Inr (w\<lparr> ow_invites := ow_invites w @ [iv\<lparr> iv_accepted := map_option pg_time (iv_accepted iv),
       iv_expires := pg_time (iv_expires iv), iv_created := pg_time (iv_created iv) \<rparr>] \<rparr>))"

definition s_invite_by_id :: "uuid \<Rightarrow> invitation org_op" where
  "s_invite_by_id i = one_row Err_no_invitation ow_invites (\<lambda>r. iv_id r = i)"

definition s_invite_by_token :: "string \<Rightarrow> invitation org_op" where
  "s_invite_by_token t = one_row Err_no_invitation ow_invites (\<lambda>r. iv_token r = t)"

definition s_invites_by_org :: "uuid \<Rightarrow> invitation list org_op" where
  "s_invites_by_org org = org_call (\<lambda>w. (Inr (sort_key (\<lambda>r. - iv_created r) (filter (\<lambda>r. iv_org r = org) (ow_invites w))), w))"

definition s_invite_delete :: "uuid \<Rightarrow> unit org_op" where
  "s_invite_delete i = exec (\<lambda>w. Inr (w\<lparr> ow_invites := filter (\<lambda>r. iv_id r \<noteq> i) (ow_invites w) \<rparr>))"

definition s_mark_accepted :: "uuid \<Rightarrow> instant \<Rightarrow> unit org_op" where
  "s_mark_accepted i t = exec (\<lambda>w. Inr (w\<lparr> ow_invites :=
     update_where (\<lambda>r. iv_id r = i) (\<lambda>r. r\<lparr> iv_accepted := Some (pg_time t) \<rparr>) (ow_invites w) \<rparr>))"

record new_invitation =
  ni_org :: uuid
  ni_email :: string
  ni_role :: role
  ni_token :: string
  ni_projects :: "uuid list"
  ni_expires :: instant

definition ext_invite_create :: "uuid \<Rightarrow> new_invitation \<Rightarrow> invitation org_op" where
  "ext_invite_create actor ni =
     try_op org_fresh (\<lambda>i. try_op org_clock (\<lambda>now.
     let iv = \<lparr> iv_id = i, iv_org = ni_org ni, iv_email = ni_email ni, iv_role = ni_role ni, iv_token = ni_token ni,
       iv_by = actor, iv_projects = ni_projects ni, iv_accepted = None, iv_expires = ni_expires ni, iv_created = now \<rparr>
     in try_op (s_invite_create iv) (\<lambda>_.
       try_op (org_audit (ni_org ni) i (ni_email ni) actor ''user.invited'') (\<lambda>_. ret_op iv))))"

definition invite_revoke :: "uuid \<Rightarrow> unit org_op" where
  "invite_revoke i =
     try_op (s_invite_by_id i) (\<lambda>iv. if iv_accepted iv \<noteq> None then fail_op Err_already_used else s_invite_delete i)"

definition ext_invite_revoke :: "uuid \<Rightarrow> uuid \<Rightarrow> unit org_op" where
  "ext_invite_revoke actor i =
     try_op (s_invite_by_id i) (\<lambda>iv. try_op (invite_revoke i) (\<lambda>_.
       org_audit (iv_org iv) i (iv_email iv) actor ''user.invite_cancelled''))"

end
