(* ===== verification/Auth.thy ===== *)
theory Auth
  imports Accounts
begin

text \<open>
  Who a request comes from: signed tokens (\<open>app/sdk/auth/auth.go\<close> with the policies under \<open>rego/\<close>),
  the middleware that authenticates and authorizes with them (\<open>app/sdk/mid/authen.go\<close>,
  \<open>authorize.go\<close>), the handlers of the token service (\<open>app/domain/authapp\<close>) and of accounts
  (\<open>app/domain/userapp\<close>). Signing, decoding and verifying a token, the texts of identifiers and the
  grammar of addresses are parameters.
\<close>

subsection \<open>Answers\<close>

datatype api_error =
    Api_invalid_argument | Api_not_found | Api_internal | Api_unauthenticated | Api_permission_denied | Api_aborted
  | Api_slug_taken | Api_org_limit_reached | Api_cannot_modify_owner | Api_last_org_admin | Api_confirmation_required
  | Api_other_admins_exist | Api_retention_exceeds_plan | Api_key_expired | Api_org_suspended

type_synonym 'a api = "(org_world, api_error, 'a) op"

definition answer :: "(org_error \<Rightarrow> api_error) \<Rightarrow> 'a org_op \<Rightarrow> 'a api" where
  "answer code m = case_op m (\<lambda>e. fail_op (code e)) ret_op"

definition not_found_on :: "org_error \<Rightarrow> org_error \<Rightarrow> api_error" where
  "not_found_on e e' = (if e' = e then Api_not_found else Api_internal)"

definition param_id :: "(string \<Rightarrow> uuid option) \<Rightarrow> string \<Rightarrow> uuid api" where
  "param_id parse v = (case parse v of None \<Rightarrow> fail_op Api_invalid_argument | Some i \<Rightarrow> ret_op i)"

subsection \<open>Tokens\<close>

text \<open>
  The payload of a token: one JSON object, of which a session, an invitation and a verification each
  read the members they know. A member that is absent is empty.
\<close>

record jwt =
  jw_subject :: string
  jw_issuer :: string
  jw_expires :: instant
  jw_issued :: instant
  jw_roles :: "string list"
  jw_type :: string
  jw_org :: string
  jw_email :: string
  jw_role :: string
  jw_projects :: "string list"

text \<open>
  The library and its configuration: the token of a payload under a key id, the key id (if there is
  one that is a text) and the payload of a token, the public key of a key id, whether a token is
  signed with a key, the issuer, and the text of an identifier and its parser.
\<close>

record token_lib =
  tl_sign :: "string \<Rightarrow> jwt \<Rightarrow> string option"
  tl_decode :: "string \<Rightarrow> (string option \<times> jwt) option"
  tl_public :: "string \<Rightarrow> string option"
  tl_signed :: "string \<Rightarrow> string \<Rightarrow> bool"
  tl_issuer :: string
  tl_show :: "uuid \<Rightarrow> string"
  tl_uuid :: "string \<Rightarrow> uuid option"

definition generate_token :: "token_lib \<Rightarrow> string \<Rightarrow> jwt \<Rightarrow> string option" where
  "generate_token lib kid p = tl_sign lib kid p"

text \<open>\<open>authentication.rego\<close>: the signature, the issuer and the expiry.\<close>

definition rego_authentication :: "token_lib \<Rightarrow> string \<Rightarrow> string \<Rightarrow> jwt \<Rightarrow> instant \<Rightarrow> bool" where
  "rego_authentication lib key token p now \<longleftrightarrow>
     tl_signed lib key token \<and> jw_issuer p = tl_issuer lib \<and> now < jw_expires p"

text \<open>The steps the three functions that read a token share.\<close>

definition verified_token :: "token_lib \<Rightarrow> string \<Rightarrow> jwt org_op" where
  "verified_token lib token =
     (case tl_decode lib token of
        None \<Rightarrow> fail_op Err_auth_failure
      | Some (None, p) \<Rightarrow> fail_op Err_auth_failure
      | Some (Some kid, p) \<Rightarrow> (case tl_public lib kid of
          None \<Rightarrow> fail_op Err_auth_failure
        | Some key \<Rightarrow> try_op org_clock (\<lambda>now.
            if rego_authentication lib key token p now then ret_op p else fail_op Err_auth_failure)))"

text \<open>The question put to the database is answered by the cache of the process.\<close>

definition is_user_enabled :: "token_lib \<Rightarrow> service \<Rightarrow> jwt \<Rightarrow> unit org_op" where
  "is_user_enabled lib svc p =
     (case tl_uuid lib (jw_subject p) of
        None \<Rightarrow> fail_op Err_auth_failure
      | Some i \<Rightarrow> try_op (c_user_by_id svc i) (\<lambda>a. if ac_enabled a then ret_op () else fail_op Err_auth_failure))"

abbreviation bearer :: string where "bearer \<equiv> ''Bearer ''"

definition authenticate :: "token_lib \<Rightarrow> service \<Rightarrow> string \<Rightarrow> jwt org_op" where
  "authenticate lib svc header =
     (if \<not> has_prefix header bearer then fail_op Err_auth_failure
      else try_op (verified_token lib (drop 7 header)) (\<lambda>p.
        try_op (is_user_enabled lib svc p) (\<lambda>_. ret_op p)))"

abbreviation invite_token_type :: string where "invite_token_type \<equiv> ''invite''"

definition generate_invite_token :: "token_lib \<Rightarrow> string \<Rightarrow> jwt \<Rightarrow> string option" where
  "generate_invite_token lib kid p = tl_sign lib kid p"

definition parse_invite_token :: "token_lib \<Rightarrow> string \<Rightarrow> jwt org_op" where
  "parse_invite_token lib token =
     try_op (verified_token lib token) (\<lambda>p. if jw_type p = invite_token_type then ret_op p else fail_op Err_auth_failure)"

definition parse_verify_token :: "token_lib \<Rightarrow> string \<Rightarrow> jwt org_op" where
  "parse_verify_token lib token = verified_token lib token"

subsection \<open>Rules on the roles of a token\<close>

datatype auth_rule =
  RuleAny | RuleViewerOnly | RuleProjectManagerOnly | RuleOrgAdminOnly | RuleAdminOnly | RuleAdminOrSubject

text \<open>\<open>authorization.rego\<close>.\<close>

fun rego_authorization :: "auth_rule \<Rightarrow> string list \<Rightarrow> string \<Rightarrow> string \<Rightarrow> bool" where
  "rego_authorization RuleAny roles subject user = list_ex (\<lambda>r. role_string r \<in> set roles) [User, PrjManager, OrgAdmin, Admin]"
| "rego_authorization RuleViewerOnly roles subject user = (role_string User \<in> set roles \<or> role_string Admin \<in> set roles)"
| "rego_authorization RuleProjectManagerOnly roles subject user = (role_string PrjManager \<in> set roles \<or> role_string Admin \<in> set roles)"
| "rego_authorization RuleOrgAdminOnly roles subject user = (role_string OrgAdmin \<in> set roles \<or> role_string Admin \<in> set roles)"
| "rego_authorization RuleAdminOnly roles subject user = (role_string Admin \<in> set roles)"
| "rego_authorization RuleAdminOrSubject roles subject user = (role_string Admin \<in> set roles
     \<or> list_ex (\<lambda>r. role_string r \<in> set roles) [User, PrjManager, OrgAdmin, Admin] \<and> user = subject)"

subsection \<open>The caller\<close>

text \<open>What the request context holds: the user id, the roles of the token, and its subject (nil when it does not parse).\<close>

record caller =
  cl_user :: "uuid option"
  cl_subject :: uuid
  cl_roles :: "string list"

definition has_role :: "caller \<Rightarrow> role \<Rightarrow> bool" where
  "has_role c r \<longleftrightarrow> list_ex (\<lambda>v. v = role_string r) (cl_roles c)"

definition user_id :: "caller \<Rightarrow> uuid api" where
  "user_id c = (case cl_user c of None \<Rightarrow> fail_op Api_unauthenticated | Some u \<Rightarrow> ret_op u)"

definition handle_authentication :: "token_lib \<Rightarrow> service \<Rightarrow> string \<Rightarrow> caller api" where
  "handle_authentication lib svc header =
     try_op (answer (\<lambda>_. Api_unauthenticated) (authenticate lib svc header)) (\<lambda>p.
     if jw_subject p = [] then fail_op Api_unauthenticated
     else case tl_uuid lib (jw_subject p) of
       None \<Rightarrow> fail_op Api_unauthenticated
     | Some i \<Rightarrow> ret_op \<lparr> cl_user = Some i, cl_subject = i, cl_roles = jw_roles p \<rparr>)"

text \<open>A call from one service to the other, which may fail.\<close>

definition auth_call :: "(org_error \<Rightarrow> api_error) \<Rightarrow> unit api" where
  "auth_call code = answer code (org_call (ret_op ()))"

definition mid_authenticate :: "token_lib \<Rightarrow> string \<Rightarrow> (caller \<Rightarrow> 'a api) \<Rightarrow> 'a api" where
  "mid_authenticate lib header next =
     try_op (auth_call (\<lambda>_. Api_unauthenticated)) (\<lambda>_. try_op (handle_authentication lib Auth_service header) next)"

definition subject_text :: "token_lib \<Rightarrow> caller \<Rightarrow> string" where
  "subject_text lib c = tl_show lib (cl_subject c)"

definition authorize_rule :: "token_lib \<Rightarrow> auth_rule \<Rightarrow> caller \<Rightarrow> uuid \<Rightarrow> unit api" where
  "authorize_rule lib rule c user =
     try_op (auth_call (\<lambda>_. Api_permission_denied)) (\<lambda>_.
     if rego_authorization rule (cl_roles c) (subject_text lib c) (tl_show lib user) then ret_op ()
     else fail_op Api_permission_denied)"

definition mid_authorize :: "token_lib \<Rightarrow> auth_rule \<Rightarrow> caller \<Rightarrow> 'a api \<Rightarrow> 'a api" where
  "mid_authorize lib rule c next =
     try_op (user_id c) (\<lambda>u. try_op (authorize_rule lib rule c u) (\<lambda>_. next))"

text \<open>The account of the path, if there is one in it, goes to the handler.\<close>

definition mid_authorize_user :: "token_lib \<Rightarrow> auth_rule \<Rightarrow> caller \<Rightarrow> string \<Rightarrow> (account option \<Rightarrow> 'a api) \<Rightarrow> 'a api" where
  "mid_authorize_user lib rule c user_param next =
     try_op (if user_param = [] then ret_op None
       else try_op (param_id (tl_uuid lib) user_param) (\<lambda>i.
         try_op (answer (not_found_on Err_no_account) (c_user_by_id Ingest_service i)) (\<lambda>a. ret_op (Some (i, a))))) (\<lambda>x.
     try_op (authorize_rule lib rule c (case x of None \<Rightarrow> uuid_nil | Some (i, a) \<Rightarrow> i)) (\<lambda>_.
     next (map_option snd x)))"

subsection \<open>Basic authentication and the token of a session\<close>

text \<open>\<open>base64\<close> is the decoder; the header has exactly two parts around one blank.\<close>

definition parse_basic_auth :: "(string \<Rightarrow> string option) \<Rightarrow> string \<Rightarrow> (string \<times> string) option" where
  "parse_basic_auth base64 header =
     (let scheme = takeWhile (\<lambda>c. c \<noteq> CHR '' '') header; rest = dropWhile (\<lambda>c. c \<noteq> CHR '' '') header in
      if rest = [] \<or> CHR '' '' \<in> set (tl rest) \<or> scheme \<noteq> ''Basic'' then None
      else Option.bind (base64 (tl rest)) (\<lambda>v.
        if CHR '':'' \<notin> set v then None
        else Some (takeWhile (\<lambda>c. c \<noteq> CHR '':'') v, tl (dropWhile (\<lambda>c. c \<noteq> CHR '':'') v))))"

abbreviation session_life :: duration where "session_life \<equiv> 8760 * go_hour"

definition no_claims :: "token_lib \<Rightarrow> jwt" where
  "no_claims lib = \<lparr> jw_subject = [], jw_issuer = tl_issuer lib, jw_expires = 0, jw_issued = 0, jw_roles = [], jw_type = [],
     jw_org = [], jw_email = [], jw_role = [], jw_projects = [] \<rparr>"

definition handle_authorization ::
  "token_lib \<Rightarrow> (string \<Rightarrow> string option) \<Rightarrow> (string \<Rightarrow> string option) \<Rightarrow> (string \<Rightarrow> string \<Rightarrow> bool) \<Rightarrow> service \<Rightarrow>
    string \<Rightarrow> jwt api" where
  "handle_authorization lib base64 address matches svc header =
     (case parse_basic_auth base64 header of
        None \<Rightarrow> fail_op Api_unauthenticated
      | Some (email, pass) \<Rightarrow> (case address email of
          None \<Rightarrow> fail_op Api_unauthenticated
        | Some addr \<Rightarrow>
            try_op (answer (\<lambda>_. Api_unauthenticated) (user_authenticate matches svc addr pass)) (\<lambda>a.
            try_op org_clock (\<lambda>t. try_op org_clock (\<lambda>t'.
            ret_op ((no_claims lib)\<lparr> jw_subject := tl_show lib (ac_id a), jw_expires := time_truncate (t + session_life) go_second,
              jw_issued := time_truncate t' go_second, jw_roles := map role_string (ac_roles a) \<rparr>))))))"

definition app_token ::
  "token_lib \<Rightarrow> (string \<Rightarrow> string option) \<Rightarrow> (string \<Rightarrow> string option) \<Rightarrow> (string \<Rightarrow> string \<Rightarrow> bool) \<Rightarrow> string \<Rightarrow>
    string \<Rightarrow> string api" where
  "app_token lib base64 address matches header kid =
     try_op (handle_authorization lib base64 address matches Auth_service header) (\<lambda>p.
     if kid = [] then fail_op Api_invalid_argument
     else case generate_token lib kid p of None \<Rightarrow> fail_op Api_internal | Some t \<Rightarrow> ret_op t)"

subsection \<open>Accounts\<close>

record user_body =
  nb_name :: string
  nb_email :: string
  nb_roles :: "string list"
  nb_password :: string
  nb_confirm :: string
  nb_invite :: string

definition to_bus_new_user :: "(string \<Rightarrow> string option) \<Rightarrow> user_body \<Rightarrow> new_user option" where
  "to_bus_new_user address b =
     (case (address (nb_email b), parse_confirm (Some (nb_password b)) (Some (nb_confirm b))) of
        (Some addr, Some p) \<Rightarrow>
          if list_all (\<lambda>v. role_parse v \<noteq> None) (nb_roles b) \<and> valid_name (nb_name b)
          then Some \<lparr> nu_name = nb_name b, nu_email = addr, nu_roles = map (the \<circ> role_parse) (nb_roles b), nu_password = p \<rparr>
          else None
      | _ \<Rightarrow> None)"

abbreviation verify_life :: duration where "verify_life \<equiv> 24 * go_hour"

text \<open>\<open>subject\<close> is nil: the route is not authenticated. \<open>sent\<close> tells whether the mail goes out.\<close>

definition app_user_create ::
  "token_lib \<Rightarrow> (string \<Rightarrow> string option) \<Rightarrow> (string \<Rightarrow> string option) \<Rightarrow> string \<Rightarrow> bool \<Rightarrow> user_body option \<Rightarrow>
    account api" where
  "app_user_create lib address digest kid sent body =
     (case body of
        None \<Rightarrow> fail_op Api_invalid_argument
      | Some b \<Rightarrow>
          try_op (if nb_invite b = [] then ret_op ()
            else try_op (answer (\<lambda>_. Api_unauthenticated) (parse_invite_token lib (nb_invite b))) (\<lambda>p.
              if jw_email p \<noteq> nb_email b then fail_op Api_invalid_argument else ret_op ())) (\<lambda>_.
          case to_bus_new_user address b of
            None \<Rightarrow> fail_op Api_invalid_argument
          | Some nu \<Rightarrow>
              try_op (answer (\<lambda>e. if e = Err_unique_email then Api_aborted else Api_internal)
                (user_create digest uuid_nil (nu\<lparr> nu_roles := [User] \<rparr>))) (\<lambda>a.
              if nb_invite b \<noteq> [] then
                try_op (answer (\<lambda>_. Api_internal) (user_activate (ac_id a))) (\<lambda>_. ret_op (a\<lparr> ac_enabled := True \<rparr>))
              else
                try_op org_clock (\<lambda>t. try_op org_clock (\<lambda>t'.
                case generate_token lib kid ((no_claims lib)\<lparr> jw_subject := tl_show lib (ac_id a),
                    jw_expires := time_truncate (t + verify_life) go_second, jw_issued := time_truncate t' go_second \<rparr>) of
                  None \<Rightarrow> fail_op Api_internal
                | Some token \<Rightarrow>
                    try_op (answer (\<lambda>_. Api_internal) (s_store_verify_token (ac_id a) token (t + verify_life))) (\<lambda>_.
                    if sent then ret_op a else fail_op Api_internal))))))"

record user_update_body =
  ub_name :: "string option"
  ub_password :: "string option"
  ub_confirm :: "string option"
  ub_enabled :: "bool option"

text \<open>The password is parsed whether or not the body has one.\<close>

definition to_bus_update_user :: "user_update_body \<Rightarrow> update_user option" where
  "to_bus_update_user b =
     (case parse_confirm (ub_password b) (ub_confirm b) of
        None \<Rightarrow> None
      | Some p \<Rightarrow> if (case ub_name b of None \<Rightarrow> False | Some v \<Rightarrow> \<not> valid_name v) then None
          else Some \<lparr> uu_name = ub_name b, uu_email = None, uu_roles = None, uu_password = Some p, uu_enabled = ub_enabled b \<rparr>)"

definition ctx_user :: "account option \<Rightarrow> account api" where
  "ctx_user a = (case a of None \<Rightarrow> fail_op Api_internal | Some a \<Rightarrow> ret_op a)"

definition app_user_update :: "(string \<Rightarrow> string option) \<Rightarrow> caller \<Rightarrow> user_update_body option \<Rightarrow> account option \<Rightarrow> account api" where
  "app_user_update digest c body usr =
     (case Option.bind body to_bus_update_user of
        None \<Rightarrow> fail_op Api_invalid_argument
      | Some uu \<Rightarrow> try_op (ctx_user usr) (\<lambda>a. answer (\<lambda>_. Api_internal) (user_update digest (cl_subject c) a uu)))"

text \<open>\<open>roles\<close> is \<open>None\<close> where the body has no list of them.\<close>

definition app_user_update_role ::
  "(string \<Rightarrow> string option) \<Rightarrow> caller \<Rightarrow> string list option option \<Rightarrow> account option \<Rightarrow> account api" where
  "app_user_update_role digest c body usr =
     (case body of
        None \<Rightarrow> fail_op Api_invalid_argument
      | Some roles \<Rightarrow>
          if (case roles of None \<Rightarrow> False | Some vs \<Rightarrow> \<not> list_all (\<lambda>v. role_parse v \<noteq> None) vs) then fail_op Api_invalid_argument
          else try_op (ctx_user usr) (\<lambda>a. answer (\<lambda>_. Api_internal) (user_update digest (cl_subject c) a
            \<lparr> uu_name = None, uu_email = None, uu_roles = map_option (map (the \<circ> role_parse)) roles, uu_password = None,
              uu_enabled = None \<rparr>)))"

definition app_user_delete :: "caller \<Rightarrow> account option \<Rightarrow> unit api" where
  "app_user_delete c usr = try_op (ctx_user usr) (\<lambda>a. answer (\<lambda>_. Api_internal) (user_delete (cl_subject c) a))"

definition app_query_me :: "caller \<Rightarrow> (account \<times> nat) api" where
  "app_query_me c =
     try_op (answer (not_found_on Err_no_account) (c_user_by_id Ingest_service (cl_subject c))) (\<lambda>a.
     try_op (answer (\<lambda>_. Api_internal) (s_count_owned (cl_subject c))) (\<lambda>n. ret_op (a, n)))"

definition app_verify :: "token_lib \<Rightarrow> string option \<Rightarrow> unit api" where
  "app_verify lib body =
     (case body of
        None \<Rightarrow> fail_op Api_invalid_argument
      | Some token \<Rightarrow>
          try_op (answer (\<lambda>_. Api_unauthenticated) (parse_verify_token lib token)) (\<lambda>_.
          try_op (answer (\<lambda>e. if e = Err_token_not_found then Api_not_found
            else if e = Err_token_used \<or> e = Err_token_expired then Api_aborted else Api_internal)
            (s_consume_verify_token token)) (\<lambda>i.
          answer (\<lambda>_. Api_internal) (user_activate i))))"

text \<open>
  The routes that change an account. The role route has no middleware that loads the account of its
  path, so its handler finds none.
\<close>

definition put_user ::
  "token_lib \<Rightarrow> (string \<Rightarrow> string option) \<Rightarrow> string \<Rightarrow> string \<Rightarrow> user_update_body option \<Rightarrow> account api" where
  "put_user lib digest header user_param body =
     mid_authenticate lib header (\<lambda>c. mid_authorize_user lib RuleOrgAdminOnly c user_param (app_user_update digest c body))"

definition put_user_role ::
  "token_lib \<Rightarrow> (string \<Rightarrow> string option) \<Rightarrow> string \<Rightarrow> string list option option \<Rightarrow> account api" where
  "put_user_role lib digest header body =
     mid_authenticate lib header (\<lambda>c. app_user_update_role digest c body None)"

definition delete_user :: "token_lib \<Rightarrow> string \<Rightarrow> string \<Rightarrow> unit api" where
  "delete_user lib header user_param =
     mid_authenticate lib header (\<lambda>c. mid_authorize_user lib RuleOrgAdminOnly c user_param (app_user_delete c))"

end
