(* ===== verification/OrgApi.thy ===== *)
theory OrgApi
  imports OrgBus Auth GoParse
begin

text \<open>
  Who may do what: the middleware that resolves a caller's rights from memberships
  (\<open>app/sdk/mid/authorize.go\<close>, \<open>authorizeproject.go\<close>) and the handlers it guards, of organizations
  (\<open>app/domain/orgapp\<close>), projects (\<open>app/domain/projectapp\<close>) and invitations
  (\<open>app/domain/invitationapp\<close>). \<open>parse\<close> is \<open>uuid.Parse\<close>; a body that does not decode is \<open>None\<close>.
\<close>

subsection \<open>Rights in an organization\<close>

definition authorize_org_member :: "(string \<Rightarrow> uuid option) \<Rightarrow> caller \<Rightarrow> string \<Rightarrow> 'a api \<Rightarrow> 'a api" where
  "authorize_org_member parse c org_id next =
     (if org_id = [] then next
      else try_op (param_id parse org_id) (\<lambda>org.
        if list_ex (\<lambda>v. v = role_string Admin) (cl_roles c) then next
        else try_op (user_id c) (\<lambda>u.
          try_op (answer (\<lambda>_. Api_internal) (s_orgs_by_user u)) (\<lambda>orgs.
          if list_ex (\<lambda>x. og_id (fst x) = org) orgs then next else fail_op Api_permission_denied))))"

definition authorize_org_admin :: "(string \<Rightarrow> uuid option) \<Rightarrow> caller \<Rightarrow> string \<Rightarrow> 'a api \<Rightarrow> 'a api" where
  "authorize_org_admin parse c org_id next =
     try_op (param_id parse org_id) (\<lambda>org.
     if has_role c Admin then next
     else try_op (user_id c) (\<lambda>u.
       try_op (answer (\<lambda>_. Api_internal) (s_orgs_by_user u)) (\<lambda>orgs.
       case List.find (\<lambda>x. og_id (fst x) = org) orgs of
         None \<Rightarrow> fail_op Api_permission_denied
       | Some x \<Rightarrow> if snd x = OrgAdmin then next else fail_op Api_permission_denied)))"

definition authorize_org_owner :: "(string \<Rightarrow> uuid option) \<Rightarrow> caller \<Rightarrow> string \<Rightarrow> 'a api \<Rightarrow> 'a api" where
  "authorize_org_owner parse c org_id next =
     try_op (param_id parse org_id) (\<lambda>org.
     if has_role c Admin then next
     else try_op (user_id c) (\<lambda>u.
       try_op (answer (not_found_on Err_org_not_found) (s_org_by_id org)) (\<lambda>og.
       if og_owner og = Some u then next else fail_op Api_permission_denied)))"

subsection \<open>Rights on a project\<close>

definition caller_org_role :: "caller \<Rightarrow> uuid \<Rightarrow> role option api" where
  "caller_org_role c project =
     try_op (answer (not_found_on Err_no_project) (s_project project)) (\<lambda>p.
     try_op (user_id c) (\<lambda>u.
     try_op (answer (\<lambda>_. Api_internal) (s_orgs_by_user u)) (\<lambda>orgs.
     ret_op (map_option snd (List.find (\<lambda>x. og_id (fst x) = pj_org p) orgs)))))"

definition require_project_access :: "(string \<Rightarrow> uuid option) \<Rightarrow> caller \<Rightarrow> string \<Rightarrow> uuid api" where
  "require_project_access parse c project_id =
     try_op (param_id parse project_id) (\<lambda>project.
     if has_role c Admin then ret_op project
     else try_op (caller_org_role c project) (\<lambda>r.
       if r = Some OrgAdmin then ret_op project
       else try_op (user_id c) (\<lambda>u.
         try_op (answer (\<lambda>_. Api_internal) (s_has_access u project)) (\<lambda>ok.
         if ok then ret_op project else fail_op Api_permission_denied))))"

definition authorize_project_access :: "(string \<Rightarrow> uuid option) \<Rightarrow> caller \<Rightarrow> string \<Rightarrow> 'a api \<Rightarrow> 'a api" where
  "authorize_project_access parse c project_id next = try_op (require_project_access parse c project_id) (\<lambda>_. next)"

definition authorize_project_manage :: "(string \<Rightarrow> uuid option) \<Rightarrow> caller \<Rightarrow> string \<Rightarrow> 'a api \<Rightarrow> 'a api" where
  "authorize_project_manage parse c project_id next =
     try_op (param_id parse project_id) (\<lambda>project.
     if has_role c Admin then next
     else try_op (caller_org_role c project) (\<lambda>r.
       if r = Some OrgAdmin then next
       else if has_role c PrjManager then try_op (require_project_access parse c project_id) (\<lambda>_. next)
       else fail_op Api_permission_denied))"

subsection \<open>Organizations\<close>

record org_body =
  ob_name :: string
  ob_slug :: string

definition app_org_create :: "caller \<Rightarrow> org_body option \<Rightarrow> org api" where
  "app_org_create c body =
     (case body of
        None \<Rightarrow> fail_op Api_invalid_argument
      | Some b \<Rightarrow> if \<not> valid_name (ob_name b) \<or> ob_slug b = [] then fail_op Api_invalid_argument
          else answer (\<lambda>e. if e = Err_unique_slug then Api_slug_taken else if e = Err_org_limit then Api_org_limit_reached
              else Api_internal) (ext_org_create (cl_subject c) (ob_name b) (ob_slug b)))"

definition app_org_update :: "(string \<Rightarrow> uuid option) \<Rightarrow> caller \<Rightarrow> string \<Rightarrow> update_org option \<Rightarrow> org api" where
  "app_org_update parse c org_id body =
     (case body of
        None \<Rightarrow> fail_op Api_invalid_argument
      | Some uu \<Rightarrow> if (case uo_name uu of None \<Rightarrow> False | Some v \<Rightarrow> \<not> valid_name v) then fail_op Api_invalid_argument
          else try_op (param_id parse org_id) (\<lambda>i.
            try_op (answer (not_found_on Err_org_not_found) (s_org_by_id i)) (\<lambda>og.
            answer (\<lambda>_. Api_internal) (ext_org_update (cl_subject c) og uu))))"

definition load_org_member :: "(string \<Rightarrow> uuid option) \<Rightarrow> string \<Rightarrow> uuid \<Rightarrow> org_member api" where
  "load_org_member parse org_id member =
     try_op (param_id parse org_id) (\<lambda>org.
     try_op (answer (not_found_on Err_member_not_found) (s_member_by_id member)) (\<lambda>m.
     if me_org m \<noteq> org then fail_op Api_not_found else ret_op m))"

definition org_admin_count :: "uuid \<Rightarrow> nat api" where
  "org_admin_count org =
     try_op (answer (\<lambda>_. Api_internal) (s_query_members org)) (\<lambda>ms. ret_op (length (filter (\<lambda>m. me_role m = OrgAdmin) ms)))"

definition guard_member_change :: "org_member \<Rightarrow> bool \<Rightarrow> unit api" where
  "guard_member_change m stays_admin =
     try_op (answer (not_found_on Err_org_not_found) (s_org_by_id (me_org m))) (\<lambda>og.
     if og_owner og = Some (me_user m) then fail_op Api_cannot_modify_owner
     else if stays_admin \<or> me_role m \<noteq> OrgAdmin then ret_op ()
     else try_op (org_admin_count (me_org m)) (\<lambda>admins.
       if admins \<le> 1 then fail_op Api_last_org_admin else ret_op ()))"

record role_body =
  rb_member :: string
  rb_role :: string

text \<open>
  The two requests that edit a membership, up to the moment they are cleared to write, and then the
  write: other requests may run in between. A cleared request is the member and the new role, if any.
\<close>

definition clear_role_change :: "(string \<Rightarrow> uuid option) \<Rightarrow> string \<Rightarrow> role_body option \<Rightarrow> (uuid \<times> role option) api" where
  "clear_role_change parse org_id body =
     (case body of
        None \<Rightarrow> fail_op Api_invalid_argument
      | Some b \<Rightarrow> (case role_parse (rb_role b) of
          None \<Rightarrow> fail_op Api_invalid_argument
        | Some r \<Rightarrow> if r = Admin then fail_op Api_invalid_argument
            else try_op (param_id parse (rb_member b)) (\<lambda>i.
              try_op (load_org_member parse org_id i) (\<lambda>m.
              try_op (guard_member_change m (r = OrgAdmin)) (\<lambda>_. ret_op (i, Some r))))))"

definition clear_removal :: "(string \<Rightarrow> uuid option) \<Rightarrow> string \<Rightarrow> string \<Rightarrow> (uuid \<times> role option) api" where
  "clear_removal parse org_id member_id =
     try_op (param_id parse member_id) (\<lambda>i.
     try_op (load_org_member parse org_id i) (\<lambda>m.
     try_op (guard_member_change m False) (\<lambda>_. ret_op (i, None))))"

definition write_member :: "caller \<Rightarrow> uuid \<times> role option \<Rightarrow> unit api" where
  "write_member c x =
     (case x of
        (i, Some r) \<Rightarrow> try_op (answer (not_found_on Err_member_not_found) (ext_update_member_role (cl_subject c) i r)) (\<lambda>_. ret_op ())
      | (i, None) \<Rightarrow> answer (not_found_on Err_member_not_found) (ext_remove_member (cl_subject c) i))"

definition app_update_role :: "(string \<Rightarrow> uuid option) \<Rightarrow> caller \<Rightarrow> string \<Rightarrow> role_body option \<Rightarrow> unit api" where
  "app_update_role parse c org_id body = try_op (clear_role_change parse org_id body) (write_member c)"

definition app_remove_member :: "(string \<Rightarrow> uuid option) \<Rightarrow> caller \<Rightarrow> string \<Rightarrow> string \<Rightarrow> unit api" where
  "app_remove_member parse c org_id member_id = try_op (clear_removal parse org_id member_id) (write_member c)"

definition app_org_delete :: "(string \<Rightarrow> uuid option) \<Rightarrow> caller \<Rightarrow> string \<Rightarrow> (string \<Rightarrow> string) \<Rightarrow> unit api" where
  "app_org_delete parse c org_id q =
     try_op (param_id parse org_id) (\<lambda>i.
     try_op (answer (not_found_on Err_org_not_found) (s_org_by_id i)) (\<lambda>og.
     if q ''confirm'' \<noteq> og_slug og then fail_op Api_confirmation_required
     else try_op (org_admin_count i) (\<lambda>admins.
       if 1 < admins \<and> q ''force'' \<noteq> ''true'' then fail_op Api_other_admins_exist
       else answer (\<lambda>_. Api_internal) (ext_org_delete (cl_subject c) og))))"

definition app_query_members :: "(string \<Rightarrow> uuid option) \<Rightarrow> string \<Rightarrow> member_user list api" where
  "app_query_members parse org_id =
     try_op (param_id parse org_id) (\<lambda>i. answer (not_found_on Err_org_not_found) (s_members_with_users i))"

text \<open>The organizations of the caller, with the role there and whether the caller owns it.\<close>

definition app_query_mine :: "caller \<Rightarrow> (org \<times> role \<times> bool) list api" where
  "app_query_mine c =
     try_op (answer (\<lambda>_. Api_internal) (s_orgs_by_user (cl_subject c))) (\<lambda>orgs.
     ret_op (map (\<lambda>x. (fst x, snd x, og_owner (fst x) = Some (cl_subject c))) orgs))"

definition app_org_by_id :: "(string \<Rightarrow> uuid option) \<Rightarrow> string \<Rightarrow> org api" where
  "app_org_by_id parse org_id =
     try_op (param_id parse org_id) (\<lambda>i. answer (not_found_on Err_org_not_found) (s_org_by_id i))"

text \<open>The old path of the role update.\<close>

definition legacy_role_alias :: "string \<Rightarrow> string \<Rightarrow> string option" where
  "legacy_role_alias verb path =
     (if verb \<noteq> ''PUT'' \<or> \<not> has_prefix path ''/v1/orgs/role/'' then None
      else let org = drop (length ''/v1/orgs/role/'') path
        in if org = [] \<or> CHR ''/'' \<in> set org then None else Some (''/v1/orgs/'' @ org @ ''/role''))"

subsection \<open>Projects\<close>

definition plan_retention_limit :: "uuid \<Rightarrow> int org_op" where
  "plan_retention_limit org =
     case_op (s_query_sub org) (\<lambda>e. if e = Err_org_not_found then ret_op (- 1) else fail_op e) (\<lambda>s.
     try_op s_query_all_plans (\<lambda>plans.
     ret_op (case List.find (\<lambda>p. pn_id p = su_plan s) plans of None \<Rightarrow> - 1 | Some p \<Rightarrow> pf_retention (pn_features p))))"

definition project_name_ok :: "string \<Rightarrow> bool" where
  "project_name_ok v \<longleftrightarrow> v \<noteq> [] \<and> length v \<le> 100"

definition app_project_create :: "(string \<Rightarrow> uuid option) \<Rightarrow> caller \<Rightarrow> string \<Rightarrow> (string \<times> string) option \<Rightarrow> project api" where
  "app_project_create parse c org_id body =
     (case body of
        None \<Rightarrow> fail_op Api_invalid_argument
      | Some (name, color) \<Rightarrow> if \<not> project_name_ok name \<or> \<not> color_ok color then fail_op Api_invalid_argument
          else try_op (param_id parse org_id) (\<lambda>org.
            answer (\<lambda>e. if e = Err_project_name then Api_aborted else Api_internal)
              (ext_project_create (cl_subject c) org name color)))"

definition require_project_in_org :: "(string \<Rightarrow> uuid option) \<Rightarrow> string \<Rightarrow> project \<Rightarrow> unit api" where
  "require_project_in_org parse org_id p =
     try_op (param_id parse org_id) (\<lambda>org. if pj_org p \<noteq> org then fail_op Api_not_found else ret_op ())"

text \<open>The raw JSON of the retention in the body, empty when it is absent.\<close>

record project_body =
  pb_name :: "string option"
  pb_color :: "string option"
  pb_retention :: string

definition to_bus_retention :: "string \<Rightarrow> int option option option" where
  "to_bus_retention raw =
     (if raw = [] then Some None
      else if raw = ''null'' then Some (Some None)
      else case parse_int64 raw of None \<Rightarrow> None | Some v \<Rightarrow> if v < 0 then None else Some (Some (Some v)))"

definition to_bus_update_project :: "project_body \<Rightarrow> update_project option" where
  "to_bus_update_project b =
     (if (case pb_name b of None \<Rightarrow> False | Some v \<Rightarrow> \<not> project_name_ok v)
         \<or> (case pb_color b of None \<Rightarrow> False | Some v \<Rightarrow> \<not> color_ok v) then None
      else map_option (\<lambda>r. \<lparr> up_name = pb_name b, up_color = pb_color b, up_retention = r \<rparr>) (to_bus_retention (pb_retention b)))"

definition app_project_update ::
  "(string \<Rightarrow> uuid option) \<Rightarrow> caller \<Rightarrow> string \<Rightarrow> string \<Rightarrow> project_body option \<Rightarrow> project api" where
  "app_project_update parse c org_id project_id body =
     (case Option.bind body to_bus_update_project of
        None \<Rightarrow> fail_op Api_invalid_argument
      | Some up \<Rightarrow>
          try_op (param_id parse project_id) (\<lambda>i.
          try_op (answer (not_found_on Err_no_project) (s_project i)) (\<lambda>p.
          try_op (require_project_in_org parse org_id p) (\<lambda>_.
          try_op (case up_retention up of
              Some (Some n) \<Rightarrow> try_op (answer (\<lambda>_. Api_internal) (plan_retention_limit (pj_org p))) (\<lambda>limit.
                if 0 \<le> limit \<and> limit < n then fail_op Api_retention_exceeds_plan else ret_op ())
            | _ \<Rightarrow> ret_op ()) (\<lambda>_.
          answer (\<lambda>_. Api_internal) (ext_project_update (cl_subject c) p up))))))"

definition app_project_delete :: "(string \<Rightarrow> uuid option) \<Rightarrow> caller \<Rightarrow> string \<Rightarrow> string \<Rightarrow> unit api" where
  "app_project_delete parse c org_id project_id =
     try_op (param_id parse project_id) (\<lambda>i.
     try_op (answer (not_found_on Err_no_project) (s_project i)) (\<lambda>p.
     try_op (require_project_in_org parse org_id p) (\<lambda>_.
     answer (\<lambda>_. Api_internal) (ext_project_delete (cl_subject c) p))))"

definition app_query_projects :: "(string \<Rightarrow> uuid option) \<Rightarrow> caller \<Rightarrow> string \<Rightarrow> project list api" where
  "app_query_projects parse c org_id =
     try_op (param_id parse org_id) (\<lambda>org.
     if list_ex (\<lambda>v. v = role_string Admin) (cl_roles c) then answer (\<lambda>_. Api_internal) (s_projects_by_org org)
     else answer (\<lambda>_. Api_internal) (s_query_accessible org (cl_subject c)))"

subsection \<open>Invitations\<close>

record invite_body =
  ib_email :: string
  ib_role :: string
  ib_projects :: "string list"

abbreviation invite_life :: duration where "invite_life \<equiv> 72 * go_hour"

fun parse_all :: "('a \<Rightarrow> 'b option) \<Rightarrow> 'a list \<Rightarrow> 'b list option" where
  "parse_all f [] = Some []"
| "parse_all f (x # xs) = Option.bind (f x) (\<lambda>y. map_option (\<lambda>ys. y # ys) (parse_all f xs))"

definition to_bus_new_invitation ::
  "(string \<Rightarrow> uuid option) \<Rightarrow> (string \<Rightarrow> bool) \<Rightarrow> invite_body \<Rightarrow> (string \<times> role \<times> uuid list) option" where
  "to_bus_new_invitation parse address b =
     (if \<not> address (ib_email b) then None
      else case role_parse (ib_role b) of
        None \<Rightarrow> None
      | Some r \<Rightarrow> if r = Admin then None
          else map_option (\<lambda>ps. (ib_email b, r, ps)) (parse_all parse (ib_projects b)))"

text \<open>\<open>sent\<close> tells whether the mail goes out.\<close>

definition app_invite ::
  "token_lib \<Rightarrow> (string \<Rightarrow> bool) \<Rightarrow> string \<Rightarrow> bool \<Rightarrow> caller \<Rightarrow> string \<Rightarrow> invite_body option \<Rightarrow> invitation api" where
  "app_invite lib address kid sent c org_id body =
     (case Option.bind body (to_bus_new_invitation (tl_uuid lib) address) of
        None \<Rightarrow> fail_op Api_invalid_argument
      | Some (email, r, projects) \<Rightarrow>
          try_op (param_id (tl_uuid lib) org_id) (\<lambda>org.
          case cl_user c of None \<Rightarrow> fail_op Api_invalid_argument | Some u \<Rightarrow>
          try_op org_clock (\<lambda>now. try_op org_clock (\<lambda>now'.
          case generate_invite_token lib kid \<lparr> jw_subject = tl_show lib u, jw_issuer = tl_issuer lib,
              jw_expires = time_truncate (now + invite_life) go_second, jw_issued = time_truncate now' go_second,
              jw_roles = [], jw_type = invite_token_type, jw_org = tl_show lib org, jw_email = email,
              jw_role = role_string r, jw_projects = map (tl_show lib) projects \<rparr> of
            None \<Rightarrow> fail_op Api_internal
          | Some token \<Rightarrow>
              try_op (answer (\<lambda>_. Api_internal) (ext_invite_create u \<lparr> ni_org = org, ni_email = email, ni_role = r,
                ni_token = token, ni_projects = projects, ni_expires = now + invite_life \<rparr>)) (\<lambda>iv.
              try_op (answer (\<lambda>_. Api_internal) (s_org_by_id org)) (\<lambda>_.
              try_op (answer (\<lambda>_. Api_internal) (c_user_by_id Ingest_service u)) (\<lambda>_.
              if sent then ret_op iv else fail_op Api_internal)))))))"

datatype accept_result = Signup_required uuid string string | Joined uuid

definition join_org :: "invitation \<Rightarrow> account \<Rightarrow> accept_result api" where
  "join_org iv a =
     try_op (case_op (ext_add_member (ac_id a) (iv_org iv) (ac_id a) (iv_role iv))
       (\<lambda>e. if e = Err_member_exists then ret_op () else fail_op Api_internal) (\<lambda>_. ret_op ())) (\<lambda>_.
     try_op (loop_op (\<lambda>p. answer (\<lambda>_. Api_internal) (ext_grant_access (ac_id a) (ac_id a) p)) (iv_projects iv)) (\<lambda>_.
     try_op org_clock (\<lambda>t.
     try_op (answer (\<lambda>_. Api_internal) (s_mark_accepted (iv_id iv) t)) (\<lambda>_.
     ret_op (Joined (iv_org iv))))))"

definition app_accept :: "token_lib \<Rightarrow> string option \<Rightarrow> accept_result api" where
  "app_accept lib body =
     (case body of
        None \<Rightarrow> fail_op Api_invalid_argument
      | Some token \<Rightarrow> if token = [] then fail_op Api_invalid_argument
          else try_op (answer (\<lambda>_. Api_unauthenticated) (parse_invite_token lib token)) (\<lambda>claims.
            try_op (answer (not_found_on Err_no_invitation) (s_invite_by_token token)) (\<lambda>iv.
            if iv_accepted iv \<noteq> None then fail_op Api_aborted
            else try_op org_clock (\<lambda>now.
              if iv_expires iv < now then fail_op Api_aborted
              else case_op (c_user_by_email Ingest_service (jw_email claims))
                (\<lambda>e. if e = Err_no_account then ret_op (Signup_required (iv_org iv) (iv_email iv) token) else fail_op Api_internal)
                (join_org iv)))))"

definition app_revoke :: "(string \<Rightarrow> uuid option) \<Rightarrow> caller \<Rightarrow> string \<Rightarrow> string \<Rightarrow> unit api" where
  "app_revoke parse c org_id invitation_id =
     try_op (param_id parse invitation_id) (\<lambda>i.
     try_op (param_id parse org_id) (\<lambda>org.
     try_op (answer (not_found_on Err_no_invitation) (s_invite_by_id i)) (\<lambda>iv.
     if iv_org iv \<noteq> org then fail_op Api_not_found
     else answer (\<lambda>e. if e = Err_no_invitation then Api_not_found else if e = Err_already_used then Api_aborted else Api_internal)
       (ext_invite_revoke (cl_subject c) i))))"

definition app_query_invitations :: "(string \<Rightarrow> uuid option) \<Rightarrow> string \<Rightarrow> invitation list api" where
  "app_query_invitations parse org_id =
     try_op (param_id parse org_id) (\<lambda>org. answer (\<lambda>_. Api_internal) (s_invites_by_org org))"

end
