(* ===== verification/Billing.thy ===== *)
theory Billing
  imports OrgApi
begin

text \<open>
  Billing (\<open>app/domain/billingapp\<close>): the catalog, an organization's subscription, checkout, portal and
  cancellation with the payment service, and the events the payment service reports. The payment
  service is a parameter: what it answers to each call. The signature of an event is checked by its
  library; an event is modelled by what its payload decodes to.
\<close>

subsection \<open>The payment service\<close>

record stripe_sub =
  ss_id :: string
  ss_status :: string
  ss_cancel :: bool
  ss_items :: "(int \<times> int) list"

record checkout_params =
  cp_price :: string
  cp_success :: string
  cp_cancel :: string
  cp_reference :: string
  cp_metadata :: "(string \<times> string) list"
  cp_sub_metadata :: "(string \<times> string) list"
  cp_customer :: "string option"

record checkout_session =
  cs_metadata :: "(string \<times> string) list"
  cs_subscription :: "string option"
  cs_customer :: "string option"

text \<open>\<open>None\<close> is a payload that does not decode; an invoice is the id of its subscription, empty where it has none.\<close>

datatype stripe_event =
    Checkout_completed "checkout_session option"
  | Subscription_updated "stripe_sub option"
  | Subscription_deleted "stripe_sub option"
  | Payment_failed "string option"
  | Invoice_paid "string option"
  | Other_event

record stripe =
  st_checkout :: "checkout_params \<Rightarrow> string option"
  st_portal :: "string \<Rightarrow> string option"
  st_get :: "string \<Rightarrow> stripe_sub option"
  st_cancel :: "string \<Rightarrow> bool"

subsection \<open>Requests of an organization\<close>

definition app_list_plans :: "plan list api" where
  "app_list_plans = answer (\<lambda>_. Api_internal) s_query_all_plans"

record billing_status =
  bs_plan :: "sub_plan option"
  bs_name :: string
  bs_status :: sub_status
  bs_end :: "instant option"
  bs_cancel :: bool

definition app_get_billing :: "(string \<Rightarrow> uuid option) \<Rightarrow> string \<Rightarrow> billing_status api" where
  "app_get_billing parse org_id =
     try_op (param_id parse org_id) (\<lambda>org.
     case_op (s_query_sub org)
       (\<lambda>e. if e = Err_org_not_found then ret_op \<lparr> bs_plan = Some PlanFree, bs_name = ''Free'', bs_status = StatusActive,
           bs_end = None, bs_cancel = False \<rparr>
         else fail_op Api_internal)
       (\<lambda>s. ret_op \<lparr> bs_plan = su_slug s, bs_name = su_name s, bs_status = su_status s, bs_end = su_end s, bs_cancel = su_cancel s \<rparr>))"

record checkout_body =
  kb_plan :: string
  kb_success :: string
  kb_cancel :: string

text \<open>The subscription of an organization, if it has one.\<close>

definition sub_if_any :: "uuid \<Rightarrow> subscription option api" where
  "sub_if_any org = case_op (s_query_sub org)
     (\<lambda>e. if e = Err_org_not_found then ret_op None else fail_op Api_internal) (\<lambda>s. ret_op (Some s))"

definition app_checkout :: "(string \<Rightarrow> uuid option) \<Rightarrow> (uuid \<Rightarrow> string) \<Rightarrow> stripe \<Rightarrow> string \<Rightarrow> checkout_body option \<Rightarrow> string api" where
  "app_checkout parse show st org_id body =
     try_op (param_id parse org_id) (\<lambda>org.
     case body of
       None \<Rightarrow> fail_op Api_invalid_argument
     | Some b \<Rightarrow> if kb_plan b \<in> {''free'', ''enterprise''} then fail_op Api_invalid_argument
         else try_op (answer (not_found_on Err_org_not_found) (s_plan_by_slug (kb_plan b))) (\<lambda>plan.
           if pn_stripe plan = [] then fail_op Api_invalid_argument
           else try_op (sub_if_any org) (\<lambda>sub.
             if (case sub of None \<Rightarrow> False | Some s \<Rightarrow> su_slug s \<noteq> Some PlanFree \<and> su_status s = StatusActive \<and> \<not> su_cancel s)
             then fail_op Api_aborted
             else case st_checkout st \<lparr> cp_price = pn_stripe plan, cp_success = kb_success b, cp_cancel = kb_cancel b,
                 cp_reference = show org, cp_metadata = [], cp_sub_metadata = [(''org_id'', show org)],
                 cp_customer = (case sub of None \<Rightarrow> None | Some s \<Rightarrow> null_str (su_customer s)) \<rparr> of
               None \<Rightarrow> fail_op Api_internal
             | Some url \<Rightarrow> ret_op url)))"

definition app_portal :: "(string \<Rightarrow> uuid option) \<Rightarrow> stripe \<Rightarrow> string \<Rightarrow> string api" where
  "app_portal parse st org_id =
     try_op (param_id parse org_id) (\<lambda>org.
     try_op (sub_if_any org) (\<lambda>sub.
     case sub of
       None \<Rightarrow> fail_op Api_invalid_argument
     | Some s \<Rightarrow> if su_customer s = [] then fail_op Api_invalid_argument
         else case st_portal st (su_customer s) of None \<Rightarrow> fail_op Api_internal | Some url \<Rightarrow> ret_op url))"

definition app_cancel :: "(string \<Rightarrow> uuid option) \<Rightarrow> stripe \<Rightarrow> string \<Rightarrow> instant option api" where
  "app_cancel parse st org_id =
     try_op (param_id parse org_id) (\<lambda>org.
     try_op (sub_if_any org) (\<lambda>sub.
     case sub of
       None \<Rightarrow> fail_op Api_invalid_argument
     | Some s \<Rightarrow>
         if su_slug s = Some PlanFree then fail_op Api_invalid_argument
         else if su_cancel s then fail_op Api_aborted
         else if su_stripe s = [] then fail_op Api_internal
         else if \<not> st_cancel st (su_stripe s) then fail_op Api_internal
         else try_op org_clock (\<lambda>now.
           try_op (answer (\<lambda>_. Api_internal) (s_sub_upsert (s\<lparr> su_cancel := True, su_updated := now \<rparr>))) (\<lambda>_.
           ret_op (su_end s)))))"

subsection \<open>Events of the payment service\<close>

definition extract_period_dates :: "stripe_sub \<Rightarrow> instant option \<times> instant option" where
  "extract_period_dates s =
     (case ss_items s of [] \<Rightarrow> (None, None)
      | (a, b) # _ \<Rightarrow> (Some (unix_epoch + a * go_second), Some (unix_epoch + b * go_second)))"

definition normalize_stripe_status :: "string \<Rightarrow> sub_status" where
  "normalize_stripe_status v =
     (if v = ''active'' then StatusActive
      else if v = ''trialing'' then StatusTrialing
      else if v = ''past_due'' then StatusPastDue
      else if v = ''canceled'' then StatusCancelled
      else StatusActive)"

text \<open>The zero value of the struct: no plan has its plan id.\<close>

definition zero_subscription :: "sub_status \<Rightarrow> instant \<Rightarrow> subscription" where
  "zero_subscription status now = \<lparr> su_id = uuid_nil, su_org = uuid_nil, su_plan = uuid_nil, su_slug = None, su_name = [],
     su_features = \<lparr> pf_retention = 0, pf_projects = 0, pf_members = 0 \<rparr>, su_status = status, su_customer = [],
     su_stripe = [], su_cancel = False, su_cancelled = None, su_start = None, su_end = None, su_created = 0, su_updated = now \<rparr>"

definition handle_checkout_completed :: "(string \<Rightarrow> uuid option) \<Rightarrow> stripe \<Rightarrow> checkout_session option \<Rightarrow> unit org_op" where
  "handle_checkout_completed parse st session =
     (case session of
        None \<Rightarrow> fail_op Err_org_db
      | Some cs \<Rightarrow>
          let org_text = (case map_of (cs_metadata cs) ''org_id'' of None \<Rightarrow> [] | Some v \<Rightarrow> v) in
          if org_text = [] then fail_op Err_org_db
          else (case (parse org_text, cs_subscription cs, cs_customer cs) of
            (Some org, Some sub_id, Some cust) \<Rightarrow>
              (case st_get st sub_id of
                 None \<Rightarrow> fail_op Err_org_db
               | Some ss \<Rightarrow>
                   try_op (s_plan_by_slug ''pro'') (\<lambda>pro. try_op org_clock (\<lambda>now.
                   try_op (case_op (s_query_sub org)
                     (\<lambda>e. if e = Err_org_not_found
                       then try_op org_fresh (\<lambda>i. ret_op ((zero_subscription StatusActive now)\<lparr> su_id := i, su_org := org, su_created := now \<rparr>))
                       else fail_op e) ret_op) (\<lambda>s.
                   s_sub_upsert (s\<lparr> su_plan := pn_id pro, su_slug := Some (pn_slug pro), su_name := pn_name pro,
                     su_features := pn_features pro, su_status := StatusActive, su_customer := cust, su_stripe := sub_id,
                     su_start := fst (extract_period_dates ss), su_end := snd (extract_period_dates ss),
                     su_cancel := False, su_updated := now \<rparr>)))))
          | _ \<Rightarrow> fail_op Err_org_db))"

definition handle_subscription_updated :: "stripe_sub option \<Rightarrow> unit org_op" where
  "handle_subscription_updated payload =
     (case payload of
        None \<Rightarrow> fail_op Err_org_db
      | Some s \<Rightarrow> try_op org_clock (\<lambda>now.
          s_sub_by_stripe (ss_id s) ((zero_subscription (normalize_stripe_status (ss_status s)) now)\<lparr> su_cancel := ss_cancel s,
            su_start := fst (extract_period_dates s), su_end := snd (extract_period_dates s) \<rparr>)))"

definition handle_subscription_deleted :: "stripe_sub option \<Rightarrow> unit org_op" where
  "handle_subscription_deleted payload =
     (case payload of
        None \<Rightarrow> fail_op Err_org_db
      | Some s \<Rightarrow> try_op (s_plan_by_slug ''free'') (\<lambda>free. try_op org_clock (\<lambda>now.
          s_sub_by_stripe (ss_id s) ((zero_subscription StatusCancelled now)\<lparr> su_plan := pn_id free, su_slug := Some PlanFree,
            su_name := pn_name free, su_features := pn_features free, su_cancelled := Some now \<rparr>))))"

definition handle_invoice_payment_failed :: "string option \<Rightarrow> unit org_op" where
  "handle_invoice_payment_failed payload =
     (case payload of
        None \<Rightarrow> fail_op Err_org_db
      | Some i \<Rightarrow> if i = [] then ret_op ()
          else try_op org_clock (\<lambda>now. s_sub_by_stripe i (zero_subscription StatusPastDue now)))"

definition handle_invoice_paid :: "stripe \<Rightarrow> string option \<Rightarrow> unit org_op" where
  "handle_invoice_paid st payload =
     (case payload of
        None \<Rightarrow> fail_op Err_org_db
      | Some i \<Rightarrow> if i = [] then ret_op ()
          else (case st_get st i of
            None \<Rightarrow> fail_op Err_org_db
          | Some ss \<Rightarrow> try_op org_clock (\<lambda>now.
              s_sub_by_stripe i ((zero_subscription StatusActive now)\<lparr> su_start := fst (extract_period_dates ss),
                su_end := snd (extract_period_dates ss) \<rparr>))))"

text \<open>Whatever a handler reports is logged; the event is acknowledged.\<close>

definition app_webhook :: "(string \<Rightarrow> uuid option) \<Rightarrow> stripe \<Rightarrow> stripe_event option \<Rightarrow> unit api" where
  "app_webhook parse st event =
     (case event of
        None \<Rightarrow> fail_op Api_invalid_argument
      | Some ev \<Rightarrow> case_op
          (case ev of
             Checkout_completed p \<Rightarrow> handle_checkout_completed parse st p
           | Subscription_updated p \<Rightarrow> handle_subscription_updated p
           | Subscription_deleted p \<Rightarrow> handle_subscription_deleted p
           | Payment_failed p \<Rightarrow> handle_invoice_payment_failed p
           | Invoice_paid p \<Rightarrow> handle_invoice_paid st p
           | Other_event \<Rightarrow> ret_op ()) (\<lambda>_. ret_op ()) (\<lambda>_. ret_op ()))"

end
