(* ===== verification/ApiKeys.thy ===== *)
theory ApiKeys
  imports OrgApi Sources
begin

text \<open>
  Read-only keys of the query API: minting and revoking (\<open>business/domain/apikeybus\<close>, \<open>apikeydb\<close>,
  \<open>app/domain/apikeyapp\<close>), the middleware that authenticates them
  (\<open>app/sdk/mid/authenticateapikey.go\<close>), and the projects a key may read
  (\<open>app/domain/logapp/publicquery.go\<close>). The digest is a parameter, the random bytes an argument that
  is \<open>None\<close> when reading them fails.
\<close>

subsection \<open>Keys\<close>

abbreviation api_key_scheme :: string where "api_key_scheme \<equiv> ''ls_api_live_''"
abbreviation max_key_name :: nat where "max_key_name \<equiv> 120"

definition api_hash_key :: "(string \<Rightarrow> string) \<Rightarrow> string \<Rightarrow> string" where
  "api_hash_key sha raw = hex_encode (sha raw)"

definition api_generate_key :: "(string \<Rightarrow> string) \<Rightarrow> string option \<Rightarrow> (string \<times> string \<times> string) option" where
  "api_generate_key sha rnd = map_option (\<lambda>buf.
     let random_hex = hex_encode buf; raw = api_key_scheme @ random_hex
     in (raw, api_hash_key sha raw, api_key_scheme @ take 6 random_hex)) rnd"

definition has_api_scheme :: "string \<Rightarrow> bool" where
  "has_api_scheme raw = has_prefix raw api_key_scheme"

definition api_key_expired :: "api_key \<Rightarrow> instant \<Rightarrow> bool" where
  "api_key_expired k now = (case ak_expires k of None \<Rightarrow> False | Some t \<Rightarrow> t < now)"

subsection \<open>The table\<close>

definition s_key_create :: "api_key \<Rightarrow> unit org_op" where
  "s_key_create k = exec (\<lambda>w.
     if \<not> pg_text (ak_name k) then Inl Err_org_db
     else if list_ex (\<lambda>r. ak_id r = ak_id k \<or> ak_hash r = ak_hash k) (ow_keys w) then Inl Err_org_db
     else if ak_org k \<notin> og_id ` set (ow_orgs w)
       \<or> (case ak_project k of None \<Rightarrow> False | Some p \<Rightarrow> p \<notin> pj_id ` set (ow_projects w))
       \<or> (case ak_by k of None \<Rightarrow> False | Some u \<Rightarrow> u \<notin> ac_id ` set (ow_accounts w)) then Inl Err_org_db
     else Inr (w\<lparr> ow_keys := ow_keys w @ [k\<lparr> ak_used := map_option pg_time (ak_used k),
       ak_expires := map_option pg_time (ak_expires k), ak_created := pg_time (ak_created k) \<rparr>] \<rparr>))"

definition s_key_delete :: "uuid \<Rightarrow> unit org_op" where
  "s_key_delete i = exec (\<lambda>w. Inr (w\<lparr> ow_keys := filter (\<lambda>k. ak_id k \<noteq> i) (ow_keys w) \<rparr>))"

definition s_key_by_id :: "uuid \<Rightarrow> api_key org_op" where
  "s_key_by_id i = one_row Err_no_key ow_keys (\<lambda>k. ak_id k = i)"

definition s_keys_by_org :: "uuid \<Rightarrow> api_key list org_op" where
  "s_keys_by_org org = org_call (\<lambda>w. (Inr (sort_key (\<lambda>k. - ak_created k) (filter (\<lambda>k. ak_org k = org) (ow_keys w))), w))"

definition s_key_by_hash :: "string \<Rightarrow> api_key org_op" where
  "s_key_by_hash h = one_row Err_no_key ow_keys (\<lambda>k. ak_hash k = h)"

definition s_key_touch :: "uuid \<Rightarrow> instant \<Rightarrow> unit org_op" where
  "s_key_touch i t = exec (\<lambda>w. Inr (w\<lparr> ow_keys := update_where (\<lambda>k. ak_id k = i) (\<lambda>k. k\<lparr> ak_used := Some (pg_time t) \<rparr>) (ow_keys w) \<rparr>))"

subsection \<open>The business layer\<close>

record new_api_key =
  nk_project :: "uuid option"
  nk_name :: string
  nk_expires :: "instant option"
  nk_per_min :: int
  nk_burst :: int

definition api_key_create ::
  "(string \<Rightarrow> string) \<Rightarrow> string option \<Rightarrow> uuid \<Rightarrow> uuid \<Rightarrow> new_api_key \<Rightarrow> (api_key \<times> string) org_op" where
  "api_key_create sha rnd org actor nk =
     (let name = trim_space (nk_name nk) in
      if name = [] \<or> max_key_name < length name then fail_op Err_key_name
      else try_op (case nk_expires nk of None \<Rightarrow> ret_op ()
          | Some t \<Rightarrow> try_op org_clock (\<lambda>now. if now < t then ret_op () else fail_op Err_key_expiry)) (\<lambda>_.
        if nk_per_min nk < 0 \<or> nk_burst nk < 0 then fail_op Err_key_limits
        else case api_generate_key sha rnd of
          None \<Rightarrow> fail_op Err_key_random
        | Some (raw, hash, shown) \<Rightarrow> try_op org_fresh (\<lambda>i. try_op org_clock (\<lambda>now.
            let k = \<lparr> ak_id = i, ak_org = org, ak_project = nk_project nk, ak_name = name, ak_prefix = shown, ak_hash = hash,
              ak_per_min = nk_per_min nk, ak_burst = nk_burst nk, ak_active = True, ak_by = Some actor, ak_used = None,
              ak_expires = nk_expires nk, ak_created = now \<rparr>
            in try_op (s_key_create k) (\<lambda>_. ret_op (k, raw))))))"

definition api_key_authenticate :: "(string \<Rightarrow> string) \<Rightarrow> string \<Rightarrow> api_key org_op" where
  "api_key_authenticate sha raw =
     (if \<not> has_api_scheme raw then fail_op Err_no_key
      else case_op (s_key_by_hash (api_hash_key sha raw)) (\<lambda>_. fail_op Err_no_key) (\<lambda>k.
        if \<not> ak_active k then fail_op Err_no_key
        else try_op org_clock (\<lambda>now. if api_key_expired k now then fail_op Err_key_expired else ret_op k)))"

text \<open>A failure to record the use is logged.\<close>

definition touch_last_used :: "uuid \<Rightarrow> instant \<Rightarrow> (org_world, 'e, unit) op" where
  "touch_last_used i t = case_op (s_key_touch i t) (\<lambda>_. ret_op ()) (\<lambda>_. ret_op ())"

subsection \<open>The middleware\<close>

abbreviation key_touch_interval :: duration where "key_touch_interval \<equiv> go_minute"

definition record_use :: "api_key \<Rightarrow> instant \<Rightarrow> unit api" where
  "record_use k now w =
     (if (case ow_touched w (ak_id k) of None \<Rightarrow> True | Some t \<Rightarrow> key_touch_interval \<le> time_sub now t)
      then touch_last_used (ak_id k) now (w\<lparr> ow_touched := (ow_touched w)(ak_id k \<mapsto> now) \<rparr>)
      else (Inr (), w))"

definition authenticate_api_key :: "(string \<Rightarrow> string) \<Rightarrow> string \<Rightarrow> api_key api" where
  "authenticate_api_key sha header =
     (case bearer_token header of
        None \<Rightarrow> fail_op Api_unauthenticated
      | Some raw \<Rightarrow>
          if \<not> has_api_scheme raw then fail_op Api_unauthenticated
          else try_op (answer (\<lambda>e. if e = Err_key_expired then Api_key_expired else Api_unauthenticated)
              (api_key_authenticate sha raw)) (\<lambda>k.
            if ak_hash k \<noteq> api_hash_key sha raw then fail_op Api_unauthenticated
            else try_op (answer (\<lambda>_. Api_internal) (s_org_by_id (ak_org k))) (\<lambda>og.
              if \<not> og_enabled og then fail_op Api_org_suspended
              else try_op org_clock (\<lambda>now. try_op (record_use k now) (\<lambda>_. ret_op k)))))"

subsection \<open>What a key may read\<close>

definition key_scope :: "api_key \<Rightarrow> uuid list api" where
  "key_scope k =
     (case ak_project k of
        Some p \<Rightarrow> ret_op [p]
      | None \<Rightarrow> try_op (answer (\<lambda>_. Api_internal) (s_projects_by_org (ak_org k))) (\<lambda>ps. ret_op (map pj_id ps)))"

definition query_api_projects :: "api_key \<Rightarrow> (uuid \<times> string) list api" where
  "query_api_projects k =
     try_op (answer (\<lambda>_. Api_internal) (s_projects_by_org (ak_org k))) (\<lambda>ps.
     ret_op (map (\<lambda>p. (pj_id p, pj_name p)) (filter (\<lambda>p. ak_project k \<in> {None, Some (pj_id p)}) ps)))"

subsection \<open>The handlers of organization admins\<close>

record key_body =
  yb_name :: string
  yb_project :: string
  yb_days :: int
  yb_per_min :: int
  yb_burst :: int

text \<open>A day of the expiry has 24 hours, as in UTC. Limits below zero are answered as an internal error.\<close>

definition app_key_create ::
  "(string \<Rightarrow> string) \<Rightarrow> (string \<Rightarrow> uuid option) \<Rightarrow> string option \<Rightarrow> caller \<Rightarrow> string \<Rightarrow> key_body option \<Rightarrow>
    (api_key \<times> string) api" where
  "app_key_create sha parse rnd c org_id body =
     try_op (param_id parse org_id) (\<lambda>org.
     case body of
       None \<Rightarrow> fail_op Api_invalid_argument
     | Some b \<Rightarrow>
         try_op (if yb_project b = [] then ret_op None
           else try_op (param_id parse (yb_project b)) (\<lambda>p.
             try_op (answer (not_found_on Err_no_project) (s_project p)) (\<lambda>pj.
             if pj_org pj \<noteq> org then fail_op Api_not_found else ret_op (Some p)))) (\<lambda>project.
         if yb_days b < 0 then fail_op Api_invalid_argument
         else try_op (if 0 < yb_days b then try_op org_clock (\<lambda>now. ret_op (Some (now + yb_days b * (24 * go_hour)))) else ret_op None)
           (\<lambda>expires.
           answer (\<lambda>e. if e = Err_key_name \<or> e = Err_key_expiry then Api_invalid_argument else Api_internal)
             (api_key_create sha rnd org (cl_subject c) \<lparr> nk_project = project, nk_name = yb_name b, nk_expires = expires,
               nk_per_min = yb_per_min b, nk_burst = yb_burst b \<rparr>))))"

definition app_key_query :: "(string \<Rightarrow> uuid option) \<Rightarrow> string \<Rightarrow> (api_key \<times> bool) list api" where
  "app_key_query parse org_id =
     try_op (param_id parse org_id) (\<lambda>org.
     try_op (answer (\<lambda>_. Api_internal) (s_keys_by_org org)) (\<lambda>ks.
     try_op org_clock (\<lambda>now. ret_op (map (\<lambda>k. (k, api_key_expired k now)) ks))))"

definition app_key_revoke :: "(string \<Rightarrow> uuid option) \<Rightarrow> string \<Rightarrow> string \<Rightarrow> unit api" where
  "app_key_revoke parse org_id key_id =
     try_op (param_id parse org_id) (\<lambda>org.
     try_op (param_id parse key_id) (\<lambda>i.
     try_op (answer (not_found_on Err_no_key) (s_key_by_id i)) (\<lambda>k.
     if ak_org k \<noteq> org then fail_op Api_not_found
     else answer (\<lambda>_. Api_internal) (s_key_delete (ak_id k)))))"

end
