(* ===== verification/Sso.thy ===== *)
theory Sso
  imports OrgApi
begin

text \<open>
  Single sign-on: an organization's identity provider (\<open>business/domain/ssobus\<close>, \<open>ssodb\<close>), what is
  checked of a provider and of the identity it asserts (\<open>app/sdk/oidc\<close>), and the login that turns an
  identity into an account, a membership and a session (\<open>app/domain/ssoapp/ssoapp.go\<close>). What the
  provider answers is a parameter, and so are the grammars of addresses and URLs; the secret is kept
  in clear. Discovery documents are not cached here.
\<close>

subsection \<open>Configuration\<close>

definition last_at :: "string \<Rightarrow> string option" where
  "last_at email = (if CHR ''@'' \<in> set email then Some (rev (takeWhile (\<lambda>c. c \<noteq> CHR ''@'') (rev email))) else None)"

definition permits_email :: "sso_config \<Rightarrow> string \<Rightarrow> bool" where
  "permits_email cfg email \<longleftrightarrow> sx_domains cfg = []
     \<or> (case last_at email of None \<Rightarrow> False
        | Some d \<Rightarrow> list_ex (\<lambda>v. equal_fold (trim_prefix (trim_space v) ''@'') (to_lower d)) (sx_domains cfg))"

record new_sso =
  nx_issuer :: string
  nx_client :: string
  nx_secret :: string
  nx_role :: role
  nx_domains :: "string list"
  nx_enabled :: bool

text \<open>\<open>https_url\<close>: an https URL with a host and neither query nor fragment.\<close>

definition validate_sso :: "(string \<Rightarrow> bool) \<Rightarrow> new_sso \<Rightarrow> bool" where
  "validate_sso https_url nx \<longleftrightarrow> https_url (trim_space (nx_issuer nx)) \<and> nx_client nx \<noteq> [] \<and> nx_secret nx \<noteq> [] \<and> nx_role nx \<noteq> Admin"

definition set_sso :: "sso_config \<Rightarrow> sso_config \<Rightarrow> sso_config" where
  "set_sso c r = r\<lparr> sx_issuer := sx_issuer c, sx_client := sx_client c, sx_secret := sx_secret c, sx_role := sx_role c,
     sx_domains := sx_domains c, sx_enabled := sx_enabled c, sx_updated := pg_time (sx_updated c) \<rparr>"

definition s_sso_upsert :: "sso_config \<Rightarrow> unit org_op" where
  "s_sso_upsert c = exec (\<lambda>w.
     if \<not> pg_text (sx_issuer c) \<or> \<not> pg_text (sx_client c) \<or> \<not> list_all pg_text (sx_domains c) then Inl Err_org_db
     else if list_ex (\<lambda>r. sx_org r = sx_org c) (ow_sso w)
     then Inr (w\<lparr> ow_sso := update_where (\<lambda>r. sx_org r = sx_org c) (set_sso c) (ow_sso w) \<rparr>)
     else if sx_org c \<notin> og_id ` set (ow_orgs w) then Inl Err_org_db
     else Inr (w\<lparr> ow_sso := ow_sso w @ [c\<lparr> sx_created := pg_time (sx_created c), sx_updated := pg_time (sx_updated c) \<rparr>] \<rparr>))"

definition s_sso_by_org :: "uuid \<Rightarrow> sso_config org_op" where
  "s_sso_by_org i = one_row Err_no_sso ow_sso (\<lambda>r. sx_org r = i)"

definition s_sso_delete :: "uuid \<Rightarrow> unit org_op" where
  "s_sso_delete i = exec (\<lambda>w. Inr (w\<lparr> ow_sso := filter (\<lambda>r. sx_org r \<noteq> i) (ow_sso w) \<rparr>))"

definition sso_upsert :: "(string \<Rightarrow> bool) \<Rightarrow> uuid \<Rightarrow> new_sso \<Rightarrow> sso_config org_op" where
  "sso_upsert https_url org nx =
     (if \<not> validate_sso https_url nx then fail_op Err_sso_config
      else try_op org_clock (\<lambda>now.
        let c = \<lparr> sx_org = org, sx_issuer = trim_suffix (trim_space (nx_issuer nx)) ''/'', sx_client = nx_client nx,
          sx_secret = nx_secret nx, sx_role = nx_role nx, sx_domains = nx_domains nx, sx_enabled = nx_enabled nx,
          sx_created = now, sx_updated = now \<rparr>
        in try_op (s_sso_upsert c) (\<lambda>_. ret_op c)))"

subsection \<open>The identity provider\<close>

record discovery =
  dd_issuer :: string
  dd_auth :: string
  dd_token :: string
  dd_jwks :: string

record provider =
  pv_issuer :: string
  pv_auth :: string
  pv_token :: string
  pv_jwks :: string

datatype verified_claim = Verified_bool bool | Verified_text string | Verified_other

record id_claims =
  id_issuer :: string
  id_audience :: "string list"
  id_nonce :: string
  id_subject :: string
  id_email :: string
  id_verified :: verified_claim
  id_name :: string

record identity =
  ie_subject :: string
  ie_email :: string
  ie_name :: string

text \<open>
  The answers of providers: the discovery document of an URL, the id token for a code, and the claims
  of an id token whose algorithm, signature and times the library accepts with the provider's keys.
\<close>

record idp =
  ip_document :: "string \<Rightarrow> discovery option"
  ip_exchange :: "provider \<Rightarrow> string \<Rightarrow> string \<Rightarrow> string \<Rightarrow> string \<Rightarrow> string option"
  ip_claims :: "provider \<Rightarrow> string \<Rightarrow> id_claims option"

definition discover :: "idp \<Rightarrow> string \<Rightarrow> provider option" where
  "discover ip issuer =
     (let issuer = trim_suffix issuer ''/'' in
      case ip_document ip (issuer @ ''/.well-known/openid-configuration'') of
        None \<Rightarrow> None
      | Some d \<Rightarrow> if trim_suffix (dd_issuer d) ''/'' \<noteq> issuer \<or> dd_auth d = [] \<or> dd_token d = [] \<or> dd_jwks d = [] then None
          else Some \<lparr> pv_issuer = issuer, pv_auth = dd_auth d, pv_token = dd_token d, pv_jwks = dd_jwks d \<rparr>)"

definition is_true :: "verified_claim \<Rightarrow> bool" where
  "is_true v = (case v of Verified_bool b \<Rightarrow> b | Verified_text t \<Rightarrow> equal_fold t ''true'' | Verified_other \<Rightarrow> False)"

definition verify_id_token :: "idp \<Rightarrow> provider \<Rightarrow> string \<Rightarrow> string \<Rightarrow> string \<Rightarrow> bool \<Rightarrow> identity option" where
  "verify_id_token ip p raw client nonce require_verified =
     Option.bind (ip_claims ip p raw) (\<lambda>c.
     if id_issuer c \<noteq> pv_issuer p \<or> client \<notin> set (id_audience c) \<or> nonce = [] \<or> id_nonce c \<noteq> nonce \<or> id_subject c = [] then None
     else let email = to_lower (trim_space (id_email c)) in
       if email = [] \<or> require_verified \<and> \<not> is_true (id_verified c) then None
       else Some \<lparr> ie_subject = id_subject c, ie_email = email, ie_name = id_name c \<rparr>)"

subsection \<open>Accounts of identities\<close>

abbreviation password_alphabet :: string where
  "password_alphabet \<equiv> ''abcdefghijklmnopqrstuvwxyzABCDEFGHIJKLMNOPQRSTUVWXYZ0123456789#@!-''"

text \<open>The numbers drawn, one per character; \<open>None\<close> when drawing fails.\<close>

definition random_password :: "nat list option \<Rightarrow> string option" where
  "random_password draws = Option.bind draws (\<lambda>ns.
     let p = map (\<lambda>n. password_alphabet ! (n mod 66)) (take 19 ns) in if valid_password p then Some p else None)"

text \<open>An account that is enabled at once, with a password nobody knows.\<close>

definition create_enabled_user ::
  "(string \<Rightarrow> string option) \<Rightarrow> nat list option \<Rightarrow> string \<Rightarrow> string \<Rightarrow> account org_op" where
  "create_enabled_user digest draws name email =
     (case random_password draws of
        None \<Rightarrow> fail_op Err_auth_failure
      | Some p \<Rightarrow>
          try_op (user_create digest uuid_nil \<lparr> nu_name = name, nu_email = email, nu_roles = [User], nu_password = p \<rparr>) (\<lambda>a.
          user_update digest (ac_id a) a
            \<lparr> uu_name = None, uu_email = None, uu_roles = None, uu_password = None, uu_enabled = Some True \<rparr>))"

text \<open>The fallback for a display name that is no name is the start of the address.\<close>

definition sso_name :: "identity \<Rightarrow> string \<Rightarrow> string option" where
  "sso_name ie addr =
     (let display = (if ie_name ie = [] then ie_email ie else ie_name ie) in
      if valid_name display then Some display
      else if valid_name (take 19 addr) then Some (take 19 addr) else None)"

definition create_sso_user ::
  "(string \<Rightarrow> string option) \<Rightarrow> nat list option \<Rightarrow> identity \<Rightarrow> string \<Rightarrow> account org_op" where
  "create_sso_user digest draws ie addr =
     (case sso_name ie addr of None \<Rightarrow> fail_op Err_auth_failure | Some n \<Rightarrow> create_enabled_user digest draws n addr)"

definition sso_provision ::
  "(string \<Rightarrow> string option) \<Rightarrow> (string \<Rightarrow> string option) \<Rightarrow> nat list option \<Rightarrow> sso_config \<Rightarrow> identity \<Rightarrow> account org_op" where
  "sso_provision address digest draws cfg ie =
     (case address (ie_email ie) of
        None \<Rightarrow> fail_op Err_auth_failure
      | Some addr \<Rightarrow>
          try_op (case_op (c_user_by_email Ingest_service addr)
            (\<lambda>e. if e = Err_no_account then create_sso_user digest draws ie addr else fail_op e) ret_op) (\<lambda>a.
          case_op (ext_add_member (ac_id a) (sx_org cfg) (ac_id a) (sx_role cfg))
            (\<lambda>e. if e = Err_member_exists then ret_op a else fail_op e) (\<lambda>_. ret_op a)))"

abbreviation sso_session_life :: duration where "sso_session_life \<equiv> 12 * go_hour"

definition mint_session :: "token_lib \<Rightarrow> string \<Rightarrow> account \<Rightarrow> uuid \<Rightarrow> (org_world, org_error, string) op" where
  "mint_session lib kid a org =
     try_op org_clock (\<lambda>now.
     case generate_token lib kid ((no_claims lib)\<lparr> jw_subject := tl_show lib (ac_id a), jw_issued := time_truncate now go_second,
         jw_expires := time_truncate (now + sso_session_life) go_second, jw_roles := map role_string (ac_roles a),
         jw_org := tl_show lib org \<rparr>) of
       None \<Rightarrow> fail_op Err_auth_failure
     | Some t \<Rightarrow> ret_op t)"

subsection \<open>The login\<close>

definition app_sso_start :: "idp \<Rightarrow> string \<Rightarrow> (provider \<times> string \<times> uuid) api" where
  "app_sso_start ip slug =
     try_op (answer (\<lambda>_. Api_not_found) (s_org_by_slug slug)) (\<lambda>og.
     try_op (answer (\<lambda>_. Api_not_found) (s_sso_by_org (og_id og))) (\<lambda>cfg.
     if \<not> sx_enabled cfg then fail_op Api_not_found
     else case discover ip (sx_issuer cfg) of None \<Rightarrow> fail_op Api_internal | Some p \<Rightarrow> ret_op (p, sx_client cfg, og_id og)))"

text \<open>
  The settings of the service, and the login state that was stored for the organization when the
  login began and is consumed by the callback (its nonce and its code verifier).
\<close>

record sso_service =
  xs_idp :: idp
  xs_address :: "string \<Rightarrow> string option"
  xs_digest :: "string \<Rightarrow> string option"
  xs_callback :: string
  xs_require_verified :: bool
  xs_kid :: string

record login =
  lg_org :: uuid
  lg_nonce :: string
  lg_verifier :: string

datatype callback_reply = Callback_error string | Callback_token string

text \<open>Every failure sends the browser back with a reason; a token is put away under a one-time code.\<close>

definition or_callback_error :: "string \<Rightarrow> 'a org_op \<Rightarrow> ('a \<Rightarrow> callback_reply org_op) \<Rightarrow> callback_reply org_op" where
  "or_callback_error reason m k = case_op m (\<lambda>_. ret_op (Callback_error reason)) k"

definition app_sso_callback ::
  "token_lib \<Rightarrow> sso_service \<Rightarrow> nat list option \<Rightarrow> string \<Rightarrow> login option \<Rightarrow> string \<Rightarrow> callback_reply org_op" where
  "app_sso_callback lib xs draws provider_error ls code =
     (if provider_error \<noteq> [] then ret_op (Callback_error provider_error)
      else case ls of
        None \<Rightarrow> ret_op (Callback_error ''invalid_state'')
      | Some l \<Rightarrow>
          or_callback_error ''sso_unavailable'' (s_sso_by_org (lg_org l)) (\<lambda>cfg.
          if \<not> sx_enabled cfg then ret_op (Callback_error ''sso_unavailable'')
          else case discover (xs_idp xs) (sx_issuer cfg) of
            None \<Rightarrow> ret_op (Callback_error ''provider_unreachable'')
          | Some p \<Rightarrow> (case ip_exchange (xs_idp xs) p (sx_client cfg) (sx_secret cfg) code (lg_verifier l) of
              None \<Rightarrow> ret_op (Callback_error ''exchange_failed'')
            | Some raw \<Rightarrow> (case verify_id_token (xs_idp xs) p raw (sx_client cfg) (lg_nonce l) (xs_require_verified xs) of
                None \<Rightarrow> ret_op (Callback_error ''verification_failed'')
              | Some ie \<Rightarrow>
                  if \<not> permits_email cfg (ie_email ie) then ret_op (Callback_error ''domain_not_allowed'')
                  else or_callback_error ''provisioning_failed'' (sso_provision (xs_address xs) (xs_digest xs) draws cfg ie) (\<lambda>a.
                    or_callback_error ''session_failed'' (mint_session lib (xs_kid xs) a (lg_org l)) (\<lambda>t.
                    ret_op (Callback_token t)))))))"

subsection \<open>The handlers of organization admins\<close>

record sso_body =
  xb_issuer :: string
  xb_client :: string
  xb_secret :: string
  xb_role :: string
  xb_domains :: "string list"
  xb_enabled :: "bool option"

definition to_bus_new_sso :: "sso_body \<Rightarrow> new_sso option" where
  "to_bus_new_sso b =
     (if trim_space (xb_issuer b) = [] \<or> trim_space (xb_client b) = [] \<or> trim_space (xb_secret b) = [] then None
      else case (if xb_role b = [] then Some User else role_parse (xb_role b)) of
        None \<Rightarrow> None
      | Some r \<Rightarrow> if r = Admin then None
          else Some \<lparr> nx_issuer = xb_issuer b, nx_client = xb_client b, nx_secret = xb_secret b, nx_role = r,
            nx_domains = map (\<lambda>d. to_lower (trim_prefix d ''@'')) (filter (\<lambda>d. d \<noteq> []) (map trim_space (xb_domains b))),
            nx_enabled = (case xb_enabled b of None \<Rightarrow> True | Some v \<Rightarrow> v) \<rparr>)"

definition app_sso_query :: "(string \<Rightarrow> uuid option) \<Rightarrow> string \<Rightarrow> sso_config api" where
  "app_sso_query parse org_id =
     try_op (param_id parse org_id) (\<lambda>org. answer (not_found_on Err_no_sso) (s_sso_by_org org))"

definition app_sso_upsert :: "(string \<Rightarrow> uuid option) \<Rightarrow> (string \<Rightarrow> bool) \<Rightarrow> idp \<Rightarrow> string \<Rightarrow> sso_body option \<Rightarrow> sso_config api" where
  "app_sso_upsert parse https_url ip org_id body =
     try_op (param_id parse org_id) (\<lambda>org.
     case Option.bind body to_bus_new_sso of
       None \<Rightarrow> fail_op Api_invalid_argument
     | Some nx \<Rightarrow> if discover ip (nx_issuer nx) = None then fail_op Api_invalid_argument
         else answer (\<lambda>e. if e = Err_sso_config then Api_invalid_argument else Api_internal) (sso_upsert https_url org nx))"

definition app_sso_remove :: "(string \<Rightarrow> uuid option) \<Rightarrow> string \<Rightarrow> unit api" where
  "app_sso_remove parse org_id =
     try_op (param_id parse org_id) (\<lambda>org. answer (\<lambda>_. Api_internal) (s_sso_delete org))"

end
