(* ===== verification/Scim.thy ===== *)
theory Scim
  imports Sso Tickets
begin

text \<open>
  Provisioning by an identity provider (SCIM): the token of an organization (\<open>business/domain/scimbus\<close>,
  \<open>scimdb\<close>), its administration (\<open>app/domain/ssoapp\<close>), and the user resource
  (\<open>app/domain/scimapp\<close>). A failure is an HTTP status with the SCIM type of the error. The digest, the
  grammar of addresses and the texts of identifiers are parameters, random bytes an argument.
\<close>

subsection \<open>Tokens\<close>

abbreviation scim_key_scheme :: string where "scim_key_scheme \<equiv> ''ls_scim_''"

definition hash_scim_token :: "(string \<Rightarrow> string) \<Rightarrow> string \<Rightarrow> string" where
  "hash_scim_token sha raw = hex_encode (sha raw)"

definition has_scim_scheme :: "string \<Rightarrow> bool" where
  "has_scim_scheme raw = has_prefix raw scim_key_scheme"

definition generate_scim_token :: "(string \<Rightarrow> string) \<Rightarrow> nat list option \<Rightarrow> (string \<times> string \<times> string) option" where
  "generate_scim_token sha rnd = map_option (\<lambda>buf.
     let raw = scim_key_scheme @ base64url buf
     in (raw, hash_scim_token sha raw, take (length scim_key_scheme + 8) raw)) rnd"

definition s_scim_upsert :: "scim_token \<Rightarrow> unit org_op" where
  "s_scim_upsert t = exec (\<lambda>w.
     if list_ex (\<lambda>r. sm_org r \<noteq> sm_org t \<and> sm_hash r = sm_hash t) (ow_scim w) then Inl Err_org_db
     else if list_ex (\<lambda>r. sm_org r = sm_org t) (ow_scim w)
     then Inr (w\<lparr> ow_scim := update_where (\<lambda>r. sm_org r = sm_org t) (\<lambda>r. r\<lparr> sm_hash := sm_hash t, sm_prefix := sm_prefix t,
       sm_created := pg_time (sm_created t), sm_used := None \<rparr>) (ow_scim w) \<rparr>)
     else if sm_org t \<notin> og_id ` set (ow_orgs w) then Inl Err_org_db
     else Inr (w\<lparr> ow_scim := ow_scim w @ [t\<lparr> sm_created := pg_time (sm_created t), sm_used := None \<rparr>] \<rparr>))"

definition s_scim_by_hash :: "string \<Rightarrow> scim_token org_op" where
  "s_scim_by_hash h = one_row Err_no_scim ow_scim (\<lambda>t. sm_hash t = h)"

definition s_scim_by_org :: "uuid \<Rightarrow> scim_token org_op" where
  "s_scim_by_org i = one_row Err_no_scim ow_scim (\<lambda>t. sm_org t = i)"

definition s_scim_delete :: "uuid \<Rightarrow> unit org_op" where
  "s_scim_delete i = exec (\<lambda>w. Inr (w\<lparr> ow_scim := filter (\<lambda>t. sm_org t \<noteq> i) (ow_scim w) \<rparr>))"

definition s_scim_touch :: "uuid \<Rightarrow> instant \<Rightarrow> unit org_op" where
  "s_scim_touch i now = exec (\<lambda>w. Inr (w\<lparr> ow_scim :=
     update_where (\<lambda>t. sm_org t = i) (\<lambda>t. t\<lparr> sm_used := Some (pg_time now) \<rparr>) (ow_scim w) \<rparr>))"

definition scim_issue :: "(string \<Rightarrow> string) \<Rightarrow> nat list option \<Rightarrow> uuid \<Rightarrow> (scim_token \<times> string) org_op" where
  "scim_issue sha rnd org =
     (case generate_scim_token sha rnd of
        None \<Rightarrow> fail_op Err_scim_random
      | Some (raw, hash, shown) \<Rightarrow> try_op org_clock (\<lambda>now.
          let t = \<lparr> sm_org = org, sm_hash = hash, sm_prefix = shown, sm_created = now, sm_used = None \<rparr>
          in try_op (s_scim_upsert t) (\<lambda>_. ret_op (t, raw))))"

text \<open>A failure to record the use is logged.\<close>

definition scim_authenticate :: "(string \<Rightarrow> string) \<Rightarrow> string \<Rightarrow> uuid org_op" where
  "scim_authenticate sha raw =
     (if \<not> has_scim_scheme raw then fail_op Err_no_scim
      else case_op (s_scim_by_hash (hash_scim_token sha raw)) (\<lambda>_. fail_op Err_no_scim) (\<lambda>t.
        try_op org_clock (\<lambda>now.
        case_op (s_scim_touch (sm_org t) now) (\<lambda>_. ret_op (sm_org t)) (\<lambda>_. ret_op (sm_org t)))))"

subsection \<open>Administration of the token\<close>

definition app_query_scim_token :: "(string \<Rightarrow> uuid option) \<Rightarrow> string \<Rightarrow> scim_token option api" where
  "app_query_scim_token parse org_id =
     try_op (param_id parse org_id) (\<lambda>org.
     case_op (s_scim_by_org org) (\<lambda>e. if e = Err_no_scim then ret_op None else fail_op Api_internal) (\<lambda>t. ret_op (Some t)))"

definition app_issue_scim_token ::
  "(string \<Rightarrow> string) \<Rightarrow> (string \<Rightarrow> uuid option) \<Rightarrow> nat list option \<Rightarrow> string \<Rightarrow> (scim_token \<times> string) api" where
  "app_issue_scim_token sha parse rnd org_id =
     try_op (param_id parse org_id) (\<lambda>org. answer (\<lambda>_. Api_internal) (scim_issue sha rnd org))"

definition app_revoke_scim_token :: "(string \<Rightarrow> uuid option) \<Rightarrow> string \<Rightarrow> unit api" where
  "app_revoke_scim_token parse org_id =
     try_op (param_id parse org_id) (\<lambda>org. answer (\<lambda>_. Api_internal) (s_scim_delete org))"

subsection \<open>Resources\<close>

type_synonym 'a scim = "(org_world, nat \<times> string, 'a) op"

definition scim_err :: "nat \<Rightarrow> string \<Rightarrow> 'a scim" where
  "scim_err status kind = fail_op (status, kind)"

definition or_status :: "nat \<Rightarrow> 'a org_op \<Rightarrow> 'a scim" where
  "or_status status m = case_op m (\<lambda>_. scim_err status []) ret_op"

record scim_email =
  ee_value :: string
  ee_primary :: bool

record scim_name =
  na_formatted :: string
  na_given :: string
  na_family :: string

record scim_user =
  cu_user_name :: string
  cu_name :: "scim_name option"
  cu_emails :: "scim_email list"
  cu_active :: bool

definition primary_email :: "scim_user \<Rightarrow> string" where
  "primary_email u = to_lower (trim_space
     (case List.find (\<lambda>e. ee_primary e \<and> ee_value e \<noteq> []) (cu_emails u) of
        Some e \<Rightarrow> ee_value e
      | None \<Rightarrow> (case List.find (\<lambda>e. ee_value e \<noteq> []) (cu_emails u) of Some e \<Rightarrow> ee_value e | None \<Rightarrow> cu_user_name u)))"

definition display_name :: "scim_user \<Rightarrow> string" where
  "display_name u =
     (case cu_name u of
        None \<Rightarrow> cu_user_name u
      | Some n \<Rightarrow>
          if na_formatted n \<noteq> [] then na_formatted n
          else let joined = trim_space (na_given n @ '' '' @ na_family n) in
            if joined \<noteq> [] then joined else cu_user_name u)"

text \<open>The resource of an account: its id, its address, its name and whether it is active here.\<close>

record scim_resource =
  cr_id :: uuid
  cr_email :: string
  cr_name :: string
  cr_active :: bool

definition to_scim_user :: "account \<Rightarrow> org_member option \<Rightarrow> scim_resource" where
  "to_scim_user a m = \<lparr> cr_id = ac_id a, cr_email = ac_email a, cr_name = ac_name a, cr_active = (m \<noteq> None \<and> ac_enabled a) \<rparr>"

record scim_operation =
  so_op :: string
  so_path :: string
  so_value :: "json option"

text \<open>The member \<open>active\<close> of a struct with a pointer to a bool, the last one that is there.\<close>

fun active_member :: "members \<Rightarrow> bool option \<Rightarrow> bool option option" where
  "active_member [] v = Some v"
| "active_member ((k, x) # ms) v =
     (if \<not> equal_fold k ''active'' then active_member ms v
      else case x of J_bool b \<Rightarrow> active_member ms (Some b) | J_null \<Rightarrow> active_member ms None | _ \<Rightarrow> None)"

definition operation_active :: "scim_operation \<Rightarrow> bool option" where
  "operation_active p =
     (if \<not> equal_fold (so_op p) ''replace'' \<and> \<not> equal_fold (so_op p) ''add'' then None
      else if equal_fold (trim_space (so_path p)) ''active'' then
        (case so_value p of
           Some (J_bool b) \<Rightarrow> Some b
         | Some (J_string t) \<Rightarrow> Some (equal_fold t ''true'')
         | _ \<Rightarrow> None)
      else if so_path p = [] then
        (case so_value p of Some (J_object ms) \<Rightarrow> Option.bind (active_member ms None) (\<lambda>v. v) | _ \<Rightarrow> None)
      else None)"

fun active_from_patch :: "scim_operation list \<Rightarrow> bool option" where
  "active_from_patch [] = None"
| "active_from_patch (p # ps) = (case operation_active p of Some b \<Rightarrow> Some b | None \<Rightarrow> active_from_patch ps)"

definition parse_user_name_eq :: "string \<Rightarrow> string option" where
  "parse_user_name_eq filter_text =
     (let f = trim_space filter_text in
      if \<not> has_prefix (to_lower f) ''username eq '' then None
      else let v = trim_space (drop 12 f);
        v = (if 2 \<le> length v \<and> hd v = CHR 0x22 \<and> last v = CHR 0x22 then butlast (tl v) else v)
        in if v = [] then None else Some (to_lower v))"

subsection \<open>What the handlers share\<close>

text \<open>The parameters of the service.\<close>

record scim_service =
  cv_sha :: "string \<Rightarrow> string"
  cv_parse :: "string \<Rightarrow> uuid option"
  cv_address :: "string \<Rightarrow> string option"
  cv_digest :: "string \<Rightarrow> string option"

definition org_from_token :: "scim_service \<Rightarrow> string \<Rightarrow> uuid scim" where
  "org_from_token cv header =
     (let scheme = takeWhile (\<lambda>c. c \<noteq> CHR '' '') header; rest = dropWhile (\<lambda>c. c \<noteq> CHR '' '') header in
      if rest = [] \<or> \<not> equal_fold scheme ''bearer'' \<or> tl rest = [] then scim_err 401 []
      else or_status 401 (scim_authenticate (cv_sha cv) (tl rest)))"

definition member_of :: "uuid \<Rightarrow> uuid \<Rightarrow> org_member option org_op" where
  "member_of org user = try_op (s_query_members org) (\<lambda>ms. ret_op (List.find (\<lambda>m. me_user m = user) ms))"

definition scim_param :: "scim_service \<Rightarrow> string \<Rightarrow> uuid scim" where
  "scim_param cv v = (case cv_parse cv v of None \<Rightarrow> scim_err 404 [] | Some i \<Rightarrow> ret_op i)"

text \<open>The role of a member that is provisioned: the one of the organization's single sign-on.\<close>

definition scim_default_role :: "uuid \<Rightarrow> role scim" where
  "scim_default_role org = case_op (s_sso_by_org org) (\<lambda>_. ret_op User) (\<lambda>c. ret_op (sx_role c))"

text \<open>Adding a member: \<open>None\<close> when there is one already.\<close>

definition scim_add_member :: "uuid \<Rightarrow> uuid \<Rightarrow> org_member option scim" where
  "scim_add_member org user =
     try_op (scim_default_role org) (\<lambda>r.
     case_op (ext_add_member user org user r)
       (\<lambda>e. if e = Err_member_exists then ret_op None else scim_err 500 []) (\<lambda>m. ret_op (Some m)))"

definition lookup_by_email :: "scim_service \<Rightarrow> uuid \<Rightarrow> string \<Rightarrow> (account \<times> org_member option) option org_op" where
  "lookup_by_email cv org email =
     (case cv_address cv email of
        None \<Rightarrow> ret_op None
      | Some addr \<Rightarrow> case_op (c_user_by_email Ingest_service addr)
          (\<lambda>e. if e = Err_no_account then ret_op None else fail_op e)
          (\<lambda>a. try_op (member_of org (ac_id a)) (\<lambda>m. ret_op (Some (a, m)))))"

text \<open>The name falls back to what precedes the at sign of the address.\<close>

definition scim_local_name :: "string \<Rightarrow> string \<Rightarrow> string option" where
  "scim_local_name display addr =
     (let display = (if display = [] then addr else display) in
      if valid_name display then Some display
      else let before = takeWhile (\<lambda>c. c \<noteq> CHR ''@'') addr;
        local = take 19 (if CHR ''@'' \<in> set addr \<and> before \<noteq> [] then before else addr)
        in if valid_name local then Some local else None)"

definition create_local_user :: "scim_service \<Rightarrow> nat list option \<Rightarrow> scim_user \<Rightarrow> string \<Rightarrow> account org_op" where
  "create_local_user cv draws b addr =
     (case scim_local_name (display_name b) addr of
        None \<Rightarrow> fail_op Err_auth_failure
      | Some n \<Rightarrow> create_enabled_user (cv_digest cv) draws n addr)"

text \<open>Only the membership goes, and only where there is one.\<close>

definition deprovision :: "uuid \<Rightarrow> uuid \<Rightarrow> unit scim" where
  "deprovision org user =
     try_op (or_status 500 (member_of org user)) (\<lambda>m.
     case m of None \<Rightarrow> ret_op () | Some m \<Rightarrow> or_status 500 (ext_remove_member user (me_id m)))"

definition set_active :: "uuid \<Rightarrow> uuid \<Rightarrow> bool \<Rightarrow> scim_resource scim" where
  "set_active org user active =
     try_op (or_status 404 (c_user_by_id Ingest_service user)) (\<lambda>a.
     if \<not> active then try_op (deprovision org user) (\<lambda>_. ret_op (to_scim_user a None))
     else try_op (scim_add_member org user) (\<lambda>m.
       case m of
         Some m \<Rightarrow> ret_op (to_scim_user a (Some m))
       | None \<Rightarrow> try_op (or_status 500 (member_of org user)) (\<lambda>m.
           if m = None then scim_err 500 [] else ret_op (to_scim_user a m))))"

subsection \<open>The handlers\<close>

definition scim_resource_of :: "member_user \<Rightarrow> scim_resource list scim" where
  "scim_resource_of x = case_op (c_user_by_id Ingest_service (me_user (mu_member x)))
     (\<lambda>_. ret_op []) (\<lambda>a. ret_op [to_scim_user a (Some (mu_member x))])"

fun scim_resources :: "member_user list \<Rightarrow> scim_resource list scim" where
  "scim_resources [] = ret_op []"
| "scim_resources (x # xs) =
     try_op (scim_resource_of x) (\<lambda>r. try_op (scim_resources xs) (\<lambda>rs. ret_op (r @ rs)))"

definition scim_query_users :: "scim_service \<Rightarrow> string \<Rightarrow> string \<Rightarrow> scim_resource list scim" where
  "scim_query_users cv header raw =
     try_op (org_from_token cv header) (\<lambda>org.
     if raw \<noteq> [] then
       (case parse_user_name_eq raw of
          None \<Rightarrow> scim_err 400 ''invalidFilter''
        | Some email \<Rightarrow> try_op (or_status 500 (lookup_by_email cv org email)) (\<lambda>x.
            ret_op (case x of Some (a, Some m) \<Rightarrow> [to_scim_user a (Some m)] | _ \<Rightarrow> [])))
     else try_op (or_status 500 (s_members_with_users org)) scim_resources)"

definition scim_get_user :: "scim_service \<Rightarrow> string \<Rightarrow> string \<Rightarrow> scim_resource scim" where
  "scim_get_user cv header scim_id =
     try_op (org_from_token cv header) (\<lambda>org.
     try_op (scim_param cv scim_id) (\<lambda>user.
     try_op (or_status 404 (c_user_by_id Ingest_service user)) (\<lambda>a.
     try_op (or_status 500 (member_of org user)) (\<lambda>m.
     if m = None then scim_err 404 [] else ret_op (to_scim_user a m)))))"

definition scim_create_user :: "scim_service \<Rightarrow> nat list option \<Rightarrow> string \<Rightarrow> scim_user option \<Rightarrow> scim_resource scim" where
  "scim_create_user cv draws header body =
     try_op (org_from_token cv header) (\<lambda>org.
     case body of
       None \<Rightarrow> scim_err 400 ''invalidSyntax''
     | Some b \<Rightarrow> (case cv_address cv (primary_email b) of
         None \<Rightarrow> scim_err 400 ''invalidValue''
       | Some addr \<Rightarrow>
           try_op (or_status 500 (lookup_by_email cv org (primary_email b))) (\<lambda>x.
           if (case x of Some (a, Some m) \<Rightarrow> True | _ \<Rightarrow> False) then scim_err 409 ''uniqueness''
           else try_op (case x of
               Some (a, m) \<Rightarrow> ret_op a
             | None \<Rightarrow> or_status 500 (create_local_user cv draws b addr)) (\<lambda>a.
             try_op (scim_add_member org (ac_id a)) (\<lambda>_.
             ret_op \<lparr> cr_id = ac_id a, cr_email = ac_email a, cr_name = ac_name a, cr_active = ac_enabled a \<rparr>)))))"

definition scim_patch_user :: "scim_service \<Rightarrow> string \<Rightarrow> string \<Rightarrow> scim_operation list option \<Rightarrow> scim_resource scim" where
  "scim_patch_user cv header scim_id body =
     try_op (org_from_token cv header) (\<lambda>org.
     try_op (scim_param cv scim_id) (\<lambda>user.
     case body of
       None \<Rightarrow> scim_err 400 ''invalidSyntax''
     | Some ps \<Rightarrow> (case active_from_patch ps of
         None \<Rightarrow> scim_get_user cv header scim_id
       | Some active \<Rightarrow> set_active org user active)))"

definition scim_put_user :: "scim_service \<Rightarrow> string \<Rightarrow> string \<Rightarrow> scim_user option \<Rightarrow> scim_resource scim" where
  "scim_put_user cv header scim_id body =
     try_op (org_from_token cv header) (\<lambda>org.
     try_op (scim_param cv scim_id) (\<lambda>user.
     case body of None \<Rightarrow> scim_err 400 ''invalidSyntax'' | Some b \<Rightarrow> set_active org user (cu_active b)))"

definition scim_delete_user :: "scim_service \<Rightarrow> string \<Rightarrow> string \<Rightarrow> unit scim" where
  "scim_delete_user cv header scim_id =
     try_op (org_from_token cv header) (\<lambda>org. try_op (scim_param cv scim_id) (\<lambda>user. deprovision org user))"

end
