(* ===== verification/OrgFrame.thy ===== *)
theory OrgFrame
  imports Billing ApiKeys Scim
begin

text \<open>
  How a property of the organizations' world survives a request. \<open>returns P m Q\<close> says that an
  operation keeps \<open>P\<close> and that what it answers satisfies \<open>Q\<close>; the locale \<open>org_frame\<close> is what a
  property has to promise about the bookkeeping every statement does (faults, clock, identifiers,
  audit records), \<open>org_laws\<close> about the statements themselves, and \<open>member_laws\<close> about the two that
  edit a membership. Inside them every handler is shown to keep the property, once for all of them.
\<close>

named_theorems keeps_intros

definition returns :: "('s \<Rightarrow> bool) \<Rightarrow> ('s, 'e, 'a) op \<Rightarrow> ('a \<Rightarrow> bool) \<Rightarrow> bool" where
  "returns P m Q \<longleftrightarrow> (\<forall>s. P s \<longrightarrow> P (snd (m s)) \<and> (\<forall>x. fst (m s) = Inr x \<longrightarrow> Q x))"

lemma returns_keeps: "returns P m Q \<Longrightarrow> keeps P m"
  by (simp add: returns_def keeps_def)

lemma keeps_returns: "keeps P m \<Longrightarrow> returns P m (\<lambda>_. True)"
  by (simp add: returns_def keeps_def)

lemma returns_weaken: "returns P m Q \<Longrightarrow> (\<And>x. Q x \<Longrightarrow> Q' x) \<Longrightarrow> returns P m Q'"
  by (auto simp: returns_def)

lemma returns_ret: "Q x \<Longrightarrow> returns P (ret_op x) Q"
  by (simp add: returns_def)

lemma returns_fail: "returns P (fail_op e) Q"
  by (simp add: returns_def)

lemma returns_try:
  assumes "returns P m Q" and "\<And>x. Q x \<Longrightarrow> returns P (k x) Q'"
  shows "returns P (try_op m k) Q'"
  unfolding returns_def
proof (intro allI impI)
  fix s assume "P s"
  then have m: "P (snd (m s))" "\<And>x. fst (m s) = Inr x \<Longrightarrow> Q x" using assms(1) by (auto simp: returns_def)
  show "P (snd (try_op m k s)) \<and> (\<forall>x. fst (try_op m k s) = Inr x \<longrightarrow> Q' x)"
  proof (cases "m s")
    case (Pair r s')
    show ?thesis
    proof (cases r)
      case (Inl e)
      with Pair m show ?thesis by simp
    next
      case (Inr x)
      with Pair m have "P s'" "Q x" by auto
      with assms(2) [of x] Pair Inr show ?thesis by (simp add: returns_def)
    qed
  qed
qed

lemma returns_case:
  assumes "returns P m Q" and "\<And>e. returns P (h e) Q'" and "\<And>x. Q x \<Longrightarrow> returns P (k x) Q'"
  shows "returns P (case_op m h k) Q'"
  unfolding returns_def
proof (intro allI impI)
  fix s assume s: "P s"
  then have m: "P (snd (m s))" "\<And>x. fst (m s) = Inr x \<Longrightarrow> Q x" using assms(1) by (auto simp: returns_def)
  show "P (snd (case_op m h k s)) \<and> (\<forall>x. fst (case_op m h k s) = Inr x \<longrightarrow> Q' x)"
  proof (cases "m s")
    case (Pair r s')
    show ?thesis
    proof (cases r)
      case (Inl e)
      with Pair m have "P s'" by simp
      with assms(2) [of e] Pair Inl show ?thesis by (simp add: returns_def)
    next
      case (Inr x)
      with Pair m have "P s'" "Q x" by auto
      with assms(3) [of x] Pair Inr show ?thesis by (simp add: returns_def)
    qed
  qed
qed

lemma keeps_try_returns:
  "returns P m Q \<Longrightarrow> (\<And>x. Q x \<Longrightarrow> keeps P (k x)) \<Longrightarrow> keeps P (try_op m k)"
  by (rule returns_keeps, rule returns_try [of P m Q k "\<lambda>_. True"]) (auto intro: keeps_returns)

lemma keeps_case_returns:
  "returns P m Q \<Longrightarrow> (\<And>e. keeps P (h e)) \<Longrightarrow> (\<And>x. Q x \<Longrightarrow> keeps P (k x)) \<Longrightarrow> keeps P (case_op m h k)"
  by (rule returns_keeps, rule returns_case [of P m Q h "\<lambda>_. True" k]) (auto intro: keeps_returns)

text \<open>With a property of the state after each step: \<open>E\<close> holds where the operation fails.\<close>

definition ensures :: "('s \<Rightarrow> bool) \<Rightarrow> ('s \<Rightarrow> bool) \<Rightarrow> ('s, 'e, 'a) op \<Rightarrow> ('a \<Rightarrow> 's \<Rightarrow> bool) \<Rightarrow> bool" where
  "ensures E P m Q \<longleftrightarrow> (\<forall>s. P s \<longrightarrow> (case m s of (Inl e, s') \<Rightarrow> E s' | (Inr x, s') \<Rightarrow> Q x s'))"

lemma ensures_try:
  assumes "ensures E P m Q" and "\<And>x. ensures E (Q x) (k x) R"
  shows "ensures E P (try_op m k) R"
  unfolding ensures_def
proof (intro allI impI)
  fix s assume s: "P s"
  obtain r s' where m: "m s = (r, s')" by fastforce
  show "case try_op m k s of (Inl e, s') \<Rightarrow> E s' | (Inr x, s') \<Rightarrow> R x s'"
  proof (cases r)
    case (Inl e)
    then show ?thesis using assms(1) s m by (auto simp: ensures_def)
  next
    case (Inr x)
    then have "Q x s'" using assms(1) s m by (auto simp: ensures_def)
    then show ?thesis using assms(2) [of x] m Inr by (simp add: ensures_def)
  qed
qed

lemma ensures_ret: "(\<And>s. P s \<Longrightarrow> Q x s) \<Longrightarrow> ensures E P (ret_op x) Q"
  by (simp add: ensures_def)

lemma ensures_fail: "(\<And>s. P s \<Longrightarrow> E s) \<Longrightarrow> ensures E P (fail_op e) Q"
  by (simp add: ensures_def)

lemma ensures_if: "(b \<Longrightarrow> ensures E P m Q) \<Longrightarrow> (\<not> b \<Longrightarrow> ensures E P n Q) \<Longrightarrow> ensures E P (if b then m else n) Q"
  by simp

lemma ensures_weaken: "ensures E P m Q \<Longrightarrow> (\<And>s. P' s \<Longrightarrow> P s) \<Longrightarrow> (\<And>x s. Q x s \<Longrightarrow> Q' x s) \<Longrightarrow> ensures E P' m Q'"
  by (auto simp: ensures_def split: prod.splits sum.splits) blast+

lemma ensures_error: "ensures E P m Q \<Longrightarrow> (\<And>s. E s \<Longrightarrow> E' s) \<Longrightarrow> ensures E' P m Q"
  by (auto simp: ensures_def split: prod.splits sum.splits) blast

lemma keeps_ensures: "keeps P m \<Longrightarrow> ensures P P m (\<lambda>_. P)"
  by (auto simp: ensures_def keeps_def split: prod.splits sum.splits)

lemma ensures_keeps: "ensures P P m (\<lambda>_. P) \<Longrightarrow> keeps P m"
proof (rule keepsI)
  fix s assume "ensures P P m (\<lambda>_. P)" and "P s"
  then show "P (snd (m s))" by (cases "m s"; cases "fst (m s)") (auto simp: ensures_def)
qed

lemma ensures_exec:
  assumes "\<And>w bs. Q w \<Longrightarrow> Q (w\<lparr> ow_faults := bs \<rparr>)" and "\<And>w. Q w \<Longrightarrow> E w" and "\<And>w w'. Q w \<Longrightarrow> f w = Inr w' \<Longrightarrow> R () w'"
  shows "ensures E Q (exec f) R"
  unfolding ensures_def exec_def org_call_def
  by (auto split: list.splits sum.splits prod.splits dest: assms intro: assms(3) [OF assms(1)])

lemma ensures_row:
  assumes "\<And>w bs. Q w \<Longrightarrow> Q (w\<lparr> ow_faults := bs \<rparr>)" and "\<And>w. Q w \<Longrightarrow> E w" and "\<And>w r. Q w \<Longrightarrow> r \<in> set (rows w) \<Longrightarrow> p r \<Longrightarrow> R r w"
  shows "ensures E Q (one_row e rows p) R"
proof -
  have "case one_row e rows p w of (Inl e, w') \<Rightarrow> E w' | (Inr x, w') \<Rightarrow> R x w'" if w: "Q w" for w
  proof -
    have step: "case (case List.find p (rows v) of None \<Rightarrow> (Inl e, v) | Some r \<Rightarrow> (Inr r, v)) of (Inl e, w') \<Rightarrow> E w' | (Inr x, w') \<Rightarrow> R x w'"
      if "Q v" for v
      using assms(2,3) [OF that] by (auto split: option.splits dest: find_SomeD)
    show ?thesis using w step [of w] step [OF assms(1) [OF w]] assms(2) [OF assms(1) [OF w]]
      by (auto simp: one_row_def org_call_def split: list.splits)
  qed
  then show ?thesis by (simp add: ensures_def)
qed

lemma ensures_clock:
  assumes "\<And>w t ds. Q w \<Longrightarrow> Q (w\<lparr> ow_now := t, ow_ticks := ds \<rparr>)"
  shows "ensures E Q org_clock (\<lambda>_. Q)"
  using assms by (auto simp: ensures_def org_clock_def split: list.splits)

subsection \<open>The shapes of a program\<close>

lemma keeps_if [keeps_intros]: "(b \<Longrightarrow> keeps P m) \<Longrightarrow> (\<not> b \<Longrightarrow> keeps P n) \<Longrightarrow> keeps P (if b then m else n)"
  by simp

lemma keeps_option [keeps_intros]:
  "(x = None \<Longrightarrow> keeps P m) \<Longrightarrow> (\<And>y. x = Some y \<Longrightarrow> keeps P (f y)) \<Longrightarrow> keeps P (case x of None \<Rightarrow> m | Some y \<Rightarrow> f y)"
  by (cases x) auto

lemma keeps_pair [keeps_intros]: "(\<And>a b. x = (a, b) \<Longrightarrow> keeps P (f a b)) \<Longrightarrow> keeps P (case x of (a, b) \<Rightarrow> f a b)"
  by (cases x) auto

lemma keeps_let [keeps_intros]: "keeps P (f x) \<Longrightarrow> keeps P (let y = x in f y)"
  by simp

declare keeps_ret [keeps_intros] keeps_fail [keeps_intros] keeps_try [keeps_intros] keeps_case [keeps_intros]
  keeps_loop [keeps_intros]

lemma keeps_answer [keeps_intros]: "keeps P m \<Longrightarrow> keeps P (answer code m)"
  unfolding answer_def by (intro keeps_intros)

lemma returns_answer: "returns P m Q \<Longrightarrow> returns P (answer code m) Q"
  unfolding answer_def by (rule returns_case [of P m Q]) (auto intro: returns_ret returns_fail)

lemma ensures_answer: "ensures E P m Q \<Longrightarrow> ensures E P (answer code m) Q"
  by (auto simp: ensures_def answer_def case_op_def split: prod.splits sum.splits) (metis (no_types, lifting))+

lemma keeps_param [keeps_intros]: "keeps P (param_id parse v)"
  unfolding param_id_def by (intro keeps_intros)

lemma keeps_user_id [keeps_intros]: "keeps P (user_id c)"
  unfolding user_id_def by (intro keeps_intros)

lemma keeps_ctx_user [keeps_intros]: "keeps P (ctx_user a)"
  unfolding ctx_user_def by (intro keeps_intros)

lemma keeps_or_status [keeps_intros]: "keeps P m \<Longrightarrow> keeps P (or_status n m)"
  unfolding or_status_def scim_err_def by (intro keeps_intros)

lemma returns_or_status: "returns P m Q \<Longrightarrow> returns P (or_status n m) Q"
  unfolding or_status_def scim_err_def by (rule returns_case [of P m Q]) (auto intro: returns_ret returns_fail)

lemma keeps_scim_err [keeps_intros]: "keeps P (scim_err n k)"
  unfolding scim_err_def by (intro keeps_intros)

lemma keeps_scim_param [keeps_intros]: "keeps P (scim_param cv v)"
  unfolding scim_param_def by (intro keeps_intros)

lemma try_ctx_user: "try_op (ctx_user None) k = fail_op Api_internal" "try_op (ctx_user (Some a)) k = k a"
  by (auto simp: fun_eq_iff try_op_def ctx_user_def)

lemma update_keeps_roles: "to_bus_update_user b = Some uu \<Longrightarrow> uu_roles uu = None"
  by (auto simp: to_bus_update_user_def split: option.splits if_splits)

subsection \<open>What every statement does\<close>

locale org_frame =
  fixes P :: "org_world \<Rightarrow> bool"
  assumes faults: "P (w\<lparr> ow_faults := bs \<rparr>) \<longleftrightarrow> P w"
    and tick: "P w \<Longrightarrow> ow_ticks w = d # ds \<Longrightarrow> P (w\<lparr> ow_now := ow_now w + d, ow_ticks := ds \<rparr>)"
    and later: "P w \<Longrightarrow> ow_now w \<le> t \<Longrightarrow> list_all (\<lambda>d. 0 \<le> d) ds \<Longrightarrow> P (w\<lparr> ow_now := t, ow_ticks := ds \<rparr>)"
    and fresh: "P w \<Longrightarrow> P (w\<lparr> ow_fresh := Suc (ow_fresh w) \<rparr>)"
    and trail: "P (w\<lparr> ow_audit := xs \<rparr>) \<longleftrightarrow> P w"
    and touched: "P (w\<lparr> ow_touched := f \<rparr>) \<longleftrightarrow> P w"
begin

lemma returns_call:
  assumes "\<And>w. P w \<Longrightarrow> P (snd (f w)) \<and> (\<forall>x. fst (f w) = Inr x \<longrightarrow> Q x)"
  shows "returns P (org_call f) Q"
proof -
  have "P (snd (org_call f s)) \<and> (\<forall>x. fst (org_call f s) = Inr x \<longrightarrow> Q x)" if "P s" for s
    using assms [of s] assms [of "s\<lparr> ow_faults := tl (ow_faults s) \<rparr>"] that
    by (auto simp: org_call_def faults split: list.splits)
  then show ?thesis by (simp add: returns_def)
qed

lemma keeps_call: "(\<And>w. P w \<Longrightarrow> P (snd (f w))) \<Longrightarrow> keeps P (org_call f)"
  using returns_call [of f "\<lambda>_. True"] by (auto dest: returns_keeps)

lemma keeps_exec: "(\<And>w w'. P w \<Longrightarrow> f w = Inr w' \<Longrightarrow> P w') \<Longrightarrow> keeps P (exec f)"
  unfolding exec_def by (rule keeps_call) (auto split: sum.splits)

lemma keeps_clock [keeps_intros]: "keeps P org_clock"
  by (auto simp: keeps_def org_clock_def tick split: list.splits)

lemma keeps_fresh [keeps_intros]: "keeps P org_fresh"
  by (simp add: keeps_def org_fresh_def fresh)

lemma returns_row:
  assumes "\<And>w r. P w \<Longrightarrow> r \<in> set (rows w) \<Longrightarrow> p r \<Longrightarrow> Q r"
  shows "returns P (one_row e rows p) Q"
  unfolding one_row_def using assms by (intro returns_call) (auto dest: find_SomeD split: option.splits)

lemma keeps_row [keeps_intros]: "keeps P (one_row e rows p)"
  using returns_row [of rows p "\<lambda>_. True"] by (auto dest: returns_keeps)

lemma keeps_audit [keeps_intros]: "keeps P (org_audit org obj name actor action)"
  unfolding org_audit_def by (intro keeps_intros keeps_exec) (auto simp: trail)

lemma keeps_reads [keeps_intros]:
  "keeps P (s_orgs_by_user u)" "keeps P (s_count_owned u)" "keeps P (s_query_members i)" "keeps P (s_members_with_users i)"
  "keeps P (s_member_with_user i)" "keeps P s_query_all_plans" "keeps P (s_query_sub i)" "keeps P (projects_where p)"
  "keeps P (s_has_access u i)" "keeps P (s_project_org_enabled i)" "keeps P (s_invites_by_org i)" "keeps P (s_keys_by_org i)"
  unfolding s_orgs_by_user_def s_count_owned_def s_query_members_def s_members_with_users_def s_member_with_user_def
    s_query_all_plans_def s_query_sub_def projects_where_def s_has_access_def s_project_org_enabled_def s_invites_by_org_def
    s_keys_by_org_def
  by (rule keeps_call; auto simp: Let_def split: option.splits list.splits if_splits)+

end

subsection \<open>What a property promises about the statements\<close>

text \<open>
  \<open>A\<close> holds of the accounts that may be written, \<open>R\<close> of the roles a membership may get. The rest
  are the statements; those that insert a row with an identifier of its own come with the
  identifier's reading.
\<close>

locale org_laws = org_frame P for P :: "org_world \<Rightarrow> bool" +
  fixes A :: "account \<Rightarrow> bool" and R :: "role \<Rightarrow> bool"
  assumes role_ok: "r \<noteq> Admin \<Longrightarrow> R r"
    and account_new: "ac_roles a = [User] \<Longrightarrow> A a"
    and account_same: "A a \<Longrightarrow> ac_id a = ac_id b \<Longrightarrow> ac_roles a = ac_roles b \<Longrightarrow> A b"
    and account_row: "P w \<Longrightarrow> a \<in> set (ow_accounts w) \<Longrightarrow> A a"
    and account_cached: "P w \<Longrightarrow> ow_cache w svc k = Some (a, t) \<Longrightarrow> A a"
    and invite_row: "P w \<Longrightarrow> iv \<in> set (ow_invites w) \<Longrightarrow> R (iv_role iv)"
    and sso_row: "P w \<Longrightarrow> cfg \<in> set (ow_sso w) \<Longrightarrow> R (sx_role cfg)"
    and law_write_cache: "A a \<Longrightarrow> keeps P (write_cache svc a)"
    and law_delete_cache: "keeps P (delete_cache svc a)"
    and law_org_create: "keeps P (org_create actor name slug)"
    and law_org_update: "keeps P (s_org_update og)"
    and law_org_delete: "keeps P (s_org_delete og)"
    and law_org_enabled: "keeps P (s_update_enabled i v)"
    and law_add_member: "R r \<Longrightarrow> keeps P (add_member org user r)"
    and law_sub_create: "keeps P (s_sub_create sub)"
    and law_sub_upsert: "keeps P (s_sub_upsert sub)"
    and law_sub_update: "keeps P (s_sub_update sub)"
    and law_sub_by_stripe: "keeps P (s_sub_by_stripe text sub)"
    and law_user_create: "A a \<Longrightarrow> keeps P (s_user_create a)"
    and law_user_update: "A a \<Longrightarrow> keeps P (s_user_update a)"
    and law_user_delete: "keeps P (s_user_delete a)"
    and law_store_token: "keeps P (s_store_verify_token u text now)"
    and law_consume_token: "keeps P (s_consume_verify_token text)"
    and law_project_create: "keeps P (s_project_create p)"
    and law_project_update: "keeps P (s_project_update p)"
    and law_project_delete: "keeps P (s_project_delete p)"
    and law_grant: "keeps P (s_grant u i)"
    and law_invite_create: "R (iv_role iv) \<Longrightarrow> keeps P (s_invite_create iv)"
    and law_invite_delete: "keeps P (s_invite_delete i)"
    and law_mark_accepted: "keeps P (s_mark_accepted i now)"
    and law_key_create: "keeps P (app_key_create sha parse rnd c org_id key)"
    and law_key_delete: "keeps P (s_key_delete i)"
    and law_key_touch: "keeps P (s_key_touch i now)"
    and law_sso_upsert: "R (sx_role cfg) \<Longrightarrow> keeps P (s_sso_upsert cfg)"
    and law_sso_delete: "keeps P (s_sso_delete i)"
    and law_scim_upsert: "keeps P (s_scim_upsert tok)"
    and law_scim_delete: "keeps P (s_scim_delete i)"
    and law_scim_touch: "keeps P (s_scim_touch i now)"
begin

lemmas laws [keeps_intros] = law_delete_cache law_org_create law_org_update law_org_delete law_org_enabled law_sub_create
  law_sub_upsert law_sub_update law_sub_by_stripe law_user_delete law_store_token law_consume_token law_project_create
  law_project_update law_project_delete law_grant law_invite_delete law_mark_accepted law_key_create law_key_delete
  law_key_touch law_sso_delete law_scim_upsert law_scim_delete law_scim_touch

text \<open>Accounts, through the cache.\<close>

lemma returns_user_row: "returns P (s_user_by_id i) A" "returns P (s_user_by_email v) A"
  unfolding s_user_by_id_def s_user_by_email_def to_bus_user_def
  by (rule returns_try [where Q = A], rule returns_row, erule (1) account_row, auto intro: returns_ret returns_fail)+

lemma returns_cached:
  assumes "returns P m A" and "\<And>w. P w \<Longrightarrow> (f w = (case read_cache svc k w of Some a \<Rightarrow> (Inr a, w) | None \<Rightarrow> try_op m (\<lambda>a. try_op (write_cache svc a) (\<lambda>_. ret_op a)) w))"
  shows "returns P f A"
proof -
  have miss: "returns P (try_op m (\<lambda>a. try_op (write_cache svc a) (\<lambda>_. ret_op a))) A"
    by (rule returns_try [OF assms(1)], rule returns_try [OF keeps_returns [OF law_write_cache]]) (auto intro: returns_ret)
  have "P (snd (f w)) \<and> (\<forall>x. fst (f w) = Inr x \<longrightarrow> A x)" if w: "P w" for w
  proof (cases "read_cache svc k w")
    case None
    then show ?thesis using miss assms(2) [OF w] w by (simp add: returns_def)
  next
    case (Some a)
    then have "A a" using account_cached [OF w] by (auto simp: read_cache_def split: option.splits if_splits)
    then show ?thesis using Some assms(2) [OF w] w by simp
  qed
  then show ?thesis by (simp add: returns_def)
qed

lemma returns_user [intro]: "returns P (c_user_by_id svc i) A" "returns P (c_user_by_email svc v) A"
  by (rule returns_cached [OF returns_user_row(1)], simp add: c_user_by_id_def,
      rule returns_cached [OF returns_user_row(2)], simp add: c_user_by_email_def)

lemmas keeps_user [keeps_intros] = returns_user [THEN returns_keeps]

lemma keeps_c_user [keeps_intros]:
  "A a \<Longrightarrow> keeps P (c_user_create svc a)" "A a \<Longrightarrow> keeps P (c_user_update svc a)" "keeps P (c_user_delete svc a)"
  unfolding c_user_create_def c_user_update_def c_user_delete_def
  by (intro keeps_intros law_write_cache law_user_create law_user_update; assumption)+

lemma returns_user_create: "nu_roles nu = [User] \<Longrightarrow> returns P (user_create digest actor nu) (\<lambda>a. A a \<and> ac_roles a = [User])"
  unfolding user_create_def
  by (auto simp: Let_def split: option.splits
      intro!: returns_fail returns_ret returns_try [OF keeps_returns [OF keeps_clock]] returns_try [OF keeps_returns [OF keeps_fresh]]
        returns_try [OF keeps_returns [OF keeps_c_user(1)]] returns_try [OF keeps_returns [OF keeps_audit]] account_new)

lemma returns_user_update:
  assumes "A a" and "uu_roles uu = None"
  shows "returns P (user_update digest actor a uu) A"
  unfolding user_update_def using assms(2)
  by (auto simp: Let_def split: option.splits
      intro!: returns_fail returns_ret returns_try [OF keeps_returns [OF keeps_clock]]
        returns_try [OF keeps_returns [OF keeps_c_user(2)]] returns_try [OF keeps_returns [OF keeps_audit]]
        account_same [OF assms(1)])

lemma keeps_user_activate [keeps_intros]: "keeps P (user_activate i)"
  unfolding user_activate_def
  by (rule keeps_try_returns [OF returns_user(1)], intro keeps_intros) (erule account_same; simp)

lemma keeps_user_delete [keeps_intros]: "keeps P (user_delete actor a)"
  unfolding user_delete_def by (intro keeps_intros)

lemma keeps_user_authenticate [keeps_intros]: "keeps P (user_authenticate matches svc v p)"
  unfolding user_authenticate_def by (intro keeps_intros)

text \<open>Tokens and the middleware.\<close>

lemma keeps_verified [keeps_intros]: "keeps P (verified_token lib t)"
  unfolding verified_token_def by (intro keeps_intros)

lemma keeps_parse_token [keeps_intros]: "keeps P (parse_invite_token lib t)" "keeps P (parse_verify_token lib t)"
  unfolding parse_invite_token_def parse_verify_token_def by (intro keeps_intros)+

lemma keeps_authenticate [keeps_intros]: "keeps P (authenticate lib svc header)"
  unfolding authenticate_def is_user_enabled_def by (intro keeps_intros)

lemma keeps_auth_call [keeps_intros]: "keeps P (auth_call code)"
  unfolding auth_call_def by (intro keeps_intros keeps_call) simp

lemma keeps_mid_authenticate [keeps_intros]: "(\<And>c. keeps P (next c)) \<Longrightarrow> keeps P (mid_authenticate lib header next)"
  unfolding mid_authenticate_def handle_authentication_def by (intro keeps_intros)

lemma keeps_authorize_rule [keeps_intros]: "keeps P (authorize_rule lib rule c u)"
  unfolding authorize_rule_def by (intro keeps_intros)

lemma keeps_authorize [keeps_intros]:
  "keeps P next \<Longrightarrow> keeps P (mid_authorize lib rule c next)"
  "keeps P next \<Longrightarrow> keeps P (authorize_org_member parse c org_id next)"
  "keeps P next \<Longrightarrow> keeps P (authorize_org_admin parse c org_id next)"
  "keeps P next \<Longrightarrow> keeps P (authorize_org_owner parse c org_id next)"
  unfolding mid_authorize_def authorize_org_member_def authorize_org_admin_def authorize_org_owner_def
    s_org_by_id_def org_name_ok_def
  by (intro keeps_intros; assumption)+

lemma keeps_authorize_user [keeps_intros]:
  assumes "keeps P (next None)" and "\<And>a. A a \<Longrightarrow> keeps P (next (Some a))"
  shows "keeps P (mid_authorize_user lib rule c v next)"
proof -
  let ?load = "if v = [] then ret_op None
       else try_op (param_id (tl_uuid lib) v) (\<lambda>i.
         try_op (answer (not_found_on Err_no_account) (c_user_by_id Ingest_service i)) (\<lambda>a. ret_op (Some (i, a))))"
  have "returns P ?load (\<lambda>x. case x of None \<Rightarrow> True | Some (i, a) \<Rightarrow> A a)"
    by (auto intro!: returns_ret returns_try [OF keeps_returns [OF keeps_param]] returns_try [OF returns_answer [OF returns_user(1)]])
  then show ?thesis unfolding mid_authorize_user_def
    by (rule keeps_try_returns) (auto intro!: keeps_intros assms split: option.splits)
qed

text \<open>Handlers of accounts.\<close>

lemma keeps_app_user_create [keeps_intros]: "keeps P (app_user_create lib address digest kid sent body)"
proof -
  have r: "returns P (answer code (user_create digest u (nu\<lparr> nu_roles := [User] \<rparr>))) (\<lambda>a. A a \<and> ac_roles a = [User])" for code u nu
    by (rule returns_answer, rule returns_user_create) simp
  show ?thesis unfolding app_user_create_def by (intro keeps_intros keeps_try_returns [OF r])
qed

lemma keeps_app_user_update: "A a \<Longrightarrow> keeps P (app_user_update digest c body (Some a))"
  unfolding app_user_update_def try_ctx_user
  by (intro keeps_intros returns_keeps [OF returns_user_update]) (auto simp: bind_eq_Some_conv update_keeps_roles)

lemma keeps_app_user [keeps_intros]:
  "keeps P (app_user_update digest c body None)" "keeps P (app_user_update_role digest c roles None)"
  "keeps P (app_user_delete c usr)" "keeps P (app_query_me c)" "keeps P (app_verify lib t)"
  unfolding app_user_update_def app_user_update_role_def app_user_delete_def app_query_me_def app_verify_def try_ctx_user
  by (intro keeps_intros)+

lemma keeps_user_routes [keeps_intros]:
  "keeps P (put_user lib digest header v body)" "keeps P (put_user_role lib digest header roles)" "keeps P (delete_user lib header v)"
  unfolding put_user_def put_user_role_def delete_user_def by (intro keeps_intros keeps_app_user_update; assumption)+

lemma keeps_app_token [keeps_intros]: "keeps P (app_token lib base64 address matches header kid)"
  unfolding app_token_def handle_authorization_def by (intro keeps_intros)

text \<open>Handlers of organizations, projects and billing.\<close>

lemma keeps_lookups [keeps_intros]:
  "keeps P (s_org_by_id i)" "keeps P (s_org_by_slug v)" "keeps P (s_plan_by_slug v)" "keeps P (s_member_by_id i)"
  "keeps P (s_project i)" "keeps P (s_invite_by_id i)" "keeps P (s_invite_by_token v)" "keeps P (s_key_by_id i)"
  "keeps P (s_key_by_hash v)" "keeps P (s_sso_by_org i)" "keeps P (s_scim_by_org i)" "keeps P (s_scim_by_hash v)"
  unfolding s_org_by_id_def s_org_by_slug_def org_name_ok_def s_plan_by_slug_def s_member_by_id_def s_project_def
    s_invite_by_id_def s_invite_by_token_def s_key_by_id_def s_key_by_hash_def s_sso_by_org_def s_scim_by_org_def s_scim_by_hash_def
  by (intro keeps_intros)+

lemma keeps_app_org [keeps_intros]:
  "keeps P (app_org_create c ob)" "keeps P (app_org_update parse c org_id uo)" "keeps P (app_org_delete parse c org_id q)"
  unfolding app_org_create_def ext_org_create_def app_org_update_def ext_org_update_def org_update_def app_org_delete_def
    org_admin_count_def ext_org_delete_def
  by (intro keeps_intros)+

lemma keeps_app_project [keeps_intros]:
  "keeps P (app_project_create parse c org_id pb)" "keeps P (app_project_update parse c org_id project_id ub)"
  "keeps P (app_project_delete parse c org_id project_id)"
  unfolding app_project_create_def ext_project_create_def app_project_update_def require_project_in_org_def
    plan_retention_limit_def ext_project_update_def app_project_delete_def ext_project_delete_def
  by (intro keeps_intros)+

lemma keeps_app_billing [keeps_intros]: "keeps P (app_cancel parse st org_id)" "keeps P (app_webhook parse st ev)"
proof -
  have "keeps P (case e of Checkout_completed p \<Rightarrow> handle_checkout_completed parse st p
      | Subscription_updated p \<Rightarrow> handle_subscription_updated p | Subscription_deleted p \<Rightarrow> handle_subscription_deleted p
      | Payment_failed p \<Rightarrow> handle_invoice_payment_failed p | Invoice_paid p \<Rightarrow> handle_invoice_paid st p
      | Other_event \<Rightarrow> ret_op ())" for e
    unfolding handle_checkout_completed_def handle_subscription_updated_def handle_subscription_deleted_def
      handle_invoice_payment_failed_def handle_invoice_paid_def
    by (cases e; simp only: stripe_event.case; intro keeps_intros)
  then show "keeps P (app_webhook parse st ev)" unfolding app_webhook_def by (intro keeps_intros)
qed (simp only: app_cancel_def sub_if_any_def, intro keeps_intros)

text \<open>Memberships that a role that may be given creates.\<close>

lemma keeps_ext_add_member: "R r \<Longrightarrow> keeps P (ext_add_member actor org user r)"
  unfolding ext_add_member_def by (intro keeps_intros law_add_member)

lemma returns_sso_role: "returns P (s_sso_by_org i) (\<lambda>cfg. R (sx_role cfg))"
  unfolding s_sso_by_org_def by (rule returns_row, erule (1) sso_row)

lemma returns_invite_role: "returns P (s_invite_by_token v) (\<lambda>iv. R (iv_role iv))"
  unfolding s_invite_by_token_def by (rule returns_row, erule (1) invite_row)

lemma invited_role: "to_bus_new_invitation parse address b = Some (email, r, ps) \<Longrightarrow> R r"
  by (auto simp: to_bus_new_invitation_def split: if_splits option.splits intro: role_ok)

lemma keeps_app_invitation [keeps_intros]:
  "keeps P (app_invite lib address kid sent c org_id ib)" "keeps P (app_revoke parse c org_id invitation_id)"
  "keeps P (app_accept lib token)"
proof -
  show "keeps P (app_invite lib address kid sent c org_id ib)"
    unfolding app_invite_def ext_invite_create_def
    by (intro keeps_intros law_invite_create) (auto simp: bind_eq_Some_conv dest: invited_role)
  have "keeps P (join_org iv a)" if "R (iv_role iv)" for iv a
    unfolding join_org_def ext_grant_access_def by (intro keeps_intros keeps_ext_add_member that)
  then show "keeps P (app_accept lib token)"
    unfolding app_accept_def by (intro keeps_intros keeps_try_returns [OF returns_answer [OF returns_invite_role]])
qed (simp only: app_revoke_def ext_invite_revoke_def invite_revoke_def, intro keeps_intros)

lemma keeps_api_keys [keeps_intros]: "keeps P (authenticate_api_key sha header)" "keeps P (app_key_revoke parse org_id key_id)"
proof -
  have touch: "keeps P (touch_last_used i t)" for i t
    unfolding touch_last_used_def by (intro keeps_intros)
  have "keeps P (record_use k t)" for k t
    by (rule keepsI) (auto simp: record_use_def touched intro!: keepsD [OF touch])
  then show "keeps P (authenticate_api_key sha header)"
    unfolding authenticate_api_key_def api_key_authenticate_def by (intro keeps_intros)
qed (simp only: app_key_revoke_def, intro keeps_intros)

text \<open>Single sign-on and provisioning.\<close>

lemma returns_enabled_user: "returns P (create_enabled_user digest draws n e) A"
  unfolding create_enabled_user_def
  by (auto split: option.splits intro!: returns_fail returns_try [OF returns_user_create] returns_user_update)

lemma returns_sso_user: "returns P (create_sso_user digest draws ie addr) A"
  unfolding create_sso_user_def by (auto split: option.splits intro: returns_fail returns_enabled_user)

lemma keeps_sso_provision: "R (sx_role cfg) \<Longrightarrow> keeps P (sso_provision address digest draws cfg ie)"
  unfolding sso_provision_def
  by (intro keeps_intros returns_keeps [OF returns_sso_user] keeps_ext_add_member; assumption)

lemma keeps_app_sso [keeps_intros]:
  "keeps P (app_sso_upsert parse https_url ip org_id xb)" "keeps P (app_sso_remove parse org_id)"
  "keeps P (app_sso_callback lib xs draws perr ls code)"
proof -
  show "keeps P (app_sso_upsert parse https_url ip org_id xb)"
    unfolding app_sso_upsert_def sso_upsert_def
    by (intro keeps_intros law_sso_upsert role_ok) (simp add: validate_sso_def)
  show "keeps P (app_sso_callback lib xs draws perr ls code)"
    unfolding app_sso_callback_def or_callback_error_def mint_session_def
    by (intro keeps_intros keeps_case_returns [OF returns_sso_role] keeps_sso_provision)
qed (simp only: app_sso_remove_def, intro keeps_intros)

lemma keeps_app_scim_token [keeps_intros]:
  "keeps P (app_issue_scim_token sha parse rnd org_id)" "keeps P (app_revoke_scim_token parse org_id)"
  unfolding app_issue_scim_token_def scim_issue_def app_revoke_scim_token_def by (intro keeps_intros)+

lemma keeps_org_from_token [keeps_intros]: "keeps P (org_from_token cv header)"
  unfolding org_from_token_def scim_authenticate_def by (intro keeps_intros)

lemma keeps_member_of [keeps_intros]: "keeps P (member_of org user)"
  unfolding member_of_def by (intro keeps_intros)

lemma keeps_scim_add_member [keeps_intros]: "keeps P (scim_add_member org user)"
proof -
  have "returns P (scim_default_role org) R" unfolding scim_default_role_def
    by (rule returns_case [OF returns_sso_role]) (auto intro: returns_ret role_ok)
  then show ?thesis unfolding scim_add_member_def
    by (rule keeps_try_returns) (intro keeps_intros keeps_ext_add_member)
qed

lemma returns_lookup: "returns P (lookup_by_email cv org email) (\<lambda>x. case x of None \<Rightarrow> True | Some (a, m) \<Rightarrow> A a)"
  unfolding lookup_by_email_def
  by (auto split: option.splits intro!: returns_ret returns_fail returns_case [OF returns_user(2)] returns_try [OF keeps_returns [OF keeps_member_of]])

lemma keeps_app_scim [keeps_intros]:
  "keeps P (scim_query_users cv header raw)" "keeps P (scim_get_user cv header scim_id)"
  "keeps P (scim_create_user cv draws header cu)"
proof -
  have "keeps P (scim_resources xs)" for xs
    by (induction xs) (simp_all only: scim_resources.simps scim_resource_of_def, (intro keeps_intros; assumption?)+)
  then show "keeps P (scim_query_users cv header raw)"
    unfolding scim_query_users_def by (intro keeps_intros returns_keeps [OF returns_lookup])
  show "keeps P (scim_get_user cv header scim_id)" unfolding scim_get_user_def by (intro keeps_intros)
  show "keeps P (scim_create_user cv draws header cu)"
    unfolding scim_create_user_def create_local_user_def
    by (intro keeps_intros returns_keeps [OF returns_lookup] returns_keeps [OF returns_enabled_user])
qed

end

subsection \<open>Edits of memberships\<close>

locale member_laws = org_laws +
  assumes law_remove_member: "keeps P (s_remove_member i)"
    and law_member_role: "R r \<Longrightarrow> keeps P (s_member_role i r)"
begin

lemma keeps_write_member: "(\<And>r. snd x = Some r \<Longrightarrow> R r) \<Longrightarrow> keeps P (write_member c x)"
  unfolding write_member_def ext_update_member_role_def update_member_role_def ext_remove_member_def
  by (intro keeps_intros law_remove_member law_member_role) auto

lemma keeps_app_member [keeps_intros]:
  "keeps P (app_update_role parse c org_id rb)" "keeps P (app_remove_member parse c org_id member_id)"
proof -
  have guard: "keeps P (load_org_member parse org_id i)" "keeps P (guard_member_change m b)" for i m b
    unfolding load_org_member_def guard_member_change_def org_admin_count_def by (intro keeps_intros)+
  show "keeps P (app_remove_member parse c org_id member_id)"
    unfolding app_remove_member_def clear_removal_def
    by (rule keeps_try_returns [where Q = "\<lambda>x. snd x = None"])
      (auto intro!: returns_ret returns_try [OF keeps_returns [OF guard(1)]] returns_try [OF keeps_returns [OF guard(2)]]
        returns_try [OF keeps_returns [OF keeps_param]] keeps_write_member)
  have "returns P (clear_role_change parse org_id rb) (\<lambda>x. \<forall>r. snd x = Some r \<longrightarrow> R r)"
    unfolding clear_role_change_def
    by (auto split: option.splits intro!: returns_fail returns_ret role_ok returns_try [OF keeps_returns [OF guard(1)]]
        returns_try [OF keeps_returns [OF guard(2)]] returns_try [OF keeps_returns [OF keeps_param]])
  then show "keeps P (app_update_role parse c org_id rb)"
    unfolding app_update_role_def by (rule keeps_try_returns) (auto intro: keeps_write_member)
qed

lemma keeps_deprovision [keeps_intros]: "keeps P (deprovision org user)"
  unfolding deprovision_def ext_remove_member_def by (intro keeps_intros law_remove_member)

lemma keeps_scim_edits [keeps_intros]:
  "keeps P (scim_patch_user cv header scim_id ops)" "keeps P (scim_put_user cv header scim_id cu)"
  "keeps P (scim_delete_user cv header scim_id)"
  unfolding scim_patch_user_def scim_put_user_def scim_delete_user_def set_active_def by (intro keeps_intros)+

end

end
