(* ===== verification/OrgRun.thy ===== *)
theory OrgRun
  imports OrgFrame
begin

text \<open>
  The requests of the service, route by route (\<open>route.go\<close> of each application), and the runs they
  make up. A request runs to its end before the next one; \<open>edit_run\<close> takes the two requests that
  edit a membership apart where they are cleared and where they write, with anything in between.
  Between requests the clock, and which statements are to fail, are anyone's choice.
\<close>

subsection \<open>Routes\<close>

inductive user_request :: "token_lib \<Rightarrow> org_world \<Rightarrow> org_world \<Rightarrow> bool" for lib w where
  "user_request lib w (snd (app_user_create lib address digest kid sent body w))"
| "user_request lib w (snd (app_verify lib token w))"
| "user_request lib w (snd (put_user lib digest header user_param changes w))"
| "user_request lib w (snd (put_user_role lib digest header roles w))"
| "user_request lib w (snd (delete_user lib header user_param w))"
| "user_request lib w (snd (mid_authenticate lib header app_query_me w))"
| "user_request lib w (snd (mid_authenticate lib header (\<lambda>c. mid_authorize_user lib RuleOrgAdminOnly c user_param ctx_user) w))"

inductive token_request :: "token_lib \<Rightarrow> org_world \<Rightarrow> org_world \<Rightarrow> bool" for lib w where
  "token_request lib w (snd (app_token lib base64 address matches header kid w))"
| "token_request lib w (snd (handle_authentication lib Auth_service header w))"

inductive org_request :: "token_lib \<Rightarrow> org_world \<Rightarrow> org_world \<Rightarrow> bool" for lib w where
  "org_request lib w (snd (mid_authenticate lib header app_query_mine w))"
| "org_request lib w (snd (mid_authenticate lib header (\<lambda>c. app_org_create c body) w))"
| "org_request lib w (snd (mid_authenticate lib header (\<lambda>c. authorize_org_admin (tl_uuid lib) c org_id
     (app_query_members (tl_uuid lib) org_id)) w))"
| "org_request lib w (snd (mid_authenticate lib header (\<lambda>c. authorize_org_member (tl_uuid lib) c org_id
     (app_org_by_id (tl_uuid lib) org_id)) w))"
| "org_request lib w (snd (mid_authenticate lib header (\<lambda>c. authorize_org_admin (tl_uuid lib) c org_id
     (app_org_update (tl_uuid lib) c org_id changes)) w))"
| "org_request lib w (snd (mid_authenticate lib header (\<lambda>c. authorize_org_owner (tl_uuid lib) c org_id
     (app_org_delete (tl_uuid lib) c org_id q)) w))"

inductive member_request :: "token_lib \<Rightarrow> org_world \<Rightarrow> org_world \<Rightarrow> bool" for lib w where
  "member_request lib w (snd (mid_authenticate lib header (\<lambda>c. authorize_org_admin (tl_uuid lib) c org_id
     (app_update_role (tl_uuid lib) c org_id body)) w))"
| "member_request lib w (snd (mid_authenticate lib header (\<lambda>c. authorize_org_admin (tl_uuid lib) c org_id
     (app_remove_member (tl_uuid lib) c org_id member_id)) w))"

inductive project_request :: "token_lib \<Rightarrow> org_world \<Rightarrow> org_world \<Rightarrow> bool" for lib w where
  "project_request lib w (snd (mid_authenticate lib header (\<lambda>c. authorize_org_member (tl_uuid lib) c org_id
     (app_query_projects (tl_uuid lib) c org_id)) w))"
| "project_request lib w (snd (mid_authenticate lib header (\<lambda>c. authorize_org_admin (tl_uuid lib) c org_id
     (app_project_create (tl_uuid lib) c org_id body)) w))"
| "project_request lib w (snd (mid_authenticate lib header (\<lambda>c. authorize_org_admin (tl_uuid lib) c org_id
     (app_project_update (tl_uuid lib) c org_id project_id changes)) w))"
| "project_request lib w (snd (mid_authenticate lib header (\<lambda>c. authorize_org_admin (tl_uuid lib) c org_id
     (app_project_delete (tl_uuid lib) c org_id project_id)) w))"

inductive invitation_request :: "token_lib \<Rightarrow> org_world \<Rightarrow> org_world \<Rightarrow> bool" for lib w where
  "invitation_request lib w (snd (mid_authenticate lib header (\<lambda>c. authorize_org_admin (tl_uuid lib) c org_id
     (app_query_invitations (tl_uuid lib) org_id)) w))"
| "invitation_request lib w (snd (mid_authenticate lib header (\<lambda>c. authorize_org_admin (tl_uuid lib) c org_id
     (app_invite lib address kid sent c org_id body)) w))"
| "invitation_request lib w (snd (mid_authenticate lib header (\<lambda>c. authorize_org_admin (tl_uuid lib) c org_id
     (app_revoke (tl_uuid lib) c org_id invitation_id)) w))"
| "invitation_request lib w (snd (app_accept lib token w))"

inductive billing_request :: "token_lib \<Rightarrow> org_world \<Rightarrow> org_world \<Rightarrow> bool" for lib w where
  "billing_request lib w (snd (app_list_plans w))"
| "billing_request lib w (snd (app_webhook (tl_uuid lib) st event w))"
| "billing_request lib w (snd (mid_authenticate lib header (\<lambda>c. authorize_org_admin (tl_uuid lib) c org_id
     (app_get_billing (tl_uuid lib) org_id)) w))"
| "billing_request lib w (snd (mid_authenticate lib header (\<lambda>c. authorize_org_admin (tl_uuid lib) c org_id
     (app_checkout (tl_uuid lib) (tl_show lib) st org_id body)) w))"
| "billing_request lib w (snd (mid_authenticate lib header (\<lambda>c. authorize_org_admin (tl_uuid lib) c org_id
     (app_portal (tl_uuid lib) st org_id)) w))"
| "billing_request lib w (snd (mid_authenticate lib header (\<lambda>c. authorize_org_admin (tl_uuid lib) c org_id
     (app_cancel (tl_uuid lib) st org_id)) w))"

inductive key_request :: "token_lib \<Rightarrow> org_world \<Rightarrow> org_world \<Rightarrow> bool" for lib w where
  "key_request lib w (snd (mid_authenticate lib header (\<lambda>c. authorize_org_admin (tl_uuid lib) c org_id
     (app_key_query (tl_uuid lib) org_id)) w))"
| "key_request lib w (snd (mid_authenticate lib header (\<lambda>c. authorize_org_admin (tl_uuid lib) c org_id
     (app_key_create sha (tl_uuid lib) rnd c org_id body)) w))"
| "key_request lib w (snd (mid_authenticate lib header (\<lambda>c. authorize_org_admin (tl_uuid lib) c org_id
     (app_key_revoke (tl_uuid lib) org_id key_id)) w))"
| "key_request lib w (snd (authenticate_api_key sha header w))"

inductive sso_request :: "token_lib \<Rightarrow> org_world \<Rightarrow> org_world \<Rightarrow> bool" for lib w where
  "sso_request lib w (snd (mid_authenticate lib header (\<lambda>c. authorize_org_admin (tl_uuid lib) c org_id
     (app_sso_query (tl_uuid lib) org_id)) w))"
| "sso_request lib w (snd (mid_authenticate lib header (\<lambda>c. authorize_org_admin (tl_uuid lib) c org_id
     (app_sso_upsert (tl_uuid lib) https_url ip org_id body)) w))"
| "sso_request lib w (snd (mid_authenticate lib header (\<lambda>c. authorize_org_admin (tl_uuid lib) c org_id
     (app_sso_remove (tl_uuid lib) org_id)) w))"
| "sso_request lib w (snd (mid_authenticate lib header (\<lambda>c. authorize_org_admin (tl_uuid lib) c org_id
     (app_query_scim_token (tl_uuid lib) org_id)) w))"
| "sso_request lib w (snd (mid_authenticate lib header (\<lambda>c. authorize_org_admin (tl_uuid lib) c org_id
     (app_issue_scim_token sha (tl_uuid lib) random org_id)) w))"
| "sso_request lib w (snd (mid_authenticate lib header (\<lambda>c. authorize_org_admin (tl_uuid lib) c org_id
     (app_revoke_scim_token (tl_uuid lib) org_id)) w))"
| "sso_request lib w (snd (app_sso_start ip slug w))"
| "sso_request lib w (snd (app_sso_callback lib xs draws provider_error ls code w))"

inductive scim_request :: "scim_service \<Rightarrow> string \<Rightarrow> org_world \<Rightarrow> org_world \<Rightarrow> bool" for cv header w where
  "scim_request cv header w (snd (scim_query_users cv header raw w))"
| "scim_request cv header w (snd (scim_get_user cv header scim_id w))"
| "scim_request cv header w (snd (scim_create_user cv draws header body w))"

inductive scim_edit :: "scim_service \<Rightarrow> string \<Rightarrow> org_world \<Rightarrow> org_world \<Rightarrow> bool" for cv header w where
  "scim_edit cv header w (snd (scim_patch_user cv header scim_id ops w))"
| "scim_edit cv header w (snd (scim_put_user cv header scim_id body w))"
| "scim_edit cv header w (snd (scim_delete_user cv header scim_id w))"

subsection \<open>Runs\<close>

definition plain_request :: "token_lib \<Rightarrow> org_world \<Rightarrow> org_world \<Rightarrow> bool" where
  "plain_request lib w w' \<longleftrightarrow> user_request lib w w' \<or> token_request lib w w' \<or> org_request lib w w' \<or> project_request lib w w'
     \<or> invitation_request lib w w' \<or> billing_request lib w w' \<or> key_request lib w w' \<or> sso_request lib w w'
     \<or> (\<exists>cv header. scim_request cv header w w')"

inductive org_run :: "token_lib \<Rightarrow> org_world \<Rightarrow> org_world \<Rightarrow> bool" for lib w where
  Run_start: "org_run lib w w"
| Run_plain: "org_run lib w w1 \<Longrightarrow> plain_request lib w1 w2 \<Longrightarrow> org_run lib w w2"
| Run_member: "org_run lib w w1 \<Longrightarrow> member_request lib w1 w2 \<Longrightarrow> org_run lib w w2"
| Run_scim: "org_run lib w w1 \<Longrightarrow> scim_edit cv header w1 w2 \<Longrightarrow> org_run lib w w2"
| Run_env: "org_run lib w w1 \<Longrightarrow> ow_now w1 \<le> t \<Longrightarrow> list_all (\<lambda>d. 0 \<le> d) ds \<Longrightarrow> org_run lib w (w1\<lparr> ow_now := t, ow_ticks := ds, ow_faults := bs \<rparr>)"

text \<open>The second component holds the edits that were cleared, each to be written any time later, even twice.\<close>

inductive edit_run :: "token_lib \<Rightarrow> org_world \<Rightarrow> org_world \<times> (uuid \<times> role option) list \<Rightarrow> bool" for lib w where
  Edit_start: "edit_run lib w (w, [])"
| Edit_plain: "edit_run lib w (w1, xs) \<Longrightarrow> plain_request lib w1 w2 \<Longrightarrow> edit_run lib w (w2, xs)"
| Edit_env: "edit_run lib w (w1, xs) \<Longrightarrow> ow_now w1 \<le> t \<Longrightarrow> list_all (\<lambda>d. 0 \<le> d) ds \<Longrightarrow> edit_run lib w (w1\<lparr> ow_now := t, ow_ticks := ds, ow_faults := bs \<rparr>, xs)"
| Edit_role: "edit_run lib w (w1, xs) \<Longrightarrow> clear_role_change (tl_uuid lib) org_id body w1 = (Inr x, w2) \<Longrightarrow> edit_run lib w (w2, x # xs)"
| Edit_removal: "edit_run lib w (w1, xs) \<Longrightarrow> clear_removal (tl_uuid lib) org_id member_id w1 = (Inr x, w2) \<Longrightarrow> edit_run lib w (w2, x # xs)"
| Edit_write: "edit_run lib w (w1, xs) \<Longrightarrow> x \<in> set xs \<Longrightarrow> edit_run lib w (snd (write_member c x w1), xs)"

subsection \<open>What keeps the laws keeps the property\<close>

context org_laws
begin

lemma keeps_read_handlers [keeps_intros]:
  "keeps P (app_query_mine c)" "keeps P (app_query_members parse org_id)" "keeps P (app_org_by_id parse org_id)"
  "keeps P (app_query_projects parse c org_id)" "keeps P (app_query_invitations parse org_id)" "keeps P app_list_plans"
  "keeps P (app_get_billing parse org_id)" "keeps P (app_checkout parse show st org_id body)" "keeps P (app_portal parse st org_id)"
  "keeps P (app_key_query parse org_id)" "keeps P (app_sso_query parse org_id)" "keeps P (app_query_scim_token parse org_id)"
  "keeps P (app_sso_start ip slug)" "keeps P (handle_authentication lib svc header)"
  unfolding app_query_mine_def app_query_members_def app_org_by_id_def app_query_projects_def s_projects_by_org_def
    s_query_accessible_def app_query_invitations_def app_list_plans_def app_get_billing_def app_checkout_def sub_if_any_def
    app_portal_def app_key_query_def app_sso_query_def app_query_scim_token_def app_sso_start_def handle_authentication_def
  by (intro keeps_intros)+

lemma plain_request_keeps: "plain_request lib w w' \<Longrightarrow> P w \<Longrightarrow> P w'"
  unfolding plain_request_def
  by (elim disjE exE user_request.cases token_request.cases org_request.cases project_request.cases invitation_request.cases
      billing_request.cases key_request.cases sso_request.cases scim_request.cases; hypsubst; rule keepsD; assumption?; intro keeps_intros)

lemma env_keeps:
  "P w \<Longrightarrow> ow_now w \<le> t \<Longrightarrow> list_all (\<lambda>d. 0 \<le> d) ds \<Longrightarrow> P (w\<lparr> ow_now := t, ow_ticks := ds, ow_faults := bs \<rparr>)"
  using faults [of bs "w\<lparr> ow_now := t, ow_ticks := ds \<rparr>"] by (simp add: later)

end

context member_laws
begin

lemma member_edit_keeps: "member_request lib w w' \<or> scim_edit cv header w w' \<Longrightarrow> P w \<Longrightarrow> P w'"
  by (elim disjE member_request.cases scim_edit.cases; hypsubst; rule keepsD; assumption?; intro keeps_intros)

lemma org_run_keeps: "org_run lib w w' \<Longrightarrow> P w \<Longrightarrow> P w'"
  by (induction rule: org_run.induct) (auto dest: plain_request_keeps env_keeps member_edit_keeps [OF disjI1] member_edit_keeps [OF disjI2])

end

end
