(* ===== verification/OrgDemo.thy ===== *)
theory OrgDemo
  imports OrgRun
begin

text \<open>
  A small world to run requests in: one organization with an owner and another member, a project the
  member was granted, a key of it, and the token of the owner's session.
\<close>

definition demo_uuid :: "string \<Rightarrow> uuid option" where
  "demo_uuid v = (case v of [c] \<Rightarrow> if ascii_digit c then Some (of_char c - 48) else None | _ \<Rightarrow> None)"

definition demo_claims :: jwt where
  "demo_claims = \<lparr> jw_subject = ''1'', jw_issuer = ''logs'', jw_expires = 8 * go_hour, jw_issued = 0, jw_roles = [''VIEWER''],
     jw_type = [], jw_org = [], jw_email = [], jw_role = [], jw_projects = [] \<rparr>"

definition demo_lib :: token_lib where
  "demo_lib = \<lparr> tl_sign = (\<lambda>kid p. None), tl_decode = (\<lambda>t. if t = ''token'' then Some (Some ''kid'', demo_claims) else None),
     tl_public = Some, tl_signed = (\<lambda>key t. key = ''kid''), tl_issuer = ''logs'', tl_show = show_nat, tl_uuid = demo_uuid \<rparr>"

abbreviation demo_header :: string where "demo_header \<equiv> ''Bearer token''"

definition demo_account :: "uuid \<Rightarrow> string \<Rightarrow> string \<Rightarrow> account" where
  "demo_account i name email = \<lparr> ac_id = i, ac_name = name, ac_email = email, ac_hash = ''digest'', ac_roles = [User], ac_enabled = True,
     ac_created = 0, ac_updated = 0 \<rparr>"

definition demo_org :: org where
  "demo_org = \<lparr> og_id = 3, og_name = ''Acme'', og_slug = ''acme'', og_enabled = True, og_owner = Some 1, og_created = 0, og_updated = 0 \<rparr>"

definition demo_project :: project where
  "demo_project = \<lparr> pj_id = 6, pj_org = 3, pj_name = ''api'', pj_color = ''#102030'', pj_retention = None, pj_created = 0, pj_updated = 0 \<rparr>"

definition demo_key :: api_key where
  "demo_key = \<lparr> ak_id = 7, ak_org = 3, ak_project = Some 6, ak_name = ''ci'', ak_prefix = ''ls_api_live_'', ak_hash = hex_encode ''ls_api_live_6b'',
     ak_per_min = 0, ak_burst = 0, ak_active = True, ak_by = Some 1, ak_used = None, ak_expires = None, ak_created = 0 \<rparr>"

definition demo_world :: org_world where
  "demo_world = \<lparr> ow_orgs = [demo_org],
     ow_members = [\<lparr> me_id = 4, me_org = 3, me_user = 1, me_role = OrgAdmin, me_joined = 0 \<rparr>,
       \<lparr> me_id = 5, me_org = 3, me_user = 2, me_role = User, me_joined = 0 \<rparr>],
     ow_projects = [demo_project], ow_grants = [(2, 6)],
     ow_accounts = [demo_account 1 ''Ann'' ''ann@acme.io'', demo_account 2 ''Bob'' ''bob@acme.io''],
     ow_verify = [], ow_cache = (\<lambda>svc. Map.empty), ow_plans = [], ow_subs = [], ow_invites = [], ow_keys = [demo_key], ow_sso = [],
     ow_scim = [], ow_audit = [], ow_touched = Map.empty, ow_fresh = 8, ow_now = 0, ow_ticks = [], ow_faults = [] \<rparr>"

lemmas demo = demo_world_def demo_org_def demo_project_def demo_key_def demo_account_def

lemma demo_fields [simp]:
  "ow_members demo_world = [\<lparr> me_id = 4, me_org = 3, me_user = 1, me_role = OrgAdmin, me_joined = 0 \<rparr>,
     \<lparr> me_id = 5, me_org = 3, me_user = 2, me_role = User, me_joined = 0 \<rparr>]"
  "ow_orgs demo_world = [demo_org]" "ow_projects demo_world = [demo_project]" "ow_faults demo_world = []" "ow_grants demo_world = [(2, 6)]"
  "ow_keys demo_world = [demo_key]" "ow_ticks demo_world = []" "ow_now demo_world = 0" "ow_touched demo_world = Map.empty" "ow_fresh demo_world = 8"
  "ow_cache demo_world svc = Map.empty" "ow_invites demo_world = []" "ow_sso demo_world = []"
  by (simp_all add: demo_world_def)

lemma demo_ids [simp]: "demo_uuid ''3'' = Some 3" "demo_uuid ''5'' = Some 5" "demo_uuid ''6'' = Some 6" "demo_uuid ''1'' = Some 1"
  by code_simp+

lemma demo_names [simp]: "valid_name ''Acme''" "slug_ok ''acme''" "valid_name ''Ann''" "valid_name ''Bob''"
  by code_simp+

text \<open>Requests of the owner's session.\<close>

definition demo_delete :: "org_world \<Rightarrow> org_world" where
  "demo_delete w = snd (mid_authenticate demo_lib demo_header (\<lambda>c. authorize_org_owner (tl_uuid demo_lib) c ''3''
     (app_org_delete (tl_uuid demo_lib) c ''3'' (\<lambda>k. if k = ''confirm'' then ''acme'' else []))) w)"

definition demo_promote :: "org_world \<Rightarrow> org_world" where
  "demo_promote w = snd (mid_authenticate demo_lib demo_header (\<lambda>c. authorize_org_admin (tl_uuid demo_lib) c ''3''
     (app_update_role (tl_uuid demo_lib) c ''3'' (Some \<lparr> rb_member = ''5'', rb_role = ''ORG ADMIN'' \<rparr>))) w)"

lemma demo_runs: "org_run demo_lib demo_world (demo_delete (demo_promote demo_world))"
proof -
  have "org_run demo_lib demo_world (demo_promote demo_world)"
    unfolding demo_promote_def by (rule Run_member [OF Run_start member_request.intros(1)])
  moreover have "org_request demo_lib w (demo_delete w)" for w
    unfolding demo_delete_def by (rule org_request.intros(6))
  ultimately show ?thesis by (auto intro: Run_plain simp: plain_request_def)
qed

end
