(* ===== verification/OrgPrivileges.thy ===== *)
theory OrgPrivileges
  imports OrgDemo
begin

text \<open>
  Nobody gains the roles of the platform: whatever requests run, an account has the roles it started
  with or those of a viewer, and no membership, invitation or single sign-on makes a super admin.
\<close>

subsection \<open>Statements, one table at a time\<close>

text \<open>What a statement may have put into the world it returns.\<close>

definition roles_of :: "org_world \<Rightarrow> account \<Rightarrow> bool" where
  "roles_of w a \<longleftrightarrow> ac_roles a = [User] \<or> (\<exists>b \<in> set (ow_accounts w). ac_id b = ac_id a \<and> ac_roles b = ac_roles a)"

definition all_cached :: "(account \<Rightarrow> bool) \<Rightarrow> (service \<Rightarrow> cache_key \<rightharpoonup> (account \<times> instant)) \<Rightarrow> bool" where
  "all_cached p c \<longleftrightarrow> (\<forall>svc k a t. c svc k = Some (a, t) \<longrightarrow> p a)"

definition unprivileged :: "org_world \<Rightarrow> org_world \<Rightarrow> bool" where
  "unprivileged w0 w \<longleftrightarrow> (\<forall>a \<in> set (ow_accounts w). roles_of w0 a) \<and> all_cached (roles_of w0) (ow_cache w)
     \<and> (\<forall>m \<in> set (ow_members w). me_role m \<noteq> Admin) \<and> (\<forall>iv \<in> set (ow_invites w). iv_role iv \<noteq> Admin)
     \<and> (\<forall>cfg \<in> set (ow_sso w). sx_role cfg \<noteq> Admin)"

lemma unprivileged_cong:
  assumes "unprivileged w0 w" and "ow_accounts w' = ow_accounts w" and "ow_cache w' = ow_cache w" and "ow_members w' = ow_members w"
    and "ow_invites w' = ow_invites w" and "ow_sso w' = ow_sso w"
  shows "unprivileged w0 w'"
  using assms by (simp add: unprivileged_def)

interpretation frame: org_frame "unprivileged w0"
  by unfold_locales (simp_all add: unprivileged_def)

lemma roles_of_same: "roles_of w a \<Longrightarrow> ac_id a = ac_id b \<Longrightarrow> ac_roles a = ac_roles b \<Longrightarrow> roles_of w b"
  by (simp add: roles_of_def)

lemma set_account_roles: "roles_of w a \<Longrightarrow> ac_id r = ac_id a \<Longrightarrow> roles_of w (set_account a r)"
  by (rule roles_of_same [of w a]) (simp_all add: set_account_def)

text \<open>Rows leave, or change in columns other than the role.\<close>

lemmas drops = drop_org_def drop_projects_def drop_account_def Let_def

lemma keeps_unprivileged_cong:
  assumes "\<And>w w'. f w = Inr w' \<Longrightarrow> ow_accounts w' = ow_accounts w \<and> ow_cache w' = ow_cache w \<and> ow_members w' = ow_members w
    \<and> ow_invites w' = ow_invites w \<and> ow_sso w' = ow_sso w"
  shows "keeps (unprivileged w0) (exec f)"
  using assms by (intro frame.keeps_exec) (metis unprivileged_cong)

lemma privileges_untouched:
  "keeps (unprivileged w0) (s_org_create og)" "keeps (unprivileged w0) (s_org_update og)" "keeps (unprivileged w0) (s_update_enabled i v)"
  "keeps (unprivileged w0) (s_sub_create sub)" "keeps (unprivileged w0) (s_sub_upsert sub)" "keeps (unprivileged w0) (s_sub_update sub)"
  "keeps (unprivileged w0) (s_sub_by_stripe text sub)" "keeps (unprivileged w0) (s_store_verify_token u text now)"
  "keeps (unprivileged w0) (s_project_create p)" "keeps (unprivileged w0) (s_project_update p)" "keeps (unprivileged w0) (s_project_delete p)"
  "keeps (unprivileged w0) (s_grant u i)" "keeps (unprivileged w0) (s_key_create k)" "keeps (unprivileged w0) (s_key_delete i)"
  "keeps (unprivileged w0) (s_key_touch i now)" "keeps (unprivileged w0) (s_scim_upsert tok)" "keeps (unprivileged w0) (s_scim_delete i)"
  "keeps (unprivileged w0) (s_scim_touch i now)"
  unfolding s_org_create_def s_org_update_def s_update_enabled_def s_sub_create_def s_sub_upsert_def s_sub_update_def
    s_sub_by_stripe_def s_store_verify_token_def s_project_create_def s_project_update_def s_project_delete_def s_grant_def
    s_key_create_def s_key_delete_def s_key_touch_def s_scim_upsert_def s_scim_delete_def s_scim_touch_def
  by (rule keeps_unprivileged_cong; auto simp: drops split: if_splits option.splits)+

lemma privileges_members:
  "me_role m \<noteq> Admin \<Longrightarrow> keeps (unprivileged w0) (s_add_member m)" "r \<noteq> Admin \<Longrightarrow> keeps (unprivileged w0) (s_member_role i r)"
  "keeps (unprivileged w0) (s_remove_member i)" "keeps (unprivileged w0) (s_org_delete og)"
  unfolding s_add_member_def s_member_role_def s_remove_member_def s_org_delete_def
  by (rule frame.keeps_exec; auto simp: unprivileged_def drops in_update_where split: if_splits)+

lemma privileges_rows:
  "iv_role iv \<noteq> Admin \<Longrightarrow> keeps (unprivileged w0) (s_invite_create iv)" "keeps (unprivileged w0) (s_invite_delete i)"
  "keeps (unprivileged w0) (s_mark_accepted i now)" "sx_role cfg \<noteq> Admin \<Longrightarrow> keeps (unprivileged w0) (s_sso_upsert cfg)"
  "keeps (unprivileged w0) (s_sso_delete i)"
  unfolding s_invite_create_def s_invite_delete_def s_mark_accepted_def s_sso_upsert_def s_sso_delete_def
  by (rule frame.keeps_exec; auto simp: unprivileged_def in_update_where set_sso_def split: if_splits)+

lemma privileges_accounts:
  "roles_of w0 a \<Longrightarrow> keeps (unprivileged w0) (s_user_create a)" "roles_of w0 a \<Longrightarrow> keeps (unprivileged w0) (s_user_update a)"
  "keeps (unprivileged w0) (s_user_delete a)"
  unfolding s_user_create_def s_user_update_def s_user_delete_def
  by (rule frame.keeps_exec; auto simp: unprivileged_def in_update_where drops stored_account_def set_account_roles roles_of_same split: if_splits)+

lemma privileges_cache:
  "roles_of w0 a \<Longrightarrow> keeps (unprivileged w0) (write_cache svc a)" "keeps (unprivileged w0) (delete_cache svc a)"
  by (rule keepsI; auto simp: unprivileged_def write_cache_def delete_cache_def Let_def all_cached_def split: if_splits)+

lemma privileges_compound:
  "keeps (unprivileged w0) (s_consume_verify_token text)" "keeps (unprivileged w0) (org_create actor name slug)"
  "r \<noteq> Admin \<Longrightarrow> keeps (unprivileged w0) (add_member org user r)"
  "keeps (unprivileged w0) (app_key_create sha parse rnd c org_id key)"
proof -
  have used: "keeps (unprivileged w0) (exec (\<lambda>w. Inr (w\<lparr> ow_verify := f w \<rparr>)))" for f
    by (rule keeps_unprivileged_cong) auto
  show "keeps (unprivileged w0) (s_consume_verify_token text)"
    unfolding s_consume_verify_token_def by (intro keeps_intros frame.keeps_row frame.keeps_clock used)
  show "keeps (unprivileged w0) (org_create actor name slug)"
    unfolding org_create_def s_plan_by_slug_def
    by (intro keeps_intros frame.keeps_reads frame.keeps_row frame.keeps_clock frame.keeps_fresh privileges_untouched privileges_members) simp
  show "keeps (unprivileged w0) (add_member org user r)" if "r \<noteq> Admin"
    unfolding add_member_def using that
    by (intro keeps_intros frame.keeps_clock frame.keeps_fresh privileges_members) simp
  show "keeps (unprivileged w0) (app_key_create sha parse rnd c org_id key)"
    unfolding app_key_create_def s_project_def api_key_create_def
    by (intro keeps_intros frame.keeps_row frame.keeps_clock frame.keeps_fresh privileges_untouched)
qed

interpretation priv: member_laws "unprivileged w0" "roles_of w0" "\<lambda>r. r \<noteq> Admin"
proof unfold_locales
  show "roles_of w0 a" if "unprivileged w0 w" "ow_cache w svc k = Some (a, t)" for a w svc k t
    using that unfolding unprivileged_def all_cached_def by blast
qed (auto simp: unprivileged_def roles_of_def privileges_untouched privileges_members privileges_rows privileges_accounts
    privileges_cache privileges_compound)

text \<open>
  C2: no route makes a super admin. Take any sequence of whole requests, single sign-on logins and
  provisioning calls, one after another, with statements failing anywhere, from a state with empty
  caches in which no membership, invitation or single sign-on carries the role of a super admin. Then
  none carries it afterwards, and every account has the roles the account of its identifier had at the
  start or those of a viewer.
\<close>

theorem privileges_never_grow:
  assumes "org_run lib w0 w" and "\<And>svc. ow_cache w0 svc = Map.empty"
    and "Admin \<notin> me_role ` set (ow_members w0) \<union> iv_role ` set (ow_invites w0) \<union> sx_role ` set (ow_sso w0)"
  shows "(\<forall>a \<in> set (ow_accounts w). ac_roles a = [User] \<or> (\<exists>b \<in> set (ow_accounts w0). ac_id b = ac_id a \<and> ac_roles b = ac_roles a))
    \<and> Admin \<notin> me_role ` set (ow_members w) \<union> iv_role ` set (ow_invites w) \<union> sx_role ` set (ow_sso w)"
proof -
  have "unprivileged w0 w0" using assms(2,3) by (force simp: unprivileged_def roles_of_def all_cached_def)
  then have "unprivileged w0 w" by (rule priv.org_run_keeps [OF assms(1)])
  then show ?thesis by (auto simp: unprivileged_def roles_of_def)
qed

lemma privileges_never_grow_witness:
  "Admin \<notin> me_role ` set (ow_members (demo_delete (demo_promote demo_world)))"
  using privileges_never_grow [OF demo_runs] by auto

end
