(* ===== verification/OrgOwner.thy ===== *)
theory OrgOwner
  imports OrgDemo
begin

text \<open>
  The owner of an organization stays its admin: the guard of the two requests that edit a membership
  is checked when they are cleared, and it still holds when they write, whatever ran in between.
\<close>

subsection \<open>The property\<close>

text \<open>
  Identifiers are unique and those of rows to come are fresh; the owner of \<open>o\<close> is one of its admins;
  no cleared edit is one of an owner's membership.
\<close>

definition not_owners :: "org_world \<Rightarrow> uuid \<Rightarrow> bool" where
  "not_owners w i \<longleftrightarrow> i < ow_fresh w \<and> (\<forall>m \<in> set (ow_members w). \<forall>og \<in> set (ow_orgs w).
     me_id m = i \<longrightarrow> og_id og = me_org m \<longrightarrow> og_owner og \<noteq> Some (me_user m))"

definition is_admin :: "org_world \<Rightarrow> uuid \<Rightarrow> uuid \<Rightarrow> bool" where
  "is_admin w org u \<longleftrightarrow> (\<exists>m \<in> set (ow_members w). me_org m = org \<and> me_user m = u \<and> me_role m = OrgAdmin)"

definition owner_admin :: "org_world \<Rightarrow> uuid \<Rightarrow> uuid \<Rightarrow> bool" where
  "owner_admin w org u \<longleftrightarrow> org < ow_fresh w \<and> (\<forall>og \<in> set (ow_orgs w). og_id og = org \<longrightarrow> og_owner og = Some u \<longrightarrow> is_admin w org u)"

definition ids_fresh :: "org_world \<Rightarrow> bool" where
  "ids_fresh w \<longleftrightarrow> distinct (map og_id (ow_orgs w)) \<and> distinct (map me_id (ow_members w))
     \<and> (\<forall>og \<in> set (ow_orgs w). og_id og < ow_fresh w) \<and> (\<forall>m \<in> set (ow_members w). me_id m < ow_fresh w \<and> me_org m < ow_fresh w)"

definition owner_safe :: "uuid \<Rightarrow> uuid \<Rightarrow> uuid list \<Rightarrow> org_world \<Rightarrow> bool" where
  "owner_safe org u is w \<longleftrightarrow> ids_fresh w \<and> owner_admin w org u \<and> (\<forall>i \<in> set is. not_owners w i)"

lemmas owner_defs = owner_safe_def ids_fresh_def owner_admin_def not_owners_def is_admin_def

lemma owner_safe_cong:
  assumes "owner_safe org u is w" and "ow_orgs w' = ow_orgs w" and "ow_members w' = ow_members w" and "ow_fresh w' = ow_fresh w"
  shows "owner_safe org u is w'"
  using assms by (simp add: owner_defs)

interpretation frame: org_frame "owner_safe org u is"
  by unfold_locales (auto simp: owner_defs less_Suc_eq)

lemma keeps_owner_cong:
  assumes "\<And>w w'. f w = Inr w' \<Longrightarrow> ow_orgs w' = ow_orgs w \<and> ow_members w' = ow_members w \<and> ow_fresh w' = ow_fresh w"
  shows "keeps (owner_safe org u is) (exec f)"
  using assms by (intro frame.keeps_exec) (metis owner_safe_cong)

lemma owner_untouched:
  "keeps (owner_safe org u is) (s_sub_create sub)" "keeps (owner_safe org u is) (s_sub_upsert sub)"
  "keeps (owner_safe org u is) (s_sub_update sub)" "keeps (owner_safe org u is) (s_sub_by_stripe text sub)"
  "keeps (owner_safe org u is) (s_user_create a)" "keeps (owner_safe org u is) (s_user_update a)"
  "keeps (owner_safe org u is) (s_store_verify_token v text now)"
  "keeps (owner_safe org u is) (s_project_create p)" "keeps (owner_safe org u is) (s_project_update p)"
  "keeps (owner_safe org u is) (s_project_delete p)" "keeps (owner_safe org u is) (s_grant v i)"
  "keeps (owner_safe org u is) (s_invite_create iv)" "keeps (owner_safe org u is) (s_invite_delete i)"
  "keeps (owner_safe org u is) (s_mark_accepted i now)" "keeps (owner_safe org u is) (s_key_create k)"
  "keeps (owner_safe org u is) (s_key_delete i)" "keeps (owner_safe org u is) (s_key_touch i now)"
  "keeps (owner_safe org u is) (s_sso_upsert cfg)" "keeps (owner_safe org u is) (s_sso_delete i)"
  "keeps (owner_safe org u is) (s_scim_upsert tok)" "keeps (owner_safe org u is) (s_scim_delete i)"
  "keeps (owner_safe org u is) (s_scim_touch i now)"
  unfolding s_sub_create_def s_sub_upsert_def s_sub_update_def s_sub_by_stripe_def s_user_create_def s_user_update_def
    s_store_verify_token_def s_project_create_def s_project_update_def s_project_delete_def s_grant_def s_invite_create_def
    s_invite_delete_def s_mark_accepted_def s_key_create_def s_key_delete_def s_key_touch_def s_sso_upsert_def s_sso_delete_def
    s_scim_upsert_def s_scim_delete_def s_scim_touch_def
  by (rule keeps_owner_cong; auto simp: drop_projects_def Let_def split: if_splits option.splits)+

subsection \<open>Statements on organizations and members\<close>

text \<open>Organizations that lose rows, or change columns other than the id, and owners only to none.\<close>

lemma owner_safe_orgs:
  assumes "owner_safe org u is w" and "ow_fresh w' = ow_fresh w" and "ow_members w' = filter q (ow_members w)"
    and "map og_id (ow_orgs w') = map og_id (filter p (ow_orgs w))"
    and "\<And>og'. og' \<in> set (ow_orgs w') \<Longrightarrow> \<exists>og \<in> set (ow_orgs w). og_id og = og_id og' \<and> og_owner og' \<in> {None, og_owner og}"
    and "\<And>og' m. og' \<in> set (ow_orgs w') \<Longrightarrow> m \<in> set (ow_members w) \<Longrightarrow> og_id og' = me_org m \<Longrightarrow> og_owner og' = Some (me_user m) \<Longrightarrow> q m"
  shows "owner_safe org u is w'"
proof -
  have ids: "distinct (map og_id (ow_orgs w'))" "distinct (map me_id (ow_members w'))"
    using assms(1,3,4) by (auto simp: owner_safe_def ids_fresh_def distinct_map_filter)
  have bounds: "og_id og' < ow_fresh w'" if "og' \<in> set (ow_orgs w')" for og'
    using assms(5) [OF that] assms(1,2) by (auto simp: owner_safe_def ids_fresh_def)
  have admin: "is_admin w' org u" if "og' \<in> set (ow_orgs w')" "og_id og' = org" "og_owner og' = Some u" for og'
  proof -
    from assms(5) [OF that(1)] that have "is_admin w org u"
      using assms(1) by (auto simp: owner_safe_def owner_admin_def)
    then obtain m where m: "m \<in> set (ow_members w)" "me_org m = org" "me_user m = u" "me_role m = OrgAdmin"
      by (auto simp: is_admin_def)
    with assms(6) [OF that(1) m(1)] that have "q m" by simp
    with m show ?thesis by (auto simp: is_admin_def assms(3))
  qed
  have "not_owners w' i" if "not_owners w i" for i
    using that assms(5) unfolding not_owners_def assms(2,3) by fastforce
  with ids bounds admin assms(1,2,3) show ?thesis
    by (auto simp: owner_safe_def ids_fresh_def owner_admin_def)
qed

lemma owner_orgs:
  "keeps (owner_safe org u is) (s_org_update og)" "keeps (owner_safe org u is) (s_update_enabled i v)"
  "keeps (owner_safe org u is) (s_org_delete og)" "keeps (owner_safe org u is) (s_user_delete a)"
proof -
  have whole: "map og_id (update_where p f rows) = map og_id (filter (\<lambda>_. True) rows)" if "\<And>r. og_id (f r) = og_id r" for p f rows
    using that by (simp add: map_update_where_same)
  show "keeps (owner_safe org u is) (s_org_update og)" unfolding s_org_update_def
    by (rule frame.keeps_exec, erule owner_safe_orgs [where p = "\<lambda>_. True" and q = "\<lambda>_. True"])
      (auto simp: in_update_where set_org_def whole split: if_splits, blast+)
  show "keeps (owner_safe org u is) (s_update_enabled i v)" unfolding s_update_enabled_def
    by (rule frame.keeps_exec, erule owner_safe_orgs [where p = "\<lambda>_. True" and q = "\<lambda>_. True"])
      (auto simp: in_update_where whole split: if_splits, blast+)
  show "keeps (owner_safe org u is) (s_org_delete og)" unfolding s_org_delete_def
    by (rule frame.keeps_exec, simp split: if_splits,
      erule owner_safe_orgs [where p = "\<lambda>r. og_id r \<noteq> og_id og" and q = "\<lambda>m. me_org m \<noteq> og_id og"])
      (auto simp: drop_org_def drop_projects_def Let_def)
  show "keeps (owner_safe org u is) (s_user_delete a)" unfolding s_user_delete_def
    by (rule frame.keeps_exec, simp split: if_splits, erule owner_safe_orgs [where p = "\<lambda>_. True" and q = "\<lambda>m. me_user m \<noteq> ac_id a"])
      (auto simp: drop_account_def in_update_where whole, blast+)
qed

lemma owner_members:
  "i \<in> set is \<Longrightarrow> keeps (owner_safe org u is) (s_remove_member i)" "i \<in> set is \<Longrightarrow> keeps (owner_safe org u is) (s_member_role i r)"
proof -
  have other: "\<exists>m. m \<in> set (ow_members w) \<and> me_id m \<noteq> i \<and> me_org m = org \<and> me_user m = u \<and> me_role m = OrgAdmin"
    if "i \<in> set is" "owner_safe org u is w" "og \<in> set (ow_orgs w)" "og_id og = org" "og_owner og = Some u" for w og i
    using that by (fastforce simp: owner_defs)
  show "keeps (owner_safe org u is) (s_remove_member i)" if "i \<in> set is"
    unfolding s_remove_member_def
  proof (rule frame.keeps_exec, simp, hypsubst)
    fix w assume w: "owner_safe org u is w"
    let ?w = "w\<lparr> ow_members := filter (\<lambda>m. me_id m \<noteq> i) (ow_members w) \<rparr>"
    have "owner_admin ?w org u"
      using w other [OF that w] by (fastforce simp: owner_safe_def owner_admin_def is_admin_def)
    with w show "owner_safe org u is ?w"
      by (auto simp: owner_safe_def ids_fresh_def not_owners_def distinct_map_filter)
  qed
  show "keeps (owner_safe org u is) (s_member_role i r)" if "i \<in> set is"
    unfolding s_member_role_def
  proof (rule frame.keeps_exec, simp, hypsubst)
    fix w assume w: "owner_safe org u is w"
    let ?w = "w\<lparr> ow_members := update_where (\<lambda>m. me_id m = i) (\<lambda>m. m\<lparr> me_role := r \<rparr>) (ow_members w) \<rparr>"
    have "owner_admin ?w org u"
      using w other [OF that w] by (fastforce simp: owner_safe_def owner_admin_def is_admin_def in_update_where)
    moreover have "map me_id (ow_members ?w) = map me_id (ow_members w)"
      by (simp add: map_update_where_same)
    ultimately show "owner_safe org u is ?w"
      using w by (fastforce simp: owner_safe_def ids_fresh_def not_owners_def in_update_where)
  qed
qed

text \<open>Rows with an identifier just read.\<close>

abbreviation unused :: "uuid \<Rightarrow> uuid \<Rightarrow> uuid list \<Rightarrow> uuid \<Rightarrow> org_world \<Rightarrow> bool" where
  "unused org u is i w \<equiv> owner_safe org u is w \<and> i < ow_fresh w \<and> i \<notin> set is \<and> i \<noteq> org
     \<and> (\<forall>m \<in> set (ow_members w). me_id m \<noteq> i \<and> me_org m \<noteq> i)"

lemma owner_fresh_unused: "ensures (owner_safe org u is) (owner_safe org u is) org_fresh (unused org u is)"
  by (fastforce simp: ensures_def org_fresh_def owner_defs)

lemma owner_clock: "ensures E (unused org u is i) org_clock (\<lambda>_. unused org u is i)"
  by (rule ensures_clock) (simp add: owner_defs)

lemma owner_insert_member:
  "me_id m = i \<Longrightarrow> ensures (owner_safe org u is) (unused org u is i) (s_add_member m) (\<lambda>_. owner_safe org u is)"
  unfolding s_add_member_def
proof (rule ensures_exec, goal_cases)
  case (3 w w')
  then show ?case
    by (auto simp: owner_safe_def ids_fresh_def owner_admin_def not_owners_def is_admin_def list_ex_iff split: if_splits) blast+
qed (auto simp: frame.faults)

lemma owner_insert_org:
  "og_id og = i \<Longrightarrow> ensures (owner_safe org u is) (unused org u is i) (s_org_create og) (\<lambda>_. owner_safe org u is)"
  unfolding s_org_create_def
proof (rule ensures_exec, goal_cases)
  case (3 w w')
  then show ?case
    by (auto simp: owner_safe_def ids_fresh_def owner_admin_def not_owners_def is_admin_def list_ex_iff stored_org_def split: if_splits) blast+
qed (auto simp: frame.faults)

lemma owner_add_member: "keeps (owner_safe org u is) (add_member o' v r)"
  unfolding add_member_def Let_def
  by (rule ensures_keeps, rule ensures_try [OF owner_fresh_unused], rule ensures_try [OF owner_clock],
      rule ensures_try [OF owner_insert_member]) (auto intro: ensures_ret)

lemma owner_org_create: "keeps (owner_safe org u is) (org_create actor name slug)"
proof -
  let ?P = "owner_safe org u is"
  have rest: "ensures ?P ?P (try_op (s_plan_by_slug v) (\<lambda>free. try_op org_fresh (\<lambda>s. try_op (s_sub_create (f free s)) (\<lambda>_. ret_op og)))) (\<lambda>_. ?P)"
    for v f and og :: org
    unfolding s_plan_by_slug_def
    by (rule keeps_ensures, intro keeps_intros frame.keeps_row frame.keeps_fresh owner_untouched)
  have member: "ensures ?P ?P (try_op org_fresh (\<lambda>m. try_op (s_add_member (g m)) (\<lambda>_. k))) (\<lambda>_. ?P)"
    if "ensures ?P ?P k (\<lambda>_. ?P)" "\<And>m. me_id (g m) = m" for g and k :: "org org_op"
    by (rule ensures_try [OF owner_fresh_unused], rule ensures_try [OF owner_insert_member [OF that(2)]], rule that(1))
  show ?thesis unfolding org_create_def Let_def
    by (rule ensures_keeps, rule ensures_try [OF keeps_ensures [OF frame.keeps_reads(2)]], rule ensures_if, simp add: ensures_fail,
        rule ensures_try [OF keeps_ensures [OF frame.keeps_clock]], rule ensures_try [OF owner_fresh_unused],
        rule ensures_try [OF owner_insert_org], simp, rule member [OF rest]) simp
qed

lemma owner_compound:
  "keeps (owner_safe org u is) (s_consume_verify_token text)" "keeps (owner_safe org u is) (app_key_create sha parse rnd c org_id key)"
proof -
  have used: "keeps (owner_safe org u is) (exec (\<lambda>w. Inr (w\<lparr> ow_verify := f w \<rparr>)))" for f
    by (rule keeps_owner_cong) auto
  show "keeps (owner_safe org u is) (s_consume_verify_token text)"
    unfolding s_consume_verify_token_def by (intro keeps_intros frame.keeps_row frame.keeps_clock used)
  show "keeps (owner_safe org u is) (app_key_create sha parse rnd c org_id key)"
    unfolding app_key_create_def s_project_def api_key_create_def
    by (intro keeps_intros frame.keeps_row frame.keeps_clock frame.keeps_fresh owner_untouched)
qed

lemma owner_cache: "keeps (owner_safe org u is) (write_cache svc a)" "keeps (owner_safe org u is) (delete_cache svc a)"
  by (rule keepsI; simp add: write_cache_def delete_cache_def Let_def owner_defs)+

interpretation owner: org_laws "owner_safe org u is" "\<lambda>_. True" "\<lambda>_. True"
  by unfold_locales (auto simp: owner_untouched owner_orgs owner_add_member owner_org_create owner_compound owner_cache)

subsection \<open>Clearing an edit\<close>

lemma owner_org_read:
  "ensures (owner_safe org u is) (\<lambda>w. owner_safe org u is w \<and> m \<in> set (ow_members w)) (s_org_by_id k)
     (\<lambda>og w. (owner_safe org u is w \<and> m \<in> set (ow_members w)) \<and> og \<in> set (ow_orgs w) \<and> og_id og = k)"
  unfolding s_org_by_id_def
  by (rule ensures_try [OF ensures_row [where R = "\<lambda>og w. (owner_safe org u is w \<and> m \<in> set (ow_members w)) \<and> og \<in> set (ow_orgs w) \<and> og_id og = k"]])
    (auto simp: frame.faults org_name_ok_def intro: ensures_ret ensures_fail)

lemma cleared_not_owner:
  assumes "owner_safe org u is w" and "m \<in> set (ow_members w)" and "og \<in> set (ow_orgs w)" and "og_id og = me_org m"
    and "og_owner og \<noteq> Some (me_user m)"
  shows "owner_safe org u (me_id m # is) w"
proof -
  have "m' = m" if "m' \<in> set (ow_members w)" "me_id m' = me_id m" for m'
    using that assms(1,2) by (auto simp: owner_safe_def ids_fresh_def distinct_map inj_on_def)
  moreover have "og' = og" if "og' \<in> set (ow_orgs w)" "og_id og' = og_id og" for og'
    using that assms(1,3) by (auto simp: owner_safe_def ids_fresh_def distinct_map inj_on_def)
  ultimately have "og_owner og' \<noteq> Some (me_user m')"
    if "m' \<in> set (ow_members w)" "og' \<in> set (ow_orgs w)" "me_id m' = me_id m" "og_id og' = me_org m'" for m' og'
    using that assms(4,5) by metis
  moreover have "me_id m < ow_fresh w" using assms(1,2) by (auto simp: owner_safe_def ids_fresh_def)
  ultimately have "not_owners w (me_id m)" by (auto simp: not_owners_def)
  with assms(1) show ?thesis by (simp add: owner_safe_def)
qed

lemma owner_guard:
  "ensures (owner_safe org u is) (\<lambda>w. owner_safe org u is w \<and> m \<in> set (ow_members w)) (guard_member_change m b)
     (\<lambda>_. owner_safe org u (me_id m # is))"
proof -
  have sub: "owner_safe org u (i # is) w \<Longrightarrow> owner_safe org u is w" for i w
    by (simp add: owner_safe_def)
  have count: "ensures (owner_safe org u is) (owner_safe org u (i # is)) (org_admin_count k) (\<lambda>_. owner_safe org u (i # is))" for i k
    by (rule ensures_error [OF keeps_ensures sub]) (auto simp: org_admin_count_def intro: keeps_intros frame.keeps_reads)
  have rest: "ensures (owner_safe org u is) (owner_safe org u (me_id m # is)) (if b \<or> me_role m \<noteq> OrgAdmin then ret_op ()
      else try_op (org_admin_count (me_org m)) (\<lambda>n. if n \<le> 1 then fail_op Api_last_org_admin else ret_op ())) (\<lambda>_. owner_safe org u (me_id m # is))"
    by (intro ensures_if ensures_ret ensures_try [OF count] ensures_fail) (auto dest: sub)
  show ?thesis unfolding guard_member_change_def
  proof (rule ensures_try [OF ensures_answer [OF owner_org_read]], rule ensures_if)
    fix og :: org assume "og_owner og \<noteq> Some (me_user m)"
    then show "ensures (owner_safe org u is) (\<lambda>w. (owner_safe org u is w \<and> m \<in> set (ow_members w)) \<and> og \<in> set (ow_orgs w) \<and> og_id og = me_org m)
      (if b \<or> me_role m \<noteq> OrgAdmin then ret_op ()
       else try_op (org_admin_count (me_org m)) (\<lambda>n. if n \<le> 1 then fail_op Api_last_org_admin else ret_op ()))
      (\<lambda>_. owner_safe org u (me_id m # is))"
      by (intro ensures_weaken [OF rest]) (auto intro: cleared_not_owner)
  qed (auto intro: ensures_fail)
qed

lemma owner_load:
  "ensures (owner_safe org u is) (owner_safe org u is) (load_org_member parse org_id i)
     (\<lambda>m w. owner_safe org u is w \<and> m \<in> set (ow_members w) \<and> me_id m = i)"
proof -
  have row: "ensures (owner_safe org u is) (owner_safe org u is) (s_member_by_id i) (\<lambda>m w. owner_safe org u is w \<and> m \<in> set (ow_members w) \<and> me_id m = i)"
    unfolding s_member_by_id_def by (rule ensures_row) (auto simp: frame.faults)
  show ?thesis unfolding load_org_member_def
    by (rule ensures_try [OF keeps_ensures [OF keeps_param]], rule ensures_try [OF ensures_answer [OF row]])
      (auto intro!: ensures_if ensures_fail ensures_ret)
qed

lemma owner_cleared:
  "ensures (owner_safe org u is) (owner_safe org u is) (clear_role_change parse org_id body) (\<lambda>x. owner_safe org u (fst x # is))"
  "ensures (owner_safe org u is) (owner_safe org u is) (clear_removal parse org_id member_id) (\<lambda>x. owner_safe org u (fst x # is))"
proof -
  have clear: "ensures (owner_safe org u is) (owner_safe org u is) (try_op (param_id parse v) (\<lambda>i. try_op (load_org_member parse org_id i) (\<lambda>m.
      try_op (guard_member_change m b) (\<lambda>_. ret_op (i, r))))) (\<lambda>x. owner_safe org u (fst x # is))" for v b and r :: "role option"
  proof (rule ensures_try [OF keeps_ensures [OF keeps_param]], rule ensures_try [OF owner_load])
    fix i m
    have g: "ensures (owner_safe org u is) (\<lambda>w. owner_safe org u is w \<and> m \<in> set (ow_members w) \<and> me_id m = i) (guard_member_change m b)
      (\<lambda>_. owner_safe org u (i # is))"
    proof (cases "me_id m = i")
      case True
      then show ?thesis by (intro ensures_weaken [OF owner_guard]) auto
    qed (simp add: ensures_def)
    show "ensures (owner_safe org u is) (\<lambda>w. owner_safe org u is w \<and> m \<in> set (ow_members w) \<and> me_id m = i)
      (try_op (guard_member_change m b) (\<lambda>_. ret_op (i, r))) (\<lambda>x. owner_safe org u (fst x # is))"
      by (rule ensures_try [OF g]) (auto intro: ensures_ret)
  qed
  show "ensures (owner_safe org u is) (owner_safe org u is) (clear_removal parse org_id member_id) (\<lambda>x. owner_safe org u (fst x # is))"
    unfolding clear_removal_def by (rule clear)
  show "ensures (owner_safe org u is) (owner_safe org u is) (clear_role_change parse org_id body) (\<lambda>x. owner_safe org u (fst x # is))"
    unfolding clear_role_change_def by (auto split: option.splits intro: ensures_fail clear)
qed

lemma owner_write:
  assumes "x \<in> set xs" and "owner_safe org u (map fst xs) w"
  shows "owner_safe org u (map fst xs) (snd (write_member c x w))"
proof -
  obtain i r where x: "x = (i, r)" by fastforce
  with assms(1) have i: "i \<in> set (map fst xs)" by force
  have "keeps (owner_safe org u (map fst xs)) (write_member c x)"
    unfolding x write_member_def ext_update_member_role_def update_member_role_def ext_remove_member_def prod.case
    by (intro keeps_intros owner_members i)
  then show ?thesis using assms(2) by (rule keepsD)
qed

lemma edit_run_safe: "edit_run lib w0 s \<Longrightarrow> owner_safe org u [] w0 \<Longrightarrow> owner_safe org u (map fst (snd s)) (fst s)"
proof (induction rule: edit_run.induct)
  case (Edit_plain w1 xs w2)
  then show ?case using owner.plain_request_keeps [of lib w1 w2 org u "map fst xs"] by simp
next
  case (Edit_env w1 xs t ds bs)
  then show ?case using owner.env_keeps [of org u "map fst xs" w1] by simp
next
  case (Edit_role w1 xs org_id body x w2)
  then show ?case using owner_cleared(1) [of org u "map fst xs" "tl_uuid lib" org_id body] by (auto simp: ensures_def)
next
  case (Edit_removal w1 xs org_id member_id x w2)
  then show ?case using owner_cleared(2) [of org u "map fst xs" "tl_uuid lib" org_id member_id] by (auto simp: ensures_def)
next
  case (Edit_write w1 xs x c)
  then show ?case using owner_write [of x xs org u w1 c] by simp
qed simp

text \<open>
  C5: the owner stays an admin. Take any sequence of whole requests of the routes, without the changing
  ones of provisioning (its PATCH, PUT and DELETE, which have no guard), and of role changes and
  removals of members split into their check and their write, each write however long after its check
  and with whatever ran in between; let the identifiers in use at the start be older than those given
  out later. Whoever is an admin of an organization at the start is one in every state in which the
  organization has them as its owner.
\<close>

theorem owner_stays_admin:
  assumes "edit_run lib w0 (w, cleared)" and "ids_fresh w0" and "is_admin w0 org u" and "og \<in> set (ow_orgs w)" and "og_id og = org"
    and "og_owner og = Some u"
  shows "is_admin w org u"
proof -
  have "org < ow_fresh w0" using assms(2,3) by (auto simp: ids_fresh_def is_admin_def)
  then have "owner_safe org u [] w0" using assms(2,3) by (simp add: owner_safe_def owner_admin_def)
  from edit_run_safe [OF assms(1) this] show ?thesis using assms(4-6) by (auto simp: owner_safe_def owner_admin_def)
qed

text \<open>The owner's own session clears the other member's removal, time passes, and the removal is written.\<close>

lemma owner_stays_admin_witness:
  "is_admin (snd (write_member \<lparr> cl_user = Some 1, cl_subject = 1, cl_roles = [] \<rparr> (5, None) (demo_world\<lparr> ow_now := 7, ow_ticks := [], ow_faults := [] \<rparr>))) 3 1"
proof -
  have cleared: "clear_removal (tl_uuid demo_lib) ''3'' ''5'' demo_world = (Inr (5, None), demo_world)"
    by (simp add: clear_removal_def load_org_member_def guard_member_change_def param_id_def demo_lib_def s_member_by_id_def
        s_org_by_id_def org_name_ok_def one_row_def org_call_def try_op_def answer_def case_op_def demo_org_def)
  have run: "edit_run demo_lib demo_world (snd (write_member \<lparr> cl_user = Some 1, cl_subject = 1, cl_roles = [] \<rparr> (5, None)
      (demo_world\<lparr> ow_now := 7, ow_ticks := [], ow_faults := [] \<rparr>)), [(5, None)])" (is "edit_run _ _ (?w, _)")
    by (rule Edit_write [OF Edit_env [OF Edit_removal [OF Edit_start cleared]]]) simp_all
  have start: "ids_fresh demo_world" "is_admin demo_world 3 1" by (simp_all add: ids_fresh_def is_admin_def demo_org_def)
  have "demo_org \<in> set (ow_orgs ?w)"
    by (simp add: write_member_def ext_remove_member_def s_member_with_user_def s_org_by_id_def org_name_ok_def one_row_def
        org_call_def try_op_def answer_def case_op_def demo s_remove_member_def member_users_def exec_def org_audit_def org_fresh_def org_clock_def)
  then show ?thesis by (rule owner_stays_admin [OF run start]) (simp_all add: demo_org_def)
qed

end
