(* ===== verification/OrgSound.thy ===== *)
theory OrgSound
  imports OrgDemo
begin

text \<open>
  The tables of organizations stay sound: identifiers and the other unique columns have no
  duplicates, and whatever a row refers to is there, a key's project in the organization of the key.
\<close>

subsection \<open>Tables with two unique columns and a condition on their rows\<close>

definition rows_ok :: "('r \<Rightarrow> 'a) \<Rightarrow> ('r \<Rightarrow> 'b) \<Rightarrow> ('r \<Rightarrow> bool) \<Rightarrow> 'r list \<Rightarrow> bool" where
  "rows_ok f g fk rows \<longleftrightarrow> distinct (map f rows) \<and> distinct (map g rows) \<and> (\<forall>r \<in> set rows. fk r)"

lemma rows_ok_append:
  "rows_ok f g fk rows \<Longrightarrow> (\<And>x. x \<in> set rows \<Longrightarrow> f x \<noteq> f r \<and> g x \<noteq> g r) \<Longrightarrow> fk r \<Longrightarrow> rows_ok f g fk (rows @ [r])"
  by (fastforce simp: rows_ok_def)

lemma rows_ok_filter:
  "rows_ok f g fk rows \<Longrightarrow> (\<And>r. r \<in> set rows \<Longrightarrow> p r \<Longrightarrow> fk r \<Longrightarrow> fk' r) \<Longrightarrow> rows_ok f g fk' (filter p rows)"
  by (auto simp: rows_ok_def distinct_map_filter)

lemma rows_ok_mono: "rows_ok f g fk rows \<Longrightarrow> (\<And>r. r \<in> set rows \<Longrightarrow> fk r \<Longrightarrow> fk' r) \<Longrightarrow> rows_ok f g fk' rows"
  by (auto simp: rows_ok_def)

lemma rows_ok_map:
  "rows_ok f g fk rows \<Longrightarrow> (\<And>r. f (h r) = f r) \<Longrightarrow> (\<And>r. g (h r) = g r) \<Longrightarrow> (\<And>r. r \<in> set rows \<Longrightarrow> fk r \<Longrightarrow> p r \<Longrightarrow> fk' (h r))
    \<Longrightarrow> (\<And>r. r \<in> set rows \<Longrightarrow> fk r \<Longrightarrow> \<not> p r \<Longrightarrow> fk' r) \<Longrightarrow> rows_ok f g fk' (update_where p h rows)"
  by (auto simp: rows_ok_def map_update_where_same in_update_where)

text \<open>The second column changes too, in the one row that has the identifier, to a value of its own.\<close>

lemma rows_ok_update:
  assumes "rows_ok f g fk rows" and "\<And>r. f (h r) = f r" and "\<And>r. p r \<longleftrightarrow> f r = i"
    and "\<And>r. r \<in> set rows \<Longrightarrow> fk r \<Longrightarrow> p r \<Longrightarrow> fk (h r)" and "\<And>r x. r \<in> set rows \<Longrightarrow> p r \<Longrightarrow> x \<in> set rows \<Longrightarrow> \<not> p x \<Longrightarrow> g (h r) \<noteq> g x"
  shows "rows_ok f g fk (update_where p h rows)"
  using assms distinct_map_update_where [of g rows f p i h]
  by (auto simp: rows_ok_def map_update_where_same in_update_where)

lemma image_update_where:
  assumes "\<And>r. g (h r) = g r"
  shows "g ` set (update_where p h rows) = g ` set rows"
proof -
  have "g (if p r then h r else r) = g r" for r using assms by simp
  then show ?thesis by (simp only: set_update_where image_image)
qed

subsection \<open>The property\<close>

definition org_ids :: "org_world \<Rightarrow> uuid set" where "org_ids w = og_id ` set (ow_orgs w)"
definition account_ids :: "org_world \<Rightarrow> uuid set" where "account_ids w = ac_id ` set (ow_accounts w)"
definition project_keys :: "org_world \<Rightarrow> (uuid \<times> uuid) set" where
  "project_keys w = (\<lambda>p. (pj_id p, pj_org p)) ` set (ow_projects w)"
definition plan_ids :: "org_world \<Rightarrow> uuid set" where "plan_ids w = pl_id ` set (ow_plans w)"

definition opt_in :: "'a option \<Rightarrow> 'a set \<Rightarrow> bool" where
  "opt_in x S \<longleftrightarrow> (case x of None \<Rightarrow> True | Some y \<Rightarrow> y \<in> S)"

lemma opt_in_simps [simp]: "opt_in None S" "opt_in (Some y) S \<longleftrightarrow> y \<in> S"
  by (simp_all add: opt_in_def)

definition orgs_ok :: "org_world \<Rightarrow> bool" where
  "orgs_ok w \<longleftrightarrow> rows_ok og_id og_slug (\<lambda>r. slug_ok (og_slug r) \<and> opt_in (og_owner r) (account_ids w)) (ow_orgs w)"
definition members_ok :: "org_world \<Rightarrow> bool" where
  "members_ok w \<longleftrightarrow> rows_ok me_id (\<lambda>m. (me_org m, me_user m)) (\<lambda>m. me_org m \<in> org_ids w \<and> me_user m \<in> account_ids w) (ow_members w)"
definition projects_ok :: "org_world \<Rightarrow> bool" where
  "projects_ok w \<longleftrightarrow> rows_ok pj_id (\<lambda>p. (pj_org p, pj_name p)) (\<lambda>p. pj_org p \<in> org_ids w) (ow_projects w)"
definition grants_ok :: "org_world \<Rightarrow> bool" where
  "grants_ok w \<longleftrightarrow> rows_ok id id (\<lambda>g. fst g \<in> account_ids w \<and> snd g \<in> fst ` project_keys w) (ow_grants w)"
definition accounts_ok :: "org_world \<Rightarrow> bool" where
  "accounts_ok w \<longleftrightarrow> rows_ok ac_id ac_email (\<lambda>_. True) (ow_accounts w)"
definition tokens_ok :: "org_world \<Rightarrow> bool" where
  "tokens_ok w \<longleftrightarrow> rows_ok vt_token vt_token (\<lambda>t. vt_user t \<in> account_ids w) (ow_verify w)"
definition subs_ok :: "org_world \<Rightarrow> bool" where
  "subs_ok w \<longleftrightarrow> rows_ok sb_id sb_org (\<lambda>s. sb_org s \<in> org_ids w \<and> sb_plan s \<in> plan_ids w) (ow_subs w)"
definition invites_ok :: "org_world \<Rightarrow> bool" where
  "invites_ok w \<longleftrightarrow> rows_ok iv_id iv_token (\<lambda>r. iv_org r \<in> org_ids w \<and> iv_by r \<in> account_ids w) (ow_invites w)"
definition keys_ok :: "org_world \<Rightarrow> bool" where
  "keys_ok w \<longleftrightarrow> rows_ok ak_id ak_hash (\<lambda>k. ak_org k \<in> org_ids w \<and> opt_in (ak_by k) (account_ids w)
     \<and> opt_in (map_option (\<lambda>p. (p, ak_org k)) (ak_project k)) (project_keys w)) (ow_keys w)"
definition sso_ok :: "org_world \<Rightarrow> bool" where
  "sso_ok w \<longleftrightarrow> rows_ok sx_org sx_org (\<lambda>r. sx_org r \<in> org_ids w) (ow_sso w)"
definition scim_ok :: "org_world \<Rightarrow> bool" where
  "scim_ok w \<longleftrightarrow> rows_ok sm_org sm_hash (\<lambda>r. sm_org r \<in> org_ids w) (ow_scim w)"

definition sound :: "org_world \<Rightarrow> bool" where
  "sound w \<longleftrightarrow> orgs_ok w \<and> members_ok w \<and> projects_ok w \<and> grants_ok w \<and> accounts_ok w \<and> tokens_ok w \<and> subs_ok w
     \<and> invites_ok w \<and> keys_ok w \<and> sso_ok w \<and> scim_ok w"

lemmas id_sets = org_ids_def account_ids_def project_keys_def plan_ids_def
lemmas table_defs = orgs_ok_def members_ok_def projects_ok_def grants_ok_def accounts_ok_def tokens_ok_def subs_ok_def
  invites_ok_def keys_ok_def sso_ok_def scim_ok_def
lemmas sound_defs = sound_def table_defs id_sets

interpretation frame: org_frame sound
  by unfold_locales (simp_all add: sound_defs)

text \<open>A world that differs in one table that no other refers to.\<close>

lemma sound_one_table:
  assumes "sound w"
  shows "sound (w\<lparr> ow_members := ms \<rparr>) \<longleftrightarrow> members_ok (w\<lparr> ow_members := ms \<rparr>)"
    "sound (w\<lparr> ow_grants := gs \<rparr>) \<longleftrightarrow> grants_ok (w\<lparr> ow_grants := gs \<rparr>)"
    "sound (w\<lparr> ow_verify := ts \<rparr>) \<longleftrightarrow> tokens_ok (w\<lparr> ow_verify := ts \<rparr>)"
    "sound (w\<lparr> ow_subs := ss \<rparr>) \<longleftrightarrow> subs_ok (w\<lparr> ow_subs := ss \<rparr>)"
    "sound (w\<lparr> ow_invites := ivs \<rparr>) \<longleftrightarrow> invites_ok (w\<lparr> ow_invites := ivs \<rparr>)"
    "sound (w\<lparr> ow_keys := ks \<rparr>) \<longleftrightarrow> keys_ok (w\<lparr> ow_keys := ks \<rparr>)"
    "sound (w\<lparr> ow_sso := cs \<rparr>) \<longleftrightarrow> sso_ok (w\<lparr> ow_sso := cs \<rparr>)"
    "sound (w\<lparr> ow_scim := sms \<rparr>) \<longleftrightarrow> scim_ok (w\<lparr> ow_scim := sms \<rparr>)"
  using assms by (simp_all add: sound_defs)

lemma tableD:
  assumes "sound w"
  shows "members_ok w" "grants_ok w" "tokens_ok w" "subs_ok w" "invites_ok w" "keys_ok w" "sso_ok w" "scim_ok w"
    "orgs_ok w" "projects_ok w" "accounts_ok w"
  using assms by (simp_all add: sound_def)

lemmas one_table = sound_one_table table_defs id_sets

lemma sound_add_member:
  assumes "\<And>x. x \<in> set (ow_members w) \<Longrightarrow> me_id x \<noteq> me_id m \<and> (me_org x, me_user x) \<noteq> (me_org m, me_user m)"
    and "me_org m \<in> org_ids w" and "me_user m \<in> account_ids w" and "sound w"
  shows "sound (w\<lparr> ow_members := ow_members w @ [m] \<rparr>)"
  using tableD(1) [OF assms(4)] assms(1-3) unfolding sound_one_table(1) [OF assms(4)] members_ok_def id_sets
  by (auto intro: rows_ok_append)

lemma sound_add_grant:
  assumes "(u, p) \<notin> set (ow_grants w)" and "u \<in> account_ids w" and "p \<in> fst ` project_keys w" and "sound w"
  shows "sound (w\<lparr> ow_grants := ow_grants w @ [(u, p)] \<rparr>)"
  using tableD(2) [OF assms(4)] assms(1-3) unfolding sound_one_table(2) [OF assms(4)] grants_ok_def id_sets
  by (simp, intro rows_ok_append) auto

lemma sound_add_token:
  assumes "\<And>x. x \<in> set (ow_verify w) \<Longrightarrow> vt_token x \<noteq> vt_token t" and "vt_user t \<in> account_ids w" and "sound w"
  shows "sound (w\<lparr> ow_verify := ow_verify w @ [t] \<rparr>)"
  using tableD(3) [OF assms(3)] assms(1,2) unfolding sound_one_table(3) [OF assms(3)] tokens_ok_def id_sets
  by (auto intro: rows_ok_append)

lemma sound_add_sub:
  assumes "\<And>x. x \<in> set (ow_subs w) \<Longrightarrow> sb_id x \<noteq> sb_id t \<and> sb_org x \<noteq> sb_org t" and "sb_org t \<in> org_ids w" and "sb_plan t \<in> plan_ids w" and "sound w"
  shows "sound (w\<lparr> ow_subs := ow_subs w @ [t] \<rparr>)"
  using tableD(4) [OF assms(4)] assms(1-3) unfolding sound_one_table(4) [OF assms(4)] subs_ok_def id_sets
  by (auto intro: rows_ok_append)

lemma sound_add_invite:
  assumes "\<And>x. x \<in> set (ow_invites w) \<Longrightarrow> iv_id x \<noteq> iv_id t \<and> iv_token x \<noteq> iv_token t" and "iv_org t \<in> org_ids w"
    and "iv_by t \<in> account_ids w" and "sound w"
  shows "sound (w\<lparr> ow_invites := ow_invites w @ [t] \<rparr>)"
  using tableD(5) [OF assms(4)] assms(1-3) unfolding sound_one_table(5) [OF assms(4)] invites_ok_def id_sets
  by (auto intro: rows_ok_append)

lemma project_ids: "pj_id ` set (ow_projects w) = fst ` project_keys w"
  by (simp add: project_keys_def image_image)

lemma plan_exists_ids: "plan_exists w i \<longleftrightarrow> i \<in> plan_ids w"
  by (auto simp: plan_exists_def list_ex_iff plan_ids_def)

lemmas fk_sets = org_ids_def [symmetric] account_ids_def [symmetric] project_ids plan_exists_ids

lemma sound_inserts:
  "keeps sound (s_add_member m)" "keeps sound (s_sub_create sub)" "keeps sound (s_store_verify_token u text now)"
  "keeps sound (s_grant u i)" "keeps sound (s_invite_create iv)"
proof -
  show "keeps sound (s_add_member m)" unfolding s_add_member_def
    by (rule frame.keeps_exec) (auto simp: list_ex_iff fk_sets split: if_splits intro!: sound_add_member)
  show "keeps sound (s_sub_create sub)" unfolding s_sub_create_def
    by (rule frame.keeps_exec) (auto simp: list_ex_iff fk_sets to_write_sub_def split: if_splits intro!: sound_add_sub)
  show "keeps sound (s_store_verify_token u text now)" unfolding s_store_verify_token_def
    by (rule frame.keeps_exec) (auto simp: list_ex_iff fk_sets split: if_splits intro!: sound_add_token)
  show "keeps sound (s_grant u i)" unfolding s_grant_def
    by (rule frame.keeps_exec) (auto simp: fk_sets split: if_splits intro!: sound_add_grant)
  show "keeps sound (s_invite_create iv)" unfolding s_invite_create_def
    by (rule frame.keeps_exec) (auto simp: list_ex_iff fk_sets split: if_splits intro!: sound_add_invite)
qed

text \<open>Rows that leave a table, or change in columns the table's conditions do not read.\<close>

lemma sound_local:
  "keeps sound (s_remove_member i)" "keeps sound (s_member_role i r)" "keeps sound (s_invite_delete i)" "keeps sound (s_mark_accepted i now)"
  "keeps sound (s_key_delete i)" "keeps sound (s_key_touch i now)" "keeps sound (s_sso_delete i)" "keeps sound (s_scim_delete i)"
  "keeps sound (s_scim_touch i now)"
  unfolding s_remove_member_def s_member_role_def s_invite_delete_def s_mark_accepted_def s_key_delete_def s_key_touch_def s_sso_delete_def
    s_scim_delete_def s_scim_touch_def
  by (rule frame.keeps_exec, simp, hypsubst, frule tableD, simp add: one_table; auto elim!: rows_ok_filter rows_ok_map)+

lemma sound_billing:
  "keeps sound (s_sub_upsert sub)" "keeps sound (s_sub_update sub)" "keeps sound (s_sub_by_stripe text sub)"
proof -
  have billing: "sound (w\<lparr> ow_subs := update_where p h (ow_subs w) \<rparr>)"
    if "sound w" "\<And>r. sb_id (h r) = sb_id r" "\<And>r. sb_org (h r) = sb_org r" "\<And>r. list_ex p (ow_subs w) \<Longrightarrow> sb_plan (h r) \<in> plan_ids w" for w p h
  proof (cases "list_ex p (ow_subs w)")
    case True
    then show ?thesis
      using tableD(4) [OF that(1)] that(2-4) unfolding sound_one_table(4) [OF that(1)] subs_ok_def id_sets
      by (auto elim!: rows_ok_map)
  next
    case False
    then have "update_where p h (ow_subs w) = ow_subs w" by (intro update_where_id) (auto simp: list_ex_iff)
    then show ?thesis using that(1) by simp
  qed
  show "keeps sound (s_sub_upsert sub)" unfolding s_sub_upsert_def
    by (rule frame.keeps_exec)
      (auto simp: list_ex_iff fk_sets to_write_sub_def set_billing_def split: if_splits intro!: sound_add_sub billing)
  show "keeps sound (s_sub_update sub)" unfolding s_sub_update_def
    by (rule frame.keeps_exec) (auto simp: fk_sets to_write_sub_def set_billing_def split: if_splits intro!: billing)
  show "keeps sound (s_sub_by_stripe text sub)" unfolding s_sub_by_stripe_def
    by (rule frame.keeps_exec) (auto simp: fk_sets to_write_sub_def set_by_stripe_def split: if_splits intro!: billing)
qed

lemma sound_upserts: "keeps sound (s_sso_upsert cfg)" "keeps sound (s_scim_upsert tok)"
proof -
  have sso: "sound (w\<lparr> ow_sso := ow_sso w @ [c] \<rparr>)"
    if "sound w" "\<And>x. x \<in> set (ow_sso w) \<Longrightarrow> sx_org x \<noteq> sx_org c" "sx_org c \<in> org_ids w" for w c
    using tableD(7) [OF that(1)] that(2,3) unfolding sound_one_table(7) [OF that(1)] sso_ok_def id_sets
    by (auto intro: rows_ok_append)
  have sso': "sound (w\<lparr> ow_sso := update_where p (set_sso c) (ow_sso w) \<rparr>)" if "sound w" for w p c
    using tableD(7) [OF that(1)] unfolding sound_one_table(7) [OF that(1)] sso_ok_def id_sets
    by (auto elim!: rows_ok_map simp: set_sso_def)
  have scim: "sound (w\<lparr> ow_scim := ow_scim w @ [c] \<rparr>)"
    if "sound w" "\<And>x. x \<in> set (ow_scim w) \<Longrightarrow> sm_org x \<noteq> sm_org c \<and> sm_hash x \<noteq> sm_hash c" "sm_org c \<in> org_ids w" for w c
    using tableD(8) [OF that(1)] that(2,3) unfolding sound_one_table(8) [OF that(1)] scim_ok_def id_sets
    by (auto intro: rows_ok_append)
  have scim': "sound (w\<lparr> ow_scim := update_where (\<lambda>r. sm_org r = i) h (ow_scim w) \<rparr>)"
    if "sound w" "\<And>x. x \<in> set (ow_scim w) \<Longrightarrow> sm_org x \<noteq> i \<Longrightarrow> sm_hash x \<noteq> v" "\<And>r. sm_org (h r) = sm_org r" "\<And>r. sm_hash (h r) = v" for w i h v
    using tableD(8) [OF that(1)] that(2-4) unfolding sound_one_table(8) [OF that(1)] scim_ok_def id_sets
    by (auto intro!: rows_ok_update) metis
  show "keeps sound (s_sso_upsert cfg)" unfolding s_sso_upsert_def
    by (rule frame.keeps_exec) (auto simp: list_ex_iff fk_sets split: if_splits intro!: sso sso')
  show "keeps sound (s_scim_upsert tok)" unfolding s_scim_upsert_def
    by (rule frame.keeps_exec) (auto simp: list_ex_iff fk_sets split: if_splits intro!: scim scim' [where v = "sm_hash tok"])
qed

subsection \<open>Tables that others refer to\<close>

text \<open>A row more, or the same identifiers: what refers to the table still finds its row.\<close>

lemma sound_grows:
  assumes "sound w" and "org_ids w \<subseteq> org_ids w'" and "account_ids w \<subseteq> account_ids w'" and "project_keys w \<subseteq> project_keys w'"
    and "plan_ids w \<subseteq> plan_ids w'" and "ow_members w' = ow_members w" and "ow_grants w' = ow_grants w" and "ow_verify w' = ow_verify w"
    and "ow_subs w' = ow_subs w" and "ow_invites w' = ow_invites w" and "ow_keys w' = ow_keys w" and "ow_sso w' = ow_sso w"
    and "ow_scim w' = ow_scim w" and "orgs_ok w'" and "projects_ok w'" and "accounts_ok w'"
  shows "sound w'"
proof -
  have opt: "opt_in x S \<Longrightarrow> S \<subseteq> T \<Longrightarrow> opt_in x T" for x :: "'x option" and S T
    by (auto simp: opt_in_def split: option.splits)
  have k: "keys_ok w'" using tableD(6) [OF assms(1)] assms(2-4,11) unfolding keys_ok_def assms(11)
    by (elim rows_ok_mono) (blast intro: opt)
  from assms show ?thesis using k
    by (auto simp: sound_def members_ok_def grants_ok_def tokens_ok_def subs_ok_def invites_ok_def sso_ok_def scim_ok_def
        elim!: rows_ok_mono)
qed

lemmas main_tables = orgs_ok_def projects_ok_def accounts_ok_def

lemma opt_in_mono: "opt_in x S \<Longrightarrow> S \<subseteq> T \<Longrightarrow> opt_in x T"
  by (auto simp: opt_in_def split: option.splits)

lemma sound_new_rows: "keeps sound (s_org_create og)" "keeps sound (s_user_create a)" "keeps sound (s_project_create p)"
proof -
  show "keeps sound (s_org_create og)" unfolding s_org_create_def
    by (rule frame.keeps_exec, frule tableD(9), frule tableD(10), frule tableD(11), erule sound_grows)
      (auto simp: id_sets main_tables list_ex_iff stored_org_def opt_in_def split: if_splits option.splits
        intro!: rows_ok_append elim!: rows_ok_mono)
  show "keeps sound (s_user_create a)" unfolding s_user_create_def
    by (rule frame.keeps_exec, frule tableD(9), frule tableD(10), frule tableD(11), erule sound_grows)
      (auto simp: id_sets main_tables list_ex_iff stored_account_def split: if_splits
        intro!: rows_ok_append elim!: rows_ok_mono opt_in_mono)
  show "keeps sound (s_project_create p)" unfolding s_project_create_def
    by (rule frame.keeps_exec, frule tableD(9), frule tableD(10), frule tableD(11), erule sound_grows)
      (auto simp: id_sets main_tables list_ex_iff split: if_splits intro!: rows_ok_append elim!: rows_ok_mono)
qed

lemma sound_updates:
  "keeps sound (s_org_update og)" "keeps sound (s_update_enabled i v)" "keeps sound (s_user_update a)" "keeps sound (s_project_update p)"
proof -
  show "keeps sound (s_update_enabled i v)" unfolding s_update_enabled_def
    by (rule frame.keeps_exec, frule tableD(9), frule tableD(10), frule tableD(11), erule sound_grows)
      (auto simp: id_sets main_tables image_update_where elim!: rows_ok_map)
  have org: "orgs_ok (w\<lparr> ow_orgs := update_where (\<lambda>r. og_id r = og_id og) (set_org og) (ow_orgs w) \<rparr>)"
    if "orgs_ok w" "slug_ok (og_slug og)" "\<And>r. r \<in> set (ow_orgs w) \<Longrightarrow> og_id r \<noteq> og_id og \<Longrightarrow> og_slug r \<noteq> og_slug og" for w
    using that by (auto simp: orgs_ok_def account_ids_def set_org_def intro!: rows_ok_update) metis
  show "keeps sound (s_org_update og)" unfolding s_org_update_def
    by (rule frame.keeps_exec, frule tableD(9), frule tableD(10), frule tableD(11), erule sound_grows)
      (auto simp: id_sets projects_ok_def accounts_ok_def list_ex_iff set_org_def image_update_where split: if_splits intro!: org)
  have account: "accounts_ok (w\<lparr> ow_accounts := update_where (\<lambda>r. ac_id r = ac_id a) (set_account a) (ow_accounts w) \<rparr>)"
    if "accounts_ok w" "\<And>r. r \<in> set (ow_accounts w) \<Longrightarrow> ac_id r \<noteq> ac_id a \<Longrightarrow> ac_email r \<noteq> ac_email a" for w
    using that by (auto simp: accounts_ok_def set_account_def intro!: rows_ok_update) metis
  show "keeps sound (s_user_update a)" unfolding s_user_update_def
    by (rule frame.keeps_exec, frule tableD(9), frule tableD(10), frule tableD(11), erule sound_grows)
      (auto simp: id_sets projects_ok_def orgs_ok_def list_ex_iff set_account_def image_update_where split: if_splits intro!: account)
  show "keeps sound (s_project_update p)" unfolding s_project_update_def
  proof (rule frame.keeps_exec, goal_cases)
    case (1 w w')
    show ?case
    proof (cases "List.find (\<lambda>r. pj_id r = pj_id p) (ow_projects w)")
      case None
      with 1 show ?thesis by simp
    next
      case (Some old)
      then have old: "old \<in> set (ow_projects w)" "pj_id old = pj_id p" by (auto dest: find_SomeD)
      from 1 Some have other: "\<not> list_ex (\<lambda>r. pj_id r \<noteq> pj_id p \<and> pj_org r = pj_org old \<and> pj_name r = pj_name p) (ow_projects w)"
        and w': "w' = w\<lparr> ow_projects := update_where (\<lambda>r. pj_id r = pj_id p) (set_project p) (ow_projects w) \<rparr>"
        by (auto split: if_splits)
      have same: "r = old" if "r \<in> set (ow_projects w)" "pj_id r = pj_id p" for r
        using that old tableD(10) [OF 1(1)] by (auto simp: projects_ok_def rows_ok_def distinct_map inj_on_def)
      have "projects_ok w'" unfolding w' projects_ok_def org_ids_def
        using tableD(10) [OF 1(1)] other same unfolding projects_ok_def list_ex_iff org_ids_def
        by (simp, elim rows_ok_update) (auto simp: set_project_def)
      moreover have "project_keys w' = project_keys w" unfolding w' project_keys_def
        by (simp add: image_update_where set_project_def)
      ultimately show ?thesis using 1(1) tableD(9,11) [OF 1(1)] unfolding w'
        by (elim sound_grows) (auto simp: org_ids_def account_ids_def plan_ids_def orgs_ok_def accounts_ok_def)
    qed
  qed
qed

text \<open>Rows leave, and with them what refers to them.\<close>

lemma sound_drop_projects: "sound w \<Longrightarrow> sound (drop_projects p w)"
proof -
  assume w: "sound w"
  let ?gone = "set (map pj_id (filter p (ow_projects w)))"
  have left: "(q, org) \<in> project_keys (drop_projects p w)" if "(q, org) \<in> project_keys w" "q \<notin> ?gone" for q org
    using that by (force simp: project_keys_def drop_projects_def Let_def)
  have p: "projects_ok (drop_projects p w)"
    using tableD(10) [OF w] by (auto simp: projects_ok_def drop_projects_def Let_def org_ids_def elim!: rows_ok_filter)
  have g: "grants_ok (drop_projects p w)"
  proof -
    have "rows_ok id id (\<lambda>g. fst g \<in> account_ids w \<and> snd g \<in> fst ` project_keys (drop_projects p w)) (filter (\<lambda>g. snd g \<notin> ?gone) (ow_grants w))"
      using tableD(2) [OF w] left unfolding grants_ok_def by (elim rows_ok_filter) force
    then show ?thesis by (simp add: grants_ok_def drop_projects_def Let_def account_ids_def)
  qed
  have k: "keys_ok (drop_projects p w)"
  proof -
    have "rows_ok ak_id ak_hash (\<lambda>k. ak_org k \<in> org_ids w \<and> opt_in (ak_by k) (account_ids w)
        \<and> opt_in (map_option (\<lambda>q. (q, ak_org k)) (ak_project k)) (project_keys (drop_projects p w)))
        (filter (\<lambda>k. case ak_project k of None \<Rightarrow> True | Some q \<Rightarrow> q \<notin> ?gone) (ow_keys w))"
      using tableD(6) [OF w] left unfolding keys_ok_def by (elim rows_ok_filter) (auto split: option.splits)
    then show ?thesis by (simp add: keys_ok_def drop_projects_def Let_def account_ids_def org_ids_def)
  qed
  from w show ?thesis using p g k
    by (simp add: sound_def orgs_ok_def members_ok_def accounts_ok_def tokens_ok_def subs_ok_def invites_ok_def sso_ok_def scim_ok_def
        drop_projects_def Let_def id_sets)
qed

lemma sound_drop_org: "sound w \<Longrightarrow> sound (drop_org i w)"
proof -
  assume "sound w"
  then have w: "sound (drop_projects (\<lambda>r. pj_org r = i) w)" (is "sound ?v") by (rule sound_drop_projects)
  have ps: "pj_org p \<noteq> i" if "p \<in> set (ow_projects ?v)" for p
    using that by (auto simp: drop_projects_def Let_def)
  have org: "org_ids (drop_org i w) = org_ids ?v - {i}" by (auto simp: drop_org_def Let_def org_ids_def)
  have other: "account_ids (drop_org i w) = account_ids ?v" "project_keys (drop_org i w) = project_keys ?v" "plan_ids (drop_org i w) = plan_ids ?v"
    by (auto simp: drop_org_def Let_def id_sets)
  have tables: "ow_orgs (drop_org i w) = filter (\<lambda>r. og_id r \<noteq> i) (ow_orgs ?v)"
    "ow_members (drop_org i w) = filter (\<lambda>r. me_org r \<noteq> i) (ow_members ?v)"
    "ow_subs (drop_org i w) = filter (\<lambda>r. sb_org r \<noteq> i) (ow_subs ?v)"
    "ow_invites (drop_org i w) = filter (\<lambda>r. iv_org r \<noteq> i) (ow_invites ?v)"
    "ow_keys (drop_org i w) = filter (\<lambda>r. ak_org r \<noteq> i) (ow_keys ?v)"
    "ow_sso (drop_org i w) = filter (\<lambda>r. sx_org r \<noteq> i) (ow_sso ?v)"
    "ow_scim (drop_org i w) = filter (\<lambda>r. sm_org r \<noteq> i) (ow_scim ?v)"
    "ow_projects (drop_org i w) = ow_projects ?v" "ow_grants (drop_org i w) = ow_grants ?v"
    "ow_accounts (drop_org i w) = ow_accounts ?v" "ow_verify (drop_org i w) = ow_verify ?v"
    by (simp_all add: drop_org_def Let_def)
  note d = tableD [OF w]
  have "orgs_ok (drop_org i w)" "members_ok (drop_org i w)" "subs_ok (drop_org i w)" "invites_ok (drop_org i w)" "keys_ok (drop_org i w)"
    "sso_ok (drop_org i w)" "scim_ok (drop_org i w)"
    using d(9) d(1) d(4) d(5) d(6) d(7) d(8)
    unfolding orgs_ok_def members_ok_def subs_ok_def invites_ok_def keys_ok_def sso_ok_def scim_ok_def tables org other
    by (elim rows_ok_filter, simp)+
  moreover have "projects_ok (drop_org i w)" using d(10) ps unfolding projects_ok_def tables org by (elim rows_ok_mono) auto
  moreover have "grants_ok (drop_org i w)" "accounts_ok (drop_org i w)" "tokens_ok (drop_org i w)"
    using d(2) d(11) d(3) unfolding grants_ok_def accounts_ok_def tokens_ok_def tables other by simp_all
  ultimately show ?thesis by (simp add: sound_def)
qed

lemma sound_drop_account:
  assumes w: "sound w" and i: "\<not> list_ex (\<lambda>r. iv_by r = i) (ow_invites w)"
  shows "sound (drop_account i w)"
proof -
  have acc: "account_ids (drop_account i w) = account_ids w - {i}" by (auto simp: drop_account_def account_ids_def)
  have other: "org_ids (drop_account i w) = org_ids w" "project_keys (drop_account i w) = project_keys w" "plan_ids (drop_account i w) = plan_ids w"
    by (simp_all add: drop_account_def id_sets image_update_where)
  have "orgs_ok (drop_account i w)" using tableD(9) [OF w] unfolding orgs_ok_def acc
    by (auto simp: drop_account_def elim!: rows_ok_map) (auto simp: opt_in_def split: option.splits)
  moreover have "keys_ok (drop_account i w)" using tableD(6) [OF w] unfolding keys_ok_def acc other
    by (auto simp: drop_account_def elim!: rows_ok_map) (auto simp: opt_in_def split: option.splits)
  moreover have "invites_ok (drop_account i w)" using tableD(5) [OF w] i unfolding invites_ok_def acc other
    by (auto simp: drop_account_def list_ex_iff elim!: rows_ok_mono)
  ultimately show ?thesis using tableD [OF w]
    unfolding sound_def members_ok_def grants_ok_def accounts_ok_def tokens_ok_def subs_ok_def sso_ok_def scim_ok_def projects_ok_def acc other
    by (auto simp: drop_account_def elim!: rows_ok_filter)
qed

lemma sound_deletes:
  "keeps sound (s_project_delete p)" "keeps sound (s_org_delete og)" "keeps sound (s_user_delete a)"
  unfolding s_project_delete_def s_org_delete_def s_user_delete_def
  by (rule frame.keeps_exec, auto split: if_splits intro: sound_drop_projects sound_drop_org sound_drop_account)+

subsection \<open>Keys, and the rest of the laws\<close>

lemma sound_add_key:
  assumes "\<And>x. x \<in> set (ow_keys w) \<Longrightarrow> ak_id x \<noteq> ak_id t \<and> ak_hash x \<noteq> ak_hash t" and "ak_org t \<in> org_ids w"
    and "opt_in (ak_by t) (account_ids w)" and "opt_in (map_option (\<lambda>p. (p, ak_org t)) (ak_project t)) (project_keys w)" and "sound w"
  shows "sound (w\<lparr> ow_keys := ow_keys w @ [t] \<rparr>)"
  using tableD(6) [OF assms(5)] assms(1-4) unfolding sound_one_table(6) [OF assms(5)] keys_ok_def id_sets
  by (auto intro: rows_ok_append)

lemma opt_in_case: "(case x of None \<Rightarrow> False | Some y \<Rightarrow> y \<notin> S) \<longleftrightarrow> \<not> opt_in x S"
  by (simp add: opt_in_def split: option.splits)

lemma sound_key_create:
  "ensures sound (\<lambda>w. sound w \<and> opt_in (map_option (\<lambda>p. (p, ak_org k)) (ak_project k)) (project_keys w)) (s_key_create k) (\<lambda>_. sound)"
  unfolding s_key_create_def
proof (rule ensures_exec, goal_cases)
  case (3 w w')
  then show ?case
    by (auto simp: list_ex_iff fk_sets opt_in_case split: if_splits intro!: sound_add_key)
qed (auto simp: frame.faults project_keys_def)

lemma sound_api_key_create:
  "ensures sound (\<lambda>w. sound w \<and> opt_in (map_option (\<lambda>p. (p, org)) (nk_project nk)) (project_keys w)) (api_key_create sha rnd org actor nk) (\<lambda>_. sound)"
proof -
  let ?Q = "\<lambda>w. sound w \<and> opt_in (map_option (\<lambda>p. (p, org)) (nk_project nk)) (project_keys w)"
  have clock: "ensures sound ?Q org_clock (\<lambda>_. ?Q)"
    by (rule ensures_clock) (simp add: sound_defs)
  have fresh: "ensures sound ?Q org_fresh (\<lambda>_. ?Q)"
    by (auto simp: ensures_def org_fresh_def frame.fresh project_keys_def)
  have expiry: "ensures sound ?Q (case nk_expires nk of None \<Rightarrow> ret_op ()
      | Some t \<Rightarrow> try_op org_clock (\<lambda>now. if now < t then ret_op () else fail_op Err_key_expiry)) (\<lambda>_. ?Q)"
    by (auto split: option.splits intro!: ensures_ret ensures_try [OF clock] ensures_if ensures_fail)
  have insert: "ensures sound ?Q (s_key_create k) (\<lambda>_. sound)" if "ak_org k = org" "ak_project k = nk_project nk" for k
    using sound_key_create [of k] unfolding that .
  have make: "ensures sound ?Q (case api_generate_key sha rnd of None \<Rightarrow> fail_op Err_key_random
      | Some (raw, hash, shown) \<Rightarrow> try_op org_fresh (\<lambda>i. try_op org_clock (\<lambda>now.
          try_op (s_key_create (k raw hash shown i now)) (\<lambda>_. ret_op (k raw hash shown i now, raw))))) (\<lambda>_. sound)"
    if "\<And>raw hash shown i now. ak_org (k raw hash shown i now) = org \<and> ak_project (k raw hash shown i now) = nk_project nk" for k
    using that by (auto split: option.splits intro!: ensures_fail ensures_try [OF fresh] ensures_try [OF clock] ensures_try [OF insert] ensures_ret)
  show ?thesis unfolding api_key_create_def Let_def
    by (rule ensures_if, rule ensures_fail, simp, rule ensures_try [OF expiry], rule ensures_if, rule ensures_fail, simp, rule make) simp
qed

lemma sound_app_key_create: "keeps sound (app_key_create sha parse rnd c org_id key)"
proof -
  let ?Q = "\<lambda>org x w. sound w \<and> opt_in (map_option (\<lambda>p. (p, org)) x) (project_keys w)"
  have row: "ensures sound sound (answer code (s_project p)) (\<lambda>pj w. sound w \<and> (p, pj_org pj) \<in> project_keys w)" for code p
    unfolding s_project_def by (rule ensures_answer, rule ensures_row) (auto simp: frame.faults project_keys_def)
  have project: "ensures sound sound (if v = [] then ret_op None
           else try_op (param_id parse v) (\<lambda>p. try_op (answer (not_found_on Err_no_project) (s_project p)) (\<lambda>pj.
             if pj_org pj \<noteq> org then fail_op Api_not_found else ret_op (Some p)))) (?Q org)" for v org
    by (auto intro!: ensures_if ensures_ret ensures_fail ensures_try [OF keeps_ensures [OF keeps_param]] ensures_try [OF row])
  have expires: "ensures sound (?Q org x) (if 0 < d then try_op org_clock (\<lambda>now. ret_op (Some (now + d * (24 * go_hour)))) else ret_op None)
      (\<lambda>_. ?Q org x)" for org x d
    by (auto intro!: ensures_if ensures_ret ensures_try [OF ensures_clock] simp: sound_defs)
  have create: "ensures sound (?Q org x) (answer code (api_key_create sha rnd org actor \<lparr> nk_project = x, nk_name = n, nk_expires = e,
      nk_per_min = p, nk_burst = b \<rparr>)) (\<lambda>_. sound)" for org x code actor n e p b
    using sound_api_key_create [of org "\<lparr> nk_project = x, nk_name = n, nk_expires = e, nk_per_min = p, nk_burst = b \<rparr>"]
    by (intro ensures_answer) simp
  show ?thesis unfolding app_key_create_def
    by (rule ensures_keeps, rule ensures_try [OF keeps_ensures [OF keeps_param]], cases key; simp only: option.case)
      (rule ensures_fail, assumption, rule ensures_try [OF project], rule ensures_if, rule ensures_fail, simp,
        rule ensures_try [OF expires], rule create)
qed

lemma sound_compound:
  "keeps sound (s_consume_verify_token text)" "keeps sound (org_create actor name slug)" "keeps sound (add_member org user r)"
  "keeps sound (write_cache svc a)" "keeps sound (delete_cache svc a)"
proof -
  have used: "keeps sound (exec (\<lambda>w. Inr (w\<lparr> ow_verify := update_where p (\<lambda>t. t\<lparr> vt_used := u \<rparr>) (ow_verify w) \<rparr>)))" for p u
    by (rule frame.keeps_exec, simp, hypsubst, frule tableD, simp add: one_table) (auto elim!: rows_ok_map)
  show "keeps sound (s_consume_verify_token text)"
    unfolding s_consume_verify_token_def by (intro keeps_intros frame.keeps_row frame.keeps_clock used)
  show "keeps sound (org_create actor name slug)" unfolding org_create_def s_plan_by_slug_def
    by (intro keeps_intros frame.keeps_reads frame.keeps_row frame.keeps_clock frame.keeps_fresh sound_new_rows sound_inserts)
  show "keeps sound (add_member org user r)" unfolding add_member_def
    by (intro keeps_intros frame.keeps_clock frame.keeps_fresh sound_inserts)
qed (rule keepsI; simp add: write_cache_def delete_cache_def Let_def sound_defs)+

interpretation tables: member_laws sound "\<lambda>_. True" "\<lambda>_. True"
  by unfold_locales (auto simp: sound_inserts sound_local sound_billing sound_upserts sound_new_rows sound_updates sound_deletes
      sound_app_key_create sound_compound)


lemma demo_sound: "sound demo_world"
  by (simp add: sound_defs rows_ok_def demo opt_in_def)


end
