(* ===== verification/OrgAccess.thy ===== *)
theory OrgAccess
  imports OrgSound
begin

text \<open>
  Who may reach what: the middleware on a project and the listings of projects decide alike, and a key
  of the query API reads only projects of its organization.
\<close>

subsection \<open>Reads on a database that fails nothing\<close>

lemma calls_clean [simp]: "ow_faults w = [] \<Longrightarrow> org_call f w = f w"
  by (simp add: org_call_def)

lemma answer_Inr [simp]: "m w = (Inr x, w') \<Longrightarrow> answer code m w = (Inr x, w')"
  by (simp add: answer_def)

lemma answer_Inl [simp]: "m w = (Inl e, w') \<Longrightarrow> answer code m w = (Inl (code e), w')"
  by (simp add: answer_def)

lemma clean_project:
  "ow_faults w = [] \<Longrightarrow> q \<in> set (ow_projects w) \<Longrightarrow> distinct (map pj_id (ow_projects w)) \<Longrightarrow> s_project (pj_id q) w = (Inr q, w)"
proof -
  assume w: "ow_faults w = []" "q \<in> set (ow_projects w)" "distinct (map pj_id (ow_projects w))"
  obtain r where r: "List.find (\<lambda>p. pj_id p = pj_id q) (ow_projects w) = Some r"
    using w(2) by (cases "List.find (\<lambda>p. pj_id p = pj_id q) (ow_projects w)") (auto simp: find_None_iff)
  then have "r = q" using w(2,3) by (auto dest!: find_SomeD simp: distinct_map inj_on_def)
  with r w show ?thesis by (simp add: s_project_def one_row_def)
qed

lemma clean_orgs:
  assumes "ow_faults w = []" and "list_all (\<lambda>og. valid_name (og_name og)) (ow_orgs w)"
  shows "s_orgs_by_user u w = (Inr (user_orgs w u), w)"
proof -
  have "fst x \<in> set (ow_orgs w)" if "x \<in> set (user_orgs w u)" for x
    using that by (auto simp: user_orgs_def)
  with assms show ?thesis by (auto simp: s_orgs_by_user_def list_all_iff)
qed

lemma user_orgs_admin: "(og, OrgAdmin) \<in> set (user_orgs w u) \<Longrightarrow> admin_of w u (og_id og)"
  by (auto simp: user_orgs_def admin_of_def list_ex_iff)

text \<open>What the statements on access compute.\<close>

definition may_read :: "org_world \<Rightarrow> uuid \<Rightarrow> project \<Rightarrow> bool" where
  "may_read w u q \<longleftrightarrow> admin_of w u (pj_org q) \<or> (u, pj_id q) \<in> set (ow_grants w)"

lemma grant_row: "list_ex (\<lambda>g. snd g = i \<and> fst g = u) gs \<longleftrightarrow> (u, i) \<in> set gs"
  by (force simp: list_ex_iff)

lemma clean_has_access:
  assumes "ow_faults w = []" and "q \<in> set (ow_projects w)" and "distinct (map pj_id (ow_projects w))"
  shows "s_has_access u (pj_id q) w = (Inr (may_read w u q), w)"
proof -
  have "p = q" if "p \<in> set (ow_projects w)" "pj_id p = pj_id q" for p
    using that assms(2,3) by (auto simp: distinct_map inj_on_def)
  then show ?thesis using assms(1,2) by (auto simp: s_has_access_def may_read_def grant_row list_ex_iff)
qed

lemma clean_listing:
  assumes "ow_faults w = []"
  shows "s_query_accessible org u w = (Inr (sort_key pj_created (filter (\<lambda>p. pj_org p = org \<and> may_read w u p) (ow_projects w))), w)"
    "s_visible_by_org org u w = (Inr (sort_key pj_created (filter (\<lambda>p. pj_org p = org \<and> may_read w u p) (ow_projects w))), w)"
    "s_projects_by_org org w = (Inr (sort_key pj_created (filter (\<lambda>p. pj_org p = org) (ow_projects w))), w)"
  using assms by (simp_all add: s_query_accessible_def s_visible_by_org_def s_projects_by_org_def projects_where_def may_read_def grant_row)

lemma clean_org_role:
  assumes "ow_faults w = []" and "q \<in> set (ow_projects w)" and "distinct (map pj_id (ow_projects w))"
    and "list_all (\<lambda>og. valid_name (og_name og)) (ow_orgs w)" and "cl_user c = Some u"
  shows "caller_org_role c (pj_id q) w = (Inr (map_option snd (List.find (\<lambda>x. og_id (fst x) = pj_org q) (user_orgs w u))), w)"
  using assms by (simp add: caller_org_role_def clean_project clean_orgs user_id_def)

lemma org_role_admin:
  "map_option snd (List.find (\<lambda>x. og_id (fst x) = org) (user_orgs w u)) = Some OrgAdmin \<Longrightarrow> admin_of w u org"
  using user_orgs_admin by (auto dest!: find_SomeD)

lemma access_decides:
  assumes "ow_faults w = []" and "q \<in> set (ow_projects w)" and "distinct (map pj_id (ow_projects w))"
    and "list_all (\<lambda>og. valid_name (og_name og)) (ow_orgs w)" and "cl_user c = Some u" and "parse v = Some (pj_id q)"
  shows "require_project_access parse c v w = ((if has_role c Admin \<or> may_read w u q then Inr (pj_id q) else Inl Api_permission_denied), w)"
  using assms org_role_admin [of "pj_org q" w u]
  by (auto simp: require_project_access_def param_id_def clean_org_role clean_has_access user_id_def may_read_def try_op_def)


subsection \<open>Keys of the query API\<close>

text \<open>What stays while a key is authenticated: the tables its answer rests on.\<close>

definition key_tables :: "org_world \<Rightarrow> org_world \<Rightarrow> bool" where
  "key_tables w v \<longleftrightarrow> ow_orgs v = ow_orgs w \<and> ow_projects v = ow_projects w"

definition key_row :: "org_world \<Rightarrow> string \<Rightarrow> api_key \<Rightarrow> bool" where
  "key_row w hash k \<longleftrightarrow> ak_hash k = hash \<and> ak_active k \<and> opt_in (map_option (\<lambda>p. (p, ak_org k)) (ak_project k)) (project_keys w)"

definition usable_key :: "(string \<Rightarrow> string) \<Rightarrow> string \<Rightarrow> org_world \<Rightarrow> api_key \<Rightarrow> bool" where
  "usable_key sha header w k \<longleftrightarrow> (\<exists>raw. bearer_token header = Some raw \<and> has_api_scheme raw \<and> key_row w (api_hash_key sha raw) k)
     \<and> (\<exists>og \<in> set (ow_orgs w). og_id og = ak_org k \<and> og_enabled og)"

lemma ensures_case:
  assumes "ensures E P m Q" and "\<And>e. ensures E' E (h e) R" and "\<And>x. ensures E' (Q x) (k x) R"
  shows "ensures E' P (case_op m h k) R"
  unfolding ensures_def
proof (intro allI impI)
  fix s assume s: "P s"
  obtain r s' where m: "m s = (r, s')" by fastforce
  show "case case_op m h k s of (Inl e, s') \<Rightarrow> E' s' | (Inr x, s') \<Rightarrow> R x s'"
  proof (cases r)
    case (Inl e)
    then have "E s'" using assms(1) s m by (auto simp: ensures_def)
    then show ?thesis using assms(2) [of e] m Inl by (simp add: ensures_def)
  next
    case (Inr x)
    then have "Q x s'" using assms(1) s m by (auto simp: ensures_def)
    then show ?thesis using assms(3) [of x] m Inr by (simp add: ensures_def)
  qed
qed

lemma ensuresD: "ensures E P m Q \<Longrightarrow> m s = (Inr x, s') \<Longrightarrow> P s \<Longrightarrow> Q x s'"
  by (auto simp: ensures_def)

lemma sound_key_row: "sound v \<Longrightarrow> key_tables w v \<Longrightarrow> k \<in> set (ow_keys v) \<Longrightarrow> ak_active k \<Longrightarrow> key_row w (ak_hash k) k"
  by (simp add: sound_def keys_ok_def rows_ok_def key_row_def key_tables_def project_keys_def)

lemma key_tables_frame [simp]: "key_tables w (v\<lparr> ow_faults := bs \<rparr>) = key_tables w v"
  "key_tables w (v\<lparr> ow_now := t, ow_ticks := ds \<rparr>) = key_tables w v" "key_tables w (v\<lparr> ow_touched := f \<rparr>) = key_tables w v"
  "key_tables w (v\<lparr> ow_keys := ks \<rparr>) = key_tables w v"
  by (simp_all add: key_tables_def)

lemma key_found:
  "ensures (key_tables w) (\<lambda>v. sound v \<and> key_tables w v) (api_key_authenticate sha raw)
     (\<lambda>k v. key_row w (api_hash_key sha raw) k \<and> has_api_scheme raw \<and> key_tables w v)"
proof -
  have row: "ensures (key_tables w) (\<lambda>v. sound v \<and> key_tables w v) (s_key_by_hash h)
      (\<lambda>k v. (ak_active k \<longrightarrow> key_row w h k) \<and> key_tables w v)" for h
    unfolding s_key_by_hash_def
    by (rule ensures_row) (auto simp: frame.faults intro: sound_key_row)
  show ?thesis unfolding api_key_authenticate_def
    by (rule ensures_if, rule ensures_fail, simp, rule ensures_case [OF row], rule ensures_fail, assumption, rule ensures_if,
        rule ensures_fail, simp, rule ensures_try [OF ensures_clock])
      (auto intro!: ensures_if ensures_fail ensures_ret)
qed

lemma key_authenticated:
  "ensures (\<lambda>_. True) (\<lambda>v. sound v \<and> key_tables w v) (authenticate_api_key sha header) (\<lambda>k v. usable_key sha header w k \<and> key_tables w v)"
proof -
  let ?K = "\<lambda>raw k v. key_row w (api_hash_key sha raw) k \<and> has_api_scheme raw \<and> key_tables w v"
  let ?U = "\<lambda>raw k v. ?K raw k v \<and> (\<exists>og \<in> set (ow_orgs w). og_id og = ak_org k \<and> og_enabled og)"
  note found = ensures_error [OF ensures_answer [OF key_found], where E' = "\<lambda>_. True"]
  have org: "ensures (\<lambda>_. True) (?K raw k) (answer code (s_org_by_id (ak_org k)))
      (\<lambda>og v. ?K raw k v \<and> og \<in> set (ow_orgs w) \<and> og_id og = ak_org k)" for raw k code
    unfolding s_org_by_id_def org_name_ok_def
    by (rule ensures_answer, rule ensures_try [OF ensures_row [where R = "\<lambda>og v. ?K raw k v \<and> og \<in> set (ow_orgs w) \<and> og_id og = ak_org k"]])
      (auto intro: ensures_ret ensures_fail intro!: ensures_if, simp add: key_tables_def)
  have touch: "keeps (key_tables w) (touch_last_used i t)" for i t
    unfolding touch_last_used_def s_key_touch_def
    by (rule keeps_case) (auto simp: keeps_def exec_def org_call_def split: list.splits)
  have "keeps (key_tables w) (record_use k' t)" for k' t
    by (rule keepsI) (auto simp: record_use_def intro!: keepsD [OF touch])
  then have "keeps (?U raw k) (record_use k' t)" for raw k k' t by (auto simp: keeps_def)
  then have use: "ensures (\<lambda>_. True) (?U raw k) (record_use k' t) (\<lambda>_. ?U raw k)" for raw k k' t
    by (rule ensures_error [OF keeps_ensures]) simp
  have tail: "ensures (\<lambda>_. True) (?U raw k) (try_op org_clock (\<lambda>now. try_op (record_use k now) (\<lambda>_. ret_op k)))
      (\<lambda>k v. usable_key sha header w k \<and> key_tables w v)" if "bearer_token header = Some raw" for raw k
    by (rule ensures_try [OF ensures_error [OF ensures_clock]], simp, simp, rule ensures_try [OF use], rule ensures_ret)
      (auto simp: usable_key_def that)
  show ?thesis unfolding authenticate_api_key_def
    apply (cases "bearer_token header"; simp only: option.case)
    apply (rule ensures_fail, simp)
    apply (rule ensures_if, rule ensures_fail, simp)
    apply (rule ensures_try [OF found], simp)
    apply (rule ensures_if, rule ensures_fail, simp)
    apply (rule ensures_try [OF org])
    apply (rule ensures_if, rule ensures_fail, simp)
    apply (rule ensures_weaken [OF tail], assumption, blast, assumption)
    done
qed

lemma key_scope_projects:
  "ensures (\<lambda>_. True) (\<lambda>v. usable_key sha header w k \<and> key_tables w v) (key_scope k) (\<lambda>ps _. set ps \<subseteq> {p. (p, ak_org k) \<in> project_keys w})"
proof (cases "ak_project k")
  case None
  have list: "ensures (\<lambda>_. True) (\<lambda>v. usable_key sha header w k \<and> key_tables w v) (answer code (s_projects_by_org (ak_org k)))
      (\<lambda>ps _. set (map pj_id ps) \<subseteq> {p. (p, ak_org k) \<in> project_keys w})" for code
    unfolding s_projects_by_org_def projects_where_def
    by (rule ensures_answer) (auto simp: ensures_def org_call_def key_tables_def project_keys_def split: list.splits)
  from None show ?thesis unfolding key_scope_def
    by (simp only: option.case) (rule ensures_try [OF list], rule ensures_ret, simp)
next
  case (Some p)
  then show ?thesis
    by (auto simp: key_scope_def ensures_def usable_key_def key_row_def)
qed

text \<open>
  In any state that requests reach from sound tables, a key that the middleware lets through is
  active, is the one whose digest the caller presented and belongs to an organization that is enabled,
  and every project the key may read is a project of that organization.
\<close>

theorem key_scope_confined:
  assumes "org_run lib w0 w" and "sound w0" and "authenticate_api_key sha header w = (Inr k, w1)" and "key_scope k w1 = (Inr ps, w2)"
  shows "usable_key sha header w k \<and> set ps \<subseteq> {pj_id p | p. p \<in> set (ow_projects w) \<and> pj_org p = ak_org k}"
proof -
  have "sound w" by (rule tables.org_run_keeps [OF assms(1,2)])
  then have "sound w \<and> key_tables w w" by (simp add: key_tables_def)
  from ensuresD [OF key_authenticated assms(3) this] have k: "usable_key sha header w k \<and> key_tables w w1" .
  from ensuresD [OF key_scope_projects assms(4) this] have "set ps \<subseteq> {p. (p, ak_org k) \<in> project_keys w}" .
  also have "\<dots> \<subseteq> {pj_id p | p. p \<in> set (ow_projects w) \<and> pj_org p = ak_org k}" by (auto simp: project_keys_def)
  finally show ?thesis using k by blast
qed


lemma key_scope_confined_witness: "usable_key (\<lambda>v. v) ''Bearer ls_api_live_6b'' demo_world demo_key"
proof -
  have header: "bearer_token ''Bearer ls_api_live_6b'' = Some ''ls_api_live_6b''" "has_api_scheme ''ls_api_live_6b''"
    by code_simp+
  obtain w1 where key: "authenticate_api_key (\<lambda>v. v) ''Bearer ls_api_live_6b'' demo_world = (Inr demo_key, w1)"
    by (simp add: authenticate_api_key_def header api_key_authenticate_def api_hash_key_def s_key_by_hash_def s_org_by_id_def
        org_name_ok_def one_row_def org_call_def try_op_def answer_def case_op_def demo api_key_expired_def org_clock_def
        record_use_def touch_last_used_def s_key_touch_def exec_def)
  have "key_scope demo_key w1 = (Inr [6], w1)" by (simp add: key_scope_def demo_key_def)
  then show ?thesis using key_scope_confined [OF Run_start demo_sound key] by blast
qed

end
