(* ===== verification/OrgSession.thy ===== *)
theory OrgSession
  imports OrgDemo
begin

text \<open>
  Which sessions are accepted: a copy of an account that a service has cached is at most a minute
  old in every state the requests reach, and beyond it the table decides.
\<close>

subsection \<open>How old a cached account is\<close>

definition entry_young :: "instant \<Rightarrow> cache_key \<Rightarrow> account \<times> instant \<Rightarrow> bool" where
  "entry_young now k e \<longleftrightarrow> snd e \<le> now + user_cache_ttl \<and> (\<forall>i. k = Id_key i \<longrightarrow> ac_id (fst e) = i)"

definition cache_young :: "org_world \<Rightarrow> bool" where
  "cache_young w \<longleftrightarrow> list_all (\<lambda>d. 0 \<le> d) (ow_ticks w) \<and> (\<forall>svc k e. ow_cache w svc k = Some e \<longrightarrow> entry_young (ow_now w) k e)"

lemma entry_young_later: "entry_young now k e \<Longrightarrow> now \<le> now' \<Longrightarrow> entry_young now' k e"
  by (simp add: entry_young_def)

lemma cache_young_cong:
  assumes "cache_young w" and "ow_cache w' = ow_cache w" and "ow_now w' = ow_now w" and "ow_ticks w' = ow_ticks w"
  shows "cache_young w'"
  using assms by (simp add: cache_young_def)

lemma cache_young_later:
  assumes "cache_young w" and "ow_now w \<le> t" and "list_all (\<lambda>d. 0 \<le> d) ds"
  shows "cache_young (w\<lparr> ow_now := t, ow_ticks := ds \<rparr>)"
  using assms entry_young_later by (simp add: cache_young_def) blast

interpretation frame: org_frame cache_young
proof unfold_locales
  show "cache_young (w\<lparr> ow_now := ow_now w + d, ow_ticks := ds \<rparr>)" if "cache_young w" "ow_ticks w = d # ds" for w d ds
    using that by (intro cache_young_later) (simp_all add: cache_young_def)
qed (simp_all add: cache_young_later, simp_all add: cache_young_def)

lemma keeps_young_cong:
  assumes "\<And>w w'. f w = Inr w' \<Longrightarrow> ow_cache w' = ow_cache w \<and> ow_now w' = ow_now w \<and> ow_ticks w' = ow_ticks w"
  shows "keeps cache_young (exec f)"
  using assms by (intro frame.keeps_exec) (metis cache_young_cong)

lemma young_statements:
  "keeps cache_young (s_org_create og)" "keeps cache_young (s_org_update og)" "keeps cache_young (s_update_enabled i v)"
  "keeps cache_young (s_org_delete og)" "keeps cache_young (s_add_member m)" "keeps cache_young (s_member_role i r)"
  "keeps cache_young (s_remove_member i)" "keeps cache_young (s_sub_create sub)" "keeps cache_young (s_sub_upsert sub)"
  "keeps cache_young (s_sub_update sub)" "keeps cache_young (s_sub_by_stripe text sub)" "keeps cache_young (s_user_create a)"
  "keeps cache_young (s_user_update a)" "keeps cache_young (s_user_delete a)" "keeps cache_young (s_store_verify_token u text now)"
  "keeps cache_young (s_project_create p)" "keeps cache_young (s_project_update p)" "keeps cache_young (s_project_delete p)"
  "keeps cache_young (s_grant u i)"
  unfolding s_org_create_def s_org_update_def s_update_enabled_def s_org_delete_def s_add_member_def s_member_role_def
    s_remove_member_def s_sub_create_def s_sub_upsert_def s_sub_update_def s_sub_by_stripe_def s_user_create_def
    s_user_update_def s_user_delete_def s_store_verify_token_def s_project_create_def s_project_update_def s_project_delete_def
    s_grant_def
  by (rule keeps_young_cong; auto simp: drop_org_def drop_projects_def drop_account_def Let_def split: if_splits option.splits)+

lemma young_rows:
  "keeps cache_young (s_invite_create iv)" "keeps cache_young (s_invite_delete i)" "keeps cache_young (s_mark_accepted i now)"
  "keeps cache_young (s_key_create k)" "keeps cache_young (s_key_delete i)" "keeps cache_young (s_key_touch i now)"
  "keeps cache_young (s_sso_upsert cfg)" "keeps cache_young (s_sso_delete i)" "keeps cache_young (s_scim_upsert tok)"
  "keeps cache_young (s_scim_delete i)" "keeps cache_young (s_scim_touch i now)"
  unfolding s_invite_create_def s_invite_delete_def s_mark_accepted_def s_key_create_def s_key_delete_def s_key_touch_def
    s_sso_upsert_def s_sso_delete_def s_scim_upsert_def s_scim_delete_def s_scim_touch_def
  by (rule keeps_young_cong; auto split: if_splits option.splits)+

lemma young_cache: "keeps cache_young (write_cache svc a)" "keeps cache_young (delete_cache svc a)"
  by (rule keepsI; auto simp: cache_young_def entry_young_def write_cache_def delete_cache_def Let_def split: if_splits)+

lemma young_compound:
  "keeps cache_young (s_consume_verify_token text)" "keeps cache_young (org_create actor name slug)"
  "keeps cache_young (add_member org user r)" "keeps cache_young (app_key_create sha parse rnd c org_id key)"
proof -
  have used: "keeps cache_young (exec (\<lambda>w. Inr (w\<lparr> ow_verify := f w \<rparr>)))" for f
    by (rule keeps_young_cong) auto
  show "keeps cache_young (s_consume_verify_token text)" "keeps cache_young (org_create actor name slug)"
    "keeps cache_young (add_member org user r)" "keeps cache_young (app_key_create sha parse rnd c org_id key)"
    unfolding s_consume_verify_token_def org_create_def s_plan_by_slug_def add_member_def app_key_create_def s_project_def
      api_key_create_def
    by (intro keeps_intros frame.keeps_reads frame.keeps_row frame.keeps_clock frame.keeps_fresh used young_statements young_rows)+
qed

interpretation young: member_laws cache_young "\<lambda>_. True" "\<lambda>_. True"
  by unfold_locales (simp_all add: young_statements young_rows young_cache young_compound)

subsection \<open>Sessions\<close>

text \<open>What a service has to find behind the subject of a token.\<close>

definition known_enabled :: "org_world \<Rightarrow> service \<Rightarrow> uuid \<Rightarrow> bool" where
  "known_enabled w svc i \<longleftrightarrow> (\<exists>a \<in> set (ow_accounts w). ac_id a = i \<and> ac_enabled a)
     \<or> (\<exists>a t. ow_cache w svc (Id_key i) = Some (a, t) \<and> ac_id a = i \<and> ac_enabled a \<and> ow_now w < t \<and> t \<le> ow_now w + user_cache_ttl)"

definition token_valid :: "token_lib \<Rightarrow> string \<Rightarrow> jwt \<Rightarrow> instant \<Rightarrow> bool" where
  "token_valid lib token p now \<longleftrightarrow> (\<exists>kid key. tl_decode lib token = Some (Some kid, p) \<and> tl_public lib kid = Some key
     \<and> rego_authentication lib key token p now)"

lemma user_row_found:
  assumes "s_user_by_id i v = (Inr a, v')"
  shows "a \<in> set (ow_accounts v) \<and> ac_id a = i"
  using assms
  by (auto simp: s_user_by_id_def to_bus_user_def one_row_def org_call_def try_op_def
      split: prod.splits sum.splits option.splits list.splits if_splits dest: find_SomeD)

lemma user_found:
  assumes "c_user_by_id svc i v = (Inr a, v')" and "cache_young v" and "ac_enabled a"
  shows "known_enabled v svc i"
proof (cases "read_cache svc (Id_key i) v")
  case None
  then obtain v1 where "s_user_by_id i v = (Inr a, v1)"
    using assms(1) by (auto simp: c_user_by_id_def try_op_def write_cache_def split: prod.splits sum.splits)
  then show ?thesis using user_row_found assms(3) by (auto simp: known_enabled_def)
next
  case (Some b)
  then obtain t where t: "ow_cache v svc (Id_key i) = Some (a, t)" "ow_now v < t"
    using assms(1) by (auto simp: c_user_by_id_def read_cache_def split: option.splits if_splits)
  with assms(2) have "entry_young (ow_now v) (Id_key i) (a, t)" unfolding cache_young_def by blast
  with t assms(3) show ?thesis by (auto simp: known_enabled_def entry_young_def)
qed

lemma verified_found:
  assumes "verified_token lib token w = (Inr p, v)"
  shows "token_valid lib token p (ow_now v) \<and> (org_clock :: instant org_op) w = (Inr (ow_now v), v)"
  using assms
  by (auto simp: verified_token_def token_valid_def try_op_def org_clock_def
      split: option.splits prod.splits sum.splits list.splits if_splits)

text \<open>
  In any state the requests reach, a header is accepted as a session only if it carries a token
  that is signed with the key its key id names, is of this issuer and has not expired, and the account
  it is the token of is enabled in the table, or in a copy this service put into its cache within the
  last minute.
\<close>

theorem session_accepted:
  assumes "org_run lib w0 w" and "\<And>svc. ow_cache w0 svc = Map.empty" and "list_all (\<lambda>d. 0 \<le> d) (ow_ticks w0)"
    and "authenticate lib svc header w = (Inr p, w')"
  shows "\<exists>i v. (org_clock :: instant org_op) w = (Inr (ow_now v), v) \<and> has_prefix header bearer \<and> token_valid lib (drop 7 header) p (ow_now v)
    \<and> tl_uuid lib (jw_subject p) = Some i \<and> known_enabled v svc i"
proof -
  have "cache_young w0" using assms(2,3) by (simp add: cache_young_def)
  with assms(1) have w: "cache_young w" by (rule young.org_run_keeps)
  have pre: "has_prefix header bearer" using assms(4) by (auto simp: authenticate_def split: if_splits)
  with assms(4) obtain v v2 where v: "verified_token lib (drop 7 header) w = (Inr p, v)" "is_user_enabled lib svc p v = (Inr (), v2)"
    by (auto simp: authenticate_def try_op_def split: prod.splits sum.splits)
  from v(1) have token: "token_valid lib (drop 7 header) p (ow_now v)" "(org_clock :: instant org_op) w = (Inr (ow_now v), v)"
    using verified_found by blast+
  have "cache_young (snd ((org_clock :: instant org_op) w))" by (rule keepsD [OF frame.keeps_clock w])
  with token(2) have "cache_young v" by simp
  moreover from v(2) obtain i a v3 where "tl_uuid lib (jw_subject p) = Some i" "c_user_by_id svc i v = (Inr a, v3)" "ac_enabled a"
    by (auto simp: is_user_enabled_def try_op_def split: option.splits prod.splits sum.splits if_splits)
  ultimately show ?thesis using pre token user_found by blast
qed

text \<open>The owner's session, a while later.\<close>

lemma session_accepted_witness:
  "\<exists>i v. (org_clock :: instant org_op) (demo_world\<lparr> ow_now := 9 \<rparr>) = (Inr (ow_now v), v) \<and> known_enabled v Auth_service i"
proof -
  have run: "org_run demo_lib demo_world (demo_world\<lparr> ow_now := 9, ow_ticks := [], ow_faults := [] \<rparr>)"
    by (rule Run_env [OF Run_start]) simp_all
  have "has_prefix demo_header bearer" by code_simp
  then obtain w' where "authenticate demo_lib Auth_service demo_header (demo_world\<lparr> ow_now := 9, ow_ticks := [], ow_faults := [] \<rparr>) = (Inr demo_claims, w')"
    by (simp add: authenticate_def verified_token_def demo_lib_def demo_claims_def rego_authentication_def org_clock_def
        is_user_enabled_def c_user_by_id_def read_cache_def s_user_by_id_def to_bus_user_def one_row_def org_call_def try_op_def
        write_cache_def Let_def demo)
  from session_accepted [OF run _ _ this] show ?thesis by (auto simp: demo_world_def)
qed

end
