(* ===== verification/OrgTenant.thy ===== *)
theory OrgTenant
  imports OrgDemo
begin

text \<open>
  Provisioning stays within the organization of the token: a call under \<open>/scim/v2\<close> writes only
  memberships of that organization and accounts it creates.
\<close>

subsection \<open>What a call may have written\<close>

definition own_accounts :: "account list \<Rightarrow> account list \<Rightarrow> bool" where
  "own_accounts as bs \<longleftrightarrow> (\<exists>new. bs = as @ new \<and> ac_id ` set new \<inter> ac_id ` set as = {} \<and> (\<forall>a \<in> set new. ac_roles a = [User]))"

definition scim_bound :: "uuid \<Rightarrow> org_world \<Rightarrow> org_world \<Rightarrow> bool" where
  "scim_bound org w0 w \<longleftrightarrow> filter (\<lambda>m. me_org m \<noteq> org) (ow_members w) = filter (\<lambda>m. me_org m \<noteq> org) (ow_members w0)
     \<and> distinct (map me_id (ow_members w)) \<and> own_accounts (ow_accounts w0) (ow_accounts w)
     \<and> ow_orgs w = ow_orgs w0 \<and> ow_projects w = ow_projects w0 \<and> ow_grants w = ow_grants w0 \<and> ow_keys w = ow_keys w0
     \<and> ow_invites w = ow_invites w0 \<and> ow_subs w = ow_subs w0 \<and> ow_sso w = ow_sso w0"

interpretation frame: org_frame "scim_bound org w0"
  by unfold_locales (simp_all add: scim_bound_def)

text \<open>The rows of the accounts that are new.\<close>

definition is_new :: "org_world \<Rightarrow> account \<Rightarrow> bool" where
  "is_new w0 a \<longleftrightarrow> ac_id a \<notin> ac_id ` set (ow_accounts w0) \<and> ac_roles a = [User]"

lemma own_accounts_append:
  "own_accounts as bs \<Longrightarrow> \<not> list_ex (\<lambda>r. ac_id r = ac_id a) bs \<Longrightarrow> ac_roles a = [User] \<Longrightarrow> own_accounts as (bs @ [a])"
  unfolding own_accounts_def by (elim exE conjE, rule_tac x = "new @ [a]" in exI) (auto simp: list_ex_iff)

lemma update_where_append: "update_where p f (xs @ ys) = update_where p f xs @ update_where p f ys"
  by (simp add: update_where_def)

lemma update_where_none: "(\<And>x. x \<in> set xs \<Longrightarrow> \<not> p x) \<Longrightarrow> update_where p f xs = xs"
  by (induction xs) (simp_all add: update_where_def)

lemma own_accounts_update:
  assumes "own_accounts as bs" and "ac_id a \<notin> ac_id ` set as" and "ac_roles a = [User]"
  shows "own_accounts as (update_where (\<lambda>r. ac_id r = ac_id a) (set_account a) bs)"
proof -
  obtain new where new: "bs = as @ new" "ac_id ` set new \<inter> ac_id ` set as = {}" "\<forall>b \<in> set new. ac_roles b = [User]"
    using assms(1) by (auto simp: own_accounts_def)
  have "update_where (\<lambda>r. ac_id r = ac_id a) (set_account a) as = as"
    using assms(2) by (intro update_where_none) (metis imageI)
  moreover have "map ac_id (update_where (\<lambda>r. ac_id r = ac_id a) (set_account a) new) = map ac_id new"
    by (rule map_update_where_same) (simp add: set_account_def)
  then have "ac_id ` set (update_where (\<lambda>r. ac_id r = ac_id a) (set_account a) new) = ac_id ` set new"
    by (metis set_map)
  moreover have "\<forall>b \<in> set (update_where (\<lambda>r. ac_id r = ac_id a) (set_account a) new). ac_roles b = [User]"
    using new(3) assms(3) by (auto simp: in_update_where set_account_def)
  ultimately show ?thesis using new(2) unfolding own_accounts_def new(1) update_where_append by metis
qed

lemma keeps_accounts:
  "returns (scim_bound org w0) (s_user_create a) (\<lambda>_. ac_id a \<notin> ac_id ` set (ow_accounts w0))" if "ac_roles a = [User]"
proof -
  have "scim_bound org w0 w' \<and> ac_id a \<notin> ac_id ` set (ow_accounts w0)"
    if w: "scim_bound org w0 w" and f: "pg_text (ac_email a)" "\<not> list_ex (\<lambda>r. ac_id r = ac_id a \<or> ac_email r = ac_email a) (ow_accounts w)"
      "w' = w\<lparr> ow_accounts := ow_accounts w @ [stored_account a] \<rparr>" for w w'
  proof -
    have no: "\<not> list_ex (\<lambda>r. ac_id r = ac_id (stored_account a)) (ow_accounts w)" using f(2) by (auto simp: list_ex_iff stored_account_def)
    have "own_accounts (ow_accounts w0) (ow_accounts w @ [stored_account a])"
      using w no \<open>ac_roles a = [User]\<close> by (intro own_accounts_append) (auto simp: scim_bound_def stored_account_def)
    then show ?thesis using w f(2,3) by (auto simp: scim_bound_def own_accounts_def list_ex_iff)
  qed
  then show ?thesis unfolding s_user_create_def exec_def
    by (intro frame.returns_call) (auto split: if_splits)
qed

lemma keeps_new_account:
  assumes "is_new w0 a"
  shows "keeps (scim_bound org w0) (s_user_update a)"
proof -
  have "scim_bound org w0 (w\<lparr> ow_accounts := update_where (\<lambda>r. ac_id r = ac_id a) (set_account a) (ow_accounts w) \<rparr>)"
    if "scim_bound org w0 w" for w
    using that assms own_accounts_update [of "ow_accounts w0" "ow_accounts w" a] by (simp add: scim_bound_def is_new_def)
  then show ?thesis unfolding s_user_update_def by (intro frame.keeps_exec) (auto split: if_split_asm)
qed

lemma keeps_user_cache: "keeps (scim_bound org w0) (write_cache svc a)"
  by (rule keepsI) (simp add: write_cache_def Let_def scim_bound_def)

lemma returns_new_user:
  "returns (scim_bound org w0) (user_create digest actor \<lparr> nu_name = n, nu_email = e, nu_roles = [User], nu_password = p \<rparr>) (is_new w0)"
proof -
  have create: "returns (scim_bound org w0) (c_user_create svc a) (\<lambda>_. is_new w0 a)" if "ac_roles a = [User]" for svc a
    unfolding c_user_create_def using that
    by (intro returns_try [OF keeps_accounts [OF that]] returns_weaken [OF keeps_returns [OF keeps_user_cache]]) (simp add: is_new_def)
  show ?thesis unfolding user_create_def Let_def
    by (cases "digest p"; simp; intro returns_fail returns_try [OF keeps_returns [OF frame.keeps_clock]]
        returns_try [OF keeps_returns [OF frame.keeps_fresh]])
      (rule returns_try [OF create], simp, rule returns_try [OF keeps_returns [OF frame.keeps_audit]], rule returns_ret)
qed

lemma keeps_cached_user:
  "keeps (scim_bound org w0) (c_user_by_id svc i)" "keeps (scim_bound org w0) (c_user_by_email svc e)"
proof -
  have miss: "keeps (scim_bound org w0) (try_op (s_user_by_id i) (\<lambda>a. try_op (write_cache svc a) (\<lambda>_. ret_op a)))"
    "keeps (scim_bound org w0) (try_op (s_user_by_email e) (\<lambda>a. try_op (write_cache svc a) (\<lambda>_. ret_op a)))"
    unfolding s_user_by_id_def s_user_by_email_def to_bus_user_def by (intro keeps_intros frame.keeps_row keeps_user_cache)+
  show "keeps (scim_bound org w0) (c_user_by_id svc i)" "keeps (scim_bound org w0) (c_user_by_email svc e)"
    by (rule keepsI, simp add: c_user_by_id_def c_user_by_email_def keepsD [OF miss(1)] keepsD [OF miss(2)] split: option.splits)+
qed

lemma keeps_enabled_user: "keeps (scim_bound org w0) (create_enabled_user digest draws n e)"
proof -
  have update: "keeps (scim_bound org w0) (user_update digest actor a
      \<lparr> uu_name = None, uu_email = None, uu_roles = None, uu_password = None, uu_enabled = Some True \<rparr>)" if "is_new w0 a" for actor a
    unfolding user_update_def c_user_update_def Let_def using that
    by (intro keeps_intros frame.keeps_clock frame.keeps_audit keeps_new_account keeps_user_cache) (simp add: is_new_def)
  show ?thesis unfolding create_enabled_user_def
    by (intro keeps_intros keeps_try_returns [OF returns_new_user] update)
qed

subsection \<open>The handlers\<close>

lemma keeps_tokens: "keeps (scim_bound org w0) (org_from_token cv header)"
proof -
  have touch: "keeps (scim_bound org w0) (s_scim_touch i t)" for i t
    unfolding s_scim_touch_def by (rule frame.keeps_exec) (auto simp: scim_bound_def)
  show ?thesis unfolding org_from_token_def Let_def scim_authenticate_def s_scim_by_hash_def
    by (intro keeps_intros frame.keeps_row frame.keeps_clock touch)
qed

text \<open>A membership that is found is one of the organization, so its identifier is no other's.\<close>

definition own_member :: "uuid \<Rightarrow> org_world \<Rightarrow> org_member \<Rightarrow> bool" where
  "own_member org w0 m \<longleftrightarrow> me_id m \<notin> me_id ` set (filter (\<lambda>m. me_org m \<noteq> org) (ow_members w0))"

lemma boundD:
  assumes "scim_bound org w0 w"
  shows "filter (\<lambda>m. me_org m \<noteq> org) (ow_members w) = filter (\<lambda>m. me_org m \<noteq> org) (ow_members w0)"
  using assms unfolding scim_bound_def by (rule conjunct1)

lemma own_member_there:
  assumes "scim_bound org w0 w"
  shows "own_member org w0 m \<longleftrightarrow> (\<forall>x \<in> set (ow_members w). me_org x \<noteq> org \<longrightarrow> me_id x \<noteq> me_id m)"
  unfolding own_member_def boundD [OF assms, symmetric] by (auto simp: image_iff)

lemma own_memberD:
  assumes "scim_bound org w0 w" and "own_member org w0 m" and "x \<in> set (ow_members w)" and "me_org x \<noteq> org"
  shows "me_id x \<noteq> me_id m"
  using assms(2-4) unfolding own_member_there [OF assms(1)] by blast

lemma member_is_own:
  assumes "scim_bound org w0 w" and "m \<in> set (ow_members w)" and "me_org m = org"
  shows "own_member org w0 m"
  unfolding own_member_there [OF assms(1)] using assms by (auto simp: scim_bound_def distinct_map inj_on_def)

lemma returns_member_of:
  "returns (scim_bound org w0) (member_of org user) (\<lambda>x. \<forall>m. x = Some m \<longrightarrow> own_member org w0 m)"
proof -
  have "returns (scim_bound org w0) (s_query_members org) (\<lambda>ms. \<forall>m \<in> set ms. own_member org w0 m)"
    unfolding s_query_members_def by (rule frame.returns_call) (auto intro: member_is_own)
  then show ?thesis unfolding member_of_def
    by (rule returns_try) (auto intro!: returns_ret dest: find_SomeD)
qed

lemma keeps_scim_members:
  "keeps (scim_bound org w0) (scim_add_member org user)" "keeps (scim_bound org w0) (deprovision org user)"
proof -
  have add: "keeps (scim_bound org w0) (s_add_member m)" if m: "me_org m = org" for m
  proof -
    have "scim_bound org w0 (w\<lparr> ow_members := ow_members w @ [m\<lparr> me_joined := t \<rparr>] \<rparr>)"
      if "scim_bound org w0 w" "\<not> list_ex (\<lambda>r. me_id r = me_id m \<or> me_org r = me_org m \<and> me_user r = me_user m) (ow_members w)" for w t
    proof -
      have "me_id m \<notin> me_id ` set (ow_members w)" using that(2) by (force simp: list_ex_iff)
      then show ?thesis using that(1) m by (simp add: scim_bound_def)
    qed
    then show ?thesis unfolding s_add_member_def by (intro frame.keeps_exec) (auto split: if_split_asm)
  qed
  show "keeps (scim_bound org w0) (scim_add_member org user)"
    unfolding scim_add_member_def scim_default_role_def s_sso_by_org_def ext_add_member_def add_member_def Let_def
      s_org_by_id_def org_name_ok_def
    by (intro keeps_intros frame.keeps_row frame.keeps_clock frame.keeps_fresh frame.keeps_audit add) simp_all
  have gone: "filter p (filter q ms) = filter p ms" if "\<And>m. m \<in> set ms \<Longrightarrow> p m \<Longrightarrow> q m" for p q and ms :: "org_member list"
    using that by (auto intro: filter_cong)
  have remove: "keeps (scim_bound org w0) (s_remove_member (me_id m))" if m: "own_member org w0 m" for m
  proof -
    have "scim_bound org w0 (w\<lparr> ow_members := filter (\<lambda>x. me_id x \<noteq> me_id m) (ow_members w) \<rparr>)" if w: "scim_bound org w0 w" for w
    proof -
      have "me_id x \<noteq> me_id m" if "x \<in> set (ow_members w)" "me_org x \<noteq> org" for x
        using own_memberD [OF w m that] .
      then show ?thesis using w gone [of "ow_members w" "\<lambda>m. me_org m \<noteq> org" "\<lambda>x. me_id x \<noteq> me_id m"]
        by (auto simp: scim_bound_def distinct_map_filter)
    qed
    then show ?thesis unfolding s_remove_member_def by (intro frame.keeps_exec) auto
  qed
  show "keeps (scim_bound org w0) (deprovision org user)"
    unfolding deprovision_def ext_remove_member_def s_org_by_id_def org_name_ok_def
    by (rule keeps_try_returns [OF returns_or_status [OF returns_member_of]])
      (intro keeps_intros frame.keeps_row frame.keeps_reads frame.keeps_audit remove; simp)
qed

lemmas keeps_scim = keeps_intros frame.keeps_row frame.keeps_reads frame.keeps_clock keeps_tokens keeps_cached_user keeps_enabled_user
  keeps_scim_members returns_keeps [OF returns_member_of]

lemma keeps_lookup: "keeps (scim_bound org w0) (lookup_by_email cv org e)"
  unfolding lookup_by_email_def by (intro keeps_scim)

lemma keeps_scim_get: "keeps (scim_bound org w0) (scim_get_user cv header scim_id)"
proof -
  have "keeps (scim_bound org w0) (member_of other user)" for other user
    unfolding member_of_def by (intro keeps_scim)
  then show ?thesis unfolding scim_get_user_def by (intro keeps_scim)
qed

lemma keeps_set_active: "keeps (scim_bound org w0) (set_active org user active)"
  unfolding set_active_def by (intro keeps_scim)

lemma keeps_resources: "keeps (scim_bound org w0) (scim_resources xs)"
  by (induction xs) (simp_all only: scim_resources.simps scim_resource_of_def, (intro keeps_scim; assumption?)+)

text \<open>A handler is the reading of the token and what it does for the organization.\<close>

lemma after_token:
  assumes "distinct (map me_id (ow_members w))" and "\<And>org. keeps (scim_bound org w) (body org)"
  shows "case fst (org_from_token cv header w) of Inl _ \<Rightarrow> (\<forall>org. scim_bound org w (snd (try_op (org_from_token cv header) body w)))
    | Inr org \<Rightarrow> scim_bound org w (snd (try_op (org_from_token cv header) body w))"
proof -
  have w: "scim_bound org w w" for org using assms(1) by (auto simp: scim_bound_def own_accounts_def)
  obtain r v where t: "org_from_token cv header w = (r, v)" by fastforce
  then have v: "scim_bound org w v" for org using keepsD [OF keeps_tokens w] by (metis snd_conv)
  show ?thesis
  proof (cases r)
    case (Inl e)
    then show ?thesis using t v by (simp add: try_op_def)
  next
    case (Inr org)
    then show ?thesis using t keepsD [OF assms(2) v] by (simp add: try_op_def)
  qed
qed

text \<open>
  C14: a provisioning token stays in its organization. With distinct identifiers of memberships, a
  request under the provisioning routes leaves the memberships of every organization but that of its
  token as they are, and every organization, project, grant, key, invitation, subscription, single
  sign-on and account that was there, whatever statements fail; the accounts it adds are viewers. With
  a token that is refused it leaves the memberships of all organizations as they are too.
\<close>

theorem scim_confined:
  assumes "scim_request cv header w w' \<or> scim_edit cv header w w'" and "distinct (map me_id (ow_members w))"
  shows "case fst (org_from_token cv header w) of Inl _ \<Rightarrow> (\<forall>org. scim_bound org w w') | Inr org \<Rightarrow> scim_bound org w w'"
proof -
  note token = after_token [OF assms(2), of _ cv header]
  from assms(1) show ?thesis
    apply (elim disjE scim_request.cases scim_edit.cases; hypsubst)
    subgoal unfolding scim_query_users_def by (rule token) (intro keeps_scim keeps_lookup keeps_resources)
    subgoal for scim_id unfolding scim_get_user_def by (rule token) (intro keeps_scim)
    subgoal unfolding scim_create_user_def create_local_user_def by (rule token) (intro keeps_scim keeps_lookup)
    subgoal unfolding scim_patch_user_def by (rule token) (intro keeps_scim keeps_scim_get keeps_set_active)
    subgoal unfolding scim_put_user_def by (rule token) (intro keeps_scim keeps_set_active)
    subgoal unfolding scim_delete_user_def by (rule token) (intro keeps_scim)
    done
qed

text \<open>A token of the organization takes its second member out; another organization has one too.\<close>

definition demo_scim :: scim_service where
  "demo_scim = \<lparr> cv_sha = (\<lambda>v. v), cv_parse = demo_uuid, cv_address = Some, cv_digest = Some \<rparr>"

definition demo_provisioned :: org_world where
  "demo_provisioned = demo_world\<lparr> ow_members := ow_members demo_world @ [\<lparr> me_id = 9, me_org = 8, me_user = 2, me_role = User, me_joined = 0 \<rparr>],
     ow_scim := [\<lparr> sm_org = 3, sm_hash = hash_scim_token (\<lambda>v. v) ''ls_scim_6b'', sm_prefix = ''scim_'', sm_created = 0, sm_used = None \<rparr>] \<rparr>"

lemma scim_confined_witness:
  "scim_bound 3 demo_provisioned (snd (scim_delete_user demo_scim ''Bearer ls_scim_6b'' ''2'' demo_provisioned))"
proof -
  have edit: "scim_edit demo_scim h demo_provisioned (snd (scim_delete_user demo_scim h ''2'' demo_provisioned))" for h
    by (rule scim_edit.intros(3))
  have ids: "distinct (map me_id (ow_members demo_provisioned))" by (simp add: demo_provisioned_def)
  have scheme: "has_scim_scheme ''ls_scim_6b''" "equal_fold ''Bearer'' ''bearer''" by code_simp+
  have "fst (org_from_token demo_scim ''Bearer ls_scim_6b'' demo_provisioned) = Inr 3"
    by (simp add: org_from_token_def or_status_def scim_authenticate_def scheme s_scim_by_hash_def one_row_def org_call_def
        case_op_def demo_scim_def demo_provisioned_def try_op_def org_clock_def s_scim_touch_def exec_def)
  then show ?thesis
    using scim_confined [OF disjI2 [OF edit [of "''Bearer ls_scim_6b''"]] ids] by simp
qed

end
