(* ===== verification/Spec2Isabelle.thy ===== *)
theory Spec2Isabelle
  imports TokenBucket Tickets Alerting Spikes ClientQueue RollupHistory RejectCap SourceRun Billing OrgPrivileges OrgOwner OrgAccess OrgSession OrgTenant

begin

text \<open>
  Logingestor receives logs from infrastructure collectors and error reports from browsers and
  servers, stores them per project of an organization, raises alerts on them and lets members and
  API keys read them back. Around this it keeps organizations, accounts, sessions, invitations,
  billing, single sign-on and provisioning. This development models its core logic, file by file, as executable
  definitions over explicit states, and proves what makes each part correct.

  \<^bold>\<open>Parts and how they interact.\<close> A collector presents an ingest key
  (\<open>app/sdk/mid/authenticatesource.go\<close>), passes a token bucket
  (\<open>business/sdk/ingest/limiter.go\<close>), and its batch is parsed, normalized, redacted, sampled, checked
  against the quota and inserted (\<open>app/domain/ingestapp\<close>, \<open>business/sdk/ingest\<close>). The insert keeps an
  hourly rollup (\<open>logbus\<close>, \<open>logdb\<close>) and is evaluated against the alert rules (\<open>integrationbus\<close>); what
  is refused is counted and a bounded part of it kept (\<open>usagebus\<close>, \<open>rejectbus\<close>). A retention run
  deletes what has expired and repairs the rollup (\<open>business/sdk/retention\<close>). Client errors are
  scrubbed, stored once, grouped by fingerprint into issues and watched for spikes
  (\<open>clienterrorbus\<close>). Readers page and export logs through a cursor (\<open>logapp\<close>, \<open>logbus\<close>), under a
  limiter per API key (\<open>business/sdk/ratelimit\<close>); live streams and single sign-on use secrets that can
  be redeemed once (\<open>streamticket.go\<close>, \<open>ssoapp/state.go\<close>). A request of a member carries a token that
  \<open>app/sdk/auth\<close> verifies against the account (\<open>userbus\<close>, through a cache in each of the two services);
  the middleware (\<open>app/sdk/mid\<close>) then decides on organization, role and project, and the handlers of
  \<open>orgapp\<close>, \<open>projectapp\<close>, \<open>invitationapp\<close>, \<open>userapp\<close>, \<open>billingapp\<close>, \<open>apikeyapp\<close>, \<open>ssoapp\<close> and
  \<open>scimapp\<close> run.

  \<^bold>\<open>Theories.\<close>

  \<^item> \<open>Prelude\<close>: the shape of a fallible operation on a state, the fault oracle, list facts.
    \<open>GoLib\<close>, \<open>GoParse\<close>, \<open>GoJson\<close>, \<open>Utf8\<close>, \<open>Regexp\<close>: what the source uses of Go and its standard
    library: 64-bit integers and \<open>time.Time\<close>, \<open>strconv\<close>, \<open>time.Parse\<close>, \<open>json.Unmarshal\<close>, UTF-8 and
    its truncation, \<open>regexp\<close> with leftmost-first matching.
  \<^item> \<open>TokenBucket\<close>: \<open>limiter.go\<close> and \<open>ratelimit.go\<close> with the middleware \<open>ratelimitapikey.go\<close>. The
    locale of a bucket carries the window bound, and is interpreted on both limiters.
  \<^item> \<open>Tickets\<close>: \<open>streamticket.go\<close> and \<open>ssoapp/state.go\<close>, two single-use stores with one contract.
  \<^item> \<open>AlertCondition\<close>, \<open>Suppress\<close>, \<open>AlertStore\<close>, \<open>Alerting\<close>: \<open>condition.go\<close>, \<open>suppress.go\<close>, the
    statements of \<open>integrationdb\<close> and the business layer with the threshold evaluator. The step
    relation of \<open>Alerting\<close> lets requests, ingestion and evaluator passes interleave, with faults.
  \<^item> \<open>Scrub\<close>, \<open>Fingerprint\<close>, \<open>ClientErrors\<close>, \<open>ClientStore\<close>, \<open>ClientInvariant\<close>, \<open>ClientGrouping\<close>,
    \<open>ClientQueue\<close>, \<open>Spikes\<close>: client error monitoring, from \<open>scrub.go\<close>, \<open>fingerprint.go\<close>,
    \<open>resolve.go\<close>, \<open>artifact.go\<close>, \<open>clienterrorbus.go\<close>, \<open>spike.go\<close> and the statements of
    \<open>clienterrordb\<close>.
  \<^item> \<open>LogStore\<close>, \<open>LogRollup\<close>, \<open>Retention\<close>, \<open>RetentionRun\<close>, \<open>RollupHistory\<close>, \<open>Cursor\<close>, \<open>LogQuery\<close>,
    \<open>LogPages\<close>: \<open>logbus\<close>, \<open>logdb\<close>, \<open>retention.go\<close>, and the queries of \<open>orglogs.go\<close> and
    \<open>export.go\<close>. \<open>RollupHistory\<close> lets inserts come between the deletions of a purge, its read of the
    oldest row and its repair; \<open>Cursor\<close> is the text of a cursor, with its JSON, Base64 and times.
  \<^item> \<open>Normalize\<close>, \<open>Usage\<close>, \<open>Ingest\<close>, \<open>Otlp\<close>, \<open>Logfmt\<close>, \<open>IngestRun\<close>, \<open>IngestState\<close>, \<open>RejectCap\<close>:
    the normalization and redaction of \<open>business/sdk/ingest\<close>, \<open>usagebus\<close> and \<open>rejectbus\<close> with their
    statements, the listeners of \<open>ingestapp\<close>, and what a whole request does to the tables. The
    goroutine that stores refusals runs in three steps, its count, its rows and its insert, and
    \<open>RejectCap\<close> bounds what is stored by how many of them overlap.
  \<^item> \<open>Sources\<close>, \<open>SourceRun\<close>: \<open>sourcebus\<close> with \<open>sourcedb\<close> and its audit extension, the handlers of
    \<open>sourceapp\<close>, and \<open>authenticatesource.go\<close>; two administrators' requests interleave.
  \<^item> \<open>Orgs\<close>, \<open>Accounts\<close>, \<open>OrgBus\<close>: a second world, \<open>org_world\<close>, with the tables of organizations,
    members, accounts, projects, grants, plans, subscriptions, invitations, keys, single sign-on and
    provisioning, their statements, and the business layers with their audit extensions and the user
    cache. \<open>Auth\<close>, \<open>OrgApi\<close>, \<open>Billing\<close>, \<open>ApiKeys\<close>, \<open>Sso\<close>, \<open>Scim\<close>: sessions, policies, the
    middleware and the handlers over them.
  \<^item> \<open>OrgFrame\<close>, \<open>OrgRun\<close>, \<open>OrgDemo\<close>: locales for what every statement, and so every handler, keeps;
    the routes and the runs they make up; a small world. \<open>OrgPrivileges\<close>, \<open>OrgOwner\<close>, \<open>OrgSound\<close>,
    \<open>OrgAccess\<close>, \<open>OrgSession\<close>, \<open>OrgTenant\<close>: who can become what, that the owner of an organization
    stays one of its admins, that the tables stay sound, who reads which project and which key reads
    what, whose session a token is, and that provisioning stays in its tenant.

  In each, a Go struct is a record with the source's fields, an enumeration a datatype, a method a
  definition of the same name in snake case, a SQL statement a definition on the list of rows of its
  table with its conflict and returning clauses, and an error a value of the component's own type.

  \<^bold>\<open>What the lemmas show.\<close> For the stores: that every statement keeps the well-formedness of its
  tables (keys unique, counters consistent, children attached). For the operations: each branch, the
  failing ones included. For the components: invariants of every reachable world under any faults,
  refinement of an abstract counter or of a documented decision table, bounds over every window of
  every run, single use of secrets, round trips, and that loops return.

  \<^bold>\<open>Bounds, fuel and termination.\<close> Structural recursion is used where the code ranges over data. A
  greedy repetition of a regular expression is given the length of the rest of the string as fuel,
  which suffices since an iteration that consumes nothing stops, as in Go. The drain of a pass of
  client error grouping is bounded by the code's own constant. Loops that the code leaves unbounded
  (the batched deletes of retention, the pages of an export) are \<open>partial_function (option)\<close>, and
  that they return is proved.

  \<^bold>\<open>Idealisations.\<close> Floating point numbers are rationals, so rounding is not modelled. Instants are
  integers of nanoseconds; a column of type \<open>TIMESTAMP\<close> keeps microseconds (\<open>pg_time\<close>). Counters
  bound for \<open>BIGINT\<close> are integers. A statement is atomic and sees the statements before it; a
  transaction is one as a whole and leaves the tables unchanged when it fails. Requests on
  \<open>org_world\<close> run one after another, but for the edits of a membership, whose check and write are
  apart; requests, jobs and purges on the logs interleave between statements where the text of a step
  relation says so. Which statement, delivery or lookup fails is
  an oracle of the world (\<open>lw_faults\<close> and its like), over which theorems quantify, as they do over
  clock readings. Case folding is that of ASCII. JSON columns hold the values they encode, and Go's
  map iteration is taken in a fixed order where the source sorts afterwards. A day has 24 hours.

  \<^bold>\<open>Parameters.\<close> The digest, the text of a UUID (\<open>uuid_text\<close>) and its parser, gzip and
  \<open>strings.TrimSpace\<close> over non-ASCII blanks, the protocol buffers decoder of OTLP, the texts of JSON
  errors, random draws, the token library (\<open>token_lib\<close>), bcrypt, the grammars of mail addresses and
  URLs, the payment service, the identity provider and whether a mail goes out are arguments. A
  theorem that needs a law of one of them (a digest without collisions, identifiers whose text reads
  back) names it as a hypothesis, and its witness supplies a function with it.

  \<^bold>\<open>Not modelled.\<close> The alert providers (each posts one message to a service outside the repository),
  the wiring of the services and the administration commands, logging, tracing and the web framework,
  the SQL access layer and its vendored array codec, the texts of mails, the sealing of the client
  secret of single sign-on and the cache of discovery documents, the filtered listings of all
  organizations, users and projects, and the handlers that only decode a request, call one operation
  of a modelled kind and encode the answer.
\<close>

end
